(* ===== verification/Registry_Prelude.thy ===== *)
theory Registry_Prelude
  imports
    Complex_Main
    "HOL-Library.Word"
    "HOL-Library.Char_ord"
    "HOL-Library.List_Lexorder"
    "HOL-Library.Signed_Division"
begin

text \<open>
  The vocabulary every component of the registry model shares.

  \<^item> Go's \<open>string\<close> and \<open>[]byte\<close> are both sequences of bytes; an Isabelle \<open>char\<close> is a byte,
    so both are \<open>char list\<close> and the conversions between them are the identity. The order of
    \<open>HOL-Library.List_Lexorder\<close> on them is Go's (and SQLite's binary) string order.
  \<^item> Go's \<open>int64\<close> is an \<open>int\<close> in two's complement range; \<open>i64\<close> is the wrap-around every
    arithmetic operation that may leave the range goes through.
  \<^item> A Go function that returns an error is a function into a sum: \<open>Inl\<close> the error,
    \<open>Inr\<close> the result; \<open>bindR\<close> is the \<open>if err != nil { return err }\<close> chain.
  \<^item> The parts of \<open>strconv\<close>, \<open>encoding/hex\<close> and \<open>strings\<close> that the protocol uses are modelled
    concretely, with the round trips and injectivity facts the encodings rest on.
\<close>

type_synonym bytes = "char list"

named_theorems result_simps "how a chain of fallible steps succeeds or fails"
named_theorems nolf_intros "values that contain no line feed"

subsection \<open>Fallible steps\<close>

fun bindR :: "'e + 'a \<Rightarrow> ('a \<Rightarrow> 'e + 'b) \<Rightarrow> 'e + 'b" where
  "bindR (Inl e) f = Inl e"
| "bindR (Inr a) f = f a"

definition ensure :: "bool \<Rightarrow> 'e \<Rightarrow> 'e + unit" where
  "ensure c e = (if c then Inr () else Inl e)"

definition from_option :: "'e \<Rightarrow> 'a option \<Rightarrow> 'e + 'a" where
  "from_option e x = (case x of None \<Rightarrow> Inl e | Some a \<Rightarrow> Inr a)"

lemma bindR_eq_Inr_iff [result_simps]:
  "bindR r f = Inr b \<longleftrightarrow> (\<exists>a. r = Inr a \<and> f a = Inr b)"
  by (cases r) auto

lemma bindR_eq_Inl_iff:
  "bindR r f = Inl e \<longleftrightarrow> r = Inl e \<or> (\<exists>a. r = Inr a \<and> f a = Inl e)"
  by (cases r) auto

lemma bindR_assoc: "bindR (bindR r f) g = bindR r (\<lambda>x. bindR (f x) g)"
  by (cases r) auto

lemma ensure_eq_Inr_iff [result_simps]: "ensure c e = Inr u \<longleftrightarrow> c"
  by (simp add: ensure_def)

lemma ensure_eq_Inl_iff: "ensure c e = Inl e' \<longleftrightarrow> \<not> c \<and> e' = e"
  by (auto simp: ensure_def)

lemma ensure_True [simp]: "ensure True e = Inr ()"
  and ensure_False [simp]: "ensure False e = Inl e"
  by (simp_all add: ensure_def)

lemma from_option_eq_Inr_iff [result_simps]: "from_option e x = Inr a \<longleftrightarrow> x = Some a"
  by (auto simp: from_option_def split: option.splits)

lemma from_option_simps [simp]:
  "from_option e None = Inl e" "from_option e (Some a) = Inr a"
  by (simp_all add: from_option_def)

lemma bindR_cong [fundef_cong]:
  "r = r' \<Longrightarrow> (\<And>a. r' = Inr a \<Longrightarrow> f a = g a) \<Longrightarrow> bindR r f = bindR r' g"
  by (cases r) auto

text \<open>A loop that runs a fallible step on each element and stops at the first error.\<close>

fun each :: "('a \<Rightarrow> 'e + unit) \<Rightarrow> 'a list \<Rightarrow> 'e + unit" where
  "each f [] = Inr ()"
| "each f (x # xs) = bindR (f x) (\<lambda>_. each f xs)"

lemma each_eq_Inr_iff [result_simps]: "each f xs = Inr u \<longleftrightarrow> (\<forall>x \<in> set xs. f x = Inr ())"
  by (induction xs) (auto simp: result_simps)

subsection \<open>Signed 64-bit integers\<close>

definition i64 :: "int \<Rightarrow> int" where
  "i64 x = (x + 2 ^ 63) mod 2 ^ 64 - 2 ^ 63"

definition is_i64 :: "int \<Rightarrow> bool" where
  "is_i64 x \<longleftrightarrow> - (2 ^ 63) \<le> x \<and> x < 2 ^ 63"

lemma i64_id: "is_i64 x \<Longrightarrow> i64 x = x"
  by (simp add: is_i64_def i64_def)

lemma is_i64_i64 [simp]: "is_i64 (i64 x)"
proof -
  have "0 \<le> (x + 2 ^ 63) mod 2 ^ 64" "(x + 2 ^ 63) mod 2 ^ 64 < 2 ^ 64"
    by (rule pos_mod_sign, simp) (rule pos_mod_bound, simp)
  then show ?thesis by (simp add: is_i64_def i64_def)
qed

lemma i64_nonneg_id: "0 \<le> x \<Longrightarrow> x < 2 ^ 63 \<Longrightarrow> i64 x = x"
  by (simp add: is_i64_def i64_id)

lemma sdiv_smod_nonneg:
  "0 \<le> a \<Longrightarrow> 0 < b \<Longrightarrow> a sdiv b = a div b" "0 \<le> a \<Longrightarrow> 0 < b \<Longrightarrow> a smod b = a mod (b :: int)"
  by (simp_all add: signed_divide_int_def signed_modulo_int_def sgn_if)

text \<open>The largest \<open>int64\<close>, \<open>math.MaxInt64\<close>.\<close>

definition MaxInt64 :: int where
  "MaxInt64 = 2 ^ 63 - 1"

subsection \<open>Lines and canonical text\<close>

text \<open>\<open>strings.Join(lines, "\n")\<close>.\<close>

fun strings_Join_lf :: "string list \<Rightarrow> string" where
  "strings_Join_lf [] = []"
| "strings_Join_lf [l] = l"
| "strings_Join_lf (l # ls) = l @ CHR 0x0A # strings_Join_lf ls"

definition no_lf :: "string \<Rightarrow> bool" where
  "no_lf s \<longleftrightarrow> CHR 0x0A \<notin> set s"

lemma no_lf_Nil [simp, nolf_intros]: "no_lf []"
  by (simp add: no_lf_def)

lemma no_lf_Cons [simp]: "no_lf (c # s) \<longleftrightarrow> c \<noteq> CHR 0x0A \<and> no_lf s"
  by (auto simp: no_lf_def)

lemma no_lf_append [simp]: "no_lf (s @ t) \<longleftrightarrow> no_lf s \<and> no_lf t"
  by (auto simp: no_lf_def)

lemma strings_Join_lf_concat:
  "ls \<noteq> [] \<Longrightarrow> strings_Join_lf ls @ [CHR 0x0A] = concat (map (\<lambda>l. l @ [CHR 0x0A]) ls)"
  by (induction ls rule: strings_Join_lf.induct) auto

lemma append_sep_inj:
  assumes "a \<notin> set x" "a \<notin> set y" "x @ a # r = y @ a # s"
  shows "x = y \<and> r = s"
  using assms
proof (induction x arbitrary: y)
  case Nil
  then show ?case by (cases y) auto
next
  case (Cons c x)
  then show ?case by (cases y) auto
qed

lemma concat_lines_inj:
  assumes "\<forall>l \<in> set xs. no_lf l" "\<forall>l \<in> set ys. no_lf l"
    and "concat (map (\<lambda>l. l @ [CHR 0x0A]) xs) = concat (map (\<lambda>l. l @ [CHR 0x0A]) ys)"
  shows "xs = ys"
  using assms
proof (induction xs arbitrary: ys)
  case Nil
  then show ?case by (cases ys) auto
next
  case (Cons x xs)
  from Cons.prems obtain y ys' where ys: "ys = y # ys'"
    by (cases ys) auto
  with Cons.prems(3) have "x @ CHR 0x0A # concat (map (\<lambda>l. l @ [CHR 0x0A]) xs)
      = y @ CHR 0x0A # concat (map (\<lambda>l. l @ [CHR 0x0A]) ys')"
    by simp
  with Cons.prems(1,2) ys have "x = y \<and>
      concat (map (\<lambda>l. l @ [CHR 0x0A]) xs) = concat (map (\<lambda>l. l @ [CHR 0x0A]) ys')"
    by (intro append_sep_inj) (auto simp: no_lf_def)
  with Cons.IH [of ys'] Cons.prems(1,2) ys show ?case by simp
qed

subsection \<open>Decimal text\<close>

text \<open>\<open>strconv.FormatInt(x, 10)\<close> and \<open>strconv.FormatBool\<close>.\<close>

definition digit_char :: "nat \<Rightarrow> char" where
  "digit_char d = char_of (48 + d)"

fun nat_decimal :: "nat \<Rightarrow> string" where
  "nat_decimal n = (if n < 10 then [digit_char n] else nat_decimal (n div 10) @ [digit_char (n mod 10)])"

declare nat_decimal.simps [simp del]

definition FormatInt :: "int \<Rightarrow> string" where
  "FormatInt x = (if x < 0 then CHR ''-'' # nat_decimal (nat (- x)) else nat_decimal (nat x))"

definition FormatBool :: "bool \<Rightarrow> string" where
  "FormatBool b = (if b then ''true'' else ''false'')"

lemma of_char_digit_char: "d < 10 \<Longrightarrow> of_char (digit_char d) = (48 + d :: nat)"
  by (simp add: digit_char_def)

lemma digit_char_inj: "d < 10 \<Longrightarrow> e < 10 \<Longrightarrow> digit_char d = digit_char e \<longleftrightarrow> d = e"
  by (metis add_left_cancel of_char_digit_char)

definition decimal_value :: "string \<Rightarrow> nat" where
  "decimal_value = foldl (\<lambda>v c. 10 * v + (of_char c - 48)) 0"

lemma decimal_value_snoc: "decimal_value (s @ [c]) = 10 * decimal_value s + (of_char c - 48)"
  by (simp add: decimal_value_def)

lemma decimal_value_Nil [simp]: "decimal_value [] = 0"
  by (simp add: decimal_value_def)

lemma decimal_value_nat_decimal: "decimal_value (nat_decimal n) = n"
proof (induction n rule: nat_decimal.induct)
  case (1 n)
  show ?case
  proof (cases "n < 10")
    case True
    then show ?thesis
      using decimal_value_snoc [of "[]"] by (simp add: nat_decimal.simps [of n] of_char_digit_char)
  next
    case False
    with 1 show ?thesis
      by (simp add: nat_decimal.simps [of n] decimal_value_snoc of_char_digit_char)
  qed
qed

lemma nat_decimal_inj: "nat_decimal m = nat_decimal n \<longleftrightarrow> m = n"
  by (metis decimal_value_nat_decimal)

lemma nat_decimal_digits: "c \<in> set (nat_decimal n) \<Longrightarrow> \<exists>d < 10. c = digit_char d"
proof (induction n rule: nat_decimal.induct)
  case (1 n)
  show ?case
  proof (cases "n < 10")
    case True
    with "1.prems" show ?thesis by (auto simp: nat_decimal.simps [of n])
  next
    case False
    with "1.prems" consider "c \<in> set (nat_decimal (n div 10))" | "c = digit_char (n mod 10)"
      by (auto simp: nat_decimal.simps [of n])
    then show ?thesis
      using "1.IH" [OF False] by cases (auto intro: exI [of _ "n mod 10"])
  qed
qed

lemma digit_char_neq: "d < 10 \<Longrightarrow> of_char c < (48 :: nat) \<Longrightarrow> digit_char d \<noteq> c"
  by (metis not_add_less1 of_char_digit_char)

lemma no_lf_nat_decimal: "no_lf (nat_decimal n)"
proof -
  have "c \<noteq> CHR 0x0A" if "c \<in> set (nat_decimal n)" for c
    using nat_decimal_digits [OF that] digit_char_neq [of _ "CHR 0x0A"] by auto
  then show ?thesis by (auto simp: no_lf_def)
qed

lemma minus_lt_zero_char: "of_char (CHR ''-'') < (48 :: nat)"
  by simp

lemma minus_notin_nat_decimal: "CHR ''-'' \<notin> set (nat_decimal n)"
proof
  assume "CHR ''-'' \<in> set (nat_decimal n)"
  then obtain d where "d < 10" "CHR ''-'' = digit_char d"
    using nat_decimal_digits by blast
  then show False using of_char_digit_char [of d] by (metis (no_types) digit_char_neq minus_lt_zero_char)
qed

lemma nat_decimal_not_minus: "nat_decimal n \<noteq> CHR ''-'' # s"
  using minus_notin_nat_decimal [of n] by auto

lemma FormatInt_inj [simp]: "FormatInt x = FormatInt y \<longleftrightarrow> x = y"
  using nat_decimal_not_minus
  by (auto simp: FormatInt_def nat_decimal_inj eq_commute [of "CHR ''-'' # _"])

lemma no_lf_FormatInt [simp, nolf_intros]: "no_lf (FormatInt x)"
  by (simp add: FormatInt_def no_lf_nat_decimal)

lemma FormatBool_inj [simp]: "FormatBool x = FormatBool y \<longleftrightarrow> x = y"
  by (simp add: FormatBool_def)

lemma no_lf_FormatBool [simp, nolf_intros]: "no_lf (FormatBool x)"
  by (simp add: FormatBool_def)

subsection \<open>Hexadecimal text\<close>

text \<open>\<open>hex.EncodeToString\<close> and \<open>hex.DecodeString\<close>: two digits per byte, high nibble first;
  the decoder accepts both letter cases and fails on any other byte and on an odd length.\<close>

definition hex_digit :: "nat \<Rightarrow> char" where
  "hex_digit n = (if n < 10 then char_of (48 + n) else char_of (87 + n))"

fun hex_EncodeToString :: "bytes \<Rightarrow> string" where
  "hex_EncodeToString [] = []"
| "hex_EncodeToString (b # bs) =
     hex_digit (of_char b div 16) # hex_digit (of_char b mod 16) # hex_EncodeToString bs"

definition fromHexChar :: "char \<Rightarrow> nat option" where
  "fromHexChar c = (let n = of_char c :: nat in
     if 48 \<le> n \<and> n \<le> 57 then Some (n - 48)
     else if 97 \<le> n \<and> n \<le> 102 then Some (n - 87)
     else if 65 \<le> n \<and> n \<le> 70 then Some (n - 55)
     else None)"

fun hex_DecodeString :: "string \<Rightarrow> bytes option" where
  "hex_DecodeString [] = Some []"
| "hex_DecodeString [c] = None"
| "hex_DecodeString (a # b # s) =
     (case (fromHexChar a, fromHexChar b) of
        (Some x, Some y) \<Rightarrow> map_option ((#) (char_of (16 * x + y))) (hex_DecodeString s)
      | _ \<Rightarrow> None)"

lemma of_char_hex_digit: "n < 16 \<Longrightarrow> of_char (hex_digit n) = (if n < 10 then 48 + n else 87 + n :: nat)"
  by (simp add: hex_digit_def)

lemma fromHexChar_hex_digit [simp]: "n < 16 \<Longrightarrow> fromHexChar (hex_digit n) = Some n"
  by (auto simp: fromHexChar_def of_char_hex_digit Let_def)

lemma of_char_lt_256: "of_char c < (256 :: nat)"
  by simp

lemma hex_decode_encode [simp]: "hex_DecodeString (hex_EncodeToString bs) = Some bs"
proof (induction bs)
  case (Cons b bs)
  have "of_char b div 16 < (16 :: nat)" using of_char_lt_256 [of b] by linarith
  with Cons show ?case by simp
qed simp

lemma hex_encode_inj [simp]: "hex_EncodeToString x = hex_EncodeToString y \<longleftrightarrow> x = y"
  by (metis hex_decode_encode option.inject)

lemma length_hex_encode [simp]: "length (hex_EncodeToString bs) = 2 * length bs"
  by (induction bs) auto

lemma hex_decode_length: "hex_DecodeString s = Some bs \<Longrightarrow> length s = 2 * length bs"
  by (induction s arbitrary: bs rule: hex_DecodeString.induct) (auto split: option.splits)

text \<open>The lower-case hexadecimal digits, the alphabet of a canonical digest.\<close>

definition is_lower_hex :: "char \<Rightarrow> bool" where
  "is_lower_hex c \<longleftrightarrow> (CHR ''0'' \<le> c \<and> c \<le> CHR ''9'') \<or> (CHR ''a'' \<le> c \<and> c \<le> CHR ''f'')"

lemma is_lower_hex_of_char:
  "is_lower_hex c \<longleftrightarrow> (48 \<le> (of_char c :: nat) \<and> (of_char c :: nat) \<le> 57) \<or>
    (97 \<le> (of_char c :: nat) \<and> (of_char c :: nat) \<le> 102)"
  by (simp add: is_lower_hex_def less_eq_char_def)

lemma is_lower_hex_hex_digit [simp]: "n < 16 \<Longrightarrow> is_lower_hex (hex_digit n)"
  by (auto simp: is_lower_hex_of_char of_char_hex_digit)

lemma hex_encode_lower: "c \<in> set (hex_EncodeToString bs) \<Longrightarrow> is_lower_hex c"
proof (induction bs)
  case (Cons b bs)
  have "of_char b div 16 < (16 :: nat)" using of_char_lt_256 [of b] by linarith
  with Cons show ?case by auto
qed simp

lemma fromHexChar_lower:
  assumes "is_lower_hex c"
  shows "\<exists>n < 16. fromHexChar c = Some n \<and> hex_digit n = c"
proof -
  let ?n = "of_char c :: nat"
  have c: "char_of ?n = c" by simp
  from assms consider "48 \<le> ?n" "?n \<le> 57" | "97 \<le> ?n" "?n \<le> 102"
    by (auto simp: is_lower_hex_of_char)
  then show ?thesis
  proof cases
    case 1
    then show ?thesis using c
      by (intro exI [of _ "?n - 48"]) (auto simp: fromHexChar_def hex_digit_def Let_def)
  next
    case 2
    then show ?thesis using c
      by (intro exI [of _ "?n - 87"]) (auto simp: fromHexChar_def hex_digit_def Let_def)
  qed
qed

lemma hex_encode_decode:
  assumes "even (length s)" "\<forall>c \<in> set s. is_lower_hex c"
  shows "\<exists>bs. hex_DecodeString s = Some bs \<and> hex_EncodeToString bs = s"
  using assms
proof (induction s rule: hex_DecodeString.induct)
  case (3 a b s)
  from "3.prems"(2) obtain x y where xy: "x < 16" "fromHexChar a = Some x" "hex_digit x = a"
      "y < 16" "fromHexChar b = Some y" "hex_digit y = b"
    using fromHexChar_lower by (metis list.set_intros)
  from "3.IH" [of "Some x" "Some y" x y] "3.prems" xy
  obtain bs where bs: "hex_DecodeString s = Some bs" "hex_EncodeToString bs = s"
    by auto
  have "of_char (char_of (16 * x + y) :: char) = 16 * x + y"
    using xy by simp
  with xy bs show ?case by simp
qed auto

lemma lower_hex_no_lf: "\<forall>c \<in> set s. is_lower_hex c \<Longrightarrow> no_lf s"
  by (auto simp: no_lf_def is_lower_hex_of_char)

end
