(* ===== verification/Sha256.thy ===== *)
theory Sha256
  imports Registry_Prelude
begin

text \<open>
  \<open>crypto/sha256\<close> as the registry uses it: \<open>sha256.Sum256\<close>, defined from FIPS 180-4 over 32-bit
  words. The protocol and store models below take the digest function as an argument, and the
  interface they rely on is the locale \<open>digest32\<close>: every digest has 32 bytes. The
  interpretation \<open>sha256_sum\<close> discharges that interface for the real function.
\<close>

type_synonym u32 = "32 word"

unbundle bit_operations_syntax

definition sha256_K :: "u32 list" where
  "sha256_K = [
    1116352408, 1899447441, 3049323471, 3921009573, 961987163, 1508970993, 2453635748, 2870763221,
    3624381080, 310598401, 607225278, 1426881987, 1925078388, 2162078206, 2614888103, 3248222580,
    3835390401, 4022224774, 264347078, 604807628, 770255983, 1249150122, 1555081692, 1996064986,
    2554220882, 2821834349, 2952996808, 3210313671, 3336571891, 3584528711, 113926993, 338241895,
    666307205, 773529912, 1294757372, 1396182291, 1695183700, 1986661051, 2177026350, 2456956037,
    2730485921, 2820302411, 3259730800, 3345764771, 3516065817, 3600352804, 4094571909, 275423344,
    430227734, 506948616, 659060556, 883997877, 958139571, 1322822218, 1537002063, 1747873779,
    1955562222, 2024104815, 2227730452, 2361852424, 2428436474, 2756734187, 3204031479, 3329325298]"

definition sha256_H0 :: "u32 list" where
  "sha256_H0 = [
    1779033703, 3144134277, 1013904242, 2773480762, 1359893119, 2600822924, 528734635, 1541459225]"

definition rotr32 :: "nat \<Rightarrow> u32 \<Rightarrow> u32" where
  "rotr32 n x = drop_bit n x OR push_bit (32 - n) x"

definition small_sigma0 :: "u32 \<Rightarrow> u32" where
  "small_sigma0 x = rotr32 7 x XOR rotr32 18 x XOR drop_bit 3 x"

definition small_sigma1 :: "u32 \<Rightarrow> u32" where
  "small_sigma1 x = rotr32 17 x XOR rotr32 19 x XOR drop_bit 10 x"

definition big_sigma0 :: "u32 \<Rightarrow> u32" where
  "big_sigma0 x = rotr32 2 x XOR rotr32 13 x XOR rotr32 22 x"

definition big_sigma1 :: "u32 \<Rightarrow> u32" where
  "big_sigma1 x = rotr32 6 x XOR rotr32 11 x XOR rotr32 25 x"

definition sha_ch :: "u32 \<Rightarrow> u32 \<Rightarrow> u32 \<Rightarrow> u32" where
  "sha_ch x y z = (x AND y) XOR (NOT x AND z)"

definition sha_maj :: "u32 \<Rightarrow> u32 \<Rightarrow> u32 \<Rightarrow> u32" where
  "sha_maj x y z = (x AND y) XOR (x AND z) XOR (y AND z)"

text \<open>The message schedule, most recent word first.\<close>

fun sha_schedule :: "nat \<Rightarrow> u32 list \<Rightarrow> u32 list" where
  "sha_schedule 0 w = w"
| "sha_schedule (Suc n) w =
     sha_schedule n ((small_sigma1 (w ! 1) + w ! 6 + small_sigma0 (w ! 14) + w ! 15) # w)"

fun sha_round :: "u32 list \<Rightarrow> u32 \<times> u32 \<Rightarrow> u32 list" where
  "sha_round [a, b, c, d, e, f, g, h] (k, w) =
     (let t1 = h + big_sigma1 e + sha_ch e f g + k + w; t2 = big_sigma0 a + sha_maj a b c
      in [t1 + t2, a, b, c, d + t1, e, f, g])"
| "sha_round s kw = s"

definition sha_compress :: "u32 list \<Rightarrow> u32 list \<Rightarrow> u32 list" where
  "sha_compress hs block =
     map2 (+) hs (foldl sha_round hs (zip sha256_K (rev (sha_schedule 48 (rev block)))))"

definition be_word :: "bytes \<Rightarrow> u32" where
  "be_word bs = word_of_int (foldl (\<lambda>v b. 256 * v + of_char b) 0 bs)"

definition word_be :: "u32 \<Rightarrow> bytes" where
  "word_be w = map (\<lambda>i. char_of (uint (drop_bit i w))) [24, 16, 8, 0]"

fun chunks :: "nat \<Rightarrow> 'a list \<Rightarrow> 'a list list" where
  "chunks n xs = (if n = 0 \<or> xs = [] then [] else take n xs # chunks n (drop n xs))"

declare chunks.simps [simp del]

definition sha_pad :: "bytes \<Rightarrow> bytes" where
  "sha_pad m = (let n = length m
     in m @ char_of (128 :: nat) # replicate ((119 - n mod 64) mod 64) (char_of (0 :: nat))
        @ map (\<lambda>i. char_of (8 * int n div 2 ^ i)) [56, 48, 40, 32, 24, 16, 8, 0])"

definition sha256 :: "bytes \<Rightarrow> bytes" where
  "sha256 m = concat (map word_be
     (foldl (\<lambda>hs b. sha_compress hs (map be_word (chunks 4 b))) sha256_H0 (chunks 64 (sha_pad m))))"

subsection \<open>The digest interface\<close>

locale digest32 =
  fixes Sum256 :: "bytes \<Rightarrow> bytes"
  assumes length_Sum256: "length (Sum256 m) = 32"

lemma length_sha_round: "length s = 8 \<Longrightarrow> length (sha_round s kw) = 8"
  by (cases "(s, kw)" rule: sha_round.cases) (auto simp: Let_def)

lemma length_sha_rounds: "length s = 8 \<Longrightarrow> length (foldl sha_round s kws) = 8"
  by (induction kws arbitrary: s) (auto simp: length_sha_round)

lemma length_sha_compress: "length hs = 8 \<Longrightarrow> length (sha_compress hs b) = 8"
  by (simp add: sha_compress_def length_sha_rounds)

lemma length_sha_blocks:
  "length hs = 8 \<Longrightarrow> length (foldl (\<lambda>hs b. sha_compress hs (f b)) hs bs) = 8"
  by (induction bs arbitrary: hs) (auto simp: length_sha_compress)

lemma length_concat_word_be: "length (concat (map word_be ws)) = 4 * length ws"
  by (induction ws) (auto simp: word_be_def)

interpretation sha256_sum: digest32 sha256
  by unfold_locales
    (simp add: sha256_def length_concat_word_be length_sha_blocks sha256_H0_def)

end
