(* ===== verification/Protocol_Core.thy ===== *)
theory Protocol_Core
  imports Sha256
begin

text \<open>
  \<open>registry/protocol/protocol.go\<close>: the wire records, the canonical messages that are hashed and
  signed, digests, identifiers and the textual encodings of keys and signatures.

  A canonical message is its lines, each ended by a line feed. The lemmas show that a message
  whose parts contain no line feed determines every part (\<open>canonical_inj\<close> and its
      instances), so a
  signature or a digest over it commits to all of them, and that the encodings of digests
  and signatures round-trip. \<open>crypto/sha256\<close> is an argument \<open>H\<close> (see
      \<open>Sha256\<close>); the Ed25519 and
  X.509 operations of Go's library are the fields of the record \<open>crypto\<close>.
\<close>

subsection \<open>Constants\<close>

definition Version :: string where "Version = ''1''"
definition RegistrationPath :: string where "RegistrationPath = ''/v1/deployments/register''"
definition BatchPath :: string where "BatchPath = ''/v1/mau/batches''"
definition IdentityPath :: string where "IdentityPath = ''/v1/registry/identity''"
definition KeyAlgorithmEd25519 :: string where "KeyAlgorithmEd25519 = ''Ed25519''"
definition InstallationTestKind :: string where "InstallationTestKind = ''installation-test''"
definition InstallationTestRuleset :: string where "InstallationTestRuleset = ''installation-test-v1''"
definition InstallationEntryType :: string where
  "InstallationEntryType = ''INSTALLATION_TEST_BATCH_ACCEPTED''"
definition QualifiedMAUKind :: string where "QualifiedMAUKind = ''monthly-qmau''"
definition QualifiedMAURuleset :: string where "QualifiedMAURuleset = ''qmau-v1''"
definition QualifiedMAUEntryType :: string where "QualifiedMAUEntryType = ''QMAU_BATCH_ACCEPTED''"
definition ZeroHash :: string where
  "ZeroHash = ''sha256:0000000000000000000000000000000000000000000000000000000000000000''"

lemmas protocol_constants =
  Version_def RegistrationPath_def BatchPath_def IdentityPath_def KeyAlgorithmEd25519_def
  InstallationTestKind_def InstallationTestRuleset_def InstallationEntryType_def
  QualifiedMAUKind_def QualifiedMAURuleset_def QualifiedMAUEntryType_def ZeroHash_def

subsection \<open>Wire records\<close>

record RegistrationRequest =
  rr_ProtocolVersion :: string
  rr_RegistryScope :: string
  rr_Timestamp :: string
  rr_Nonce :: string
  rr_IdempotencyKey :: string
  rr_KeyAlgorithm :: string
  rr_PublicKey :: string
  rr_SoftwareVersion :: string
  rr_PayloadHash :: string
  rr_Signature :: string

record RegistryIdentity =
  ri_ProtocolVersion :: string
  ri_RegistryScope :: string
  ri_RegistryKeyID :: string
  ri_RegistryPublicKey :: string
  ri_Signature :: string

record RegistrationResponse =
  rresp_ProtocolVersion :: string
  rresp_RegistryScope :: string
  rresp_DeploymentID :: string
  rresp_RegisteredAt :: string
  rresp_PublicKeyFingerprint :: string
  rresp_RegistryKeyID :: string
  rresp_RegistryPublicKey :: string
  rresp_ReceiptSignature :: string
  rresp_Duplicate :: bool

record BatchRequest =
  br_ProtocolVersion :: string
  br_RegistryScope :: string
  br_DeploymentID :: string
  br_Timestamp :: string
  br_Nonce :: string
  br_IdempotencyKey :: string
  br_Kind :: string
  br_Period :: string
  br_RulesetVersion :: string
  br_QualifiedMAUCount :: int
  br_CommitmentHash :: string
  br_Revision :: int
  br_SupersedesBatchID :: string
  br_PayloadHash :: string
  br_Signature :: string

record MAUReceipt =
  mr_LedgerIndex :: int
  mr_EntryHash :: string
  mr_PreviousEntryHash :: string
  mr_BatchHash :: string
  mr_Kind :: string
  mr_Period :: string
  mr_RulesetVersion :: string
  mr_QualifiedMAUCount :: int
  mr_CommitmentHash :: string
  mr_Revision :: int
  mr_SupersedesBatchID :: string
  mr_AcceptedAt :: string
  mr_CheckpointDate :: string
  mr_RegistryScope :: string
  mr_RegistryKeyID :: string
  mr_RegistryPublicKey :: string
  mr_Signature :: string

record BatchResponse =
  bresp_ProtocolVersion :: string
  bresp_RegistryScope :: string
  bresp_BatchID :: string
  bresp_DeploymentID :: string
  bresp_IdempotencyKey :: string
  bresp_Duplicate :: bool
  bresp_Receipt :: MAUReceipt

record LedgerEntry =
  le_ProtocolVersion :: string
  le_RegistryScope :: string
  le_LedgerIndex :: int
  le_EntryType :: string
  le_DeploymentID :: string
  le_BatchID :: string
  le_Kind :: string
  le_Period :: string
  le_RulesetVersion :: string
  le_QualifiedMAUCount :: int
  le_BatchHash :: string
  le_PreviousEntryHash :: string
  le_EntryHash :: string
  le_AcceptedAt :: string

record Checkpoint =
  cp_RegistryScope :: string
  cp_CheckpointDate :: string
  cp_ThroughLedgerIndex :: int
  cp_EntryCount :: int
  cp_LedgerHeadHash :: string
  cp_PreviousCheckpointHash :: string
  cp_CheckpointHash :: string
  cp_GeneratedAt :: string
  cp_RegistryKeyID :: string
  cp_RegistryPublicKey :: string
  cp_Signature :: string

subsection \<open>Canonical messages\<close>

definition canonical :: "string list \<Rightarrow> bytes" where
  "canonical lines = strings_Join_lf lines @ [CHR 0x0A]"

definition HasCanonicalLineBreak :: "string \<Rightarrow> bool" where
  "HasCanonicalLineBreak value \<longleftrightarrow> CHR 0x0D \<in> set value \<or> CHR 0x0A \<in> set value"

text \<open>\<open>strings.ToUpper\<close> on the ASCII method names.\<close>

definition strings_ToUpper :: "string \<Rightarrow> string" where
  "strings_ToUpper = map (\<lambda>c. if CHR ''a'' \<le> c \<and> c \<le> CHR ''z'' then char_of
      (of_char c - 32 :: nat) else c)"

definition CanonicalRequest where
  "CanonicalRequest method path protocolVersion registryScope signer timestamp nonce idempotencyKey
      payloadHash = canonical
    [''myscoutee-registry-request-v1'', strings_ToUpper method, path, protocolVersion,
     registryScope, signer, timestamp, nonce, idempotencyKey, payloadHash]"

definition RegistryIdentityMessage :: "string \<Rightarrow> string \<Rightarrow> string
    \<Rightarrow> string \<Rightarrow> bytes" where
  "RegistryIdentityMessage protocolVersion registryScope registryKeyID registryPublicKey = canonical
    [''myscoutee-registry-identity-v1'', protocolVersion, registryScope, registryKeyID,
     registryPublicKey]"

definition RegistrationPayload :: "string \<Rightarrow> string \<Rightarrow> string \<Rightarrow> bytes" where
  "RegistrationPayload keyAlgorithm publicKey softwareVersion = canonical
    [''myscoutee-registry-registration-payload-v1'', keyAlgorithm, publicKey, softwareVersion]"

definition RegistrationReceipt :: "string \<Rightarrow> string \<Rightarrow> string \<Rightarrow>
    string \<Rightarrow> string \<Rightarrow> string \<Rightarrow> bytes" where
  "RegistrationReceipt protocolVersion registryScope deploymentID publicKeyFingerprint registeredAt
      registryKeyID = canonical
    [''myscoutee-registry-registration-receipt-v1'', protocolVersion, registryScope,
     deploymentID, publicKeyFingerprint, registeredAt, registryKeyID]"

definition InstallationTestCommitment :: "string \<Rightarrow> string \<Rightarrow> bytes" where
  "InstallationTestCommitment deploymentID idempotencyKey = canonical
    [''myscoutee-registry-installation-test-v1'', deploymentID, idempotencyKey]"

definition BatchPayload :: "string \<Rightarrow> string \<Rightarrow> string \<Rightarrow> int
    \<Rightarrow> string \<Rightarrow> bytes" where
  "BatchPayload kind period rulesetVersion qualifiedMAUCount commitmentHash = canonical
    [''myscoutee-registry-mau-batch-payload-v1'', kind, period, rulesetVersion,
     FormatInt qualifiedMAUCount, commitmentHash]"

definition QualifiedMAUPayload :: "string \<Rightarrow> string \<Rightarrow> int \<Rightarrow>
    string \<Rightarrow> int \<Rightarrow> string \<Rightarrow> bytes" where
  "QualifiedMAUPayload period rulesetVersion qualifiedMAUCount commitmentHash revision
      supersedesBatchID = canonical
    [''myscoutee-registry-qmau-batch-payload-v1'', QualifiedMAUKind, period, rulesetVersion,
     FormatInt qualifiedMAUCount, commitmentHash, FormatInt revision, supersedesBatchID]"

definition LedgerEntryMessage :: "LedgerEntry \<Rightarrow> bytes" where
  "LedgerEntryMessage entry = canonical
    [''myscoutee-registry-ledger-entry-v1'', le_ProtocolVersion entry, le_RegistryScope entry,
     FormatInt (le_LedgerIndex entry), le_EntryType entry, le_DeploymentID entry,
     le_BatchID entry, le_Kind entry, le_Period entry, le_RulesetVersion entry,
     FormatInt (le_QualifiedMAUCount entry), le_BatchHash entry, le_PreviousEntryHash entry,
     le_AcceptedAt entry]"

definition MAUReceiptMessage :: "string \<Rightarrow> string \<Rightarrow> string \<Rightarrow>
    string \<Rightarrow> int \<Rightarrow> string \<Rightarrow> string \<Rightarrow> string
    \<Rightarrow> string \<Rightarrow> string \<Rightarrow> string \<Rightarrow> int \<Rightarrow>
    string \<Rightarrow> string \<Rightarrow> string \<Rightarrow> bytes" where
  "MAUReceiptMessage protocolVersion registryScope batchID deploymentID ledgerIndex entryHash
      previousEntryHash batchHash kind period rulesetVersion qualifiedMAUCount acceptedAt checkpointDate
      registryKeyID = canonical
    [''myscoutee-registry-mau-receipt-v1'', protocolVersion, registryScope, batchID,
     deploymentID, FormatInt ledgerIndex, entryHash, previousEntryHash, batchHash, kind, period,
     rulesetVersion, FormatInt qualifiedMAUCount, acceptedAt, checkpointDate, registryKeyID]"

definition QualifiedMAUReceiptMessage :: "string \<Rightarrow> string \<Rightarrow> string
    \<Rightarrow> string \<Rightarrow> int \<Rightarrow> string \<Rightarrow> string \<Rightarrow>
    string \<Rightarrow> string \<Rightarrow> string \<Rightarrow> int \<Rightarrow> string
    \<Rightarrow> int \<Rightarrow> string \<Rightarrow> string \<Rightarrow> string \<Rightarrow>
    string \<Rightarrow> bytes" where
  "QualifiedMAUReceiptMessage protocolVersion registryScope batchID deploymentID ledgerIndex
      entryHash previousEntryHash batchHash period rulesetVersion qualifiedMAUCount commitmentHash
      revision supersedesBatchID acceptedAt checkpointDate registryKeyID = canonical
    [''myscoutee-registry-qmau-receipt-v1'', protocolVersion, registryScope, batchID,
     deploymentID, FormatInt ledgerIndex, entryHash, previousEntryHash, batchHash,
     QualifiedMAUKind, period, rulesetVersion, FormatInt qualifiedMAUCount, commitmentHash,
     FormatInt revision, supersedesBatchID, acceptedAt, checkpointDate, registryKeyID]"

definition CheckpointMessage :: "Checkpoint \<Rightarrow> bytes" where
  "CheckpointMessage checkpoint = canonical
    [''myscoutee-registry-checkpoint-v1'', cp_RegistryScope checkpoint,
     cp_CheckpointDate checkpoint, FormatInt (cp_ThroughLedgerIndex checkpoint),
     FormatInt (cp_EntryCount checkpoint), cp_LedgerHeadHash checkpoint,
     cp_PreviousCheckpointHash checkpoint, cp_GeneratedAt checkpoint, cp_RegistryKeyID checkpoint]"

subsection \<open>Digests and identifiers\<close>

definition Digest :: "(bytes \<Rightarrow> bytes) \<Rightarrow> bytes \<Rightarrow> string" where
  "Digest H message = ''sha256:'' @ hex_EncodeToString (H message)"

definition IsDigest :: "string \<Rightarrow> bool" where
  "IsDigest value \<longleftrightarrow>
     length value = length ''sha256:'' + 32 * 2 \<and> take (length ''sha256:'') value = ''sha256:'' \<and>
     list_all is_lower_hex (drop (length ''sha256:'') value)"

definition IsRegistryScope :: "string \<Rightarrow> bool" where
  "IsRegistryScope value \<longleftrightarrow>
     \<not> (length value < 3 \<or> length value > 128) \<and>
     list_all (\<lambda>(index, character).
        (CHR ''a'' \<le> character \<and> character \<le> CHR ''z'') \<or>
        (CHR ''0'' \<le> character \<and> character \<le> CHR ''9'') \<or>
        (index > 0 \<and> (character = CHR ''.'' \<or> character = CHR '':'' \<or>
                       character = CHR ''_'' \<or> character = CHR ''-'')))
       (enumerate 0 value)"

definition PublicKeyFingerprint :: "(bytes \<Rightarrow> bytes) \<Rightarrow> bytes \<Rightarrow>
    string" where
  "PublicKeyFingerprint H spkiDER = Digest H spkiDER"

definition RegistryKeyID :: "(bytes \<Rightarrow> bytes) \<Rightarrow> bytes \<Rightarrow> string" where
  "RegistryKeyID H spkiDER = (let fingerprint = PublicKeyFingerprint H spkiDER
     in ''rkey_'' @ take 32 (drop (length ''sha256:'') fingerprint))"

subsection \<open>Standard base64\<close>

text \<open>\<open>base64.StdEncoding\<close>: the encoder pads; the decoder skips carriage returns
    and line feeds,
  needs the padding and ignores the unused low bits of the last group.\<close>

definition b64_char :: "nat \<Rightarrow> char" where
  "b64_char n = (if n < 26 then char_of (65 + n) else if n < 52 then char_of (71 + n)
     else if n < 62 then char_of (n - 4) else if n = 62 then CHR ''+'' else CHR ''/'')"

definition b64_val :: "char \<Rightarrow> nat option" where
  "b64_val c = (let n = of_char c :: nat in
     if 65 \<le> n \<and> n \<le> 90 then Some (n - 65)
     else if 97 \<le> n \<and> n \<le> 122 then Some (n - 71)
     else if 48 \<le> n \<and> n \<le> 57 then Some (n + 4)
     else if n = 43 then Some 62 else if n = 47 then Some 63 else None)"

fun base64_EncodeToString :: "bytes \<Rightarrow> string" where
  "base64_EncodeToString [] = []"
| "base64_EncodeToString [a] =
     [b64_char (of_char a div 4), b64_char (of_char a mod 4 * 16), CHR ''='', CHR ''='']"
| "base64_EncodeToString [a, b] =
     [b64_char (of_char a div 4), b64_char (of_char a mod 4 * 16 + of_char b div 16),
      b64_char (of_char b mod 16 * 4), CHR ''='']"
| "base64_EncodeToString (a # b # c # r) =
     [b64_char (of_char a div 4), b64_char (of_char a mod 4 * 16 + of_char b div 16),
      b64_char (of_char b mod 16 * 4 + of_char c div 64), b64_char (of_char c mod 64)]
     @ base64_EncodeToString r"

fun base64_groups :: "string \<Rightarrow> bytes option" where
  "base64_groups [] = Some []"
| "base64_groups (a # b # c # d # r) =
     (case (b64_val a, b64_val b) of
        (Some x, Some y) \<Rightarrow>
          (let b1 = char_of (x * 4 + y div 16) in
           if c = CHR ''='' then (if d = CHR ''='' \<and> r = [] then Some [b1] else None)
           else case b64_val c of None \<Rightarrow> None | Some z \<Rightarrow>
             (let b2 = char_of (y mod 16 * 16 + z div 4) in
              if d = CHR ''='' then (if r = [] then Some [b1, b2] else None)
              else case b64_val d of None \<Rightarrow> None | Some w \<Rightarrow>
                map_option (\<lambda>bs. b1 # b2 # char_of (z mod 4 * 64 + w) # bs) (base64_groups r)))
      | _ \<Rightarrow> None)"
| "base64_groups _ = None"

definition base64_DecodeString :: "string \<Rightarrow> bytes option" where
  "base64_DecodeString s = base64_groups (filter (\<lambda>c. c \<noteq> CHR 0x0A \<and> c \<noteq>
      CHR 0x0D) s)"

definition decodeCanonicalBase64 :: "string \<Rightarrow> bytes option" where
  "decodeCanonicalBase64 value =
     (case base64_DecodeString value of
        None \<Rightarrow> None
      | Some decoded \<Rightarrow> if base64_EncodeToString decoded \<noteq> value then None else
          Some decoded)"

subsection \<open>Keys and signatures\<close>

text \<open>What \<open>x509.ParsePKIXPublicKey\<close> can return, as the type assertion of the
    callers sees it.\<close>

datatype pkix_key = Ed25519PublicKey bytes | OtherPublicKey

record crypto =
  Sum256 :: "bytes \<Rightarrow> bytes"
  ParsePKIXPublicKey :: "bytes \<Rightarrow> pkix_key option"
  MarshalPKIXPublicKey :: "bytes \<Rightarrow> bytes option"
  Ed25519Verify :: "bytes \<Rightarrow> bytes \<Rightarrow> bytes \<Rightarrow> bool"
  Ed25519Sign :: "bytes \<Rightarrow> bytes \<Rightarrow> bytes"
  Ed25519Public :: "bytes \<Rightarrow> bytes"

text \<open>What the code relies on of these operations: digests, keys and signatures have their
    fixed lengths,
  the SubjectPublicKeyInfo encoding of a key parses back to it, and a signature made with a private key
  verifies under its public key.\<close>

definition crypto_ok :: "crypto \<Rightarrow> bool" where
  "crypto_ok C \<longleftrightarrow> digest32 (Sum256 C) \<and>
     (\<forall>k m. length (Ed25519Sign C k m) = 64) \<and> (\<forall>k. length (Ed25519Public C k)
         = 32) \<and>
     (\<forall>k m. Ed25519Verify C (Ed25519Public C k) m (Ed25519Sign C k m)) \<and>
     (\<forall>k. length k = 32 \<longrightarrow> (\<exists>der. MarshalPKIXPublicKey C k = Some der \<and>
        ParsePKIXPublicKey C der = Some (Ed25519PublicKey k)))"

datatype protocol_error =
    ErrInvalidPublicKey
  | ErrInvalidSignature
  | MarshalFailed
  | TreeHeadInvalidFields
  | TreeHeadKeyIDMismatch
  | TreeHeadSignatureFailed
  | LedgerIndexOutsideTree
  | LeafHashMismatch
  | InclusionExtraNodes
  | InclusionRootMismatch
  | ConsistencyInvalidSizes
  | ConsistencyEmptyTree
  | ConsistencyEqualSize
  | ConsistencyExtraNodes
  | ConsistencyRootMismatch
  | AuditPathTruncated
  | AuditHashMalformed
  | DigestNotCanonical

definition ParsePublicKey :: "crypto \<Rightarrow> string \<Rightarrow> protocol_error + bytes
    \<times> bytes" where
  "ParsePublicKey C encoded =
     (case decodeCanonicalBase64 encoded of
        None \<Rightarrow> Inl ErrInvalidPublicKey
      | Some der \<Rightarrow>
          (case ParsePKIXPublicKey C der of
             None \<Rightarrow> Inl ErrInvalidPublicKey
           | Some OtherPublicKey \<Rightarrow> Inl ErrInvalidPublicKey
           | Some (Ed25519PublicKey publicKey) \<Rightarrow>
               if length publicKey \<noteq> 32 then Inl ErrInvalidPublicKey
               else (case MarshalPKIXPublicKey C publicKey of
                       None \<Rightarrow> Inl ErrInvalidPublicKey
                     | Some canonicalDER \<Rightarrow>
                         if canonicalDER \<noteq> der then Inl ErrInvalidPublicKey
                         else Inr (publicKey, der))))"

definition EncodePublicKey :: "crypto \<Rightarrow> bytes \<Rightarrow> protocol_error + string
    \<times> bytes" where
  "EncodePublicKey C publicKey =
     (case MarshalPKIXPublicKey C publicKey of
        None \<Rightarrow> Inl MarshalFailed
      | Some der \<Rightarrow> Inr (base64_EncodeToString der, der))"

definition ParseSignature :: "string \<Rightarrow> protocol_error + bytes" where
  "ParseSignature encoded =
     (case decodeCanonicalBase64 encoded of
        None \<Rightarrow> Inl ErrInvalidSignature
      | Some signature \<Rightarrow> if length signature \<noteq> 64 then Inl ErrInvalidSignature
          else Inr signature)"

definition EncodeSignature :: "bytes \<Rightarrow> string" where
  "EncodeSignature signature = base64_EncodeToString signature"

definition Verify :: "crypto \<Rightarrow> bytes \<Rightarrow> bytes \<Rightarrow> bytes
    \<Rightarrow> bool" where
  "Verify C publicKey message signature = Ed25519Verify C publicKey message signature"

subsection \<open>Messages determine their parts\<close>

lemma canonical_concat: "ls \<noteq> [] \<Longrightarrow> canonical ls = concat (map (\<lambda>l. l
    @ [CHR 0x0A]) ls)"
  by (simp add: canonical_def strings_Join_lf_concat)

lemma canonical_inj:
  assumes "canonical xs = canonical ys" "xs \<noteq> []" "ys \<noteq> []"
    and "list_all no_lf xs" "list_all no_lf ys"
  shows "xs = ys"
  using assms by (intro concat_lines_inj) (simp_all add: canonical_concat list_all_iff)

lemma canonical_Cons_eq_iff:
  assumes "list_all no_lf (x # xs)" "list_all no_lf (y # ys)"
  shows "canonical (x # xs) = canonical (y # ys) \<longleftrightarrow> x = y \<and> xs = ys"
  using canonical_inj [OF _ _ _ assms] by auto

text \<open>The text fields a ledger entry and a checkpoint put into their messages.\<close>

definition LedgerEntry_texts :: "LedgerEntry \<Rightarrow> string list" where
  "LedgerEntry_texts e =
     [le_ProtocolVersion e, le_RegistryScope e, le_EntryType e, le_DeploymentID e, le_BatchID e,
      le_Kind e, le_Period e, le_RulesetVersion e, le_BatchHash e, le_PreviousEntryHash e,
      le_AcceptedAt e]"

lemma LedgerEntryMessage_inj:
  assumes "LedgerEntryMessage a = LedgerEntryMessage b"
    and "list_all no_lf (LedgerEntry_texts a)" "list_all no_lf (LedgerEntry_texts b)"
  shows "a\<lparr>le_EntryHash := h\<rparr> = b\<lparr>le_EntryHash := h\<rparr>"
proof -
  from assms have "le_ProtocolVersion a = le_ProtocolVersion b" "le_RegistryScope a = le_RegistryScope b"
    "le_LedgerIndex a = le_LedgerIndex b" "le_EntryType a = le_EntryType b"
    "le_DeploymentID a = le_DeploymentID b" "le_BatchID a = le_BatchID b" "le_Kind a = le_Kind b"
    "le_Period a = le_Period b" "le_RulesetVersion a = le_RulesetVersion b"
    "le_QualifiedMAUCount a = le_QualifiedMAUCount b" "le_BatchHash a = le_BatchHash b"
    "le_PreviousEntryHash a = le_PreviousEntryHash b" "le_AcceptedAt a = le_AcceptedAt b"
    using canonical_inj [OF assms(1) [unfolded LedgerEntryMessage_def]]
    by (simp_all add: LedgerEntry_texts_def)
  then show ?thesis by (intro LedgerEntry.equality) simp_all
qed

lemma CanonicalRequest_inj:
  assumes "CanonicalRequest m p v s g t n i h = CanonicalRequest m p' v' s' g' t' n' i' h'"
    and "list_all no_lf [m, p, v, s, g, t, n, i, h, p', v', s', g', t', n', i', h']"
    and "no_lf (strings_ToUpper m)"
  shows "(p, v, s, g, t, n, i, h) = (p', v', s', g', t', n', i', h')"
  using canonical_inj [OF assms(1) [unfolded CanonicalRequest_def]] assms(2,3) by simp

subsection \<open>Digests\<close>

lemma IsDigest_iff:
  "IsDigest s \<longleftrightarrow> (\<exists>b. length b = 32 \<and> s = ''sha256:'' @ hex_EncodeToString b)"
proof
  assume d: "IsDigest s"
  let ?t = "drop 7 s"
  have l: "length ''sha256:'' = 7" by simp
  have s: "s = ''sha256:'' @ ?t"
    using d append_take_drop_id [of 7 s] unfolding IsDigest_def l by metis
  have t: "length ?t = 64" "\<forall>c \<in> set ?t. is_lower_hex c"
    using d unfolding IsDigest_def l list_all_iff by simp_all
  then have "even (length ?t)" by simp
  with t obtain b where b: "hex_EncodeToString b = ?t"
    using hex_encode_decode [of ?t] by blast
  have "length b = 32" using t(1) length_hex_encode [of b] unfolding b by linarith
  with s b show "\<exists>b. length b = 32 \<and> s = ''sha256:'' @ hex_EncodeToString b" by metis
next
  assume "\<exists>b. length b = 32 \<and> s = ''sha256:'' @ hex_EncodeToString b"
  then show "IsDigest s"
    by (auto simp: IsDigest_def list_all_iff intro: hex_encode_lower)
qed

lemma Digest_inj [simp]: "Digest H m = Digest H m' \<longleftrightarrow> H m = H m'"
  by (simp add: Digest_def)

lemma no_lf_hex [simp, nolf_intros]: "no_lf (hex_EncodeToString b)"
  by (rule lower_hex_no_lf) (simp add: hex_encode_lower)

lemma IsDigest_no_lf [nolf_intros]: "IsDigest s \<Longrightarrow> no_lf s"
  by (auto simp: IsDigest_iff)

lemma no_lf_Digest [simp, nolf_intros]: "no_lf (Digest H m)"
  by (simp add: Digest_def)

context digest32
begin

lemma IsDigest_Digest: "IsDigest (Digest Sum256 m)"
  using length_Sum256 by (auto simp: IsDigest_iff Digest_def)

lemma length_RegistryKeyID: "length (RegistryKeyID Sum256 der) = 37"
  using length_Sum256 by (simp add: RegistryKeyID_def PublicKeyFingerprint_def Digest_def)

end

lemma IsDigest_ZeroHash [simp]: "IsDigest ZeroHash"
  by (simp add: IsDigest_def ZeroHash_def is_lower_hex_def less_eq_char_def)

lemma IsRegistryScope_no_lf: "IsRegistryScope s \<Longrightarrow> no_lf s"
proof -
  assume s: "IsRegistryScope s"
  have "c \<noteq> CHR 0x0A" if "c \<in> set s" for c
  proof -
    from that obtain i where "(i, c) \<in> set (enumerate 0 s)"
      by (metis imageE map_snd_enumerate prod.collapse set_map)
    with s show ?thesis
      by (auto simp: IsRegistryScope_def list_all_iff less_eq_char_def)
  qed
  then show "no_lf s" by (auto simp: no_lf_def)
qed

subsection \<open>Base64 round trips\<close>

lemma of_char_b64_char:
  "n < 64 \<Longrightarrow> of_char (b64_char n) = (if n < 26 then 65 + n else if n < 52 then 71 + n
     else if n < 62 then n - 4 else if n = 62 then 43 else 47 :: nat)"
  by (auto simp: b64_char_def)

lemma b64_val_b64_char [simp]: "n < 64 \<Longrightarrow> b64_val (b64_char n) = Some n"
  by (auto simp: b64_val_def of_char_b64_char Let_def)

lemma b64_char_neq [simp]:
  assumes "n < 64"
  shows "b64_char n \<noteq> CHR ''=''" "b64_char n \<noteq> CHR 0x0A" "b64_char n \<noteq> CHR 0x0D"
  using of_char_b64_char [OF assms] assms by (auto split: if_splits)

lemma byte_parts:
  fixes c d :: char
  shows "of_char c div 4 < (64 :: nat)" "of_char c div 16 < (16 :: nat)" "of_char c div 64 < (4 :: nat)"
    "of_char c mod 4 * 16 < (64 :: nat)" "of_char c mod 16 * 4 < (64 :: nat)" "of_char c mod 64 < (64 :: nat)"
    "of_char c mod 4 * 16 + of_char d div 16 < (64 :: nat)"
    "of_char c mod 16 * 4 + of_char d div 64 < (64 :: nat)"
proof -
  have c: "of_char c < (256 :: nat)" and d: "of_char d < (256 :: nat)" by (rule of_char_lt_256)+
  show "of_char c div 4 < (64 :: nat)" "of_char c div 16 < (16 :: nat)" "of_char c div 64 < (4 :: nat)"
    using c by linarith+
  show "of_char c mod 4 * 16 < (64 :: nat)" "of_char c mod 16 * 4 < (64 :: nat)" "of_char c mod 64 <
      (64 :: nat)"
    by linarith+
  show "of_char c mod 4 * 16 + of_char d div 16 < (64 :: nat)"
    "of_char c mod 16 * 4 + of_char d div 64 < (64 :: nat)"
    using d by linarith+
qed

lemma base64_chars: "\<forall>c \<in> set (base64_EncodeToString bs). c = CHR ''='' \<or>
    (\<exists>n < 64. c = b64_char n)"
proof (induction bs rule: base64_EncodeToString.induct)
  case (4 a b d r)
  then show ?case using byte_parts(1) [of a] byte_parts(6) [of d] byte_parts(7) [of a b]
      byte_parts(8) [of b d]
    unfolding base64_EncodeToString.simps list.set set_append by blast
next
  case (3 a b)
  show ?case using byte_parts(1) [of a] byte_parts(5) [of b] byte_parts(7) [of a b]
    unfolding base64_EncodeToString.simps list.set by blast
next
  case (2 a)
  show ?case using byte_parts(1,4) [of a] unfolding base64_EncodeToString.simps list.set by blast
qed simp

lemma base64_groups_encode: "base64_groups (base64_EncodeToString bs) = Some bs"
proof (induction bs rule: base64_EncodeToString.induct)
  case (2 a)
  have "of_char a div 4 * 4 + of_char a mod 4 * 16 div 16 = (of_char a :: nat)" by simp
  then show ?case using byte_parts(1,4) [of a] by (simp add: Let_def del: div_mult_mult1_if)
next
  case (3 a b)
  have "of_char a div 4 * 4 + (of_char a mod 4 * 16 + of_char b div 16) div 16 = (of_char a :: nat)"
    "(of_char a mod 4 * 16 + of_char b div 16) mod 16 * 16 + of_char b mod 16 * 4 div 4 = (of_char b :: nat)"
    using byte_parts(2) [of b] by simp_all
  then show ?case using byte_parts(1,5) [of a] byte_parts(5) [of b] byte_parts(7) [of a b]
    by (simp only: base64_EncodeToString.simps base64_groups.simps b64_val_b64_char b64_char_neq
        prod.case option.case Let_def if_False if_True simp_thms char_of_char)
next
  case (4 a b c r)
  have "of_char a div 4 * 4 + (of_char a mod 4 * 16 + of_char b div 16) div 16 = (of_char a :: nat)"
    "(of_char a mod 4 * 16 + of_char b div 16) mod 16 * 16 + (of_char b mod 16 * 4 + of_char c div
        64) div 4 = (of_char b :: nat)"
    "(of_char b mod 16 * 4 + of_char c div 64) mod 4 * 64 + of_char c mod 64 = (of_char c :: nat)"
    using byte_parts(2) [of b] byte_parts(3) [of c] by simp_all
  then show ?case using 4 byte_parts(1) [of a] byte_parts(6) [of c] byte_parts(7) [of a b]
      byte_parts(8) [of b c]
    by (simp only: base64_EncodeToString.simps base64_groups.simps b64_val_b64_char b64_char_neq append.simps
        prod.case option.case Let_def if_False if_True simp_thms char_of_char option.map)
qed simp

lemma base64_chars_neq:
  assumes "c \<in> set (base64_EncodeToString bs)"
  shows "c \<noteq> CHR 0x0A \<and> c \<noteq> CHR 0x0D"
proof -
  from base64_chars assms consider "c = CHR ''=''" | n where "n < 64" "c = b64_char n" by blast
  then show ?thesis using b64_char_neq by cases auto
qed

lemma base64_decode_encode [simp]: "base64_DecodeString (base64_EncodeToString bs) = Some bs"
proof -
  have "filter (\<lambda>c. c \<noteq> CHR 0x0A \<and> c \<noteq> CHR 0x0D) (base64_EncodeToString
      bs) = base64_EncodeToString bs"
    by (intro filter_True ballI) (rule base64_chars_neq)
  then show ?thesis by (simp add: base64_DecodeString_def base64_groups_encode)
qed

lemma base64_inj [simp]: "base64_EncodeToString a = base64_EncodeToString b \<longleftrightarrow> a = b"
  by (metis base64_decode_encode option.inject)

lemma no_lf_base64 [simp, nolf_intros]: "no_lf (base64_EncodeToString b)"
  using base64_chars_neq by (auto simp: no_lf_def)

lemma decodeCanonicalBase64_iff:
  "decodeCanonicalBase64 s = Some b \<longleftrightarrow> s = base64_EncodeToString b"
proof
  assume "decodeCanonicalBase64 s = Some b"
  then show "s = base64_EncodeToString b"
    by (simp add: decodeCanonicalBase64_def split: option.splits if_splits)
qed (simp add: decodeCanonicalBase64_def)

lemma ParseSignature_iff:
  "ParseSignature s = Inr sig \<longleftrightarrow> s = EncodeSignature sig \<and> length sig = 64"
proof
  assume "ParseSignature s = Inr sig"
  then have "decodeCanonicalBase64 s = Some sig" "length sig = 64"
    by (simp_all add: ParseSignature_def split: option.splits if_splits)
  then show "s = EncodeSignature sig \<and> length sig = 64"
    by (simp add: EncodeSignature_def decodeCanonicalBase64_iff)
next
  assume "s = EncodeSignature sig \<and> length sig = 64"
  then have "decodeCanonicalBase64 s = Some sig" "length sig = 64"
    by (simp_all add: EncodeSignature_def decodeCanonicalBase64_iff)
  then show "ParseSignature s = Inr sig" by (simp add: ParseSignature_def)
qed

end
