(* ===== verification/Merkle_Proofs.thy ===== *)
theory Merkle_Proofs
  imports Protocol_Core
begin

text \<open>
  \<open>registry/protocol/merkle.go\<close>: signed tree heads over ledger prefixes and the verifiers of
  inclusion and consistency proofs.

  The verifiers are translated as they are written: a recursion over the tree shape that reads the
  audit path through a shared position, with \<open>int64\<close> sizes and the shift loop that finds the split
  point. That loop does not end for every \<open>int64\<close>, so a result is \<open>None\<close> when the code does
  not return, \<open>Some (Inl e)\<close> when it returns the error \<open>e\<close> and \<open>Some (Inr _)\<close> when it
  succeeds. The second half defines the Merkle tree hash, audit path and consistency proof of RFC 9162
  and relates the verifiers to them: what they accept, that they return for every tree
  of at most \<open>2 ^ 62\<close> leaves, and that an accepted proof binds the leaf or the old root
  unless two of the finitely many messages involved collide.
\<close>

subsection \<open>Records\<close>

record MerkleTreeHead =
  th_ProtocolVersion :: string
  th_RegistryScope :: string
  th_TreeSize :: int
  th_RootHash :: string
  th_GeneratedAt :: string
  th_RegistryKeyID :: string
  th_RegistryPublicKey :: string
  th_Signature :: string

record MerkleInclusionProof =
  mip_LedgerIndex :: int
  mip_LedgerEntryHash :: string
  mip_LeafHash :: string
  mip_AuditPath :: "string list"
  mip_TreeHead :: MerkleTreeHead

record MerkleConsistencyProof =
  mcp_OldTreeSize :: int
  mcp_OldRootHash :: string
  mcp_AuditPath :: "string list"
  mcp_TreeHead :: MerkleTreeHead

subsection \<open>Hashes of leaves and nodes\<close>

definition decodeDigest :: "string \<Rightarrow> protocol_error + bytes" where
  "decodeDigest value =
     (if \<not> IsDigest value then Inl DigestNotCanonical
      else from_option DigestNotCanonical (hex_DecodeString (drop (length ''sha256:'') value)))"

definition encodeDigest :: "bytes \<Rightarrow> string" where
  "encodeDigest value = ''sha256:'' @ hex_EncodeToString value"

definition MerkleLeafHash :: "(bytes \<Rightarrow> bytes) \<Rightarrow> string \<Rightarrow> protocol_error + string" where
  "MerkleLeafHash H ledgerEntryHash =
     bindR (decodeDigest ledgerEntryHash) (\<lambda>entryHash.
     Inr (encodeDigest (H (CHR 0x00 # entryHash))))"

definition MerkleNodeHash :: "(bytes \<Rightarrow> bytes) \<Rightarrow> string \<Rightarrow> string \<Rightarrow> protocol_error + string" where
  "MerkleNodeHash H leftHash rightHash =
     bindR (decodeDigest leftHash) (\<lambda>left.
     bindR (decodeDigest rightHash) (\<lambda>right.
     Inr (encodeDigest (H (CHR 0x01 # left @ right)))))"

definition MerkleEmptyRoot :: "(bytes \<Rightarrow> bytes) \<Rightarrow> string" where
  "MerkleEmptyRoot H = encodeDigest (H [])"

subsection \<open>Signed tree heads\<close>

definition MerkleTreeHeadMessage :: "MerkleTreeHead \<Rightarrow> bytes" where
  "MerkleTreeHeadMessage head = canonical
    [''myscoutee-registry-merkle-tree-head-v1'', th_ProtocolVersion head, th_RegistryScope head,
     FormatInt (th_TreeSize head), th_RootHash head, th_GeneratedAt head, th_RegistryKeyID head]"

definition VerifyMerkleTreeHead :: "crypto \<Rightarrow> MerkleTreeHead \<Rightarrow> protocol_error + unit" where
  "VerifyMerkleTreeHead C head =
     (if th_ProtocolVersion head \<noteq> Version \<or> \<not> IsRegistryScope (th_RegistryScope head) \<or>
         th_TreeSize head < 0 \<or> \<not> IsDigest (th_RootHash head)
      then Inl TreeHeadInvalidFields
      else bindR (ParsePublicKey C (th_RegistryPublicKey head)) (\<lambda>(publicKey, publicKeyDER).
        if RegistryKeyID (Sum256 C) publicKeyDER \<noteq> th_RegistryKeyID head
        then Inl TreeHeadKeyIDMismatch
        else bindR (ParseSignature (th_Signature head)) (\<lambda>signature.
          if \<not> Verify C publicKey (MerkleTreeHeadMessage head) signature
          then Inl TreeHeadSignatureFailed
          else Inr ())))"

subsection \<open>Rebuilding roots from an audit path\<close>

text \<open>The loop \<open>for power<<1 < value { power <<= 1 }\<close>; a shift by one wraps at 64 bits.\<close>

partial_function (option) largestPower_loop :: "int \<Rightarrow> int \<Rightarrow> int option" where
  "largestPower_loop p value =
     (if i64 (p * 2) < value then largestPower_loop (i64 (p * 2)) value else Some p)"

definition largestPowerOfTwoLessThan :: "int \<Rightarrow> int option" where
  "largestPowerOfTwoLessThan value = largestPower_loop 1 value"

text \<open>\<open>position\<close> is the argument \<open>position *int\<close>, returned updated beside the value.\<close>

definition nextAuditHash :: "string list \<Rightarrow> nat \<Rightarrow> protocol_error + string \<times> nat" where
  "nextAuditHash path position =
     (if position \<ge> length path then Inl AuditPathTruncated
      else let value = path ! position in
        if \<not> IsDigest value then Inl AuditHashMalformed else Inr (value, position + 1))"

partial_function (option) rebuildInclusionRoot ::
  "(bytes \<Rightarrow> bytes) \<Rightarrow> int \<Rightarrow> int \<Rightarrow> int \<Rightarrow> string \<Rightarrow> string list \<Rightarrow> nat
    \<Rightarrow> (protocol_error + string \<times> nat) option" where
  "rebuildInclusionRoot H start size' target leafHash path position =
     (if size' = 1 then Some (Inr (leafHash, position))
      else Option.bind (largestPowerOfTwoLessThan size') (\<lambda>split.
        if target < i64 (start + split)
        then Option.bind (rebuildInclusionRoot H start split target leafHash path position) (\<lambda>r.
          Some (bindR r (\<lambda>(left, position).
                bindR (nextAuditHash path position) (\<lambda>(right, position).
                bindR (MerkleNodeHash H left right) (\<lambda>root. Inr (root, position))))))
        else Option.bind
          (rebuildInclusionRoot H (i64 (start + split)) (i64 (size' - split)) target leafHash path position) (\<lambda>r.
          Some (bindR r (\<lambda>(right, position).
                bindR (nextAuditHash path position) (\<lambda>(left, position).
                bindR (MerkleNodeHash H left right) (\<lambda>root. Inr (root, position))))))))"

partial_function (option) rebuildConsistencyRoots ::
  "(bytes \<Rightarrow> bytes) \<Rightarrow> int \<Rightarrow> int \<Rightarrow> bool \<Rightarrow> string \<Rightarrow> string list \<Rightarrow> nat
    \<Rightarrow> (protocol_error + string \<times> string \<times> nat) option" where
  "rebuildConsistencyRoots H oldSize newSize useKnownOldRoot knownOldRoot path position =
     (if oldSize = newSize then
        (if useKnownOldRoot then Some (Inr (knownOldRoot, knownOldRoot, position))
         else Some (bindR (nextAuditHash path position) (\<lambda>(root, position). Inr (root, root, position))))
      else Option.bind (largestPowerOfTwoLessThan newSize) (\<lambda>split.
        if oldSize \<le> split
        then Option.bind
          (rebuildConsistencyRoots H oldSize split useKnownOldRoot knownOldRoot path position) (\<lambda>r.
          Some (bindR r (\<lambda>(oldLeft, newLeft, position).
                bindR (nextAuditHash path position) (\<lambda>(right, position).
                bindR (MerkleNodeHash H newLeft right) (\<lambda>newRoot.
                Inr (oldLeft, newRoot, position))))))
        else Option.bind
          (rebuildConsistencyRoots H (i64 (oldSize - split)) (i64 (newSize - split)) False knownOldRoot path position) (\<lambda>r.
          Some (bindR r (\<lambda>(oldRight, newRight, position).
                bindR (nextAuditHash path position) (\<lambda>(left, position).
                bindR (MerkleNodeHash H left oldRight) (\<lambda>oldRoot.
                bindR (MerkleNodeHash H left newRight) (\<lambda>newRoot.
                Inr (oldRoot, newRoot, position)))))))))"

subsection \<open>Verifiers\<close>

definition VerifyMerkleInclusionProof ::
  "crypto \<Rightarrow> MerkleInclusionProof \<Rightarrow> (protocol_error + unit) option" where
  "VerifyMerkleInclusionProof C proof =
     (case VerifyMerkleTreeHead C (mip_TreeHead proof) of Inl e \<Rightarrow> Some (Inl e) | Inr _ \<Rightarrow>
      if mip_LedgerIndex proof < 1 \<or> mip_LedgerIndex proof > th_TreeSize (mip_TreeHead proof)
      then Some (Inl LedgerIndexOutsideTree)
      else case MerkleLeafHash (Sum256 C) (mip_LedgerEntryHash proof) of Inl e \<Rightarrow> Some (Inl e) | Inr leafHash \<Rightarrow>
        if leafHash \<noteq> mip_LeafHash proof then Some (Inl LeafHashMismatch)
        else Option.bind (rebuildInclusionRoot (Sum256 C) 0 (th_TreeSize (mip_TreeHead proof))
               (i64 (mip_LedgerIndex proof - 1)) leafHash (mip_AuditPath proof) 0) (\<lambda>r.
          Some (bindR r (\<lambda>(root, position).
            if position \<noteq> length (mip_AuditPath proof) then Inl InclusionExtraNodes
            else if root \<noteq> th_RootHash (mip_TreeHead proof) then Inl InclusionRootMismatch
            else Inr ()))))"

definition VerifyMerkleConsistencyProof ::
  "crypto \<Rightarrow> MerkleConsistencyProof \<Rightarrow> (protocol_error + unit) option" where
  "VerifyMerkleConsistencyProof C proof =
     (case VerifyMerkleTreeHead C (mcp_TreeHead proof) of Inl e \<Rightarrow> Some (Inl e) | Inr _ \<Rightarrow>
      if mcp_OldTreeSize proof < 0 \<or> mcp_OldTreeSize proof > th_TreeSize (mcp_TreeHead proof) \<or>
         \<not> IsDigest (mcp_OldRootHash proof)
      then Some (Inl ConsistencyInvalidSizes)
      else if mcp_OldTreeSize proof = 0 then
        Some (if mcp_OldRootHash proof \<noteq> MerkleEmptyRoot (Sum256 C) \<or> length (mcp_AuditPath proof) \<noteq> 0
              then Inl ConsistencyEmptyTree else Inr ())
      else if mcp_OldTreeSize proof = th_TreeSize (mcp_TreeHead proof) then
        Some (if mcp_OldRootHash proof \<noteq> th_RootHash (mcp_TreeHead proof) \<or> length (mcp_AuditPath proof) \<noteq> 0
              then Inl ConsistencyEqualSize else Inr ())
      else Option.bind (rebuildConsistencyRoots (Sum256 C) (mcp_OldTreeSize proof)
             (th_TreeSize (mcp_TreeHead proof)) True (mcp_OldRootHash proof) (mcp_AuditPath proof) 0) (\<lambda>r.
        Some (bindR r (\<lambda>(oldRoot, newRoot, position).
          if position \<noteq> length (mcp_AuditPath proof) then Inl ConsistencyExtraNodes
          else if oldRoot \<noteq> mcp_OldRootHash proof \<or> newRoot \<noteq> th_RootHash (mcp_TreeHead proof)
          then Inl ConsistencyRootMismatch
          else Inr ()))))"

subsection \<open>The Merkle tree hash of RFC 9162\<close>

text \<open>\<open>split_point n\<close> is the largest power of two smaller than \<open>n\<close>.\<close>

fun split_point :: "nat \<Rightarrow> nat" where
  "split_point n = (if n \<le> 2 then 1 else 2 * split_point ((n + 1) div 2))"

declare split_point.simps [simp del]

lemma split_point_power: "\<exists>k. split_point n = 2 ^ k"
proof (induction n rule: split_point.induct)
  case (1 n)
  show ?case
  proof (cases "n \<le> 2")
    case True
    then show ?thesis by (simp add: split_point.simps [of n] exI [of _ 0])
  next
    case False
    with 1 obtain k where "split_point ((n + 1) div 2) = 2 ^ k" by blast
    with False show ?thesis by (simp add: split_point.simps [of n] exI [of _ "Suc k"])
  qed
qed

lemma split_point_bounds: "2 \<le> n \<Longrightarrow> split_point n < n \<and> n \<le> 2 * split_point n"
proof (induction n rule: split_point.induct)
  case (1 n)
  show ?case
  proof (cases "n \<le> 2")
    case True
    with 1 have "n = 2" by simp
    then show ?thesis by (simp add: split_point.simps [of 2])
  next
    case False
    with 1 have "split_point ((n + 1) div 2) < (n + 1) div 2" "(n + 1) div 2 \<le> 2 * split_point ((n + 1) div 2)"
      by simp_all
    with False show ?thesis by (simp add: split_point.simps [of n]) linarith
  qed
qed

lemma split_point_pos [simp]: "0 < split_point n"
  using split_point_power [of n] by auto

lemma split_point_less [simp]: "2 \<le> n \<Longrightarrow> split_point n < n"
  using split_point_bounds by blast

lemma split_point_rest [simp]: "2 \<le> n \<Longrightarrow> n - split_point m < n"
  using split_point_pos [of m] by linarith

lemma power2_between_unique:
  fixes j k :: nat
  assumes "2 ^ j < n" "n \<le> 2 * 2 ^ j" "2 ^ k < n" "n \<le> 2 * (2 :: nat) ^ k"
  shows "j = k"
proof -
  have "(2 :: nat) ^ j < 2 ^ Suc k" "(2 :: nat) ^ k < 2 ^ Suc j" using assms by simp_all
  then have "j < Suc k" "k < Suc j" by (simp_all only: power_strict_increasing_iff one_less_numeral_iff semiring_norm)
  then show ?thesis by simp
qed

lemma split_point_unique: "2 ^ k < n \<Longrightarrow> n \<le> 2 * 2 ^ k \<Longrightarrow> split_point n = 2 ^ k"
proof -
  assume n: "2 ^ k < n" "n \<le> 2 * 2 ^ k"
  obtain j where j: "split_point n = 2 ^ j" using split_point_power by blast
  have "1 \<le> (2 :: nat) ^ k" by simp
  with n have "2 \<le> n" by linarith
  from split_point_bounds [OF this] j n power2_between_unique [of j n k] show ?thesis by simp
qed

lemma split_point_prefix:
  assumes "2 \<le> n" "split_point n < m" "m \<le> n"
  shows "split_point m = split_point n"
proof -
  obtain k where k: "split_point n = 2 ^ k" using split_point_power by blast
  with assms split_point_bounds [OF assms(1)] have "split_point m = 2 ^ k"
    by (intro split_point_unique) simp_all
  with k show ?thesis by simp
qed

definition leaf_digest :: "(bytes \<Rightarrow> bytes) \<Rightarrow> bytes \<Rightarrow> bytes" where
  "leaf_digest H d = H (CHR 0x00 # d)"

definition node_digest :: "(bytes \<Rightarrow> bytes) \<Rightarrow> bytes \<Rightarrow> bytes \<Rightarrow> bytes" where
  "node_digest H l r = H (CHR 0x01 # l @ r)"

function mth :: "(bytes \<Rightarrow> bytes) \<Rightarrow> bytes list \<Rightarrow> bytes" where
  "mth H [] = H []"
| "mth H [d] = leaf_digest H d"
| "mth H (a # b # ds) = (let k = split_point (length (a # b # ds)) in
     node_digest H (mth H (take k (a # b # ds))) (mth H (drop k (a # b # ds))))"
  by pat_completeness auto
termination
proof (relation "measure (\<lambda>(H, ds). length ds)", goal_cases)
  case 1
  show ?case by simp
next
  case (2 H a b ds k)
  then show ?case using split_point_less [of "length (a # b # ds)"] by simp
next
  case (3 H a b ds k)
  then show ?case using split_point_pos [of "length (a # b # ds)"] by simp
qed

declare mth.simps [simp del]

lemma mth_split:
  "2 \<le> length ds \<Longrightarrow> mth H ds = node_digest H (mth H (take (split_point (length ds)) ds))
     (mth H (drop (split_point (length ds)) ds))"
  by (cases "(H, ds)" rule: mth.cases) (simp_all add: mth.simps Let_def)

text \<open>The audit path of leaf \<open>m\<close> and the consistency proof of a prefix of \<open>m\<close> leaves.\<close>

function mth_path :: "(bytes \<Rightarrow> bytes) \<Rightarrow> nat \<Rightarrow> bytes list \<Rightarrow> bytes list" where
  "mth_path H m ds = (if length ds < 2 then [] else let k = split_point (length ds) in
     if m < k then mth_path H m (take k ds) @ [mth H (drop k ds)]
     else mth_path H (m - k) (drop k ds) @ [mth H (take k ds)])"
  by pat_completeness auto
termination
proof (relation "measure (\<lambda>(H, m, ds). length ds)", goal_cases)
  case (3 H m ds k)
  then show ?case using split_point_rest [of "length ds" "length ds"] by simp
qed simp_all

function mth_consistency :: "(bytes \<Rightarrow> bytes) \<Rightarrow> nat \<Rightarrow> bool \<Rightarrow> bytes list \<Rightarrow> bytes list" where
  "mth_consistency H m b ds =
     (if m = length ds then (if b then [] else [mth H ds])
      else if length ds < 2 then []
      else let k = split_point (length ds) in
        if m \<le> k then mth_consistency H m b (take k ds) @ [mth H (drop k ds)]
        else mth_consistency H (m - k) False (drop k ds) @ [mth H (take k ds)])"
  by pat_completeness auto
termination
proof (relation "measure (\<lambda>(H, m, b, ds). length ds)", goal_cases)
  case (3 H m b ds k)
  then show ?case using split_point_rest [of "length ds" "length ds"] by simp
qed simp_all

declare mth_path.simps [simp del] mth_consistency.simps [simp del]

subsection \<open>The split loop\<close>

lemma i64_double: "j < 62 \<Longrightarrow> i64 (2 ^ j * 2) = 2 ^ Suc j"
proof -
  assume "j < 62"
  then have "(2 :: int) ^ Suc j \<le> 2 ^ 62" by (intro power_increasing) simp_all
  then have "i64 (2 ^ Suc j) = 2 ^ Suc j" by (intro i64_nonneg_id) simp_all
  then show ?thesis by (simp add: mult.commute)
qed

lemma largestPower_loop_run:
  assumes "j \<le> k" "k < 62" "2 ^ k < n" "n \<le> 2 * 2 ^ k"
  shows "largestPower_loop (2 ^ j) n = Some (2 ^ k)"
  using assms
proof (induction "k - j" arbitrary: j)
  case 0
  then have "i64 (2 ^ j * 2) = 2 ^ Suc j" by (intro i64_double) simp
  with 0 show ?case by (subst largestPower_loop.simps) (simp add: mult.commute)
next
  case (Suc d)
  have e: "i64 (2 ^ j * 2) = 2 ^ Suc j" using Suc.hyps(2) Suc.prems by (intro i64_double) simp
  have "(2 :: int) ^ Suc j \<le> 2 ^ k" using Suc.hyps(2) by (intro power_increasing) simp_all
  with Suc.prems(3) have "i64 (2 ^ j * 2) < n" unfolding e by linarith
  then have "largestPower_loop (2 ^ j) n = largestPower_loop (2 ^ Suc j) n"
    by (subst largestPower_loop.simps) (simp add: e)
  with Suc.hyps(1) [of "Suc j"] Suc.hyps(2) Suc.prems show ?case by simp
qed

lemma largestPowerOfTwoLessThan_split_point:
  assumes "2 \<le> n" "n \<le> 2 ^ 62"
  shows "largestPowerOfTwoLessThan (int n) = Some (int (split_point n))"
proof -
  obtain k where k: "split_point n = 2 ^ k" using split_point_power by blast
  with split_point_bounds [OF assms(1)] have b: "2 ^ k < n" "n \<le> 2 * 2 ^ k" by simp_all
  have "(2 :: nat) ^ k < 2 ^ 62" using b(1) assms(2) by linarith
  then have "k < 62" by (simp only: power_strict_increasing_iff one_less_numeral_iff semiring_norm)
  moreover have "(2 :: int) ^ k < int n" "int n \<le> 2 * 2 ^ k"
    using b [folded of_nat_less_iff [where 'a = int] of_nat_le_iff [where 'a = int]] by simp_all
  ultimately have "largestPower_loop (2 ^ 0) (int n) = Some (2 ^ k)"
    by (intro largestPower_loop_run) simp_all
  with k show ?thesis by (simp add: largestPowerOfTwoLessThan_def)
qed

text \<open>For more than \<open>2 ^ 62\<close> the shift leaves the \<open>int64\<close> range and the loop never ends.\<close>

lemma largestPower_loop_diverges:
  assumes "2 ^ 62 < n" "(\<exists>j \<le> 62. p = 2 ^ j) \<or> p = - (2 ^ 63) \<or> p = 0"
  shows "largestPower_loop p n = None"
proof -
  have "\<not> (2 ^ 62 < v \<and> ((\<exists>j \<le> 62. q = 2 ^ j) \<or> q = - (2 ^ 63) \<or> q = 0))"
    if "largestPower_loop q v = Some r" for q v r :: int
    using that
  proof (induction rule: largestPower_loop.raw_induct [rotated 1, consumes 1, case_names step])
    case (step f q v r)
    show ?case
    proof
      assume a: "2 ^ 62 < v \<and> ((\<exists>j \<le> 62. q = 2 ^ j) \<or> q = - (2 ^ 63) \<or> q = 0)"
      then consider j where "j < 62" "q = 2 ^ j" | "q = 2 ^ 62" | "q = - (2 ^ 63)" | "q = 0"
        using le_neq_implies_less by blast
      then have "i64 (q * 2) < v \<and>
          ((\<exists>j \<le> 62. i64 (q * 2) = 2 ^ j) \<or> i64 (q * 2) = - (2 ^ 63) \<or> i64 (q * 2) = 0)"
      proof cases
        case 1
        then have "(2 :: int) ^ Suc j \<le> 2 ^ 62" by (intro power_increasing) simp_all
        with 1 a show ?thesis by (auto simp only: i64_double intro!: exI [of _ "Suc j"])
      next
        case 2
        have "i64 (2 ^ 62 * 2) = - (2 ^ 63)" by (simp add: i64_def)
        with 2 a show ?thesis by simp
      next
        case 3
        have "i64 (- (2 ^ 63) * 2) = 0" by (simp add: i64_def)
        with 3 a show ?thesis by simp
      next
        case 4
        have "i64 0 = 0" by (simp add: i64_def)
        with 4 a show ?thesis by simp
      qed
      with step(2) have "f (i64 (q * 2)) v = Some r" by simp
      from step(1) [OF this] a \<open>i64 (q * 2) < v \<and> _\<close> show False by blast
    qed
  qed
  with assms show ?thesis by (cases "largestPower_loop p n") blast+
qed

subsection \<open>Digests in a proof\<close>

lemma encodeDigest_inj [simp]: "encodeDigest a = encodeDigest b \<longleftrightarrow> a = b"
  by (simp add: encodeDigest_def)

lemma IsDigest_encodeDigest [simp]: "IsDigest (encodeDigest b) \<longleftrightarrow> length b = 32"
  by (auto simp: IsDigest_iff encodeDigest_def)

lemma IsDigestE:
  assumes "IsDigest s"
  obtains b where "s = encodeDigest b" "length b = 32"
  using assms by (auto simp: IsDigest_iff encodeDigest_def)

lemma decodeDigest_encodeDigest [simp]: "length b = 32 \<Longrightarrow> decodeDigest (encodeDigest b) = Inr b"
  using IsDigest_encodeDigest [of b] by (simp add: decodeDigest_def encodeDigest_def)

lemma decodeDigest_eq_Inr_iff [result_simps]:
  "decodeDigest s = Inr b \<longleftrightarrow> s = encodeDigest b \<and> length b = 32"
proof
  assume d: "decodeDigest s = Inr b"
  then have "IsDigest s" by (simp add: decodeDigest_def split: if_splits)
  then obtain c where "s = encodeDigest c" "length c = 32" by (rule IsDigestE)
  with d show "s = encodeDigest b \<and> length b = 32" by simp
qed simp

lemma MerkleLeafHash_eq_Inr_iff:
  "MerkleLeafHash H s = Inr h \<longleftrightarrow> (\<exists>d. length d = 32 \<and> s = encodeDigest d \<and> h = encodeDigest (leaf_digest H d))"
  by (auto simp: MerkleLeafHash_def leaf_digest_def result_simps)

lemma MerkleNodeHash_encodeDigest [simp]:
  "length a = 32 \<Longrightarrow> length b = 32 \<Longrightarrow>
    MerkleNodeHash H (encodeDigest a) (encodeDigest b) = Inr (encodeDigest (node_digest H a b))"
  by (simp add: MerkleNodeHash_def node_digest_def)

lemma nextAuditHash_eq_Inr_iff:
  "nextAuditHash path p = Inr (s, q) \<longleftrightarrow>
     p < length path \<and> s = path ! p \<and> q = p + 1 \<and> (\<exists>b. s = encodeDigest b \<and> length b = 32)"
  by (auto simp: nextAuditHash_def Let_def elim: IsDigestE)

text \<open>\<open>reads path p bs\<close>: from position \<open>p\<close> on the path holds the canonical digests \<open>bs\<close>.\<close>

definition reads :: "string list \<Rightarrow> nat \<Rightarrow> bytes list \<Rightarrow> bool" where
  "reads path p bs \<longleftrightarrow> take (length bs) (drop p path) = map encodeDigest bs \<and> (\<forall>b \<in> set bs. length b = 32)"

lemma reads_Nil [simp]: "reads path p []"
  by (simp add: reads_def)

lemma reads_snoc [simp]:
  "reads path p (bs @ [b]) \<longleftrightarrow>
     reads path p bs \<and> nextAuditHash path (p + length bs) = Inr (encodeDigest b, Suc (p + length bs))"
proof (cases "p + length bs < length path")
  case True
  then have "take (Suc (length bs)) (drop p path) = take (length bs) (drop p path) @ [path ! (p + length bs)]"
    by (subst take_Suc_conv_app_nth) (simp_all add: add.commute)
  with True show ?thesis by (auto simp: reads_def nextAuditHash_eq_Inr_iff)
next
  case False
  have "take (Suc (length bs)) (drop p path) \<noteq> map encodeDigest bs @ [encodeDigest b]"
  proof
    assume "take (Suc (length bs)) (drop p path) = map encodeDigest bs @ [encodeDigest b]"
    then have "length (take (Suc (length bs)) (drop p path)) = Suc (length bs)" by simp
    with False show False by simp
  qed
  with False show ?thesis by (simp add: reads_def nextAuditHash_eq_Inr_iff)
qed

lemma reads_all: "reads path 0 bs \<Longrightarrow> length bs = length path \<Longrightarrow> path = map encodeDigest bs"
  by (simp add: reads_def)

lemma reads_map: "\<forall>b \<in> set bs. length b = 32 \<Longrightarrow> reads (map encodeDigest bs) 0 bs"
  by (simp add: reads_def)

lemma ex_reads_full:
  "(\<exists>bs. length bs = d \<and> reads path 0 bs \<and> P bs \<and> length path = d) \<longleftrightarrow>
   (\<exists>bs. path = map encodeDigest bs \<and> (\<forall>b \<in> set bs. length b = 32) \<and> length bs = d \<and> P bs)"
proof
  assume "\<exists>bs. length bs = d \<and> reads path 0 bs \<and> P bs \<and> length path = d"
  then obtain bs where bs: "length bs = d" "reads path 0 bs" "P bs" "length path = d" by blast
  then have "path = map encodeDigest bs" by (intro reads_all) simp_all
  with bs show "\<exists>bs. path = map encodeDigest bs \<and> (\<forall>b \<in> set bs. length b = 32) \<and> length bs = d \<and> P bs"
    unfolding reads_def by blast
next
  assume "\<exists>bs. path = map encodeDigest bs \<and> (\<forall>b \<in> set bs. length b = 32) \<and> length bs = d \<and> P bs"
  then show "\<exists>bs. length bs = d \<and> reads path 0 bs \<and> P bs \<and> length path = d"
    by (metis length_map reads_map)
qed

subsection \<open>What the verifiers compute\<close>

text \<open>The same recursions on decoded digests, the last audit node being the topmost one.\<close>

function audit_depth :: "nat \<Rightarrow> nat \<Rightarrow> nat" where
  "audit_depth n m = (if n < 2 then 0 else
     if m < split_point n then Suc (audit_depth (split_point n) m)
     else Suc (audit_depth (n - split_point n) (m - split_point n)))"
  by pat_completeness auto
termination
  by (relation "measure fst") (simp_all add: split_point_less)

function audit_root :: "(bytes \<Rightarrow> bytes) \<Rightarrow> nat \<Rightarrow> nat \<Rightarrow> bytes \<Rightarrow> bytes list \<Rightarrow> bytes" where
  "audit_root H n m leaf path = (if n < 2 then leaf else
     if m < split_point n
     then node_digest H (audit_root H (split_point n) m leaf (butlast path)) (last path)
     else node_digest H (last path) (audit_root H (n - split_point n) (m - split_point n) leaf (butlast path)))"
  by pat_completeness auto
termination
  by (relation "measure (\<lambda>(H, n, _). n)") simp_all

function consistency_depth :: "nat \<Rightarrow> nat \<Rightarrow> bool \<Rightarrow> nat" where
  "consistency_depth m n b = (if m = n then (if b then 0 else 1) else if n < 2 then 0 else
     if m \<le> split_point n then Suc (consistency_depth m (split_point n) b)
     else Suc (consistency_depth (m - split_point n) (n - split_point n) False))"
  by pat_completeness auto
termination
  by (relation "measure (\<lambda>(m, n, b). n)") simp_all

function consistency_roots ::
  "(bytes \<Rightarrow> bytes) \<Rightarrow> nat \<Rightarrow> nat \<Rightarrow> bool \<Rightarrow> bytes \<Rightarrow> bytes list \<Rightarrow> bytes \<times> bytes" where
  "consistency_roots H m n b known path =
     (if m = n then (if b then (known, known) else (last path, last path)) else if n < 2 then (known, known) else
      if m \<le> split_point n
      then (let (old, new) = consistency_roots H m (split_point n) b known (butlast path)
            in (old, node_digest H new (last path)))
      else (let (old, new) = consistency_roots H (m - split_point n) (n - split_point n) False known (butlast path)
            in (node_digest H (last path) old, node_digest H (last path) new)))"
  by pat_completeness auto
termination
  by (relation "measure (\<lambda>(H, m, n, _). n)") simp_all

declare audit_depth.simps [simp del] audit_root.simps [simp del]
  consistency_depth.simps [simp del] consistency_roots.simps [simp del]

lemma audit_step:
  assumes r: "\<And>x q. r = Inr (x, q) \<longleftrightarrow>
      (\<exists>bs. length bs = d \<and> reads path p bs \<and> x = encodeDigest (f bs) \<and> q = p + d)"
    and f: "\<And>bs. length (f bs) = 32"
    and N: "\<And>a b. length a = 32 \<Longrightarrow> length b = 32 \<Longrightarrow> N (encodeDigest a) (encodeDigest b) = Inr (encodeDigest (G a b))"
  shows "bindR r (\<lambda>(x, q). bindR (nextAuditHash path q) (\<lambda>(y, q). bindR (N x y) (\<lambda>root. Inr (root, q)))) = Inr (w, q)
    \<longleftrightarrow> (\<exists>bs. length bs = Suc d \<and> reads path p bs \<and> w = encodeDigest (G (f (butlast bs)) (last bs)) \<and> q = p + Suc d)"
    (is "?L \<longleftrightarrow> ?R")
proof
  assume ?L
  then obtain x q' y where x: "r = Inr (x, q')" and y: "nextAuditHash path q' = Inr (y, q)" and z: "N x y = Inr w"
    by (auto simp: result_simps split: prod.splits)
  from r x obtain bs where bs: "length bs = d" "reads path p bs" "x = encodeDigest (f bs)" "q' = p + d" by blast
  from y obtain b where b: "y = encodeDigest b" "length b = 32" "q = Suc q'"
    by (auto simp: nextAuditHash_eq_Inr_iff)
  from z bs b f have "w = encodeDigest (G (f bs) b)" by (simp add: N)
  with y bs b show ?R by (intro exI [of _ "bs @ [b]"]) simp
next
  assume ?R
  then obtain bs b where bs: "length bs = d" "reads path p (bs @ [b])"
      "w = encodeDigest (G (f bs) b)" "q = p + Suc d"
    by (metis butlast_snoc last_snoc length_Suc_conv_rev)
  then have y: "nextAuditHash path (p + d) = Inr (encodeDigest b, q)" by simp
  then have "length b = 32" by (auto simp: nextAuditHash_eq_Inr_iff)
  with bs f have "N (encodeDigest (f bs)) (encodeDigest b) = Inr w" by (simp add: N)
  moreover have "r = Inr (encodeDigest (f bs), p + d)" using r bs by auto
  ultimately show ?L using y by simp
qed

lemma audit_depth_simps:
  "audit_depth (Suc 0) m = 0"
  "2 \<le> n \<Longrightarrow> m < split_point n \<Longrightarrow> audit_depth n m = Suc (audit_depth (split_point n) m)"
  "2 \<le> n \<Longrightarrow> split_point n \<le> m \<Longrightarrow> audit_depth n m = Suc (audit_depth (n - split_point n) (m - split_point n))"
  by (subst audit_depth.simps, simp)+

lemma audit_root_simps:
  "audit_root H (Suc 0) m leaf path = leaf"
  "2 \<le> n \<Longrightarrow> m < split_point n \<Longrightarrow> audit_root H n m leaf path =
     node_digest H (audit_root H (split_point n) m leaf (butlast path)) (last path)"
  "2 \<le> n \<Longrightarrow> split_point n \<le> m \<Longrightarrow> audit_root H n m leaf path =
     node_digest H (last path) (audit_root H (n - split_point n) (m - split_point n) leaf (butlast path))"
  by (subst audit_root.simps, simp)+

lemma reads_lengths: "reads path p bs \<Longrightarrow> b \<in> set bs \<Longrightarrow> length b = 32"
  by (simp add: reads_def)

lemma nextAuditHash_single:
  "nextAuditHash path p = Inr (s, q) \<longleftrightarrow> (\<exists>b. s = encodeDigest b \<and> reads path p [b] \<and> q = Suc p)"
proof -
  have "reads path p [b] \<longleftrightarrow> nextAuditHash path p = Inr (encodeDigest b, Suc p)" for b
    using reads_snoc [of path p "[]" b] by simp
  then show ?thesis by (auto simp: nextAuditHash_eq_Inr_iff)
qed

lemma consistency_step:
  assumes r: "\<And>x y q. r = Inr (x, y, q) \<longleftrightarrow> (\<exists>bs. length bs = d \<and> reads path p bs \<and>
      x = encodeDigest (fst (f bs)) \<and> y = encodeDigest (snd (f bs)) \<and> q = p + d)"
    and f: "\<And>bs. reads path p bs \<Longrightarrow> length bs = d \<Longrightarrow> length (fst (f bs)) = 32 \<and> length (snd (f bs)) = 32"
    and K: "\<And>a b c q. length a = 32 \<Longrightarrow> length b = 32 \<Longrightarrow> length c = 32 \<Longrightarrow>
      K (encodeDigest a) (encodeDigest b) (encodeDigest c) q = Inr (encodeDigest (fst (G (a, b) c)), encodeDigest (snd (G (a, b) c)), q)"
  shows "bindR r (\<lambda>(x, y, q). bindR (nextAuditHash path q) (\<lambda>(z, q). K x y z q)) = Inr (v, w, q)
    \<longleftrightarrow> (\<exists>bs. length bs = Suc d \<and> reads path p bs \<and> v = encodeDigest (fst (G (f (butlast bs)) (last bs))) \<and>
      w = encodeDigest (snd (G (f (butlast bs)) (last bs))) \<and> q = p + Suc d)"
    (is "?L \<longleftrightarrow> ?R")
proof
  assume ?L
  then obtain x y q' z q'' where x: "r = Inr (x, y, q')" and z: "nextAuditHash path q' = Inr (z, q'')"
      and k: "K x y z q'' = Inr (v, w, q)"
    by (auto simp: result_simps split: prod.splits)
  from r x obtain bs where bs: "length bs = d" "reads path p bs" "x = encodeDigest (fst (f bs))"
      "y = encodeDigest (snd (f bs))" "q' = p + d" by blast
  from z obtain b where b: "z = encodeDigest b" "length b = 32" "q'' = Suc q'"
    by (auto simp: nextAuditHash_eq_Inr_iff)
  from k bs b f [OF bs(2,1)] have "v = encodeDigest (fst (G (f bs) b)) \<and> w = encodeDigest (snd (G (f bs) b)) \<and> q = q''"
    by (simp add: K)
  with z bs b show ?R by (intro exI [of _ "bs @ [b]"]) simp
next
  assume ?R
  then obtain bs b where bs: "length bs = d" "reads path p (bs @ [b])"
      "v = encodeDigest (fst (G (f bs) b))" "w = encodeDigest (snd (G (f bs) b))" "q = p + Suc d"
    by (metis butlast_snoc last_snoc length_Suc_conv_rev)
  then have y: "nextAuditHash path (p + d) = Inr (encodeDigest b, q)" "reads path p bs" by simp_all
  then have "length b = 32" by (auto simp: nextAuditHash_eq_Inr_iff)
  with bs y f [OF y(2) bs(1)] have "K (encodeDigest (fst (f bs))) (encodeDigest (snd (f bs))) (encodeDigest b) q = Inr (v, w, q)"
    by (simp add: K)
  moreover have "r = Inr (encodeDigest (fst (f bs)), encodeDigest (snd (f bs)), p + d)" using r bs y by auto
  ultimately show ?L using y by simp
qed

lemma consistency_depth_simps:
  "consistency_depth n n b = (if b then 0 else 1)"
  "2 \<le> n \<Longrightarrow> m \<noteq> n \<Longrightarrow> m \<le> split_point n \<Longrightarrow> consistency_depth m n b = Suc (consistency_depth m (split_point n) b)"
  "2 \<le> n \<Longrightarrow> m \<noteq> n \<Longrightarrow> split_point n < m \<Longrightarrow>
    consistency_depth m n b = Suc (consistency_depth (m - split_point n) (n - split_point n) False)"
  by (subst consistency_depth.simps, simp)+

lemma consistency_roots_simps:
  "consistency_roots H n n b known path = (if b then (known, known) else (last path, last path))"
  "2 \<le> n \<Longrightarrow> m \<noteq> n \<Longrightarrow> m \<le> split_point n \<Longrightarrow> consistency_roots H m n b known path =
     (\<lambda>(old, new) x. (old, node_digest H new x)) (consistency_roots H m (split_point n) b known (butlast path)) (last path)"
  "2 \<le> n \<Longrightarrow> m \<noteq> n \<Longrightarrow> split_point n < m \<Longrightarrow> consistency_roots H m n b known path =
     (\<lambda>(old, new) x. (node_digest H x old, node_digest H x new))
       (consistency_roots H (m - split_point n) (n - split_point n) False known (butlast path)) (last path)"
  by (subst consistency_roots.simps, simp split: prod.splits)+

context digest32
begin

lemma length_node_digest [simp]: "length (node_digest Sum256 l r) = 32"
  by (simp add: node_digest_def length_Sum256)

lemma length_leaf_digest [simp]: "length (leaf_digest Sum256 d) = 32"
  by (simp add: leaf_digest_def length_Sum256)

lemma length_mth [simp]: "length (mth Sum256 ds) = 32"
  by (cases "(Sum256, ds)" rule: mth.cases) (simp_all add: mth.simps Let_def length_Sum256)

lemma length_audit_root: "length leaf = 32 \<Longrightarrow> length (audit_root Sum256 n m leaf path) = 32"
  by (subst audit_root.simps) simp


lemma rebuildInclusionRoot_iff:
  assumes "1 \<le> n" "n \<le> 2 ^ 62" "m < n" "0 \<le> start" "start + int n < 2 ^ 63" "length leaf = 32"
  shows "\<exists>r. rebuildInclusionRoot Sum256 start (int n) (start + int m) (encodeDigest leaf) path p = Some r \<and>
    (\<forall>root q. r = Inr (root, q) \<longleftrightarrow> (\<exists>bs. length bs = audit_depth n m \<and> reads path p bs \<and>
       root = encodeDigest (audit_root Sum256 n m leaf bs) \<and> q = p + audit_depth n m))"
  using assms
proof (induction n arbitrary: m start rule: less_induct)
  case (less n)
  show ?case
  proof (cases "n = 1")
    case True
    then show ?thesis
      by (subst rebuildInclusionRoot.simps) (auto simp: audit_depth_simps audit_root_simps)
  next
    case False
    let ?k = "split_point n"
    from False less.prems have n2: "2 \<le> n" by simp
    then have k: "?k < n" "0 < ?k" by simp_all
    have split: "largestPowerOfTwoLessThan (int n) = Some (int ?k)"
      using n2 less.prems by (intro largestPowerOfTwoLessThan_split_point) simp_all
    have sk: "i64 (start + int ?k) = start + int ?k" "i64 (int n - int ?k) = int (n - ?k)"
      using k less.prems by (simp_all add: i64_nonneg_id of_nat_diff)
    show ?thesis
    proof (cases "m < ?k")
      case True
      from less.IH [OF k(1), of m start] True k less.prems obtain r where
        r: "rebuildInclusionRoot Sum256 start (int ?k) (start + int m) (encodeDigest leaf) path p = Some r"
        and rI: "\<And>root q. r = Inr (root, q) \<longleftrightarrow> (\<exists>bs. length bs = audit_depth ?k m \<and> reads path p bs \<and>
          root = encodeDigest (audit_root Sum256 ?k m leaf bs) \<and> q = p + audit_depth ?k m)"
        by force
      note audit_step [OF rI, where N = "MerkleNodeHash Sum256" and G = "node_digest Sum256"]
      with False n2 True less.prems(6) split r show ?thesis
        by (subst rebuildInclusionRoot.simps)
          (simp add: sk(1) audit_depth_simps audit_root_simps length_audit_root)
    next
      case F: False
      have target: "(start + int ?k) + int (m - ?k) = start + int m" using F by simp
      from less.IH [of "n - ?k" "m - ?k" "start + int ?k"] F k n2 less.prems obtain r where
        r: "rebuildInclusionRoot Sum256 (start + int ?k) (int (n - ?k)) (start + int m) (encodeDigest leaf) path p = Some r"
        and rI: "\<And>root q. r = Inr (root, q) \<longleftrightarrow> (\<exists>bs. length bs = audit_depth (n - ?k) (m - ?k) \<and> reads path p bs \<and>
          root = encodeDigest (audit_root Sum256 (n - ?k) (m - ?k) leaf bs) \<and> q = p + audit_depth (n - ?k) (m - ?k))"
        unfolding target by force
      note audit_step [OF rI, where N = "\<lambda>x y. MerkleNodeHash Sum256 y x" and G = "\<lambda>x y. node_digest Sum256 y x"]
      with False n2 F less.prems(6) split r show ?thesis
        by (subst rebuildInclusionRoot.simps)
          (simp add: sk audit_depth_simps audit_root_simps length_audit_root del: of_nat_diff)
    qed
  qed
qed


lemma length_consistency_roots:
  assumes "1 \<le> m" "m \<le> n" "\<forall>x \<in> set bs. length x = 32" "length bs = consistency_depth m n b" "length known = 32"
  shows "length (fst (consistency_roots Sum256 m n b known bs)) = 32 \<and>
    length (snd (consistency_roots Sum256 m n b known bs)) = 32"
  using assms
proof (induction n arbitrary: m b bs rule: less_induct)
  case (less n)
  show ?case
  proof (cases "m = n")
    case True
    with less.prems show ?thesis by (cases bs rule: rev_cases) (auto simp: consistency_roots_simps consistency_depth_simps)
  next
    case False
    with less.prems have n: "2 \<le> n" by simp
    show ?thesis
    proof (cases "m \<le> split_point n")
      case True
      have "\<forall>x \<in> set (butlast bs). length x = 32" using less.prems(3) in_set_butlastD by fast
      with True less.IH [of "split_point n" m "butlast bs" b] False n less.prems show ?thesis
        by (auto simp: consistency_roots_simps consistency_depth_simps split: prod.splits)
    next
      case F: False
      with False n show ?thesis by (auto simp: consistency_roots_simps split: prod.splits)
    qed
  qed
qed

lemma rebuildConsistencyRoots_iff:
  assumes "1 \<le> m" "m \<le> n" "n \<le> 2 ^ 62" "length known = 32"
  shows "\<exists>r. rebuildConsistencyRoots Sum256 (int m) (int n) b (encodeDigest known) path p = Some r \<and>
    (\<forall>x y q. r = Inr (x, y, q) \<longleftrightarrow> (\<exists>bs. length bs = consistency_depth m n b \<and> reads path p bs \<and>
       x = encodeDigest (fst (consistency_roots Sum256 m n b known bs)) \<and>
       y = encodeDigest (snd (consistency_roots Sum256 m n b known bs)) \<and> q = p + consistency_depth m n b))"
  using assms
proof (induction n arbitrary: m b rule: less_induct)
  case (less n)
  show ?case
  proof (cases "m = n")
    case True
    show ?thesis
    proof (cases b)
      case False
      have "bindR (nextAuditHash path p) (\<lambda>(root, position). Inr (root, root, position)) = Inr (x, y, q) \<longleftrightarrow>
        (\<exists>bs. length bs = 1 \<and> reads path p bs \<and> x = encodeDigest (last bs) \<and> y = encodeDigest (last bs) \<and> q = p + 1)" for x y q
        by (auto simp: result_simps nextAuditHash_single length_Suc_conv split: prod.splits)
      with True False show ?thesis
        by (subst rebuildConsistencyRoots.simps) (simp add: consistency_depth_simps consistency_roots_simps)
    qed (use True in \<open>subst rebuildConsistencyRoots.simps, auto simp: consistency_depth_simps consistency_roots_simps\<close>)
  next
    case False
    let ?k = "split_point n"
    from False less.prems have n2: "2 \<le> n" by simp
    then have k: "?k < n" "0 < ?k" by simp_all
    have split: "largestPowerOfTwoLessThan (int n) = Some (int ?k)"
      using n2 less.prems by (intro largestPowerOfTwoLessThan_split_point) simp_all
    show ?thesis
    proof (cases "m \<le> ?k")
      case True
      from less.IH [OF k(1), of m b] True k less.prems obtain r where
        r: "rebuildConsistencyRoots Sum256 (int m) (int ?k) b (encodeDigest known) path p = Some r"
        and rI: "\<And>x y q. r = Inr (x, y, q) \<longleftrightarrow> (\<exists>bs. length bs = consistency_depth m ?k b \<and> reads path p bs \<and>
          x = encodeDigest (fst (consistency_roots Sum256 m ?k b known bs)) \<and>
          y = encodeDigest (snd (consistency_roots Sum256 m ?k b known bs)) \<and> q = p + consistency_depth m ?k b)"
        by force
      have "length (fst (consistency_roots Sum256 m ?k b known bs)) = 32 \<and> length (snd (consistency_roots Sum256 m ?k b known bs)) = 32"
        if "reads path p bs" "length bs = consistency_depth m ?k b" for bs
        using that True less.prems by (intro length_consistency_roots) (auto dest: reads_lengths)
      note consistency_step [OF rI this, where K = "\<lambda>x y z q. bindR (MerkleNodeHash Sum256 y z) (\<lambda>newRoot. Inr (x, newRoot, q))"
          and G = "\<lambda>(old, new) x. (old, node_digest Sum256 new x)"]
      with False n2 True split r show ?thesis
        by (subst rebuildConsistencyRoots.simps) (simp add: consistency_depth_simps consistency_roots_simps)
    next
      case F: False
      have sk: "i64 (int m - int ?k) = int (m - ?k)" "i64 (int n - int ?k) = int (n - ?k)"
        using F k less.prems by (simp_all add: i64_nonneg_id of_nat_diff)
      from less.IH [of "n - ?k" "m - ?k" False] F k n2 less.prems obtain r where
        r: "rebuildConsistencyRoots Sum256 (int (m - ?k)) (int (n - ?k)) False (encodeDigest known) path p = Some r"
        and rI: "\<And>x y q. r = Inr (x, y, q) \<longleftrightarrow> (\<exists>bs. length bs = consistency_depth (m - ?k) (n - ?k) False \<and> reads path p bs \<and>
          x = encodeDigest (fst (consistency_roots Sum256 (m - ?k) (n - ?k) False known bs)) \<and>
          y = encodeDigest (snd (consistency_roots Sum256 (m - ?k) (n - ?k) False known bs)) \<and>
          q = p + consistency_depth (m - ?k) (n - ?k) False)"
        by force
      have "length (fst (consistency_roots Sum256 (m - ?k) (n - ?k) False known bs)) = 32 \<and>
            length (snd (consistency_roots Sum256 (m - ?k) (n - ?k) False known bs)) = 32"
        if "reads path p bs" "length bs = consistency_depth (m - ?k) (n - ?k) False" for bs
        using that F less.prems by (intro length_consistency_roots) (auto dest: reads_lengths)
      note consistency_step [OF rI this, where K = "\<lambda>x y z q. bindR (MerkleNodeHash Sum256 z x) (\<lambda>oldRoot.
            bindR (MerkleNodeHash Sum256 z y) (\<lambda>newRoot. Inr (oldRoot, newRoot, q)))"
          and G = "\<lambda>(old, new) x. (node_digest Sum256 x old, node_digest Sum256 x new)"]
      with False n2 F split r show ?thesis
        by (subst rebuildConsistencyRoots.simps) (simp add: sk consistency_depth_simps consistency_roots_simps del: of_nat_diff)
    qed
  qed
qed

end


subsection \<open>Proofs of the reference are accepted, and only those\<close>

lemma mth_path_simps:
  "length ds = Suc 0 \<Longrightarrow> mth_path H m ds = []"
  "2 \<le> length ds \<Longrightarrow> m < split_point (length ds) \<Longrightarrow> mth_path H m ds =
     mth_path H m (take (split_point (length ds)) ds) @ [mth H (drop (split_point (length ds)) ds)]"
  "2 \<le> length ds \<Longrightarrow> split_point (length ds) \<le> m \<Longrightarrow> mth_path H m ds =
     mth_path H (m - split_point (length ds)) (drop (split_point (length ds)) ds) @ [mth H (take (split_point (length ds)) ds)]"
  by (simp_all add: mth_path.simps [of H m ds] Let_def)

lemma mth_consistency_simps:
  "mth_consistency H (length ds) b ds = (if b then [] else [mth H ds])"
  "2 \<le> length ds \<Longrightarrow> m \<noteq> length ds \<Longrightarrow> m \<le> split_point (length ds) \<Longrightarrow> mth_consistency H m b ds =
     mth_consistency H m b (take (split_point (length ds)) ds) @ [mth H (drop (split_point (length ds)) ds)]"
  "2 \<le> length ds \<Longrightarrow> m \<noteq> length ds \<Longrightarrow> split_point (length ds) < m \<Longrightarrow> mth_consistency H m b ds =
     mth_consistency H (m - split_point (length ds)) False (drop (split_point (length ds)) ds) @ [mth H (take (split_point (length ds)) ds)]"
  "mth_consistency H (Suc 0) b [d] = (if b then [] else [mth H [d]])"
  by (simp_all add: mth_consistency.simps [of H _ b] Let_def)

text \<open>The list induction that follows the shape of the tree.\<close>

lemma tree_induct [consumes 1, case_names one split]:
  assumes "ds \<noteq> []" "\<And>d. P [d]"
    and "\<And>ds. 2 \<le> length ds \<Longrightarrow> P (take (split_point (length ds)) ds) \<Longrightarrow> P (drop (split_point (length ds)) ds) \<Longrightarrow> P ds"
  shows "P ds"
  using assms(1)
proof (induction ds rule: length_induct)
  case (1 ds)
  show ?case
  proof (cases "2 \<le> length ds")
    case True
    let ?k = "split_point (length ds)"
    from True have "length (take ?k ds) < length ds" "length (drop ?k ds) < length ds" by simp_all
    moreover from True have "take ?k ds \<noteq> []" "drop ?k ds \<noteq> []"
      using split_point_less [OF True] split_point_pos [of "length ds"] by (auto simp del: split_point_pos split_point_less)
    ultimately show ?thesis using 1 assms(3) [OF True] by blast
  next
    case False
    with 1 obtain d where "ds = [d]" by (cases ds; cases "tl ds") auto
    with assms(2) show ?thesis by simp
  qed
qed

lemma length_mth_path: "ds \<noteq> [] \<Longrightarrow> length (mth_path H m ds) = audit_depth (length ds) m"
proof (induction ds arbitrary: m rule: tree_induct)
  case (split ds)
  then show ?case
    by (cases "m < split_point (length ds)") (simp_all add: mth_path_simps audit_depth_simps)
qed (simp add: mth_path_simps audit_depth_simps)

lemma audit_root_mth_path:
  assumes "ds \<noteq> []" "m < length ds"
  shows "audit_root H (length ds) m (leaf_digest H (ds ! m)) (mth_path H m ds) = mth H ds"
  using assms
proof (induction ds arbitrary: m rule: tree_induct)
  case (one d)
  then show ?case by (simp add: audit_root_simps mth.simps)
next
  case (split ds)
  then show ?case using split.IH(2) [of "m - split_point (length ds)"]
    by (cases "m < split_point (length ds)")
      (simp_all add: mth_path_simps audit_root_simps mth_split [of ds])
qed

lemma mth_take_split:
  assumes "2 \<le> length ds" "split_point (length ds) < m" "m \<le> length ds"
  shows "mth H (take m ds) = node_digest H (mth H (take (split_point (length ds)) ds))
    (mth H (take (m - split_point (length ds)) (drop (split_point (length ds)) ds)))"
proof -
  have "split_point m = split_point (length ds)" using assms by (rule split_point_prefix)
  moreover have "2 \<le> m" using assms split_point_pos [of "length ds"] by linarith
  ultimately show ?thesis using assms mth_split [of "take m ds" H] by (simp add: drop_take min_absorb1 min_absorb2)
qed

lemma length_mth_consistency:
  "ds \<noteq> [] \<Longrightarrow> 1 \<le> m \<Longrightarrow> m \<le> length ds \<Longrightarrow> length (mth_consistency H m b ds) = consistency_depth m (length ds) b"
proof (induction ds arbitrary: m b rule: tree_induct)
  case (split ds)
  then show ?case
    by (cases "m = length ds"; cases "m \<le> split_point (length ds)")
      (simp_all add: mth_consistency_simps consistency_depth_simps)
qed (simp add: mth_consistency_simps consistency_depth_simps)

lemma consistency_roots_mth:
  assumes "ds \<noteq> []" "1 \<le> m" "m \<le> length ds" "b \<Longrightarrow> known = mth H (take m ds)"
  shows "consistency_roots H m (length ds) b known (mth_consistency H m b ds) = (mth H (take m ds), mth H ds)"
  using assms
proof (induction ds arbitrary: m b rule: tree_induct)
  case (one d)
  then show ?case by (simp add: mth_consistency_simps consistency_roots_simps)
next
  case (split ds)
  show ?case
  proof (cases "m = length ds")
    case True
    with split.prems show ?thesis by (simp add: mth_consistency_simps consistency_roots_simps)
  next
    case False
    show ?thesis
    proof (cases "m \<le> split_point (length ds)")
      case True
      from True split.IH(1) [of m b] False split.hyps split.prems show ?thesis
        by (simp add: mth_consistency_simps consistency_roots_simps mth_split [of ds] min_absorb1 min_absorb2)
    next
      case F: False
      with False split.hyps split.prems split.IH(2) [of "m - split_point (length ds)" False] show ?thesis
        by (simp add: mth_consistency_simps consistency_roots_simps mth_split [of ds] mth_take_split)
    qed
  qed
qed


subsection \<open>Accepted proofs bind\<close>

text \<open>The messages hashed for a tree and those hashed while a root is rebuilt from an audit
  path. Both lists are finite and explicit: that no two of them collide is all the soundness theorems ask of
  the hash function.\<close>

function mth_msgs :: "(bytes \<Rightarrow> bytes) \<Rightarrow> bytes list \<Rightarrow> bytes list" where
  "mth_msgs H ds = (if ds = [] then [[]] else if length ds < 2 then [CHR 0x00 # hd ds] else
     let k = split_point (length ds) in
       (CHR 0x01 # mth H (take k ds) @ mth H (drop k ds)) # mth_msgs H (take k ds) @ mth_msgs H (drop k ds))"
  by pat_completeness auto
termination
proof (relation "measure (\<lambda>(H, ds). length ds)", goal_cases)
  case (3 H ds k)
  then show ?case using split_point_rest [of "length ds" "length ds"] by simp
qed simp_all

function audit_msgs :: "(bytes \<Rightarrow> bytes) \<Rightarrow> nat \<Rightarrow> nat \<Rightarrow> bytes \<Rightarrow> bytes list \<Rightarrow> bytes list" where
  "audit_msgs H n m leaf path = (if n < 2 then [] else
     if m < split_point n
     then (CHR 0x01 # audit_root H (split_point n) m leaf (butlast path) @ last path)
          # audit_msgs H (split_point n) m leaf (butlast path)
     else (CHR 0x01 # last path @ audit_root H (n - split_point n) (m - split_point n) leaf (butlast path))
          # audit_msgs H (n - split_point n) (m - split_point n) leaf (butlast path))"
  by pat_completeness auto
termination
  by (relation "measure (\<lambda>(H, n, _). n)") simp_all

function consistency_msgs ::
  "(bytes \<Rightarrow> bytes) \<Rightarrow> nat \<Rightarrow> nat \<Rightarrow> bool \<Rightarrow> bytes \<Rightarrow> bytes list \<Rightarrow> bytes list" where
  "consistency_msgs H m n b known path = (if m = n \<or> n < 2 then [] else
     if m \<le> split_point n
     then (CHR 0x01 # snd (consistency_roots H m (split_point n) b known (butlast path)) @ last path)
          # consistency_msgs H m (split_point n) b known (butlast path)
     else (CHR 0x01 # last path @ snd (consistency_roots H (m - split_point n) (n - split_point n) False known (butlast path)))
          # consistency_msgs H (m - split_point n) (n - split_point n) False known (butlast path))"
  by pat_completeness auto
termination
  by (relation "measure (\<lambda>(H, m, n, _). n)") simp_all

declare mth_msgs.simps [simp del] audit_msgs.simps [simp del] consistency_msgs.simps [simp del]

lemma mth_msgs_split: "2 \<le> length ds \<Longrightarrow> set (mth_msgs H ds) =
    insert (CHR 0x01 # mth H (take (split_point (length ds)) ds) @ mth H (drop (split_point (length ds)) ds))
      (set (mth_msgs H (take (split_point (length ds)) ds)) \<union> set (mth_msgs H (drop (split_point (length ds)) ds)))"
proof -
  assume "2 \<le> length ds"
  then have "ds \<noteq> []" "\<not> length ds < 2" by auto
  then show ?thesis by (simp add: mth_msgs.simps [of H ds] Let_def)
qed

context digest32
begin

lemma node_digest_inj:
  assumes "inj_on Sum256 S" "CHR 0x01 # a @ b \<in> S" "CHR 0x01 # c @ d \<in> S" "length a = length c"
    and "node_digest Sum256 a b = node_digest Sum256 c d"
  shows "a = c \<and> b = d"
proof -
  have "CHR 0x01 # a @ b = CHR 0x01 # c @ d"
    by (rule inj_onD [OF assms(1) assms(5) [unfolded node_digest_def] assms(2,3)])
  with assms(4) show ?thesis by simp
qed

lemma audit_root_binds:
  assumes "ds \<noteq> []" "m < length ds" "length leaf = 32" "\<forall>b \<in> set bs. length b = 32"
    and "length bs = audit_depth (length ds) m"
    and "audit_root Sum256 (length ds) m leaf bs = mth Sum256 ds"
    and "inj_on Sum256 (set (mth_msgs Sum256 ds) \<union> set (audit_msgs Sum256 (length ds) m leaf bs))"
  shows "leaf = leaf_digest Sum256 (ds ! m) \<and> bs = mth_path Sum256 m ds"
  using assms
proof (induction ds arbitrary: m bs rule: tree_induct)
  case (one d)
  then show ?case by (simp add: audit_root_simps mth.simps audit_depth_simps mth_path_simps)
next
  case (split ds)
  let ?k = "split_point (length ds)"
  have d: "0 < length bs" using split.hyps split.prems(4)
    by (cases "m < ?k") (simp_all add: audit_depth_simps)
  then obtain cs c where bs: "bs = cs @ [c]" by (cases bs rule: rev_cases) auto
  with split.prems have c: "length c = 32" "\<forall>b \<in> set cs. length b = 32" by simp_all
  note S = split.prems(6) [unfolded mth_msgs_split [OF split.hyps] audit_msgs.simps [of _ "length ds"]]
  show ?case
  proof (cases "m < ?k")
    case True
    have eq: "audit_root Sum256 ?k m leaf cs = mth Sum256 (take ?k ds) \<and> c = mth Sum256 (drop ?k ds)"
      using split.prems(5) split.hyps True bs c split.prems(2)
      by (intro node_digest_inj [OF S]) (simp_all add: audit_root_simps mth_split length_audit_root)
    moreover have "leaf = leaf_digest Sum256 (take ?k ds ! m) \<and> cs = mth_path Sum256 m (take ?k ds)"
    proof (rule split.IH(1))
      show "inj_on Sum256 (set (mth_msgs Sum256 (take ?k ds)) \<union> set (audit_msgs Sum256 (length (take ?k ds)) m leaf cs))"
        using True split.hyps bs by (intro inj_on_subset [OF S]) auto
    qed (use True split.hyps split.prems eq bs c in \<open>simp_all add: audit_depth_simps\<close>)
    ultimately show ?thesis using True split.hyps bs by (simp add: mth_path_simps)
  next
    case False
    have eq: "c = mth Sum256 (take ?k ds) \<and> audit_root Sum256 (length ds - ?k) (m - ?k) leaf cs = mth Sum256 (drop ?k ds)"
      using split.prems(5) split.hyps False bs c split.prems(2)
      by (intro node_digest_inj [OF S]) (simp_all add: audit_root_simps mth_split length_audit_root)
    moreover have "leaf = leaf_digest Sum256 (drop ?k ds ! (m - ?k)) \<and> cs = mth_path Sum256 (m - ?k) (drop ?k ds)"
    proof (rule split.IH(2))
      show "inj_on Sum256 (set (mth_msgs Sum256 (drop ?k ds)) \<union> set (audit_msgs Sum256 (length (drop ?k ds)) (m - ?k) leaf cs))"
        using False split.hyps bs by (intro inj_on_subset [OF S]) auto
    qed (use False split.hyps split.prems eq bs c in \<open>simp_all add: audit_depth_simps\<close>)
    ultimately show ?thesis using False split.hyps split.prems(1) bs by (simp add: mth_path_simps)
  qed
qed

lemma consistency_roots_bind:
  assumes "ds \<noteq> []" "1 \<le> m" "m \<le> length ds" "length known = 32" "\<forall>x \<in> set bs. length x = 32"
    and "length bs = consistency_depth m (length ds) b"
    and "snd (consistency_roots Sum256 m (length ds) b known bs) = mth Sum256 ds"
    and "inj_on Sum256 (set (mth_msgs Sum256 ds) \<union> set (consistency_msgs Sum256 m (length ds) b known bs))"
  shows "fst (consistency_roots Sum256 m (length ds) b known bs) = mth Sum256 (take m ds)"
  using assms
proof (induction ds arbitrary: m b bs rule: tree_induct)
  case (one d)
  then show ?case by (simp add: consistency_roots_simps split: if_splits)
next
  case (split ds)
  let ?k = "split_point (length ds)"
  show ?case
  proof (cases "m = length ds")
    case True
    with split.prems show ?thesis by (simp add: consistency_roots_simps split: if_splits)
  next
    case False
    have d: "0 < length bs" using split.hyps split.prems(5) False
      by (cases "m \<le> ?k") (simp_all add: consistency_depth_simps)
    then obtain cs c where bs: "bs = cs @ [c]" by (cases bs rule: rev_cases) auto
    with split.prems have c: "length c = 32" "\<forall>x \<in> set cs. length x = 32" by simp_all
    note S = split.prems(7) [unfolded mth_msgs_split [OF split.hyps] consistency_msgs.simps [of _ m "length ds"]]
    show ?thesis
    proof (cases "m \<le> ?k")
      case True
      let ?r = "consistency_roots Sum256 m ?k b known cs"
      have lc: "length cs = consistency_depth m ?k b"
        using True split.hyps split.prems False bs by (simp add: consistency_depth_simps)
      have "length (snd ?r) = 32" using length_consistency_roots [OF _ True c(2) lc] split.prems by simp
      then have eq: "snd ?r = mth Sum256 (take ?k ds) \<and> c = mth Sum256 (drop ?k ds)"
        using split.prems(6) split.hyps True False bs c
        by (intro node_digest_inj [OF S]) (simp_all add: consistency_roots_simps mth_split split: prod.splits)
      have "fst (consistency_roots Sum256 m (length (take ?k ds)) b known cs) = mth Sum256 (take m (take ?k ds))"
      proof (rule split.IH(1))
        show "inj_on Sum256 (set (mth_msgs Sum256 (take ?k ds)) \<union>
            set (consistency_msgs Sum256 m (length (take ?k ds)) b known cs))"
          using True False split.hyps bs by (intro inj_on_subset [OF S]) auto
      qed (use True split.hyps split.prems eq bs c lc in simp_all)
      with True False split.hyps bs show ?thesis
        by (auto simp: consistency_roots_simps min_absorb1 min_absorb2 split: prod.splits)
    next
      case F: False
      let ?r = "consistency_roots Sum256 (m - ?k) (length ds - ?k) False known cs"
      have lc: "length cs = consistency_depth (m - ?k) (length ds - ?k) False"
        using F split.hyps split.prems False bs by (simp add: consistency_depth_simps)
      have eq: "c = mth Sum256 (take ?k ds) \<and> snd ?r = mth Sum256 (drop ?k ds)"
        using split.prems(6) split.hyps F False bs c
        by (intro node_digest_inj [OF S]) (simp_all add: consistency_roots_simps mth_split split: prod.splits)
      have "fst (consistency_roots Sum256 (m - ?k) (length (drop ?k ds)) False known cs)
          = mth Sum256 (take (m - ?k) (drop ?k ds))"
      proof (rule split.IH(2))
        show "inj_on Sum256 (set (mth_msgs Sum256 (drop ?k ds)) \<union>
            set (consistency_msgs Sum256 (m - ?k) (length (drop ?k ds)) False known cs))"
          using F False split.hyps bs by (intro inj_on_subset [OF S]) auto
      qed (use F split.hyps split.prems eq bs c lc in simp_all)
      with F False split.hyps split.prems bs eq show ?thesis
        by (simp add: consistency_roots_simps mth_take_split split: prod.splits)
    qed
  qed
qed

end


subsection \<open>Properties of the verifiers\<close>

definition digest_bytes :: "string \<Rightarrow> bytes" where
  "digest_bytes s = (case decodeDigest s of Inl _ \<Rightarrow> [] | Inr b \<Rightarrow> b)"

lemma digest_bytes_encodeDigest [simp]: "length b = 32 \<Longrightarrow> digest_bytes (encodeDigest b) = b"
  by (simp add: digest_bytes_def)

lemma map_digest_bytes_encodeDigest:
  "\<forall>b \<in> set bs. length b = 32 \<Longrightarrow> map digest_bytes (map encodeDigest bs) = bs"
  by (induction bs) auto

lemma VerifyMerkleTreeHead_fields:
  "VerifyMerkleTreeHead C head = Inr u \<Longrightarrow> 0 \<le> th_TreeSize head \<and> IsDigest (th_RootHash head)"
  by (auto simp: VerifyMerkleTreeHead_def split: if_splits)

lemma MerkleTreeHeadMessage_inj:
  assumes "MerkleTreeHeadMessage a = MerkleTreeHeadMessage b"
    and "list_all no_lf [th_ProtocolVersion a, th_RegistryScope a, th_RootHash a, th_GeneratedAt a, th_RegistryKeyID a]"
    and "list_all no_lf [th_ProtocolVersion b, th_RegistryScope b, th_RootHash b, th_GeneratedAt b, th_RegistryKeyID b]"
  shows "th_ProtocolVersion a = th_ProtocolVersion b" "th_RegistryScope a = th_RegistryScope b"
    "th_TreeSize a = th_TreeSize b" "th_RootHash a = th_RootHash b" "th_GeneratedAt a = th_GeneratedAt b"
    "th_RegistryKeyID a = th_RegistryKeyID b"
  using canonical_inj [OF assms(1) [unfolded MerkleTreeHeadMessage_def]] assms(2,3) by simp_all

context digest32
begin

lemma VerifyMerkleInclusionProof_cases:
  assumes "Sum256 = crypto.Sum256 C" "th_TreeSize (mip_TreeHead p) \<le> 2 ^ 62"
  shows "\<exists>r. VerifyMerkleInclusionProof C p = Some r \<and> (r = Inr () \<longleftrightarrow>
    VerifyMerkleTreeHead C (mip_TreeHead p) = Inr () \<and>
    1 \<le> mip_LedgerIndex p \<and> mip_LedgerIndex p \<le> th_TreeSize (mip_TreeHead p) \<and>
    (\<exists>d bs. length d = 32 \<and> mip_LedgerEntryHash p = encodeDigest d \<and>
       mip_LeafHash p = encodeDigest (leaf_digest Sum256 d) \<and>
       mip_AuditPath p = map encodeDigest bs \<and> (\<forall>b \<in> set bs. length b = 32) \<and>
       length bs = audit_depth (nat (th_TreeSize (mip_TreeHead p))) (nat (mip_LedgerIndex p - 1)) \<and>
       th_RootHash (mip_TreeHead p) = encodeDigest (audit_root Sum256 (nat (th_TreeSize (mip_TreeHead p)))
         (nat (mip_LedgerIndex p - 1)) (leaf_digest Sum256 d) bs)))"
proof (cases "VerifyMerkleTreeHead C (mip_TreeHead p) = Inr () \<and> 1 \<le> mip_LedgerIndex p \<and>
    mip_LedgerIndex p \<le> th_TreeSize (mip_TreeHead p) \<and>
    MerkleLeafHash Sum256 (mip_LedgerEntryHash p) = Inr (mip_LeafHash p)")
  case False
  then show ?thesis
    by (auto simp: VerifyMerkleInclusionProof_def MerkleLeafHash_eq_Inr_iff assms(1) [symmetric] split: sum.splits)
next
  case True
  then obtain d where d: "length d = 32" "mip_LedgerEntryHash p = encodeDigest d"
      "mip_LeafHash p = encodeDigest (leaf_digest Sum256 d)"
    by (auto simp: MerkleLeafHash_eq_Inr_iff)
  define n m where "n = nat (th_TreeSize (mip_TreeHead p))" and "m = nat (mip_LedgerIndex p - 1)"
  have sizes: "th_TreeSize (mip_TreeHead p) = int n" "i64 (mip_LedgerIndex p - 1) = int m" "1 \<le> n" "n \<le> 2 ^ 62" "m < n"
    using True assms(2) by (simp_all add: n_def m_def i64_nonneg_id le_nat_iff nat_le_iff zless_nat_conj nat_less_iff)
  have "0 + int n < 2 ^ 63" using sizes(1) assms(2) by simp
  from rebuildInclusionRoot_iff [OF sizes(3,4,5) order.refl this length_leaf_digest, of d "mip_AuditPath p" 0]
  obtain r where r: "rebuildInclusionRoot Sum256 0 (int n) (int m) (encodeDigest (leaf_digest Sum256 d)) (mip_AuditPath p) 0 = Some r"
    and rI: "\<And>root q. r = Inr (root, q) \<longleftrightarrow> (\<exists>bs. length bs = audit_depth n m \<and> reads (mip_AuditPath p) 0 bs \<and>
       root = encodeDigest (audit_root Sum256 n m (leaf_digest Sum256 d) bs) \<and> q = audit_depth n m)"
    by auto
  have v: "VerifyMerkleInclusionProof C p = Some (bindR r (\<lambda>(root, position).
      if position \<noteq> length (mip_AuditPath p) then Inl InclusionExtraNodes
      else if root \<noteq> th_RootHash (mip_TreeHead p) then Inl InclusionRootMismatch else Inr ()))"
    using True r d by (simp add: VerifyMerkleInclusionProof_def sizes assms(1) [symmetric])
  have "bindR r (\<lambda>(root, position).
      if position \<noteq> length (mip_AuditPath p) then Inl InclusionExtraNodes
      else if root \<noteq> th_RootHash (mip_TreeHead p) then Inl InclusionRootMismatch else Inr ()) = Inr ()
    \<longleftrightarrow> r = Inr (th_RootHash (mip_TreeHead p), length (mip_AuditPath p))"
    by (auto simp: result_simps split: prod.splits if_splits)
  also have "\<dots> \<longleftrightarrow> (\<exists>bs. mip_AuditPath p = map encodeDigest bs \<and> (\<forall>b \<in> set bs. length b = 32) \<and>
      length bs = audit_depth n m \<and>
      th_RootHash (mip_TreeHead p) = encodeDigest (audit_root Sum256 n m (leaf_digest Sum256 d) bs))"
    unfolding rI using ex_reads_full [of "audit_depth n m" "mip_AuditPath p" "\<lambda>bs. th_RootHash (mip_TreeHead p) = encodeDigest (audit_root Sum256 n m (leaf_digest Sum256 d) bs)"] by (simp only: conj_assoc)
  finally show ?thesis using True d v unfolding n_def [symmetric] m_def [symmetric] by auto
qed

lemma VerifyMerkleConsistencyProof_cases:
  assumes "Sum256 = crypto.Sum256 C" "th_TreeSize (mcp_TreeHead p) \<le> 2 ^ 62"
    and "VerifyMerkleTreeHead C (mcp_TreeHead p) = Inr ()"
    and "1 \<le> mcp_OldTreeSize p" "mcp_OldTreeSize p < th_TreeSize (mcp_TreeHead p)"
    and "mcp_OldRootHash p = encodeDigest known" "length known = 32"
  shows "\<exists>r. VerifyMerkleConsistencyProof C p = Some r \<and> (r = Inr () \<longleftrightarrow>
    (\<exists>bs. mcp_AuditPath p = map encodeDigest bs \<and> (\<forall>b \<in> set bs. length b = 32) \<and>
       length bs = consistency_depth (nat (mcp_OldTreeSize p)) (nat (th_TreeSize (mcp_TreeHead p))) True \<and>
       mcp_OldRootHash p = encodeDigest (fst (consistency_roots Sum256 (nat (mcp_OldTreeSize p))
         (nat (th_TreeSize (mcp_TreeHead p))) True known bs)) \<and>
       th_RootHash (mcp_TreeHead p) = encodeDigest (snd (consistency_roots Sum256 (nat (mcp_OldTreeSize p))
         (nat (th_TreeSize (mcp_TreeHead p))) True known bs))))"
proof -
  define n m where "n = nat (th_TreeSize (mcp_TreeHead p))" and "m = nat (mcp_OldTreeSize p)"
  have sizes: "th_TreeSize (mcp_TreeHead p) = int n" "mcp_OldTreeSize p = int m" "1 \<le> m" "m \<le> n" "n \<le> 2 ^ 62" "m \<noteq> n"
    using assms(2,4,5) by (simp_all add: n_def m_def le_nat_iff nat_le_iff)
  from rebuildConsistencyRoots_iff [OF sizes(3,4,5) assms(7), of True "mcp_AuditPath p" 0]
  obtain r where r: "rebuildConsistencyRoots Sum256 (int m) (int n) True (encodeDigest known) (mcp_AuditPath p) 0 = Some r"
    and rI: "\<And>x y q. r = Inr (x, y, q) \<longleftrightarrow> (\<exists>bs. length bs = consistency_depth m n True \<and> reads (mcp_AuditPath p) 0 bs \<and>
       x = encodeDigest (fst (consistency_roots Sum256 m n True known bs)) \<and>
       y = encodeDigest (snd (consistency_roots Sum256 m n True known bs)) \<and> q = consistency_depth m n True)"
    by auto
  have v: "VerifyMerkleConsistencyProof C p = Some (bindR r (\<lambda>(oldRoot, newRoot, position).
      if position \<noteq> length (mcp_AuditPath p) then Inl ConsistencyExtraNodes
      else if oldRoot \<noteq> mcp_OldRootHash p \<or> newRoot \<noteq> th_RootHash (mcp_TreeHead p)
      then Inl ConsistencyRootMismatch else Inr ()))"
    using assms(3-7) r by (simp add: VerifyMerkleConsistencyProof_def sizes assms(1) [symmetric])
  have "bindR r (\<lambda>(oldRoot, newRoot, position).
      if position \<noteq> length (mcp_AuditPath p) then Inl ConsistencyExtraNodes
      else if oldRoot \<noteq> mcp_OldRootHash p \<or> newRoot \<noteq> th_RootHash (mcp_TreeHead p)
      then Inl ConsistencyRootMismatch else Inr ()) = Inr ()
    \<longleftrightarrow> r = Inr (mcp_OldRootHash p, th_RootHash (mcp_TreeHead p), length (mcp_AuditPath p))"
    by (auto simp: result_simps split: prod.splits if_splits)
  also have "\<dots> \<longleftrightarrow> (\<exists>bs. mcp_AuditPath p = map encodeDigest bs \<and> (\<forall>b \<in> set bs. length b = 32) \<and>
      length bs = consistency_depth m n True \<and>
      mcp_OldRootHash p = encodeDigest (fst (consistency_roots Sum256 m n True known bs)) \<and>
      th_RootHash (mcp_TreeHead p) = encodeDigest (snd (consistency_roots Sum256 m n True known bs)))"
    unfolding rI using ex_reads_full [of "consistency_depth m n True" "mcp_AuditPath p" "\<lambda>bs. mcp_OldRootHash p = encodeDigest (fst (consistency_roots Sum256 m n True known bs)) \<and>
      th_RootHash (mcp_TreeHead p) = encodeDigest (snd (consistency_roots Sum256 m n True known bs))"] by (simp only: conj_assoc)
  finally show ?thesis using v unfolding n_def [symmetric] m_def [symmetric] by auto
qed

end

lemma VerifyMerkleTreeHead_signed:
  assumes "th_ProtocolVersion head = Version" "IsRegistryScope (th_RegistryScope head)"
    and "0 \<le> th_TreeSize head" "IsDigest (th_RootHash head)"
    and "ParsePublicKey C (th_RegistryPublicKey head) = Inr (key, der)"
    and "RegistryKeyID (Sum256 C) der = th_RegistryKeyID head"
    and "th_Signature head = EncodeSignature sig" "length sig = 64"
    and "Ed25519Verify C key (MerkleTreeHeadMessage head) sig"
  shows "VerifyMerkleTreeHead C head = Inr ()"
proof -
  have "ParseSignature (th_Signature head) = Inr sig" using assms(7,8) by (simp add: ParseSignature_iff)
  with assms show ?thesis by (simp add: VerifyMerkleTreeHead_def Verify_def)
qed

context digest32
begin

lemma length_mth_path_elems: "ds \<noteq> [] \<Longrightarrow> \<forall>b \<in> set (mth_path Sum256 m ds). length b = 32"
proof (induction ds arbitrary: m rule: tree_induct)
  case (split ds)
  then show ?case by (cases "m < split_point (length ds)") (simp_all add: mth_path_simps)
qed (simp add: mth_path_simps)

lemma length_mth_consistency_elems:
  "ds \<noteq> [] \<Longrightarrow> 1 \<le> m \<Longrightarrow> m \<le> length ds \<Longrightarrow> \<forall>x \<in> set (mth_consistency Sum256 m b ds). length x = 32"
proof (induction ds arbitrary: m b rule: tree_induct)
  case (split ds)
  let ?k = "split_point (length ds)"
  consider "m = length ds" | "m \<noteq> length ds" "m \<le> ?k" | "m \<noteq> length ds" "?k < m" by linarith
  then show ?case
  proof cases
    case 3
    with split.hyps split.prems split.IH(2) [of "m - ?k" False] show ?thesis by (simp add: mth_consistency_simps)
  qed (use split in \<open>simp_all add: mth_consistency_simps\<close>)
qed (simp add: mth_consistency_simps)

lemma VerifyMerkleInclusionProof_complete:
  assumes "Sum256 = crypto.Sum256 C" "VerifyMerkleTreeHead C (mip_TreeHead p) = Inr ()"
    and "th_TreeSize (mip_TreeHead p) = int (length ds)" "length ds \<le> 2 ^ 62"
    and "th_RootHash (mip_TreeHead p) = encodeDigest (mth Sum256 ds)"
    and "mip_LedgerIndex p = int m + 1" "m < length ds" "length (ds ! m) = 32"
    and "mip_LedgerEntryHash p = encodeDigest (ds ! m)"
    and "mip_LeafHash p = encodeDigest (leaf_digest Sum256 (ds ! m))"
    and "mip_AuditPath p = map encodeDigest (mth_path Sum256 m ds)"
  shows "VerifyMerkleInclusionProof C p = Some (Inr ())"
proof -
  have ds: "ds \<noteq> []" using assms(7) by auto
  have size: "th_TreeSize (mip_TreeHead p) \<le> 2 ^ 62" using assms(3,4) by simp
  have "(\<exists>d bs. length d = 32 \<and> mip_LedgerEntryHash p = encodeDigest d \<and>
       mip_LeafHash p = encodeDigest (leaf_digest Sum256 d) \<and>
       mip_AuditPath p = map encodeDigest bs \<and> (\<forall>b \<in> set bs. length b = 32) \<and>
       length bs = audit_depth (nat (th_TreeSize (mip_TreeHead p))) (nat (mip_LedgerIndex p - 1)) \<and>
       th_RootHash (mip_TreeHead p) = encodeDigest (audit_root Sum256 (nat (th_TreeSize (mip_TreeHead p)))
         (nat (mip_LedgerIndex p - 1)) (leaf_digest Sum256 d) bs))"
    using assms(3-) ds
    by (intro exI [of _ "ds ! m"] exI [of _ "mth_path Sum256 m ds"])
      (simp add: length_mth_path audit_root_mth_path length_mth_path_elems)
  moreover have "1 \<le> mip_LedgerIndex p" "mip_LedgerIndex p \<le> th_TreeSize (mip_TreeHead p)"
    using assms(3,6,7) by simp_all
  ultimately show ?thesis using VerifyMerkleInclusionProof_cases [OF assms(1) size] assms(2) by auto
qed

lemma VerifyMerkleConsistencyProof_complete:
  assumes "Sum256 = crypto.Sum256 C" "VerifyMerkleTreeHead C (mcp_TreeHead p) = Inr ()"
    and "th_TreeSize (mcp_TreeHead p) = int (length ds)" "length ds \<le> 2 ^ 62"
    and "th_RootHash (mcp_TreeHead p) = encodeDigest (mth Sum256 ds)"
    and "mcp_OldTreeSize p = int m" "m \<le> length ds"
    and "mcp_OldRootHash p = encodeDigest (mth Sum256 (take m ds))"
    and "mcp_AuditPath p = (if m = 0 then [] else map encodeDigest (mth_consistency Sum256 m True ds))"
  shows "VerifyMerkleConsistencyProof C p = Some (Inr ())"
proof -
  consider "m = 0" | "m = length ds" "m \<noteq> 0" | "1 \<le> m" "m < length ds" using assms(7) by linarith
  then show ?thesis
  proof cases
    case 1
    with assms length_Sum256 [of "[]"] show ?thesis
      by (simp add: VerifyMerkleConsistencyProof_def MerkleEmptyRoot_def mth.simps)
  next
    case 2
    with assms length_mth [of ds] show ?thesis
      by (simp add: VerifyMerkleConsistencyProof_def mth_consistency_simps)
  next
    case 3
    have ds: "ds \<noteq> []" using 3 by auto
    have size: "th_TreeSize (mcp_TreeHead p) \<le> 2 ^ 62" using assms(3,4) by simp
    have sizes: "1 \<le> mcp_OldTreeSize p" "mcp_OldTreeSize p < th_TreeSize (mcp_TreeHead p)" using 3 assms(3,6) by simp_all
    have "mcp_AuditPath p = map encodeDigest (mth_consistency Sum256 m True ds)" using 3 assms(9) by simp
    then have "\<exists>bs. mcp_AuditPath p = map encodeDigest bs \<and> (\<forall>b \<in> set bs. length b = 32) \<and>
       length bs = consistency_depth (nat (mcp_OldTreeSize p)) (nat (th_TreeSize (mcp_TreeHead p))) True \<and>
       mcp_OldRootHash p = encodeDigest (fst (consistency_roots Sum256 (nat (mcp_OldTreeSize p))
         (nat (th_TreeSize (mcp_TreeHead p))) True (mth Sum256 (take m ds)) bs)) \<and>
       th_RootHash (mcp_TreeHead p) = encodeDigest (snd (consistency_roots Sum256 (nat (mcp_OldTreeSize p))
         (nat (th_TreeSize (mcp_TreeHead p))) True (mth Sum256 (take m ds)) bs))"
      using assms(3,5-8) 3 ds
      by (intro exI [of _ "mth_consistency Sum256 m True ds"])
        (simp add: length_mth_consistency consistency_roots_mth length_mth_consistency_elems)
    with VerifyMerkleConsistencyProof_cases [OF assms(1) size assms(2) sizes assms(8)] show ?thesis by auto
  qed
qed

end

subsubsection \<open>A small instance\<close>

text \<open>Concrete library functions for the witnesses: a hash that keeps the first 32 bytes of its
  padded input, and a signature that is the first 64 bytes of the padded message.\<close>

definition pad_hash :: "bytes \<Rightarrow> bytes" where
  "pad_hash m = take 32 (m @ replicate 32 (CHR ''.''))"

definition sample_crypto :: crypto where
  "sample_crypto = \<lparr>Sum256 = pad_hash,
     ParsePKIXPublicKey = (\<lambda>der. if length der = 32 then Some (Ed25519PublicKey der) else None),
     MarshalPKIXPublicKey = (\<lambda>k. Some k),
     Ed25519Verify = (\<lambda>k m s. s = take 64 (m @ replicate 64 (CHR ''.''))),
     Ed25519Sign = (\<lambda>k m. take 64 (m @ replicate 64 (CHR ''.''))),
     Ed25519Public = (\<lambda>k. take 32 (k @ replicate 32 (CHR ''.'')))\<rparr>"

lemma digest32_pad_hash [simp]: "digest32 pad_hash"
  by unfold_locales (simp add: pad_hash_def)

definition sample_sign :: "MerkleTreeHead \<Rightarrow> MerkleTreeHead" where
  "sample_sign head = head\<lparr>th_Signature := EncodeSignature
     (take 64 (MerkleTreeHeadMessage head @ replicate 64 (CHR ''.'')))\<rparr>"

definition sample_head :: "nat \<Rightarrow> bytes \<Rightarrow> MerkleTreeHead" where
  "sample_head n r = sample_sign \<lparr>th_ProtocolVersion = ''1'', th_RegistryScope = ''demo'', th_TreeSize = int n,
     th_RootHash = encodeDigest r, th_GeneratedAt = ''2026-01-01T00:00:00Z'',
     th_RegistryKeyID = RegistryKeyID pad_hash (replicate 32 (CHR ''k'')),
     th_RegistryPublicKey = base64_EncodeToString (replicate 32 (CHR ''k'')), th_Signature = []\<rparr>"

definition sample_leaves :: "bytes list" where
  "sample_leaves = map (replicate 32) ''ab''"


lemma ParsePublicKey_sample [simp]:
  "length k = 32 \<Longrightarrow> ParsePublicKey sample_crypto (base64_EncodeToString k) = Inr (k, k)"
proof -
  have "decodeCanonicalBase64 (base64_EncodeToString k) = Some k" by (simp add: decodeCanonicalBase64_iff)
  then show "length k = 32 \<Longrightarrow> ?thesis" by (simp add: ParsePublicKey_def sample_crypto_def)
qed

lemma MerkleTreeHeadMessage_sample [simp]:
  "MerkleTreeHeadMessage (th_Signature_update f h) = MerkleTreeHeadMessage h"
  by (simp add: MerkleTreeHeadMessage_def)

lemma sample_sign_simps [simp]:
  "MerkleTreeHeadMessage (sample_sign h) = MerkleTreeHeadMessage h"
  "th_Signature (sample_sign h) = EncodeSignature (take 64 (MerkleTreeHeadMessage h @ replicate 64 (CHR ''.'')))"
  "th_ProtocolVersion (sample_sign h) = th_ProtocolVersion h" "th_RegistryScope (sample_sign h) = th_RegistryScope h"
  "th_TreeSize (sample_sign h) = th_TreeSize h" "th_RootHash (sample_sign h) = th_RootHash h"
  "th_RegistryKeyID (sample_sign h) = th_RegistryKeyID h" "th_RegistryPublicKey (sample_sign h) = th_RegistryPublicKey h"
  by (simp_all add: sample_sign_def)

lemma Sum256_sample [simp]: "Sum256 sample_crypto = pad_hash"
  by (simp add: sample_crypto_def)

lemma sample_head_simps [simp]:
  "th_TreeSize (sample_head n r) = int n" "th_RootHash (sample_head n r) = encodeDigest r"
  by (simp_all add: sample_head_def)

lemma Ed25519Verify_sample [simp]:
  "Ed25519Verify sample_crypto k m s \<longleftrightarrow> s = take 64 (m @ replicate 64 (CHR ''.''))"
  by (simp add: sample_crypto_def)

lemma crypto_ok_sample [simp]: "crypto_ok sample_crypto"
  by (auto simp: crypto_ok_def sample_crypto_def min_def)

lemma sample_scope [simp]: "IsRegistryScope ''demo''"
  by code_simp

lemma VerifyMerkleTreeHead_sample [simp]:
  assumes "length r = 32"
  shows "VerifyMerkleTreeHead sample_crypto (sample_head n r) = Inr ()"
  by (rule VerifyMerkleTreeHead_signed [where key = "replicate 32 (CHR ''k'')" and der = "replicate 32 (CHR ''k'')"
        and sig = "take 64 (MerkleTreeHeadMessage (sample_head n r) @ replicate 64 (CHR ''.''))"])
    (use assms in \<open>simp_all add: sample_head_def Version_def\<close>)

subsection \<open>Properties\<close>

lemma leaf_msg_in_mth_msgs: "ds \<noteq> [] \<Longrightarrow> m < length ds \<Longrightarrow> CHR 0x00 # ds ! m \<in> set (mth_msgs H ds)"
proof (induction ds arbitrary: m rule: tree_induct)
  case (one d)
  then show ?case by (simp add: mth_msgs.simps [of H "[d]"])
next
  case (split ds)
  then show ?case using split.IH(2) [of "m - split_point (length ds)"]
    by (cases "m < split_point (length ds)") (simp_all add: mth_msgs_split)
qed

lemma audit_msgs_mth_path:
  "ds \<noteq> [] \<Longrightarrow> m < length ds \<Longrightarrow>
    set (audit_msgs H (length ds) m (leaf_digest H (ds ! m)) (mth_path H m ds)) \<subseteq> set (mth_msgs H ds)"
proof (induction ds arbitrary: m rule: tree_induct)
  case (one d)
  then show ?case by (simp add: audit_msgs.simps [of _ 1, simplified])
next
  case (split ds)
  let ?k = "split_point (length ds)"
  have "take ?k ds \<noteq> []" "drop ?k ds \<noteq> []" using split.hyps split_point_less [of "length ds"] by (auto simp del: split_point_less)
  note parts = this
  show ?case
  proof (cases "m < ?k")
    case True
    have "audit_msgs H (length ds) m (leaf_digest H (ds ! m)) (mth_path H m ds) =
        (CHR 0x01 # mth H (take ?k ds) @ mth H (drop ?k ds)) #
        audit_msgs H (length (take ?k ds)) m (leaf_digest H (take ?k ds ! m)) (mth_path H m (take ?k ds))"
      using True split.hyps parts audit_root_mth_path [of "take ?k ds" m H]
      by (simp add: audit_msgs.simps [of _ "length ds"] mth_path_simps)
    moreover have "m < length (take ?k ds)" using True split.hyps by simp
    note split.IH(1) [OF this]
    ultimately show ?thesis using split.hyps by (auto simp: mth_msgs_split)
  next
    case False
    have "audit_msgs H (length ds) m (leaf_digest H (ds ! m)) (mth_path H m ds) =
        (CHR 0x01 # mth H (take ?k ds) @ mth H (drop ?k ds)) #
        audit_msgs H (length (drop ?k ds)) (m - ?k) (leaf_digest H (drop ?k ds ! (m - ?k))) (mth_path H (m - ?k) (drop ?k ds))"
      using False split.hyps split.prems parts audit_root_mth_path [of "drop ?k ds" "m - ?k" H]
      by (simp add: audit_msgs.simps [of _ "length ds"] mth_path_simps)
    moreover have "m - ?k < length (drop ?k ds)" using False split.prems by simp
    note split.IH(2) [OF this]
    ultimately show ?thesis using split.hyps by (auto simp: mth_msgs_split)
  qed
qed

definition inclusion_msgs :: "(bytes \<Rightarrow> bytes) \<Rightarrow> MerkleInclusionProof \<Rightarrow> bytes list" where
  "inclusion_msgs H p = (CHR 0x00 # digest_bytes (mip_LedgerEntryHash p)) #
     audit_msgs H (nat (th_TreeSize (mip_TreeHead p))) (nat (mip_LedgerIndex p - 1))
       (leaf_digest H (digest_bytes (mip_LedgerEntryHash p))) (map digest_bytes (mip_AuditPath p))"

text \<open>C2. An inclusion proof that \<open>VerifyMerkleInclusionProof\<close> accepts against a head whose root is the
  Merkle tree hash of the ledger \<open>ds\<close> names the entry of \<open>ds\<close> at its ledger index and carries
  exactly the RFC 9162 audit path, unless two of the messages hashed by the tree and by the verifier
  collide.\<close>

theorem VerifyMerkleInclusionProof_sound:
  assumes "digest32 (Sum256 C)"
    and "VerifyMerkleInclusionProof C p = Some (Inr ())"
    and "th_RootHash (mip_TreeHead p) = encodeDigest (mth (Sum256 C) ds)"
    and "th_TreeSize (mip_TreeHead p) = int (length ds)" "length ds \<le> 2 ^ 62"
    and "inj_on (Sum256 C) (set (mth_msgs (Sum256 C) ds @ inclusion_msgs (Sum256 C) p))"
  shows "1 \<le> mip_LedgerIndex p \<and> mip_LedgerIndex p \<le> int (length ds) \<and>
    mip_LedgerEntryHash p = encodeDigest (ds ! nat (mip_LedgerIndex p - 1)) \<and>
    mip_AuditPath p = map encodeDigest (mth_path (Sum256 C) (nat (mip_LedgerIndex p - 1)) ds)"
proof -
  let ?H = "Sum256 C" and ?m = "nat (mip_LedgerIndex p - 1)"
  have size: "th_TreeSize (mip_TreeHead p) \<le> 2 ^ 62" using assms(4,5) by simp
  from digest32.VerifyMerkleInclusionProof_cases [OF assms(1) refl size] assms(2,4) obtain d bs where
    idx: "1 \<le> mip_LedgerIndex p" "mip_LedgerIndex p \<le> int (length ds)"
    and d: "length d = 32" "mip_LedgerEntryHash p = encodeDigest d"
    and bs: "mip_AuditPath p = map encodeDigest bs" "\<forall>b \<in> set bs. length b = 32"
      "length bs = audit_depth (length ds) ?m"
    and root: "encodeDigest (mth ?H ds) = encodeDigest (audit_root ?H (length ds) ?m (leaf_digest ?H d) bs)"
    by (auto simp: assms(3))
  have S: "inj_on ?H (set (mth_msgs ?H ds) \<union> set ((CHR 0x00 # d) # audit_msgs ?H (length ds) ?m (leaf_digest ?H d) bs))"
    using assms(6) d by (simp add: inclusion_msgs_def assms(4) bs(1) map_digest_bytes_encodeDigest [OF bs(2), simplified])
  have m: "?m < length ds" and ds: "ds \<noteq> []" using idx by auto
  have "inj_on ?H (set (mth_msgs ?H ds) \<union> set (audit_msgs ?H (length ds) ?m (leaf_digest ?H d) bs))"
    by (rule inj_on_subset [OF S]) auto
  with root have "leaf_digest ?H d = leaf_digest ?H (ds ! ?m) \<and> bs = mth_path ?H ?m ds"
    by (intro digest32.audit_root_binds [OF assms(1) ds m _ bs(2,3)])
      (simp_all add: digest32.length_leaf_digest [OF assms(1)])
  moreover from this have "?H (CHR 0x00 # d) = ?H (CHR 0x00 # ds ! ?m)" by (simp add: leaf_digest_def)
  from inj_onD [OF S this] leaf_msg_in_mth_msgs [OF ds m] have "d = ds ! ?m" by simp
  ultimately show ?thesis using idx d bs(1) by simp
qed

definition sample_inclusion :: MerkleInclusionProof where
  "sample_inclusion = \<lparr>mip_LedgerIndex = 2, mip_LedgerEntryHash = encodeDigest (sample_leaves ! 1),
     mip_LeafHash = encodeDigest (leaf_digest pad_hash (sample_leaves ! 1)),
     mip_AuditPath = map encodeDigest (mth_path pad_hash 1 sample_leaves),
     mip_TreeHead = sample_head 2 (mth pad_hash sample_leaves)\<rparr>"

lemma sample_inclusion_accepted: "VerifyMerkleInclusionProof sample_crypto sample_inclusion = Some (Inr ())"
  by (rule digest32.VerifyMerkleInclusionProof_complete [of pad_hash _ _ sample_leaves 1])
    (simp_all add: sample_inclusion_def sample_leaves_def digest32.length_mth)

lemma sample_tree_msgs: "inj_on pad_hash (set (mth_msgs pad_hash sample_leaves))"
  by code_simp

lemma sample_inclusion_msgs:
  "inj_on pad_hash (set (mth_msgs pad_hash sample_leaves @ inclusion_msgs pad_hash sample_inclusion))"
proof -
  have l: "\<forall>b \<in> set (mth_path pad_hash 1 sample_leaves). length b = 32"
    by (rule digest32.length_mth_path_elems) (simp_all add: sample_leaves_def)
  have "set (inclusion_msgs pad_hash sample_inclusion) \<subseteq> set (mth_msgs pad_hash sample_leaves)"
    using audit_msgs_mth_path [of sample_leaves 1 pad_hash] leaf_msg_in_mth_msgs [of sample_leaves 1 pad_hash]
    by (simp add: inclusion_msgs_def sample_inclusion_def map_digest_bytes_encodeDigest [OF l, simplified])
      (simp add: sample_leaves_def numeral_2_eq_2)
  then have "set (mth_msgs pad_hash sample_leaves @ inclusion_msgs pad_hash sample_inclusion)
      = set (mth_msgs pad_hash sample_leaves)" by auto
  then show ?thesis using sample_tree_msgs by simp
qed

theorem VerifyMerkleInclusionProof_sound_witness:
  "VerifyMerkleInclusionProof sample_crypto sample_inclusion = Some (Inr ()) \<and>
   mip_LedgerEntryHash sample_inclusion = encodeDigest (sample_leaves ! nat (mip_LedgerIndex sample_inclusion - 1))"
  using VerifyMerkleInclusionProof_sound [of sample_crypto sample_inclusion sample_leaves]
    sample_inclusion_accepted sample_inclusion_msgs
  by (simp add: sample_inclusion_def sample_leaves_def)


definition consistency_proof_msgs :: "(bytes \<Rightarrow> bytes) \<Rightarrow> MerkleConsistencyProof \<Rightarrow> bytes list" where
  "consistency_proof_msgs H p =
     (if 1 \<le> mcp_OldTreeSize p \<and> mcp_OldTreeSize p < th_TreeSize (mcp_TreeHead p)
      then consistency_msgs H (nat (mcp_OldTreeSize p)) (nat (th_TreeSize (mcp_TreeHead p))) True
             (digest_bytes (mcp_OldRootHash p)) (map digest_bytes (mcp_AuditPath p))
      else [])"

text \<open>C3. The append-only guarantee: when \<open>VerifyMerkleConsistencyProof\<close> accepts a proof against a head
  whose root is the Merkle tree hash of the ledger \<open>ds\<close>, the old root is the Merkle tree hash of the first
  \<open>OldTreeSize\<close> entries of \<open>ds\<close>, unless two of the messages hashed by the tree and by the
  verifier collide.\<close>

theorem VerifyMerkleConsistencyProof_sound:
  assumes "digest32 (Sum256 C)"
    and "VerifyMerkleConsistencyProof C p = Some (Inr ())"
    and "th_RootHash (mcp_TreeHead p) = encodeDigest (mth (Sum256 C) ds)"
    and "th_TreeSize (mcp_TreeHead p) = int (length ds)" "length ds \<le> 2 ^ 62"
    and "inj_on (Sum256 C) (set (mth_msgs (Sum256 C) ds @ consistency_proof_msgs (Sum256 C) p))"
  shows "0 \<le> mcp_OldTreeSize p \<and> mcp_OldTreeSize p \<le> int (length ds) \<and>
    mcp_OldRootHash p = encodeDigest (mth (Sum256 C) (take (nat (mcp_OldTreeSize p)) ds))"
proof -
  let ?H = "Sum256 C" and ?m = "nat (mcp_OldTreeSize p)"
  have head: "VerifyMerkleTreeHead C (mcp_TreeHead p) = Inr ()"
    and range: "0 \<le> mcp_OldTreeSize p" "mcp_OldTreeSize p \<le> int (length ds)" "IsDigest (mcp_OldRootHash p)"
    using assms(2) by (auto simp: VerifyMerkleConsistencyProof_def assms(4) split: sum.splits if_splits)
  then obtain known where known: "mcp_OldRootHash p = encodeDigest known" "length known = 32" by (auto elim: IsDigestE)
  consider "mcp_OldTreeSize p = 0" | "mcp_OldTreeSize p = int (length ds)" "mcp_OldTreeSize p \<noteq> 0"
    | "1 \<le> mcp_OldTreeSize p" "mcp_OldTreeSize p < th_TreeSize (mcp_TreeHead p)"
    using range assms(4) by linarith
  then show ?thesis
  proof cases
    case 1
    with assms(2) range head show ?thesis
      by (auto simp: VerifyMerkleConsistencyProof_def MerkleEmptyRoot_def mth.simps split: if_splits)
  next
    case 2
    with assms(2-4) range head show ?thesis
      by (auto simp: VerifyMerkleConsistencyProof_def split: if_splits)
  next
    case 3
    have size: "th_TreeSize (mcp_TreeHead p) \<le> 2 ^ 62" using assms(4,5) by simp
    from digest32.VerifyMerkleConsistencyProof_cases [OF assms(1) refl size head 3 known] assms(2,4)
    obtain bs where bs: "mcp_AuditPath p = map encodeDigest bs" "\<forall>b \<in> set bs. length b = 32"
        "length bs = consistency_depth ?m (length ds) True"
      and roots: "mcp_OldRootHash p = encodeDigest (fst (consistency_roots ?H ?m (length ds) True known bs))"
        "encodeDigest (mth ?H ds) = encodeDigest (snd (consistency_roots ?H ?m (length ds) True known bs))"
      by (auto simp: assms(3))
    have "inj_on ?H (set (mth_msgs ?H ds) \<union> set (consistency_msgs ?H ?m (length ds) True known bs))"
      using assms(6) 3 known
      by (simp add: consistency_proof_msgs_def assms(4) bs(1) map_digest_bytes_encodeDigest [OF bs(2), simplified])
    moreover have "ds \<noteq> []" "1 \<le> ?m" "?m \<le> length ds" using 3 range assms(4) by auto
    ultimately have "fst (consistency_roots ?H ?m (length ds) True known bs) = mth ?H (take ?m ds)"
      using digest32.consistency_roots_bind [OF assms(1) _ _ _ known(2) bs(2,3)] roots(2) by simp
    with roots range show ?thesis by simp
  qed
qed

definition sample_consistency :: MerkleConsistencyProof where
  "sample_consistency = \<lparr>mcp_OldTreeSize = 1, mcp_OldRootHash = encodeDigest (mth pad_hash (take 1 sample_leaves)),
     mcp_AuditPath = map encodeDigest (mth_consistency pad_hash 1 True sample_leaves),
     mcp_TreeHead = sample_head 2 (mth pad_hash sample_leaves)\<rparr>"

lemma sample_consistency_accepted: "VerifyMerkleConsistencyProof sample_crypto sample_consistency = Some (Inr ())"
  by (rule digest32.VerifyMerkleConsistencyProof_complete [of pad_hash _ _ sample_leaves 1])
    (simp_all add: sample_consistency_def sample_leaves_def digest32.length_mth)

lemma sample_consistency_msgs:
  "inj_on pad_hash (set (mth_msgs pad_hash sample_leaves @ consistency_proof_msgs pad_hash sample_consistency))"
proof -
  have l: "\<forall>b \<in> set (mth_consistency pad_hash 1 True sample_leaves). length b = 32"
    by (rule digest32.length_mth_consistency_elems) (simp_all add: sample_leaves_def)
  have "consistency_proof_msgs pad_hash sample_consistency = consistency_msgs pad_hash 1 2 True
      (mth pad_hash (take 1 sample_leaves)) (mth_consistency pad_hash 1 True sample_leaves)"
    using digest32.length_mth [OF digest32_pad_hash, of "take 1 sample_leaves"]
    by (simp add: consistency_proof_msgs_def sample_consistency_def map_digest_bytes_encodeDigest [OF l, simplified])
  moreover have "inj_on pad_hash (set (mth_msgs pad_hash sample_leaves @ consistency_msgs pad_hash 1 2 True
      (mth pad_hash (take 1 sample_leaves)) (mth_consistency pad_hash 1 True sample_leaves)))"
    by code_simp
  ultimately show ?thesis by simp
qed

theorem VerifyMerkleConsistencyProof_sound_witness:
  "VerifyMerkleConsistencyProof sample_crypto sample_consistency = Some (Inr ()) \<and>
   mcp_OldRootHash sample_consistency = encodeDigest (mth pad_hash (take 1 sample_leaves))"
  using VerifyMerkleConsistencyProof_sound [of sample_crypto sample_consistency sample_leaves]
    sample_consistency_accepted sample_consistency_msgs
  by (simp add: sample_consistency_def sample_leaves_def)

text \<open>C37. The verifiers return: on every proof against a tree of at most \<open>2 ^ 62\<close> entries, whatever its
  other fields hold, both verifiers end with acceptance or an error.\<close>

theorem merkle_verifiers_return:
  assumes "digest32 (Sum256 C)" "th_TreeSize (mip_TreeHead p) \<le> 2 ^ 62" "th_TreeSize (mcp_TreeHead q) \<le> 2 ^ 62"
  shows "(\<exists>r. VerifyMerkleInclusionProof C p = Some r) \<and> (\<exists>r. VerifyMerkleConsistencyProof C q = Some r)"
proof
  show "\<exists>r. VerifyMerkleInclusionProof C p = Some r"
    using digest32.VerifyMerkleInclusionProof_cases [OF assms(1) refl assms(2)] by blast
  show "\<exists>r. VerifyMerkleConsistencyProof C q = Some r"
  proof (cases "VerifyMerkleTreeHead C (mcp_TreeHead q) = Inr () \<and> 1 \<le> mcp_OldTreeSize q \<and>
      mcp_OldTreeSize q < th_TreeSize (mcp_TreeHead q) \<and> IsDigest (mcp_OldRootHash q)")
    case True
    then obtain known where "mcp_OldRootHash q = encodeDigest known" "length known = 32" by (auto elim: IsDigestE)
    with True digest32.VerifyMerkleConsistencyProof_cases [OF assms(1) refl assms(3)] show ?thesis by blast
  next
    case False
    then show ?thesis by (auto simp: VerifyMerkleConsistencyProof_def split: sum.splits)
  qed
qed

theorem merkle_verifiers_return_witness:
  "(\<exists>r. VerifyMerkleInclusionProof sample_crypto sample_inclusion = Some r) \<and>
   (\<exists>r. VerifyMerkleConsistencyProof sample_crypto sample_consistency = Some r)"
  by (rule merkle_verifiers_return) (simp_all add: sample_inclusion_def sample_consistency_def)

text \<open>C38. The bound of C3 is the code's: with a correctly signed head of more than \<open>2 ^ 62\<close> entries and otherwise
  well-formed arguments the consistency verifier does not return, because the shift in
  \<open>largestPowerOfTwoLessThan\<close> leaves the \<open>int64\<close> range.\<close>

theorem VerifyMerkleConsistencyProof_diverges:
  assumes "VerifyMerkleTreeHead C (mcp_TreeHead p) = Inr ()" "2 ^ 62 < th_TreeSize (mcp_TreeHead p)"
    and "1 \<le> mcp_OldTreeSize p" "mcp_OldTreeSize p < th_TreeSize (mcp_TreeHead p)" "IsDigest (mcp_OldRootHash p)"
  shows "VerifyMerkleConsistencyProof C p = None"
proof -
  have "largestPowerOfTwoLessThan (th_TreeSize (mcp_TreeHead p)) = None"
    unfolding largestPowerOfTwoLessThan_def using assms(2)
    by (intro largestPower_loop_diverges) (auto intro: exI [of _ 0])
  then have "rebuildConsistencyRoots H (mcp_OldTreeSize p) (th_TreeSize (mcp_TreeHead p)) b r path i = None" for H b r path i
    using assms(4) by (subst rebuildConsistencyRoots.simps) simp
  with assms show ?thesis by (simp add: VerifyMerkleConsistencyProof_def)
qed

theorem VerifyMerkleConsistencyProof_diverges_witness:
  "VerifyMerkleConsistencyProof sample_crypto
     (sample_consistency\<lparr>mcp_TreeHead := sample_head (2 ^ 62 + 1) (mth pad_hash sample_leaves)\<rparr>) = None"
  by (rule VerifyMerkleConsistencyProof_diverges) (simp_all add: sample_consistency_def digest32.length_mth)

end
