(* ===== verification/Go_Time.thy ===== *)
theory Go_Time
  imports Registry_Prelude
begin

text \<open>
  The part of Go's \<open>time\<close> package the registry uses: \<open>time.Parse\<close> for the layouts \<open>time.RFC3339Nano\<close> and
  \<open>2006-01-02\<close>, and instants as nanoseconds since 1970-01-01T00:00:00Z.

  The parser follows the library's layout-driven one, with its leniencies: a one-digit hour, a comma as the
  decimal separator, any number of fraction digits of which nine count, and zone offsets up to
  24:60.
\<close>

subsection \<open>Digits\<close>

definition is_digit :: "char \<Rightarrow> bool" where
  "is_digit c \<longleftrightarrow> 48 \<le> (of_char c :: nat) \<and> (of_char c :: nat) \<le> 57"

definition digit_val :: "char \<Rightarrow> int" where
  "digit_val c = int (of_char c) - 48"

definition digits_val :: "string \<Rightarrow> int" where
  "digits_val = foldl (\<lambda>v c. 10 * v + digit_val c) 0"

text \<open>\<open>getnum\<close>: two digits, or one when \<open>fixed\<close> is false.\<close>

fun getnum :: "string \<Rightarrow> bool \<Rightarrow> (int \<times> string) option" where
  "getnum (a # b # s) fixed =
     (if \<not> is_digit a then None
      else if is_digit b then Some (10 * digit_val a + digit_val b, s)
      else if fixed then None else Some (digit_val a, b # s))"
| "getnum [a] fixed = (if is_digit a \<and> \<not> fixed then Some (digit_val a, []) else None)"
| "getnum [] fixed = None"

fun skip_char :: "char \<Rightarrow> string \<Rightarrow> string option" where
  "skip_char c (a # s) = (if a = c then Some s else None)"
| "skip_char c [] = None"

subsection \<open>The calendar\<close>

definition is_leap :: "int \<Rightarrow> bool" where
  "is_leap y \<longleftrightarrow> y mod 4 = 0 \<and> (y mod 100 \<noteq> 0 \<or> y mod 400 = 0)"

definition daysIn :: "int \<Rightarrow> int \<Rightarrow> int" where
  "daysIn month year =
     (if month = 2 then (if is_leap year then 29 else 28)
      else if month \<in> {4, 6, 9, 11} then 30 else 31)"

definition daysBefore :: "int \<Rightarrow> int \<Rightarrow> int" where
  "daysBefore month year = sum_list (map (\<lambda>m. daysIn m year) [1..month - 1])"

definition unix_day :: "int \<Rightarrow> int \<Rightarrow> int \<Rightarrow> int" where
  "unix_day year month day =
     (let y = year - 1 in 365 * y + y div 4 - y div 100 + y div 400 + daysBefore month year + (day - 1) - 719162)"

definition unix_nanos :: "int \<Rightarrow> int \<Rightarrow> int \<Rightarrow> int \<Rightarrow> int" where
  "unix_nanos days hour minute second = (((days * 24 + hour) * 60 + minute) * 60 + second) * 1000000000"

definition day_nanos :: int where
  "day_nanos = 86400000000000"

subsection \<open>Parsing\<close>

text \<open>The common prefix \<open>2006-01-02\<close> of both layouts.\<close>

definition parse_date :: "string \<Rightarrow> ((int \<times> int \<times> int) \<times> string) option" where
  "parse_date s =
     (if length s < 4 \<or> \<not> list_all is_digit (take 4 s) then None
      else Option.bind (skip_char (CHR ''-'') (drop 4 s)) (\<lambda>s1.
        Option.bind (getnum s1 True) (\<lambda>(month, s2).
        if month \<le> 0 \<or> 12 < month then None
        else Option.bind (skip_char (CHR ''-'') s2) (\<lambda>s3.
        Option.bind (getnum s3 True) (\<lambda>(day, s4).
        Some ((digits_val (take 4 s), month, day), s4))))))"

definition valid_day :: "int \<times> int \<times> int \<Rightarrow> bool" where
  "valid_day = (\<lambda>(year, month, day). 1 \<le> day \<and> day \<le> daysIn month year)"

definition time_Parse_date :: "string \<Rightarrow> int option" where
  "time_Parse_date s =
     (case parse_date s of
        Some ((year, month, day), []) \<Rightarrow>
          if valid_day (year, month, day) then Some (unix_nanos (unix_day year month day) 0 0 0) else None
      | _ \<Rightarrow> None)"

definition commaOrPeriod :: "char \<Rightarrow> bool" where
  "commaOrPeriod c \<longleftrightarrow> c = CHR ''.'' \<or> c = CHR '',''"

text \<open>The optional fraction: at most nine of its digits count.\<close>

definition parse_fraction :: "string \<Rightarrow> int \<times> string" where
  "parse_fraction s =
     (case s of
        c # d # r \<Rightarrow>
          if commaOrPeriod c \<and> is_digit d then
            (let ds = takeWhile is_digit (d # r); used = take 9 ds
             in (digits_val used * 10 ^ (9 - length used), dropWhile is_digit (d # r)))
          else (0, s)
      | _ \<Rightarrow> (0, s))"

text \<open>The zone \<open>Z07:00\<close>: its offset in seconds.\<close>

definition parse_zone :: "string \<Rightarrow> (int \<times> string) option" where
  "parse_zone s =
     (case s of
        [] \<Rightarrow> None
      | c # r \<Rightarrow>
          if c = CHR ''Z'' then Some (0, r)
          else if length s < 6 \<or> s ! 3 \<noteq> CHR '':'' then None
          else Option.bind (getnum (take 2 (drop 1 s)) True) (\<lambda>(hr, _).
            Option.bind (getnum (take 2 (drop 4 s)) True) (\<lambda>(mm, _).
            if hr > 24 \<or> mm > 60 then None
            else if c = CHR ''+'' then Some ((hr * 60 + mm) * 60, drop 6 s)
            else if c = CHR ''-'' then Some (- ((hr * 60 + mm) * 60), drop 6 s)
            else None)))"

definition time_Parse_RFC3339Nano :: "string \<Rightarrow> int option" where
  "time_Parse_RFC3339Nano s =
     Option.bind (parse_date s) (\<lambda>(date, s1).
     Option.bind (skip_char (CHR ''T'') s1) (\<lambda>s2.
     Option.bind (getnum s2 False) (\<lambda>(hour, s3).
     if hour < 0 \<or> 24 \<le> hour then None
     else Option.bind (skip_char (CHR '':'') s3) (\<lambda>s4.
     Option.bind (getnum s4 True) (\<lambda>(minute, s5).
     if minute < 0 \<or> 60 \<le> minute then None
     else Option.bind (skip_char (CHR '':'') s5) (\<lambda>s6.
     Option.bind (getnum s6 True) (\<lambda>(second, s7).
     if second < 0 \<or> 60 \<le> second then None
     else (case parse_fraction s7 of (nsec, s8) \<Rightarrow>
       Option.bind (parse_zone s8) (\<lambda>(offset, s9).
       if s9 \<noteq> [] \<or> \<not> valid_day date then None
       else (case date of (year, month, day) \<Rightarrow>
         Some (unix_nanos (unix_day year month day) hour minute second + nsec - offset * 1000000000)))))))))))"

text \<open>\<open>t.Before(u)\<close> is \<open>t < u\<close> on instants; \<open>AddDate(0, 0, n)\<close> on a UTC instant moves it by whole
  days.\<close>

definition AddDays :: "int \<Rightarrow> int \<Rightarrow> int" where
  "AddDays t n = t + n * day_nanos"

lemma parse_examples:
  "time_Parse_RFC3339Nano ''1970-01-01T00:00:00Z'' = Some 0"
  "time_Parse_RFC3339Nano ''2024-02-29T1:02:03,5+01:00'' = Some 1709164923500000000"
  "time_Parse_RFC3339Nano ''2023-02-29T01:02:03Z'' = None"
  "time_Parse_date ''2026-01-02'' = Some 1767312000000000000"
  by code_simp+

end
