(* ===== verification/Protocol_Money.thy ===== *)
theory Protocol_Money
  imports Protocol_Core
begin

text \<open>
  \<open>registry/protocol/revenue.go\<close> and \<open>registry/protocol/settlement.go\<close>:
      the wire records of revenue
  batches and settlements, the canonical messages that are hashed and signed, the commission formula and
  the pinned currency table.
\<close>

subsection \<open>Constants\<close>

definition RevenueBatchPath :: string where "RevenueBatchPath = ''/v1/revenue/batches''"
definition RevenueKind :: string where "RevenueKind = ''daily-revenue''"
definition RevenueRulesetVersion :: string where "RevenueRulesetVersion = ''net-captured-revenue-v1''"
definition RevenueCommissionBasisPoints :: int where "RevenueCommissionBasisPoints = 500"
definition RevenueEntryType :: string where "RevenueEntryType = ''REVENUE_BATCH_ACCEPTED''"
definition MaximumRevenueCurrencyRows :: int where "MaximumRevenueCurrencyRows = 32"
definition MaximumRevenueMinor :: int where "MaximumRevenueMinor = 9000000000000000"
definition MaximumRevenuePaymentCount :: int where "MaximumRevenuePaymentCount = 1000000000000"
definition SettlementQueryPath :: string where "SettlementQueryPath = ''/v1/settlements/query''"
definition SettlementKind :: string where "SettlementKind = ''monthly-settlement''"
definition SettlementRulesetVersion :: string where
  "SettlementRulesetVersion = ''share-weighted-settlement-v1''"
definition SettlementValuationRulesetVersion :: string where
  "SettlementValuationRulesetVersion = ''three-month-acceleration-valuation-v1''"
definition SettlementEntryType :: string where "SettlementEntryType = ''SETTLEMENT_CALCULATED''"
definition SettlementDefaultValuationMultiplierBasisPoints :: int where
  "SettlementDefaultValuationMultiplierBasisPoints = 30000"
definition SettlementMinimumBaseValuationMultiplierBasisPoints :: int where
  "SettlementMinimumBaseValuationMultiplierBasisPoints = 1000"
definition SettlementMaximumBaseValuationMultiplierBasisPoints :: int where
  "SettlementMaximumBaseValuationMultiplierBasisPoints = 100000"
definition SettlementMinimumGrowthBasisPoints :: int where "SettlementMinimumGrowthBasisPoints = - 10000"
definition SettlementMaximumGrowthBasisPoints :: int where "SettlementMaximumGrowthBasisPoints = 20000"
definition SettlementMinimumAccelerationBasisPoints :: int where
  "SettlementMinimumAccelerationBasisPoints = - 10000"
definition SettlementMaximumAccelerationBasisPoints :: int where
  "SettlementMaximumAccelerationBasisPoints = 10000"
definition SettlementAccelerationAdjustmentDivisor :: int where "SettlementAccelerationAdjustmentDivisor = 4"
definition SettlementMinimumValuationAdjustmentBasisPoints :: int where
  "SettlementMinimumValuationAdjustmentBasisPoints = - 2500"
definition SettlementMaximumValuationAdjustmentBasisPoints :: int where
  "SettlementMaximumValuationAdjustmentBasisPoints = 2500"
definition SettlementMaximumQueryLimit :: int where "SettlementMaximumQueryLimit = 100"
definition SettlementMaximumSafeMinor :: int where "SettlementMaximumSafeMinor = 9007199254740991"
definition SettlementBeneficiaryFounder :: string where "SettlementBeneficiaryFounder = ''FOUNDER''"
definition SettlementBeneficiaryOperator :: string where "SettlementBeneficiaryOperator = ''OPERATOR_GROUP''"
definition SettlementBeneficiaryReserve :: string where
  "SettlementBeneficiaryReserve = ''UNALLOCATED_RESERVE''"
definition SettlementFounderBeneficiaryID :: string where "SettlementFounderBeneficiaryID = ''founder''"
definition SettlementReserveBeneficiaryID :: string where
  "SettlementReserveBeneficiaryID = ''unallocated-reserve''"

lemmas money_constants =
  RevenueBatchPath_def RevenueKind_def RevenueRulesetVersion_def
  RevenueCommissionBasisPoints_def RevenueEntryType_def MaximumRevenueCurrencyRows_def
  MaximumRevenueMinor_def MaximumRevenuePaymentCount_def SettlementQueryPath_def
  SettlementKind_def SettlementRulesetVersion_def SettlementValuationRulesetVersion_def
  SettlementEntryType_def SettlementDefaultValuationMultiplierBasisPoints_def
      SettlementMinimumBaseValuationMultiplierBasisPoints_def
  SettlementMaximumBaseValuationMultiplierBasisPoints_def SettlementMinimumGrowthBasisPoints_def
      SettlementMaximumGrowthBasisPoints_def
  SettlementMinimumAccelerationBasisPoints_def SettlementMaximumAccelerationBasisPoints_def
      SettlementAccelerationAdjustmentDivisor_def
  SettlementMinimumValuationAdjustmentBasisPoints_def
      SettlementMaximumValuationAdjustmentBasisPoints_def SettlementMaximumQueryLimit_def
  SettlementMaximumSafeMinor_def SettlementBeneficiaryFounder_def SettlementBeneficiaryOperator_def
  SettlementBeneficiaryReserve_def SettlementFounderBeneficiaryID_def SettlementReserveBeneficiaryID_def

subsection \<open>Wire records\<close>

record RevenueCurrency =
  rc_CurrencyCode :: string
  rc_FractionDigits :: int
  rc_CapturedMinor :: int
  rc_RefundedMinor :: int
  rc_NetMinor :: int
  rc_CommissionBasisMinor :: int
  rc_EstimatedCommissionMinor :: int
  rc_PaymentCount :: int

record RevenueBatchRequest =
  rbr_ProtocolVersion :: string
  rbr_RegistryScope :: string
  rbr_DeploymentID :: string
  rbr_Timestamp :: string
  rbr_Nonce :: string
  rbr_IdempotencyKey :: string
  rbr_Kind :: string
  rbr_Period :: string
  rbr_Revision :: int
  rbr_SupersedesBatchID :: string
  rbr_RulesetVersion :: string
  rbr_CommissionRateBasisPoints :: int
  rbr_Currencies :: "RevenueCurrency list"
  rbr_PayloadHash :: string
  rbr_Signature :: string

record RevenueReceipt =
  rrc_LedgerIndex :: int
  rrc_EntryHash :: string
  rrc_PreviousEntryHash :: string
  rrc_BatchHash :: string
  rrc_Kind :: string
  rrc_Period :: string
  rrc_Revision :: int
  rrc_SupersedesBatchID :: string
  rrc_RulesetVersion :: string
  rrc_CommissionRateBasisPoints :: int
  rrc_CurrencyCount :: int
  rrc_AcceptedAt :: string
  rrc_CheckpointDate :: string
  rrc_RegistryScope :: string
  rrc_RegistryKeyID :: string
  rrc_RegistryPublicKey :: string
  rrc_Signature :: string

record RevenueBatchResponse =
  rbresp_ProtocolVersion :: string
  rbresp_RegistryScope :: string
  rbresp_BatchID :: string
  rbresp_DeploymentID :: string
  rbresp_IdempotencyKey :: string
  rbresp_Duplicate :: bool
  rbresp_Receipt :: RevenueReceipt

record RevenueSummary =
  rsum_Period :: string
  rsum_CurrencyCode :: string
  rsum_FractionDigits :: int
  rsum_DeploymentID :: string
  rsum_GroupID :: string
  rsum_DeploymentCount :: int
  rsum_ActiveBatchCount :: int
  rsum_CurrencyBatchCount :: int
  rsum_CapturedMinor :: int
  rsum_RefundedMinor :: int
  rsum_NetMinor :: int
  rsum_CommissionBasisMinor :: int
  rsum_NetworkCommissionPoolMinor :: int
  rsum_ReportedEstimatedCommissionMinor :: int
  rsum_PaymentCount :: int
  rsum_RulesetVersion :: string
  rsum_CommissionRateBasisPoints :: int

record SettlementAllocation =
  sa_BeneficiaryType :: string
  sa_BeneficiaryID :: string
  sa_Label :: string
  sa_ShareNumerator :: string
  sa_ShareDenominator :: string
  sa_NetworkPoolAllocationMinor :: int
  sa_IndicativeValueAllocationMinor :: int

record SettlementReceipt =
  sr_SettlementID :: string
  sr_Period :: string
  sr_CurrencyCode :: string
  sr_FractionDigits :: int
  sr_Revision :: int
  sr_SupersedesSettlementID :: string
  sr_RulesetVersion :: string
  sr_ValuationRulesetVersion :: string
  sr_CommissionRateBasisPoints :: int
  sr_BaseValuationMultiplierBasisPoints :: int
  sr_RecentThreeMonthAverageMinor :: int
  sr_PriorThreeMonthAverageMinor :: int
  sr_EarlierThreeMonthAverageMinor :: int
  sr_RecentGrowthBasisPoints :: int
  sr_PriorGrowthBasisPoints :: int
  sr_AccelerationBasisPoints :: int
  sr_ValuationAdjustmentBasisPoints :: int
  sr_EffectiveValuationMultiplierBasisPoints :: int
  sr_CommissionBasisMinor :: int
  sr_NetworkCommissionPoolMinor :: int
  sr_TTMCommissionBasisMinor :: int
  sr_TTMNetworkCommissionPoolMinor :: int
  sr_IndicativeNetworkValueMinor :: int
  sr_ValuationIsNonBinding :: bool
  sr_ThroughLedgerIndex :: int
  sr_ThroughAuditIndex :: int
  sr_ThroughReviewIndex :: int
  sr_ThroughEligibilityIndex :: int
  sr_LedgerHeadHash :: string
  sr_AuditHeadHash :: string
  sr_ReviewHeadHash :: string
  sr_EligibilityHeadHash :: string
  sr_SourceFingerprint :: string
  sr_AllocationHash :: string
  sr_SettlementHash :: string
  sr_LedgerIndex :: int
  sr_EntryHash :: string
  sr_PreviousEntryHash :: string
  sr_AcceptedAt :: string
  sr_RegistryScope :: string
  sr_RegistryKeyID :: string
  sr_RegistryPublicKey :: string
  sr_Allocations :: "SettlementAllocation list"
  sr_Signature :: string

record SettlementCalculationResult =
  scr_Duplicate :: bool
  scr_Receipt :: SettlementReceipt

record SettlementQueryRequest =
  sq_ProtocolVersion :: string
  sq_RegistryScope :: string
  sq_DeploymentID :: string
  sq_Timestamp :: string
  sq_Nonce :: string
  sq_QueryID :: string
  sq_CurrencyCode :: string
  sq_FromPeriod :: string
  sq_ThroughPeriod :: string
  sq_IncludeSuperseded :: bool
  sq_Limit :: int
  sq_AfterPeriod :: string
  sq_AfterSettlementID :: string
  sq_PayloadHash :: string
  sq_Signature :: string

record SettlementHistoryItem =
  shi_SettlementID :: string
  shi_Period :: string
  shi_CurrencyCode :: string
  shi_FractionDigits :: int
  shi_Revision :: int
  shi_SupersedesSettlementID :: string
  shi_BeneficiaryType :: string
  shi_BeneficiaryID :: string
  shi_ShareNumerator :: string
  shi_ShareDenominator :: string
  shi_NetworkPoolMinor :: int
  shi_NetworkPoolAllocationMinor :: int
  shi_TTMCommissionBasisMinor :: int
  shi_TTMNetworkCommissionPoolMinor :: int
  shi_IndicativeNetworkValueMinor :: int
  shi_IndicativeValueAllocationMinor :: int
  shi_ValuationRulesetVersion :: string
  shi_BaseValuationMultiplierBasisPoints :: int
  shi_RecentThreeMonthAverageMinor :: int
  shi_PriorThreeMonthAverageMinor :: int
  shi_EarlierThreeMonthAverageMinor :: int
  shi_RecentGrowthBasisPoints :: int
  shi_PriorGrowthBasisPoints :: int
  shi_AccelerationBasisPoints :: int
  shi_ValuationAdjustmentBasisPoints :: int
  shi_EffectiveValuationMultiplierBasisPoints :: int
  shi_ValuationIsNonBinding :: bool
  shi_ThroughLedgerIndex :: int
  shi_ThroughAuditIndex :: int
  shi_ThroughReviewIndex :: int
  shi_ThroughEligibilityIndex :: int
  shi_SourceFingerprint :: string
  shi_SettlementHash :: string
  shi_AcceptedAt :: string

record SettlementQueryResponse =
  sqr_ProtocolVersion :: string
  sqr_RegistryScope :: string
  sqr_DeploymentID :: string
  sqr_QueryID :: string
  sqr_QueryHash :: string
  sqr_ItemsHash :: string
  sqr_Items :: "SettlementHistoryItem list"
  sqr_NextAfterPeriod :: string
  sqr_NextAfterSettlementID :: string
  sqr_GeneratedAt :: string
  sqr_RegistryKeyID :: string
  sqr_RegistryPublicKey :: string
  sqr_Signature :: string

subsection \<open>Messages\<close>

definition RevenuePayload :: "string \<Rightarrow> string \<Rightarrow> int \<Rightarrow> string
    \<Rightarrow> string \<Rightarrow> int \<Rightarrow> RevenueCurrency list \<Rightarrow> bytes" where
  "RevenuePayload kind period revision supersedesBatchID rulesetVersion commissionRateBasisPoints
      currencies = canonical (
    [''myscoutee-registry-revenue-batch-payload-v1'', kind, period, FormatInt revision,
     supersedesBatchID, rulesetVersion, FormatInt commissionRateBasisPoints,
     FormatInt (int (length currencies))] @
    concat (map (\<lambda>currency. [rc_CurrencyCode currency, FormatInt (rc_FractionDigits currency),
       FormatInt (rc_CapturedMinor currency), FormatInt (rc_RefundedMinor currency),
       FormatInt (rc_NetMinor currency), FormatInt (rc_CommissionBasisMinor currency),
       FormatInt (rc_EstimatedCommissionMinor currency), FormatInt (rc_PaymentCount currency)]) currencies))"

definition RevenueReceiptMessage :: "string \<Rightarrow> string \<Rightarrow> string \<Rightarrow>
    string \<Rightarrow> int \<Rightarrow> string \<Rightarrow> string \<Rightarrow> string
    \<Rightarrow> string \<Rightarrow> string \<Rightarrow> int \<Rightarrow> string \<Rightarrow>
    string \<Rightarrow> int \<Rightarrow> int \<Rightarrow> string \<Rightarrow> string \<Rightarrow>
    string \<Rightarrow> bytes" where
  "RevenueReceiptMessage protocolVersion registryScope batchID deploymentID ledgerIndex entryHash
      previousEntryHash batchHash kind period revision supersedesBatchID rulesetVersion
      commissionRateBasisPoints currencyCount acceptedAt checkpointDate registryKeyID = canonical
    [''myscoutee-registry-revenue-receipt-v1'', protocolVersion, registryScope, batchID,
     deploymentID, FormatInt ledgerIndex, entryHash, previousEntryHash, batchHash, kind, period,
     FormatInt revision, supersedesBatchID, rulesetVersion, FormatInt commissionRateBasisPoints,
     FormatInt currencyCount, acceptedAt, checkpointDate, registryKeyID]"

definition SettlementAllocationHash :: "(bytes \<Rightarrow> bytes) \<Rightarrow>
    SettlementAllocation list \<Rightarrow> string" where
  "SettlementAllocationHash H allocations = Digest H (canonical (
    [''myscoutee-registry-settlement-allocations-v1'', FormatInt (int (length allocations))] @
    concat (map (\<lambda>allocation. [sa_BeneficiaryType allocation, sa_BeneficiaryID allocation,
        sa_Label allocation,
       sa_ShareNumerator allocation, sa_ShareDenominator allocation,
       FormatInt (sa_NetworkPoolAllocationMinor allocation),
       FormatInt (sa_IndicativeValueAllocationMinor allocation)]) allocations)))"

definition SettlementHashMessage :: "SettlementReceipt \<Rightarrow> bytes" where
  "SettlementHashMessage receipt = canonical
    [''myscoutee-registry-settlement-hash-v1'', sr_SettlementID receipt, sr_Period receipt,
     sr_CurrencyCode receipt, FormatInt (sr_FractionDigits receipt),
     FormatInt (sr_Revision receipt), sr_SupersedesSettlementID receipt,
     sr_RulesetVersion receipt, sr_ValuationRulesetVersion receipt,
     FormatInt (sr_CommissionRateBasisPoints receipt),
     FormatInt (sr_BaseValuationMultiplierBasisPoints receipt),
     FormatInt (sr_RecentThreeMonthAverageMinor receipt),
     FormatInt (sr_PriorThreeMonthAverageMinor receipt),
     FormatInt (sr_EarlierThreeMonthAverageMinor receipt),
     FormatInt (sr_RecentGrowthBasisPoints receipt),
     FormatInt (sr_PriorGrowthBasisPoints receipt),
     FormatInt (sr_AccelerationBasisPoints receipt),
     FormatInt (sr_ValuationAdjustmentBasisPoints receipt),
     FormatInt (sr_EffectiveValuationMultiplierBasisPoints receipt),
     FormatInt (sr_CommissionBasisMinor receipt),
     FormatInt (sr_NetworkCommissionPoolMinor receipt),
     FormatInt (sr_TTMCommissionBasisMinor receipt),
     FormatInt (sr_TTMNetworkCommissionPoolMinor receipt),
     FormatInt (sr_IndicativeNetworkValueMinor receipt),
     FormatBool (sr_ValuationIsNonBinding receipt), FormatInt (sr_ThroughLedgerIndex receipt),
     FormatInt (sr_ThroughAuditIndex receipt), FormatInt (sr_ThroughReviewIndex receipt),
     FormatInt (sr_ThroughEligibilityIndex receipt), sr_LedgerHeadHash receipt,
     sr_AuditHeadHash receipt, sr_ReviewHeadHash receipt, sr_EligibilityHeadHash receipt,
     sr_SourceFingerprint receipt, sr_AllocationHash receipt, sr_AcceptedAt receipt,
     sr_RegistryScope receipt, sr_RegistryKeyID receipt]"

definition SettlementReceiptMessage :: "SettlementReceipt \<Rightarrow> bytes" where
  "SettlementReceiptMessage receipt = canonical
    [''myscoutee-registry-settlement-receipt-v1'', sr_SettlementHash receipt,
     FormatInt (sr_LedgerIndex receipt), sr_EntryHash receipt, sr_PreviousEntryHash receipt,
     sr_RegistryScope receipt, sr_RegistryKeyID receipt]"

definition SettlementQueryPayload :: "SettlementQueryRequest \<Rightarrow> bytes" where
  "SettlementQueryPayload request = canonical
    [''myscoutee-registry-settlement-query-payload-v1'', sq_CurrencyCode request,
     sq_FromPeriod request, sq_ThroughPeriod request, FormatBool (sq_IncludeSuperseded request),
     FormatInt (sq_Limit request), sq_AfterPeriod request, sq_AfterSettlementID request]"

definition SettlementHistoryItemsHash :: "(bytes \<Rightarrow> bytes) \<Rightarrow>
    SettlementHistoryItem list \<Rightarrow> string" where
  "SettlementHistoryItemsHash H items = Digest H (canonical (
    [''myscoutee-registry-settlement-history-items-v1'', FormatInt (int (length items))] @
    concat (map (\<lambda>item. [shi_SettlementID item, shi_Period item, shi_CurrencyCode item,
       FormatInt (shi_FractionDigits item), FormatInt (shi_Revision item),
       shi_SupersedesSettlementID item, shi_BeneficiaryType item, shi_BeneficiaryID item,
       shi_ShareNumerator item, shi_ShareDenominator item, FormatInt (shi_NetworkPoolMinor item),
       FormatInt (shi_NetworkPoolAllocationMinor item),
       FormatInt (shi_TTMCommissionBasisMinor item),
       FormatInt (shi_TTMNetworkCommissionPoolMinor item),
       FormatInt (shi_IndicativeNetworkValueMinor item),
       FormatInt (shi_IndicativeValueAllocationMinor item), shi_ValuationRulesetVersion item,
       FormatInt (shi_BaseValuationMultiplierBasisPoints item),
       FormatInt (shi_RecentThreeMonthAverageMinor item),
       FormatInt (shi_PriorThreeMonthAverageMinor item),
       FormatInt (shi_EarlierThreeMonthAverageMinor item),
       FormatInt (shi_RecentGrowthBasisPoints item), FormatInt (shi_PriorGrowthBasisPoints item),
       FormatInt (shi_AccelerationBasisPoints item),
       FormatInt (shi_ValuationAdjustmentBasisPoints item),
       FormatInt (shi_EffectiveValuationMultiplierBasisPoints item),
       FormatBool (shi_ValuationIsNonBinding item), FormatInt (shi_ThroughLedgerIndex item),
       FormatInt (shi_ThroughAuditIndex item), FormatInt (shi_ThroughReviewIndex item),
       FormatInt (shi_ThroughEligibilityIndex item), shi_SourceFingerprint item,
       shi_SettlementHash item, shi_AcceptedAt item]) items)))"

definition SettlementQueryResponseMessage :: "SettlementQueryResponse \<Rightarrow> bytes" where
  "SettlementQueryResponseMessage response = canonical
    [''myscoutee-registry-settlement-query-response-v1'', sqr_ProtocolVersion response,
     sqr_RegistryScope response, sqr_DeploymentID response, sqr_QueryID response,
     sqr_QueryHash response, sqr_ItemsHash response, sqr_NextAfterPeriod response,
     sqr_NextAfterSettlementID response, sqr_GeneratedAt response, sqr_RegistryKeyID response]"

subsection \<open>Commission and currencies\<close>

definition SettlementMinorAmountIsSafe :: "int \<Rightarrow> bool" where
  "SettlementMinorAmountIsSafe value \<longleftrightarrow> value \<ge> 0 \<and> value \<le>
      SettlementMaximumSafeMinor"

definition RevenueCommissionMinor :: "int \<Rightarrow> int" where
  "RevenueCommissionMinor commissionBasisMinor =
     i64 (i64 ((commissionBasisMinor sdiv 10000) * RevenueCommissionBasisPoints) +
          i64 ((commissionBasisMinor smod 10000) * RevenueCommissionBasisPoints) sdiv 10000)"

definition iso4217FractionDigits :: "(string \<times> int) list" where
  "iso4217FractionDigits =
    [(''AED'', 2), (''AFN'', 2), (''ALL'', 2), (''AMD'', 2), (''ANG'', 2), (''AOA'', 2), (''ARS'', 2),
     (''AUD'', 2), (''AWG'', 2), (''AZN'', 2), (''BAM'', 2), (''BBD'', 2), (''BDT'', 2), (''BGN'', 2),
     (''BHD'', 3), (''BIF'', 0), (''BMD'', 2), (''BND'', 2), (''BOB'', 2), (''BOV'', 2), (''BRL'', 2),
     (''BSD'', 2), (''BTN'', 2), (''BWP'', 2), (''BYN'', 2), (''BZD'', 2), (''CAD'', 2), (''CDF'', 2),
     (''CHE'', 2), (''CHF'', 2), (''CHW'', 2), (''CLF'', 4), (''CLP'', 0), (''CNY'', 2), (''COP'', 2),
     (''COU'', 2), (''CRC'', 2), (''CUP'', 2), (''CVE'', 2), (''CZK'', 2), (''DJF'', 0), (''DKK'', 2),
     (''DOP'', 2), (''DZD'', 2), (''EGP'', 2), (''ERN'', 2), (''ETB'', 2), (''EUR'', 2), (''FJD'', 2),
     (''FKP'', 2), (''GBP'', 2), (''GEL'', 2), (''GHS'', 2), (''GIP'', 2), (''GMD'', 2), (''GNF'', 0),
     (''GTQ'', 2), (''GYD'', 2), (''HKD'', 2), (''HNL'', 2), (''HTG'', 2), (''HUF'', 2), (''IDR'', 2),
     (''ILS'', 2), (''INR'', 2), (''IQD'', 3), (''IRR'', 2), (''ISK'', 0), (''JMD'', 2), (''JOD'', 3),
     (''JPY'', 0), (''KES'', 2), (''KGS'', 2), (''KHR'', 2), (''KMF'', 0), (''KPW'', 2), (''KRW'', 0),
     (''KWD'', 3), (''KYD'', 2), (''KZT'', 2), (''LAK'', 2), (''LBP'', 2), (''LKR'', 2), (''LRD'', 2),
     (''LSL'', 2), (''LYD'', 3), (''MAD'', 2), (''MDL'', 2), (''MGA'', 2), (''MKD'', 2), (''MMK'', 2),
     (''MNT'', 2), (''MOP'', 2), (''MRU'', 2), (''MUR'', 2), (''MVR'', 2), (''MWK'', 2), (''MXN'', 2),
     (''MXV'', 2), (''MYR'', 2), (''MZN'', 2), (''NAD'', 2), (''NGN'', 2), (''NIO'', 2), (''NOK'', 2),
     (''NPR'', 2), (''NZD'', 2), (''OMR'', 3), (''PAB'', 2), (''PEN'', 2), (''PGK'', 2), (''PHP'', 2),
     (''PKR'', 2), (''PLN'', 2), (''PYG'', 0), (''QAR'', 2), (''RON'', 2), (''RSD'', 2), (''RUB'', 2),
     (''RWF'', 0), (''SAR'', 2), (''SBD'', 2), (''SCR'', 2), (''SDG'', 2), (''SEK'', 2), (''SGD'', 2),
     (''SHP'', 2), (''SLE'', 2), (''SOS'', 2), (''SRD'', 2), (''SSP'', 2), (''STN'', 2), (''SVC'', 2),
     (''SYP'', 2), (''SZL'', 2), (''THB'', 2), (''TJS'', 2), (''TMT'', 2), (''TND'', 3), (''TOP'', 2),
     (''TRY'', 2), (''TTD'', 2), (''TWD'', 2), (''TZS'', 2), (''UAH'', 2), (''UGX'', 0), (''USD'', 2),
     (''USN'', 2), (''UYI'', 0), (''UYU'', 2), (''UYW'', 4), (''UZS'', 2), (''VED'', 2), (''VES'', 2),
     (''VND'', 0), (''VUV'', 0), (''WST'', 2), (''XAF'', 0), (''XCD'', 2), (''XCG'', 2), (''XOF'', 0),
     (''XPF'', 0), (''YER'', 2), (''ZAR'', 2), (''ZMW'', 2), (''ZWG'', 2)]"

definition ISO4217FractionDigits :: "string \<Rightarrow> int option" where
  "ISO4217FractionDigits code = map_of iso4217FractionDigits code"

subsection \<open>Properties\<close>

lemma split_basis: "(b :: int) div 20 = b div 10000 * 500 + b mod 10000 div 20"
proof -
  have "b div 20 = ((b div 10000 * 500) * 20 + b mod 10000) div 20" by (simp add: div_mult_mod_eq)
  also have "\<dots> = b div 10000 * 500 + b mod 10000 div 20" by (subst div_mult_self3) simp_all
  finally show ?thesis .
qed

lemma RevenueCommissionMinor_floor:
  assumes "0 \<le> basis" "basis < 2 ^ 63"
  shows "RevenueCommissionMinor basis = basis * 5 div 100"
proof -
  let ?q = "basis div 10000" and ?r = "basis mod 10000"
  have r: "0 \<le> ?r" "?r < 10000" and q: "0 \<le> ?q" "?q < 2 ^ 63 div 10000 + 1" using assms by simp_all
  have s: "basis sdiv 10000 = ?q" "basis smod 10000 = ?r" using assms(1) by (simp_all add: sdiv_smod_nonneg)
  have "i64 (?q * 500) = ?q * 500" "i64 (?r * 500) = ?r * 500" using q r by (intro i64_nonneg_id; simp)+
  moreover have "(?r * 500) sdiv 10000 = ?r * 500 div 10000" using r by (simp add: sdiv_smod_nonneg)
  moreover have "0 \<le> ?r * 500 div 10000" "?r * 500 div 10000 < 500" using r by (simp_all add:
      div_less_iff_less_mult)
  then have "i64 (?q * 500 + ?r * 500 div 10000) = ?q * 500 + ?r * 500 div 10000" using q by (intro
      i64_nonneg_id) simp_all
  moreover have "basis * 5 div 100 = basis div 20" "?r * 500 div 10000 = ?r div 20"
    using div_mult_mult1 [of 5 basis 20] div_mult_mult1 [of 500 ?r 20] by (simp_all add: mult.commute)
  ultimately show ?thesis by (simp add: RevenueCommissionMinor_def RevenueCommissionBasisPoints_def
      s split_basis [of basis])
qed

text \<open>C27. The commission needs no wide arithmetic: splitting the basis at ten thousand gives,
    for every nonnegative \<open>int64\<close>, exactly
  five percent of the basis rounded down, and none of the intermediate products wraps around.\<close>

theorem RevenueCommissionMinor_exact:
  assumes "0 \<le> basis" "basis \<le> MaxInt64"
  shows "RevenueCommissionMinor basis = basis * 5 div 100 \<and> 0 \<le> RevenueCommissionMinor
      basis \<and> RevenueCommissionMinor basis \<le> basis"
proof -
  have "RevenueCommissionMinor basis = basis * 5 div 100"
    using assms by (intro RevenueCommissionMinor_floor) (simp_all add: MaxInt64_def)
  moreover have "basis * 5 div 100 \<le> basis" "0 \<le> basis * 5 div 100" using assms(1) by linarith+
  ultimately show ?thesis by simp
qed

theorem RevenueCommissionMinor_exact_witness:
  "RevenueCommissionMinor (2 ^ 63 - 1) = 461168601842738790 \<and> RevenueCommissionMinor 39 = 1"
  using RevenueCommissionMinor_exact [of "2 ^ 63 - 1"] RevenueCommissionMinor_exact [of 39] by (simp
      add: MaxInt64_def)

end
