(* ===== verification/Registry_Db.thy ===== *)
theory Registry_Db
  imports Merkle_Proofs Go_Time Protocol_Money
begin

text \<open>
  The state of the registry: the tables of the SQLite database (\<open>registry/store/sqlite/migrations\<close>) and the
  records the store exchanges with the service (\<open>registry/store/store.go\<close>).

  A table is the list of its rows in insertion order. \<open>SELECT ... WHERE key = ?\<close> is \<open>find\<close>,
  \<open>COUNT\<close>, \<open>MAX\<close> and \<open>ORDER BY\<close> are computed from the list. An \<open>INSERT\<close> checks the primary
  key, unique, check and reference constraints of the final schema and fails with \<open>ConstraintFailed\<close>
  when one is violated. No statement of the modelled operations updates or deletes a row of these
  tables (triggers abort such statements), so rows are only ever appended. A transaction is a
  function from the database to an error or a new database with a result: on an error the deferred
  rollback leaves the database as it was. Failures of the database itself (I/O, cancellation) are not
  modelled.
\<close>

subsection \<open>Store errors\<close>

datatype store_error =
    ErrNotFound
  | ErrIdempotencyConflict
  | ErrReplayConflict
  | ErrInconsistentState
  | ErrRegistryKeyMismatch
  | ErrAcceptedAtFinalized
  | ErrAcceptedAtBeforeHead
  | ErrAcceptedAtBeforeIdentity
  | ErrOperatorActionConflict
  | ErrOperatorClaimRequired
  | ErrOperatorClaimStale
  | ErrOperatorClaimAlreadyReviewed
  | ErrOperatorClaimEligibilityStale
  | ErrOperatorClaimNotEligible
  | ErrOperatorClaimNotSuspended
  | ErrClientTokenExpired
  | ErrClientTokenRevoked
  | ErrClientTokenUsed
  | ErrDeploymentInactive
  | ErrAnnouncementConflict
  | ErrAnnouncementClockBeforeHead
  | ErrRegistryCaseAlreadyCleared
  | ErrRegistryCaseClockBeforeHead
  | ErrExitReviewAlreadyFrozen
  | ErrExitReviewClaimBoundary
  | ErrExitReviewTransition
  | ErrExitReviewClockBeforeHead
  | ErrOwnershipTransferClaimBoundary
  | ErrOwnershipTransferExitBoundary
  | ErrOwnershipTransferTargetGroup
  | ErrOwnershipTransferConflict
  | ErrOwnershipTransferTransition
  | ErrOwnershipTransferClockBeforeHead
  | ErrExitAllocationAlreadyExists
  | ErrExitAllocationExitBoundary
  | ErrExitAllocationTransferBoundary
  | ErrExitAllocationConservation
  | ErrExitAllocationTransition
  | ErrExitAllocationClockBeforeHead
  | ErrRevenueRevisionConflict
  | ErrQualifiedMAURevisionConflict
  | ErrRevenueAggregateOverflow
  | ErrGlobalIdentityRateLimited
  | ErrGlobalIdentityKeyMismatch
  | ErrGlobalIdentityLinkConflict
  | ErrGlobalIdentityPresenceConflict
  | ConstraintFailed
  | IntegerOverflow
  | SliceOutOfRange
  | UnsupportedView
  | SigningFailed
  | MerkleRowMissing int int
  | MerkleVerification
  | LedgerVerification string
  | WeightRowVerification string
  | CheckpointVerification string
  | CheckpointHeadMissing

subsection \<open>Records of the store interface\<close>

record StoreRegistryIdentity =
  sri_ProtocolVersion :: string
  sri_RegistryScope :: string
  sri_RegistryKeyID :: string
  sri_PublicKeyDER :: bytes
  sri_CreatedAt :: string

record Deployment =
  dep_DeploymentID :: string
  dep_PublicKeyDER :: bytes
  dep_PublicKeyFingerprint :: string
  dep_KeyAlgorithm :: string
  dep_SoftwareVersion :: string
  dep_RegistrationTimestamp :: string
  dep_RegistrationNonce :: string
  dep_RegistrationIdempotencyKey :: string
  dep_RegistrationSignature :: bytes
  dep_RegisteredAt :: string
  dep_PayloadHash :: string
  dep_ReceiptSignature :: bytes

record RegistrationInput =
  rin_SignerFingerprint :: string
  rin_Nonce :: string
  rin_IdempotencyKey :: string
  rin_PayloadHash :: string
  rin_RequestHash :: string
  rin_RequestTimestamp :: string
  rin_RequestSignature :: bytes
  rin_PublicKeyDER :: bytes
  rin_KeyAlgorithm :: string
  rin_SoftwareVersion :: string
  rin_CandidateDeploymentID :: string
  rin_CandidateRegisteredAt :: string
  rin_CandidateReceiptSignature :: bytes

record BatchInput =
  bin_RegistryScope :: string
  bin_Signer :: string
  bin_Nonce :: string
  bin_IdempotencyKey :: string
  bin_PayloadHash :: string
  bin_RequestHash :: string
  bin_DeploymentID :: string
  bin_RequestTimestamp :: string
  bin_DeploymentSignature :: bytes
  bin_CandidateBatchID :: string
  bin_Kind :: string
  bin_Period :: string
  bin_RulesetVersion :: string
  bin_QualifiedMAUCount :: int
  bin_CommitmentHash :: string
  bin_Revision :: int
  bin_SupersedesBatchID :: string
  bin_AcceptedAt :: string
  bin_CheckpointDate :: string

record BatchRecord =
  brec_BatchID :: string
  brec_DeploymentID :: string
  brec_IdempotencyKey :: string
  brec_Kind :: string
  brec_Period :: string
  brec_RulesetVersion :: string
  brec_QualifiedMAUCount :: int
  brec_CommitmentHash :: string
  brec_Revision :: int
  brec_SupersedesBatchID :: string
  brec_PayloadHash :: string
  brec_AcceptedAt :: string
  brec_LedgerEntry :: LedgerEntry
  brec_ReceiptSignature :: bytes

record LedgerHead =
  lh_LedgerIndex :: int
  lh_EntryCount :: int
  lh_EntryHash :: string
  lh_AcceptedAt :: string

record CheckpointRecord =
  cpr_Checkpoint :: Checkpoint
  cpr_Signature :: bytes

record MerkleInclusionRecord =
  mir_LedgerIndex :: int
  mir_TreeSize :: int
  mir_LedgerEntryHash :: string
  mir_LeafHash :: string
  mir_RootHash :: string
  mir_AuditPath :: "string list"

record MerkleConsistencyRecord =
  mcr_OldTreeSize :: int
  mcr_NewTreeSize :: int
  mcr_OldRootHash :: string
  mcr_NewRootHash :: string
  mcr_AuditPath :: "string list"

record RevenueBatchInput =
  rbi_RegistryScope :: string
  rbi_Signer :: string
  rbi_Nonce :: string
  rbi_IdempotencyKey :: string
  rbi_PayloadHash :: string
  rbi_RequestHash :: string
  rbi_DeploymentID :: string
  rbi_RequestTimestamp :: string
  rbi_DeploymentSignature :: bytes
  rbi_CandidateBatchID :: string
  rbi_Kind :: string
  rbi_Period :: string
  rbi_Revision :: int
  rbi_SupersedesBatchID :: string
  rbi_RulesetVersion :: string
  rbi_CommissionRateBasisPoints :: int
  rbi_Currencies :: "RevenueCurrency list"
  rbi_AcceptedAt :: string
  rbi_CheckpointDate :: string

record RevenueBatchRecord =
  rbrec_BatchID :: string
  rbrec_DeploymentID :: string
  rbrec_IdempotencyKey :: string
  rbrec_Kind :: string
  rbrec_Period :: string
  rbrec_Revision :: int
  rbrec_SupersedesBatchID :: string
  rbrec_RulesetVersion :: string
  rbrec_CommissionRateBasisPoints :: int
  rbrec_CurrencyCount :: int
  rbrec_Currencies :: "RevenueCurrency list"
  rbrec_PayloadHash :: string
  rbrec_AcceptedAt :: string
  rbrec_LedgerEntry :: LedgerEntry
  rbrec_ReceiptSignature :: bytes

record RevenueQuery =
  rqy_Period :: string
  rqy_CurrencyCode :: string
  rqy_FractionDigits :: int
  rqy_DeploymentID :: string
  rqy_GroupID :: string

record acceptedNonce =
  an_Signer :: string
  an_Nonce :: string
  an_RequestHash :: string
  an_IdempotencyKey :: string
  an_PayloadHash :: string
  an_RequestTimestamp :: string
  an_RequestSignature :: bytes
  an_ResultType :: string
  an_ResultID :: string
  an_AcceptedAt :: string

record idempotencyRecord =
  ir_PayloadHash :: string
  ir_ResultType :: string
  ir_ResultID :: string

record SettlementCalculationInput =
  sci_RegistryScope :: string
  sci_Period :: string
  sci_CurrencyCode :: string
  sci_FractionDigits :: int
  sci_BaseValuationMultiplierBasisPoints :: int
  sci_CandidateSettlementID :: string
  sci_AcceptedAt :: string
  sci_RegistryKeyID :: string

record SettlementRevenueSource =
  srs_SourceOrder :: int
  srs_RevenuePeriod :: string
  srs_DeploymentID :: string
  srs_BatchID :: string
  srs_LedgerIndex :: int
  srs_EntryHash :: string
  srs_CommissionBasisMinor :: int

record SettlementTTMMonth =
  stm_Period :: string
  stm_CommissionBasisMinor :: int
  stm_NetworkCommissionPoolMinor :: int

record SettlementWeightSource =
  sws_BeneficiaryID :: string
  sws_Label :: string
  sws_Weight :: int

record SettlementBeneficiaryDeployment =
  sbd_BeneficiaryID :: string
  sbd_DeploymentID :: string

record SettlementRecord =
  srec_SettlementID :: string
  srec_Period :: string
  srec_CurrencyCode :: string
  srec_FractionDigits :: int
  srec_Revision :: int
  srec_SupersedesSettlementID :: string
  srec_RulesetVersion :: string
  srec_ValuationRulesetVersion :: string
  srec_CommissionRateBasisPoints :: int
  srec_BaseValuationMultiplierBasisPoints :: int
  srec_RecentThreeMonthAverageMinor :: int
  srec_PriorThreeMonthAverageMinor :: int
  srec_EarlierThreeMonthAverageMinor :: int
  srec_RecentGrowthBasisPoints :: int
  srec_PriorGrowthBasisPoints :: int
  srec_AccelerationBasisPoints :: int
  srec_ValuationAdjustmentBasisPoints :: int
  srec_EffectiveValuationMultiplierBasisPoints :: int
  srec_CommissionBasisMinor :: int
  srec_NetworkCommissionPoolMinor :: int
  srec_TTMCommissionBasisMinor :: int
  srec_TTMNetworkCommissionPoolMinor :: int
  srec_IndicativeNetworkValueMinor :: int
  srec_ThroughLedgerIndex :: int
  srec_ThroughAuditIndex :: int
  srec_ThroughReviewIndex :: int
  srec_ThroughEligibilityIndex :: int
  srec_LedgerHeadHash :: string
  srec_AuditHeadHash :: string
  srec_ReviewHeadHash :: string
  srec_EligibilityHeadHash :: string
  srec_SourceFingerprint :: string
  srec_AllocationHash :: string
  srec_SettlementHash :: string
  srec_AcceptedAt :: string
  srec_RegistryKeyID :: string
  srec_LedgerEntry :: LedgerEntry
  srec_ReceiptSignature :: bytes
  srec_Allocations :: "SettlementAllocation list"
  srec_RevenueSources :: "SettlementRevenueSource list"
  srec_TTMMonths :: "SettlementTTMMonth list"
  srec_WeightSources :: "SettlementWeightSource list"
  srec_BeneficiaryDeployments :: "SettlementBeneficiaryDeployment list"

record LeaderboardBoundary =
  lb_LedgerIndex :: int
  lb_AuditIndex :: int
  lb_ReviewIndex :: int
  lb_EligibilityIndex :: int
  lb_TransferEventIndex :: int
  lb_LedgerHash :: string
  lb_AuditHash :: string
  lb_ReviewHash :: string
  lb_EligibilityHash :: string
  lb_TransferEventHash :: string
  lb_CreatedAt :: string

record persistedRevenueQueryRow =
  rq_batchID :: string
  rq_index :: int
  rq_ledgerIndex :: int
  rq_deploymentID :: string
  rq_period :: string
  rq_revision :: int
  rq_supersedesBatchID :: string
  rq_currency :: RevenueCurrency
  rq_acceptedAt :: string
  rq_sourceEntryHash :: string

subsection \<open>Table rows\<close>

record idempotency_row =
  idr_signer :: string
  idr_idempotency_key :: string
  idr_payload_hash :: string
  idr_result_type :: string
  idr_result_id :: string
  idr_accepted_at :: string

record mau_row =
  mb_batch_id :: string
  mb_deployment_id :: string
  mb_idempotency_key :: string
  mb_request_timestamp :: string
  mb_request_nonce :: string
  mb_deployment_signature :: bytes
  mb_kind :: string
  mb_period :: string
  mb_ruleset_version :: string
  mb_qualified_mau_count :: int
  mb_commitment_hash :: string
  mb_revision :: int
  mb_supersedes_batch_id :: string
  mb_payload_hash :: string
  mb_accepted_at :: string
  mb_ledger_index :: int
  mb_receipt_signature :: bytes

record weight_row =
  lw_ledger_index :: int
  lw_deployment_id :: string
  lw_period :: string
  lw_revision :: int
  lw_ruleset_version :: string
  lw_qualified_mau_count :: int
  lw_weight_numerator :: int
  lw_weight_denominator :: int
  lw_accepted_at :: string
  lw_source_entry_hash :: string

record revenue_row =
  rb_batch_id :: string
  rb_deployment_id :: string
  rb_idempotency_key :: string
  rb_request_timestamp :: string
  rb_request_nonce :: string
  rb_deployment_signature :: bytes
  rb_kind :: string
  rb_period :: string
  rb_revision :: int
  rb_supersedes_batch_id :: "string option"
  rb_ruleset_version :: string
  rb_commission_rate_basis_points :: int
  rb_currency_count :: int
  rb_payload_hash :: string
  rb_accepted_at :: string
  rb_ledger_index :: int
  rb_receipt_signature :: bytes

record settlement_row =
  st_settlement_id :: string
  st_period :: string
  st_currency_code :: string
  st_fraction_digits :: int
  st_revision :: int
  st_supersedes_settlement_id :: "string option"
  st_ruleset_version :: string
  st_valuation_ruleset_version :: string
  st_commission_rate_basis_points :: int
  st_base_valuation_multiplier_basis_points :: int
  st_recent_three_month_average_minor :: int
  st_prior_three_month_average_minor :: int
  st_earlier_three_month_average_minor :: int
  st_recent_growth_basis_points :: int
  st_prior_growth_basis_points :: int
  st_acceleration_basis_points :: int
  st_valuation_adjustment_basis_points :: int
  st_effective_valuation_multiplier_basis_points :: int
  st_commission_basis_minor :: int
  st_network_commission_pool_minor :: int
  st_ttm_commission_basis_minor :: int
  st_ttm_network_commission_pool_minor :: int
  st_indicative_network_value_minor :: int
  st_through_ledger_index :: int
  st_through_audit_index :: int
  st_through_review_index :: int
  st_through_eligibility_index :: int
  st_ledger_head_hash :: string
  st_audit_head_hash :: string
  st_review_head_hash :: string
  st_eligibility_head_hash :: string
  st_source_fingerprint :: string
  st_allocation_hash :: string
  st_settlement_hash :: string
  st_accepted_at :: string
  st_ledger_index :: int
  st_registry_key_id :: string
  st_receipt_signature :: bytes

record registry_db =
  registry_identity :: "StoreRegistryIdentity option"
  deployments :: "Deployment list"
  used_nonces :: "acceptedNonce list"
  idempotency_records :: "idempotency_row list"
  ledger_entries :: "LedgerEntry list"
  mau_batches :: "mau_row list"
  ledger_weight_rows :: "weight_row list"
  checkpoints :: "CheckpointRecord list"
  ledger_merkle_nodes :: "((int \<times> int) \<times> bytes) list"
  revenue_batches :: "revenue_row list"
  revenue_query_rows :: "persistedRevenueQueryRow list"
  settlements :: "settlement_row list"
  settlement_revenue_sources :: "(string \<times> SettlementRevenueSource) list"
  settlement_ttm_months :: "(string \<times> SettlementTTMMonth) list"
  settlement_weight_sources :: "(string \<times> SettlementWeightSource) list"
  settlement_beneficiary_deployments :: "(string \<times> SettlementBeneficiaryDeployment) list"
  settlement_allocations :: "(string \<times> int \<times> SettlementAllocation) list"

definition empty_db :: registry_db where
  "empty_db = \<lparr>registry_identity = None, deployments = [], used_nonces = [], idempotency_records = [],
     ledger_entries = [], mau_batches = [], ledger_weight_rows = [], checkpoints = [], ledger_merkle_nodes = [],
     revenue_batches = [], revenue_query_rows = [], settlements = [], settlement_revenue_sources = [],
     settlement_ttm_months = [], settlement_weight_sources = [], settlement_beneficiary_deployments = [],
     settlement_allocations = []\<rparr>"

subsection \<open>Inserts and their constraints\<close>

text \<open>The row check of \<open>ledger_entries\<close>: which kinds and rulesets an entry type admits.\<close>

definition ledger_row_check :: "LedgerEntry \<Rightarrow> bool" where
  "ledger_row_check e \<longleftrightarrow>
     (le_EntryType e = ''INSTALLATION_TEST_BATCH_ACCEPTED'' \<and> le_DeploymentID e \<noteq> [] \<and>
        le_Kind e = ''installation-test'' \<and> le_RulesetVersion e = ''installation-test-v1'' \<and> le_QualifiedMAUCount e = 0) \<or>
     (le_EntryType e = ''QMAU_BATCH_ACCEPTED'' \<and> le_DeploymentID e \<noteq> [] \<and>
        le_Kind e = ''monthly-qmau'' \<and> le_RulesetVersion e = ''qmau-v1'') \<or>
     (le_EntryType e = ''REVENUE_BATCH_ACCEPTED'' \<and> le_DeploymentID e \<noteq> [] \<and>
        le_Kind e = ''daily-revenue'' \<and> le_RulesetVersion e = ''net-captured-revenue-v1'' \<and> le_QualifiedMAUCount e = 0) \<or>
     (le_EntryType e = ''SETTLEMENT_CALCULATED'' \<and> le_DeploymentID e = [] \<and>
        le_Kind e = ''monthly-settlement'' \<and> le_RulesetVersion e = ''share-weighted-settlement-v1'' \<and> le_QualifiedMAUCount e = 0)"

definition insert_ledger_entry :: "registry_db \<Rightarrow> LedgerEntry \<Rightarrow> store_error + registry_db" where
  "insert_ledger_entry db e =
     (if le_LedgerIndex e > 0 \<and> le_ProtocolVersion e = ''1'' \<and> le_QualifiedMAUCount e \<ge> 0 \<and> ledger_row_check e \<and>
         le_LedgerIndex e \<notin> le_LedgerIndex ` set (ledger_entries db) \<and>
         le_BatchID e \<notin> le_BatchID ` set (ledger_entries db) \<and>
         le_EntryHash e \<notin> le_EntryHash ` set (ledger_entries db)
      then Inr (db\<lparr>ledger_entries := ledger_entries db @ [e]\<rparr>)
      else Inl ConstraintFailed)"

definition insert_merkle_node :: "registry_db \<Rightarrow> int \<Rightarrow> int \<Rightarrow> bytes \<Rightarrow> store_error + registry_db" where
  "insert_merkle_node db level index h =
     (if 1 \<le> level \<and> level \<le> 62 \<and> 0 \<le> index \<and> length h = 32 \<and>
         (level, index) \<notin> fst ` set (ledger_merkle_nodes db)
      then Inr (db\<lparr>ledger_merkle_nodes := ledger_merkle_nodes db @ [((level, index), h)]\<rparr>)
      else Inl ConstraintFailed)"

definition insert_weight_row :: "registry_db \<Rightarrow> weight_row \<Rightarrow> store_error + registry_db" where
  "insert_weight_row db w =
     (if lw_ledger_index w \<in> le_LedgerIndex ` set (ledger_entries db) \<and>
         lw_deployment_id w \<in> dep_DeploymentID ` set (deployments db) \<and>
         lw_revision w \<ge> 0 \<and> lw_qualified_mau_count w \<ge> 0 \<and> lw_weight_numerator w \<ge> 0 \<and> lw_weight_denominator w > 0 \<and>
         lw_ledger_index w \<notin> lw_ledger_index ` set (ledger_weight_rows db) \<and>
         lw_source_entry_hash w \<notin> lw_source_entry_hash ` set (ledger_weight_rows db)
      then Inr (db\<lparr>ledger_weight_rows := ledger_weight_rows db @ [w]\<rparr>)
      else Inl ConstraintFailed)"

definition mau_row_check :: "mau_row \<Rightarrow> bool" where
  "mau_row_check b \<longleftrightarrow>
     (mb_kind b = ''installation-test'' \<and> mb_ruleset_version b = ''installation-test-v1'' \<and>
        mb_qualified_mau_count b = 0 \<and> mb_revision b = 0 \<and> mb_supersedes_batch_id b = []) \<or>
     (mb_kind b = ''monthly-qmau'' \<and> mb_ruleset_version b = ''qmau-v1'' \<and> mb_revision b \<ge> 1 \<and>
        ((mb_revision b = 1 \<and> mb_supersedes_batch_id b = []) \<or> (mb_revision b > 1 \<and> mb_supersedes_batch_id b \<noteq> [])))"

definition insert_mau_batch :: "registry_db \<Rightarrow> mau_row \<Rightarrow> store_error + registry_db" where
  "insert_mau_batch db b =
     (if mb_deployment_id b \<in> dep_DeploymentID ` set (deployments db) \<and>
         mb_ledger_index b \<in> le_LedgerIndex ` set (ledger_entries db) \<and>
         length (mb_deployment_signature b) = 64 \<and> length (mb_receipt_signature b) = 64 \<and>
         mb_qualified_mau_count b \<ge> 0 \<and> mb_revision b \<ge> 0 \<and> mau_row_check b \<and>
         mb_batch_id b \<notin> mb_batch_id ` set (mau_batches db) \<and>
         mb_ledger_index b \<notin> mb_ledger_index ` set (mau_batches db) \<and>
         (mb_deployment_id b, mb_idempotency_key b) \<notin> (\<lambda>r. (mb_deployment_id r, mb_idempotency_key r)) ` set (mau_batches db) \<and>
         \<not> (mb_kind b = ''monthly-qmau'' \<and>
            list_ex (\<lambda>r. mb_kind r = ''monthly-qmau'' \<and> mb_deployment_id r = mb_deployment_id b \<and>
              mb_period r = mb_period b \<and> mb_revision r = mb_revision b) (mau_batches db))
      then Inr (db\<lparr>mau_batches := mau_batches db @ [b]\<rparr>)
      else Inl ConstraintFailed)"

definition insert_deployment :: "registry_db \<Rightarrow> Deployment \<Rightarrow> store_error + registry_db" where
  "insert_deployment db d =
     (if dep_KeyAlgorithm d = ''Ed25519'' \<and> length (dep_RegistrationSignature d) = 64 \<and> length (dep_ReceiptSignature d) = 64 \<and>
         dep_DeploymentID d \<notin> dep_DeploymentID ` set (deployments db) \<and>
         dep_PublicKeyDER d \<notin> dep_PublicKeyDER ` set (deployments db) \<and>
         dep_PublicKeyFingerprint d \<notin> dep_PublicKeyFingerprint ` set (deployments db)
      then Inr (db\<lparr>deployments := deployments db @ [d]\<rparr>)
      else Inl ConstraintFailed)"

definition insert_revenue_batch :: "registry_db \<Rightarrow> revenue_row \<Rightarrow> store_error + registry_db" where
  "insert_revenue_batch db b =
     (if rb_deployment_id b \<in> dep_DeploymentID ` set (deployments db) \<and>
         rb_ledger_index b \<in> le_LedgerIndex ` set (ledger_entries db) \<and>
         length (rb_deployment_signature b) = 64 \<and> length (rb_receipt_signature b) = 64 \<and>
         rb_kind b = ''daily-revenue'' \<and> rb_revision b \<ge> 1 \<and> rb_ruleset_version b = ''net-captured-revenue-v1'' \<and>
         rb_commission_rate_basis_points b = 500 \<and> rb_currency_count b \<ge> 0 \<and>
         (case rb_supersedes_batch_id b of
            None \<Rightarrow> rb_revision b = 1
          | Some s \<Rightarrow> rb_revision b > 1 \<and> s \<in> insert (rb_batch_id b) (rb_batch_id ` set (revenue_batches db))) \<and>
         rb_batch_id b \<notin> rb_batch_id ` set (revenue_batches db) \<and>
         rb_ledger_index b \<notin> rb_ledger_index ` set (revenue_batches db) \<and>
         (rb_deployment_id b, rb_idempotency_key b) \<notin> (\<lambda>r. (rb_deployment_id r, rb_idempotency_key r)) ` set (revenue_batches db) \<and>
         (rb_deployment_id b, rb_period b, rb_revision b) \<notin>
           (\<lambda>r. (rb_deployment_id r, rb_period r, rb_revision r)) ` set (revenue_batches db)
      then Inr (db\<lparr>revenue_batches := revenue_batches db @ [b]\<rparr>)
      else Inl ConstraintFailed)"

definition insert_revenue_query_row :: "registry_db \<Rightarrow> persistedRevenueQueryRow \<Rightarrow> store_error + registry_db" where
  "insert_revenue_query_row db r =
     (let c = rq_currency r in
      if rq_batchID r \<in> rb_batch_id ` set (revenue_batches db) \<and> rq_index r \<ge> 0 \<and>
         rq_ledgerIndex r \<in> le_LedgerIndex ` set (ledger_entries db) \<and>
         rq_deploymentID r \<in> dep_DeploymentID ` set (deployments db) \<and> rq_revision r \<ge> 1 \<and>
         length (rc_CurrencyCode c) = 3 \<and> rc_CurrencyCode c = strings_ToUpper (rc_CurrencyCode c) \<and>
         0 \<le> rc_FractionDigits c \<and> rc_FractionDigits c \<le> 4 \<and> rc_CapturedMinor c \<ge> 0 \<and>
         rc_RefundedMinor c \<ge> 0 \<and> rc_RefundedMinor c \<le> rc_CapturedMinor c \<and> rc_NetMinor c \<ge> 0 \<and>
         rc_CommissionBasisMinor c \<ge> 0 \<and> rc_EstimatedCommissionMinor c \<ge> 0 \<and> rc_PaymentCount c \<ge> 0 \<and>
         rc_NetMinor c = rc_CapturedMinor c - rc_RefundedMinor c \<and> rc_CommissionBasisMinor c = rc_NetMinor c \<and>
         (rq_batchID r, rq_index r) \<notin> (\<lambda>q. (rq_batchID q, rq_index q)) ` set (revenue_query_rows db) \<and>
         (rq_batchID r, rc_CurrencyCode c) \<notin>
           (\<lambda>q. (rq_batchID q, rc_CurrencyCode (rq_currency q))) ` set (revenue_query_rows db)
      then Inr (db\<lparr>revenue_query_rows := revenue_query_rows db @ [r]\<rparr>)
      else Inl ConstraintFailed)"

definition settlement_amounts_check :: "settlement_row \<Rightarrow> bool" where
  "settlement_amounts_check s \<longleftrightarrow> list_all (\<lambda>v. v \<ge> 0)
     [st_recent_three_month_average_minor s, st_prior_three_month_average_minor s, st_earlier_three_month_average_minor s,
      st_commission_basis_minor s, st_network_commission_pool_minor s, st_ttm_commission_basis_minor s,
      st_ttm_network_commission_pool_minor s, st_indicative_network_value_minor s, st_through_ledger_index s,
      st_through_audit_index s, st_through_review_index s, st_through_eligibility_index s]"

definition settlement_rates_check :: "settlement_row \<Rightarrow> bool" where
  "settlement_rates_check s \<longleftrightarrow>
     st_ruleset_version s = ''share-weighted-settlement-v1'' \<and>
     st_valuation_ruleset_version s = ''three-month-acceleration-valuation-v1'' \<and> st_commission_rate_basis_points s = 500 \<and>
     1000 \<le> st_base_valuation_multiplier_basis_points s \<and> st_base_valuation_multiplier_basis_points s \<le> 100000 \<and>
     - 10000 \<le> st_recent_growth_basis_points s \<and> st_recent_growth_basis_points s \<le> 20000 \<and>
     - 10000 \<le> st_prior_growth_basis_points s \<and> st_prior_growth_basis_points s \<le> 20000 \<and>
     - 10000 \<le> st_acceleration_basis_points s \<and> st_acceleration_basis_points s \<le> 10000 \<and>
     - 2500 \<le> st_valuation_adjustment_basis_points s \<and> st_valuation_adjustment_basis_points s \<le> 2500 \<and>
     st_effective_valuation_multiplier_basis_points s > 0"

definition insert_settlement :: "registry_db \<Rightarrow> settlement_row \<Rightarrow> store_error + registry_db" where
  "insert_settlement db s =
     (if length (st_currency_code s) = 3 \<and> st_currency_code s = strings_ToUpper (st_currency_code s) \<and>
         0 \<le> st_fraction_digits s \<and> st_fraction_digits s \<le> 4 \<and> st_revision s \<ge> 1 \<and>
         (case st_supersedes_settlement_id s of
            None \<Rightarrow> st_revision s = 1
          | Some i \<Rightarrow> st_revision s > 1 \<and> i \<in> insert (st_settlement_id s) (st_settlement_id ` set (settlements db))) \<and>
         settlement_rates_check s \<and> settlement_amounts_check s \<and>
         st_ledger_index s \<in> le_LedgerIndex ` set (ledger_entries db) \<and> length (st_receipt_signature s) = 64 \<and>
         st_settlement_id s \<notin> st_settlement_id ` set (settlements db) \<and>
         st_settlement_hash s \<notin> st_settlement_hash ` set (settlements db) \<and>
         st_ledger_index s \<notin> st_ledger_index ` set (settlements db) \<and>
         (st_period s, st_currency_code s, st_revision s) \<notin>
           (\<lambda>r. (st_period r, st_currency_code r, st_revision r)) ` set (settlements db) \<and>
         (st_period s, st_currency_code s, st_source_fingerprint s) \<notin>
           (\<lambda>r. (st_period r, st_currency_code r, st_source_fingerprint r)) ` set (settlements db)
      then Inr (db\<lparr>settlements := settlements db @ [s]\<rparr>)
      else Inl ConstraintFailed)"

definition insert_settlement_revenue_source ::
  "string \<Rightarrow> registry_db \<Rightarrow> SettlementRevenueSource \<Rightarrow> store_error + registry_db" where
  "insert_settlement_revenue_source sid db r =
     (if sid \<in> st_settlement_id ` set (settlements db) \<and> srs_SourceOrder r \<ge> 0 \<and>
         srs_DeploymentID r \<in> dep_DeploymentID ` set (deployments db) \<and>
         srs_BatchID r \<in> rb_batch_id ` set (revenue_batches db) \<and>
         srs_LedgerIndex r \<in> le_LedgerIndex ` set (ledger_entries db) \<and> srs_CommissionBasisMinor r \<ge> 0 \<and>
         (sid, srs_SourceOrder r) \<notin> (\<lambda>(i, q). (i, srs_SourceOrder q)) ` set (settlement_revenue_sources db) \<and>
         (sid, srs_BatchID r) \<notin> (\<lambda>(i, q). (i, srs_BatchID q)) ` set (settlement_revenue_sources db)
      then Inr (db\<lparr>settlement_revenue_sources := settlement_revenue_sources db @ [(sid, r)]\<rparr>)
      else Inl ConstraintFailed)"

definition insert_settlement_ttm_month :: "string \<Rightarrow> registry_db \<Rightarrow> SettlementTTMMonth \<Rightarrow> store_error + registry_db" where
  "insert_settlement_ttm_month sid db r =
     (if sid \<in> st_settlement_id ` set (settlements db) \<and> stm_CommissionBasisMinor r \<ge> 0 \<and>
         stm_NetworkCommissionPoolMinor r \<ge> 0 \<and>
         (sid, stm_Period r) \<notin> (\<lambda>(i, q). (i, stm_Period q)) ` set (settlement_ttm_months db)
      then Inr (db\<lparr>settlement_ttm_months := settlement_ttm_months db @ [(sid, r)]\<rparr>)
      else Inl ConstraintFailed)"

definition insert_settlement_weight_source :: "string \<Rightarrow> registry_db \<Rightarrow> SettlementWeightSource \<Rightarrow> store_error + registry_db" where
  "insert_settlement_weight_source sid db r =
     (if sid \<in> st_settlement_id ` set (settlements db) \<and> sws_Weight r \<ge> 0 \<and>
         (sid, sws_BeneficiaryID r) \<notin> (\<lambda>(i, q). (i, sws_BeneficiaryID q)) ` set (settlement_weight_sources db)
      then Inr (db\<lparr>settlement_weight_sources := settlement_weight_sources db @ [(sid, r)]\<rparr>)
      else Inl ConstraintFailed)"

definition insert_settlement_beneficiary_deployment ::
  "string \<Rightarrow> registry_db \<Rightarrow> SettlementBeneficiaryDeployment \<Rightarrow> store_error + registry_db" where
  "insert_settlement_beneficiary_deployment sid db r =
     (if sid \<in> st_settlement_id ` set (settlements db) \<and> sbd_DeploymentID r \<in> dep_DeploymentID ` set (deployments db) \<and>
         (sid, sbd_DeploymentID r) \<notin> (\<lambda>(i, q). (i, sbd_DeploymentID q)) ` set (settlement_beneficiary_deployments db)
      then Inr (db\<lparr>settlement_beneficiary_deployments := settlement_beneficiary_deployments db @ [(sid, r)]\<rparr>)
      else Inl ConstraintFailed)"

definition insert_settlement_allocation ::
  "string \<Rightarrow> registry_db \<Rightarrow> int \<times> SettlementAllocation \<Rightarrow> store_error + registry_db" where
  "insert_settlement_allocation sid db r =
     (if sid \<in> st_settlement_id ` set (settlements db) \<and> fst r \<ge> 0 \<and>
         sa_BeneficiaryType (snd r) \<in> {''FOUNDER'', ''OPERATOR_GROUP'', ''UNALLOCATED_RESERVE''} \<and>
         sa_NetworkPoolAllocationMinor (snd r) \<ge> 0 \<and> sa_IndicativeValueAllocationMinor (snd r) \<ge> 0 \<and>
         (sid, fst r) \<notin> (\<lambda>(i, k, a). (i, k)) ` set (settlement_allocations db) \<and>
         (sid, sa_BeneficiaryID (snd r)) \<notin> (\<lambda>(i, k, a). (i, sa_BeneficiaryID a)) ` set (settlement_allocations db)
      then Inr (db\<lparr>settlement_allocations := settlement_allocations db @ [(sid, r)]\<rparr>)
      else Inl ConstraintFailed)"

text \<open>Inserting several rows one after the other; the first failure ends the transaction.\<close>

fun insert_all :: "(registry_db \<Rightarrow> 'r \<Rightarrow> store_error + registry_db) \<Rightarrow> registry_db \<Rightarrow> 'r list \<Rightarrow> store_error + registry_db" where
  "insert_all ins db [] = Inr db"
| "insert_all ins db (r # rs) = bindR (ins db r) (\<lambda>db. insert_all ins db rs)"

lemma insert_all_fresh:
  assumes step: "\<And>d r d'. ins d r = Inr d' \<Longrightarrow> tab d' = tab d @ [r] \<and> key r \<notin> key ` set (tab d)"
    and "insert_all ins db rs = Inr db'"
  shows "tab db' = tab db @ rs \<and> distinct (map key rs) \<and> (\<forall>r \<in> set rs. key r \<notin> key ` set (tab db))"
  using assms(2)
proof (induction rs arbitrary: db)
  case (Cons r rs)
  then obtain d where d: "ins db r = Inr d" "insert_all ins d rs = Inr db'" by (auto simp: result_simps)
  from step [OF d(1)] Cons.IH [OF d(2)] show ?case by auto
qed simp

lemmas insert_defs = insert_ledger_entry_def insert_merkle_node_def insert_weight_row_def
  insert_mau_batch_def insert_deployment_def

end
