(* ===== verification/Merkle_Store.thy ===== *)
theory Merkle_Store
  imports Registry_Db "HOL-Library.Product_Lexorder"
begin

text \<open>
  \<open>registry/store/sqlite/merkle.go\<close>: the persisted Merkle index over the ledger, its backfill at start-up, its
  integrity check and the proofs computed from it.

  The index stores the roots of the complete aligned subtrees. \<open>merkle_indexed\<close> says so against the reference
  tree hash; the lemmas show that appending and backfilling establish it, that \<open>VerifyMerkleTree\<close> decides
  it, and that roots, audit paths and consistency paths computed from the stored rows are those of the
  reference. Tree sizes are bounded by \<open>2 ^ 62\<close>, the bound of the level column and of the split loop.
\<close>

subsection \<open>Hashes\<close>

definition merkleLeafBytes :: "(bytes \<Rightarrow> bytes) \<Rightarrow> string \<Rightarrow> store_error + bytes" where
  "merkleLeafBytes H entryHash =
     (if \<not> IsDigest entryHash then Inl ErrInconsistentState
      else case hex_DecodeString (drop (length ''sha256:'') entryHash) of
          None \<Rightarrow> Inl ErrInconsistentState
        | Some raw \<Rightarrow> if length raw \<noteq> 32 then Inl ErrInconsistentState else Inr (H (CHR 0x00 # raw)))"

text \<open>\<open>copy\<close> into the fixed 65-byte message: the left part is cut or zero-filled at 32 bytes by what follows,
  the right one at the end.\<close>

definition merkleNodeBytes :: "(bytes \<Rightarrow> bytes) \<Rightarrow> bytes \<Rightarrow> bytes \<Rightarrow> bytes" where
  "merkleNodeBytes H left right =
     (let message = CHR 0x01 # replicate 64 (CHR 0x00);
          message = take 1 message @ take 64 left @ drop (1 + min 64 (length left)) message;
          message = take 33 message @ take 32 right @ drop (33 + min 32 (length right)) message
      in H message)"

definition encodeMerkleHash :: "bytes \<Rightarrow> string" where
  "encodeMerkleHash value = ''sha256:'' @ hex_EncodeToString value"

fun hashDifference :: "bytes \<Rightarrow> bytes \<Rightarrow> 8 word" where
  "hashDifference (l # left) (r # right) =
     ((word_of_nat (of_char l) :: 8 word) XOR word_of_nat (of_char r)) OR hashDifference left right"
| "hashDifference _ _ = 0"

definition equalHash :: "bytes \<Rightarrow> bytes \<Rightarrow> bool" where
  "equalHash left right \<longleftrightarrow> length left = length right \<and> hashDifference left right = 0"

definition largestMerklePower :: "int \<Rightarrow> int option" where
  "largestMerklePower value = largestPower_loop 1 value"

text \<open>\<open>bits.OnesCount64\<close> and \<open>bits.TrailingZeros64\<close>.\<close>

fun OnesCount :: "nat \<Rightarrow> nat" where
  "OnesCount n = (if n = 0 then 0 else n mod 2 + OnesCount (n div 2))"

fun TrailingZeros :: "nat \<Rightarrow> nat" where
  "TrailingZeros n = (if n = 0 then 64 else if odd n then 0 else Suc (TrailingZeros (n div 2)))"

declare OnesCount.simps [simp del] TrailingZeros.simps [simp del]

subsection \<open>Reading the tree\<close>

definition completeMerkleSubtreeTx ::
  "(bytes \<Rightarrow> bytes) \<Rightarrow> registry_db \<Rightarrow> int \<Rightarrow> int \<Rightarrow> store_error + bytes" where
  "completeMerkleSubtreeTx H db level index =
     (if level = 0 then
        (case find (\<lambda>e. le_LedgerIndex e = i64 (index + 1)) (ledger_entries db) of
           None \<Rightarrow> Inl (MerkleRowMissing level index)
         | Some e \<Rightarrow> merkleLeafBytes H (le_EntryHash e))
      else from_option (MerkleRowMissing level index) (map_of (ledger_merkle_nodes db) (level, index)))"

definition merkleTreeSizeTx :: "registry_db \<Rightarrow> int" where
  "merkleTreeSizeTx db = int (length (ledger_entries db))"

partial_function (option) merkleSubtreeRootTx ::
  "(bytes \<Rightarrow> bytes) \<Rightarrow> registry_db \<Rightarrow> int \<Rightarrow> int \<Rightarrow> (store_error + bytes) option" where
  "merkleSubtreeRootTx H db start size' =
     (if size' < 1 then Some (Inl ErrInconsistentState)
      else if and size' (size' - 1) = 0 \<and> start smod size' = 0
      then Some (completeMerkleSubtreeTx H db (int (TrailingZeros (nat size'))) (start sdiv size'))
      else Option.bind (largestMerklePower size') (\<lambda>split.
        Option.bind (merkleSubtreeRootTx H db start split) (\<lambda>l. case l of Inl e \<Rightarrow> Some (Inl e) | Inr left \<Rightarrow>
        Option.bind (merkleSubtreeRootTx H db (i64 (start + split)) (i64 (size' - split))) (\<lambda>r. case r of Inl e \<Rightarrow> Some (Inl e) | Inr right \<Rightarrow>
        Some (Inr (merkleNodeBytes H left right))))))"

partial_function (option) inclusionPathTx ::
  "(bytes \<Rightarrow> bytes) \<Rightarrow> registry_db \<Rightarrow> int \<Rightarrow> int \<Rightarrow> int \<Rightarrow> string list \<Rightarrow> (store_error + string list) option" where
  "inclusionPathTx H db start size' target path =
     (if size' = 1 then Some (Inr path)
      else Option.bind (largestMerklePower size') (\<lambda>split.
        if target < i64 (start + split)
        then Option.bind (inclusionPathTx H db start split target path) (\<lambda>p. case p of Inl e \<Rightarrow> Some (Inl e) | Inr path \<Rightarrow>
          Option.bind (merkleSubtreeRootTx H db (i64 (start + split)) (i64 (size' - split))) (\<lambda>r.
          Some (bindR r (\<lambda>right. Inr (path @ [encodeMerkleHash right])))))
        else Option.bind (inclusionPathTx H db (i64 (start + split)) (i64 (size' - split)) target path) (\<lambda>p.
          case p of Inl e \<Rightarrow> Some (Inl e) | Inr path \<Rightarrow>
          Option.bind (merkleSubtreeRootTx H db start split) (\<lambda>r.
          Some (bindR r (\<lambda>left. Inr (path @ [encodeMerkleHash left])))))))"

partial_function (option) consistencyPathTx ::
  "(bytes \<Rightarrow> bytes) \<Rightarrow> registry_db \<Rightarrow> int \<Rightarrow> int \<Rightarrow> int \<Rightarrow> bool \<Rightarrow> string list \<Rightarrow> (store_error + string list) option" where
  "consistencyPathTx H db oldSize start newSize completeOld path =
     (if oldSize = newSize then
        (if \<not> completeOld
         then Option.bind (merkleSubtreeRootTx H db start newSize) (\<lambda>r.
           Some (bindR r (\<lambda>root. Inr (path @ [encodeMerkleHash root]))))
         else Some (Inr path))
      else Option.bind (largestMerklePower newSize) (\<lambda>split.
        if oldSize \<le> split
        then Option.bind (consistencyPathTx H db oldSize start split completeOld path) (\<lambda>p. case p of Inl e \<Rightarrow> Some (Inl e) | Inr path \<Rightarrow>
          Option.bind (merkleSubtreeRootTx H db (i64 (start + split)) (i64 (newSize - split))) (\<lambda>r.
          Some (bindR r (\<lambda>right. Inr (path @ [encodeMerkleHash right])))))
        else Option.bind (consistencyPathTx H db (i64 (oldSize - split)) (i64 (start + split)) (i64 (newSize - split)) False path) (\<lambda>p.
          case p of Inl e \<Rightarrow> Some (Inl e) | Inr path \<Rightarrow>
          Option.bind (merkleSubtreeRootTx H db start split) (\<lambda>r.
          Some (bindR r (\<lambda>left. Inr (path @ [encodeMerkleHash left])))))))"

definition MerkleInclusionProof_store ::
  "(bytes \<Rightarrow> bytes) \<Rightarrow> registry_db \<Rightarrow> int \<Rightarrow> int \<Rightarrow> (store_error + MerkleInclusionRecord) option" where
  "MerkleInclusionProof_store H db ledgerIndex treeSize =
     (let actualSize = merkleTreeSizeTx db; treeSize = (if treeSize = 0 then actualSize else treeSize) in
      if treeSize < 1 \<or> treeSize > actualSize \<or> ledgerIndex < 1 \<or> ledgerIndex > treeSize then Some (Inl ErrNotFound)
      else case find (\<lambda>e. le_LedgerIndex e = ledgerIndex) (ledger_entries db) of
          None \<Rightarrow> Some (Inl ErrNotFound)
        | Some e \<Rightarrow>
          (case merkleLeafBytes H (le_EntryHash e) of Inl err \<Rightarrow> Some (Inl err) | Inr leaf \<Rightarrow>
           Option.bind (inclusionPathTx H db 0 treeSize (i64 (ledgerIndex - 1)) []) (\<lambda>p. case p of Inl err \<Rightarrow> Some (Inl err) | Inr path \<Rightarrow>
           Option.bind (merkleSubtreeRootTx H db 0 treeSize) (\<lambda>r. Some (bindR r (\<lambda>root.
             Inr \<lparr>mir_LedgerIndex = ledgerIndex, mir_TreeSize = treeSize, mir_LedgerEntryHash = le_EntryHash e,
                  mir_LeafHash = encodeMerkleHash leaf, mir_RootHash = encodeMerkleHash root, mir_AuditPath = path\<rparr>))))))"

definition MerkleConsistencyProof_store ::
  "(bytes \<Rightarrow> bytes) \<Rightarrow> registry_db \<Rightarrow> int \<Rightarrow> int \<Rightarrow> (store_error + MerkleConsistencyRecord) option" where
  "MerkleConsistencyProof_store H db oldTreeSize newTreeSize =
     (let actualSize = merkleTreeSizeTx db; newTreeSize = (if newTreeSize = 0 then actualSize else newTreeSize) in
      if oldTreeSize < 0 \<or> oldTreeSize > newTreeSize \<or> newTreeSize > actualSize then Some (Inl ErrNotFound)
      else Option.bind (if oldTreeSize = 0 then Some (Inr (H [])) else merkleSubtreeRootTx H db 0 oldTreeSize) (\<lambda>o'.
        case o' of Inl e \<Rightarrow> Some (Inl e) | Inr oldRoot \<Rightarrow>
        Option.bind
          (if oldTreeSize \<noteq> newTreeSize
           then Option.bind (merkleSubtreeRootTx H db 0 newTreeSize) (\<lambda>r. case r of Inl e \<Rightarrow> Some (Inl e) | Inr newRoot \<Rightarrow>
             if oldTreeSize > 0
             then Option.bind (consistencyPathTx H db oldTreeSize 0 newTreeSize True []) (\<lambda>p.
               Some (bindR p (\<lambda>path. Inr (newRoot, path))))
             else Some (Inr (newRoot, [])))
           else Some (Inr (oldRoot, []))) (\<lambda>q.
        Some (bindR q (\<lambda>(newRoot, path).
          Inr \<lparr>mcr_OldTreeSize = oldTreeSize, mcr_NewTreeSize = newTreeSize,
               mcr_OldRootHash = encodeMerkleHash oldRoot, mcr_NewRootHash = encodeMerkleHash newRoot,
               mcr_AuditPath = path\<rparr>)))))"

subsection \<open>Appending\<close>

text \<open>The loop \<open>for nodeIndex&1 == 1\<close> of \<open>appendMerkleEntryTx\<close>; the node index is not negative.\<close>

function appendMerkle_loop ::
  "(bytes \<Rightarrow> bytes) \<Rightarrow> registry_db \<Rightarrow> nat \<Rightarrow> nat \<Rightarrow> bytes \<Rightarrow> store_error + registry_db" where
  "appendMerkle_loop H db nodeIndex level current =
     (if odd nodeIndex then
        bindR (completeMerkleSubtreeTx H db (int level) (int nodeIndex - 1)) (\<lambda>left.
        let current = merkleNodeBytes H left current; nodeIndex = nodeIndex div 2; level = level + 1 in
        bindR (insert_merkle_node db (int level) (int nodeIndex) current) (\<lambda>db.
        appendMerkle_loop H db nodeIndex level current))
      else Inr db)"
  by pat_completeness auto
termination
  by (relation "measure (\<lambda>(H, db, i, l, c). i)") (auto elim: oddE)

declare appendMerkle_loop.simps [simp del]

definition appendMerkleEntryTx :: "(bytes \<Rightarrow> bytes) \<Rightarrow> registry_db \<Rightarrow> int \<Rightarrow> string \<Rightarrow> store_error + registry_db" where
  "appendMerkleEntryTx H db ledgerIndex entryHash =
     (if ledgerIndex < 1 then Inl ErrInconsistentState
      else bindR (merkleLeafBytes H entryHash) (\<lambda>current.
        appendMerkle_loop H db (nat (ledgerIndex - 1)) 0 current))"

definition ensureMerkleNodeTx :: "registry_db \<Rightarrow> int \<Rightarrow> int \<Rightarrow> bytes \<Rightarrow> store_error + registry_db" where
  "ensureMerkleNodeTx db level index expected =
     (case map_of (ledger_merkle_nodes db) (level, index) of
        Some persisted \<Rightarrow> if \<not> equalHash persisted expected then Inl ErrInconsistentState else Inr db
      | None \<Rightarrow> insert_merkle_node db level index expected)"

subsection \<open>Backfilling and checking the persisted nodes\<close>

function reconcile_loop ::
  "(bytes \<Rightarrow> bytes) \<Rightarrow> registry_db \<Rightarrow> (nat \<rightharpoonup> bytes) \<Rightarrow> nat \<Rightarrow> nat \<Rightarrow> bytes
    \<Rightarrow> store_error + registry_db \<times> (nat \<rightharpoonup> bytes)" where
  "reconcile_loop H db frontier nodeIndex level current =
     (if odd nodeIndex then
        (case frontier level of
           None \<Rightarrow> Inl ErrInconsistentState
         | Some left \<Rightarrow>
             let current = merkleNodeBytes H left current; frontier = frontier(level := None);
                 nodeIndex = nodeIndex div 2; level = level + 1 in
             bindR (ensureMerkleNodeTx db (int level) (int nodeIndex) current) (\<lambda>db.
             reconcile_loop H db frontier nodeIndex level current))
      else Inr (db, frontier(level \<mapsto> current)))"
  by pat_completeness auto
termination
  by (relation "measure (\<lambda>(H, db, f, i, l, c). i)") (auto elim: oddE)

declare reconcile_loop.simps [simp del]

fun reconcile_entries ::
  "(bytes \<Rightarrow> bytes) \<Rightarrow> registry_db \<Rightarrow> (nat \<rightharpoonup> bytes) \<Rightarrow> nat \<Rightarrow> string list \<Rightarrow> store_error + registry_db" where
  "reconcile_entries H db frontier offset [] = Inr db"
| "reconcile_entries H db frontier offset (entryHash # rest) =
     bindR (merkleLeafBytes H entryHash) (\<lambda>current.
     bindR (reconcile_loop H db frontier offset 0 current) (\<lambda>(db, frontier).
     reconcile_entries H db frontier (Suc offset) rest))"

fun reconcile_hashes :: "int \<Rightarrow> LedgerEntry list \<Rightarrow> store_error + string list" where
  "reconcile_hashes expectedIndex [] = Inr []"
| "reconcile_hashes expectedIndex (e # rest) =
     (if le_LedgerIndex e \<noteq> expectedIndex \<or> \<not> IsDigest (le_EntryHash e) then Inl ErrInconsistentState
      else bindR (reconcile_hashes (i64 (expectedIndex + 1)) rest) (\<lambda>hs. Inr (le_EntryHash e # hs)))"

definition reconcileMerkleTree :: "(bytes \<Rightarrow> bytes) \<Rightarrow> registry_db \<Rightarrow> store_error + registry_db" where
  "reconcileMerkleTree H db =
     (let ledgerCount = length (ledger_entries db); nodeCount = int (length (ledger_merkle_nodes db));
          expectedNodeCount = int ledgerCount - int (OnesCount ledgerCount) in
      if nodeCount = expectedNodeCount then Inr db
      else if nodeCount > expectedNodeCount then Inl ErrInconsistentState
      else bindR (reconcile_hashes 1 (sort_key le_LedgerIndex (ledger_entries db))) (\<lambda>entryHashes.
        reconcile_entries H db Map.empty 0 entryHashes))"

text \<open>The per-level scan \<open>for level, width := 1, treeSize/2; width > 0; level, width = level+1, width/2\<close>.\<close>

fun merkle_levels_ok :: "registry_db \<Rightarrow> nat \<Rightarrow> nat \<Rightarrow> bool" where
  "merkle_levels_ok db level width = (if width = 0 then True else
     let indexes = map (snd \<circ> fst) (filter (\<lambda>n. fst (fst n) = int level) (ledger_merkle_nodes db)) in
      length indexes = width \<and> indexes \<noteq> [] \<and> Max (set indexes) = int width - 1 \<and>
      merkle_levels_ok db (Suc level) (width div 2))"

declare merkle_levels_ok.simps [simp del]

definition VerifyMerkleTree :: "(bytes \<Rightarrow> bytes) \<Rightarrow> registry_db \<Rightarrow> store_error + unit" where
  "VerifyMerkleTree H db =
     (let treeSize = length (ledger_entries db); nodeCount = int (length (ledger_merkle_nodes db));
          expectedTotal = int treeSize - int (OnesCount treeSize) in
      if nodeCount \<noteq> expectedTotal then Inl MerkleVerification
      else if \<not> merkle_levels_ok db 1 (treeSize div 2) then Inl MerkleVerification
      else each (\<lambda>((level, index), h).
        bindR (completeMerkleSubtreeTx H db (i64 (level - 1)) (i64 (index * 2))) (\<lambda>left.
        bindR (completeMerkleSubtreeTx H db (i64 (level - 1)) (i64 (i64 (index * 2) + 1))) (\<lambda>right.
        if \<not> equalHash h (merkleNodeBytes H left right) then Inl MerkleVerification else Inr ())))
        (sort_key fst (ledger_merkle_nodes db)))"

subsection \<open>Hash helpers agree with the protocol\<close>

lemma merkleLeafBytes_encodeDigest [simp]:
  "length d = 32 \<Longrightarrow> merkleLeafBytes H (encodeDigest d) = Inr (leaf_digest H d)"
  using IsDigest_encodeDigest [of d] by (simp add: merkleLeafBytes_def encodeDigest_def leaf_digest_def)

lemma merkleNodeBytes_node_digest:
  assumes "length l = 32" "length r = 32"
  shows "merkleNodeBytes H l r = node_digest H l r"
  using assms by (simp add: merkleNodeBytes_def node_digest_def Let_def)

lemma encodeMerkleHash_eq: "encodeMerkleHash = encodeDigest"
  by (rule ext) (simp add: encodeMerkleHash_def encodeDigest_def)

lemma word8_char_inj: "(word_of_nat (of_char a) :: 8 word) = word_of_nat (of_char b) \<longleftrightarrow> a = b"
proof
  assume "(word_of_nat (of_char a) :: 8 word) = word_of_nat (of_char b)"
  then have "(of_char a :: nat) mod 256 = of_char b mod 256" by (simp add: word_of_nat_eq_iff take_bit_eq_mod)
  then show "a = b" by simp
qed simp

lemma hashDifference_0_iff: "length l = length r \<Longrightarrow> hashDifference l r = 0 \<longleftrightarrow> l = r"
proof (induction l r rule: hashDifference.induct)
  case (1 a l b r)
  have "x XOR y = 0 \<longleftrightarrow> x = y" for x y :: "8 word"
    by (simp add: bit_eq_iff bit_xor_iff)
  then show ?case using 1 by (simp add: or_eq_0_iff word8_char_inj)
qed auto

lemma equalHash_iff [simp]: "equalHash l r \<longleftrightarrow> l = r"
  by (auto simp: equalHash_def hashDifference_0_iff)

lemma and_pred_pow2: "0 < n \<Longrightarrow> and (int n) (int n - 1) = 0 \<longleftrightarrow> (\<exists>k. n = 2 ^ k)"
proof (induction n rule: less_induct)
  case (less n)
  show ?case
  proof (cases "even n")
    case True
    then obtain m where m: "n = 2 * m" by (auto elim: evenE)
    with less.prems have "0 < m" "m < n" by simp_all
    have e: "int n - 1 = 1 + 2 * (int m - 1)" "int n = 2 * int m" using m by simp_all
    have "(1 + 2 * (int m - 1)) div 2 = int m - 1" by simp
    then have "and (int n) (int n - 1) = 2 * and (int m) (int m - 1)"
      unfolding e by (subst and_rec) (simp del: right_diff_distrib')
    moreover have "(\<exists>k. m = 2 ^ k) \<longleftrightarrow> (\<exists>k. n = 2 ^ k)"
    proof
      assume "\<exists>k. n = 2 ^ k"
      then obtain k where k: "n = 2 ^ k" ..
      with m have "k \<noteq> 0" by (cases k) auto
      with k m show "\<exists>k. m = 2 ^ k" by (cases k) auto
    qed (use m in \<open>auto intro: exI [of _ "Suc _"]\<close>)
    ultimately show ?thesis using less.IH [OF \<open>m < n\<close> \<open>0 < m\<close>] by simp
  next
    case False
    then obtain m where m: "n = 2 * m + 1" by (auto elim: oddE)
    have e: "int n - 1 = 2 * int m" "int n = 1 + 2 * int m" using m by simp_all
    have "and (int n) (int n - 1) = 2 * int m"
      unfolding e by (subst and_rec) simp
    moreover have "(\<exists>k. n = 2 ^ k) \<longleftrightarrow> m = 0"
    proof
      assume "\<exists>k. n = 2 ^ k"
      then obtain k where "n = 2 ^ k" ..
      with m show "m = 0" by (cases k) (auto, presburger)
    qed (use m in \<open>auto intro: exI [of _ 0]\<close>)
    ultimately show ?thesis by simp
  qed
qed

lemma TrailingZeros_pow2 [simp]: "TrailingZeros (2 ^ k) = k"
proof (induction k)
  case 0
  show ?case by (subst TrailingZeros.simps) simp
next
  case (Suc k)
  then show ?case by (subst TrailingZeros.simps) simp
qed

subsection \<open>The index invariant\<close>

definition ledger_contiguous :: "registry_db \<Rightarrow> bool" where
  "ledger_contiguous db \<longleftrightarrow>
     map le_LedgerIndex (ledger_entries db) = map (\<lambda>i. int i + 1) [0..<length (ledger_entries db)] \<and>
     list_all (IsDigest \<circ> le_EntryHash) (ledger_entries db)"

definition ledger_leaves :: "registry_db \<Rightarrow> bytes list" where
  "ledger_leaves db = map (digest_bytes \<circ> le_EntryHash) (ledger_entries db)"

text \<open>The leaves under node \<open>i\<close> of level \<open>l\<close>, and the nodes that a tree over \<open>ds\<close> persists: the roots of its
  complete subtrees.\<close>

definition subtree :: "'a list \<Rightarrow> nat \<Rightarrow> nat \<Rightarrow> 'a list" where
  "subtree ds l i = take (2 ^ l) (drop (i * 2 ^ l) ds)"

definition merkle_indexed :: "(bytes \<Rightarrow> bytes) \<Rightarrow> ((int \<times> int) \<times> bytes) list \<Rightarrow> bytes list \<Rightarrow> bool" where
  "merkle_indexed H nodes ds \<longleftrightarrow> distinct (map fst nodes) \<and>
     (\<forall>key h. (key, h) \<in> set nodes \<longleftrightarrow>
       (\<exists>l i. 1 \<le> l \<and> Suc i * 2 ^ l \<le> length ds \<and> key = (int l, int i) \<and> h = mth H (subtree ds l i)))"

lemma length_ledger_leaves [simp]: "length (ledger_leaves db) = length (ledger_entries db)"
  by (simp add: ledger_leaves_def)

lemma ledger_contiguous_nth:
  assumes "ledger_contiguous db" "i < length (ledger_entries db)"
  shows "le_LedgerIndex (ledger_entries db ! i) = int i + 1"
    "le_EntryHash (ledger_entries db ! i) = encodeDigest (ledger_leaves db ! i)"
    "length (ledger_leaves db ! i) = 32"
proof -
  have "map le_LedgerIndex (ledger_entries db) ! i = map (\<lambda>i. int i + 1) [0..<length (ledger_entries db)] ! i"
    using assms(1) by (simp add: ledger_contiguous_def)
  with assms(2) show "le_LedgerIndex (ledger_entries db ! i) = int i + 1" by simp
  have "IsDigest (le_EntryHash (ledger_entries db ! i))"
    using assms by (simp add: ledger_contiguous_def list_all_length)
  then obtain b where "le_EntryHash (ledger_entries db ! i) = encodeDigest b" "length b = 32" by (rule IsDigestE)
  with assms(2) show "le_EntryHash (ledger_entries db ! i) = encodeDigest (ledger_leaves db ! i)"
    "length (ledger_leaves db ! i) = 32" by (simp_all add: ledger_leaves_def)
qed

lemma find_ledger_index:
  assumes "ledger_contiguous db"
  shows "find (\<lambda>e. le_LedgerIndex e = int i + 1) (ledger_entries db) =
    (if i < length (ledger_entries db) then Some (ledger_entries db ! i) else None)"
proof (cases "i < length (ledger_entries db)")
  case True
  then have "find (\<lambda>e. le_LedgerIndex e = int i + 1) (ledger_entries db) = Some (ledger_entries db ! i)"
    unfolding find_Some_iff using ledger_contiguous_nth(1) [OF assms] by (intro exI [of _ i]) auto
  with True show ?thesis by simp
next
  case False
  then have "\<forall>e \<in> set (ledger_entries db). le_LedgerIndex e \<noteq> int i + 1"
    using ledger_contiguous_nth(1) [OF assms] by (auto simp: in_set_conv_nth)
  with False show ?thesis by (simp add: find_None_iff)
qed

lemma subtree_0: "i < length ds \<Longrightarrow> subtree ds 0 i = [ds ! i]"
  by (simp add: subtree_def take_Suc_conv_app_nth)

lemma length_subtree: "Suc i * 2 ^ l \<le> length ds \<Longrightarrow> length (subtree ds l i) = 2 ^ l"
  by (simp add: subtree_def)

lemma subtree_Suc: "subtree ds (Suc l) i = subtree ds l (2 * i) @ subtree ds l (Suc (2 * i))"
proof -
  have "take (2 ^ Suc l) (drop (i * 2 ^ Suc l) ds)
      = take (2 ^ l) (drop (i * 2 ^ Suc l) ds) @ take (2 ^ l) (drop (2 ^ l) (drop (i * 2 ^ Suc l) ds))"
    by (simp add: mult_2 take_add)
  then show ?thesis by (simp add: subtree_def ac_simps)
qed

lemma split_point_pow2 [simp]: "split_point (2 * 2 ^ l) = 2 ^ l"
  by (rule split_point_unique) simp_all

lemma mth_subtree_Suc:
  assumes "Suc i * 2 ^ Suc l \<le> length ds"
  shows "mth H (subtree ds (Suc l) i) = node_digest H (mth H (subtree ds l (2 * i))) (mth H (subtree ds l (Suc (2 * i))))"
proof -
  let ?s = "subtree ds (Suc l) i"
  have len: "length ?s = 2 * 2 ^ l" using length_subtree [OF assms] by simp
  have half: "length (subtree ds l (2 * i)) = 2 ^ l" using assms by (intro length_subtree) simp
  have "mth H ?s = node_digest H (mth H (take (2 ^ l) ?s)) (mth H (drop (2 ^ l) ?s))"
    using mth_split [of ?s H] by (simp add: len)
  moreover have "take (2 ^ l) ?s = subtree ds l (2 * i)" "drop (2 ^ l) ?s = subtree ds l (Suc (2 * i))"
    using half by (simp_all add: subtree_Suc)
  ultimately show ?thesis by simp
qed

lemma merkle_indexed_map_of:
  assumes "merkle_indexed H nodes ds" "1 \<le> l"
  shows "map_of nodes (int l, int i) = (if Suc i * 2 ^ l \<le> length ds then Some (mth H (subtree ds l i)) else None)"
proof -
  have key: "((int l, int i), h) \<in> set nodes \<longleftrightarrow> Suc i * 2 ^ l \<le> length ds \<and> h = mth H (subtree ds l i)" for h
    using assms by (auto simp: merkle_indexed_def)
  have d: "distinct (map fst nodes)" using assms(1) by (simp add: merkle_indexed_def)
  show ?thesis
  proof (cases "Suc i * 2 ^ l \<le> length ds")
    case True
    then show ?thesis using key by (simp add: map_of_eq_Some_iff [OF d])
  next
    case False
    then have "(int l, int i) \<notin> fst ` set nodes" using key by force
    with False show ?thesis by (simp add: map_of_eq_None_iff)
  qed
qed

lemma completeMerkleSubtreeTx_leaf:
  assumes "ledger_contiguous db" "i < length (ledger_entries db)" "length (ledger_entries db) \<le> 2 ^ 62"
  shows "completeMerkleSubtreeTx H db 0 (int i) = Inr (mth H (subtree (ledger_leaves db) 0 i))"
proof -
  have "int i + 1 \<le> 2 ^ 62" using assms(2,3) by simp
  then have "i64 (int i + 1) = int i + 1" by (intro i64_nonneg_id) simp_all
  then show ?thesis using assms(2) ledger_contiguous_nth [OF assms(1,2)]
    by (simp add: completeMerkleSubtreeTx_def find_ledger_index [OF assms(1)] mth.simps subtree_0)
qed

lemma completeMerkleSubtreeTx_node:
  assumes "1 \<le> l" "distinct (map fst (ledger_merkle_nodes db))" "((int l, int i), h) \<in> set (ledger_merkle_nodes db)"
  shows "completeMerkleSubtreeTx H db (int l) (int i) = Inr h"
  using assms by (simp add: completeMerkleSubtreeTx_def result_simps map_of_eq_Some_iff)

lemma completeMerkleSubtreeTx_correct:
  assumes "ledger_contiguous db" "merkle_indexed H (ledger_merkle_nodes db) (ledger_leaves db)"
    and "Suc i * 2 ^ l \<le> length (ledger_entries db)" "length (ledger_entries db) \<le> 2 ^ 62"
  shows "completeMerkleSubtreeTx H db (int l) (int i) = Inr (mth H (subtree (ledger_leaves db) l i))"
proof (cases "l = 0")
  case True
  with assms completeMerkleSubtreeTx_leaf [of db i H] show ?thesis by simp
next
  case False
  with assms show ?thesis by (intro completeMerkleSubtreeTx_node) (auto simp: merkle_indexed_def)
qed

subsection \<open>Roots and paths computed from the index\<close>

definition aligned :: "nat \<Rightarrow> nat \<Rightarrow> bool" where
  "aligned start n \<longleftrightarrow> (\<exists>k. n \<le> 2 ^ k \<and> 2 ^ k dvd start)"

lemma aligned_0 [simp]: "aligned 0 n"
  using less_exp [of n] by (auto simp: aligned_def intro: exI [of _ n])

lemma aligned_split:
  assumes "aligned start n" "2 \<le> n"
  shows "aligned start (split_point n)" "aligned (start + split_point n) (n - split_point n)" "split_point n dvd start"
proof -
  obtain k where k: "n \<le> 2 ^ k" "2 ^ k dvd start" using assms(1) by (auto simp: aligned_def)
  obtain j where j: "split_point n = 2 ^ j" using split_point_power by blast
  have b: "split_point n < n" "n \<le> 2 * split_point n" using split_point_bounds [OF assms(2)] by simp_all
  then have "(2 :: nat) ^ j < 2 ^ k" using k(1) unfolding j by linarith
  then have "j < k" using power_less_imp_less_exp [of "2 :: nat" j k] by simp
  then have d: "2 ^ j dvd start" using k(2) power_le_dvd [of 2 k start j] by simp
  then show "aligned start (split_point n)" "aligned (start + split_point n) (n - split_point n)" "split_point n dvd start"
    using j b by (auto simp: aligned_def intro!: exI [of _ j])
qed

lemma largestMerklePower_split_point:
  "2 \<le> n \<Longrightarrow> n \<le> 2 ^ 62 \<Longrightarrow> largestMerklePower (int n) = Some (int (split_point n))"
  using largestPowerOfTwoLessThan_split_point [of n] by (simp add: largestMerklePower_def largestPowerOfTwoLessThan_def)

text \<open>The leaves of a range, and how a range splits.\<close>

definition range_of :: "'a list \<Rightarrow> nat \<Rightarrow> nat \<Rightarrow> 'a list" where
  "range_of ds start n = take n (drop start ds)"

lemma range_of_split:
  assumes "k \<le> n"
  shows "take k (range_of ds start n) = range_of ds start k" "drop k (range_of ds start n) = range_of ds (start + k) (n - k)"
  using assms by (simp_all add: range_of_def min_def drop_take add.commute)

lemma length_range_of [simp]: "start + n \<le> length ds \<Longrightarrow> length (range_of ds start n) = n"
  by (simp add: range_of_def)

lemma mth_range_split:
  assumes "2 \<le> n" "start + n \<le> length ds"
  shows "mth H (range_of ds start n) = node_digest H (mth H (range_of ds start (split_point n)))
    (mth H (range_of ds (start + split_point n) (n - split_point n)))"
  using mth_split [of "range_of ds start n" H] split_point_less [OF assms(1)] assms
  by (simp add: range_of_split less_imp_le)

context digest32
begin

lemma merkleSubtreeRootTx_correct:
  assumes "ledger_contiguous db" "merkle_indexed Sum256 (ledger_merkle_nodes db) (ledger_leaves db)"
    and "length (ledger_entries db) \<le> 2 ^ 62"
    and "1 \<le> n" "start + n \<le> length (ledger_entries db)" "aligned start n"
  shows "merkleSubtreeRootTx Sum256 db (int start) (int n) = Some (Inr (mth Sum256 (range_of (ledger_leaves db) start n)))"
  using assms(4-)
proof (induction n arbitrary: start rule: less_induct)
  case (less n)
  show ?case
  proof (cases "(\<exists>l. n = 2 ^ l) \<and> n dvd start")
    case True
    then obtain l i where l: "n = 2 ^ l" "start = i * n" by (auto elim!: dvdE simp: mult.commute)
    then have "Suc i * 2 ^ l \<le> length (ledger_entries db)" using less.prems by (simp add: algebra_simps)
    from completeMerkleSubtreeTx_correct [OF assms(1,2) this assms(3)]
    have "completeMerkleSubtreeTx Sum256 db (int l) (int i) = Inr (mth Sum256 (range_of (ledger_leaves db) start n))"
      using l by (simp add: subtree_def range_of_def)
    moreover have "and (int n) (int n - 1) = 0" "int start smod int n = 0" "int start sdiv int n = int i"
      using True l less.prems and_pred_pow2 [of n] by (auto simp: sdiv_smod_nonneg)
    ultimately show ?thesis using l less.prems(1) by (subst merkleSubtreeRootTx.simps) (simp add: nat_power_eq not_less)
  next
    case False
    have n2: "2 \<le> n"
    proof (rule ccontr)
      assume "\<not> 2 \<le> n"
      with less.prems have "n = 2 ^ 0" by simp
      with False show False by (metis One_nat_def one_dvd power_0)
    qed
    let ?k = "split_point n"
    have k: "?k < n" "0 < ?k" using n2 by simp_all
    have cond: "\<not> (and (int n) (int n - 1) = 0 \<and> int start smod int n = 0)"
    proof
      assume a: "and (int n) (int n - 1) = 0 \<and> int start smod int n = 0"
      then have "\<exists>l. n = 2 ^ l" using and_pred_pow2 [of n] less.prems by simp
      moreover have "n dvd start" using a less.prems by (simp add: sdiv_smod_nonneg flip: of_nat_dvd_iff dvd_eq_mod_eq_0)
      ultimately show False using False by blast
    qed
    have split: "largestMerklePower (int n) = Some (int ?k)"
      using n2 less.prems assms(3) by (intro largestMerklePower_split_point) simp_all
    have le: "int start + int n \<le> 2 ^ 62" using less.prems assms(3) by simp
    have sk: "i64 (int start + int ?k) = int (start + ?k)" "i64 (int n - int ?k) = int (n - ?k)"
      using k le by (simp_all add: i64_nonneg_id of_nat_diff)
    have left: "merkleSubtreeRootTx Sum256 db (int start) (int ?k) = Some (Inr (mth Sum256 (range_of (ledger_leaves db) start ?k)))"
      using aligned_split [OF less.prems(3) n2] k less.prems by (intro less.IH) (simp_all add: Suc_le_eq)
    have right: "merkleSubtreeRootTx Sum256 db (int (start + ?k)) (int (n - ?k)) =
        Some (Inr (mth Sum256 (range_of (ledger_leaves db) (start + ?k) (n - ?k))))"
      using aligned_split(2) [OF less.prems(3) n2] k less.prems(2) by (intro less.IH) simp_all
    note node = mth_range_split [OF n2, of start "ledger_leaves db" Sum256, unfolded length_ledger_leaves, OF less.prems(2)]
    show ?thesis
      by (subst merkleSubtreeRootTx.simps, subst if_not_P [OF cond])
        (use less.prems(1) in \<open>simp add: split sk left right node merkleNodeBytes_node_digest del: of_nat_add of_nat_diff\<close>)
  qed
qed

end

lemma mth_path_range:
  assumes "2 \<le> n" "start + n \<le> length ds"
  shows "m < split_point n \<Longrightarrow> mth_path H m (range_of ds start n) =
      mth_path H m (range_of ds start (split_point n)) @ [mth H (range_of ds (start + split_point n) (n - split_point n))]"
    "split_point n \<le> m \<Longrightarrow> mth_path H m (range_of ds start n) =
      mth_path H (m - split_point n) (range_of ds (start + split_point n) (n - split_point n)) @
      [mth H (range_of ds start (split_point n))]"
  using mth_path_simps(2,3) [of "range_of ds start n" m H] split_point_less [OF assms(1)] assms
  by (simp_all add: range_of_split less_imp_le)

lemma mth_consistency_range:
  assumes "2 \<le> n" "start + n \<le> length ds" "m \<noteq> n"
  shows "m \<le> split_point n \<Longrightarrow> mth_consistency H m b (range_of ds start n) =
      mth_consistency H m b (range_of ds start (split_point n)) @ [mth H (range_of ds (start + split_point n) (n - split_point n))]"
    "split_point n < m \<Longrightarrow> mth_consistency H m b (range_of ds start n) =
      mth_consistency H (m - split_point n) False (range_of ds (start + split_point n) (n - split_point n)) @
      [mth H (range_of ds start (split_point n))]"
  using mth_consistency_simps(2,3) [of "range_of ds start n" m H b] split_point_less [OF assms(1)] assms
  by (simp_all add: range_of_split less_imp_le)

context digest32
begin

lemma inclusionPathTx_correct:
  assumes "ledger_contiguous db" "merkle_indexed Sum256 (ledger_merkle_nodes db) (ledger_leaves db)"
    and "length (ledger_entries db) \<le> 2 ^ 62"
    and "start + n \<le> length (ledger_entries db)" "aligned start n" "m < n"
  shows "inclusionPathTx Sum256 db (int start) (int n) (int (start + m)) path =
    Some (Inr (path @ map encodeDigest (mth_path Sum256 m (range_of (ledger_leaves db) start n))))"
  using assms(4-)
proof (induction n arbitrary: start m rule: less_induct)
  case (less n)
  show ?case
  proof (cases "n = 1")
    case True
    with less.prems show ?thesis by (subst inclusionPathTx.simps) (simp add: mth_path_simps)
  next
    case False
    with less.prems have n2: "2 \<le> n" by simp
    let ?k = "split_point n"
    have k: "?k < n" "0 < ?k" using n2 by simp_all
    note al = aligned_split [OF less.prems(2) n2]
    have split: "largestMerklePower (int n) = Some (int ?k)"
      using n2 less.prems assms(3) by (intro largestMerklePower_split_point) simp_all
    have le: "int start + int n \<le> 2 ^ 62" using less.prems assms(3) by simp
    have sk: "i64 (int start + int ?k) = int (start + ?k)" "i64 (int n - int ?k) = int (n - ?k)"
      using k le by (simp_all add: i64_nonneg_id of_nat_diff)
    note root = merkleSubtreeRootTx_correct [OF assms(1-3)]
    show ?thesis
    proof (cases "m < ?k")
      case True
      have "inclusionPathTx Sum256 db (int start) (int ?k) (int (start + m)) path =
          Some (Inr (path @ map encodeDigest (mth_path Sum256 m (range_of (ledger_leaves db) start ?k))))"
        using True k less.prems al by (intro less.IH) simp_all
      moreover have "merkleSubtreeRootTx Sum256 db (int (start + ?k)) (int (n - ?k)) =
          Some (Inr (mth Sum256 (range_of (ledger_leaves db) (start + ?k) (n - ?k))))"
        using k less.prems al by (intro root) simp_all
      ultimately show ?thesis using True False n2 less.prems
        by (subst inclusionPathTx.simps)
          (simp add: split sk mth_path_range encodeMerkleHash_eq del: of_nat_add of_nat_diff)
    next
      case F: False
      have "int (start + m) = int ((start + ?k) + (m - ?k))" using F by simp
      moreover have "inclusionPathTx Sum256 db (int (start + ?k)) (int (n - ?k)) (int ((start + ?k) + (m - ?k))) path =
          Some (Inr (path @ map encodeDigest (mth_path Sum256 (m - ?k) (range_of (ledger_leaves db) (start + ?k) (n - ?k)))))"
        using F k n2 less.prems al by (intro less.IH) simp_all
      moreover have "merkleSubtreeRootTx Sum256 db (int start) (int ?k) = Some (Inr (mth Sum256 (range_of (ledger_leaves db) start ?k)))"
        using k less.prems al by (intro root) (simp_all add: Suc_le_eq)
      ultimately show ?thesis using F False n2 less.prems
        by (subst inclusionPathTx.simps)
          (simp add: split sk mth_path_range encodeMerkleHash_eq del: of_nat_add of_nat_diff)
    qed
  qed
qed

lemma consistencyPathTx_correct:
  assumes "ledger_contiguous db" "merkle_indexed Sum256 (ledger_merkle_nodes db) (ledger_leaves db)"
    and "length (ledger_entries db) \<le> 2 ^ 62"
    and "start + n \<le> length (ledger_entries db)" "aligned start n" "1 \<le> m" "m \<le> n"
  shows "consistencyPathTx Sum256 db (int m) (int start) (int n) b path =
    Some (Inr (path @ map encodeDigest (mth_consistency Sum256 m b (range_of (ledger_leaves db) start n))))"
  using assms(4-)
proof (induction n arbitrary: start m b rule: less_induct)
  case (less n)
  note root = merkleSubtreeRootTx_correct [OF assms(1-3)]
  show ?case
  proof (cases "m = n")
    case True
    have "merkleSubtreeRootTx Sum256 db (int start) (int n) = Some (Inr (mth Sum256 (range_of (ledger_leaves db) start n)))"
      using True less.prems by (intro root) simp_all
    with True less.prems mth_consistency_simps(1) [of Sum256 "range_of (ledger_leaves db) start n" b] show ?thesis
      by (subst consistencyPathTx.simps) (simp add: encodeMerkleHash_eq)
  next
    case False
    with less.prems have n2: "2 \<le> n" by simp
    let ?k = "split_point n"
    have k: "?k < n" "0 < ?k" using n2 by simp_all
    note al = aligned_split [OF less.prems(2) n2]
    have split: "largestMerklePower (int n) = Some (int ?k)"
      using n2 less.prems assms(3) by (intro largestMerklePower_split_point) simp_all
    have le: "int start + int n \<le> 2 ^ 62" using less.prems assms(3) by simp
    have sk: "i64 (int start + int ?k) = int (start + ?k)" "i64 (int n - int ?k) = int (n - ?k)"
      using k le by (simp_all add: i64_nonneg_id of_nat_diff)
    show ?thesis
    proof (cases "m \<le> ?k")
      case True
      have "consistencyPathTx Sum256 db (int m) (int start) (int ?k) b path =
          Some (Inr (path @ map encodeDigest (mth_consistency Sum256 m b (range_of (ledger_leaves db) start ?k))))"
        using True k less.prems al by (intro less.IH) simp_all
      moreover have "merkleSubtreeRootTx Sum256 db (int (start + ?k)) (int (n - ?k)) =
          Some (Inr (mth Sum256 (range_of (ledger_leaves db) (start + ?k) (n - ?k))))"
        using k less.prems al by (intro root) simp_all
      ultimately show ?thesis using True False n2 less.prems
        by (subst consistencyPathTx.simps)
          (simp add: split sk mth_consistency_range encodeMerkleHash_eq del: of_nat_add of_nat_diff)
    next
      case F: False
      have mk: "i64 (int m - int ?k) = int (m - ?k)" using F le less.prems by (simp add: i64_nonneg_id of_nat_diff)
      have "consistencyPathTx Sum256 db (int (m - ?k)) (int (start + ?k)) (int (n - ?k)) False path =
          Some (Inr (path @ map encodeDigest (mth_consistency Sum256 (m - ?k) False (range_of (ledger_leaves db) (start + ?k) (n - ?k)))))"
        using F k n2 less.prems al by (intro less.IH) simp_all
      moreover have "merkleSubtreeRootTx Sum256 db (int start) (int ?k) = Some (Inr (mth Sum256 (range_of (ledger_leaves db) start ?k)))"
        using k less.prems al by (intro root) (simp_all add: Suc_le_eq)
      ultimately show ?thesis using F False n2 less.prems
        by (subst consistencyPathTx.simps)
          (simp add: split sk mk mth_consistency_range encodeMerkleHash_eq del: of_nat_add of_nat_diff)
    qed
  qed
qed

end

context digest32
begin

lemma MerkleInclusionProof_store_correct:
  assumes "ledger_contiguous db" "merkle_indexed Sum256 (ledger_merkle_nodes db) (ledger_leaves db)"
    and "length (ledger_entries db) \<le> 2 ^ 62"
    and "n \<le> length (ledger_entries db)" "m < n"
  shows "MerkleInclusionProof_store Sum256 db (int m + 1) (int n) = Some (Inr
    \<lparr>mir_LedgerIndex = int m + 1, mir_TreeSize = int n, mir_LedgerEntryHash = encodeDigest (ledger_leaves db ! m),
     mir_LeafHash = encodeDigest (leaf_digest Sum256 (ledger_leaves db ! m)),
     mir_RootHash = encodeDigest (mth Sum256 (take n (ledger_leaves db))),
     mir_AuditPath = map encodeDigest (mth_path Sum256 m (take n (ledger_leaves db)))\<rparr>)"
proof -
  have m: "m < length (ledger_entries db)" using assms(4,5) by simp
  have "int m + 1 \<le> 2 ^ 62" using m assms(3) by simp
  then have i: "i64 (int m) = int m" by (intro i64_nonneg_id) simp_all
  have "inclusionPathTx Sum256 db 0 (int n) (int m) [] =
      Some (Inr (map encodeDigest (mth_path Sum256 m (take n (ledger_leaves db)))))"
    using inclusionPathTx_correct [OF assms(1-3), of 0 n m "[]"] assms(4,5) by (simp add: range_of_def)
  moreover have "merkleSubtreeRootTx Sum256 db 0 (int n) = Some (Inr (mth Sum256 (take n (ledger_leaves db))))"
    using merkleSubtreeRootTx_correct [OF assms(1-3), of n 0] assms(4,5) by (simp add: range_of_def)
  ultimately show ?thesis
    using assms(4,5) m i ledger_contiguous_nth [OF assms(1) m]
    by (simp add: MerkleInclusionProof_store_def merkleTreeSizeTx_def find_ledger_index [OF assms(1)] encodeMerkleHash_eq)
qed

lemma MerkleConsistencyProof_store_correct:
  assumes "ledger_contiguous db" "merkle_indexed Sum256 (ledger_merkle_nodes db) (ledger_leaves db)"
    and "length (ledger_entries db) \<le> 2 ^ 62"
    and "n \<le> length (ledger_entries db)" "m \<le> n" "1 \<le> n"
  shows "MerkleConsistencyProof_store Sum256 db (int m) (int n) = Some (Inr
    \<lparr>mcr_OldTreeSize = int m, mcr_NewTreeSize = int n,
     mcr_OldRootHash = encodeDigest (mth Sum256 (take m (ledger_leaves db))),
     mcr_NewRootHash = encodeDigest (mth Sum256 (take n (ledger_leaves db))),
     mcr_AuditPath = (if m = 0 then [] else map encodeDigest (mth_consistency Sum256 m True (take n (ledger_leaves db))))\<rparr>)"
proof -
  have root: "merkleSubtreeRootTx Sum256 db 0 (int k) = Some (Inr (mth Sum256 (take k (ledger_leaves db))))"
    if "1 \<le> k" "k \<le> length (ledger_entries db)" for k
    using merkleSubtreeRootTx_correct [OF assms(1-3), of k 0] that by (simp add: range_of_def)
  have path: "consistencyPathTx Sum256 db (int m) 0 (int n) True [] =
      Some (Inr (map encodeDigest (mth_consistency Sum256 m True (take n (ledger_leaves db)))))" if "1 \<le> m"
    using consistencyPathTx_correct [OF assms(1-3), of 0 n m True "[]"] assms(4,5) that by (simp add: range_of_def)
  consider "m = 0" | "1 \<le> m" "m = n" | "1 \<le> m" "m < n" using assms(5) by linarith
  then show ?thesis
  proof cases
    case 1
    with assms root [of n] show ?thesis
      by (simp add: MerkleConsistencyProof_store_def merkleTreeSizeTx_def encodeMerkleHash_eq mth.simps)
  next
    case 2
    moreover have "mth_consistency Sum256 n True (take n (ledger_leaves db)) = []"
      using mth_consistency_simps(1) [of Sum256 "take n (ledger_leaves db)" True] assms(4) by simp
    ultimately show ?thesis using assms root [of n]
      by (simp add: MerkleConsistencyProof_store_def merkleTreeSizeTx_def encodeMerkleHash_eq Let_def)
  next
    case 3
    with assms root [of n] root [of m] path show ?thesis
      by (simp add: MerkleConsistencyProof_store_def merkleTreeSizeTx_def encodeMerkleHash_eq)
  qed
qed

end

subsection \<open>Appending keeps the index\<close>

text \<open>The state in the middle of an append: the nodes of the tree over \<open>ds\<close> that end before its last leaf, and
  those that end there up to level \<open>m\<close>.\<close>

definition merkle_indexed_upto :: "(bytes \<Rightarrow> bytes) \<Rightarrow> ((int \<times> int) \<times> bytes) list \<Rightarrow> bytes list \<Rightarrow> nat \<Rightarrow> bool" where
  "merkle_indexed_upto H nodes ds m \<longleftrightarrow> distinct (map fst nodes) \<and>
     (\<forall>key h. (key, h) \<in> set nodes \<longleftrightarrow>
       (\<exists>l i. 1 \<le> l \<and> Suc i * 2 ^ l \<le> length ds \<and> (Suc i * 2 ^ l = length ds \<longrightarrow> l \<le> m) \<and>
         key = (int l, int i) \<and> h = mth H (subtree ds l i)))"

lemma subtree_prefix: "Suc i * 2 ^ l \<le> n \<Longrightarrow> subtree (take n ds) l i = subtree ds l i"
  by (simp add: subtree_def take_drop min_def add.commute)

lemma merkle_indexed_upto_0:
  assumes "length ds = Suc n"
  shows "merkle_indexed_upto H nodes ds 0 \<longleftrightarrow> merkle_indexed H nodes (take n ds)"
proof -
  have "(\<exists>l i. 1 \<le> l \<and> Suc i * 2 ^ l \<le> length ds \<and> (Suc i * 2 ^ l = length ds \<longrightarrow> l \<le> 0) \<and>
          key = (int l, int i) \<and> h = mth H (subtree ds l i)) \<longleftrightarrow>
        (\<exists>l i. 1 \<le> l \<and> Suc i * 2 ^ l \<le> length (take n ds) \<and> key = (int l, int i) \<and> h = mth H (subtree (take n ds) l i))"
    for key h
  proof -
    have "1 \<le> l \<and> Suc i * 2 ^ l \<le> length ds \<and> (Suc i * 2 ^ l = length ds \<longrightarrow> l \<le> 0) \<longleftrightarrow>
        1 \<le> l \<and> Suc i * 2 ^ l \<le> length (take n ds)" for l i :: nat
      using assms by (auto simp: le_Suc_eq)
    moreover have "subtree ds l i = subtree (take n ds) l i" if "Suc i * 2 ^ l \<le> length (take n ds)" for l i
      using that assms by (subst subtree_prefix) simp_all
    ultimately show ?thesis by (metis (no_types, opaque_lifting))
  qed
  then show ?thesis by (simp add: merkle_indexed_upto_def merkle_indexed_def)
qed

lemma merkle_indexed_upto_final:
  assumes "merkle_indexed_upto H nodes ds m" "\<not> 2 ^ Suc m dvd length ds"
  shows "merkle_indexed H nodes ds"
proof -
  have "l \<le> m" if "Suc i * 2 ^ l = length ds" for l i
  proof (rule ccontr)
    assume "\<not> l \<le> m"
    then have "(2 :: nat) ^ Suc m dvd 2 ^ l" by (intro le_imp_power_dvd) simp
    then have "2 ^ Suc m dvd length ds" using that by (metis dvd_mult)
    with assms(2) show False by blast
  qed
  then show ?thesis using assms(1) unfolding merkle_indexed_upto_def merkle_indexed_def by blast
qed

lemma merkle_indexed_uptoD:
  assumes "merkle_indexed_upto H nodes ds m"
  shows "distinct (map fst nodes)"
    "1 \<le> l \<Longrightarrow> Suc i * 2 ^ l < length ds \<Longrightarrow> ((int l, int i), mth H (subtree ds l i)) \<in> set nodes"
proof -
  show "distinct (map fst nodes)" using assms by (simp add: merkle_indexed_upto_def)
  have mem: "\<And>key h. (key, h) \<in> set nodes \<longleftrightarrow> (\<exists>l i. 1 \<le> l \<and> Suc i * 2 ^ l \<le> length ds \<and>
      (Suc i * 2 ^ l = length ds \<longrightarrow> l \<le> m) \<and> key = (int l, int i) \<and> h = mth H (subtree ds l i))"
    using assms unfolding merkle_indexed_upto_def by blast
  show "((int l, int i), mth H (subtree ds l i)) \<in> set nodes" if "1 \<le> l" "Suc i * 2 ^ l < length ds"
    unfolding mem using that by (auto intro!: exI [of _ l] exI [of _ i] simp del: mult_Suc)
qed

lemma merkle_indexed_upto_insert:
  assumes "merkle_indexed_upto H nodes ds l" "Suc k * 2 ^ Suc l = length ds"
  shows "(int (Suc l), int k) \<notin> fst ` set nodes"
    "merkle_indexed_upto H (nodes @ [((int (Suc l), int k), mth H (subtree ds (Suc l) k))]) ds (Suc l)"
proof -
  have mem: "(key, h) \<in> set nodes \<longleftrightarrow> (\<exists>l' i. 1 \<le> l' \<and> Suc i * 2 ^ l' \<le> length ds \<and>
      (Suc i * 2 ^ l' = length ds \<longrightarrow> l' \<le> l) \<and> key = (int l', int i) \<and> h = mth H (subtree ds l' i))" for key h
    using assms(1) unfolding merkle_indexed_upto_def by blast
  show new: "(int (Suc l), int k) \<notin> fst ` set nodes"
  proof
    assume "(int (Suc l), int k) \<in> fst ` set nodes"
    then obtain h where "((int (Suc l), int k), h) \<in> set nodes" by force
    then obtain l' i where "Suc i * 2 ^ l' = length ds \<longrightarrow> l' \<le> l" "(int (Suc l), int k) = (int l', int i)"
      unfolding mem by blast
    then have "Suc k * 2 ^ Suc l = length ds \<longrightarrow> Suc l \<le> l" by (simp del: of_nat_Suc)
    with assms(2) show False by simp
  qed
  have k: "i = k" if "Suc i * 2 ^ Suc l = length ds" for i
    using that unfolding assms(2) [symmetric] by simp
  have "(\<exists>l' i. 1 \<le> l' \<and> Suc i * 2 ^ l' \<le> length ds \<and> (Suc i * 2 ^ l' = length ds \<longrightarrow> l' \<le> Suc l) \<and>
      key = (int l', int i) \<and> h = mth H (subtree ds l' i)) \<longleftrightarrow>
    (key, h) \<in> set nodes \<or> key = (int (Suc l), int k) \<and> h = mth H (subtree ds (Suc l) k)" (is "?L \<longleftrightarrow> ?R") for key h
  proof
    assume ?L
    then obtain l' i where i: "1 \<le> l'" "Suc i * 2 ^ l' \<le> length ds" "Suc i * 2 ^ l' = length ds \<longrightarrow> l' \<le> Suc l"
        "key = (int l', int i)" "h = mth H (subtree ds l' i)" by blast
    show ?R
    proof (cases "Suc i * 2 ^ l' = length ds \<and> l' = Suc l")
      case True
      then have "i = k" using k by blast
      with True i show ?thesis by simp
    next
      case False
      with i show ?thesis unfolding mem by (metis le_Suc_eq)
    qed
  next
    assume ?R
    then show ?L
    proof
      assume "(key, h) \<in> set nodes"
      then show ?L unfolding mem using le_SucI by blast
    next
      assume "key = (int (Suc l), int k) \<and> h = mth H (subtree ds (Suc l) k)"
      then show ?L using assms(2) by (metis One_nat_def Suc_le_mono le0 order.refl)
    qed
  qed
  with new assms(1) show "merkle_indexed_upto H (nodes @ [((int (Suc l), int k), mth H (subtree ds (Suc l) k))]) ds (Suc l)"
    unfolding merkle_indexed_upto_def by (simp add: image_iff) blast
qed

context digest32
begin

lemma appendMerkle_loop_correct:
  assumes "ledger_contiguous db" "length (ledger_entries db) \<le> 2 ^ 62"
    and "Suc j * 2 ^ l = length (ledger_entries db)"
    and "merkle_indexed_upto Sum256 (ledger_merkle_nodes db) (ledger_leaves db) l"
  shows "\<exists>nodes. appendMerkle_loop Sum256 db j l (mth Sum256 (subtree (ledger_leaves db) l j)) = Inr (db\<lparr>ledger_merkle_nodes := nodes\<rparr>) \<and>
    merkle_indexed Sum256 nodes (ledger_leaves db)"
  using assms
proof (induction j arbitrary: db l rule: less_induct)
  case (less j)
  let ?ds = "ledger_leaves db"
  show ?case
  proof (cases "odd j")
    case False
    have "\<not> 2 ^ Suc l dvd length ?ds"
    proof
      assume "2 ^ Suc l dvd length ?ds"
      then have "2 * 2 ^ l dvd Suc j * 2 ^ l" using less.prems(3) by simp
      then have "2 dvd Suc j" by (metis dvd_times_right_cancel_iff power_not_zero zero_neq_numeral)
      with False show False by simp
    qed
    with less.prems(4) have "merkle_indexed Sum256 (ledger_merkle_nodes db) ?ds" by (rule merkle_indexed_upto_final)
    with False show ?thesis by (subst appendMerkle_loop.simps) (auto intro!: exI [of _ "ledger_merkle_nodes db"])
  next
    case True
    then obtain k where j: "j = 2 * k + 1" by (rule oddE)
    have kk: "Suc k * 2 ^ Suc l = length ?ds" using less.prems(3) j by simp
    have "completeMerkleSubtreeTx Sum256 db (int l) (int (2 * k)) = Inr (mth Sum256 (subtree ?ds l (2 * k)))"
    proof (cases "l = 0")
      case True
      with less.prems j completeMerkleSubtreeTx_leaf [of db "2 * k" Sum256] show ?thesis by simp
    next
      case False
      have "Suc (2 * k) * 2 ^ l < Suc j * 2 ^ l" using j by simp
      then have "Suc (2 * k) * 2 ^ l < length ?ds" using less.prems(3) by (simp only: length_ledger_leaves)
      then show ?thesis using False
        by (intro completeMerkleSubtreeTx_node merkle_indexed_uptoD [OF less.prems(4)]) simp_all
    qed
    moreover have idx: "int j - 1 = int (2 * k)" "j div 2 = k" using j by simp_all
    moreover have "merkleNodeBytes Sum256 (mth Sum256 (subtree ?ds l (2 * k))) (mth Sum256 (subtree ?ds l j)) = mth Sum256 (subtree ?ds (Suc l) k)"
      using mth_subtree_Suc [of k l ?ds Sum256] kk j by (simp add: merkleNodeBytes_node_digest)
    moreover have "(2 :: nat) ^ Suc l \<le> 2 ^ 62" using kk less.prems(2) by (simp add: trans_le_add1 le_trans)
    then have "Suc l \<le> 62" by (rule power_le_imp_le_exp [of "2 :: nat", rotated]) simp
    moreover note ins = merkle_indexed_upto_insert [OF less.prems(4) kk]
    ultimately have step: "appendMerkle_loop Sum256 db j l (mth Sum256 (subtree ?ds l j)) =
        appendMerkle_loop Sum256 (db\<lparr>ledger_merkle_nodes := ledger_merkle_nodes db @ [((int (Suc l), int k), mth Sum256 (subtree ?ds (Suc l) k))]\<rparr>)
          k (Suc l) (mth Sum256 (subtree ?ds (Suc l) k))"
      using True by (subst appendMerkle_loop.simps) (simp add: insert_merkle_node_def Let_def del: of_nat_Suc)
    define db' where "db' = db\<lparr>ledger_merkle_nodes := ledger_merkle_nodes db @ [((int (Suc l), int k), mth Sum256 (subtree ?ds (Suc l) k))]\<rparr>"
    have same: "ledger_entries db' = ledger_entries db" "ledger_leaves db' = ?ds" "ledger_contiguous db'"
      using less.prems(1) by (simp_all add: db'_def ledger_leaves_def ledger_contiguous_def)
    have "\<exists>nodes. appendMerkle_loop Sum256 db' k (Suc l) (mth Sum256 (subtree (ledger_leaves db') (Suc l) k)) =
        Inr (db'\<lparr>ledger_merkle_nodes := nodes\<rparr>) \<and> merkle_indexed Sum256 nodes (ledger_leaves db')"
      using j kk ins(2) less.prems(2) same by (intro less.IH) (simp_all add: db'_def)
    with step same show ?thesis by (simp add: db'_def)
  qed
qed

lemma appendMerkleEntryTx_correct:
  assumes "ledger_contiguous db" "length (ledger_entries db) \<le> 2 ^ 62" "length (ledger_entries db) = Suc n"
    and "merkle_indexed Sum256 (ledger_merkle_nodes db) (take n (ledger_leaves db))"
    and "e = ledger_entries db ! n"
  shows "\<exists>nodes. appendMerkleEntryTx Sum256 db (le_LedgerIndex e) (le_EntryHash e) = Inr (db\<lparr>ledger_merkle_nodes := nodes\<rparr>) \<and>
    merkle_indexed Sum256 nodes (ledger_leaves db)"
proof -
  have n: "n < length (ledger_entries db)" using assms(3) by simp
  note e = ledger_contiguous_nth [OF assms(1) n]
  have "merkle_indexed_upto Sum256 (ledger_merkle_nodes db) (ledger_leaves db) 0"
    using assms(3,4) merkle_indexed_upto_0 [of "ledger_leaves db" n] by simp
  from appendMerkle_loop_correct [OF assms(1,2) _ this, of n] assms(3) n e show ?thesis
    by (simp add: appendMerkleEntryTx_def assms(5) subtree_0 mth.simps)
qed

end

subsection \<open>The checker accepts exactly the right index\<close>

text \<open>What the primary key and the checks of the table guarantee of its rows.\<close>

definition merkle_rows_ok :: "((int \<times> int) \<times> bytes) list \<Rightarrow> bool" where
  "merkle_rows_ok nodes \<longleftrightarrow> distinct (map fst nodes) \<and>
     list_all (\<lambda>((l, i), h). 1 \<le> l \<and> l \<le> 62 \<and> 0 \<le> i \<and> length h = 32) nodes"

definition level_indexes :: "((int \<times> int) \<times> bytes) list \<Rightarrow> nat \<Rightarrow> int list" where
  "level_indexes nodes l = map (snd \<circ> fst) (filter (\<lambda>n. fst (fst n) = int l) nodes)"

lemma set_level_indexes: "set (level_indexes nodes l) = {i. (int l, i) \<in> fst ` set nodes}"
  by (force simp: level_indexes_def)

lemma distinct_level_indexes: "distinct (map fst nodes) \<Longrightarrow> distinct (level_indexes nodes l)"
  by (induction nodes) (auto simp: level_indexes_def image_iff)

lemma length_nodes_levels:
  "\<forall>n \<in> set nodes. 1 \<le> fst (fst n) \<and> fst (fst n) \<le> 62 \<Longrightarrow>
    length nodes = (\<Sum>l \<in> {1..62}. length (level_indexes nodes l))"
proof (induction nodes)
  case (Cons n nodes)
  let ?k = "nat (fst (fst n))"
  have k: "?k \<in> {1..62}" "int ?k = fst (fst n)" using Cons.prems by auto
  have "length (level_indexes (n # nodes) l) = length (level_indexes nodes l) + (if l = ?k then 1 else 0)" for l
    using k by (auto simp: level_indexes_def)
  then have "(\<Sum>l \<in> {1..62}. length (level_indexes (n # nodes) l)) = (\<Sum>l \<in> {1..62}. length (level_indexes nodes l)) + 1"
    using k(1) by (simp add: sum.distrib del: atLeastAtMost_iff)
  with Cons show ?case by simp
qed (simp add: level_indexes_def)

lemma sum_widths: "n < 2 ^ Suc m \<Longrightarrow> (\<Sum>l = 1..m. n div 2 ^ l) + OnesCount n = n"
proof (induction m arbitrary: n)
  case 0
  then have "n = 0 \<or> n = 1" by auto
  then show ?case by (auto simp: OnesCount.simps [of 0] OnesCount.simps [of 1] OnesCount.simps [of "Suc 0"])
next
  case (Suc m)
  let ?q = "n div 2"
  have "(\<Sum>l = 1..Suc m. n div 2 ^ l) = ?q + (\<Sum>l = 2..Suc m. n div 2 ^ l)"
    by (subst sum.atLeast_Suc_atMost) (simp_all add: numeral_2_eq_2)
  also have "(\<Sum>l = 2..Suc m. n div 2 ^ l) = (\<Sum>l = 1..m. ?q div 2 ^ l)"
  proof -
    have "{2..Suc m} = {Suc 1..Suc m}" by simp
    then show ?thesis by (simp only: sum.atLeast_Suc_atMost_Suc_shift) (simp add: comp_def div_mult2_eq)
  qed
  finally have "(\<Sum>l = 1..Suc m. n div 2 ^ l) + OnesCount ?q = ?q + ?q" using Suc.IH [of ?q] Suc.prems by simp
  moreover have "OnesCount n = n mod 2 + OnesCount ?q" by (cases "n = 0") (simp_all add: OnesCount.simps [of n] OnesCount.simps [of 0])
  ultimately show ?case by presburger
qed

lemma interval_of_count_max:
  fixes xs :: "int list"
  assumes "distinct xs" "\<forall>x \<in> set xs. 0 \<le> x" "0 < w"
  shows "length xs = w \<and> xs \<noteq> [] \<and> Max (set xs) = int w - 1 \<longleftrightarrow> set xs = {0..<int w}"
proof
  assume a: "length xs = w \<and> xs \<noteq> [] \<and> Max (set xs) = int w - 1"
  then have "set xs \<subseteq> {0..<int w}" using assms(2) Max_ge [of "set xs"] by force
  moreover have "card (set xs) = card {0..<int w}" using a assms(1) by (simp add: distinct_card)
  ultimately show "set xs = {0..<int w}" by (intro card_subset_eq) simp_all
next
  assume a: "set xs = {0..<int w}"
  then have "length xs = w" using distinct_card [OF assms(1)] by simp
  moreover have "Max {0..<int w} = int w - 1" using assms(3) by (intro Max_eqI) auto
  ultimately show "length xs = w \<and> xs \<noteq> [] \<and> Max (set xs) = int w - 1" using a assms(3) by auto
qed

lemma merkle_levels_ok_iff:
  assumes "merkle_rows_ok (ledger_merkle_nodes db)"
  shows "merkle_levels_ok db l w \<longleftrightarrow>
    (\<forall>k. 0 < w div 2 ^ k \<longrightarrow> set (level_indexes (ledger_merkle_nodes db) (l + k)) = {0..<int (w div 2 ^ k)})"
proof (induction w arbitrary: l rule: less_induct)
  case (less w)
  let ?ix = "level_indexes (ledger_merkle_nodes db)"
  have d: "distinct (?ix l)" using assms by (simp add: merkle_rows_ok_def distinct_level_indexes)
  have nn: "\<forall>x \<in> set (?ix l). 0 \<le> x"
    using assms by (auto simp: merkle_rows_ok_def list_all_iff set_level_indexes)
  show ?case
  proof (cases "w = 0")
    case True
    then show ?thesis by (subst merkle_levels_ok.simps) simp
  next
    case False
    have "merkle_levels_ok db l w \<longleftrightarrow> set (?ix l) = {0..<int w} \<and> merkle_levels_ok db (Suc l) (w div 2)"
      using False interval_of_count_max [OF d nn, of w]
      by (subst merkle_levels_ok.simps) (auto simp: level_indexes_def Let_def)
    also have "merkle_levels_ok db (Suc l) (w div 2) \<longleftrightarrow>
        (\<forall>k. 0 < w div 2 ^ Suc k \<longrightarrow> set (?ix (l + Suc k)) = {0..<int (w div 2 ^ Suc k)})"
      using less.IH [of "w div 2" "Suc l"] False by (simp add: div_mult2_eq)
    also have "set (?ix l) = {0..<int w} \<and> \<dots> \<longleftrightarrow>
        (\<forall>k. 0 < w div 2 ^ k \<longrightarrow> set (?ix (l + k)) = {0..<int (w div 2 ^ k)})" (is "?A \<longleftrightarrow> (\<forall>k. ?B k)")
    proof
      assume ?A
      show "\<forall>k. ?B k"
      proof
        fix k
        show "?B k" using \<open>?A\<close> by (cases k) auto
      qed
    next
      assume b: "\<forall>k. ?B k"
      from spec [OF b, of 0] spec [OF b, of "Suc _"] False show ?A by simp
    qed
    finally show ?thesis .
  qed
qed

lemma merkle_node_range: "Suc i * 2 ^ l \<le> n \<longleftrightarrow> i < n div 2 ^ l" for i l n :: nat
  by (metis Suc_le_eq less_eq_div_iff_mult_less_eq zero_less_numeral zero_less_power)

text \<open>The count and the per-level scan together hold exactly when the keys are those of the complete subtrees.\<close>

lemma merkle_keys_iff:
  assumes "merkle_rows_ok (ledger_merkle_nodes db)" "n < 2 ^ 63"
  shows "int (length (ledger_merkle_nodes db)) = int n - int (OnesCount n) \<and> merkle_levels_ok db 1 (n div 2) \<longleftrightarrow>
    fst ` set (ledger_merkle_nodes db) = {(int l, int i) | l i. 1 \<le> l \<and> Suc i * 2 ^ l \<le> n}"
    (is "?L \<longleftrightarrow> fst ` set ?nodes = ?K")
proof -
  let ?ix = "level_indexes ?nodes"
  have rows: "1 \<le> fst k \<and> fst k \<le> 62 \<and> 0 \<le> snd k" if "k \<in> fst ` set ?nodes" for k
    using assms(1) that by (auto simp: merkle_rows_ok_def list_all_iff)
  have total: "length ?nodes = (\<Sum>l \<in> {1..62}. length (?ix l))"
    by (rule length_nodes_levels) (use rows in auto)
  have len: "length (?ix l) = card (set (?ix l))" for l
    using assms(1) by (simp add: merkle_rows_ok_def distinct_level_indexes distinct_card)
  have widths: "(\<Sum>l = 1..62. n div 2 ^ l) + OnesCount n = n" using assms(2) by (intro sum_widths) simp
  have keys: "fst ` set ?nodes = ?K \<longleftrightarrow> (\<forall>l \<in> {1..62}. set (?ix l) = {0..<int (n div 2 ^ l)})"
  proof
    assume k: "fst ` set ?nodes = ?K"
    show "\<forall>l \<in> {1..62}. set (?ix l) = {0..<int (n div 2 ^ l)}"
    proof
      fix l :: nat
      assume "l \<in> {1..62}"
      then show "set (?ix l) = {0..<int (n div 2 ^ l)}"
        unfolding set_level_indexes k merkle_node_range
        by (auto simp del: of_nat_div) (metis nat_eq_iff2 of_nat_less_iff)
    qed
  next
    assume a: "\<forall>l \<in> {1..62}. set (?ix l) = {0..<int (n div 2 ^ l)}"
    show "fst ` set ?nodes = ?K"
    proof (intro set_eqI iffI)
      fix k assume k: "k \<in> fst ` set ?nodes"
      define l i where "l = nat (fst k)" and "i = nat (snd k)"
      have k': "k = (int l, int i)" "1 \<le> l" "l \<le> 62" using rows [OF k] by (auto simp: l_def i_def prod_eq_iff)
      then have "int i \<in> set (?ix l)" using k by (simp add: set_level_indexes)
      with a k' have "i < n div 2 ^ l" by (simp del: of_nat_div)
      with k' show "k \<in> ?K" unfolding merkle_node_range by blast
    next
      fix k assume "k \<in> ?K"
      then obtain l i where k: "k = (int l, int i)" "1 \<le> l" "i < n div 2 ^ l" unfolding merkle_node_range by blast
      have "(2 :: nat) ^ l \<le> n" using k(3) by (metis div_less gr_zeroI less_nat_zero_code not_le)
      then have "(2 :: nat) ^ l < 2 ^ 63" using assms(2) by simp
      then have "l < 63" by (rule power_less_imp_less_exp [rotated]) simp
      with k have "l \<in> {1..62}" by simp
      with a have "{i. (int l, i) \<in> fst ` set ?nodes} = {0..<int (n div 2 ^ l)}" unfolding set_level_indexes by blast
      moreover have "int i \<in> {0..<int (n div 2 ^ l)}" using k(3) by (simp del: of_nat_div)
      ultimately show "k \<in> fst ` set ?nodes" unfolding k(1) by blast
    qed
  qed
  have levels: "merkle_levels_ok db 1 (n div 2) \<longleftrightarrow>
      (\<forall>l \<ge> 1. 0 < n div 2 ^ l \<longrightarrow> set (?ix l) = {0..<int (n div 2 ^ l)})"
  proof -
    have "merkle_levels_ok db 1 (n div 2) \<longleftrightarrow> (\<forall>k. 0 < n div 2 ^ Suc k \<longrightarrow> set (?ix (Suc k)) = {0..<int (n div 2 ^ Suc k)})"
      using merkle_levels_ok_iff [OF assms(1), of 1 "n div 2"] by (simp add: div_mult2_eq)
    then show ?thesis by (metis One_nat_def Suc_le_D Suc_le_mono le0)
  qed
  show ?thesis
  proof
    assume ?L
    then have sums: "(\<Sum>l \<in> {1..62}. length (?ix l)) = (\<Sum>l = 1..62. n div 2 ^ l)"
      using total widths by linarith
    have lv: "\<forall>l \<ge> 1. 0 < n div 2 ^ l \<longrightarrow> set (?ix l) = {0..<int (n div 2 ^ l)}"
      using \<open>?L\<close> unfolding levels by blast
    have le: "n div 2 ^ l \<le> length (?ix l)" if "l \<in> {1..62}" for l
      using lv that len [of l] by (cases "0 < n div 2 ^ l") (simp_all del: of_nat_div)
    have len': "length (?ix l) = n div 2 ^ l" if "l \<in> {1..62}" for l
      using sum_mono_inv [OF sums [symmetric]] le that by simp
    have "set (?ix l) = {0..<int (n div 2 ^ l)}" if "l \<in> {1..62}" for l
      using lv that len' [OF that] by (cases "0 < n div 2 ^ l") (simp_all del: of_nat_div)
    then show "fst ` set ?nodes = ?K" unfolding keys by blast
  next
    assume "fst ` set ?nodes = ?K"
    then have a: "\<forall>l \<in> {1..62}. set (?ix l) = {0..<int (n div 2 ^ l)}" unfolding keys .
    then have "length ?nodes = (\<Sum>l = 1..62. n div 2 ^ l)" unfolding total len by (simp del: of_nat_div)
    moreover have "set (?ix l) = {0..<int (n div 2 ^ l)}" if "1 \<le> l" "0 < n div 2 ^ l" for l
    proof -
      have "(2 :: nat) ^ l \<le> n" using that(2) by (metis div_less less_irrefl not_le)
      then have "(2 :: nat) ^ l < 2 ^ 63" using assms(2) by simp
      then have "l < 63" by (rule power_less_imp_less_exp [rotated]) simp
      with a that show ?thesis by simp
    qed
    ultimately show ?L using widths levels by (intro conjI) (linarith, blast)
  qed
qed


context digest32
begin

lemma VerifyMerkleTree_iff_indexed:
  assumes "ledger_contiguous db" "length (ledger_entries db) \<le> 2 ^ 62" "merkle_rows_ok (ledger_merkle_nodes db)"
  shows "VerifyMerkleTree Sum256 db = Inr () \<longleftrightarrow> merkle_indexed Sum256 (ledger_merkle_nodes db) (ledger_leaves db)"
proof -
  let ?nodes = "ledger_merkle_nodes db" and ?n = "length (ledger_entries db)" and ?ds = "ledger_leaves db"
  let ?ok = "\<lambda>((level, index), h).
        bindR (completeMerkleSubtreeTx Sum256 db (i64 (level - 1)) (i64 (index * 2))) (\<lambda>left.
        bindR (completeMerkleSubtreeTx Sum256 db (i64 (level - 1)) (i64 (i64 (index * 2) + 1))) (\<lambda>right.
        if \<not> equalHash h (merkleNodeBytes Sum256 left right) then Inl MerkleVerification else Inr ()))"
  have n63: "?n < 2 ^ 63" using assms(2) by simp
  have distinct: "distinct (map fst ?nodes)" using assms(3) by (simp add: merkle_rows_ok_def)
  have verify: "VerifyMerkleTree Sum256 db = Inr () \<longleftrightarrow>
      fst ` set ?nodes = {(int l, int i) | l i. 1 \<le> l \<and> Suc i * 2 ^ l \<le> ?n} \<and> (\<forall>x \<in> set ?nodes. ?ok x = Inr ())"
    unfolding merkle_keys_iff [OF assms(3) n63, symmetric]
    by (auto simp: VerifyMerkleTree_def Let_def each_eq_Inr_iff)
  have indices: "i64 (int l - 1) = int (l - 1)" "i64 (int i * 2) = int (2 * i)" "i64 (int (2 * i) + 1) = int (Suc (2 * i))"
    if "1 \<le> l" "Suc i * 2 ^ l \<le> ?n" for l i
  proof -
    have "(2 :: nat) ^ l \<le> 2 ^ 62" using that(2) assms(2) by (simp add: le_trans [OF le_add1])
    then have "l \<le> 62" by (rule power_le_imp_le_exp [of "2 :: nat", rotated]) simp
    have "Suc i * 2 \<le> Suc i * 2 ^ l" using that(1) by (intro mult_le_mono) (simp_all add: self_le_power)
    then have "Suc i * 2 \<le> 2 ^ 62" using that(2) assms(2) by linarith
    then have "int (Suc i * 2) \<le> 2 ^ 62" by simp
    with \<open>l \<le> 62\<close> that(1) show "i64 (int l - 1) = int (l - 1)" "i64 (int i * 2) = int (2 * i)"
      "i64 (int (2 * i) + 1) = int (Suc (2 * i))" by (simp_all add: i64_nonneg_id of_nat_diff)
  qed
  have half: "Suc (2 * i) * 2 ^ k \<le> ?n" "Suc (Suc (2 * i)) * 2 ^ k \<le> ?n" if "Suc i * 2 ^ Suc k \<le> ?n" for i k
    using that by (simp_all add: algebra_simps)
  have node: "?ok ((int (Suc k), int i), h) = Inr () \<longleftrightarrow> h = mth Sum256 (subtree ?ds (Suc k) i)"
    if comp: "completeMerkleSubtreeTx Sum256 db (int k) (int (2 * i)) = Inr (mth Sum256 (subtree ?ds k (2 * i)))"
        "completeMerkleSubtreeTx Sum256 db (int k) (int (Suc (2 * i))) = Inr (mth Sum256 (subtree ?ds k (Suc (2 * i))))"
      and range: "Suc i * 2 ^ Suc k \<le> ?n" for k i h
  proof -
    have "?ok ((int (Suc k), int i), h) = Inr () \<longleftrightarrow>
        h = merkleNodeBytes Sum256 (mth Sum256 (subtree ?ds k (2 * i))) (mth Sum256 (subtree ?ds k (Suc (2 * i))))"
      using indices [OF _ range] comp by (simp del: of_nat_Suc of_nat_mult)
    moreover have "Suc i * 2 ^ Suc k \<le> length ?ds" using range by simp
    ultimately show ?thesis by (simp only: merkleNodeBytes_node_digest [OF length_mth length_mth] mth_subtree_Suc)
  qed
  show ?thesis
  proof
    assume ix: "merkle_indexed Sum256 ?nodes ?ds"
    then have mem: "\<And>key h. (key, h) \<in> set ?nodes \<longleftrightarrow> (\<exists>l i. 1 \<le> l \<and> Suc i * 2 ^ l \<le> ?n \<and>
        key = (int l, int i) \<and> h = mth Sum256 (subtree ?ds l i))"
      unfolding merkle_indexed_def length_ledger_leaves by blast
    have "fst ` set ?nodes = {(int l, int i) | l i. 1 \<le> l \<and> Suc i * 2 ^ l \<le> ?n}"
    proof (intro set_eqI iffI)
      fix k assume "k \<in> fst ` set ?nodes"
      then show "k \<in> {(int l, int i) | l i. 1 \<le> l \<and> Suc i * 2 ^ l \<le> ?n}" using mem by (auto simp del: mult_Suc)
    next
      fix k assume "k \<in> {(int l, int i) | l i. 1 \<le> l \<and> Suc i * 2 ^ l \<le> ?n}"
      then obtain l i where "k = (int l, int i)" "1 \<le> l" "Suc i * 2 ^ l \<le> ?n" by blast
      then have "(k, mth Sum256 (subtree ?ds l i)) \<in> set ?nodes" unfolding mem by blast
      then show "k \<in> fst ` set ?nodes" by force
    qed
    moreover have "?ok x = Inr ()" if x: "x \<in> set ?nodes" for x
    proof -
      obtain key h where "x = (key, h)" by (cases x)
      with x mem obtain l i where l: "1 \<le> l" "Suc i * 2 ^ l \<le> ?n" "x = ((int l, int i), mth Sum256 (subtree ?ds l i))" by blast
      then obtain k where k: "l = Suc k" by (cases l) auto
      note comp = completeMerkleSubtreeTx_correct [OF assms(1) ix _ assms(2)]
      show ?thesis unfolding l(3) k
        using half [of i k] l(2) comp by (subst node) (simp_all add: k del: mult_Suc of_nat_Suc of_nat_mult power_Suc)
    qed
    ultimately show "VerifyMerkleTree Sum256 db = Inr ()" unfolding verify by blast
  next
    assume "VerifyMerkleTree Sum256 db = Inr ()"
    then have keys: "fst ` set ?nodes = {(int l, int i) | l i. 1 \<le> l \<and> Suc i * 2 ^ l \<le> ?n}"
      and ok: "\<And>x. x \<in> set ?nodes \<Longrightarrow> ?ok x = Inr ()" unfolding verify by blast+
    have present: "\<exists>h. ((int l, int i), h) \<in> set ?nodes" if "1 \<le> l" "Suc i * 2 ^ l \<le> ?n" for l i
    proof -
      have "(int l, int i) \<in> fst ` set ?nodes" unfolding keys using that by blast
      then show ?thesis by force
    qed
    have hash: "\<forall>i h. Suc i * 2 ^ Suc k \<le> ?n \<longrightarrow> ((int (Suc k), int i), h) \<in> set ?nodes \<longrightarrow> h = mth Sum256 (subtree ?ds (Suc k) i)" for k
    proof (induction k)
      case 0
      have "completeMerkleSubtreeTx Sum256 db (int 0) (int j) = Inr (mth Sum256 (subtree ?ds 0 j))" if "Suc j * 2 ^ 0 \<le> ?n" for j
        using completeMerkleSubtreeTx_leaf [OF assms(1) _ assms(2), of j Sum256] that by simp
      then show ?case using ok node [of 0] half [of _ 0] by blast
    next
      case (Suc k)
      have "completeMerkleSubtreeTx Sum256 db (int (Suc k)) (int j) = Inr (mth Sum256 (subtree ?ds (Suc k) j))"
        if "Suc j * 2 ^ Suc k \<le> ?n" for j
      proof -
        have "1 \<le> Suc k" by simp
        from present [OF this that] obtain h where h: "((int (Suc k), int j), h) \<in> set ?nodes" by blast
        with Suc that have "h = mth Sum256 (subtree ?ds (Suc k) j)" by blast
        with h show ?thesis by (intro completeMerkleSubtreeTx_node [OF _ distinct]) simp_all
      qed
      then show ?case using ok node [of "Suc k"] half [of _ "Suc k"] by blast
    qed
    show "merkle_indexed Sum256 ?nodes ?ds"
      unfolding merkle_indexed_def length_ledger_leaves
    proof (intro conjI distinct allI iffI)
      fix key h assume m: "(key, h) \<in> set ?nodes"
      then have "key \<in> fst ` set ?nodes" by force
      then obtain l i where l: "key = (int l, int i)" "1 \<le> l" "Suc i * 2 ^ l \<le> ?n" unfolding keys by blast
      then obtain k where "l = Suc k" by (cases l) auto
      with hash [of k] m l show "\<exists>l i. 1 \<le> l \<and> Suc i * 2 ^ l \<le> ?n \<and> key = (int l, int i) \<and> h = mth Sum256 (subtree ?ds l i)"
        by blast
    next
      fix key h assume "\<exists>l i. 1 \<le> l \<and> Suc i * 2 ^ l \<le> ?n \<and> key = (int l, int i) \<and> h = mth Sum256 (subtree ?ds l i)"
      then obtain l i where l: "1 \<le> l" "Suc i * 2 ^ l \<le> ?n" "key = (int l, int i)" "h = mth Sum256 (subtree ?ds l i)" by blast
      from present [OF l(1,2)] obtain h' where h': "((int l, int i), h') \<in> set ?nodes" by blast
      obtain k where "l = Suc k" using l(1) by (cases l) auto
      with hash [of k] h' l(2) have "h' = mth Sum256 (subtree ?ds l i)" by blast
      with h' l show "(key, h) \<in> set ?nodes" by simp
    qed
  qed
qed

end

subsection \<open>Backfilling completes the index\<close>

text \<open>Rows that belong to the tree over \<open>ds\<close>, and which of its rows are present so far.\<close>

definition merkle_right :: "(bytes \<Rightarrow> bytes) \<Rightarrow> ((int \<times> int) \<times> bytes) list \<Rightarrow> bytes list \<Rightarrow> bool" where
  "merkle_right H nodes ds \<longleftrightarrow> distinct (map fst nodes) \<and>
     (\<forall>(key, h) \<in> set nodes. \<exists>l i. 1 \<le> l \<and> Suc i * 2 ^ l \<le> length ds \<and> key = (int l, int i) \<and> h = mth H (subtree ds l i))"

definition merkle_covers :: "((int \<times> int) \<times> bytes) list \<Rightarrow> nat \<Rightarrow> nat \<Rightarrow> bool" where
  "merkle_covers nodes k m \<longleftrightarrow> (\<forall>l i. 1 \<le> l \<longrightarrow> Suc i * 2 ^ l \<le> Suc k \<longrightarrow> (Suc i * 2 ^ l = Suc k \<longrightarrow> l \<le> m) \<longrightarrow>
     (int l, int i) \<in> fst ` set nodes)"

lemma merkle_indexed_right: "merkle_indexed H nodes ds \<Longrightarrow> merkle_right H nodes ds"
  unfolding merkle_indexed_def merkle_right_def by blast

lemma merkle_right_covers_indexed:
  assumes "merkle_right H nodes ds" "\<And>l i. 1 \<le> l \<Longrightarrow> Suc i * 2 ^ l \<le> length ds \<Longrightarrow> (int l, int i) \<in> fst ` set nodes"
  shows "merkle_indexed H nodes ds"
  unfolding merkle_indexed_def
proof (intro conjI allI iffI)
  show "distinct (map fst nodes)" using assms(1) by (simp add: merkle_right_def)
next
  fix key h assume "(key, h) \<in> set nodes"
  then show "\<exists>l i. 1 \<le> l \<and> Suc i * 2 ^ l \<le> length ds \<and> key = (int l, int i) \<and> h = mth H (subtree ds l i)"
    using assms(1) unfolding merkle_right_def by blast
next
  fix key h assume "\<exists>l i. 1 \<le> l \<and> Suc i * 2 ^ l \<le> length ds \<and> key = (int l, int i) \<and> h = mth H (subtree ds l i)"
  then obtain l i where l: "1 \<le> l" "Suc i * 2 ^ l \<le> length ds" "key = (int l, int i)" "h = mth H (subtree ds l i)" by blast
  from assms(2) [OF l(1,2)] obtain h' where h': "((int l, int i), h') \<in> set nodes" by force
  then obtain l' i' where "(int l, int i) = (int l', int i')" "h' = mth H (subtree ds l' i')"
    using assms(1) unfolding merkle_right_def by blast
  with h' l show "(key, h) \<in> set nodes" by simp
qed

lemma ensureMerkleNodeTx_right:
  assumes "merkle_right H (ledger_merkle_nodes db) ds" "1 \<le> l" "Suc i * 2 ^ l \<le> length ds" "l \<le> 62"
    and "length (mth H (subtree ds l i)) = 32"
  shows "\<exists>nodes. ensureMerkleNodeTx db (int l) (int i) (mth H (subtree ds l i)) = Inr (db\<lparr>ledger_merkle_nodes := nodes\<rparr>) \<and>
    merkle_right H nodes ds \<and> fst ` set nodes = insert (int l, int i) (fst ` set (ledger_merkle_nodes db))"
proof (cases "map_of (ledger_merkle_nodes db) (int l, int i)")
  case None
  then have new: "(int l, int i) \<notin> fst ` set (ledger_merkle_nodes db)" by (simp add: map_of_eq_None_iff)
  have "merkle_right H (ledger_merkle_nodes db @ [((int l, int i), mth H (subtree ds l i))]) ds"
    using assms(1-3) new unfolding merkle_right_def by (auto simp del: mult_Suc)
  with None new assms(2,4,5) show ?thesis
    by (intro exI [of _ "ledger_merkle_nodes db @ [((int l, int i), mth H (subtree ds l i))]"])
      (simp add: ensureMerkleNodeTx_def insert_merkle_node_def)
next
  case (Some h)
  then have m: "((int l, int i), h) \<in> set (ledger_merkle_nodes db)" by (rule map_of_SomeD)
  then obtain l' i' where "(int l, int i) = (int l', int i')" "h = mth H (subtree ds l' i')"
    using assms(1) unfolding merkle_right_def by blast
  then have "h = mth H (subtree ds l i)" by simp
  moreover have "insert (int l, int i) (fst ` set (ledger_merkle_nodes db)) = fst ` set (ledger_merkle_nodes db)"
    using m by force
  ultimately show ?thesis using Some assms(1)
    by (intro exI [of _ "ledger_merkle_nodes db"]) (simp add: ensureMerkleNodeTx_def)
qed

text \<open>The frontier after \<open>k\<close> leaves, from level \<open>l\<close> up: the roots of the complete subtrees that still wait for
  their right sibling, one per set bit of \<open>k\<close>.\<close>

definition frontier_ok :: "(bytes \<Rightarrow> bytes) \<Rightarrow> bytes list \<Rightarrow> nat \<Rightarrow> nat \<Rightarrow> (nat \<rightharpoonup> bytes) \<Rightarrow> bool" where
  "frontier_ok H ds k l f \<longleftrightarrow>
     (\<forall>l'. f l' = (if l \<le> l' \<and> odd (k div 2 ^ l') then Some (mth H (subtree ds l' (k div 2 ^ l' - 1))) else None))"

lemma div_pow_carry:
  assumes "Suc j * 2 ^ l = Suc k"
  shows "k div 2 ^ l = j" "Suc k div 2 ^ l = Suc j"
    "even j \<Longrightarrow> l < l' \<Longrightarrow> Suc k div 2 ^ l' = k div 2 ^ l'" "l' < l \<Longrightarrow> even (Suc k div 2 ^ l')"
proof -
  show b: "Suc k div 2 ^ l = Suc j" using assms by (metis nonzero_mult_div_cancel_right power_not_zero zero_neq_numeral)
  have k: "k = j * 2 ^ l + (2 ^ l - 1)" using assms by simp
  have "k < 2 ^ l * Suc j" using assms by (simp only: mult.commute)
  moreover have "2 ^ l * j \<le> k" unfolding k by (subst mult.commute) (rule le_add1)
  ultimately show a: "k div 2 ^ l = j" by (intro div_nat_eqI) simp_all
  show "Suc k div 2 ^ l' = k div 2 ^ l'" if "even j" "l < l'"
  proof -
    from that(2) obtain d where d: "l' = l + Suc d" by (auto dest: less_imp_Suc_add)
    have "Suc j div 2 = j div 2" using that(1) by simp
    moreover have "x div 2 ^ l' = x div 2 ^ l div 2 div 2 ^ d" for x :: nat
      by (simp only: d power_add power_Suc div_mult2_eq)
    ultimately show ?thesis using a b by simp
  qed
  show "even (Suc k div 2 ^ l')" if "l' < l"
  proof -
    from that obtain d where d: "l = l' + Suc d" by (auto dest: less_imp_Suc_add)
    have "Suc k = (Suc j * 2 ^ d * 2) * 2 ^ l'" using assms by (simp add: d power_add algebra_simps)
    then have "Suc k div 2 ^ l' = Suc j * 2 ^ d * 2" by (metis nonzero_mult_div_cancel_right power_not_zero zero_neq_numeral)
    then show ?thesis by simp
  qed
qed


lemma merkle_covers_step:
  assumes "merkle_covers nodes k l" "Suc i * 2 ^ Suc l = Suc k" "fst ` set nodes' = insert (int (Suc l), int i) (fst ` set nodes)"
  shows "merkle_covers nodes' k (Suc l)"
  unfolding merkle_covers_def
proof (intro allI impI)
  fix l' i' assume a: "1 \<le> l'" "Suc i' * 2 ^ l' \<le> Suc k" "Suc i' * 2 ^ l' = Suc k \<longrightarrow> l' \<le> Suc l"
  show "(int l', int i') \<in> fst ` set nodes'"
  proof (cases "Suc i' * 2 ^ l' = Suc k \<and> l' = Suc l")
    case True
    then have "Suc i' * 2 ^ Suc l = Suc i * 2 ^ Suc l" using assms(2) by (metis (no_types))
    then have "i' = i" by simp
    with True assms(3) show ?thesis by simp
  next
    case False
    with a assms(1) have "(int l', int i') \<in> fst ` set nodes" unfolding merkle_covers_def by (metis le_SucE)
    with assms(3) show ?thesis by simp
  qed
qed

context digest32
begin

lemma reconcile_loop_correct:
  assumes "Suc j * 2 ^ l = Suc k" "Suc k \<le> length ds" "length ds \<le> 2 ^ 62"
    and "merkle_right Sum256 (ledger_merkle_nodes db) ds" "merkle_covers (ledger_merkle_nodes db) k l" "frontier_ok Sum256 ds k l f"
  shows "\<exists>nodes f'. reconcile_loop Sum256 db f j l (mth Sum256 (subtree ds l j)) = Inr (db\<lparr>ledger_merkle_nodes := nodes\<rparr>, f') \<and>
    merkle_right Sum256 nodes ds \<and> (\<forall>l i. 1 \<le> l \<longrightarrow> Suc i * 2 ^ l \<le> Suc k \<longrightarrow> (int l, int i) \<in> fst ` set nodes) \<and>
    frontier_ok Sum256 ds (Suc k) 0 f'"
  using assms(1,4-6)
proof (induction j arbitrary: db l f rule: less_induct)
  case (less j)
  note carry = div_pow_carry [OF less.prems(1)]
  show ?case
  proof (cases "odd j")
    case False
    have "frontier_ok Sum256 ds (Suc k) 0 (f(l \<mapsto> mth Sum256 (subtree ds l j)))"
      unfolding frontier_ok_def
    proof
      fix l'
      consider "l' < l" | "l' = l" | "l < l'" by linarith
      then show "(f(l \<mapsto> mth Sum256 (subtree ds l j))) l' = (if 0 \<le> l' \<and> odd (Suc k div 2 ^ l')
          then Some (mth Sum256 (subtree ds l' (Suc k div 2 ^ l' - 1))) else None)"
        using less.prems(4) False carry by cases (simp_all add: frontier_ok_def)
    qed
    moreover have "l' \<le> l" if "Suc i * 2 ^ l' = Suc k" for l' i
    proof (rule ccontr)
      assume "\<not> l' \<le> l"
      then have "(2 :: nat) ^ Suc l dvd 2 ^ l'" by (intro le_imp_power_dvd) simp
      then have "2 * 2 ^ l dvd Suc j * 2 ^ l" using that less.prems(1) by (metis dvd_mult power_Suc)
      then have "2 dvd Suc j" by (metis dvd_times_right_cancel_iff power_not_zero zero_neq_numeral)
      with False show False by simp
    qed
    then have "\<forall>l i. 1 \<le> l \<longrightarrow> Suc i * 2 ^ l \<le> Suc k \<longrightarrow> (int l, int i) \<in> fst ` set (ledger_merkle_nodes db)"
      using less.prems(3) unfolding merkle_covers_def by blast
    ultimately show ?thesis using False less.prems(2)
      by (subst reconcile_loop.simps) (auto intro!: exI [of _ "ledger_merkle_nodes db"])
  next
    case True
    then obtain i where i: "j = 2 * i + 1" by (rule oddE)
    have up: "Suc i * 2 ^ Suc l = Suc k" using less.prems(1) i by simp
    then have "Suc i * 2 ^ Suc l \<le> length ds" using assms(2) by simp
    have "f l = Some (mth Sum256 (subtree ds l (2 * i)))" using less.prems(4) carry(1) i by (simp add: frontier_ok_def)
    moreover have hash: "merkleNodeBytes Sum256 (mth Sum256 (subtree ds l (2 * i))) (mth Sum256 (subtree ds l j)) = mth Sum256 (subtree ds (Suc l) i)"
      using mth_subtree_Suc [OF \<open>Suc i * 2 ^ Suc l \<le> length ds\<close>, of Sum256] i by (simp add: merkleNodeBytes_node_digest)
    moreover have "(2 :: nat) ^ Suc l \<le> 2 ^ 62" using \<open>Suc i * 2 ^ Suc l \<le> length ds\<close> assms(3) by (simp add: trans_le_add1 le_trans)
    then have "Suc l \<le> 62" by (rule power_le_imp_le_exp [of "2 :: nat", rotated]) simp
    then obtain nodes where nodes: "ensureMerkleNodeTx db (int (Suc l)) (int i) (mth Sum256 (subtree ds (Suc l) i)) = Inr (db\<lparr>ledger_merkle_nodes := nodes\<rparr>)"
        "merkle_right Sum256 nodes ds" "fst ` set nodes = insert (int (Suc l), int i) (fst ` set (ledger_merkle_nodes db))"
      using ensureMerkleNodeTx_right [OF less.prems(2) _ \<open>Suc i * 2 ^ Suc l \<le> length ds\<close>] by auto
    moreover have "j div 2 = i" using i by simp
    ultimately have step: "reconcile_loop Sum256 db f j l (mth Sum256 (subtree ds l j)) =
        reconcile_loop Sum256 (db\<lparr>ledger_merkle_nodes := nodes\<rparr>) (f(l := None)) i (Suc l) (mth Sum256 (subtree ds (Suc l) i))"
      using True by (subst reconcile_loop.simps) (simp add: Let_def del: of_nat_Suc)
    have "frontier_ok Sum256 ds k (Suc l) (f(l := None))"
      using less.prems(4) by (auto simp: frontier_ok_def Suc_le_eq)
    moreover have "merkle_covers nodes k (Suc l)" using less.prems(3) up nodes(3) by (rule merkle_covers_step)
    moreover have "i < j" using i by simp
    ultimately show ?thesis
      using less.IH [of i "Suc l" "db\<lparr>ledger_merkle_nodes := nodes\<rparr>" "f(l := None)"] up nodes(2)
      unfolding step by (simp del: mult_Suc power_Suc fun_upd_apply)
  qed
qed

lemma reconcile_entries_correct:
  assumes "k + length hs = length ds" "length ds \<le> 2 ^ 62" "\<forall>d \<in> set ds. length d = 32"
    and "hs = map encodeDigest (drop k ds)" "merkle_right Sum256 (ledger_merkle_nodes db) ds"
    and "\<forall>l i. 1 \<le> l \<longrightarrow> Suc i * 2 ^ l \<le> k \<longrightarrow> (int l, int i) \<in> fst ` set (ledger_merkle_nodes db)"
    and "frontier_ok Sum256 ds k 0 f"
  shows "\<exists>nodes. reconcile_entries Sum256 db f k hs = Inr (db\<lparr>ledger_merkle_nodes := nodes\<rparr>) \<and> merkle_indexed Sum256 nodes ds"
  using assms(1,4-)
proof (induction hs arbitrary: k db f)
  case Nil
  then have "merkle_indexed Sum256 (ledger_merkle_nodes db) ds" by (intro merkle_right_covers_indexed) simp_all
  then show ?case by (intro exI [of _ "ledger_merkle_nodes db"]) simp
next
  case (Cons h hs)
  then have k: "k < length ds" using Cons.prems(1) by (metis add_diff_cancel_left' length_Cons less_add_same_cancel1 zero_less_Suc)
  then have h: "h = encodeDigest (ds ! k)" "hs = map encodeDigest (drop (Suc k) ds)" "length (ds ! k) = 32"
    using Cons.prems(2) assms(3) by (simp_all add: Cons_nth_drop_Suc [symmetric])
  have cov: "merkle_covers (ledger_merkle_nodes db) k 0"
    unfolding merkle_covers_def using Cons.prems(4) by (auto simp: le_Suc_eq simp del: mult_Suc)
  from reconcile_loop_correct [OF _ _ assms(2) Cons.prems(3) cov Cons.prems(5), of k] k
  obtain nodes f' where r: "reconcile_loop Sum256 db f k 0 (mth Sum256 (subtree ds 0 k)) = Inr (db\<lparr>ledger_merkle_nodes := nodes\<rparr>, f')"
    "merkle_right Sum256 nodes ds" "\<forall>l i. 1 \<le> l \<longrightarrow> Suc i * 2 ^ l \<le> Suc k \<longrightarrow> (int l, int i) \<in> fst ` set nodes"
    "frontier_ok Sum256 ds (Suc k) 0 f'" by auto
  then have "\<exists>nodes'. reconcile_entries Sum256 (db\<lparr>ledger_merkle_nodes := nodes\<rparr>) f' (Suc k) hs =
      Inr (db\<lparr>ledger_merkle_nodes := nodes, ledger_merkle_nodes := nodes'\<rparr>) \<and> merkle_indexed Sum256 nodes' ds"
    using Cons.prems(1) h(2) by (intro Cons.IH) (simp_all del: mult_Suc)
  with r(1) h k show ?case by (simp add: subtree_0 mth.simps)
qed

end


lemma ledger_contiguous_sort:
  assumes "ledger_contiguous db"
  shows "sort_key le_LedgerIndex (ledger_entries db) = ledger_entries db"
proof -
  have "sorted (map le_LedgerIndex (ledger_entries db))"
    using assms by (simp add: ledger_contiguous_def sorted_wrt_map sorted_iff_nth_mono)
  then show ?thesis by (simp add: sort_key_id_if_sorted)
qed

lemma reconcile_hashes_contiguous:
  assumes "map le_LedgerIndex es = map (\<lambda>i. int i + 1) [k..<k + length es]" "list_all (IsDigest \<circ> le_EntryHash) es"
    and "k + length es \<le> 2 ^ 62"
  shows "reconcile_hashes (int k + 1) es = Inr (map le_EntryHash es)"
  using assms
proof (induction es arbitrary: k)
  case (Cons e es)
  have u: "[k..<k + length (e # es)] = k # [Suc k..<Suc k + length es]" by (simp add: upt_rec)
  from Cons.prems(1) have e: "le_LedgerIndex e = int k + 1"
    and es: "map le_LedgerIndex es = map (\<lambda>i. int i + 1) [Suc k..<Suc k + length es]" unfolding u by simp_all
  have "int k + 1 \<le> 2 ^ 62" using Cons.prems(3) by simp
  then have "i64 (int k + 1 + 1) = int (Suc k) + 1" by (subst i64_nonneg_id) simp_all
  with Cons.IH [OF es] Cons.prems e show ?case by simp
qed simp

context digest32
begin

lemma reconcileMerkleTree_correct:
  assumes "ledger_contiguous db" "length (ledger_entries db) \<le> 2 ^ 62" "merkle_rows_ok (ledger_merkle_nodes db)"
    and "merkle_right Sum256 (ledger_merkle_nodes db) (ledger_leaves db)"
  shows "\<exists>nodes. reconcileMerkleTree Sum256 db = Inr (db\<lparr>ledger_merkle_nodes := nodes\<rparr>) \<and>
    merkle_indexed Sum256 nodes (ledger_leaves db)"
proof -
  let ?n = "length (ledger_entries db)" and ?nodes = "ledger_merkle_nodes db" and ?ds = "ledger_leaves db"
  let ?K = "{(int l, int i) | l i. 1 \<le> l \<and> Suc i * 2 ^ l \<le> ?n}"
  have leaves: "\<forall>d \<in> set ?ds. length d = 32"
    using ledger_contiguous_nth(3) [OF assms(1)] by (auto simp: in_set_conv_nth)
  have map: "map le_EntryHash (ledger_entries db) = map encodeDigest ?ds"
    using ledger_contiguous_nth(2) [OF assms(1)] by (auto intro: nth_equalityI)
  have hashes: "reconcile_hashes 1 (sort_key le_LedgerIndex (ledger_entries db)) = Inr (map encodeDigest ?ds)"
    using reconcile_hashes_contiguous [of "ledger_entries db" 0] assms(1,2)
    by (simp add: ledger_contiguous_sort map) (simp add: ledger_contiguous_def)
  have entries: "\<exists>nodes. reconcile_entries Sum256 db Map.empty 0 (map encodeDigest ?ds) = Inr (db\<lparr>ledger_merkle_nodes := nodes\<rparr>) \<and>
      merkle_indexed Sum256 nodes ?ds"
    using assms(2,4) leaves by (intro reconcile_entries_correct) (simp_all add: frontier_ok_def)
  have sub: "fst ` set ?nodes \<subseteq> ?K" using assms(4) unfolding merkle_right_def by (auto simp del: mult_Suc)
  have card: "card (fst ` set ?nodes) = length ?nodes"
    using assms(4) by (metis distinct_card length_map list.set_map merkle_right_def)
  obtain ns where ns: "merkle_indexed Sum256 ns ?ds" using entries by blast
  have nsK: "fst ` set ns = ?K"
  proof (intro set_eqI iffI)
    fix k assume "k \<in> ?K"
    then obtain l i where "1 \<le> l" "Suc i * 2 ^ l \<le> ?n" "k = (int l, int i)" by blast
    with ns have "(k, mth Sum256 (subtree ?ds l i)) \<in> set ns" unfolding merkle_indexed_def length_ledger_leaves by blast
    then show "k \<in> fst ` set ns" by force
  qed (use ns in \<open>auto simp: merkle_indexed_def simp del: mult_Suc\<close>)
  have fin: "finite ?K" unfolding nsK [symmetric] by simp
  have cardK: "int (card ?K) = int ?n - int (OnesCount ?n)"
  proof -
    have l62: "l \<le> 62" if "Suc i * 2 ^ l \<le> ?n" for l i
    proof -
      have "(2 :: nat) ^ l \<le> 2 ^ 62" using that assms(2) by (simp add: le_trans [OF le_add1])
      then show ?thesis by (rule power_le_imp_le_exp [of "2 :: nat", rotated]) simp
    qed
    have "merkle_rows_ok ns"
      unfolding merkle_rows_ok_def list_all_iff
      using ns l62 by (auto simp: merkle_indexed_def simp del: mult_Suc)
    then have "int (length (ledger_merkle_nodes (db\<lparr>ledger_merkle_nodes := ns\<rparr>))) = int ?n - int (OnesCount ?n)"
      using merkle_keys_iff [of "db\<lparr>ledger_merkle_nodes := ns\<rparr>" ?n] nsK assms(2) by simp
    moreover have "card (fst ` set ns) = length ns"
      using ns by (metis distinct_card length_map list.set_map merkle_indexed_def)
    ultimately show ?thesis unfolding nsK by simp
  qed
  have "length ?nodes \<le> card ?K" using card_mono [OF fin sub] card by simp
  then consider "int (length ?nodes) = int ?n - int (OnesCount ?n)" "fst ` set ?nodes = ?K"
    | "int (length ?nodes) < int ?n - int (OnesCount ?n)"
    using card_subset_eq [OF fin sub] card cardK by linarith
  then show ?thesis
  proof cases
    case 1
    have "merkle_indexed Sum256 ?nodes ?ds"
      using assms(4) 1(2) by (intro merkle_right_covers_indexed) auto
    with 1 show ?thesis by (intro exI [of _ ?nodes]) (simp add: reconcileMerkleTree_def Let_def)
  next
    case 2
    with entries hashes show ?thesis by (simp add: reconcileMerkleTree_def Let_def)
  qed
qed

end

subsection \<open>Properties\<close>

lemma merkle_indexed_rows_ok:
  assumes "digest32 H" "merkle_indexed H nodes ds" "length ds \<le> 2 ^ 62"
  shows "merkle_rows_ok nodes"
proof -
  have l62: "l \<le> 62" if "Suc i * 2 ^ l \<le> length ds" for l i
  proof -
    have "(2 :: nat) ^ l \<le> 2 ^ 62" using that assms(3) by (simp add: le_trans [OF le_add1])
    then show ?thesis by (rule power_le_imp_le_exp [of "2 :: nat", rotated]) simp
  qed
  then show ?thesis unfolding merkle_rows_ok_def list_all_iff
    using assms(2) digest32.length_mth [OF assms(1)] by (auto simp: merkle_indexed_def simp del: mult_Suc)
qed

lemma ledger_contiguous_prefix:
  assumes "ledger_contiguous db" "ledger_entries db = ledger_entries db0 @ [e]"
  shows "ledger_contiguous db0" "ledger_leaves db0 = take (length (ledger_entries db0)) (ledger_leaves db)"
  using assms by (simp_all add: ledger_contiguous_def ledger_leaves_def)

text \<open>C33. \<open>VerifyMerkleTree\<close> is exact: on a contiguous ledger it accepts the node table precisely when the
  rows are the Merkle tree hashes of all complete aligned subtrees, at their level and index, and nothing
  else.\<close>

theorem VerifyMerkleTree_iff:
  assumes "digest32 H" "ledger_contiguous db" "length (ledger_entries db) \<le> 2 ^ 62" "merkle_rows_ok (ledger_merkle_nodes db)"
  shows "VerifyMerkleTree H db = Inr () \<longleftrightarrow> merkle_indexed H (ledger_merkle_nodes db) (ledger_leaves db)"
  using digest32.VerifyMerkleTree_iff_indexed [OF assms] .

definition sample_entry :: "nat \<Rightarrow> char \<Rightarrow> LedgerEntry" where
  "sample_entry i c = \<lparr>le_ProtocolVersion = ''1'', le_RegistryScope = ''demo'', le_LedgerIndex = int i + 1,
     le_EntryType = ''INSTALLATION_TEST_BATCH_ACCEPTED'', le_DeploymentID = ''d'', le_BatchID = [c], le_Kind = ''installation-test'',
     le_Period = ''2026-01'', le_RulesetVersion = ''installation-test-v1'', le_QualifiedMAUCount = 0, le_BatchHash = ''h'',
     le_PreviousEntryHash = ''p'', le_EntryHash = encodeDigest (replicate 32 c), le_AcceptedAt = ''2026-01-01T00:00:00Z''\<rparr>"

definition sample_ledger :: "string \<Rightarrow> registry_db" where
  "sample_ledger cs = empty_db\<lparr>ledger_entries := map (\<lambda>(i, c). sample_entry i c) (enumerate 0 cs)\<rparr>"

definition sample_ledger2 :: registry_db where
  "sample_ledger2 = (sample_ledger ''ab'')\<lparr>ledger_merkle_nodes :=
     [((1, 0), mth pad_hash [replicate 32 (CHR ''a''), replicate 32 (CHR ''b'')])]\<rparr>"

lemma sample_ledger_contiguous: "ledger_contiguous sample_ledger2" "ledger_contiguous (sample_ledger2\<lparr>ledger_entries := ledger_entries sample_ledger2 @ [sample_entry 2 (CHR ''c'')]\<rparr>)"
  by (simp_all add: sample_ledger2_def sample_ledger_def ledger_contiguous_def sample_entry_def upt_rec)

lemma sample_ledger2_verified: "VerifyMerkleTree pad_hash sample_ledger2 = Inr ()"
  by code_simp

lemma sample_ledger2_rows: "merkle_rows_ok (ledger_merkle_nodes sample_ledger2)"
  by (simp add: merkle_rows_ok_def sample_ledger2_def digest32.length_mth)

lemma sample_ledger2_size: "length (ledger_entries sample_ledger2) = 2"
  by (simp add: sample_ledger2_def sample_ledger_def)

theorem VerifyMerkleTree_iff_witness:
  "merkle_indexed pad_hash (ledger_merkle_nodes sample_ledger2) (ledger_leaves sample_ledger2)"
  using VerifyMerkleTree_iff [OF digest32_pad_hash sample_ledger_contiguous(1) _ sample_ledger2_rows]
    sample_ledger2_verified sample_ledger2_size by simp

lemma appendMerkleEntryTx_verified:
  assumes "digest32 H" "ledger_contiguous db'" "ledger_entries db' = ledger_entries db @ [e]"
    and "ledger_merkle_nodes db' = ledger_merkle_nodes db" "length (ledger_entries db') \<le> 2 ^ 62"
    and "merkle_rows_ok (ledger_merkle_nodes db)" "VerifyMerkleTree H db = Inr ()"
  shows "\<exists>nodes. appendMerkleEntryTx H db' (le_LedgerIndex e) (le_EntryHash e) = Inr (db'\<lparr>ledger_merkle_nodes := nodes\<rparr>) \<and>
    merkle_rows_ok nodes \<and> VerifyMerkleTree H (db'\<lparr>ledger_merkle_nodes := nodes\<rparr>) = Inr ()"
proof -
  note prefix = ledger_contiguous_prefix [OF assms(2,3)]
  have ix: "merkle_indexed H (ledger_merkle_nodes db') (take (length (ledger_entries db)) (ledger_leaves db'))"
    using digest32.VerifyMerkleTree_iff_indexed [OF assms(1) prefix(1) _ assms(6)] assms(3-5,7) prefix(2) by simp
  have "length (ledger_entries db') = Suc (length (ledger_entries db))" "e = ledger_entries db' ! length (ledger_entries db)"
    using assms(3) by simp_all
  from digest32.appendMerkleEntryTx_correct [OF assms(1,2,5) this(1) ix this(2)]
  obtain nodes where nodes: "appendMerkleEntryTx H db' (le_LedgerIndex e) (le_EntryHash e) = Inr (db'\<lparr>ledger_merkle_nodes := nodes\<rparr>)"
      "merkle_indexed H nodes (ledger_leaves db')" by blast
  have rows: "merkle_rows_ok nodes" using assms(5) by (intro merkle_indexed_rows_ok [OF assms(1) nodes(2)]) simp
  let ?db = "db'\<lparr>ledger_merkle_nodes := nodes\<rparr>"
  have "ledger_contiguous ?db" "ledger_leaves ?db = ledger_leaves db'"
    using assms(2) by (simp_all add: ledger_contiguous_def ledger_leaves_def)
  then have "VerifyMerkleTree H ?db = Inr ()"
    using digest32.VerifyMerkleTree_iff_indexed [OF assms(1), of ?db] rows nodes(2) assms(5) by simp
  with nodes rows show ?thesis by blast
qed

text \<open>C34. Appending keeps the index: when the checker accepts the node table and the next entry has been
  inserted into the ledger, \<open>appendMerkleEntryTx\<close> succeeds and the checker accepts the result.\<close>

theorem appendMerkleEntryTx_keeps_index:
  assumes "digest32 H" "ledger_contiguous db'" "ledger_entries db' = ledger_entries db @ [e]"
    and "ledger_merkle_nodes db' = ledger_merkle_nodes db" "length (ledger_entries db') \<le> 2 ^ 62"
    and "merkle_rows_ok (ledger_merkle_nodes db)" "VerifyMerkleTree H db = Inr ()"
  shows "\<exists>nodes. appendMerkleEntryTx H db' (le_LedgerIndex e) (le_EntryHash e) = Inr (db'\<lparr>ledger_merkle_nodes := nodes\<rparr>) \<and>
    merkle_rows_ok nodes \<and> VerifyMerkleTree H (db'\<lparr>ledger_merkle_nodes := nodes\<rparr>) = Inr ()"
  by (rule appendMerkleEntryTx_verified [OF assms])

theorem appendMerkleEntryTx_keeps_index_witness:
  "\<exists>db. appendMerkleEntryTx pad_hash (sample_ledger2\<lparr>ledger_entries := ledger_entries sample_ledger2 @ [sample_entry 2 (CHR ''c'')]\<rparr>)
     3 (encodeDigest (replicate 32 (CHR ''c''))) = Inr db \<and> VerifyMerkleTree pad_hash db = Inr ()"
  using appendMerkleEntryTx_keeps_index [OF digest32_pad_hash sample_ledger_contiguous(2), of sample_ledger2 "sample_entry 2 (CHR ''c'')"]
    sample_ledger2_rows sample_ledger2_verified sample_ledger2_size by (auto simp: sample_entry_def)

text \<open>C35. Backfilling repairs any gap: when some rows of an index the checker accepts are missing,
  \<open>reconcileMerkleTree\<close> succeeds, changes nothing but the node table and leaves one the checker accepts.\<close>

theorem reconcileMerkleTree_restores:
  assumes "digest32 H" "ledger_contiguous db" "length (ledger_entries db) \<le> 2 ^ 62" "merkle_rows_ok (ledger_merkle_nodes db)"
    and "VerifyMerkleTree H db = Inr ()"
  shows "\<exists>nodes. reconcileMerkleTree H (db\<lparr>ledger_merkle_nodes := filter keep (ledger_merkle_nodes db)\<rparr>) = Inr (db\<lparr>ledger_merkle_nodes := nodes\<rparr>) \<and>
    VerifyMerkleTree H (db\<lparr>ledger_merkle_nodes := nodes\<rparr>) = Inr ()"
proof -
  let ?db = "\<lambda>nodes. db\<lparr>ledger_merkle_nodes := nodes\<rparr>"
  let ?gap = "filter keep (ledger_merkle_nodes db)"
  have same: "ledger_contiguous (?db nodes)" "ledger_leaves (?db nodes) = ledger_leaves db" for nodes
    using assms(2) by (simp_all add: ledger_contiguous_def ledger_leaves_def)
  have ix: "merkle_indexed H (ledger_merkle_nodes db) (ledger_leaves db)"
    using digest32.VerifyMerkleTree_iff_indexed [OF assms(1-4)] assms(5) by simp
  have "merkle_right H ?gap (ledger_leaves db)"
    using merkle_indexed_right [OF ix] by (auto simp: merkle_right_def distinct_map_filter)
  moreover have "merkle_rows_ok ?gap" using assms(4) by (auto simp: merkle_rows_ok_def distinct_map_filter list_all_iff)
  ultimately obtain nodes where nodes: "reconcileMerkleTree H (?db ?gap) = Inr (?db nodes)" "merkle_indexed H nodes (ledger_leaves db)"
    using digest32.reconcileMerkleTree_correct [OF assms(1) same(1) _ , of ?gap] assms(3) same(2) by fastforce
  have "merkle_rows_ok nodes" using assms(3) by (intro merkle_indexed_rows_ok [OF assms(1) nodes(2)]) simp
  with nodes have "VerifyMerkleTree H (?db nodes) = Inr ()"
    using digest32.VerifyMerkleTree_iff_indexed [OF assms(1) same(1), of nodes] assms(3) same(2) by simp
  with nodes show ?thesis by blast
qed

theorem reconcileMerkleTree_restores_witness:
  "\<exists>nodes. reconcileMerkleTree pad_hash (sample_ledger2\<lparr>ledger_merkle_nodes := []\<rparr>) = Inr (sample_ledger2\<lparr>ledger_merkle_nodes := nodes\<rparr>) \<and>
    VerifyMerkleTree pad_hash (sample_ledger2\<lparr>ledger_merkle_nodes := nodes\<rparr>) = Inr ()"
  using reconcileMerkleTree_restores [OF digest32_pad_hash sample_ledger_contiguous(1) _ sample_ledger2_rows sample_ledger2_verified, of "\<lambda>_. False"]
    sample_ledger2_size by simp

end
