(* ===== verification/Registry_Service.thy ===== *)
theory Registry_Service
  imports Merkle_Store
begin

text \<open>
  The service layer over the store: the signing key (\<open>registry/identity/signing_key.go\<close>), request errors
  (\<open>registry/service/errors.go\<close>) and the Merkle proof endpoints (\<open>registry/service/merkle.go\<close>).

  The properties close the loop between the components: proofs the store computes from its index, signed by
  the service, are accepted by the protocol's verifiers.
\<close>

subsection \<open>The signing key\<close>

record SigningKey =
  privateKey :: bytes
  publicKey :: bytes
  publicKeyDER :: bytes
  encodedPublicKey :: string
  fingerprint :: string
  keyID :: string

definition fromPrivateKey :: "crypto \<Rightarrow> bytes \<Rightarrow> protocol_error + SigningKey" where
  "fromPrivateKey C private =
     (let public = Ed25519Public C private in
      bindR (EncodePublicKey C public) (\<lambda>(encoded, der).
        Inr \<lparr>privateKey = private, publicKey = public, publicKeyDER = der, encodedPublicKey = encoded,
             fingerprint = PublicKeyFingerprint (Sum256 C) der, keyID = RegistryKeyID (Sum256 C) der\<rparr>))"

definition SigningKey_Sign :: "crypto \<Rightarrow> SigningKey \<Rightarrow> bytes \<Rightarrow> bytes" where
  "SigningKey_Sign C key message = Ed25519Sign C (privateKey key) message"

subsection \<open>Service errors\<close>

datatype service_error =
    RequestError string
  | StoreError store_error
  | ProtocolError protocol_error

subsection \<open>Merkle proofs\<close>

text \<open>The part of the service state these handlers read; \<open>canonicalNow().Format(RFC3339)\<close> is the argument
  \<open>now\<close>.\<close>

record service =
  srv_registryScope :: string
  srv_signingKey :: SigningKey

definition signedMerkleTreeHead :: "crypto \<Rightarrow> service \<Rightarrow> string \<Rightarrow> int \<Rightarrow> string \<Rightarrow> MerkleTreeHead" where
  "signedMerkleTreeHead C registry now treeSize rootHash =
     (let head = \<lparr>th_ProtocolVersion = Version, th_RegistryScope = srv_registryScope registry, th_TreeSize = treeSize,
                  th_RootHash = rootHash, th_GeneratedAt = now, th_RegistryKeyID = keyID (srv_signingKey registry),
                  th_RegistryPublicKey = encodedPublicKey (srv_signingKey registry), th_Signature = []\<rparr>
      in head\<lparr>th_Signature := EncodeSignature (SigningKey_Sign C (srv_signingKey registry) (MerkleTreeHeadMessage head))\<rparr>)"

definition MerkleInclusionProof_service ::
  "crypto \<Rightarrow> service \<Rightarrow> string \<Rightarrow> registry_db \<Rightarrow> int \<Rightarrow> int \<Rightarrow> (service_error + MerkleInclusionProof) option" where
  "MerkleInclusionProof_service C registry now db ledgerIndex treeSize =
     (if ledgerIndex < 1 \<or> treeSize < 0 then Some (Inl (RequestError ''invalid_request''))
      else Option.bind (MerkleInclusionProof_store (Sum256 C) db ledgerIndex treeSize) (\<lambda>r. case r of
          Inl e \<Rightarrow> Some (Inl (if e = ErrNotFound then RequestError ''merkle_proof_not_found'' else StoreError e))
        | Inr record \<Rightarrow>
            (let proof = \<lparr>mip_LedgerIndex = mir_LedgerIndex record, mip_LedgerEntryHash = mir_LedgerEntryHash record,
                          mip_LeafHash = mir_LeafHash record, mip_AuditPath = mir_AuditPath record,
                          mip_TreeHead = signedMerkleTreeHead C registry now (mir_TreeSize record) (mir_RootHash record)\<rparr>
             in Option.bind (VerifyMerkleInclusionProof C proof) (\<lambda>v. case v of
                    Inl e \<Rightarrow> Some (Inl (ProtocolError e))
                  | Inr _ \<Rightarrow> Some (Inr proof)))))"

definition MerkleConsistencyProof_service ::
  "crypto \<Rightarrow> service \<Rightarrow> string \<Rightarrow> registry_db \<Rightarrow> int \<Rightarrow> int \<Rightarrow> (service_error + MerkleConsistencyProof) option" where
  "MerkleConsistencyProof_service C registry now db oldTreeSize newTreeSize =
     (if oldTreeSize < 0 \<or> newTreeSize < 0 then Some (Inl (RequestError ''invalid_request''))
      else Option.bind (MerkleConsistencyProof_store (Sum256 C) db oldTreeSize newTreeSize) (\<lambda>r. case r of
          Inl e \<Rightarrow> Some (Inl (if e = ErrNotFound then RequestError ''merkle_proof_not_found'' else StoreError e))
        | Inr record \<Rightarrow>
            (let proof = \<lparr>mcp_OldTreeSize = mcr_OldTreeSize record, mcp_OldRootHash = mcr_OldRootHash record,
                          mcp_AuditPath = mcr_AuditPath record,
                          mcp_TreeHead = signedMerkleTreeHead C registry now (mcr_NewTreeSize record) (mcr_NewRootHash record)\<rparr>
             in Option.bind (VerifyMerkleConsistencyProof C proof) (\<lambda>v. case v of
                    Inl e \<Rightarrow> Some (Inl (ProtocolError e))
                  | Inr _ \<Rightarrow> Some (Inr proof)))))"

subsection \<open>Signed heads verify\<close>

lemma ParsePublicKey_encoded:
  assumes "crypto_ok C" "fromPrivateKey C private = Inr key"
  shows "ParsePublicKey C (encodedPublicKey key) = Inr (publicKey key, publicKeyDER key)"
    "keyID key = RegistryKeyID (Sum256 C) (publicKeyDER key)" "publicKey key = Ed25519Public C (privateKey key)"
proof -
  have len: "length (Ed25519Public C private) = 32" using assms(1) by (simp add: crypto_ok_def)
  then obtain der where der: "MarshalPKIXPublicKey C (Ed25519Public C private) = Some der"
      "ParsePKIXPublicKey C der = Some (Ed25519PublicKey (Ed25519Public C private))"
    using assms(1) unfolding crypto_ok_def by blast
  have "fromPrivateKey C private = Inr \<lparr>privateKey = private, publicKey = Ed25519Public C private, publicKeyDER = der,
      encodedPublicKey = base64_EncodeToString der, fingerprint = PublicKeyFingerprint (Sum256 C) der, keyID = RegistryKeyID (Sum256 C) der\<rparr>"
    using der(1) by (simp add: fromPrivateKey_def EncodePublicKey_def Let_def)
  with assms(2) have key: "key = \<lparr>privateKey = private, publicKey = Ed25519Public C private, publicKeyDER = der,
      encodedPublicKey = base64_EncodeToString der, fingerprint = PublicKeyFingerprint (Sum256 C) der, keyID = RegistryKeyID (Sum256 C) der\<rparr>"
    by simp
  have "decodeCanonicalBase64 (base64_EncodeToString der) = Some der" by (simp add: decodeCanonicalBase64_iff)
  with key len der show "ParsePublicKey C (encodedPublicKey key) = Inr (publicKey key, publicKeyDER key)"
    "keyID key = RegistryKeyID (Sum256 C) (publicKeyDER key)" "publicKey key = Ed25519Public C (privateKey key)"
    by (simp_all add: ParsePublicKey_def)
qed

lemma fromPrivateKey_succeeds: "crypto_ok C \<Longrightarrow> \<exists>key. fromPrivateKey C private = Inr key"
proof -
  assume "crypto_ok C"
  then have "\<exists>der. MarshalPKIXPublicKey C (Ed25519Public C private) = Some der" unfolding crypto_ok_def by blast
  then show ?thesis by (auto simp: fromPrivateKey_def EncodePublicKey_def Let_def)
qed

lemma signedMerkleTreeHead_simps [simp]:
  "th_TreeSize (signedMerkleTreeHead C registry now n r) = n" "th_RootHash (signedMerkleTreeHead C registry now n r) = r"
  by (simp_all add: signedMerkleTreeHead_def Let_def)

lemma signedMerkleTreeHead_verifies:
  assumes "crypto_ok C" "fromPrivateKey C private = Inr (srv_signingKey registry)"
    and "IsRegistryScope (srv_registryScope registry)" "0 \<le> n" "IsDigest r"
  shows "VerifyMerkleTreeHead C (signedMerkleTreeHead C registry now n r) = Inr ()"
proof -
  let ?head = "signedMerkleTreeHead C registry now n r"
  note key = ParsePublicKey_encoded [OF assms(1,2)]
  let ?sig = "SigningKey_Sign C (srv_signingKey registry) (MerkleTreeHeadMessage ?head)"
  have "th_Signature ?head = EncodeSignature ?sig"
    by (simp add: signedMerkleTreeHead_def Let_def MerkleTreeHeadMessage_def)
  moreover have "length ?sig = 64" "Ed25519Verify C (publicKey (srv_signingKey registry)) (MerkleTreeHeadMessage ?head) ?sig"
    using assms(1) key(3) by (simp_all add: SigningKey_Sign_def crypto_ok_def)
  ultimately show ?thesis
    using assms(3-5) key(1,2)
    by (intro VerifyMerkleTreeHead_signed [where key = "publicKey (srv_signingKey registry)" and der = "publicKeyDER (srv_signingKey registry)"])
      (simp_all add: signedMerkleTreeHead_def Let_def)
qed

text \<open>C4. The registry proves what it stores: on a database whose ledger is contiguous and whose index the
  checker accepts, the inclusion endpoint answers every request for an existing index and tree size
  with a proof that \<open>VerifyMerkleInclusionProof\<close> accepts; the proof is for that ledger entry and its signed
  head carries the Merkle tree hash of the first \<open>treeSize\<close> entries.\<close>

theorem MerkleInclusionProof_service_complete:
  assumes "crypto_ok C" "fromPrivateKey C private = Inr (srv_signingKey registry)" "IsRegistryScope (srv_registryScope registry)"
    and "ledger_contiguous db" "length (ledger_entries db) \<le> 2 ^ 62" "merkle_rows_ok (ledger_merkle_nodes db)"
    and "VerifyMerkleTree (Sum256 C) db = Inr ()"
    and "1 \<le> ledgerIndex" "ledgerIndex \<le> treeSize" "treeSize \<le> int (length (ledger_entries db))"
  shows "\<exists>proof. MerkleInclusionProof_service C registry now db ledgerIndex treeSize = Some (Inr proof) \<and>
    VerifyMerkleInclusionProof C proof = Some (Inr ()) \<and> mip_LedgerIndex proof = ledgerIndex \<and>
    mip_LedgerEntryHash proof = le_EntryHash (ledger_entries db ! nat (ledgerIndex - 1)) \<and>
    th_TreeSize (mip_TreeHead proof) = treeSize \<and>
    th_RootHash (mip_TreeHead proof) = encodeDigest (mth (Sum256 C) (take (nat treeSize) (ledger_leaves db)))"
proof -
  let ?H = "Sum256 C" and ?ds = "take (nat treeSize) (ledger_leaves db)"
  define m n where "m = nat (ledgerIndex - 1)" and "n = nat treeSize"
  have mn: "ledgerIndex = int m + 1" "treeSize = int n" "n \<le> length (ledger_entries db)" "m < n"
    using assms(8-10) by (simp_all add: m_def n_def le_nat_iff nat_le_iff nat_less_iff)
  have H: "digest32 ?H" using assms(1) by (simp add: crypto_ok_def)
  have ix: "merkle_indexed ?H (ledger_merkle_nodes db) (ledger_leaves db)"
    using digest32.VerifyMerkleTree_iff_indexed [OF H assms(4-6)] assms(7) by simp
  have m: "m < length (ledger_entries db)" using mn by simp
  note entry = ledger_contiguous_nth [OF assms(4) m]
  define head where "head = signedMerkleTreeHead C registry now (int n) (encodeDigest (mth ?H (take n (ledger_leaves db))))"
  define proof' where "proof' = \<lparr>mip_LedgerIndex = int m + 1, mip_LedgerEntryHash = encodeDigest (ledger_leaves db ! m),
     mip_LeafHash = encodeDigest (leaf_digest ?H (ledger_leaves db ! m)),
     mip_AuditPath = map encodeDigest (mth_path ?H m (take n (ledger_leaves db))), mip_TreeHead = head\<rparr>"
  have "VerifyMerkleTreeHead C head = Inr ()" unfolding head_def
    using signedMerkleTreeHead_verifies [OF assms(1-3)] digest32.length_mth [OF H] by simp
  then have v: "VerifyMerkleInclusionProof C proof' = Some (Inr ())"
    using mn assms(5) entry
    by (intro digest32.VerifyMerkleInclusionProof_complete [OF H refl, of _ "take n (ledger_leaves db)" m])
      (simp_all add: proof'_def head_def)
  have "MerkleInclusionProof_service C registry now db ledgerIndex treeSize = Some (Inr proof')"
    using digest32.MerkleInclusionProof_store_correct [OF H assms(4) ix assms(5) mn(3,4)] mn v
    by (simp add: MerkleInclusionProof_service_def Let_def proof'_def [symmetric] head_def [symmetric])
  with v mn entry show ?thesis by (simp add: proof'_def head_def)
qed

definition sample_key :: SigningKey where
  "sample_key = (case fromPrivateKey sample_crypto ''k'' of Inr k \<Rightarrow> k)"

definition sample_service :: service where
  "sample_service = \<lparr>srv_registryScope = ''demo'', srv_signingKey = sample_key\<rparr>"

lemma sample_service_ok:
  "fromPrivateKey sample_crypto ''k'' = Inr (srv_signingKey sample_service)" "IsRegistryScope (srv_registryScope sample_service)"
proof -
  obtain k where "fromPrivateKey sample_crypto ''k'' = Inr k" using fromPrivateKey_succeeds crypto_ok_sample by blast
  then show "fromPrivateKey sample_crypto ''k'' = Inr (srv_signingKey sample_service)" by (simp add: sample_service_def sample_key_def)
  show "IsRegistryScope (srv_registryScope sample_service)" by (simp add: sample_service_def)
qed

theorem MerkleInclusionProof_service_complete_witness:
  "\<exists>proof. MerkleInclusionProof_service sample_crypto sample_service ''2026-01-02T00:00:00Z'' sample_ledger2 2 2 = Some (Inr proof) \<and>
    VerifyMerkleInclusionProof sample_crypto proof = Some (Inr ()) \<and>
    mip_LedgerEntryHash proof = encodeDigest (replicate 32 (CHR ''b''))"
proof -
  have "le_EntryHash (ledger_entries sample_ledger2 ! 1) = encodeDigest (replicate 32 (CHR ''b''))"
    by (simp add: sample_ledger2_def sample_ledger_def sample_entry_def)
  then show ?thesis
    using MerkleInclusionProof_service_complete [OF crypto_ok_sample sample_service_ok sample_ledger_contiguous(1) _
        sample_ledger2_rows, of 2 2 "''2026-01-02T00:00:00Z''"] sample_ledger2_size sample_ledger2_verified by auto
qed

text \<open>C5. Likewise the consistency endpoint answers every pair of existing tree sizes with a proof that
  \<open>VerifyMerkleConsistencyProof\<close> accepts, between the Merkle tree hashes of the two ledger prefixes.\<close>

theorem MerkleConsistencyProof_service_complete:
  assumes "crypto_ok C" "fromPrivateKey C private = Inr (srv_signingKey registry)" "IsRegistryScope (srv_registryScope registry)"
    and "ledger_contiguous db" "length (ledger_entries db) \<le> 2 ^ 62" "merkle_rows_ok (ledger_merkle_nodes db)"
    and "VerifyMerkleTree (Sum256 C) db = Inr ()"
    and "0 \<le> oldTreeSize" "oldTreeSize \<le> newTreeSize" "1 \<le> newTreeSize" "newTreeSize \<le> int (length (ledger_entries db))"
  shows "\<exists>proof. MerkleConsistencyProof_service C registry now db oldTreeSize newTreeSize = Some (Inr proof) \<and>
    VerifyMerkleConsistencyProof C proof = Some (Inr ()) \<and> mcp_OldTreeSize proof = oldTreeSize \<and>
    mcp_OldRootHash proof = encodeDigest (mth (Sum256 C) (take (nat oldTreeSize) (ledger_leaves db))) \<and>
    th_TreeSize (mcp_TreeHead proof) = newTreeSize \<and>
    th_RootHash (mcp_TreeHead proof) = encodeDigest (mth (Sum256 C) (take (nat newTreeSize) (ledger_leaves db)))"
proof -
  let ?H = "Sum256 C"
  define m n where "m = nat oldTreeSize" and "n = nat newTreeSize"
  have mn: "oldTreeSize = int m" "newTreeSize = int n" "n \<le> length (ledger_entries db)" "m \<le> n" "1 \<le> n"
    using assms(8-11) by (simp_all add: m_def n_def le_nat_iff nat_le_iff)
  have H: "digest32 ?H" using assms(1) by (simp add: crypto_ok_def)
  have ix: "merkle_indexed ?H (ledger_merkle_nodes db) (ledger_leaves db)"
    using digest32.VerifyMerkleTree_iff_indexed [OF H assms(4-6)] assms(7) by simp
  define head where "head = signedMerkleTreeHead C registry now (int n) (encodeDigest (mth ?H (take n (ledger_leaves db))))"
  define proof' where "proof' = \<lparr>mcp_OldTreeSize = int m, mcp_OldRootHash = encodeDigest (mth ?H (take m (ledger_leaves db))),
     mcp_AuditPath = (if m = 0 then [] else map encodeDigest (mth_consistency ?H m True (take n (ledger_leaves db)))), mcp_TreeHead = head\<rparr>"
  have "VerifyMerkleTreeHead C head = Inr ()" unfolding head_def
    using signedMerkleTreeHead_verifies [OF assms(1-3)] digest32.length_mth [OF H] by simp
  then have v: "VerifyMerkleConsistencyProof C proof' = Some (Inr ())"
    using mn assms(5)
    by (intro digest32.VerifyMerkleConsistencyProof_complete [OF H refl, of _ "take n (ledger_leaves db)" m])
      (simp_all add: proof'_def head_def min_absorb1)
  have "MerkleConsistencyProof_service C registry now db oldTreeSize newTreeSize = Some (Inr proof')"
    using digest32.MerkleConsistencyProof_store_correct [OF H assms(4) ix assms(5) mn(3,4,5)] mn v
    by (simp add: MerkleConsistencyProof_service_def Let_def proof'_def [symmetric] head_def [symmetric])
  with v mn show ?thesis by (simp add: proof'_def head_def)
qed

theorem MerkleConsistencyProof_service_complete_witness:
  "\<exists>proof. MerkleConsistencyProof_service sample_crypto sample_service ''2026-01-02T00:00:00Z'' sample_ledger2 1 2 = Some (Inr proof) \<and>
    VerifyMerkleConsistencyProof sample_crypto proof = Some (Inr ())"
  using MerkleConsistencyProof_service_complete [OF crypto_ok_sample sample_service_ok sample_ledger_contiguous(1) _
      sample_ledger2_rows, of 1 2 "''2026-01-02T00:00:00Z''"] sample_ledger2_size sample_ledger2_verified by auto

text \<open>C36. Requests outside the ledger are refused without a proof: a non-positive index or negative size
  is an invalid request, an index or size beyond the ledger is not found.\<close>

theorem MerkleInclusionProof_service_errors:
  assumes "1 \<le> ledgerIndex \<and> 0 \<le> treeSize \<longrightarrow> treeSize > int (length (ledger_entries db)) \<or> ledgerIndex > treeSize \<and> treeSize \<noteq> 0 \<or>
    ledgerIndex > int (length (ledger_entries db))"
  shows "MerkleInclusionProof_service C registry now db ledgerIndex treeSize =
    Some (Inl (RequestError (if 1 \<le> ledgerIndex \<and> 0 \<le> treeSize then ''merkle_proof_not_found'' else ''invalid_request'')))"
  using assms by (auto simp: MerkleInclusionProof_service_def MerkleInclusionProof_store_def merkleTreeSizeTx_def Let_def)

theorem MerkleInclusionProof_service_errors_witness:
  "MerkleInclusionProof_service sample_crypto sample_service [] sample_ledger2 3 0 = Some (Inl (RequestError ''merkle_proof_not_found'')) \<and>
   MerkleInclusionProof_service sample_crypto sample_service [] sample_ledger2 0 2 = Some (Inl (RequestError ''invalid_request''))"
  using MerkleInclusionProof_service_errors [of 3 0 sample_ledger2 sample_crypto sample_service "[]"]
    MerkleInclusionProof_service_errors [of 0 2 sample_ledger2 sample_crypto sample_service "[]"] sample_ledger2_size by simp

end
