(* ===== verification/Ledger_Store.thy ===== *)
theory Ledger_Store
  imports Merkle_Store
begin

text \<open>
  The append-only ledger (\<open>registry/store/sqlite\<close>: \<open>sqlite.go\<close>, \<open>registrations.go\<close>, \<open>batches.go\<close>,
  \<open>verify.go\<close>): the registry identity, replay protection by nonces, idempotency records, deployments, the
  acceptance of a deployment's batch with every row it inserts, and the two verifications that run at
  startup over the hash chain and over the weight rows.

  A \<open>SELECT ... ORDER BY key DESC LIMIT 1\<close> is \<open>select_max\<close>. The callback \<open>signReceipt\<close> of the service is a
  function argument; \<open>None\<close> is its error. Errors of the SQL driver are not modelled.
\<close>


subsection \<open>Nonces and idempotency records\<close>

definition nonceState :: "registry_db \<Rightarrow> string \<Rightarrow> string \<Rightarrow> string \<Rightarrow> store_error + bool" where
  "nonceState db signer nonce requestHash =
     (case find (\<lambda>n. an_Signer n = signer \<and> an_Nonce n = nonce) (used_nonces db) of
        None \<Rightarrow> Inr False
      | Some n \<Rightarrow> if an_RequestHash n \<noteq> requestHash then Inl ErrReplayConflict else Inr True)"

definition insertNonce :: "registry_db \<Rightarrow> acceptedNonce \<Rightarrow> store_error + registry_db" where
  "insertNonce db n =
     (if length (an_RequestSignature n) = 64 \<and> an_ResultType n \<in> {''deployment'', ''batch''} \<and>
         (an_Signer n, an_Nonce n) \<notin> (\<lambda>r. (an_Signer r, an_Nonce r)) ` set (used_nonces db)
      then Inr (db\<lparr>used_nonces := used_nonces db @ [n]\<rparr>)
      else Inl ConstraintFailed)"

definition readIdempotency :: "registry_db \<Rightarrow> string \<Rightarrow> string \<Rightarrow> idempotencyRecord option" where
  "readIdempotency db signer idempotencyKey =
     map_option (\<lambda>r. \<lparr>ir_PayloadHash = idr_payload_hash r, ir_ResultType = idr_result_type r, ir_ResultID = idr_result_id r\<rparr>)
       (find (\<lambda>r. idr_signer r = signer \<and> idr_idempotency_key r = idempotencyKey) (idempotency_records db))"

definition insertIdempotency ::
  "registry_db \<Rightarrow> string \<Rightarrow> string \<Rightarrow> string \<Rightarrow> string \<Rightarrow> string \<Rightarrow> string \<Rightarrow> store_error + registry_db" where
  "insertIdempotency db signer idempotencyKey payloadHash resultType resultID acceptedAt =
     (if resultType \<in> {''deployment'', ''batch''} \<and>
         (signer, idempotencyKey) \<notin> (\<lambda>r. (idr_signer r, idr_idempotency_key r)) ` set (idempotency_records db)
      then Inr (db\<lparr>idempotency_records := idempotency_records db @
        [\<lparr>idr_signer = signer, idr_idempotency_key = idempotencyKey, idr_payload_hash = payloadHash,
          idr_result_type = resultType, idr_result_id = resultID, idr_accepted_at = acceptedAt\<rparr>]\<rparr>)
      else Inl ConstraintFailed)"

subsection \<open>The registry identity\<close>

definition EnsureRegistryIdentity :: "registry_db \<Rightarrow> StoreRegistryIdentity \<Rightarrow> store_error + registry_db" where
  "EnsureRegistryIdentity db expected =
     (case registry_identity db of
        Some current \<Rightarrow>
          if sri_ProtocolVersion current \<noteq> sri_ProtocolVersion expected \<or> sri_RegistryScope current \<noteq> sri_RegistryScope expected \<or>
             sri_RegistryKeyID current \<noteq> sri_RegistryKeyID expected \<or> sri_PublicKeyDER current \<noteq> sri_PublicKeyDER expected
          then Inl ErrRegistryKeyMismatch else Inr db
      | None \<Rightarrow>
          if sri_ProtocolVersion expected = ''1'' then Inr (db\<lparr>registry_identity := Some expected\<rparr>) else Inl ConstraintFailed)"

subsection \<open>Deployments\<close>

definition deploymentByIDTx :: "registry_db \<Rightarrow> string \<Rightarrow> store_error + Deployment" where
  "deploymentByIDTx db deploymentID =
     from_option ErrNotFound (find (\<lambda>d. dep_DeploymentID d = deploymentID) (deployments db))"

definition deploymentByFingerprintTx :: "registry_db \<Rightarrow> string \<Rightarrow> store_error + Deployment" where
  "deploymentByFingerprintTx db fp =
     from_option ErrNotFound (find (\<lambda>d. dep_PublicKeyFingerprint d = fp) (deployments db))"

definition registrationNonce :: "RegistrationInput \<Rightarrow> string \<Rightarrow> acceptedNonce" where
  "registrationNonce input deploymentID =
     \<lparr>an_Signer = rin_SignerFingerprint input, an_Nonce = rin_Nonce input, an_RequestHash = rin_RequestHash input,
      an_IdempotencyKey = rin_IdempotencyKey input, an_PayloadHash = rin_PayloadHash input,
      an_RequestTimestamp = rin_RequestTimestamp input, an_RequestSignature = rin_RequestSignature input,
      an_ResultType = ''deployment'', an_ResultID = deploymentID, an_AcceptedAt = rin_CandidateRegisteredAt input\<rparr>"

definition RegisterDeployment :: "registry_db \<Rightarrow> RegistrationInput \<Rightarrow> store_error + registry_db \<times> Deployment \<times> bool" where
  "RegisterDeployment db input =
     bindR (nonceState db (rin_SignerFingerprint input) (rin_Nonce input) (rin_RequestHash input)) (\<lambda>nonceUsed.
     case readIdempotency db (rin_SignerFingerprint input) (rin_IdempotencyKey input) of
       Some idempotency \<Rightarrow>
         if ir_PayloadHash idempotency \<noteq> rin_PayloadHash input then Inl ErrIdempotencyConflict
         else if ir_ResultType idempotency \<noteq> ''deployment'' then Inl ErrInconsistentState
         else bindR (deploymentByIDTx db (ir_ResultID idempotency)) (\<lambda>deployment.
           bindR (if \<not> nonceUsed then insertNonce db (registrationNonce input (ir_ResultID idempotency)) else Inr db) (\<lambda>db.
           Inr (db, deployment, True)))
     | None \<Rightarrow>
         if nonceUsed then Inl ErrInconsistentState
         else (case deploymentByFingerprintTx db (rin_SignerFingerprint input) of
           Inr existing \<Rightarrow>
             bindR (insertNonce db (registrationNonce input (dep_DeploymentID existing))) (\<lambda>db.
             bindR (insertIdempotency db (rin_SignerFingerprint input) (rin_IdempotencyKey input) (rin_PayloadHash input)
               ''deployment'' (dep_DeploymentID existing) (rin_CandidateRegisteredAt input)) (\<lambda>db.
             Inr (db, existing, True)))
         | Inl e \<Rightarrow>
             if e \<noteq> ErrNotFound then Inl e
             else
               let deployment =
                 \<lparr>dep_DeploymentID = rin_CandidateDeploymentID input, dep_PublicKeyDER = rin_PublicKeyDER input,
                  dep_PublicKeyFingerprint = rin_SignerFingerprint input, dep_KeyAlgorithm = rin_KeyAlgorithm input,
                  dep_SoftwareVersion = rin_SoftwareVersion input, dep_RegistrationTimestamp = rin_RequestTimestamp input,
                  dep_RegistrationNonce = rin_Nonce input, dep_RegistrationIdempotencyKey = rin_IdempotencyKey input,
                  dep_RegistrationSignature = rin_RequestSignature input, dep_RegisteredAt = rin_CandidateRegisteredAt input,
                  dep_PayloadHash = rin_PayloadHash input, dep_ReceiptSignature = rin_CandidateReceiptSignature input\<rparr> in
               bindR (insert_deployment db deployment) (\<lambda>db.
               bindR (insertNonce db (registrationNonce input (rin_CandidateDeploymentID input))) (\<lambda>db.
               bindR (insertIdempotency db (rin_SignerFingerprint input) (rin_IdempotencyKey input) (rin_PayloadHash input)
                 ''deployment'' (rin_CandidateDeploymentID input) (rin_CandidateRegisteredAt input)) (\<lambda>db.
               Inr (db, deployment, False))))))"

subsection \<open>Accepting a batch\<close>

text \<open>The row a descending \<open>ORDER BY\<close> with \<open>LIMIT 1\<close> selects.\<close>

definition select_max :: "('a \<Rightarrow> 'k :: linorder) \<Rightarrow> 'a list \<Rightarrow> 'a option" where
  "select_max key rows = (if rows = [] then None else Some (last (sort_key key rows)))"

definition ensureQualifiedMAURevision :: "registry_db \<Rightarrow> BatchInput \<Rightarrow> store_error + unit" where
  "ensureQualifiedMAURevision db input =
     (if bin_Kind input \<noteq> QualifiedMAUKind then Inr ()
      else case select_max mb_revision (filter (\<lambda>b. mb_deployment_id b = bin_DeploymentID input \<and>
          mb_period b = bin_Period input \<and> mb_kind b = QualifiedMAUKind) (mau_batches db)) of
        None \<Rightarrow>
          if bin_Revision input \<noteq> 1 \<or> bin_SupersedesBatchID input \<noteq> [] then Inl ErrQualifiedMAURevisionConflict else Inr ()
      | Some latest \<Rightarrow>
          if bin_Revision input \<noteq> i64 (mb_revision latest + 1) \<or> bin_SupersedesBatchID input \<noteq> mb_batch_id latest
          then Inl ErrQualifiedMAURevisionConflict else Inr ())"

definition ensureAcceptedAtAfterRegistryCreation :: "registry_db \<Rightarrow> string \<Rightarrow> store_error + unit" where
  "ensureAcceptedAtAfterRegistryCreation db acceptedAt =
     (case registry_identity db of
        None \<Rightarrow> Inl ErrInconsistentState
      | Some identity \<Rightarrow>
          (case time_Parse_RFC3339Nano (sri_CreatedAt identity) of
             None \<Rightarrow> Inl ErrInconsistentState
           | Some createdTime \<Rightarrow>
               (case time_Parse_RFC3339Nano acceptedAt of
                  None \<Rightarrow> Inl ErrInconsistentState
                | Some acceptedTime \<Rightarrow>
                    if acceptedTime < createdTime then Inl ErrAcceptedAtBeforeIdentity else Inr ())))"

definition ensureAcceptedAtAfterCheckpoint :: "registry_db \<Rightarrow> string \<Rightarrow> store_error + unit" where
  "ensureAcceptedAtAfterCheckpoint db acceptedAt =
     (case select_max (cp_CheckpointDate \<circ> cpr_Checkpoint) (checkpoints db) of
        None \<Rightarrow> Inr ()
      | Some latest \<Rightarrow>
          (case time_Parse_date (cp_CheckpointDate (cpr_Checkpoint latest)) of
             None \<Rightarrow> Inl ErrInconsistentState
           | Some checkpointDay \<Rightarrow>
               (case time_Parse_RFC3339Nano acceptedAt of
                  None \<Rightarrow> Inl ErrInconsistentState
                | Some acceptedTime \<Rightarrow>
                    if acceptedTime < AddDays checkpointDay 1 then Inl ErrAcceptedAtFinalized else Inr ())))"

definition ensureAcceptedAtNotBeforeHead :: "string \<Rightarrow> string \<Rightarrow> store_error + unit" where
  "ensureAcceptedAtNotBeforeHead acceptedAt headAcceptedAt =
     (if headAcceptedAt = [] then Inr ()
      else case time_Parse_RFC3339Nano acceptedAt of
          None \<Rightarrow> Inl ErrInconsistentState
        | Some acceptedTime \<Rightarrow>
            (case time_Parse_RFC3339Nano headAcceptedAt of
               None \<Rightarrow> Inl ErrInconsistentState
             | Some headTime \<Rightarrow> if acceptedTime < headTime then Inl ErrAcceptedAtBeforeHead else Inr ()))"

definition ledgerHeadTx :: "registry_db \<Rightarrow> LedgerHead" where
  "ledgerHeadTx db =
     (case select_max le_LedgerIndex (ledger_entries db) of
        None \<Rightarrow> \<lparr>lh_LedgerIndex = 0, lh_EntryCount = 0, lh_EntryHash = ZeroHash, lh_AcceptedAt = []\<rparr>
      | Some e \<Rightarrow> \<lparr>lh_LedgerIndex = le_LedgerIndex e, lh_EntryCount = le_LedgerIndex e,
                   lh_EntryHash = le_EntryHash e, lh_AcceptedAt = le_AcceptedAt e\<rparr>)"

definition LedgerHead_query :: "registry_db \<Rightarrow> LedgerHead" where
  "LedgerHead_query db =
     (case select_max le_LedgerIndex (ledger_entries db) of
        None \<Rightarrow> \<lparr>lh_LedgerIndex = 0, lh_EntryCount = 0, lh_EntryHash = ZeroHash, lh_AcceptedAt = []\<rparr>
      | Some e \<Rightarrow> \<lparr>lh_LedgerIndex = le_LedgerIndex e, lh_EntryCount = int (length (ledger_entries db)),
                   lh_EntryHash = le_EntryHash e, lh_AcceptedAt = le_AcceptedAt e\<rparr>)"

definition batchNonce :: "BatchInput \<Rightarrow> string \<Rightarrow> acceptedNonce" where
  "batchNonce input batchID =
     \<lparr>an_Signer = bin_Signer input, an_Nonce = bin_Nonce input, an_RequestHash = bin_RequestHash input,
      an_IdempotencyKey = bin_IdempotencyKey input, an_PayloadHash = bin_PayloadHash input,
      an_RequestTimestamp = bin_RequestTimestamp input, an_RequestSignature = bin_DeploymentSignature input,
      an_ResultType = ''batch'', an_ResultID = batchID, an_AcceptedAt = bin_AcceptedAt input\<rparr>"

definition batchRecordByIDQuery :: "registry_db \<Rightarrow> string \<Rightarrow> store_error + BatchRecord" where
  "batchRecordByIDQuery db batchID =
     (case find (\<lambda>b. mb_batch_id b = batchID) (mau_batches db) of
        None \<Rightarrow> Inl ErrNotFound
      | Some b \<Rightarrow>
          (case find (\<lambda>l. le_LedgerIndex l = mb_ledger_index b) (ledger_entries db) of
             None \<Rightarrow> Inl ErrNotFound
           | Some l \<Rightarrow> Inr
               \<lparr>brec_BatchID = mb_batch_id b, brec_DeploymentID = mb_deployment_id b, brec_IdempotencyKey = mb_idempotency_key b,
                brec_Kind = mb_kind b, brec_Period = mb_period b, brec_RulesetVersion = mb_ruleset_version b,
                brec_QualifiedMAUCount = mb_qualified_mau_count b, brec_CommitmentHash = mb_commitment_hash b,
                brec_Revision = mb_revision b, brec_SupersedesBatchID = mb_supersedes_batch_id b,
                brec_PayloadHash = mb_payload_hash b, brec_AcceptedAt = mb_accepted_at b,
                brec_LedgerEntry =
                  \<lparr>le_ProtocolVersion = le_ProtocolVersion l, le_RegistryScope = le_RegistryScope l, le_LedgerIndex = le_LedgerIndex l,
                   le_EntryType = le_EntryType l, le_DeploymentID = mb_deployment_id b, le_BatchID = mb_batch_id b,
                   le_Kind = mb_kind b, le_Period = mb_period b, le_RulesetVersion = mb_ruleset_version b,
                   le_QualifiedMAUCount = mb_qualified_mau_count b, le_BatchHash = le_BatchHash l,
                   le_PreviousEntryHash = le_PreviousEntryHash l, le_EntryHash = le_EntryHash l, le_AcceptedAt = mb_accepted_at b\<rparr>,
                brec_ReceiptSignature = mb_receipt_signature b\<rparr>))"

definition batchLedgerEntry :: "(bytes \<Rightarrow> bytes) \<Rightarrow> BatchInput \<Rightarrow> LedgerHead \<Rightarrow> LedgerEntry" where
  "batchLedgerEntry H input head =
     (let entryType = (if bin_Kind input = QualifiedMAUKind then QualifiedMAUEntryType else InstallationEntryType);
          entry = \<lparr>le_ProtocolVersion = Version, le_RegistryScope = bin_RegistryScope input,
            le_LedgerIndex = i64 (lh_LedgerIndex head + 1), le_EntryType = entryType,
            le_DeploymentID = bin_DeploymentID input, le_BatchID = bin_CandidateBatchID input, le_Kind = bin_Kind input,
            le_Period = bin_Period input, le_RulesetVersion = bin_RulesetVersion input,
            le_QualifiedMAUCount = bin_QualifiedMAUCount input, le_BatchHash = bin_PayloadHash input,
            le_PreviousEntryHash = lh_EntryHash head, le_EntryHash = [], le_AcceptedAt = bin_AcceptedAt input\<rparr>
      in entry\<lparr>le_EntryHash := Digest H (LedgerEntryMessage entry)\<rparr>)"

text \<open>The inserts of an accepted batch, in the order of the code.\<close>

definition appendBatchTx ::
  "(bytes \<Rightarrow> bytes) \<Rightarrow> registry_db \<Rightarrow> BatchInput \<Rightarrow> LedgerEntry \<Rightarrow> bytes \<Rightarrow> store_error + registry_db" where
  "appendBatchTx H db input entry receiptSignature =
     bindR (insert_ledger_entry db entry) (\<lambda>db.
     bindR (appendMerkleEntryTx H db (le_LedgerIndex entry) (le_EntryHash entry)) (\<lambda>db.
     bindR (insert_weight_row db
       \<lparr>lw_ledger_index = le_LedgerIndex entry, lw_deployment_id = le_DeploymentID entry, lw_period = le_Period entry,
        lw_revision = bin_Revision input, lw_ruleset_version = le_RulesetVersion entry,
        lw_qualified_mau_count = le_QualifiedMAUCount entry, lw_weight_numerator = le_QualifiedMAUCount entry,
        lw_weight_denominator = 1, lw_accepted_at = le_AcceptedAt entry, lw_source_entry_hash = le_EntryHash entry\<rparr>) (\<lambda>db.
     bindR (insert_mau_batch db
       \<lparr>mb_batch_id = bin_CandidateBatchID input, mb_deployment_id = bin_DeploymentID input,
        mb_idempotency_key = bin_IdempotencyKey input, mb_request_timestamp = bin_RequestTimestamp input,
        mb_request_nonce = bin_Nonce input, mb_deployment_signature = bin_DeploymentSignature input, mb_kind = bin_Kind input,
        mb_period = bin_Period input, mb_ruleset_version = bin_RulesetVersion input,
        mb_qualified_mau_count = bin_QualifiedMAUCount input, mb_commitment_hash = bin_CommitmentHash input,
        mb_revision = bin_Revision input, mb_supersedes_batch_id = bin_SupersedesBatchID input,
        mb_payload_hash = bin_PayloadHash input, mb_accepted_at = bin_AcceptedAt input,
        mb_ledger_index = le_LedgerIndex entry, mb_receipt_signature = receiptSignature\<rparr>) (\<lambda>db.
     bindR (insertNonce db (batchNonce input (bin_CandidateBatchID input))) (\<lambda>db.
     insertIdempotency db (bin_Signer input) (bin_IdempotencyKey input) (bin_PayloadHash input) ''batch''
       (bin_CandidateBatchID input) (bin_AcceptedAt input))))))"

definition acceptedBatchRecord :: "BatchInput \<Rightarrow> LedgerEntry \<Rightarrow> bytes \<Rightarrow> BatchRecord" where
  "acceptedBatchRecord input entry receiptSignature =
     \<lparr>brec_BatchID = bin_CandidateBatchID input, brec_DeploymentID = bin_DeploymentID input,
      brec_IdempotencyKey = bin_IdempotencyKey input, brec_Kind = bin_Kind input, brec_Period = bin_Period input,
      brec_RulesetVersion = bin_RulesetVersion input, brec_QualifiedMAUCount = bin_QualifiedMAUCount input,
      brec_CommitmentHash = bin_CommitmentHash input, brec_Revision = bin_Revision input,
      brec_SupersedesBatchID = bin_SupersedesBatchID input, brec_PayloadHash = bin_PayloadHash input,
      brec_AcceptedAt = bin_AcceptedAt input, brec_LedgerEntry = entry, brec_ReceiptSignature = receiptSignature\<rparr>"

text \<open>\<open>signReceipt\<close> is the callback of the service; \<open>None\<close> is its error.\<close>

definition AcceptInstallationBatch ::
  "(bytes \<Rightarrow> bytes) \<Rightarrow> registry_db \<Rightarrow> BatchInput \<Rightarrow> (LedgerEntry \<Rightarrow> string \<Rightarrow> bytes option)
    \<Rightarrow> store_error + registry_db \<times> BatchRecord \<times> bool" where
  "AcceptInstallationBatch H db input signReceipt =
     bindR (nonceState db (bin_Signer input) (bin_Nonce input) (bin_RequestHash input)) (\<lambda>nonceUsed.
     case readIdempotency db (bin_Signer input) (bin_IdempotencyKey input) of
       Some idempotency \<Rightarrow>
         if ir_PayloadHash idempotency \<noteq> bin_PayloadHash input then Inl ErrIdempotencyConflict
         else if ir_ResultType idempotency \<noteq> ''batch'' then Inl ErrInconsistentState
         else bindR (batchRecordByIDQuery db (ir_ResultID idempotency)) (\<lambda>record.
           bindR (if \<not> nonceUsed then insertNonce db (batchNonce input (ir_ResultID idempotency)) else Inr db) (\<lambda>db.
           Inr (db, record, True)))
     | None \<Rightarrow>
         if nonceUsed then Inl ErrInconsistentState
         else
           bindR (ensureAcceptedAtAfterRegistryCreation db (bin_AcceptedAt input)) (\<lambda>_.
           bindR (ensureAcceptedAtAfterCheckpoint db (bin_AcceptedAt input)) (\<lambda>_.
           bindR (ensureQualifiedMAURevision db input) (\<lambda>_.
           let head = ledgerHeadTx db in
           bindR (ensureAcceptedAtNotBeforeHead (bin_AcceptedAt input) (lh_AcceptedAt head)) (\<lambda>_.
           let entry = batchLedgerEntry H input head in
           bindR (from_option SigningFailed (signReceipt entry (bin_CheckpointDate input))) (\<lambda>receiptSignature.
           bindR (appendBatchTx H db input entry receiptSignature) (\<lambda>db.
           Inr (db, acceptedBatchRecord input entry receiptSignature, False))))))))"

subsection \<open>Verification of the ledger\<close>

definition has_suffix_Z :: "string \<Rightarrow> bool" where
  "has_suffix_Z s \<longleftrightarrow> s \<noteq> [] \<and> last s = CHR ''Z''"

fun verify_ledger_loop ::
  "(bytes \<Rightarrow> bytes) \<Rightarrow> string \<Rightarrow> int \<Rightarrow> string \<Rightarrow> int \<Rightarrow> LedgerEntry list \<Rightarrow> store_error + unit" where
  "verify_ledger_loop H registryScope expectedIndex previousHash previousAcceptedAt [] = Inr ()"
| "verify_ledger_loop H registryScope expectedIndex previousHash previousAcceptedAt (entry # rest) =
     (if le_LedgerIndex entry \<noteq> expectedIndex then Inl (LedgerVerification ''index'')
      else if le_RegistryScope entry \<noteq> registryScope then Inl (LedgerVerification ''scope'')
      else if le_PreviousEntryHash entry \<noteq> previousHash then Inl (LedgerVerification ''previous hash'')
      else case time_Parse_RFC3339Nano (le_AcceptedAt entry) of
          None \<Rightarrow> Inl (LedgerVerification ''accepted_at'')
        | Some acceptedAt \<Rightarrow>
            if \<not> has_suffix_Z (le_AcceptedAt entry) then Inl (LedgerVerification ''accepted_at'')
            else if expectedIndex > 1 \<and> acceptedAt < previousAcceptedAt then Inl (LedgerVerification ''monotonic'')
            else if le_EntryHash entry \<noteq> Digest H (LedgerEntryMessage entry) then Inl (LedgerVerification ''hash'')
            else verify_ledger_loop H registryScope (i64 (expectedIndex + 1)) (le_EntryHash entry) acceptedAt rest)"

definition VerifyLedger :: "(bytes \<Rightarrow> bytes) \<Rightarrow> registry_db \<Rightarrow> store_error + unit" where
  "VerifyLedger H db =
     (case registry_identity db of
        None \<Rightarrow> Inl (LedgerVerification ''identity'')
      | Some identity \<Rightarrow>
          verify_ledger_loop H (sri_RegistryScope identity) 1 ZeroHash 0 (sort_key le_LedgerIndex (ledger_entries db)))"

text \<open>One row of the left join of \<open>VerifyLedgerWeightRows\<close>.\<close>

definition verify_weight_row :: "registry_db \<Rightarrow> LedgerEntry \<Rightarrow> store_error + unit" where
  "verify_weight_row db l =
     (let row = find (\<lambda>w. lw_ledger_index w = le_LedgerIndex l) (ledger_weight_rows db);
          batch = find (\<lambda>b. mb_batch_id b = le_BatchID l) (mau_batches db) in
      if le_EntryType l = ''REVENUE_BATCH_ACCEPTED'' \<or> le_EntryType l = ''SETTLEMENT_CALCULATED''
      then (if row \<noteq> None then Inl (WeightRowVerification ''unexpected row'') else Inr ())
      else if le_EntryType l \<noteq> InstallationEntryType \<and> le_EntryType l \<noteq> QualifiedMAUEntryType
      then Inl (WeightRowVerification ''type'')
      else case row of
          None \<Rightarrow> Inl (WeightRowVerification ''missing row'')
        | Some w \<Rightarrow>
            if lw_ledger_index w \<noteq> le_LedgerIndex l then Inl (WeightRowVerification ''index'')
            else if lw_deployment_id w \<noteq> le_DeploymentID l then Inl (WeightRowVerification ''deployment'')
            else if lw_period w \<noteq> le_Period l then Inl (WeightRowVerification ''period'')
            else if (case batch of None \<Rightarrow> True | Some b \<Rightarrow> lw_revision w \<noteq> mb_revision b) then Inl (WeightRowVerification ''revision'')
            else if lw_ruleset_version w \<noteq> le_RulesetVersion l then Inl (WeightRowVerification ''ruleset'')
            else if lw_qualified_mau_count w \<noteq> le_QualifiedMAUCount l then Inl (WeightRowVerification ''count'')
            else if lw_weight_numerator w \<noteq> le_QualifiedMAUCount l then Inl (WeightRowVerification ''numerator'')
            else if lw_weight_denominator w \<noteq> 1 then Inl (WeightRowVerification ''denominator'')
            else if lw_accepted_at w \<noteq> le_AcceptedAt l then Inl (WeightRowVerification ''accepted_at'')
            else if lw_source_entry_hash w \<noteq> le_EntryHash l then Inl (WeightRowVerification ''source hash'')
            else Inr ())"

definition VerifyLedgerWeightRows :: "registry_db \<Rightarrow> store_error + unit" where
  "VerifyLedgerWeightRows db =
     bindR (each (verify_weight_row db) (sort_key le_LedgerIndex (ledger_entries db))) (\<lambda>_.
       if list_ex (\<lambda>w. case find (\<lambda>l. le_LedgerIndex l = lw_ledger_index w) (ledger_entries db) of
              None \<Rightarrow> True
            | Some l \<Rightarrow> le_EntryType l \<notin> {''INSTALLATION_TEST_BATCH_ACCEPTED'', ''QMAU_BATCH_ACCEPTED''}) (ledger_weight_rows db)
       then Inl (WeightRowVerification ''extra row'') else Inr ())"

subsection \<open>The verified chain\<close>

definition last_hash :: "LedgerEntry list \<Rightarrow> string" where
  "last_hash es = (if es = [] then ZeroHash else le_EntryHash (last es))"

lemma verify_ledger_loop_append:
  assumes "0 \<le> i" "i + int (length es) < 2 ^ 63"
  shows "verify_ledger_loop H s i p t (es @ es') = Inr () \<longleftrightarrow>
    verify_ledger_loop H s i p t es = Inr () \<and>
    verify_ledger_loop H s (i + int (length es)) (if es = [] then p else le_EntryHash (last es))
      (if es = [] then t else the (time_Parse_RFC3339Nano (le_AcceptedAt (last es)))) es' = Inr ()"
  using assms
proof (induction es arbitrary: i p t)
  case (Cons e es)
  have n: "i64 (i + 1) = i + 1" using Cons.prems by (intro i64_nonneg_id) simp_all
  have "i + 1 + int (length es) < 2 ^ 63" using Cons.prems(2) by simp
  note IH = Cons.IH [OF _ this]
  show ?case using Cons.prems(1) IH by (auto simp: n add.assoc split: option.splits)
qed simp

text \<open>What \<open>VerifyLedger\<close> checks of an entry after the entries \<open>es\<close>.\<close>

definition entry_extends :: "(bytes \<Rightarrow> bytes) \<Rightarrow> string \<Rightarrow> LedgerEntry list \<Rightarrow> LedgerEntry \<Rightarrow> bool" where
  "entry_extends H scope es e \<longleftrightarrow>
     le_LedgerIndex e = int (length es) + 1 \<and> le_RegistryScope e = scope \<and> le_PreviousEntryHash e = last_hash es \<and>
     has_suffix_Z (le_AcceptedAt e) \<and> le_EntryHash e = Digest H (LedgerEntryMessage e) \<and>
     (\<exists>t. time_Parse_RFC3339Nano (le_AcceptedAt e) = Some t \<and>
       (es \<noteq> [] \<longrightarrow> the (time_Parse_RFC3339Nano (le_AcceptedAt (last es))) \<le> t))"

lemma verify_ledger_loop_snoc:
  assumes "int (length es) + 1 < 2 ^ 63"
  shows "verify_ledger_loop H s 1 ZeroHash 0 (es @ [e]) = Inr () \<longleftrightarrow>
    verify_ledger_loop H s 1 ZeroHash 0 es = Inr () \<and> entry_extends H s es e"
  using assms
  by (subst verify_ledger_loop_append) (auto simp: entry_extends_def last_hash_def split: option.splits)

lemma verify_ledger_loop_indexes:
  assumes "verify_ledger_loop H s i p t es = Inr ()" "0 \<le> i" "i + int (length es) < 2 ^ 63"
  shows "map le_LedgerIndex es = map (\<lambda>k. i + int k) [0..<length es] \<and> (\<forall>e \<in> set es. le_EntryHash e = Digest H (LedgerEntryMessage e))"
  using assms
proof (induction es arbitrary: i p t)
  case (Cons e es)
  have n: "i64 (i + 1) = i + 1" using Cons.prems by (intro i64_nonneg_id) simp_all
  from Cons.prems(1) have e: "le_LedgerIndex e = i" "le_EntryHash e = Digest H (LedgerEntryMessage e)"
    and rest: "verify_ledger_loop H s (i + 1) (le_EntryHash e) (the (time_Parse_RFC3339Nano (le_AcceptedAt e))) es = Inr ()"
    by (auto simp: n split: option.splits if_splits)
  have "[0..<length (e # es)] = 0 # map Suc [0..<length es]" by (simp add: upt_conv_Cons map_Suc_upt del: upt_Suc)
  moreover have "map le_LedgerIndex es = map (\<lambda>k. i + 1 + int k) [0..<length es] \<and> (\<forall>e \<in> set es. le_EntryHash e = Digest H (LedgerEntryMessage e))"
    using Cons.IH [OF rest] Cons.prems(2,3) by simp
  ultimately show ?case using e by (simp del: upt_Suc)
qed simp

text \<open>Rows in insertion order are in index order.\<close>

definition ledger_sorted :: "registry_db \<Rightarrow> bool" where
  "ledger_sorted db \<longleftrightarrow> sorted (map le_LedgerIndex (ledger_entries db))"

lemma VerifyLedger_unfold:
  assumes "ledger_sorted db"
  shows "VerifyLedger H db = Inr () \<longleftrightarrow> (\<exists>identity. registry_identity db = Some identity \<and>
    verify_ledger_loop H (sri_RegistryScope identity) 1 ZeroHash 0 (ledger_entries db) = Inr ())"
  using assms by (auto simp: VerifyLedger_def ledger_sorted_def sort_key_id_if_sorted split: option.splits)

lemma VerifyLedger_contiguous:
  assumes "digest32 H" "ledger_sorted db" "VerifyLedger H db = Inr ()" "length (ledger_entries db) \<le> 2 ^ 62"
  shows "ledger_contiguous db"
proof -
  have n: "1 + int (length (ledger_entries db)) < 2 ^ 63" using assms(4) by simp
  obtain identity :: StoreRegistryIdentity where "verify_ledger_loop H (sri_RegistryScope identity) 1 ZeroHash 0 (ledger_entries db) = Inr ()"
    using assms(3) VerifyLedger_unfold [OF assms(2)] by blast
  from verify_ledger_loop_indexes [OF this _ n] show ?thesis
    using digest32.IsDigest_Digest [OF assms(1)] by (simp add: ledger_contiguous_def list_all_iff add.commute)
qed

lemma select_max_sorted:
  "sorted (map key rows) \<Longrightarrow> select_max key rows = (if rows = [] then None else Some (last rows))"
  by (simp add: select_max_def sort_key_id_if_sorted)

lemma ledgerHeadTx_sorted:
  assumes "ledger_sorted db"
  shows "ledgerHeadTx db = (if ledger_entries db = [] then \<lparr>lh_LedgerIndex = 0, lh_EntryCount = 0, lh_EntryHash = ZeroHash, lh_AcceptedAt = []\<rparr>
    else \<lparr>lh_LedgerIndex = le_LedgerIndex (last (ledger_entries db)), lh_EntryCount = le_LedgerIndex (last (ledger_entries db)),
          lh_EntryHash = le_EntryHash (last (ledger_entries db)), lh_AcceptedAt = le_AcceptedAt (last (ledger_entries db))\<rparr>)"
  using assms by (simp add: ledgerHeadTx_def ledger_sorted_def select_max_sorted)

lemma time_Parse_empty [simp]: "time_Parse_RFC3339Nano [] = None"
  by (simp add: time_Parse_RFC3339Nano_def parse_date_def)

lemma LedgerEntryMessage_hash [simp]: "LedgerEntryMessage (le_EntryHash_update f e) = LedgerEntryMessage e"
  by (simp add: LedgerEntryMessage_def)

lemma batchLedgerEntry_simps [simp]:
  "le_LedgerIndex (batchLedgerEntry H input head) = i64 (lh_LedgerIndex head + 1)"
  "le_RegistryScope (batchLedgerEntry H input head) = bin_RegistryScope input"
  "le_DeploymentID (batchLedgerEntry H input head) = bin_DeploymentID input"
  "le_BatchID (batchLedgerEntry H input head) = bin_CandidateBatchID input"
  "le_Kind (batchLedgerEntry H input head) = bin_Kind input"
  "le_Period (batchLedgerEntry H input head) = bin_Period input"
  "le_RulesetVersion (batchLedgerEntry H input head) = bin_RulesetVersion input"
  "le_QualifiedMAUCount (batchLedgerEntry H input head) = bin_QualifiedMAUCount input"
  "le_BatchHash (batchLedgerEntry H input head) = bin_PayloadHash input"
  "le_PreviousEntryHash (batchLedgerEntry H input head) = lh_EntryHash head"
  "le_AcceptedAt (batchLedgerEntry H input head) = bin_AcceptedAt input"
  "le_EntryType (batchLedgerEntry H input head) = (if bin_Kind input = QualifiedMAUKind then QualifiedMAUEntryType else InstallationEntryType)"
  by (simp_all add: batchLedgerEntry_def Let_def)

lemma batchLedgerEntry_hash: "le_EntryHash (batchLedgerEntry H input head) = Digest H (LedgerEntryMessage (batchLedgerEntry H input head))"
  unfolding batchLedgerEntry_def Let_def LedgerEntryMessage_hash by simp

text \<open>An entry built on the head extends the chain.\<close>

lemma head_entry_extends:
  assumes "digest32 H" "ledger_sorted db" "VerifyLedger H db = Inr ()" "length (ledger_entries db) < 2 ^ 62"
    and "has_suffix_Z t"
    and "ensureAcceptedAtAfterRegistryCreation db t = Inr ()"
    and "ensureAcceptedAtNotBeforeHead t (lh_AcceptedAt (ledgerHeadTx db)) = Inr ()"
    and e: "le_LedgerIndex e = i64 (lh_LedgerIndex (ledgerHeadTx db) + 1)" "le_RegistryScope e = scope"
      "le_PreviousEntryHash e = lh_EntryHash (ledgerHeadTx db)" "le_AcceptedAt e = t"
      "le_EntryHash e = Digest H (LedgerEntryMessage e)"
  shows "entry_extends H scope (ledger_entries db) e"
proof -
  have lc: "ledger_contiguous db" using assms(1-4) by (intro VerifyLedger_contiguous) simp_all
  obtain u where u: "time_Parse_RFC3339Nano t = Some u"
    using assms(6) by (auto simp: ensureAcceptedAtAfterRegistryCreation_def split: option.splits if_splits)
  show ?thesis
  proof (cases "ledger_entries db = []")
    case True
    have "i64 1 = 1" by (simp add: i64_nonneg_id)
    with True u assms(5) e show ?thesis
      by (simp add: ledgerHeadTx_sorted [OF assms(2)] entry_extends_def last_hash_def)
  next
    case False
    let ?n = "length (ledger_entries db)"
    have idx: "le_LedgerIndex (last (ledger_entries db)) = int ?n"
      using ledger_contiguous_nth(1) [OF lc, of "?n - 1"] False by (cases ?n) (simp_all add: last_conv_nth)
    have n: "int ?n + 1 \<le> 2 ^ 62" using assms(4) by simp
    then have i: "i64 (int ?n + 1) = int ?n + 1" by (intro i64_nonneg_id) simp_all
    obtain id' :: StoreRegistryIdentity where "verify_ledger_loop H (sri_RegistryScope id') 1 ZeroHash 0 (butlast (ledger_entries db) @ [last (ledger_entries db)]) = Inr ()"
      using assms(3) False VerifyLedger_unfold [OF assms(2)] by auto
    then have "entry_extends H (sri_RegistryScope id') (butlast (ledger_entries db)) (last (ledger_entries db))"
      using n by (subst (asm) verify_ledger_loop_snoc) (simp_all add: of_nat_diff)
    then have "le_AcceptedAt (last (ledger_entries db)) \<noteq> []" by (auto simp: entry_extends_def has_suffix_Z_def)
    then have "the (time_Parse_RFC3339Nano (le_AcceptedAt (last (ledger_entries db)))) \<le> u"
      using assms(7) u False
      by (auto simp: ledgerHeadTx_sorted [OF assms(2)] ensureAcceptedAtNotBeforeHead_def split: option.splits if_splits)
    with False u i idx assms(5) e show ?thesis
      by (simp add: ledgerHeadTx_sorted [OF assms(2)] entry_extends_def last_hash_def)
  qed
qed

subsection \<open>An accepted batch keeps every verification\<close>

text \<open>What the startup verification establishes of the ledger, its Merkle index and its weight rows,
  with the two facts about rows that the schema enforces.\<close>

definition ledger_verified :: "(bytes \<Rightarrow> bytes) \<Rightarrow> registry_db \<Rightarrow> bool" where
  "ledger_verified H db \<longleftrightarrow> ledger_sorted db \<and> merkle_rows_ok (ledger_merkle_nodes db) \<and>
     VerifyLedger H db = Inr () \<and> VerifyMerkleTree H db = Inr () \<and> VerifyLedgerWeightRows db = Inr ()"

text \<open>The verifications read only the identity, the ledger, the node table, the weight rows and the batches.\<close>

lemma merkle_levels_ok_cong:
  "ledger_merkle_nodes db = ledger_merkle_nodes db' \<Longrightarrow> merkle_levels_ok db l w = merkle_levels_ok db' l w"
proof (induction db l w rule: merkle_levels_ok.induct)
  case (1 db level width)
  then show ?case by (subst (1 2) merkle_levels_ok.simps) (simp add: Let_def cong: if_cong)
qed

lemma completeMerkleSubtreeTx_cong:
  assumes "ledger_entries db = ledger_entries db'" "ledger_merkle_nodes db = ledger_merkle_nodes db'"
  shows "completeMerkleSubtreeTx H db l i = completeMerkleSubtreeTx H db' l i"
  by (simp add: completeMerkleSubtreeTx_def assms)

lemma VerifyMerkleTree_cong:
  assumes "ledger_entries db = ledger_entries db'" "ledger_merkle_nodes db = ledger_merkle_nodes db'"
  shows "VerifyMerkleTree H db = VerifyMerkleTree H db'"
  by (simp add: VerifyMerkleTree_def Let_def completeMerkleSubtreeTx_cong [OF assms] merkle_levels_ok_cong [OF assms(2)] assms cong: if_cong)

lemma VerifyLedger_cong:
  "ledger_entries db = ledger_entries db' \<Longrightarrow> registry_identity db = registry_identity db' \<Longrightarrow> VerifyLedger H db = VerifyLedger H db'"
  by (simp add: VerifyLedger_def split: option.split)

lemma VerifyLedgerWeightRows_iff:
  "VerifyLedgerWeightRows db = Inr () \<longleftrightarrow>
     (\<forall>l \<in> set (ledger_entries db). verify_weight_row db l = Inr ()) \<and>
     (\<forall>w \<in> set (ledger_weight_rows db). \<exists>l. find (\<lambda>l. le_LedgerIndex l = lw_ledger_index w) (ledger_entries db) = Some l \<and>
        le_EntryType l \<in> {InstallationEntryType, QualifiedMAUEntryType})"
  by (auto simp: VerifyLedgerWeightRows_def result_simps list_ex_iff InstallationEntryType_def QualifiedMAUEntryType_def
      split: option.splits)

lemma find_append: "find P (xs @ ys) = (case find P xs of None \<Rightarrow> find P ys | Some x \<Rightarrow> Some x)"
  by (induction xs) auto

lemma find_None_notin: "find (\<lambda>x. f x = k) xs = None \<longleftrightarrow> k \<notin> f ` set xs"
  by (auto simp: find_None_iff)

text \<open>A new entry with its weight row and its batch.\<close>

definition weight_row_of :: "LedgerEntry \<Rightarrow> int \<Rightarrow> weight_row" where
  "weight_row_of e revision =
     \<lparr>lw_ledger_index = le_LedgerIndex e, lw_deployment_id = le_DeploymentID e, lw_period = le_Period e,
      lw_revision = revision, lw_ruleset_version = le_RulesetVersion e,
      lw_qualified_mau_count = le_QualifiedMAUCount e, lw_weight_numerator = le_QualifiedMAUCount e,
      lw_weight_denominator = 1, lw_accepted_at = le_AcceptedAt e, lw_source_entry_hash = le_EntryHash e\<rparr>"

lemma weight_row_of_iff: "w = weight_row_of e r \<longleftrightarrow> lw_ledger_index w = le_LedgerIndex e \<and> lw_deployment_id w = le_DeploymentID e \<and>
    lw_period w = le_Period e \<and> lw_revision w = r \<and> lw_ruleset_version w = le_RulesetVersion e \<and>
    lw_qualified_mau_count w = le_QualifiedMAUCount e \<and> lw_weight_numerator w = le_QualifiedMAUCount e \<and>
    lw_weight_denominator w = 1 \<and> lw_accepted_at w = le_AcceptedAt e \<and> lw_source_entry_hash w = le_EntryHash e"
  by (cases w) (auto simp: weight_row_of_def)

abbreviation weight_entry :: "LedgerEntry \<Rightarrow> bool" where
  "weight_entry l \<equiv> le_EntryType l \<in> {InstallationEntryType, QualifiedMAUEntryType}"

abbreviation row_of :: "registry_db \<Rightarrow> int \<Rightarrow> weight_row option" where
  "row_of db i \<equiv> find (\<lambda>w. lw_ledger_index w = i) (ledger_weight_rows db)"

abbreviation batch_of :: "registry_db \<Rightarrow> string \<Rightarrow> mau_row option" where
  "batch_of db i \<equiv> find (\<lambda>b. mb_batch_id b = i) (mau_batches db)"

lemma verify_weight_row_plain:
  assumes "\<not> weight_entry l"
  shows "verify_weight_row db l = Inr () \<longleftrightarrow>
    (le_EntryType l = ''REVENUE_BATCH_ACCEPTED'' \<or> le_EntryType l = ''SETTLEMENT_CALCULATED'') \<and> row_of db (le_LedgerIndex l) = None"
  using assms by (auto simp: verify_weight_row_def Let_def InstallationEntryType_def QualifiedMAUEntryType_def)

lemma verify_weight_row_entry:
  assumes "weight_entry l"
  shows "verify_weight_row db l = Inr () \<longleftrightarrow> (\<exists>b. batch_of db (le_BatchID l) = Some b \<and> row_of db (le_LedgerIndex l) = Some (weight_row_of l (mb_revision b)))"
proof -
  have "\<not> (le_EntryType l = ''REVENUE_BATCH_ACCEPTED'' \<or> le_EntryType l = ''SETTLEMENT_CALCULATED'')"
    "\<not> (le_EntryType l \<noteq> InstallationEntryType \<and> le_EntryType l \<noteq> QualifiedMAUEntryType)"
    using assms by (auto simp: InstallationEntryType_def QualifiedMAUEntryType_def)
  note type = this [THEN if_not_P]
  show ?thesis
  proof (cases "row_of db (le_LedgerIndex l)")
    case None
    then show ?thesis by (simp add: verify_weight_row_def Let_def type)
  next
    case (Some w)
    then show ?thesis
      by (cases "batch_of db (le_BatchID l)") (simp_all add: verify_weight_row_def Let_def type weight_row_of_iff)
  qed
qed

lemma verify_weight_row_extend:
  assumes "verify_weight_row db l = Inr ()" "le_LedgerIndex l \<noteq> lw_ledger_index w"
    and "ledger_weight_rows db' = ledger_weight_rows db @ [w]" "mau_batches db' = mau_batches db @ [b]"
  shows "verify_weight_row db' l = Inr ()"
proof (cases "weight_entry l")
  case True
  with assms show ?thesis by (auto simp: verify_weight_row_entry find_append)
next
  case False
  with assms show ?thesis by (simp add: verify_weight_row_plain find_append)
qed

lemma VerifyLedgerWeightRows_extend:
  assumes old: "VerifyLedgerWeightRows db = Inr ()"
    and rows: "ledger_entries db' = ledger_entries db @ [e]" "ledger_weight_rows db' = ledger_weight_rows db @ [w]"
      "mau_batches db' = mau_batches db @ [b]"
    and new: "le_LedgerIndex e \<notin> le_LedgerIndex ` set (ledger_entries db)" "lw_ledger_index w \<notin> lw_ledger_index ` set (ledger_weight_rows db)"
      "mb_batch_id b \<notin> mb_batch_id ` set (mau_batches db)" "le_EntryType e \<in> {InstallationEntryType, QualifiedMAUEntryType}"
    and w: "w = weight_row_of e (mb_revision b)"
    and b: "mb_batch_id b = le_BatchID e"
  shows "VerifyLedgerWeightRows db' = Inr ()"
proof -
  have "lw_ledger_index w = le_LedgerIndex e" by (simp add: w weight_row_of_def)
  with new(2,3) b have "row_of db' (le_LedgerIndex e) = Some w" "batch_of db' (le_BatchID e) = Some b"
    by (simp_all add: rows find_append find_None_notin [THEN iffD2])
  then have "verify_weight_row db' e = Inr ()" using new(4) w by (simp add: verify_weight_row_entry)
  moreover have "verify_weight_row db' l = Inr ()" if "l \<in> set (ledger_entries db)" for l
  proof (rule verify_weight_row_extend [OF _ _ rows(2,3)])
    show "verify_weight_row db l = Inr ()" using old that by (simp add: VerifyLedgerWeightRows_iff)
    show "le_LedgerIndex l \<noteq> lw_ledger_index w" using that new(1) \<open>lw_ledger_index w = le_LedgerIndex e\<close> by (metis imageI)
  qed
  moreover have "find (\<lambda>l. le_LedgerIndex l = lw_ledger_index w) (ledger_entries db') = Some e"
    using new(1) by (simp add: rows w weight_row_of_def find_append find_None_notin [THEN iffD2])
  moreover have "\<exists>l. find (\<lambda>l. le_LedgerIndex l = lw_ledger_index v) (ledger_entries db') = Some l \<and> weight_entry l"
    if "v \<in> set (ledger_weight_rows db)" for v
    using old that by (auto simp: VerifyLedgerWeightRows_iff rows find_append)
  ultimately show ?thesis using new(4) by (auto simp: VerifyLedgerWeightRows_iff rows)
qed

text \<open>A new entry of a type that has no weight row.\<close>

lemma VerifyLedgerWeightRows_extend_plain:
  assumes old: "VerifyLedgerWeightRows db = Inr ()"
    and rows: "ledger_entries db' = ledger_entries db @ [e]" "ledger_weight_rows db' = ledger_weight_rows db" "mau_batches db' = mau_batches db"
    and new: "le_LedgerIndex e \<notin> le_LedgerIndex ` set (ledger_entries db)" "le_EntryType e \<in> {RevenueEntryType, SettlementEntryType}"
  shows "VerifyLedgerWeightRows db' = Inr ()"
proof -
  have same: "verify_weight_row db' = verify_weight_row db" by (rule ext) (simp add: verify_weight_row_def rows)
  have old': "\<exists>l. find (\<lambda>l. le_LedgerIndex l = lw_ledger_index w) (ledger_entries db) = Some l \<and> weight_entry l"
    if "w \<in> set (ledger_weight_rows db)" for w using old that by (auto simp: VerifyLedgerWeightRows_iff)
  have "lw_ledger_index w \<noteq> le_LedgerIndex e" if w: "w \<in> set (ledger_weight_rows db)" for w
  proof -
    obtain l where "find (\<lambda>l. le_LedgerIndex l = lw_ledger_index w) (ledger_entries db) = Some l" using old' [OF w] by blast
    then have "l \<in> set (ledger_entries db)" "le_LedgerIndex l = lw_ledger_index w" by (auto simp: find_Some_iff)
    with new(1) show ?thesis by (metis imageI)
  qed
  then have "row_of db (le_LedgerIndex e) = None" by (simp add: find_None_iff)
  moreover have "\<not> weight_entry e" using new(2) by (auto simp: InstallationEntryType_def QualifiedMAUEntryType_def money_constants)
  ultimately have "verify_weight_row db e = Inr ()"
    using new(2) by (auto simp: verify_weight_row_plain money_constants)
  with old show ?thesis by (auto simp: VerifyLedgerWeightRows_iff rows same find_append)
qed

text \<open>What a successful \<open>appendBatchTx\<close> does to the tables.\<close>

definition mau_row_of :: "BatchInput \<Rightarrow> LedgerEntry \<Rightarrow> bytes \<Rightarrow> mau_row" where
  "mau_row_of input entry receiptSignature =
     \<lparr>mb_batch_id = bin_CandidateBatchID input, mb_deployment_id = bin_DeploymentID input,
      mb_idempotency_key = bin_IdempotencyKey input, mb_request_timestamp = bin_RequestTimestamp input,
      mb_request_nonce = bin_Nonce input, mb_deployment_signature = bin_DeploymentSignature input, mb_kind = bin_Kind input,
      mb_period = bin_Period input, mb_ruleset_version = bin_RulesetVersion input,
      mb_qualified_mau_count = bin_QualifiedMAUCount input, mb_commitment_hash = bin_CommitmentHash input,
      mb_revision = bin_Revision input, mb_supersedes_batch_id = bin_SupersedesBatchID input,
      mb_payload_hash = bin_PayloadHash input, mb_accepted_at = bin_AcceptedAt input,
      mb_ledger_index = le_LedgerIndex entry, mb_receipt_signature = receiptSignature\<rparr>"

definition idempotency_row_of :: "BatchInput \<Rightarrow> idempotency_row" where
  "idempotency_row_of input = \<lparr>idr_signer = bin_Signer input, idr_idempotency_key = bin_IdempotencyKey input,
     idr_payload_hash = bin_PayloadHash input, idr_result_type = ''batch'', idr_result_id = bin_CandidateBatchID input,
     idr_accepted_at = bin_AcceptedAt input\<rparr>"

lemma mau_row_of_simps [simp]:
  "mb_batch_id (mau_row_of input entry sig) = bin_CandidateBatchID input"
  "mb_revision (mau_row_of input entry sig) = bin_Revision input"
  by (simp_all add: mau_row_of_def)

definition batch_appended :: "registry_db \<Rightarrow> BatchInput \<Rightarrow> LedgerEntry \<Rightarrow> bytes \<Rightarrow> registry_db \<Rightarrow> registry_db" where
  "batch_appended db input entry sig db1 = db1\<lparr>
     ledger_weight_rows := ledger_weight_rows db @ [weight_row_of entry (bin_Revision input)],
     mau_batches := mau_batches db @ [mau_row_of input entry sig],
     used_nonces := used_nonces db @ [batchNonce input (bin_CandidateBatchID input)],
     idempotency_records := idempotency_records db @ [idempotency_row_of input]\<rparr>"

lemma ledger_contiguous_sorted: "ledger_contiguous db \<Longrightarrow> ledger_sorted db"
  by (auto simp: ledger_contiguous_def ledger_sorted_def sorted_iff_nth_mono)

lemma insert_merkle_node_frame:
  "insert_merkle_node d l i h = Inr d' \<Longrightarrow> \<exists>nodes. d' = d\<lparr>ledger_merkle_nodes := nodes\<rparr>"
  by (auto simp: insert_merkle_node_def split: if_splits)

lemma appendMerkle_loop_frame:
  "appendMerkle_loop H d l i h = Inr d' \<Longrightarrow> \<exists>nodes. d' = d\<lparr>ledger_merkle_nodes := nodes\<rparr>"
proof (induction H d l i h arbitrary: d' rule: appendMerkle_loop.induct)
  case (1 H d nodeIndex level current)
  show ?case
  proof (cases "odd nodeIndex")
    case True
    with "1.prems" obtain left d1 where left: "completeMerkleSubtreeTx H d (int level) (int nodeIndex - 1) = Inr left"
      and d1: "insert_merkle_node d (int (level + 1)) (int (nodeIndex div 2)) (merkleNodeBytes H left current) = Inr d1"
      and rest: "appendMerkle_loop H d1 (nodeIndex div 2) (level + 1) (merkleNodeBytes H left current) = Inr d'"
      by (subst (asm) appendMerkle_loop.simps) (auto simp: Let_def result_simps)
    from "1.IH" [OF True left refl refl refl d1 rest] insert_merkle_node_frame [OF d1] show ?thesis by auto
  next
    case False
    with "1.prems" have "d' = d\<lparr>ledger_merkle_nodes := ledger_merkle_nodes d\<rparr>"
      by (subst (asm) appendMerkle_loop.simps) simp
    then show ?thesis by blast
  qed
qed

lemma appendMerkleEntryTx_frame:
  "appendMerkleEntryTx H d i h = Inr d' \<Longrightarrow> \<exists>nodes. d' = d\<lparr>ledger_merkle_nodes := nodes\<rparr>"
  by (auto simp: appendMerkleEntryTx_def result_simps dest: appendMerkle_loop_frame split: if_splits)

lemma appendBatchTx_Inr:
  assumes "appendBatchTx H db input entry sig = Inr db'"
  obtains nodes where
    "appendMerkleEntryTx H (db\<lparr>ledger_entries := ledger_entries db @ [entry]\<rparr>) (le_LedgerIndex entry) (le_EntryHash entry) =
       Inr (db\<lparr>ledger_entries := ledger_entries db @ [entry], ledger_merkle_nodes := nodes\<rparr>)"
    "db' = batch_appended db input entry sig (db\<lparr>ledger_entries := ledger_entries db @ [entry], ledger_merkle_nodes := nodes\<rparr>)"
    "le_LedgerIndex entry \<notin> le_LedgerIndex ` set (ledger_entries db)"
    "le_LedgerIndex entry \<notin> lw_ledger_index ` set (ledger_weight_rows db)"
    "bin_CandidateBatchID input \<notin> mb_batch_id ` set (mau_batches db)"
proof -
  from assms obtain db1 db2 db3 db4 db5 where
    1: "insert_ledger_entry db entry = Inr db1" and
    2: "appendMerkleEntryTx H db1 (le_LedgerIndex entry) (le_EntryHash entry) = Inr db2" and
    3: "insert_weight_row db2 (weight_row_of entry (bin_Revision input)) = Inr db3" and
    4: "insert_mau_batch db3 (mau_row_of input entry sig) = Inr db4" and
    5: "insertNonce db4 (batchNonce input (bin_CandidateBatchID input)) = Inr db5" and
    6: "insertIdempotency db5 (bin_Signer input) (bin_IdempotencyKey input) (bin_PayloadHash input) ''batch''
       (bin_CandidateBatchID input) (bin_AcceptedAt input) = Inr db'"
    by (auto simp: appendBatchTx_def result_simps weight_row_of_def mau_row_of_def)
  from 1 have e1: "db1 = db\<lparr>ledger_entries := ledger_entries db @ [entry]\<rparr>"
    and n1: "le_LedgerIndex entry \<notin> le_LedgerIndex ` set (ledger_entries db)"
    by (simp_all add: insert_ledger_entry_def split: if_splits)
  from appendMerkleEntryTx_frame [OF 2] obtain nodes where e2: "db2 = db1\<lparr>ledger_merkle_nodes := nodes\<rparr>" by blast
  from 3 have e3: "db3 = db2\<lparr>ledger_weight_rows := ledger_weight_rows db @ [weight_row_of entry (bin_Revision input)]\<rparr>"
    and n3: "le_LedgerIndex entry \<notin> lw_ledger_index ` set (ledger_weight_rows db)"
    by (simp_all add: insert_weight_row_def weight_row_of_def e1 e2 split: if_splits)
  from 4 have e4: "db4 = db3\<lparr>mau_batches := mau_batches db @ [mau_row_of input entry sig]\<rparr>"
    and n4: "bin_CandidateBatchID input \<notin> mb_batch_id ` set (mau_batches db)"
    by (simp_all add: insert_mau_batch_def e1 e2 e3 split: if_splits)
  from 5 have e5: "db5 = db4\<lparr>used_nonces := used_nonces db @ [batchNonce input (bin_CandidateBatchID input)]\<rparr>"
    by (simp add: insertNonce_def e1 e2 e3 e4 split: if_splits)
  from 6 have "db' = db5\<lparr>idempotency_records := idempotency_records db @ [idempotency_row_of input]\<rparr>"
    by (simp add: insertIdempotency_def idempotency_row_of_def e1 e2 e3 e4 e5 split: if_splits)
  then have "db' = batch_appended db input entry sig (db\<lparr>ledger_entries := ledger_entries db @ [entry], ledger_merkle_nodes := nodes\<rparr>)"
    by (simp add: batch_appended_def e1 e2 e3 e4 e5)
  with 2 n1 n3 n4 show ?thesis by (intro that) (simp_all add: e1 e2)
qed

text \<open>The three ways \<open>AcceptInstallationBatch\<close> succeeds: a retry whose nonce is known, a retry with a
  fresh nonce, and a new batch.\<close>

lemma AcceptInstallationBatch_cases:
  assumes "AcceptInstallationBatch H db input signReceipt = Inr (db', record, duplicate)"
  obtains (known) "duplicate" "db' = db"
  | (retry) "duplicate" "\<exists>n. db' = db\<lparr>used_nonces := used_nonces db @ [n]\<rparr>"
  | (fresh) sig where "\<not> duplicate"
      "ensureAcceptedAtAfterRegistryCreation db (bin_AcceptedAt input) = Inr ()"
      "ensureAcceptedAtNotBeforeHead (bin_AcceptedAt input) (lh_AcceptedAt (ledgerHeadTx db)) = Inr ()"
      "signReceipt (batchLedgerEntry H input (ledgerHeadTx db)) (bin_CheckpointDate input) = Some sig"
      "appendBatchTx H db input (batchLedgerEntry H input (ledgerHeadTx db)) sig = Inr db'"
      "record = acceptedBatchRecord input (batchLedgerEntry H input (ledgerHeadTx db)) sig"
      "nonceState db (bin_Signer input) (bin_Nonce input) (bin_RequestHash input) = Inr False"
      "readIdempotency db (bin_Signer input) (bin_IdempotencyKey input) = None"
      "ensureQualifiedMAURevision db input = Inr ()"
proof (cases "readIdempotency db (bin_Signer input) (bin_IdempotencyKey input)")
  case None
  with assms obtain sig where "\<not> duplicate"
      "ensureAcceptedAtAfterRegistryCreation db (bin_AcceptedAt input) = Inr ()"
      "ensureAcceptedAtNotBeforeHead (bin_AcceptedAt input) (lh_AcceptedAt (ledgerHeadTx db)) = Inr ()"
      "signReceipt (batchLedgerEntry H input (ledgerHeadTx db)) (bin_CheckpointDate input) = Some sig"
      "appendBatchTx H db input (batchLedgerEntry H input (ledgerHeadTx db)) sig = Inr db'"
      "record = acceptedBatchRecord input (batchLedgerEntry H input (ledgerHeadTx db)) sig"
      "nonceState db (bin_Signer input) (bin_Nonce input) (bin_RequestHash input) = Inr False"
      "readIdempotency db (bin_Signer input) (bin_IdempotencyKey input) = None"
      "ensureQualifiedMAURevision db input = Inr ()"
    by (auto simp: AcceptInstallationBatch_def Let_def result_simps split: if_splits)
  then show thesis by (rule fresh)
next
  case (Some idempotency)
  with assms have "duplicate" "db' = db \<or> insertNonce db (batchNonce input (ir_ResultID idempotency)) = Inr db'"
    by (auto simp: AcceptInstallationBatch_def Let_def result_simps split: if_splits)
  then show thesis by (auto simp: insertNonce_def split: if_splits intro: known retry)
qed

lemma batch_appended_simps [simp]:
  "ledger_entries (batch_appended db input e sig db1) = ledger_entries db1"
  "ledger_merkle_nodes (batch_appended db input e sig db1) = ledger_merkle_nodes db1"
  "registry_identity (batch_appended db input e sig db1) = registry_identity db1"
  "ledger_weight_rows (batch_appended db input e sig db1) = ledger_weight_rows db @ [weight_row_of e (bin_Revision input)]"
  "mau_batches (batch_appended db input e sig db1) = mau_batches db @ [mau_row_of input e sig]"
  "checkpoints (batch_appended db input e sig db1) = checkpoints db1"
  "deployments (batch_appended db input e sig db1) = deployments db1"
  by (simp_all add: batch_appended_def)

lemma ledger_verified_cong:
  assumes "ledger_entries db = ledger_entries db'" "ledger_merkle_nodes db = ledger_merkle_nodes db'"
    and "registry_identity db = registry_identity db'" "ledger_weight_rows db = ledger_weight_rows db'" "mau_batches db = mau_batches db'"
  shows "ledger_verified H db = ledger_verified H db'"
proof -
  have "verify_weight_row db = verify_weight_row db'" by (rule ext) (simp add: verify_weight_row_def assms)
  then have "VerifyLedgerWeightRows db = VerifyLedgerWeightRows db'" by (simp add: VerifyLedgerWeightRows_def assms)
  then show ?thesis
    by (simp add: ledger_verified_def ledger_sorted_def VerifyMerkleTree_cong [OF assms(1,2)] VerifyLedger_cong [OF assms(1,3)] assms(1,2))
qed

text \<open>A batch the deployment's registry may append: its scope is the registry's and its acceptance time is
  in UTC, as the service builds it.\<close>

definition batch_for :: "registry_db \<Rightarrow> BatchInput \<Rightarrow> bool" where
  "batch_for db input \<longleftrightarrow> (\<exists>identity. registry_identity db = Some identity \<and> bin_RegistryScope input = sri_RegistryScope identity) \<and>
     has_suffix_Z (bin_AcceptedAt input)"

text \<open>Appending an entry that extends the chain, and its nodes, keeps the chain and the index verified.\<close>

lemma append_entry_verified:
  assumes H: "digest32 H" and v: "ledger_verified H db" and n: "length (ledger_entries db) < 2 ^ 62"
    and ident: "registry_identity db = Some identity"
    and ext: "entry_extends H (sri_RegistryScope identity) (ledger_entries db) e"
    and nodes: "appendMerkleEntryTx H (db\<lparr>ledger_entries := ledger_entries db @ [e]\<rparr>) (le_LedgerIndex e) (le_EntryHash e) =
      Inr (db\<lparr>ledger_entries := ledger_entries db @ [e], ledger_merkle_nodes := nodes\<rparr>)"
    and db': "ledger_entries db' = ledger_entries db @ [e]" "ledger_merkle_nodes db' = nodes" "registry_identity db' = registry_identity db"
  shows "ledger_sorted db' \<and> merkle_rows_ok (ledger_merkle_nodes db') \<and> VerifyLedger H db' = Inr () \<and> VerifyMerkleTree H db' = Inr ()"
proof -
  let ?db1 = "db\<lparr>ledger_entries := ledger_entries db @ [e]\<rparr>"
  note v' = v [unfolded ledger_verified_def]
  have lc: "ledger_contiguous db" using v' n by (intro VerifyLedger_contiguous [OF H]) auto
  have "le_LedgerIndex e = int (length (ledger_entries db)) + 1" "IsDigest (le_EntryHash e)"
    using ext digest32.IsDigest_Digest [OF H] by (auto simp: entry_extends_def)
  then have lc1: "ledger_contiguous ?db1" using lc by (simp add: ledger_contiguous_def)
  have "\<exists>nodes'. appendMerkleEntryTx H ?db1 (le_LedgerIndex e) (le_EntryHash e) = Inr (?db1\<lparr>ledger_merkle_nodes := nodes'\<rparr>) \<and>
      merkle_rows_ok nodes' \<and> VerifyMerkleTree H (?db1\<lparr>ledger_merkle_nodes := nodes'\<rparr>) = Inr ()"
    using v' n by (intro appendMerkleEntryTx_verified [OF H lc1, of db]) simp_all
  then obtain nodes' where nodes': "?db1\<lparr>ledger_merkle_nodes := nodes\<rparr> = ?db1\<lparr>ledger_merkle_nodes := nodes'\<rparr>"
      "merkle_rows_ok nodes'" "VerifyMerkleTree H (?db1\<lparr>ledger_merkle_nodes := nodes'\<rparr>) = Inr ()" using nodes by auto
  have "nodes' = nodes" using arg_cong [OF nodes'(1), of ledger_merkle_nodes] by simp
  with nodes' have m: "merkle_rows_ok nodes" "VerifyMerkleTree H (?db1\<lparr>ledger_merkle_nodes := nodes\<rparr>) = Inr ()" by auto
  have sorted: "ledger_sorted ?db1" using lc1 by (rule ledger_contiguous_sorted)
  have "int (length (ledger_entries db)) + 1 < 2 ^ 63" using n by simp
  moreover have "verify_ledger_loop H (sri_RegistryScope identity) 1 ZeroHash 0 (ledger_entries db) = Inr ()"
    using v' ident VerifyLedger_unfold [of db H] by auto
  ultimately have "VerifyLedger H ?db1 = Inr ()"
    using ident ext by (simp add: VerifyLedger_unfold sorted verify_ledger_loop_snoc)
  moreover have "VerifyLedger H db' = VerifyLedger H ?db1" "VerifyMerkleTree H db' = VerifyMerkleTree H (?db1\<lparr>ledger_merkle_nodes := nodes\<rparr>)"
    by (intro VerifyLedger_cong VerifyMerkleTree_cong; simp add: db')+
  ultimately show ?thesis using m sorted by (simp add: ledger_sorted_def db')
qed

lemma appendBatchTx_verified:
  assumes H: "digest32 H" and v: "ledger_verified H db" and n: "length (ledger_entries db) < 2 ^ 62" and "batch_for db input"
    and t: "ensureAcceptedAtAfterRegistryCreation db (bin_AcceptedAt input) = Inr ()"
      "ensureAcceptedAtNotBeforeHead (bin_AcceptedAt input) (lh_AcceptedAt (ledgerHeadTx db)) = Inr ()"
    and "appendBatchTx H db input (batchLedgerEntry H input (ledgerHeadTx db)) sig = Inr db'"
  shows "ledger_verified H db' \<and> ledger_entries db' = ledger_entries db @ [batchLedgerEntry H input (ledgerHeadTx db)]"
proof -
  let ?e = "batchLedgerEntry H input (ledgerHeadTx db)"
  from assms(4) obtain identity where ident: "registry_identity db = Some identity" "bin_RegistryScope input = sri_RegistryScope identity"
    and z: "has_suffix_Z (bin_AcceptedAt input)" by (auto simp: batch_for_def)
  note v' = v [unfolded ledger_verified_def]
  have ext: "entry_extends H (sri_RegistryScope identity) (ledger_entries db) ?e"
    using v' ident by (intro head_entry_extends [OF H _ _ n z t]) (simp_all add: batchLedgerEntry_hash)
  obtain nodes where nodes: "appendMerkleEntryTx H (db\<lparr>ledger_entries := ledger_entries db @ [?e]\<rparr>) (le_LedgerIndex ?e) (le_EntryHash ?e) =
        Inr (db\<lparr>ledger_entries := ledger_entries db @ [?e], ledger_merkle_nodes := nodes\<rparr>)"
      and db': "db' = batch_appended db input ?e sig (db\<lparr>ledger_entries := ledger_entries db @ [?e], ledger_merkle_nodes := nodes\<rparr>)"
      and new: "le_LedgerIndex ?e \<notin> le_LedgerIndex ` set (ledger_entries db)" "le_LedgerIndex ?e \<notin> lw_ledger_index ` set (ledger_weight_rows db)"
        "bin_CandidateBatchID input \<notin> mb_batch_id ` set (mau_batches db)"
    by (rule appendBatchTx_Inr [OF assms(7)])
  have "VerifyLedgerWeightRows db' = Inr ()"
  proof (rule VerifyLedgerWeightRows_extend [where e = ?e and b = "mau_row_of input ?e sig" and db = db])
    show "VerifyLedgerWeightRows db = Inr ()" using v' by simp
    show "lw_ledger_index (weight_row_of ?e (bin_Revision input)) \<notin> lw_ledger_index ` set (ledger_weight_rows db)"
      using new(2) by (simp add: weight_row_of_def)
    show "weight_entry ?e" by simp
  qed (use new in \<open>simp_all add: db'\<close>)
  moreover have "ledger_sorted db' \<and> merkle_rows_ok (ledger_merkle_nodes db') \<and> VerifyLedger H db' = Inr () \<and> VerifyMerkleTree H db' = Inr ()"
    by (rule append_entry_verified [OF H v n ident(1) ext nodes]) (simp_all add: db')
  ultimately show ?thesis by (simp add: ledger_verified_def db')
qed

lemma AcceptInstallationBatch_verified:
  assumes "digest32 H" "ledger_verified H db" "length (ledger_entries db) < 2 ^ 62" "batch_for db input"
    and "AcceptInstallationBatch H db input signReceipt = Inr (db', record, duplicate)"
  shows "ledger_verified H db' \<and> registry_identity db' = registry_identity db \<and>
    (if duplicate then ledger_entries db' = ledger_entries db
     else brec_LedgerEntry record = batchLedgerEntry H input (ledgerHeadTx db) \<and> ledger_entries db' = ledger_entries db @ [brec_LedgerEntry record])"
  using assms(5)
proof (cases rule: AcceptInstallationBatch_cases)
  case known
  with assms(2) show ?thesis by simp
next
  case retry
  then obtain n where "db' = db\<lparr>used_nonces := used_nonces db @ [n]\<rparr>" by blast
  then have "ledger_verified H db' = ledger_verified H db" by (intro ledger_verified_cong) simp_all
  with retry assms(2) show ?thesis by auto
next
  case (fresh sig)
  have "registry_identity db' = registry_identity db"
    by (rule appendBatchTx_Inr [OF fresh(5)]) simp
  with appendBatchTx_verified [OF assms(1-4) fresh(2,3,5)] fresh show ?thesis by (simp add: acceptedBatchRecord_def)
qed

lemma nonceState_iff:
  "nonceState db signer nonce h = Inr True \<longleftrightarrow>
     (\<exists>n. find (\<lambda>n. an_Signer n = signer \<and> an_Nonce n = nonce) (used_nonces db) = Some n \<and> an_RequestHash n = h)"
  by (auto simp: nonceState_def split: option.splits)

lemma nonceState_fresh:
  assumes "(signer, nonce) \<notin> (\<lambda>n. (an_Signer n, an_Nonce n)) ` set (used_nonces db)"
  shows "nonceState db signer nonce h = Inr False"
proof -
  have "find (\<lambda>n. an_Signer n = signer \<and> an_Nonce n = nonce) (used_nonces db) = None"
    unfolding find_None_iff using assms by force
  then show ?thesis by (simp add: nonceState_def)
qed

text \<open>After a batch was accepted its nonce, its idempotency record and its row can be found.\<close>

lemma accepted_batch_recorded:
  assumes "nonceState db (bin_Signer input) (bin_Nonce input) (bin_RequestHash input) = Inr False"
    and "readIdempotency db (bin_Signer input) (bin_IdempotencyKey input) = None"
    and "appendBatchTx H db input (batchLedgerEntry H input (ledgerHeadTx db)) sig = Inr db'"
  shows "find (\<lambda>n. an_Signer n = bin_Signer input \<and> an_Nonce n = bin_Nonce input) (used_nonces db') = Some (batchNonce input (bin_CandidateBatchID input))"
    and "readIdempotency db' (bin_Signer input) (bin_IdempotencyKey input) =
      Some \<lparr>ir_PayloadHash = bin_PayloadHash input, ir_ResultType = ''batch'', ir_ResultID = bin_CandidateBatchID input\<rparr>"
    and "batchRecordByIDQuery db' (bin_CandidateBatchID input) =
      Inr (acceptedBatchRecord input (batchLedgerEntry H input (ledgerHeadTx db)) sig)"
proof -
  let ?e = "batchLedgerEntry H input (ledgerHeadTx db)"
  obtain nodes where db': "db' = batch_appended db input ?e sig (db\<lparr>ledger_entries := ledger_entries db @ [?e], ledger_merkle_nodes := nodes\<rparr>)"
      and new: "le_LedgerIndex ?e \<notin> le_LedgerIndex ` set (ledger_entries db)" "bin_CandidateBatchID input \<notin> mb_batch_id ` set (mau_batches db)"
    by (rule appendBatchTx_Inr [OF assms(3)])
  have "find (\<lambda>n. an_Signer n = bin_Signer input \<and> an_Nonce n = bin_Nonce input) (used_nonces db) = None"
    using assms(1) by (auto simp: nonceState_def split: option.splits if_splits)
  then show "find (\<lambda>n. an_Signer n = bin_Signer input \<and> an_Nonce n = bin_Nonce input) (used_nonces db') = Some (batchNonce input (bin_CandidateBatchID input))"
    by (simp add: db' batch_appended_def find_append batchNonce_def)
  show "readIdempotency db' (bin_Signer input) (bin_IdempotencyKey input) =
      Some \<lparr>ir_PayloadHash = bin_PayloadHash input, ir_ResultType = ''batch'', ir_ResultID = bin_CandidateBatchID input\<rparr>"
    using assms(2) by (simp add: readIdempotency_def db' batch_appended_def find_append idempotency_row_of_def)
  have "batch_of db' (bin_CandidateBatchID input) = Some (mau_row_of input ?e sig)"
    "find (\<lambda>l. le_LedgerIndex l = le_LedgerIndex ?e) (ledger_entries db') = Some ?e"
    using new by (simp_all add: db' find_append find_None_notin [THEN iffD2])
  then show "batchRecordByIDQuery db' (bin_CandidateBatchID input) = Inr (acceptedBatchRecord input ?e sig)"
    unfolding batchRecordByIDQuery_def by (auto simp: mau_row_of_def acceptedBatchRecord_def)
qed

subsection \<open>Accepting a batch: the properties\<close>

definition sample_identity :: StoreRegistryIdentity where
  "sample_identity = \<lparr>sri_ProtocolVersion = ''1'', sri_RegistryScope = ''demo'', sri_RegistryKeyID = ''k'', sri_PublicKeyDER = ''d'',
     sri_CreatedAt = ''2026-01-01T00:00:00Z''\<rparr>"

definition sample_deployment :: Deployment where
  "sample_deployment = \<lparr>dep_DeploymentID = ''dep'', dep_PublicKeyDER = ''der'', dep_PublicKeyFingerprint = ''fp'', dep_KeyAlgorithm = ''Ed25519'',
     dep_SoftwareVersion = ''1'', dep_RegistrationTimestamp = ''t'', dep_RegistrationNonce = ''n'', dep_RegistrationIdempotencyKey = ''i'',
     dep_RegistrationSignature = replicate 64 (CHR ''s''), dep_RegisteredAt = ''2026-01-01T00:00:00Z'', dep_PayloadHash = ''h'',
     dep_ReceiptSignature = replicate 64 (CHR ''r'')\<rparr>"

definition sample_db :: registry_db where
  "sample_db = empty_db\<lparr>registry_identity := Some sample_identity, deployments := [sample_deployment]\<rparr>"

definition sample_batch :: BatchInput where
  "sample_batch = \<lparr>bin_RegistryScope = ''demo'', bin_Signer = ''fp'', bin_Nonce = ''n1'', bin_IdempotencyKey = ''key'', bin_PayloadHash = ''payload'',
     bin_RequestHash = ''request'', bin_DeploymentID = ''dep'', bin_RequestTimestamp = ''2026-01-02T00:00:00Z'',
     bin_DeploymentSignature = replicate 64 (CHR ''s''), bin_CandidateBatchID = ''b1'', bin_Kind = ''monthly-qmau'', bin_Period = ''2026-01'',
     bin_RulesetVersion = ''qmau-v1'', bin_QualifiedMAUCount = 7, bin_CommitmentHash = ''c'', bin_Revision = 1, bin_SupersedesBatchID = [],
     bin_AcceptedAt = ''2026-01-02T00:00:01Z'', bin_CheckpointDate = ''2026-01-02''\<rparr>"

abbreviation sample_signer :: "LedgerEntry \<Rightarrow> string \<Rightarrow> bytes option" where
  "sample_signer \<equiv> \<lambda>_ _. Some (replicate 64 (CHR ''r''))"

lemma sample_db_verified: "ledger_verified pad_hash sample_db"
  by code_simp

lemma sample_batch_for: "batch_for sample_db sample_batch"
  by (simp add: batch_for_def sample_db_def sample_identity_def sample_batch_def has_suffix_Z_def)

definition sample_accepted :: "registry_db \<times> BatchRecord \<times> bool" where
  "sample_accepted = (case AcceptInstallationBatch pad_hash sample_db sample_batch sample_signer of
     Inl _ \<Rightarrow> (sample_db, acceptedBatchRecord sample_batch (batchLedgerEntry pad_hash sample_batch (ledgerHeadTx sample_db)) [], True)
   | Inr x \<Rightarrow> x)"

lemma sample_accept_ok: "\<not> isl (AcceptInstallationBatch pad_hash sample_db sample_batch sample_signer)" "\<not> snd (snd sample_accepted)"
  by code_simp+

lemma sample_accept: "AcceptInstallationBatch pad_hash sample_db sample_batch sample_signer = Inr (fst sample_accepted, fst (snd sample_accepted), False)"
  using sample_accept_ok by (cases "AcceptInstallationBatch pad_hash sample_db sample_batch sample_signer") (auto simp: sample_accepted_def)

text \<open>C1. Accepting a batch keeps the ledger verifiable and only appends: when the checks of the ledger, of the
  Merkle index and of the weight rows pass before \<open>AcceptInstallationBatch\<close> and the call succeeds, they pass
  afterwards; a retry leaves the ledger as it was and a new batch adds exactly the entry that is returned.\<close>

theorem AcceptInstallationBatch_keeps_ledger:
  assumes "digest32 H" "ledger_verified H db" "length (ledger_entries db) < 2 ^ 62" "batch_for db input"
    and "AcceptInstallationBatch H db input signReceipt = Inr (db', record, duplicate)"
  shows "ledger_verified H db' \<and> ledger_entries db' = ledger_entries db @ (if duplicate then [] else [brec_LedgerEntry record])"
  using AcceptInstallationBatch_verified [OF assms] by auto

theorem AcceptInstallationBatch_keeps_ledger_witness:
  "ledger_verified pad_hash (fst sample_accepted) \<and> ledger_entries (fst sample_accepted) = [brec_LedgerEntry (fst (snd sample_accepted))]"
  using AcceptInstallationBatch_keeps_ledger [OF digest32_pad_hash sample_db_verified _ sample_batch_for sample_accept]
  by (simp add: sample_db_def empty_db_def)

lemma AcceptInstallationBatch_fresh:
  assumes "AcceptInstallationBatch H db input signReceipt = Inr (db', record, False)"
  obtains sig where "record = acceptedBatchRecord input (batchLedgerEntry H input (ledgerHeadTx db)) sig"
    "find (\<lambda>n. an_Signer n = bin_Signer input \<and> an_Nonce n = bin_Nonce input) (used_nonces db') = Some (batchNonce input (bin_CandidateBatchID input))"
    "readIdempotency db' (bin_Signer input) (bin_IdempotencyKey input) =
      Some \<lparr>ir_PayloadHash = bin_PayloadHash input, ir_ResultType = ''batch'', ir_ResultID = bin_CandidateBatchID input\<rparr>"
    "batchRecordByIDQuery db' (bin_CandidateBatchID input) = Inr record"
proof -
  from assms show thesis
  proof (cases rule: AcceptInstallationBatch_cases)
    case (fresh sig)
    with accepted_batch_recorded [OF fresh(7,8,5)] show thesis by (intro that) simp_all
  qed simp_all
qed

text \<open>C8. Retries are idempotent: once a batch was accepted, sending the same request again returns the same record,
  marked as a duplicate, and changes nothing; sending the same payload under the same idempotency key with a new nonce
  returns the same record and records only the nonce.\<close>

theorem AcceptInstallationBatch_retry:
  assumes "AcceptInstallationBatch H db input signReceipt = Inr (db', record, False)"
  shows "AcceptInstallationBatch H db' input signReceipt' = Inr (db', record, True) \<and>
    (bin_Signer retry = bin_Signer input \<and> bin_IdempotencyKey retry = bin_IdempotencyKey input \<and> bin_PayloadHash retry = bin_PayloadHash input \<and>
     length (bin_DeploymentSignature retry) = 64 \<and>
     (bin_Signer retry, bin_Nonce retry) \<notin> (\<lambda>n. (an_Signer n, an_Nonce n)) ` set (used_nonces db') \<longrightarrow>
     AcceptInstallationBatch H db' retry signReceipt' =
       Inr (db'\<lparr>used_nonces := used_nonces db' @ [batchNonce retry (brec_BatchID record)]\<rparr>, record, True))"
proof -
  obtain sig where *: "record = acceptedBatchRecord input (batchLedgerEntry H input (ledgerHeadTx db)) sig"
    "find (\<lambda>n. an_Signer n = bin_Signer input \<and> an_Nonce n = bin_Nonce input) (used_nonces db') = Some (batchNonce input (bin_CandidateBatchID input))"
    "readIdempotency db' (bin_Signer input) (bin_IdempotencyKey input) =
      Some \<lparr>ir_PayloadHash = bin_PayloadHash input, ir_ResultType = ''batch'', ir_ResultID = bin_CandidateBatchID input\<rparr>"
    "batchRecordByIDQuery db' (bin_CandidateBatchID input) = Inr record"
    by (rule AcceptInstallationBatch_fresh [OF assms])
  then have "AcceptInstallationBatch H db' input signReceipt' = Inr (db', record, True)"
    by (simp add: AcceptInstallationBatch_def nonceState_def batchNonce_def)
  moreover have "nonceState db' (bin_Signer retry) (bin_Nonce retry) (bin_RequestHash retry) = Inr False"
    if "(bin_Signer retry, bin_Nonce retry) \<notin> (\<lambda>n. (an_Signer n, an_Nonce n)) ` set (used_nonces db')"
    using that by (rule nonceState_fresh)
  ultimately show ?thesis using * by (auto simp: AcceptInstallationBatch_def insertNonce_def batchNonce_def acceptedBatchRecord_def)
qed

theorem AcceptInstallationBatch_retry_witness:
  "AcceptInstallationBatch pad_hash (fst sample_accepted) sample_batch sample_signer = Inr (fst sample_accepted, fst (snd sample_accepted), True)"
  using AcceptInstallationBatch_retry [OF sample_accept] by blast

text \<open>C9. Replays and conflicting retries are refused: after a batch was accepted, its nonce with another request
  gives \<open>ErrReplayConflict\<close>, and its idempotency key with another payload gives \<open>ErrIdempotencyConflict\<close> when the nonce
  is new or belongs to the same request.\<close>

theorem AcceptInstallationBatch_conflicts:
  assumes "AcceptInstallationBatch H db input signReceipt = Inr (db', record, False)" and "bin_Signer other = bin_Signer input"
  shows "(bin_Nonce other = bin_Nonce input \<and> bin_RequestHash other \<noteq> bin_RequestHash input \<longrightarrow>
      AcceptInstallationBatch H db' other signReceipt' = Inl ErrReplayConflict) \<and>
    (bin_IdempotencyKey other = bin_IdempotencyKey input \<and> bin_PayloadHash other \<noteq> bin_PayloadHash input \<longrightarrow>
      AcceptInstallationBatch H db' other signReceipt' \<in> {Inl ErrReplayConflict, Inl ErrIdempotencyConflict} \<and>
      ((bin_Signer other, bin_Nonce other) \<notin> (\<lambda>n. (an_Signer n, an_Nonce n)) ` set (used_nonces db') \<longrightarrow>
       AcceptInstallationBatch H db' other signReceipt' = Inl ErrIdempotencyConflict))"
proof -
  obtain sig where *: "find (\<lambda>n. an_Signer n = bin_Signer input \<and> an_Nonce n = bin_Nonce input) (used_nonces db') = Some (batchNonce input (bin_CandidateBatchID input))"
    "readIdempotency db' (bin_Signer input) (bin_IdempotencyKey input) =
      Some \<lparr>ir_PayloadHash = bin_PayloadHash input, ir_ResultType = ''batch'', ir_ResultID = bin_CandidateBatchID input\<rparr>"
    by (rule AcceptInstallationBatch_fresh [OF assms(1)])
  have "nonceState db' (bin_Signer other) (bin_Nonce other) (bin_RequestHash other) \<in> {Inl ErrReplayConflict, Inr False, Inr True}"
    by (simp add: nonceState_def split: option.split)
  moreover have "nonceState db' (bin_Signer other) (bin_Nonce other) (bin_RequestHash other) = Inr False"
    if "(bin_Signer other, bin_Nonce other) \<notin> (\<lambda>n. (an_Signer n, an_Nonce n)) ` set (used_nonces db')"
    using that by (rule nonceState_fresh)
  ultimately show ?thesis using * assms(2) by (auto simp: AcceptInstallationBatch_def nonceState_def batchNonce_def)
qed

theorem AcceptInstallationBatch_conflicts_witness:
  "AcceptInstallationBatch pad_hash (fst sample_accepted) (sample_batch\<lparr>bin_RequestHash := ''other''\<rparr>) sample_signer = Inl ErrReplayConflict"
  using AcceptInstallationBatch_conflicts [OF sample_accept, of "sample_batch\<lparr>bin_RequestHash := ''other''\<rparr>" sample_signer]
  by (simp add: sample_batch_def)

subsection \<open>What the chain verification means\<close>

lemma verify_ledger_loop_chain:
  assumes "int (length es) < 2 ^ 62"
  shows "verify_ledger_loop H s 1 ZeroHash 0 es = Inr () \<longleftrightarrow> (\<forall>k < length es. entry_extends H s (take k es) (es ! k))"
  using assms
proof (induction es rule: rev_induct)
  case (snoc e es)
  have "verify_ledger_loop H s 1 ZeroHash 0 (es @ [e]) = Inr () \<longleftrightarrow>
      (\<forall>k < length es. entry_extends H s (take k es) (es ! k)) \<and> entry_extends H s es e"
    using snoc by (simp add: verify_ledger_loop_snoc)
  also have "\<dots> \<longleftrightarrow> (\<forall>k < length (es @ [e]). entry_extends H s (take k (es @ [e])) ((es @ [e]) ! k))"
    by (auto simp: less_Suc_eq nth_append)
  finally show ?case .
qed simp

text \<open>C7. The ledger check accepts exactly the well-formed chains: for every entry, its index is its position, its scope
  the registry's, its previous hash the hash of the entry before it, its hash the digest of its own fields, its time in UTC
  and not before the previous one.\<close>

theorem VerifyLedger_iff:
  assumes "ledger_sorted db" "length (ledger_entries db) < 2 ^ 62"
  shows "VerifyLedger H db = Inr () \<longleftrightarrow> (\<exists>identity. registry_identity db = Some identity \<and>
    (\<forall>k < length (ledger_entries db). entry_extends H (sri_RegistryScope identity) (take k (ledger_entries db)) (ledger_entries db ! k)))"
proof -
  have "int (length (ledger_entries db)) < 2 ^ 62" using assms(2) by simp
  then show ?thesis by (simp add: VerifyLedger_unfold [OF assms(1)] verify_ledger_loop_chain)
qed

lemma sample_accepted_verified: "ledger_verified pad_hash (fst sample_accepted)"
  and sample_accepted_ledger: "ledger_entries (fst sample_accepted) = [batchLedgerEntry pad_hash sample_batch (ledgerHeadTx sample_db)]"
proof -
  have "length (ledger_entries sample_db) < 2 ^ 62" by (simp add: sample_db_def empty_db_def)
  from AcceptInstallationBatch_verified [OF digest32_pad_hash sample_db_verified this sample_batch_for sample_accept]
  show "ledger_verified pad_hash (fst sample_accepted)"
    "ledger_entries (fst sample_accepted) = [batchLedgerEntry pad_hash sample_batch (ledgerHeadTx sample_db)]"
    by (simp_all add: sample_db_def empty_db_def)
qed

theorem VerifyLedger_iff_witness:
  "\<exists>identity. registry_identity (fst sample_accepted) = Some identity \<and> (\<forall>k < length (ledger_entries (fst sample_accepted)).
    entry_extends pad_hash (sri_RegistryScope identity) (take k (ledger_entries (fst sample_accepted))) (ledger_entries (fst sample_accepted) ! k))"
  using VerifyLedger_iff [of "fst sample_accepted" pad_hash, THEN iffD1] sample_accepted_verified sample_accepted_ledger
  by (simp add: ledger_verified_def)

text \<open>The messages whose digests chain a ledger.\<close>

definition ledger_msgs :: "LedgerEntry list \<Rightarrow> bytes set" where
  "ledger_msgs es = LedgerEntryMessage ` set es"

definition ledger_texts_ok :: "LedgerEntry list \<Rightarrow> bool" where
  "ledger_texts_ok es \<longleftrightarrow> list_all (\<lambda>e. list_all no_lf (LedgerEntry_texts e)) es"

lemma entry_eq_of_hash:
  assumes "le_EntryHash a = Digest H (LedgerEntryMessage a)" "le_EntryHash b = Digest H (LedgerEntryMessage b)"
    and "le_EntryHash a = le_EntryHash b" "inj_on H {LedgerEntryMessage a, LedgerEntryMessage b}"
    and "list_all no_lf (LedgerEntry_texts a)" "list_all no_lf (LedgerEntry_texts b)"
  shows "a = b"
proof -
  have "Digest H (LedgerEntryMessage a) = Digest H (LedgerEntryMessage b)" using assms(1-3) by metis
  then have "H (LedgerEntryMessage a) = H (LedgerEntryMessage b)" by (simp add: Digest_def)
  then have "LedgerEntryMessage a = LedgerEntryMessage b" using assms(4) by (auto dest: inj_onD)
  from LedgerEntryMessage_inj [OF this assms(5,6), of "le_EntryHash a"]
  have "a\<lparr>le_EntryHash := le_EntryHash a\<rparr> = b\<lparr>le_EntryHash := le_EntryHash b\<rparr>" unfolding assms(3) .
  then show ?thesis by simp
qed

lemma chain_determined:
  assumes "\<forall>k < length es. entry_extends H s (take k es) (es ! k)" "\<forall>k < length es'. entry_extends H s' (take k es') (es' ! k)"
    and "length es = length es'" "last_hash es = last_hash es'"
    and "inj_on H (ledger_msgs (es @ es'))" "ledger_texts_ok (es @ es')"
  shows "es = es'"
  using assms
proof (induction es arbitrary: es' rule: rev_induct)
  case (snoc e es)
  then obtain e' fs where es': "es' = fs @ [e']" by (metis append_butlast_last_id length_0_conv snoc_eq_iff_butlast)
  have split: "(\<forall>k < length (xs @ [x]). entry_extends H u (take k (xs @ [x])) ((xs @ [x]) ! k)) \<longleftrightarrow>
      (\<forall>k < length xs. entry_extends H u (take k xs) (xs ! k)) \<and> entry_extends H u xs x" for u xs x
    by (auto simp: less_Suc_eq nth_append)
  from snoc.prems(1,2) have ch: "\<forall>k < length es. entry_extends H s (take k es) (es ! k)" "entry_extends H s es e"
    "\<forall>k < length fs. entry_extends H s' (take k fs) (fs ! k)" "entry_extends H s' fs e'" unfolding es' split by blast+
  have inj: "inj_on H {LedgerEntryMessage e, LedgerEntryMessage e'}"
    using snoc.prems(5) by (rule inj_on_subset) (simp add: ledger_msgs_def es')
  have "e = e'"
    using ch(2,4) snoc.prems(4,6) by (intro entry_eq_of_hash [OF _ _ _ inj]) (simp_all add: entry_extends_def last_hash_def es' ledger_texts_ok_def)
  moreover have "es = fs"
  proof (rule snoc.IH [OF ch(1,3)])
    show "last_hash es = last_hash fs" using ch(2,4) \<open>e = e'\<close> by (simp add: entry_extends_def)
    show "inj_on H (ledger_msgs (es @ fs))" using snoc.prems(5) by (rule inj_on_subset) (auto simp: ledger_msgs_def es')
  qed (use snoc.prems(3,6) in \<open>simp_all add: es' ledger_texts_ok_def\<close>)
  ultimately show ?case by (simp add: es')
qed simp

text \<open>C6. The head hash commits to the whole ledger: two ledgers of the same length that the check accepts and whose head
  hashes are equal are the same entry for entry, unless two of their own entry messages collide under the hash. The texts of the
  entries hold no line feed, as the service's input checks ensure.\<close>

theorem VerifyLedger_tamper_evident:
  assumes "ledger_sorted db" "ledger_sorted db'" "VerifyLedger H db = Inr ()" "VerifyLedger H db' = Inr ()"
    and "length (ledger_entries db) = length (ledger_entries db')" "length (ledger_entries db) < 2 ^ 62"
    and "lh_EntryHash (ledgerHeadTx db) = lh_EntryHash (ledgerHeadTx db')"
    and "inj_on H (ledger_msgs (ledger_entries db @ ledger_entries db'))" "ledger_texts_ok (ledger_entries db @ ledger_entries db')"
  shows "ledger_entries db = ledger_entries db'"
proof -
  have n: "int (length (ledger_entries db)) < 2 ^ 62" "int (length (ledger_entries db')) < 2 ^ 62" using assms(5,6) by simp_all
  obtain i i' :: StoreRegistryIdentity where "verify_ledger_loop H (sri_RegistryScope i) 1 ZeroHash 0 (ledger_entries db) = Inr ()"
    "verify_ledger_loop H (sri_RegistryScope i') 1 ZeroHash 0 (ledger_entries db') = Inr ()"
    using assms(3,4) VerifyLedger_unfold [OF assms(1)] VerifyLedger_unfold [OF assms(2)] by blast
  note this [unfolded verify_ledger_loop_chain [OF n(1)] verify_ledger_loop_chain [OF n(2)]]
  moreover have "last_hash (ledger_entries db) = last_hash (ledger_entries db')"
    using assms(5,7) by (auto simp: ledgerHeadTx_sorted assms(1,2) last_hash_def split: if_splits)
  ultimately show ?thesis using assms(5,8,9) by (intro chain_determined)
qed

text \<open>Another database that holds the same ledger.\<close>

definition sample_mirror :: registry_db where
  "sample_mirror = (fst sample_accepted)\<lparr>deployments := [], mau_batches := [], used_nonces := [],
     ledger_entries := [batchLedgerEntry pad_hash sample_batch
       \<lparr>lh_LedgerIndex = 0, lh_EntryCount = 0, lh_EntryHash = ZeroHash, lh_AcceptedAt = []\<rparr>]\<rparr>"

theorem VerifyLedger_tamper_evident_witness:
  "ledger_entries (fst sample_accepted) = ledger_entries sample_mirror"
proof -
  have e: "ledgerHeadTx sample_db = \<lparr>lh_LedgerIndex = 0, lh_EntryCount = 0, lh_EntryHash = ZeroHash, lh_AcceptedAt = []\<rparr>" by code_simp
  have m: "ledger_entries sample_mirror = [batchLedgerEntry pad_hash sample_batch (ledgerHeadTx sample_db)]" by (simp add: sample_mirror_def e)
  have "VerifyLedger pad_hash sample_mirror = VerifyLedger pad_hash (fst sample_accepted)"
    by (rule VerifyLedger_cong) (simp_all add: m sample_accepted_ledger, simp add: sample_mirror_def)
  then have v: "VerifyLedger pad_hash sample_mirror = Inr ()" "VerifyLedger pad_hash (fst sample_accepted) = Inr ()"
    using sample_accepted_verified by (simp_all add: ledger_verified_def)
  have s: "ledger_sorted (fst sample_accepted)" "ledger_sorted sample_mirror" by (simp_all add: ledger_sorted_def m sample_accepted_ledger)
  have t: "list_all no_lf (LedgerEntry_texts (batchLedgerEntry pad_hash sample_batch (ledgerHeadTx sample_db)))" by code_simp
  show ?thesis
    by (rule VerifyLedger_tamper_evident [OF s v(2,1)])
      (use t in \<open>simp_all add: m sample_accepted_ledger ledgerHeadTx_sorted s ledger_msgs_def ledger_texts_ok_def\<close>)
qed

subsection \<open>Revision chains\<close>

text \<open>The accepted revisions of one deployment's monthly count, in the order of acceptance.\<close>

definition mau_revisions :: "registry_db \<Rightarrow> string \<Rightarrow> string \<Rightarrow> mau_row list" where
  "mau_revisions db d p = filter (\<lambda>b. mb_deployment_id b = d \<and> mb_period b = p \<and> mb_kind b = QualifiedMAUKind) (mau_batches db)"

text \<open>A chain of revisions: numbered from 1 without gaps, each superseding the one before. The three functions
  read the revision, the superseded identifier and the own identifier of a row.\<close>

definition is_revision_chain :: "('r \<Rightarrow> int) \<Rightarrow> ('r \<Rightarrow> string) \<Rightarrow> ('r \<Rightarrow> string) \<Rightarrow> 'r list \<Rightarrow> bool" where
  "is_revision_chain rv spd own rs \<longleftrightarrow> (\<forall>k < length rs. rv (rs ! k) = int k + 1 \<and>
     spd (rs ! k) = (if k = 0 then [] else own (rs ! (k - 1))))"

abbreviation mau_chain :: "mau_row list \<Rightarrow> bool" where
  "mau_chain \<equiv> is_revision_chain mb_revision mb_supersedes_batch_id mb_batch_id"

definition revisions_ok :: "registry_db \<Rightarrow> bool" where
  "revisions_ok db \<longleftrightarrow> (\<forall>d p. mau_chain (mau_revisions db d p))"

lemma is_revision_chain_snoc:
  "is_revision_chain rv spd own (rs @ [r]) \<longleftrightarrow> is_revision_chain rv spd own rs \<and> rv r = int (length rs) + 1 \<and>
     spd r = (if rs = [] then [] else own (last rs))"
proof -
  let ?ok = "\<lambda>qs k. rv (qs ! k) = int k + 1 \<and> spd (qs ! k) = (if k = 0 then [] else own (qs ! (k - 1)))"
  have "?ok (rs @ [r]) k = ?ok rs k" if "k < length rs" for k using that by (cases k) (simp_all add: nth_append)
  moreover have "?ok (rs @ [r]) (length rs) \<longleftrightarrow> rv r = int (length rs) + 1 \<and>
      spd r = (if rs = [] then [] else own (last rs))" by (simp add: nth_append last_conv_nth)
  ultimately show ?thesis unfolding is_revision_chain_def length_append_singleton All_less_Suc by blast
qed

lemma is_revision_chain_Nil [simp]: "is_revision_chain rv spd own []"
  by (simp add: is_revision_chain_def)

lemma is_revision_chain_sorted: "is_revision_chain rv spd own rs \<Longrightarrow> sorted (map rv rs)"
  by (auto simp: is_revision_chain_def sorted_iff_nth_mono)

lemma is_revision_chain_last: "is_revision_chain rv spd own rs \<Longrightarrow> rs \<noteq> [] \<Longrightarrow> rv (last rs) = int (length rs)"
  by (cases rs rule: rev_cases) (simp_all add: is_revision_chain_snoc)

lemma is_revision_chain_le: "is_revision_chain rv spd own rs \<Longrightarrow> r \<in> set rs \<Longrightarrow> rv r \<le> int (length rs)"
  by (auto simp: is_revision_chain_def in_set_conv_nth)

text \<open>What the store's revision checks do: with the last row of the chain at hand, they let exactly the next
  revision through.\<close>

lemma is_revision_chain_next:
  assumes "is_revision_chain rv spd own rs" "length rs < 2 ^ 62"
    and "case select_max rv rs of None \<Rightarrow> rv r = 1 \<and> spd r = [] | Some latest \<Rightarrow> rv r = i64 (rv latest + 1) \<and> spd r = own latest"
  shows "is_revision_chain rv spd own (rs @ [r])"
proof -
  have sel: "select_max rv rs = (if rs = [] then None else Some (last rs))"
    by (intro select_max_sorted is_revision_chain_sorted [OF assms(1)])
  have "i64 (int (length rs) + 1) = int (length rs) + 1" using assms(2) by (intro i64_nonneg_id) simp_all
  with assms sel is_revision_chain_last [OF assms(1)] show ?thesis
    by (auto simp: is_revision_chain_snoc split: if_splits)
qed

lemma ensureQualifiedMAURevision_chain:
  assumes "mau_chain (mau_revisions db (bin_DeploymentID input) (bin_Period input))" "bin_Kind input = QualifiedMAUKind"
    and "length (mau_batches db) < 2 ^ 62" "ensureQualifiedMAURevision db input = Inr ()"
  shows "mau_chain (mau_revisions db (bin_DeploymentID input) (bin_Period input) @ [mau_row_of input e sig])"
proof (rule is_revision_chain_next [OF assms(1)])
  show "length (mau_revisions db (bin_DeploymentID input) (bin_Period input)) < 2 ^ 62"
    using assms(3) by (simp add: mau_revisions_def le_less_trans [OF length_filter_le])
qed (use assms(2,4) in \<open>simp add: ensureQualifiedMAURevision_def mau_revisions_def mau_row_of_def split: option.splits if_splits\<close>)

lemma appendBatchTx_revisions:
  assumes "revisions_ok db" "length (mau_batches db) < 2 ^ 62" "ensureQualifiedMAURevision db input = Inr ()"
    and "appendBatchTx H db input e sig = Inr db'"
  shows "revisions_ok db'"
  unfolding revisions_ok_def
proof (intro allI)
  fix d p
  have m: "mau_batches db' = mau_batches db @ [mau_row_of input e sig]" by (rule appendBatchTx_Inr [OF assms(4)]) simp
  have old: "mau_chain (mau_revisions db d p)" using assms(1) by (simp add: revisions_ok_def)
  show "mau_chain (mau_revisions db' d p)"
  proof (cases "bin_DeploymentID input = d \<and> bin_Period input = p \<and> bin_Kind input = QualifiedMAUKind")
    case True
    then have "mau_revisions db' d p = mau_revisions db d p @ [mau_row_of input e sig]" by (simp add: mau_revisions_def m mau_row_of_def)
    with True ensureQualifiedMAURevision_chain [OF _ _ assms(2,3)] old show ?thesis by metis
  next
    case False
    then have "mau_revisions db' d p = mau_revisions db d p" by (auto simp: mau_revisions_def m mau_row_of_def)
    with old show ?thesis by simp
  qed
qed

text \<open>C10. Revisions of a monthly count form a chain: for every deployment and period the accepted revisions are numbered
  1, 2, 3, ... without gaps and each names the batch it supersedes, the one accepted just before; \<open>AcceptInstallationBatch\<close>
  keeps this.\<close>

theorem AcceptInstallationBatch_keeps_revisions:
  assumes "revisions_ok db" "length (mau_batches db) < 2 ^ 62"
    and "AcceptInstallationBatch H db input signReceipt = Inr (db', record, duplicate)"
  shows "revisions_ok db'"
  using assms(3)
proof (cases rule: AcceptInstallationBatch_cases)
  case (fresh sig)
  show ?thesis by (rule appendBatchTx_revisions [OF assms(1,2) fresh(9,5)])
next
  case known
  with assms(1) show ?thesis by simp
next
  case retry
  with assms(1) show ?thesis by (auto simp: revisions_ok_def mau_revisions_def)
qed

theorem AcceptInstallationBatch_keeps_revisions_witness: "revisions_ok (fst sample_accepted)"
  by (rule AcceptInstallationBatch_keeps_revisions [OF _ _ sample_accept])
    (simp_all add: revisions_ok_def mau_revisions_def is_revision_chain_def sample_db_def empty_db_def)

subsection \<open>Registrations\<close>

text \<open>Keys and identifiers of deployments are unique, and an idempotency record of a registration leads to the
  deployment of its signer.\<close>

definition registrations_ok :: "registry_db \<Rightarrow> bool" where
  "registrations_ok db \<longleftrightarrow> distinct (map dep_PublicKeyFingerprint (deployments db)) \<and> distinct (map dep_DeploymentID (deployments db)) \<and>
     (\<forall>r \<in> set (idempotency_records db). idr_result_type r = ''deployment'' \<longrightarrow>
        (\<exists>d \<in> set (deployments db). dep_DeploymentID d = idr_result_id r \<and> dep_PublicKeyFingerprint d = idr_signer r))"

lemma find_unique:
  "distinct (map f xs) \<Longrightarrow> x \<in> set xs \<Longrightarrow> find (\<lambda>y. f y = f x) xs = Some x"
  by (induction xs) (auto simp: rev_image_eqI)

lemma registrations_ok_insertIdempotency:
  assumes "registrations_ok db" "insertIdempotency db signer key h ''deployment'' (dep_DeploymentID d) t = Inr db'"
    and "d \<in> set (deployments db)" "dep_PublicKeyFingerprint d = signer"
  shows "registrations_ok db' \<and> deployments db' = deployments db \<and> ledger_entries db' = ledger_entries db"
proof -
  have "\<exists>d'\<in>set (deployments db). dep_DeploymentID d' = dep_DeploymentID d \<and> dep_PublicKeyFingerprint d' = signer"
    using assms(3,4) by blast
  moreover have "db' = db\<lparr>idempotency_records := idempotency_records db @ [\<lparr>idr_signer = signer, idr_idempotency_key = key,
      idr_payload_hash = h, idr_result_type = ''deployment'', idr_result_id = dep_DeploymentID d, idr_accepted_at = t\<rparr>]\<rparr>"
    using assms(2) by (simp add: insertIdempotency_def split: if_splits)
  ultimately show ?thesis using assms(1) by (simp add: registrations_ok_def)
qed

lemma insertNonce_frame:
  assumes "insertNonce db n = Inr db'"
  shows "deployments db' = deployments db \<and> ledger_entries db' = ledger_entries db \<and> registrations_ok db' = registrations_ok db"
  using assms by (auto simp: insertNonce_def registrations_ok_def split: if_splits)

lemma insert_deployment_ok:
  assumes "insert_deployment db d = Inr db'" "registrations_ok db"
  shows "registrations_ok db' \<and> deployments db' = deployments db @ [d] \<and> ledger_entries db' = ledger_entries db"
  using assms by (auto simp: insert_deployment_def registrations_ok_def split: if_splits)

text \<open>C32. One deployment per key: a successful \<open>RegisterDeployment\<close> returns the only deployment registered with the
  signer's key, adds it when the key was not registered and otherwise adds no deployment, and leaves the ledger alone.\<close>

theorem RegisterDeployment_one_per_key:
  assumes "registrations_ok db" "RegisterDeployment db input = Inr (db', deployment, duplicate)"
  shows "registrations_ok db' \<and>
    find (\<lambda>d. dep_PublicKeyFingerprint d = rin_SignerFingerprint input) (deployments db') = Some deployment \<and>
    deployments db' = deployments db @ (if duplicate then [] else [deployment]) \<and> ledger_entries db' = ledger_entries db"
proof (cases "readIdempotency db (rin_SignerFingerprint input) (rin_IdempotencyKey input)")
  case (Some idem)
  then obtain r where r: "r \<in> set (idempotency_records db)" "idr_signer r = rin_SignerFingerprint input"
      "ir_ResultType idem = idr_result_type r" "ir_ResultID idem = idr_result_id r"
    by (auto simp: readIdempotency_def find_Some_iff dest: nth_mem)
  from assms(2) Some have *: "duplicate" "ir_ResultType idem = ''deployment''" "deploymentByIDTx db (ir_ResultID idem) = Inr deployment"
    "db' = db \<or> (\<exists>n. insertNonce db n = Inr db')"
    by (auto simp: RegisterDeployment_def result_simps split: if_splits)
  with r assms(1) obtain d where d: "d \<in> set (deployments db)" "dep_DeploymentID d = idr_result_id r" "dep_PublicKeyFingerprint d = idr_signer r"
    by (auto simp: registrations_ok_def)
  have "find (\<lambda>x. dep_DeploymentID x = dep_DeploymentID d) (deployments db) = Some d"
    "find (\<lambda>x. dep_PublicKeyFingerprint x = dep_PublicKeyFingerprint d) (deployments db) = Some d"
    using d(1) assms(1) by (auto intro!: find_unique simp: registrations_ok_def)
  with * d r have "find (\<lambda>x. dep_PublicKeyFingerprint x = rin_SignerFingerprint input) (deployments db) = Some deployment"
    by (simp add: deploymentByIDTx_def)
  with * assms(1) insertNonce_frame show ?thesis by auto
next
  case None
  show ?thesis
  proof (cases "find (\<lambda>d. dep_PublicKeyFingerprint d = rin_SignerFingerprint input) (deployments db)")
    case (Some existing)
    with None assms(2) obtain db1 n where *: "deployment = existing" "duplicate" "insertNonce db n = Inr db1"
      "insertIdempotency db1 (rin_SignerFingerprint input) (rin_IdempotencyKey input) (rin_PayloadHash input) ''deployment''
         (dep_DeploymentID existing) (rin_CandidateRegisteredAt input) = Inr db'"
      by (auto simp: RegisterDeployment_def deploymentByFingerprintTx_def result_simps split: if_splits)
    have "existing \<in> set (deployments db)" "dep_PublicKeyFingerprint existing = rin_SignerFingerprint input"
      using Some by (auto simp: find_Some_iff)
    with * assms(1) insertNonce_frame [OF *(3)] registrations_ok_insertIdempotency [OF _ *(4)] Some show ?thesis by simp
  next
    case None': None
    with None assms(2) obtain db1 db2 n where *: "\<not> duplicate" "insert_deployment db deployment = Inr db1" "insertNonce db1 n = Inr db2"
      "insertIdempotency db2 (rin_SignerFingerprint input) (rin_IdempotencyKey input) (rin_PayloadHash input) ''deployment''
         (dep_DeploymentID deployment) (rin_CandidateRegisteredAt input) = Inr db'"
      "dep_PublicKeyFingerprint deployment = rin_SignerFingerprint input"
      by (auto simp: RegisterDeployment_def deploymentByFingerprintTx_def result_simps Let_def split: if_splits)
    have "deployments db2 = deployments db @ [deployment]" "registrations_ok db2" "ledger_entries db2 = ledger_entries db"
      using insert_deployment_ok [OF *(2) assms(1)] insertNonce_frame [OF *(3)] by simp_all
    with * None' registrations_ok_insertIdempotency [OF _ *(4)] show ?thesis by (simp add: find_append)
  qed
qed

definition sample_registration :: RegistrationInput where
  "sample_registration = \<lparr>rin_SignerFingerprint = ''fp'', rin_Nonce = ''n'', rin_IdempotencyKey = ''i'', rin_PayloadHash = ''h'',
     rin_RequestHash = ''rh'', rin_RequestTimestamp = ''t'', rin_RequestSignature = replicate 64 (CHR ''s''), rin_PublicKeyDER = ''der'',
     rin_KeyAlgorithm = ''Ed25519'', rin_SoftwareVersion = ''1'', rin_CandidateDeploymentID = ''dep'',
     rin_CandidateRegisteredAt = ''2026-01-01T00:00:00Z'', rin_CandidateReceiptSignature = replicate 64 (CHR ''r'')\<rparr>"

theorem RegisterDeployment_one_per_key_witness:
  "\<exists>db' deployment. RegisterDeployment empty_db sample_registration = Inr (db', deployment, False) \<and> deployments db' = [deployment]"
proof -
  have "\<exists>db' deployment. RegisterDeployment empty_db sample_registration = Inr (db', deployment, False)"
    by (simp add: RegisterDeployment_def nonceState_def readIdempotency_def deploymentByFingerprintTx_def insertNonce_def
        insertIdempotency_def insert_deployment_def registrationNonce_def sample_registration_def empty_db_def Let_def)
  moreover have "registrations_ok empty_db" "deployments empty_db = []" by (simp_all add: registrations_ok_def empty_db_def)
  ultimately show ?thesis using RegisterDeployment_one_per_key [of empty_db sample_registration] by fastforce
qed

end
