(* ===== verification/Revenue_Store.thy ===== *)
theory Revenue_Store
  imports Ledger_Store "HOL-Library.Multiset"
begin

text \<open>Daily revenue batches of the store (\<open>store/sqlite/revenue.go\<close>, \<open>store/sqlite/revenue_verify.go\<close>): revision chains, the
  capacity guard that keeps every network total within a signed 64-bit integer, the insert transaction, the replay of an accepted
  batch, the revenue summary and the two startup checks of the stored rows.  The lemmas show that an accepted batch keeps the ledger
  verifiable, that the totals never overflow, and that the summary query answers with exact sums.\<close>

subsection \<open>Revisions and capacity\<close>

definition checkedRevenueAdd :: "int \<Rightarrow> int \<Rightarrow> int option" where
  "checkedRevenueAdd left right =
     (if left < 0 \<or> right < 0 \<or> right > MaxInt64 - left then None else Some (left + right))"

definition ensureRevenueRevision :: "registry_db \<Rightarrow> RevenueBatchInput \<Rightarrow> store_error + unit" where
  "ensureRevenueRevision db input =
     (case select_max rb_revision (filter (\<lambda>b. rb_deployment_id b = rbi_DeploymentID input \<and> rb_period b = rbi_Period input) (revenue_batches db)) of
        None \<Rightarrow>
          if rbi_Revision input \<noteq> 1 \<or> rbi_SupersedesBatchID input \<noteq> [] then Inl ErrRevenueRevisionConflict else Inr ()
      | Some latest \<Rightarrow>
          if rbi_Revision input \<noteq> i64 (rb_revision latest + 1) \<or> rbi_SupersedesBatchID input \<noteq> rb_batch_id latest
          then Inl ErrRevenueRevisionConflict else Inr ())"

text \<open>The subquery \<open>NOT EXISTS (SELECT 1 FROM revenue_batches newer ...)\<close>.\<close>

definition revenue_active :: "registry_db \<Rightarrow> persistedRevenueQueryRow \<Rightarrow> bool" where
  "revenue_active db row \<longleftrightarrow> \<not> list_ex (\<lambda>newer. rb_deployment_id newer = rq_deploymentID row \<and>
     rb_period newer = rq_period row \<and> rb_revision newer > rq_revision row) (revenue_batches db)"

text \<open>The six amounts of a currency row, in the order of the arrays of the code.\<close>

definition revenue_values :: "RevenueCurrency \<Rightarrow> int list" where
  "revenue_values c = [rc_CapturedMinor c, rc_RefundedMinor c, rc_NetMinor c, rc_CommissionBasisMinor c,
     rc_EstimatedCommissionMinor c, rc_PaymentCount c]"

fun add_totals :: "int list \<Rightarrow> int list \<Rightarrow> int list option" where
  "add_totals (t # ts) (v # vs) =
     (case checkedRevenueAdd t v of
        None \<Rightarrow> None
      | Some next \<Rightarrow> (case add_totals ts vs of None \<Rightarrow> None | Some rest \<Rightarrow> Some (next # rest)))"
| "add_totals _ _ = Some []"

text \<open>The loop over the active rows of other deployments.\<close>

fun aggregate_rows :: "int \<Rightarrow> int list \<Rightarrow> persistedRevenueQueryRow list \<Rightarrow> store_error + int list" where
  "aggregate_rows fractionDigits totals [] = Inr totals"
| "aggregate_rows fractionDigits totals (row # rows) =
     (if rc_FractionDigits (rq_currency row) \<noteq> fractionDigits then Inl ErrInconsistentState
      else case add_totals totals (revenue_values (rq_currency row)) of
          None \<Rightarrow> Inl ErrInconsistentState
        | Some totals \<Rightarrow> aggregate_rows fractionDigits totals rows)"

definition other_active_rows :: "registry_db \<Rightarrow> string \<Rightarrow> string \<Rightarrow> string \<Rightarrow> persistedRevenueQueryRow list" where
  "other_active_rows db period currencyCode deploymentID =
     filter (\<lambda>row. rq_period row = period \<and> rc_CurrencyCode (rq_currency row) = currencyCode \<and>
       rq_deploymentID row \<noteq> deploymentID \<and> revenue_active db row) (revenue_query_rows db)"

definition ensureRevenueAggregateCapacity :: "registry_db \<Rightarrow> RevenueBatchInput \<Rightarrow> store_error + unit" where
  "ensureRevenueAggregateCapacity db input =
     each (\<lambda>incoming.
       bindR (aggregate_rows (rc_FractionDigits incoming) [0, 0, 0, 0, 0, 0]
         (other_active_rows db (rbi_Period input) (rc_CurrencyCode incoming) (rbi_DeploymentID input))) (\<lambda>totals.
       if add_totals totals (revenue_values incoming) = None then Inl ErrRevenueAggregateOverflow else Inr ()))
       (rbi_Currencies input)"

subsection \<open>Receipts\<close>

definition revenueBatchNonce :: "RevenueBatchInput \<Rightarrow> string \<Rightarrow> acceptedNonce" where
  "revenueBatchNonce input batchID =
     \<lparr>an_Signer = rbi_Signer input, an_Nonce = rbi_Nonce input, an_RequestHash = rbi_RequestHash input,
      an_IdempotencyKey = rbi_IdempotencyKey input, an_PayloadHash = rbi_PayloadHash input,
      an_RequestTimestamp = rbi_RequestTimestamp input, an_RequestSignature = rbi_DeploymentSignature input,
      an_ResultType = ''batch'', an_ResultID = batchID, an_AcceptedAt = rbi_AcceptedAt input\<rparr>"

definition revenueCurrenciesByBatch :: "registry_db \<Rightarrow> string \<Rightarrow> RevenueCurrency list" where
  "revenueCurrenciesByBatch db batchID =
     map rq_currency (sort_key rq_index (filter (\<lambda>row. rq_batchID row = batchID) (revenue_query_rows db)))"

definition revenueBatchRecordByIDQuery :: "registry_db \<Rightarrow> string \<Rightarrow> store_error + RevenueBatchRecord" where
  "revenueBatchRecordByIDQuery db batchID =
     (case find (\<lambda>b. rb_batch_id b = batchID) (revenue_batches db) of
        None \<Rightarrow> Inl ErrNotFound
      | Some b \<Rightarrow>
          (case find (\<lambda>l. le_LedgerIndex l = rb_ledger_index b) (ledger_entries db) of
             None \<Rightarrow> Inl ErrNotFound
           | Some l \<Rightarrow> Inr
               \<lparr>rbrec_BatchID = rb_batch_id b, rbrec_DeploymentID = rb_deployment_id b, rbrec_IdempotencyKey = rb_idempotency_key b,
                rbrec_Kind = rb_kind b, rbrec_Period = rb_period b, rbrec_Revision = rb_revision b,
                rbrec_SupersedesBatchID = (case rb_supersedes_batch_id b of None \<Rightarrow> [] | Some s \<Rightarrow> s),
                rbrec_RulesetVersion = rb_ruleset_version b, rbrec_CommissionRateBasisPoints = rb_commission_rate_basis_points b,
                rbrec_CurrencyCount = rb_currency_count b, rbrec_Currencies = revenueCurrenciesByBatch db batchID,
                rbrec_PayloadHash = rb_payload_hash b, rbrec_AcceptedAt = rb_accepted_at b,
                rbrec_LedgerEntry =
                  \<lparr>le_ProtocolVersion = le_ProtocolVersion l, le_RegistryScope = le_RegistryScope l, le_LedgerIndex = le_LedgerIndex l,
                   le_EntryType = le_EntryType l, le_DeploymentID = rb_deployment_id b, le_BatchID = rb_batch_id b,
                   le_Kind = rb_kind b, le_Period = rb_period b, le_RulesetVersion = rb_ruleset_version b,
                   le_QualifiedMAUCount = 0, le_BatchHash = le_BatchHash l,
                   le_PreviousEntryHash = le_PreviousEntryHash l, le_EntryHash = le_EntryHash l, le_AcceptedAt = rb_accepted_at b\<rparr>,
                rbrec_ReceiptSignature = rb_receipt_signature b\<rparr>))"

subsection \<open>Accepting a revenue batch\<close>

definition revenueLedgerEntry :: "(bytes \<Rightarrow> bytes) \<Rightarrow> RevenueBatchInput \<Rightarrow> LedgerHead \<Rightarrow> LedgerEntry" where
  "revenueLedgerEntry H input head =
     (let entry = \<lparr>le_ProtocolVersion = Version, le_RegistryScope = rbi_RegistryScope input,
            le_LedgerIndex = i64 (lh_LedgerIndex head + 1), le_EntryType = RevenueEntryType,
            le_DeploymentID = rbi_DeploymentID input, le_BatchID = rbi_CandidateBatchID input, le_Kind = rbi_Kind input,
            le_Period = rbi_Period input, le_RulesetVersion = rbi_RulesetVersion input,
            le_QualifiedMAUCount = 0, le_BatchHash = rbi_PayloadHash input,
            le_PreviousEntryHash = lh_EntryHash head, le_EntryHash = [], le_AcceptedAt = rbi_AcceptedAt input\<rparr>
      in entry\<lparr>le_EntryHash := Digest H (LedgerEntryMessage entry)\<rparr>)"

definition revenueBatchRow :: "RevenueBatchInput \<Rightarrow> LedgerEntry \<Rightarrow> bytes \<Rightarrow> revenue_row" where
  "revenueBatchRow input entry receiptSignature =
     \<lparr>rb_batch_id = rbi_CandidateBatchID input, rb_deployment_id = rbi_DeploymentID input,
      rb_idempotency_key = rbi_IdempotencyKey input, rb_request_timestamp = rbi_RequestTimestamp input,
      rb_request_nonce = rbi_Nonce input, rb_deployment_signature = rbi_DeploymentSignature input, rb_kind = rbi_Kind input,
      rb_period = rbi_Period input, rb_revision = rbi_Revision input,
      rb_supersedes_batch_id = (if rbi_SupersedesBatchID input \<noteq> [] then Some (rbi_SupersedesBatchID input) else None),
      rb_ruleset_version = rbi_RulesetVersion input, rb_commission_rate_basis_points = rbi_CommissionRateBasisPoints input,
      rb_currency_count = int (length (rbi_Currencies input)), rb_payload_hash = rbi_PayloadHash input,
      rb_accepted_at = rbi_AcceptedAt input, rb_ledger_index = le_LedgerIndex entry, rb_receipt_signature = receiptSignature\<rparr>"

definition revenueQueryRow :: "RevenueBatchInput \<Rightarrow> LedgerEntry \<Rightarrow> nat \<times> RevenueCurrency \<Rightarrow> persistedRevenueQueryRow" where
  "revenueQueryRow input entry = (\<lambda>(index, currency).
     \<lparr>rq_batchID = rbi_CandidateBatchID input, rq_index = int index, rq_ledgerIndex = le_LedgerIndex entry,
      rq_deploymentID = rbi_DeploymentID input, rq_period = rbi_Period input, rq_revision = rbi_Revision input,
      rq_supersedesBatchID = rbi_SupersedesBatchID input, rq_currency = currency,
      rq_acceptedAt = rbi_AcceptedAt input, rq_sourceEntryHash = le_EntryHash entry\<rparr>)"

text \<open>The inserts of an accepted revenue batch, in the order of the code.\<close>

definition appendRevenueTx ::
  "(bytes \<Rightarrow> bytes) \<Rightarrow> registry_db \<Rightarrow> RevenueBatchInput \<Rightarrow> LedgerEntry \<Rightarrow> bytes \<Rightarrow> store_error + registry_db" where
  "appendRevenueTx H db input entry receiptSignature =
     bindR (insert_ledger_entry db entry) (\<lambda>db.
     bindR (appendMerkleEntryTx H db (le_LedgerIndex entry) (le_EntryHash entry)) (\<lambda>db.
     bindR (insert_revenue_batch db (revenueBatchRow input entry receiptSignature)) (\<lambda>db.
     bindR (insert_all insert_revenue_query_row db (map (revenueQueryRow input entry) (enumerate 0 (rbi_Currencies input)))) (\<lambda>db.
     bindR (insertNonce db (revenueBatchNonce input (rbi_CandidateBatchID input))) (\<lambda>db.
     insertIdempotency db (rbi_Signer input) (rbi_IdempotencyKey input) (rbi_PayloadHash input) ''batch''
       (rbi_CandidateBatchID input) (rbi_AcceptedAt input))))))"

definition acceptedRevenueRecord :: "RevenueBatchInput \<Rightarrow> LedgerEntry \<Rightarrow> bytes \<Rightarrow> RevenueBatchRecord" where
  "acceptedRevenueRecord input entry receiptSignature =
     \<lparr>rbrec_BatchID = rbi_CandidateBatchID input, rbrec_DeploymentID = rbi_DeploymentID input,
      rbrec_IdempotencyKey = rbi_IdempotencyKey input, rbrec_Kind = rbi_Kind input, rbrec_Period = rbi_Period input,
      rbrec_Revision = rbi_Revision input, rbrec_SupersedesBatchID = rbi_SupersedesBatchID input,
      rbrec_RulesetVersion = rbi_RulesetVersion input, rbrec_CommissionRateBasisPoints = rbi_CommissionRateBasisPoints input,
      rbrec_CurrencyCount = int (length (rbi_Currencies input)), rbrec_Currencies = rbi_Currencies input,
      rbrec_PayloadHash = rbi_PayloadHash input, rbrec_AcceptedAt = rbi_AcceptedAt input, rbrec_LedgerEntry = entry,
      rbrec_ReceiptSignature = receiptSignature\<rparr>"

definition AcceptRevenueBatch ::
  "(bytes \<Rightarrow> bytes) \<Rightarrow> registry_db \<Rightarrow> RevenueBatchInput \<Rightarrow> (LedgerEntry \<Rightarrow> RevenueBatchInput \<Rightarrow> int \<Rightarrow> string \<Rightarrow> bytes option)
    \<Rightarrow> store_error + registry_db \<times> RevenueBatchRecord \<times> bool" where
  "AcceptRevenueBatch H db input signReceipt =
     bindR (nonceState db (rbi_Signer input) (rbi_Nonce input) (rbi_RequestHash input)) (\<lambda>nonceUsed.
     case readIdempotency db (rbi_Signer input) (rbi_IdempotencyKey input) of
       Some idempotency \<Rightarrow>
         if ir_PayloadHash idempotency \<noteq> rbi_PayloadHash input then Inl ErrIdempotencyConflict
         else if ir_ResultType idempotency \<noteq> ''batch'' then Inl ErrInconsistentState
         else bindR (revenueBatchRecordByIDQuery db (ir_ResultID idempotency)) (\<lambda>record.
           bindR (if \<not> nonceUsed then insertNonce db (revenueBatchNonce input (rbrec_BatchID record)) else Inr db) (\<lambda>db.
           Inr (db, record, True)))
     | None \<Rightarrow>
         if nonceUsed then Inl ErrInconsistentState
         else
           bindR (ensureAcceptedAtAfterRegistryCreation db (rbi_AcceptedAt input)) (\<lambda>_.
           bindR (ensureAcceptedAtAfterCheckpoint db (rbi_AcceptedAt input)) (\<lambda>_.
           bindR (ensureRevenueRevision db input) (\<lambda>_.
           bindR (ensureRevenueAggregateCapacity db input) (\<lambda>_.
           let head = ledgerHeadTx db in
           bindR (ensureAcceptedAtNotBeforeHead (rbi_AcceptedAt input) (lh_AcceptedAt head)) (\<lambda>_.
           let entry = revenueLedgerEntry H input head; currencyCount = int (length (rbi_Currencies input)) in
           bindR (from_option SigningFailed (signReceipt entry input currencyCount (rbi_CheckpointDate input))) (\<lambda>receiptSignature.
           bindR (appendRevenueTx H db input entry receiptSignature) (\<lambda>db.
           Inr (db, acceptedRevenueRecord input entry receiptSignature, False)))))))))"

subsection \<open>What a successful append does\<close>

lemma revenueLedgerEntry_simps [simp]:
  "le_LedgerIndex (revenueLedgerEntry H input head) = i64 (lh_LedgerIndex head + 1)"
  "le_RegistryScope (revenueLedgerEntry H input head) = rbi_RegistryScope input"
  "le_PreviousEntryHash (revenueLedgerEntry H input head) = lh_EntryHash head"
  "le_AcceptedAt (revenueLedgerEntry H input head) = rbi_AcceptedAt input"
  "le_EntryType (revenueLedgerEntry H input head) = RevenueEntryType"
  "le_DeploymentID (revenueLedgerEntry H input head) = rbi_DeploymentID input"
  "le_BatchID (revenueLedgerEntry H input head) = rbi_CandidateBatchID input"
  "le_Kind (revenueLedgerEntry H input head) = rbi_Kind input"
  "le_Period (revenueLedgerEntry H input head) = rbi_Period input"
  "le_RulesetVersion (revenueLedgerEntry H input head) = rbi_RulesetVersion input"
  "le_QualifiedMAUCount (revenueLedgerEntry H input head) = 0"
  by (simp_all add: revenueLedgerEntry_def Let_def)

lemma revenueLedgerEntry_hash:
  "le_EntryHash (revenueLedgerEntry H input head) = Digest H (LedgerEntryMessage (revenueLedgerEntry H input head))"
  unfolding revenueLedgerEntry_def Let_def LedgerEntryMessage_hash by simp

lemma insert_revenue_query_row_Inr:
  assumes "insert_revenue_query_row db r = Inr db'"
  shows "db' = db\<lparr>revenue_query_rows := revenue_query_rows db @ [r]\<rparr>"
    "(rq_batchID r, rc_CurrencyCode (rq_currency r)) \<notin> (\<lambda>q. (rq_batchID q, rc_CurrencyCode (rq_currency q))) ` set (revenue_query_rows db)"
    "list_all (\<lambda>v. v \<ge> 0) (revenue_values (rq_currency r))"
  using assms by (simp_all add: insert_revenue_query_row_def revenue_values_def Let_def split: if_splits)

lemma insert_all_query_rows:
  assumes "insert_all insert_revenue_query_row db rs = Inr db'"
  shows "db' = db\<lparr>revenue_query_rows := revenue_query_rows db @ rs\<rparr>"
    "distinct (map (\<lambda>q. (rq_batchID q, rc_CurrencyCode (rq_currency q))) rs)"
    "\<forall>r \<in> set rs. list_all (\<lambda>v. v \<ge> 0) (revenue_values (rq_currency r))"
proof -
  let ?key = "\<lambda>q. (rq_batchID q, rc_CurrencyCode (rq_currency q))"
  have step: "revenue_query_rows d' = revenue_query_rows d @ [r] \<and> ?key r \<notin> ?key ` set (revenue_query_rows d)"
    if "insert_revenue_query_row d r = Inr d'" for d r d'
    using insert_revenue_query_row_Inr(1,2) [OF that] by simp
  from insert_all_fresh [of insert_revenue_query_row revenue_query_rows ?key, OF step assms]
  show "distinct (map ?key rs)" by blast
  show "db' = db\<lparr>revenue_query_rows := revenue_query_rows db @ rs\<rparr>"
    "\<forall>r \<in> set rs. list_all (\<lambda>v. v \<ge> 0) (revenue_values (rq_currency r))"
    using assms
  proof (induction rs arbitrary: db)
    case (Cons r rs)
    {
      case 1
      then obtain d where "insert_revenue_query_row db r = Inr d" "insert_all insert_revenue_query_row d rs = Inr db'"
        by (auto simp: result_simps)
      with Cons.IH(1) insert_revenue_query_row_Inr(1) show ?case by fastforce
    next
      case 2
      then obtain d where "insert_revenue_query_row db r = Inr d" "insert_all insert_revenue_query_row d rs = Inr db'"
        by (auto simp: result_simps)
      with Cons.IH(2) insert_revenue_query_row_Inr(3) show ?case by fastforce
    }
  qed simp_all
qed

definition revenue_appended :: "registry_db \<Rightarrow> RevenueBatchInput \<Rightarrow> LedgerEntry \<Rightarrow> bytes \<Rightarrow> registry_db \<Rightarrow> registry_db" where
  "revenue_appended db input entry sig db1 = db1\<lparr>
     revenue_batches := revenue_batches db @ [revenueBatchRow input entry sig],
     revenue_query_rows := revenue_query_rows db @ map (revenueQueryRow input entry) (enumerate 0 (rbi_Currencies input)),
     used_nonces := used_nonces db @ [revenueBatchNonce input (rbi_CandidateBatchID input)],
     idempotency_records := idempotency_records db @
       [\<lparr>idr_signer = rbi_Signer input, idr_idempotency_key = rbi_IdempotencyKey input, idr_payload_hash = rbi_PayloadHash input,
         idr_result_type = ''batch'', idr_result_id = rbi_CandidateBatchID input, idr_accepted_at = rbi_AcceptedAt input\<rparr>]\<rparr>"

lemma revenue_appended_simps [simp]:
  "ledger_entries (revenue_appended db input e sig db1) = ledger_entries db1"
  "ledger_merkle_nodes (revenue_appended db input e sig db1) = ledger_merkle_nodes db1"
  "registry_identity (revenue_appended db input e sig db1) = registry_identity db1"
  "ledger_weight_rows (revenue_appended db input e sig db1) = ledger_weight_rows db1"
  "mau_batches (revenue_appended db input e sig db1) = mau_batches db1"
  "revenue_batches (revenue_appended db input e sig db1) = revenue_batches db @ [revenueBatchRow input e sig]"
  "revenue_query_rows (revenue_appended db input e sig db1) =
     revenue_query_rows db @ map (revenueQueryRow input e) (enumerate 0 (rbi_Currencies input))"
  by (simp_all add: revenue_appended_def)

lemma appendRevenueTx_Inr:
  assumes "appendRevenueTx H db input entry sig = Inr db'"
  obtains nodes where
    "appendMerkleEntryTx H (db\<lparr>ledger_entries := ledger_entries db @ [entry]\<rparr>) (le_LedgerIndex entry) (le_EntryHash entry) =
       Inr (db\<lparr>ledger_entries := ledger_entries db @ [entry], ledger_merkle_nodes := nodes\<rparr>)"
    "db' = revenue_appended db input entry sig (db\<lparr>ledger_entries := ledger_entries db @ [entry], ledger_merkle_nodes := nodes\<rparr>)"
    "le_LedgerIndex entry \<notin> le_LedgerIndex ` set (ledger_entries db)"
    "rbi_CandidateBatchID input \<notin> rb_batch_id ` set (revenue_batches db)"
    "distinct (map rc_CurrencyCode (rbi_Currencies input))"
    "\<forall>c \<in> set (rbi_Currencies input). list_all (\<lambda>v. v \<ge> 0) (revenue_values c)"
proof -
  from assms obtain db1 db2 db3 db4 db5 where
    1: "insert_ledger_entry db entry = Inr db1" and
    2: "appendMerkleEntryTx H db1 (le_LedgerIndex entry) (le_EntryHash entry) = Inr db2" and
    3: "insert_revenue_batch db2 (revenueBatchRow input entry sig) = Inr db3" and
    4: "insert_all insert_revenue_query_row db3 (map (revenueQueryRow input entry) (enumerate 0 (rbi_Currencies input))) = Inr db4" and
    5: "insertNonce db4 (revenueBatchNonce input (rbi_CandidateBatchID input)) = Inr db5" and
    6: "insertIdempotency db5 (rbi_Signer input) (rbi_IdempotencyKey input) (rbi_PayloadHash input) ''batch''
       (rbi_CandidateBatchID input) (rbi_AcceptedAt input) = Inr db'"
    by (auto simp: appendRevenueTx_def result_simps)
  from 1 have e1: "db1 = db\<lparr>ledger_entries := ledger_entries db @ [entry]\<rparr>"
    and n1: "le_LedgerIndex entry \<notin> le_LedgerIndex ` set (ledger_entries db)"
    by (simp_all add: insert_ledger_entry_def split: if_splits)
  from appendMerkleEntryTx_frame [OF 2] obtain nodes where e2: "db2 = db1\<lparr>ledger_merkle_nodes := nodes\<rparr>" by blast
  from 3 have e3: "db3 = db2\<lparr>revenue_batches := revenue_batches db @ [revenueBatchRow input entry sig]\<rparr>"
    and n3: "rbi_CandidateBatchID input \<notin> rb_batch_id ` set (revenue_batches db)"
    by (simp_all add: insert_revenue_batch_def e1 e2 revenueBatchRow_def split: if_splits)
  note rows = insert_all_query_rows [OF 4]
  have codes: "map (\<lambda>q. (rq_batchID q, rc_CurrencyCode (rq_currency q))) (map (revenueQueryRow input entry) (enumerate 0 cs)) =
      map (\<lambda>c. (rbi_CandidateBatchID input, rc_CurrencyCode c)) cs" for cs :: "RevenueCurrency list"
    by (rule nth_equalityI) (simp_all add: revenueQueryRow_def nth_enumerate_eq)
  have cur: "rq_currency ` set (map (revenueQueryRow input entry) (enumerate 0 cs)) = set cs" for cs :: "RevenueCurrency list"
  proof -
    have "map rq_currency (map (revenueQueryRow input entry) (enumerate 0 cs)) = cs"
      by (rule nth_equalityI) (simp_all add: revenueQueryRow_def nth_enumerate_eq)
    then show ?thesis by (metis set_map)
  qed
  have d: "distinct (map rc_CurrencyCode (rbi_Currencies input))"
    using rows(2) unfolding codes by (simp add: distinct_map inj_on_def)
  have nn: "\<forall>c \<in> set (rbi_Currencies input). list_all (\<lambda>v. v \<ge> 0) (revenue_values c)"
    using rows(3) unfolding cur [symmetric] by blast
  from rows(1) have e4: "db4 = db3\<lparr>revenue_query_rows := revenue_query_rows db @ map (revenueQueryRow input entry) (enumerate 0 (rbi_Currencies input))\<rparr>"
    by (simp add: e1 e2 e3)
  from 5 have e5: "db5 = db4\<lparr>used_nonces := used_nonces db @ [revenueBatchNonce input (rbi_CandidateBatchID input)]\<rparr>"
    by (simp add: insertNonce_def e1 e2 e3 e4 split: if_splits)
  from 6 have "db' = revenue_appended db input entry sig (db\<lparr>ledger_entries := ledger_entries db @ [entry], ledger_merkle_nodes := nodes\<rparr>)"
    by (simp add: insertIdempotency_def revenue_appended_def e1 e2 e3 e4 e5 split: if_splits)
  with 2 n1 n3 d nn show ?thesis by (intro that) (simp_all add: e1 e2)
qed

subsection \<open>Checked sums\<close>

abbreviation col :: "nat \<Rightarrow> persistedRevenueQueryRow list \<Rightarrow> int" where
  "col k rows \<equiv> sum_list (map (\<lambda>r. revenue_values (rq_currency r) ! k) rows)"

lemma length_revenue_values [simp]: "length (revenue_values c) = 6"
  by (simp add: revenue_values_def)

lemma checkedRevenueAdd_iff: "checkedRevenueAdd a b = Some s \<longleftrightarrow> 0 \<le> a \<and> 0 \<le> b \<and> s = a + b \<and> s \<le> MaxInt64"
  by (auto simp: checkedRevenueAdd_def)

lemma add_totals_Some:
  assumes "add_totals ts vs = Some us" "length ts = length vs"
  shows "length us = length vs \<and> (\<forall>k < length vs. us ! k = ts ! k + vs ! k \<and> us ! k \<le> MaxInt64)"
  using assms
proof (induction ts vs arbitrary: us rule: add_totals.induct)
  case (1 t ts v vs)
  then obtain n rest where *: "checkedRevenueAdd t v = Some n" "add_totals ts vs = Some rest" "us = n # rest"
    by (auto split: option.splits)
  have "length ts = length vs" using "1.prems"(2) by simp
  from "1.IH" [OF *(1,2) this] * show ?case by (auto simp: checkedRevenueAdd_iff nth_Cons split: nat.split)
qed simp_all

lemma aggregate_rows_Inr:
  assumes "aggregate_rows f totals rows = Inr us" "length totals = 6"
  shows "length us = 6 \<and> (\<forall>k < 6. us ! k = totals ! k + col k rows) \<and> (\<forall>r \<in> set rows. rc_FractionDigits (rq_currency r) = f)"
  using assms
proof (induction f totals rows arbitrary: us rule: aggregate_rows.induct)
  case (2 f totals row rows)
  then obtain ts where ts: "add_totals totals (revenue_values (rq_currency row)) = Some ts" "rc_FractionDigits (rq_currency row) = f"
      "aggregate_rows f ts rows = Inr us"
    by (auto split: option.splits if_splits)
  have "length ts = 6" "\<forall>k < 6. ts ! k = totals ! k + revenue_values (rq_currency row) ! k"
    using add_totals_Some [OF ts(1)] "2.prems"(2) by auto
  with "2.IH" [OF _ ts(1,3)] ts(2) show ?case by simp
qed simp

lemma ensureRevenueAggregateCapacity_Inr:
  assumes "ensureRevenueAggregateCapacity db input = Inr ()" "c \<in> set (rbi_Currencies input)" "k < 6"
  shows "col k (other_active_rows db (rbi_Period input) (rc_CurrencyCode c) (rbi_DeploymentID input)) + revenue_values c ! k \<le> MaxInt64"
proof -
  let ?rows = "other_active_rows db (rbi_Period input) (rc_CurrencyCode c) (rbi_DeploymentID input)"
  obtain totals us where agg: "aggregate_rows (rc_FractionDigits c) [0, 0, 0, 0, 0, 0] ?rows = Inr totals"
      and us: "add_totals totals (revenue_values c) = Some us"
    using assms(1,2) by (fastforce simp: ensureRevenueAggregateCapacity_def result_simps split: if_splits)
  from aggregate_rows_Inr [OF agg] have t: "length totals = 6" "\<forall>k < 6. totals ! k = [0, 0, 0, 0, 0, 0] ! k + col k ?rows" by simp_all
  have "[0, 0, 0, 0, 0, 0 :: int] ! k = 0" using assms(3) by (simp add: nth_Cons numeral_eq_Suc less_Suc_eq_le split: nat.split)
  with t assms(3) add_totals_Some [OF us] show ?thesis by auto
qed

subsection \<open>The invariant of the revenue tables\<close>

definition active_rows :: "registry_db \<Rightarrow> string \<Rightarrow> string \<Rightarrow> persistedRevenueQueryRow list" where
  "active_rows db period code = filter (\<lambda>row. rq_period row = period \<and> rc_CurrencyCode (rq_currency row) = code \<and> revenue_active db row)
     (revenue_query_rows db)"

definition revenue_revisions :: "registry_db \<Rightarrow> string \<Rightarrow> string \<Rightarrow> revenue_row list" where
  "revenue_revisions db d p = filter (\<lambda>b. rb_deployment_id b = d \<and> rb_period b = p) (revenue_batches db)"

definition rb_supersedes :: "revenue_row \<Rightarrow> string" where
  "rb_supersedes b = (case rb_supersedes_batch_id b of None \<Rightarrow> [] | Some s \<Rightarrow> s)"

abbreviation revenue_chain :: "revenue_row list \<Rightarrow> bool" where
  "revenue_chain \<equiv> is_revision_chain rb_revision rb_supersedes rb_batch_id"

definition revenue_ok :: "registry_db \<Rightarrow> bool" where
  "revenue_ok db \<longleftrightarrow>
     (\<forall>d p. revenue_chain (revenue_revisions db d p)) \<and>
     (\<forall>row \<in> set (revenue_query_rows db). list_all (\<lambda>v. v \<ge> 0) (revenue_values (rq_currency row)) \<and>
        (\<exists>b \<in> set (revenue_batches db). rb_deployment_id b = rq_deploymentID row \<and> rb_period b = rq_period row \<and> rb_revision b = rq_revision row)) \<and>
     (\<forall>period code. \<forall>k < 6. col k (active_rows db period code) \<le> MaxInt64)"

lemma ensureRevenueRevision_chain:
  assumes "revenue_chain (revenue_revisions db (rbi_DeploymentID input) (rbi_Period input))"
    and "length (revenue_batches db) < 2 ^ 62" "ensureRevenueRevision db input = Inr ()"
  shows "revenue_chain (revenue_revisions db (rbi_DeploymentID input) (rbi_Period input) @ [revenueBatchRow input e sig])"
proof (rule is_revision_chain_next [OF assms(1)])
  show "length (revenue_revisions db (rbi_DeploymentID input) (rbi_Period input)) < 2 ^ 62"
    using assms(2) by (simp add: revenue_revisions_def le_less_trans [OF length_filter_le])
qed (use assms(3) in \<open>auto simp: ensureRevenueRevision_def revenue_revisions_def revenueBatchRow_def rb_supersedes_def split: option.splits if_splits\<close>)

lemma revenueBatchRow_simps [simp]:
  "rb_deployment_id (revenueBatchRow input e sig) = rbi_DeploymentID input" "rb_period (revenueBatchRow input e sig) = rbi_Period input"
  "rb_revision (revenueBatchRow input e sig) = rbi_Revision input" "rb_batch_id (revenueBatchRow input e sig) = rbi_CandidateBatchID input"
  by (simp_all add: revenueBatchRow_def)

lemma revenueQueryRow_simps [simp]:
  "rq_deploymentID (revenueQueryRow input e ic) = rbi_DeploymentID input" "rq_period (revenueQueryRow input e ic) = rbi_Period input"
  "rq_revision (revenueQueryRow input e ic) = rbi_Revision input" "rq_currency (revenueQueryRow input e ic) = snd ic"
  "rq_batchID (revenueQueryRow input e ic) = rbi_CandidateBatchID input" "rq_index (revenueQueryRow input e ic) = int (fst ic)"
  by (simp_all add: revenueQueryRow_def split: prod.split)

lemma revenue_active_extend:
  assumes "revenue_batches db' = revenue_batches db @ [b]"
  shows "revenue_active db' row \<longleftrightarrow> revenue_active db row \<and>
    \<not> (rb_deployment_id b = rq_deploymentID row \<and> rb_period b = rq_period row \<and> rb_revision b > rq_revision row)"
  using assms by (auto simp: revenue_active_def)

lemma filter_code_distinct:
  assumes "distinct (map f xs)"
  shows "filter (\<lambda>x. f x = k) xs = (case find (\<lambda>x. f x = k) xs of None \<Rightarrow> [] | Some x \<Rightarrow> [x])"
  using assms by (induction xs) (auto simp: filter_empty_conv find_Some_iff image_iff split: option.splits)

lemma col_mono:
  assumes "\<forall>r \<in> set rows. list_all (\<lambda>v. v \<ge> 0) (revenue_values (rq_currency r))" "k < 6"
    and "\<forall>r \<in> set rows. P r \<longrightarrow> Q r"
  shows "col k (filter P rows) \<le> col k (filter Q rows)"
  using assms by (induction rows) (auto simp: list_all_length)

subsection \<open>A new batch keeps the invariant\<close>

lemma revenue_row_revision_less:
  assumes ok: "revenue_ok db" and rev: "revenue_chain (revenue_revisions db d p @ [b])" and "row \<in> set (revenue_query_rows db)"
    and "rq_deploymentID row = d" "rq_period row = p"
  shows "rq_revision row < rb_revision b"
proof -
  obtain q where q: "q \<in> set (revenue_batches db)" "rb_deployment_id q = d" "rb_period q = p" "rb_revision q = rq_revision row"
    using ok assms(3-5) unfolding revenue_ok_def by blast
  then have "q \<in> set (revenue_revisions db d p)" by (simp add: revenue_revisions_def)
  moreover have "revenue_chain (revenue_revisions db d p)" "rb_revision b = int (length (revenue_revisions db d p)) + 1"
    using rev by (simp_all add: is_revision_chain_snoc)
  ultimately show ?thesis using is_revision_chain_le [of rb_revision rb_supersedes rb_batch_id _ q] q(4) by fastforce
qed

lemma active_rows_appended:
  assumes ok: "revenue_ok db" and chain: "revenue_chain (revenue_revisions db (rbi_DeploymentID input) (rbi_Period input) @ [revenueBatchRow input e sig])"
    and b: "revenue_batches db' = revenue_batches db @ [revenueBatchRow input e sig]"
    and r: "revenue_query_rows db' = revenue_query_rows db @ map (revenueQueryRow input e) (enumerate 0 (rbi_Currencies input))"
  shows "active_rows db' period code =
    (if period = rbi_Period input
     then other_active_rows db period code (rbi_DeploymentID input) @
       map (revenueQueryRow input e) (filter (\<lambda>ic. rc_CurrencyCode (snd ic) = code) (enumerate 0 (rbi_Currencies input)))
     else active_rows db period code)"
proof -
  let ?P = "\<lambda>row. rq_period row = period \<and> rc_CurrencyCode (rq_currency row) = code \<and> revenue_active db' row"
  have old: "revenue_active db' row \<longleftrightarrow> revenue_active db row \<and> \<not> (rq_deploymentID row = rbi_DeploymentID input \<and> rq_period row = rbi_Period input)"
    if "row \<in> set (revenue_query_rows db)" for row
    using revenue_row_revision_less [OF ok chain that] revenue_active_extend [OF b, of row] by auto
  have new: "revenue_active db' (revenueQueryRow input e ic)" for ic
  proof -
    have "rb_revision q < rbi_Revision input" if "q \<in> set (revenue_batches db)" "rb_deployment_id q = rbi_DeploymentID input" "rb_period q = rbi_Period input" for q
    proof -
      have "q \<in> set (revenue_revisions db (rbi_DeploymentID input) (rbi_Period input))" using that by (simp add: revenue_revisions_def)
      with chain show ?thesis using is_revision_chain_le [of rb_revision rb_supersedes rb_batch_id _ q] by (fastforce simp: is_revision_chain_snoc)
    qed
    then show ?thesis by (fastforce simp: revenue_active_def b list_ex_iff)
  qed
  have "filter ?P (revenue_query_rows db) = (if period = rbi_Period input then other_active_rows db period code (rbi_DeploymentID input) else active_rows db period code)"
    unfolding other_active_rows_def active_rows_def by (auto intro!: filter_cong simp: old)
  moreover have "filter ?P (map (revenueQueryRow input e) ics) =
      (if period = rbi_Period input then map (revenueQueryRow input e) (filter (\<lambda>ic. rc_CurrencyCode (snd ic) = code) ics) else [])" for ics
    using new by (auto simp: filter_map o_def)
  ultimately show ?thesis by (simp add: active_rows_def r)
qed

lemma filter_enumerate_snd:
  "map snd (filter (\<lambda>ic. P (snd ic)) (enumerate n xs)) = filter P xs"
  by (induction xs arbitrary: n) simp_all

lemma revenue_ok_appended:
  assumes ok: "revenue_ok db" and n: "length (revenue_batches db) < 2 ^ 62"
    and rev: "ensureRevenueRevision db input = Inr ()" and cap: "ensureRevenueAggregateCapacity db input = Inr ()"
    and b: "revenue_batches db' = revenue_batches db @ [revenueBatchRow input e sig]"
    and r: "revenue_query_rows db' = revenue_query_rows db @ map (revenueQueryRow input e) (enumerate 0 (rbi_Currencies input))"
    and d: "distinct (map rc_CurrencyCode (rbi_Currencies input))"
    and nn: "\<forall>c \<in> set (rbi_Currencies input). list_all (\<lambda>v. v \<ge> 0) (revenue_values c)"
  shows "revenue_ok db'"
proof -
  note ok' = ok [unfolded revenue_ok_def]
  have chain: "revenue_chain (revenue_revisions db (rbi_DeploymentID input) (rbi_Period input) @ [revenueBatchRow input e sig])"
    using ensureRevenueRevision_chain [OF _ n rev] ok' by blast
  have "revenue_chain (revenue_revisions db' dd p)" for dd p
    using chain ok' by (auto simp: revenue_revisions_def b)
  moreover have "list_all (\<lambda>v. v \<ge> 0) (revenue_values (rq_currency row)) \<and>
      (\<exists>b \<in> set (revenue_batches db'). rb_deployment_id b = rq_deploymentID row \<and> rb_period b = rq_period row \<and> rb_revision b = rq_revision row)"
    if row: "row \<in> set (revenue_query_rows db')" for row
  proof (cases "row \<in> set (revenue_query_rows db)")
    case True
    with ok' have "list_all (\<lambda>v. v \<ge> 0) (revenue_values (rq_currency row)) \<and>
      (\<exists>b \<in> set (revenue_batches db). rb_deployment_id b = rq_deploymentID row \<and> rb_period b = rq_period row \<and> rb_revision b = rq_revision row)" by blast
    then show ?thesis by (auto simp: b)
  next
    case False
    with row obtain ic where "ic \<in> set (enumerate 0 (rbi_Currencies input))" "row = revenueQueryRow input e ic" by (auto simp: r)
    moreover from this have "snd ic \<in> set (rbi_Currencies input)" by (auto simp: in_set_enumerate_eq) (metis nth_mem)
    ultimately show ?thesis using nn by (auto simp: b)
  qed
  moreover have "col k (active_rows db' period code) \<le> MaxInt64" if k: "k < 6" for k period code
  proof (cases "period = rbi_Period input")
    case True
    let ?others = "other_active_rows db period code (rbi_DeploymentID input)"
    have "col k (active_rows db' period code) = col k ?others +
        sum_list (map (\<lambda>c. revenue_values c ! k) (map snd (filter (\<lambda>ic. rc_CurrencyCode (snd ic) = code) (enumerate 0 (rbi_Currencies input)))))"
      using True by (simp add: active_rows_appended [OF ok chain b r] o_def)
    also have "\<dots> = col k ?others + sum_list (map (\<lambda>c. revenue_values c ! k) (filter (\<lambda>c. rc_CurrencyCode c = code) (rbi_Currencies input)))"
      by (simp only: filter_enumerate_snd [of "\<lambda>c. rc_CurrencyCode c = code"])
    also have "\<dots> \<le> MaxInt64"
    proof (cases "find (\<lambda>c. rc_CurrencyCode c = code) (rbi_Currencies input)")
      case None
      have "\<forall>r \<in> set (revenue_query_rows db). list_all (\<lambda>v. v \<ge> 0) (revenue_values (rq_currency r))" using ok' by blast
      then have "col k ?others \<le> col k (active_rows db period code)"
        unfolding other_active_rows_def active_rows_def by (intro col_mono [OF _ k]) auto
      also have "\<dots> \<le> MaxInt64" using ok' k by blast
      finally show ?thesis using None by (simp add: filter_code_distinct [OF d])
    next
      case (Some c)
      then have "c \<in> set (rbi_Currencies input)" "rc_CurrencyCode c = code" by (auto simp: find_Some_iff)
      with ensureRevenueAggregateCapacity_Inr [OF cap _ k, of c] True Some show ?thesis by (simp add: filter_code_distinct [OF d])
    qed
    finally show ?thesis .
  next
    case False
    with ok' k show ?thesis by (simp add: active_rows_appended [OF ok chain b r])
  qed
  ultimately show ?thesis unfolding revenue_ok_def by blast
qed

text \<open>The three ways \<open>AcceptRevenueBatch\<close> succeeds.\<close>

lemma AcceptRevenueBatch_cases:
  assumes "AcceptRevenueBatch H db input signReceipt = Inr (db', record, duplicate)"
  obtains (known) "duplicate" "db' = db"
  | (retry) "duplicate" "\<exists>n. db' = db\<lparr>used_nonces := used_nonces db @ [n]\<rparr>"
  | (fresh) sig where "\<not> duplicate"
      "ensureAcceptedAtAfterRegistryCreation db (rbi_AcceptedAt input) = Inr ()"
      "ensureAcceptedAtNotBeforeHead (rbi_AcceptedAt input) (lh_AcceptedAt (ledgerHeadTx db)) = Inr ()"
      "ensureRevenueRevision db input = Inr ()" "ensureRevenueAggregateCapacity db input = Inr ()"
      "appendRevenueTx H db input (revenueLedgerEntry H input (ledgerHeadTx db)) sig = Inr db'"
      "record = acceptedRevenueRecord input (revenueLedgerEntry H input (ledgerHeadTx db)) sig"
      "nonceState db (rbi_Signer input) (rbi_Nonce input) (rbi_RequestHash input) = Inr False"
      "readIdempotency db (rbi_Signer input) (rbi_IdempotencyKey input) = None"
proof (cases "readIdempotency db (rbi_Signer input) (rbi_IdempotencyKey input)")
  case None
  with assms obtain sig where "\<not> duplicate"
      "ensureAcceptedAtAfterRegistryCreation db (rbi_AcceptedAt input) = Inr ()"
      "ensureAcceptedAtNotBeforeHead (rbi_AcceptedAt input) (lh_AcceptedAt (ledgerHeadTx db)) = Inr ()"
      "ensureRevenueRevision db input = Inr ()" "ensureRevenueAggregateCapacity db input = Inr ()"
      "appendRevenueTx H db input (revenueLedgerEntry H input (ledgerHeadTx db)) sig = Inr db'"
      "record = acceptedRevenueRecord input (revenueLedgerEntry H input (ledgerHeadTx db)) sig"
      "nonceState db (rbi_Signer input) (rbi_Nonce input) (rbi_RequestHash input) = Inr False"
      "readIdempotency db (rbi_Signer input) (rbi_IdempotencyKey input) = None"
    by (auto simp: AcceptRevenueBatch_def Let_def result_simps split: if_splits)
  then show thesis by (rule fresh)
next
  case (Some idempotency)
  with assms have "duplicate" "db' = db \<or> (\<exists>n. insertNonce db n = Inr db')"
    by (auto simp: AcceptRevenueBatch_def Let_def result_simps split: if_splits)
  then show thesis by (auto simp: insertNonce_def split: if_splits intro: known retry)
qed

definition revenue_for :: "registry_db \<Rightarrow> RevenueBatchInput \<Rightarrow> bool" where
  "revenue_for db input \<longleftrightarrow> (\<exists>identity. registry_identity db = Some identity \<and> rbi_RegistryScope input = sri_RegistryScope identity) \<and>
     has_suffix_Z (rbi_AcceptedAt input)"

lemma appendRevenueTx_verified:
  assumes H: "digest32 H" and v: "ledger_verified H db" and n: "length (ledger_entries db) < 2 ^ 62" and "revenue_for db input"
    and t: "ensureAcceptedAtAfterRegistryCreation db (rbi_AcceptedAt input) = Inr ()"
      "ensureAcceptedAtNotBeforeHead (rbi_AcceptedAt input) (lh_AcceptedAt (ledgerHeadTx db)) = Inr ()"
    and "appendRevenueTx H db input (revenueLedgerEntry H input (ledgerHeadTx db)) sig = Inr db'"
  shows "ledger_verified H db' \<and> ledger_entries db' = ledger_entries db @ [revenueLedgerEntry H input (ledgerHeadTx db)]"
proof -
  let ?e = "revenueLedgerEntry H input (ledgerHeadTx db)"
  from assms(4) obtain identity where ident: "registry_identity db = Some identity" "rbi_RegistryScope input = sri_RegistryScope identity"
    and z: "has_suffix_Z (rbi_AcceptedAt input)" by (auto simp: revenue_for_def)
  note v' = v [unfolded ledger_verified_def]
  have ext: "entry_extends H (sri_RegistryScope identity) (ledger_entries db) ?e"
    using v' ident by (intro head_entry_extends [OF H _ _ n z t]) (simp_all add: revenueLedgerEntry_hash)
  obtain nodes where nodes: "appendMerkleEntryTx H (db\<lparr>ledger_entries := ledger_entries db @ [?e]\<rparr>) (le_LedgerIndex ?e) (le_EntryHash ?e) =
        Inr (db\<lparr>ledger_entries := ledger_entries db @ [?e], ledger_merkle_nodes := nodes\<rparr>)"
      and db': "db' = revenue_appended db input ?e sig (db\<lparr>ledger_entries := ledger_entries db @ [?e], ledger_merkle_nodes := nodes\<rparr>)"
      and new: "le_LedgerIndex ?e \<notin> le_LedgerIndex ` set (ledger_entries db)"
    by (rule appendRevenueTx_Inr [OF assms(7)])
  have "VerifyLedgerWeightRows db' = Inr ()"
    by (rule VerifyLedgerWeightRows_extend_plain [of db db' ?e]) (use v' new in \<open>simp_all add: db'\<close>)
  moreover have "ledger_sorted db' \<and> merkle_rows_ok (ledger_merkle_nodes db') \<and> VerifyLedger H db' = Inr () \<and> VerifyMerkleTree H db' = Inr ()"
    by (rule append_entry_verified [OF H v n ident(1) ext nodes]) (simp_all add: db')
  ultimately show ?thesis by (simp add: ledger_verified_def db')
qed

subsection \<open>Summaries\<close>

text \<open>Which deployments a query selects: one deployment, the deployments of a group (\<open>groupDeployments\<close> is the membership
  subquery over the operator and transfer tables, which \<open>Leaderboard_Store\<close> defines and passes) or all.\<close>

definition revenue_selected :: "(string \<Rightarrow> string list) \<Rightarrow> RevenueQuery \<Rightarrow> string \<Rightarrow> bool" where
  "revenue_selected groupDeployments query deploymentID \<longleftrightarrow>
     (if rqy_DeploymentID query \<noteq> [] then deploymentID = rqy_DeploymentID query
      else if rqy_GroupID query \<noteq> [] then deploymentID \<in> set (groupDeployments (rqy_GroupID query))
      else True)"

definition batch_active :: "registry_db \<Rightarrow> revenue_row \<Rightarrow> bool" where
  "batch_active db b \<longleftrightarrow> \<not> list_ex (\<lambda>newer. rb_deployment_id newer = rb_deployment_id b \<and>
     rb_period newer = rb_period b \<and> rb_revision newer > rb_revision b) (revenue_batches db)"

text \<open>The aggregate \<open>SUM\<close> over an integer column fails when a partial sum leaves the signed 64-bit range.\<close>

fun sql_sum_from :: "int \<Rightarrow> int list \<Rightarrow> int option" where
  "sql_sum_from acc [] = Some acc"
| "sql_sum_from acc (x # xs) = (if - (2 ^ 63) \<le> acc + x \<and> acc + x \<le> MaxInt64 then sql_sum_from (acc + x) xs else None)"

definition revenue_column_sums :: "persistedRevenueQueryRow list \<Rightarrow> int list option" where
  "revenue_column_sums rows =
     those (map (\<lambda>k. sql_sum_from 0 (map (\<lambda>row. revenue_values (rq_currency row) ! k) rows)) [0..<6])"

definition RevenueSummary_query ::
  "(string \<Rightarrow> string list) \<Rightarrow> registry_db \<Rightarrow> RevenueQuery \<Rightarrow> store_error + RevenueSummary" where
  "RevenueSummary_query groupDeployments db query =
     (let selected = revenue_selected groupDeployments query;
          networkRows = filter (\<lambda>row. rq_period row = rqy_Period query \<and> rc_CurrencyCode (rq_currency row) = rqy_CurrencyCode query \<and>
            revenue_active db row) (revenue_query_rows db);
          rows = filter (\<lambda>row. selected (rq_deploymentID row)) networkRows;
          digits = map (\<lambda>row. rc_FractionDigits (rq_currency row)) rows;
          minimumFractionDigits = (if digits = [] then 0 else Min (set digits));
          maximumFractionDigits = (if digits = [] then 0 else Max (set digits));
          currencyBatchCount = int (card (rq_batchID ` set rows));
          batches = filter (\<lambda>b. rb_period b = rqy_Period query \<and> selected (rb_deployment_id b) \<and> batch_active db b) (revenue_batches db)
      in case revenue_column_sums rows of None \<Rightarrow> Inl IntegerOverflow | Some columnSums \<Rightarrow>
         if minimumFractionDigits \<noteq> maximumFractionDigits then Inl ErrInconsistentState
         else case sql_sum_from 0 (map (rc_CommissionBasisMinor \<circ> rq_currency) networkRows) of
           None \<Rightarrow> Inl IntegerOverflow
         | Some networkCommissionBasisMinor \<Rightarrow> Inr
           \<lparr>rsum_Period = rqy_Period query, rsum_CurrencyCode = rqy_CurrencyCode query,
            rsum_FractionDigits = (if currencyBatchCount > 0 then minimumFractionDigits else rqy_FractionDigits query),
            rsum_DeploymentID = rqy_DeploymentID query, rsum_GroupID = rqy_GroupID query,
            rsum_DeploymentCount = int (card (rb_deployment_id ` set batches)), rsum_ActiveBatchCount = int (length batches),
            rsum_CurrencyBatchCount = currencyBatchCount,
            rsum_CapturedMinor = columnSums ! 0, rsum_RefundedMinor = columnSums ! 1, rsum_NetMinor = columnSums ! 2,
            rsum_CommissionBasisMinor = columnSums ! 3,
            rsum_NetworkCommissionPoolMinor = RevenueCommissionMinor networkCommissionBasisMinor,
            rsum_ReportedEstimatedCommissionMinor = columnSums ! 4, rsum_PaymentCount = columnSums ! 5,
            rsum_RulesetVersion = RevenueRulesetVersion, rsum_CommissionRateBasisPoints = RevenueCommissionBasisPoints\<rparr>)"

subsection \<open>Verification of the revenue tables\<close>

definition validRevenueCurrency :: "RevenueCurrency \<Rightarrow> bool" where
  "validRevenueCurrency currency \<longleftrightarrow>
     ISO4217FractionDigits (rc_CurrencyCode currency) = Some (rc_FractionDigits currency) \<and>
     rc_CapturedMinor currency \<ge> 0 \<and> rc_CapturedMinor currency \<le> MaximumRevenueMinor \<and>
     rc_RefundedMinor currency \<ge> 0 \<and> rc_RefundedMinor currency \<le> rc_CapturedMinor currency \<and>
     rc_NetMinor currency = i64 (rc_CapturedMinor currency - rc_RefundedMinor currency) \<and>
     rc_NetMinor currency \<le> MaximumRevenueMinor \<and> rc_CommissionBasisMinor currency = rc_NetMinor currency \<and>
     rc_EstimatedCommissionMinor currency = RevenueCommissionMinor (rc_CommissionBasisMinor currency) \<and>
     rc_PaymentCount currency \<ge> 0 \<and> rc_PaymentCount currency \<le> MaximumRevenuePaymentCount"

text \<open>The loop of \<open>verifyRevenueQueryRows\<close>: the rows of one batch, in the order of their index.\<close>

fun verify_query_rows_loop ::
  "RevenueBatchRecord \<Rightarrow> string \<Rightarrow> RevenueCurrency list \<Rightarrow> persistedRevenueQueryRow list \<Rightarrow> store_error + RevenueCurrency list" where
  "verify_query_rows_loop record previousCode currencies [] = Inr currencies"
| "verify_query_rows_loop record previousCode currencies (row # rows) =
     (if rq_index row \<noteq> int (length currencies) \<or> rq_ledgerIndex row \<noteq> le_LedgerIndex (rbrec_LedgerEntry record) \<or>
         rq_deploymentID row \<noteq> rbrec_DeploymentID record \<or> rq_period row \<noteq> rbrec_Period record \<or>
         rq_revision row \<noteq> rbrec_Revision record \<or> rq_supersedesBatchID row \<noteq> rbrec_SupersedesBatchID record \<or>
         rq_acceptedAt row \<noteq> rbrec_AcceptedAt record \<or> rq_sourceEntryHash row \<noteq> le_EntryHash (rbrec_LedgerEntry record)
      then Inl ErrInconsistentState
      else if rc_CurrencyCode (rq_currency row) \<le> previousCode \<or> \<not> validRevenueCurrency (rq_currency row)
      then Inl ErrInconsistentState
      else verify_query_rows_loop record (rc_CurrencyCode (rq_currency row)) (currencies @ [rq_currency row]) rows)"

definition verifyRevenueQueryRows :: "RevenueBatchRecord \<Rightarrow> persistedRevenueQueryRow list \<Rightarrow> store_error + RevenueCurrency list" where
  "verifyRevenueQueryRows record rows = verify_query_rows_loop record [] [] rows"

definition revenue_key :: "persistedRevenueQueryRow \<Rightarrow> string" where
  "revenue_key row = rq_period row @ CHR 0x00 # rc_CurrencyCode (rq_currency row)"

fun verify_aggregates_loop :: "string \<Rightarrow> int \<Rightarrow> int list \<Rightarrow> persistedRevenueQueryRow list \<Rightarrow> store_error + unit" where
  "verify_aggregates_loop currentKey currentFractionDigits totals [] = Inr ()"
| "verify_aggregates_loop currentKey currentFractionDigits totals (row # rows) =
     (let key = revenue_key row; fractionDigits = rc_FractionDigits (rq_currency row);
          totals' = (if key \<noteq> currentKey then [0, 0, 0, 0, 0, 0] else totals);
          currentFractionDigits' = (if key \<noteq> currentKey then fractionDigits else currentFractionDigits)
      in if currentFractionDigits' \<noteq> fractionDigits then Inl ErrInconsistentState
         else case add_totals totals' (revenue_values (rq_currency row)) of
             None \<Rightarrow> Inl ErrInconsistentState
           | Some totals'' \<Rightarrow> verify_aggregates_loop key currentFractionDigits' totals'' rows)"

definition verifyRevenueAggregates :: "registry_db \<Rightarrow> store_error + unit" where
  "verifyRevenueAggregates db =
     verify_aggregates_loop [] (- 1) [0, 0, 0, 0, 0, 0]
       (sort_key (\<lambda>row. (rq_period row, rc_CurrencyCode (rq_currency row), rq_deploymentID row))
         (filter (revenue_active db) (revenue_query_rows db)))"

subsection \<open>The invariant makes the verification pass\<close>

lemma add_totals_ok:
  assumes "length ts = length vs" "\<forall>k < length vs. 0 \<le> ts ! k \<and> 0 \<le> vs ! k \<and> ts ! k + vs ! k \<le> MaxInt64"
  shows "\<exists>us. add_totals ts vs = Some us"
  using assms
proof (induction ts vs rule: add_totals.induct)
  case (1 t ts v vs)
  have "checkedRevenueAdd t v = Some (t + v)" using "1.prems"(2) by (auto simp: checkedRevenueAdd_iff dest: spec [of _ 0])
  moreover have "\<exists>us. add_totals ts vs = Some us"
  proof (rule "1.IH" [OF calculation])
    show "\<forall>k < length vs. 0 \<le> ts ! k \<and> 0 \<le> vs ! k \<and> ts ! k + vs ! k \<le> MaxInt64"
    proof (intro allI impI)
      fix k assume "k < length vs"
      then show "0 \<le> ts ! k \<and> 0 \<le> vs ! k \<and> ts ! k + vs ! k \<le> MaxInt64" using "1.prems"(2) [rule_format, of "Suc k"] by simp
    qed
  qed (use "1.prems"(1) in simp)
  ultimately show ?case by auto
qed simp_all

lemma revenue_values_nonneg:
  "list_all (\<lambda>v. v \<ge> 0) (revenue_values c) \<Longrightarrow> k < 6 \<Longrightarrow> 0 \<le> revenue_values c ! k"
  by (simp add: list_all_length)

lemma verify_aggregates_loop_ok:
  assumes "\<forall>row \<in> set rows. rc_FractionDigits (rq_currency row) = D (revenue_key row) \<and> list_all (\<lambda>v. v \<ge> 0) (revenue_values (rq_currency row))"
    and "length totals = 6" "\<forall>k < 6. 0 \<le> totals ! k \<and> totals ! k + col k (filter (\<lambda>r. revenue_key r = cur) rows) \<le> MaxInt64"
    and "\<forall>key. \<forall>k < 6. col k (filter (\<lambda>r. revenue_key r = key) rows) \<le> MaxInt64"
    and "\<exists>row \<in> set rows. revenue_key row = cur \<Longrightarrow> digits = D cur"
  shows "verify_aggregates_loop cur digits totals rows = Inr ()"
  using assms
proof (induction rows arbitrary: cur digits totals)
  case (Cons row rows)
  let ?key = "revenue_key row" and ?v = "revenue_values (rq_currency row)"
  let ?t = "if ?key \<noteq> cur then [0, 0, 0, 0, 0, 0] else totals"
  have zeros: "[0, 0, 0, 0, 0, 0 :: int] ! k = 0" if "k < 6" for k
    using that by (simp add: nth_Cons numeral_eq_Suc less_Suc_eq_le split: nat.split)
  have v: "0 \<le> ?v ! k" if "k < 6" for k using Cons.prems(1) that by (intro revenue_values_nonneg) auto
  have rest: "0 \<le> col k (filter P rows)" if "k < 6" for k P
    using Cons.prems(1) that by (intro sum_list_nonneg) (auto intro!: revenue_values_nonneg)
  have tsum: "0 \<le> ?t ! k \<and> ?t ! k + ?v ! k + col k (filter (\<lambda>r. revenue_key r = ?key) rows) \<le> MaxInt64" if "k < 6" for k
  proof (cases "?key = cur")
    case True
    then show ?thesis using Cons.prems(3) that by auto
  next
    case False
    then show ?thesis using Cons.prems(4) [rule_format, OF that, of ?key] zeros [OF that] by simp
  qed
  have len: "length ?t = length ?v" using Cons.prems(2) by simp
  have bound: "0 \<le> ?t ! k \<and> 0 \<le> ?v ! k \<and> ?t ! k + ?v ! k \<le> MaxInt64" if "k < 6" for k
    using tsum [OF that] v [OF that] rest [OF that, of "\<lambda>r. revenue_key r = ?key"] by linarith
  then obtain us where us: "add_totals ?t ?v = Some us" using add_totals_ok [OF len] by auto
  note us' = add_totals_Some [OF us len]
  have "verify_aggregates_loop ?key (D ?key) us rows = Inr ()"
  proof (rule Cons.IH)
    show "\<forall>row \<in> set rows. rc_FractionDigits (rq_currency row) = D (revenue_key row) \<and> list_all (\<lambda>v. v \<ge> 0) (revenue_values (rq_currency row))"
      using Cons.prems(1) by simp
    show "length us = 6" using us' by simp
    show "\<forall>k < 6. 0 \<le> us ! k \<and> us ! k + col k (filter (\<lambda>r. revenue_key r = ?key) rows) \<le> MaxInt64"
      using us' tsum v by fastforce
    show "\<forall>key. \<forall>k < 6. col k (filter (\<lambda>r. revenue_key r = key) rows) \<le> MaxInt64"
    proof (intro allI impI)
      fix key k assume k: "k < (6 :: nat)"
      have "col k (filter (\<lambda>r. revenue_key r = key) rows) \<le> col k (filter (\<lambda>r. revenue_key r = key) (row # rows))" using v [OF k] by simp
      also have "\<dots> \<le> MaxInt64" using Cons.prems(4) k by blast
      finally show "col k (filter (\<lambda>r. revenue_key r = key) rows) \<le> MaxInt64" .
    qed
  qed simp
  moreover have "rc_FractionDigits (rq_currency row) = D ?key" "?key = cur \<Longrightarrow> digits = D ?key" using Cons.prems(1,5) by auto
  ultimately show ?case using us by (auto simp: Let_def)
qed simp

text \<open>Every stored row has the digits of its pinned currency.\<close>

definition pinned_digits :: "RevenueCurrency \<Rightarrow> bool" where
  "pinned_digits currency \<longleftrightarrow> ISO4217FractionDigits (rc_CurrencyCode currency) = Some (rc_FractionDigits currency) \<and>
     length (rc_CurrencyCode currency) = 3"

definition revenue_digits_ok :: "registry_db \<Rightarrow> bool" where
  "revenue_digits_ok db \<longleftrightarrow> list_all (\<lambda>row. pinned_digits (rq_currency row)) (revenue_query_rows db)"

lemma enumerate_mem: "p \<in> set (enumerate n xs) \<Longrightarrow> snd p \<in> set xs"
  by (metis imageI list.set_map map_snd_enumerate)

text \<open>A batch whose currencies have their pinned digits, as the service requires of every submission, keeps it so.\<close>

lemma AcceptRevenueBatch_digits_ok:
  assumes "revenue_digits_ok db" "list_all pinned_digits (rbi_Currencies input)"
    and "AcceptRevenueBatch H db input signReceipt = Inr (db', record, duplicate)"
  shows "revenue_digits_ok db'"
  using assms(3)
proof (cases rule: AcceptRevenueBatch_cases)
  case (fresh sig)
  obtain nodes where "db' = revenue_appended db input (revenueLedgerEntry H input (ledgerHeadTx db)) sig
      (db\<lparr>ledger_entries := ledger_entries db @ [revenueLedgerEntry H input (ledgerHeadTx db)], ledger_merkle_nodes := nodes\<rparr>)"
    by (rule appendRevenueTx_Inr [OF fresh(6)])
  then show ?thesis using assms(1,2)
    by (auto simp: revenue_digits_ok_def revenue_appended_def list_all_iff revenueQueryRow_def dest!: enumerate_mem)
qed (use assms(1) in \<open>auto simp: revenue_digits_ok_def\<close>)

lemma append_eq_same_length: "a @ x # b = c @ x # d \<Longrightarrow> length b = length d \<Longrightarrow> a = c \<and> b = d"
  by simp

lemma sum_list_sort_key: "sum_list (map g (sort_key f xs)) = sum_list (map g xs)" for g :: "'a \<Rightarrow> int"
  by (metis mset_map mset_sort sum_mset_sum_list)

lemma verifyRevenueAggregates_ok:
  assumes "revenue_ok db" "revenue_digits_ok db"
  shows "verifyRevenueAggregates db = Inr ()"
proof -
  let ?f = "\<lambda>row. (rq_period row, rc_CurrencyCode (rq_currency row), rq_deploymentID row)"
  let ?rows = "filter (revenue_active db) (revenue_query_rows db)"
  note ok = assms(1) [unfolded revenue_ok_def] and dig = assms(2) [unfolded revenue_digits_ok_def pinned_digits_def list_all_iff]
  have colb: "col k (filter (\<lambda>r. revenue_key r = key) (sort_key ?f ?rows)) \<le> MaxInt64" if k: "k < 6" for k key
  proof (cases "\<exists>row \<in> set ?rows. revenue_key row = key")
    case True
    then obtain row where row: "row \<in> set (revenue_query_rows db)" "revenue_key row = key" by auto
    have same: "revenue_key r = key \<longleftrightarrow> rq_period r = rq_period row \<and> rc_CurrencyCode (rq_currency r) = rc_CurrencyCode (rq_currency row)"
      if "r \<in> set (revenue_query_rows db)" for r
    proof -
      have "length (rc_CurrencyCode (rq_currency r)) = length (rc_CurrencyCode (rq_currency row))" using dig that row(1) by simp
      then show ?thesis unfolding row(2) [symmetric] revenue_key_def by (metis append_eq_same_length)
    qed
    have "filter (\<lambda>r. revenue_key r = key) ?rows = active_rows db (rq_period row) (rc_CurrencyCode (rq_currency row))"
      unfolding active_rows_def filter_filter by (rule filter_cong [OF refl]) (use same in blast)
    moreover have "col k (filter (\<lambda>r. revenue_key r = key) (sort_key ?f ?rows)) = col k (filter (\<lambda>r. revenue_key r = key) ?rows)"
      by (simp only: filter_sort sum_list_sort_key)
    ultimately show ?thesis using ok k by simp
  next
    case False
    then have "filter (\<lambda>r. revenue_key r = key) (sort_key ?f ?rows) = []" by (auto simp: filter_empty_conv)
    then show ?thesis by (simp add: MaxInt64_def)
  qed
  have zeros: "[0, 0, 0, 0, 0, 0 :: int] ! k = 0" if "k < 6" for k
    using that by (simp add: nth_Cons numeral_eq_Suc less_Suc_eq_le split: nat.split)
  let ?D = "\<lambda>key. the (ISO4217FractionDigits (drop (length key - 3) key))"
  have D: "rc_FractionDigits (rq_currency row) = ?D (revenue_key row)" if "row \<in> set (revenue_query_rows db)" for row
    using dig that by (simp add: revenue_key_def)
  have ne: "\<not> (\<exists>row \<in> set (sort_key ?f ?rows). revenue_key row = [])" by (simp add: revenue_key_def)
  show ?thesis unfolding verifyRevenueAggregates_def
  proof (rule verify_aggregates_loop_ok [where D = ?D])
    show "\<forall>row \<in> set (sort_key ?f ?rows). rc_FractionDigits (rq_currency row) = ?D (revenue_key row) \<and> list_all (\<lambda>v. v \<ge> 0) (revenue_values (rq_currency row))"
      using D ok by auto
    show "\<forall>k < 6. 0 \<le> [0, 0, 0, 0, 0, 0 :: int] ! k \<and> [0, 0, 0, 0, 0, 0] ! k + col k (filter (\<lambda>r. revenue_key r = []) (sort_key ?f ?rows)) \<le> MaxInt64"
      using zeros colb by simp
    show "\<forall>key. \<forall>k < 6. col k (filter (\<lambda>r. revenue_key r = key) (sort_key ?f ?rows)) \<le> MaxInt64" using colb by blast
  qed (use ne in auto)
qed

lemma sql_sum_from_nonneg:
  assumes "list_all (\<lambda>x. 0 \<le> x) xs" "0 \<le> acc" "acc + sum_list xs \<le> MaxInt64"
  shows "sql_sum_from acc xs = Some (acc + sum_list xs)"
  using assms
proof (induction xs arbitrary: acc)
  case (Cons x xs)
  have "0 \<le> sum_list xs" using Cons.prems(1) by (intro sum_list_nonneg) (simp add: list_all_iff)
  with Cons.prems have "acc + x \<le> MaxInt64" "0 \<le> acc + x" "acc + x + sum_list xs \<le> MaxInt64" by simp_all
  with Cons.IH [of "acc + x"] Cons.prems show ?case by (simp add: algebra_simps)
qed simp

abbreviation selected_rows :: "(string \<Rightarrow> bool) \<Rightarrow> registry_db \<Rightarrow> RevenueQuery \<Rightarrow> persistedRevenueQueryRow list" where
  "selected_rows S db query \<equiv> filter (\<lambda>row. S (rq_deploymentID row)) (active_rows db (rqy_Period query) (rqy_CurrencyCode query))"

lemma selected_sum_bounds:
  assumes "revenue_ok db" "k < 6"
  shows "0 \<le> col k (selected_rows S db query)" and "col k (selected_rows S db query) \<le> MaxInt64"
proof -
  note ok = assms(1) [unfolded revenue_ok_def]
  show "0 \<le> col k (selected_rows S db query)"
    using ok assms(2) by (intro sum_list_nonneg) (auto simp: active_rows_def intro!: revenue_values_nonneg)
  have "col k (selected_rows S db query) \<le> col k (active_rows db (rqy_Period query) (rqy_CurrencyCode query))"
    using ok col_mono [OF _ assms(2), of "revenue_query_rows db"] by (simp add: active_rows_def)
  also have "\<dots> \<le> MaxInt64" using ok assms(2) by blast
  finally show "col k (selected_rows S db query) \<le> MaxInt64" .
qed

lemma selected_sum:
  assumes "revenue_ok db" "k < 6"
  shows "sql_sum_from 0 (map (\<lambda>row. revenue_values (rq_currency row) ! k) (selected_rows S db query)) = Some (col k (selected_rows S db query))"
proof -
  have "list_all (\<lambda>x. 0 \<le> x) (map (\<lambda>row. revenue_values (rq_currency row) ! k) (selected_rows S db query))"
    using assms [unfolded revenue_ok_def] by (auto simp: list_all_iff active_rows_def intro!: revenue_values_nonneg)
  from sql_sum_from_nonneg [OF this, of 0] show ?thesis using selected_sum_bounds(2) [OF assms, of S query] by simp
qed

lemma revenue_column_sums_ok:
  assumes "revenue_ok db"
  shows "revenue_column_sums (selected_rows S db query) = Some (map (\<lambda>k. col k (selected_rows S db query)) [0..<6])"
proof -
  have "map (\<lambda>k. sql_sum_from 0 (map (\<lambda>row. revenue_values (rq_currency row) ! k) (selected_rows S db query))) [0..<6] =
      map Some (map (\<lambda>k. col k (selected_rows S db query)) [0..<6])"
    unfolding map_map by (rule map_cong [OF refl]) (simp add: selected_sum [OF assms])
  moreover have "those (map Some xs) = Some xs" for xs :: "int list" by (induction xs) simp_all
  ultimately show ?thesis by (simp only: revenue_column_sums_def)
qed

lemma RevenueSummary_query_ok:
  assumes "revenue_ok db" "revenue_digits_ok db"
  obtains summary where "RevenueSummary_query g db query = Inr summary"
    "[rsum_CapturedMinor summary, rsum_RefundedMinor summary, rsum_NetMinor summary, rsum_CommissionBasisMinor summary,
       rsum_ReportedEstimatedCommissionMinor summary, rsum_PaymentCount summary] =
       map (\<lambda>k. col k (selected_rows (revenue_selected g query) db query)) [0..<6]"
    "rsum_NetworkCommissionPoolMinor summary = col 3 (active_rows db (rqy_Period query) (rqy_CurrencyCode query)) * 5 div 100"
proof -
  let ?N = "active_rows db (rqy_Period query) (rqy_CurrencyCode query)"
  let ?rows = "selected_rows (revenue_selected g query) db query"
  let ?digits = "map (\<lambda>row. rc_FractionDigits (rq_currency row)) ?rows"
  have "d = the (ISO4217FractionDigits (rqy_CurrencyCode query))" if "d \<in> set ?digits" for d
    using that assms(2) by (auto simp: revenue_digits_ok_def pinned_digits_def list_all_iff active_rows_def)
  then have "?digits \<noteq> [] \<Longrightarrow> set ?digits = {the (ISO4217FractionDigits (rqy_CurrencyCode query))}"
    by (metis (no_types, lifting) empty_iff empty_set insertCI last_in_set subsetI subset_singleton_iff set_empty2 singletonI)
  then have mm: "(if ?digits = [] then 0 else Min (set ?digits)) = (if ?digits = [] then 0 else Max (set ?digits))" by auto
  have all: "selected_rows (\<lambda>_. True) db query = ?N" by simp
  have pool: "RevenueCommissionMinor (col 3 ?N) = col 3 ?N * 5 div 100"
    using selected_sum_bounds [OF assms(1), of 3 "\<lambda>_. True" query]
    by (intro RevenueCommissionMinor_floor) (simp_all add: all MaxInt64_def)
  have c3: "(rc_CommissionBasisMinor \<circ> rq_currency) = (\<lambda>row. revenue_values (rq_currency row) ! 3)"
    by (simp add: fun_eq_iff revenue_values_def eval_nat_numeral)
  have net: "sql_sum_from 0 (map (rc_CommissionBasisMinor \<circ> rq_currency) ?N) = Some (col 3 ?N)"
    using selected_sum [OF assms(1), of 3 "\<lambda>_. True" query] by (simp add: c3)
  have u: "[0..<6] = [0, 1, 2, 3, 4, 5 :: nat]" by (simp add: upt_rec)
  have N: "filter (\<lambda>row. rq_period row = rqy_Period query \<and> rc_CurrencyCode (rq_currency row) = rqy_CurrencyCode query \<and>
      revenue_active db row) (revenue_query_rows db) = ?N" by (simp add: active_rows_def)
  show thesis
  proof (cases "RevenueSummary_query g db query")
    case (Inl e)
    then show thesis
      by (simp only: RevenueSummary_query_def Let_def N revenue_column_sums_ok [OF assms(1)] option.case mm net) simp
  next
    case (Inr s)
    then have "[rsum_CapturedMinor s, rsum_RefundedMinor s, rsum_NetMinor s, rsum_CommissionBasisMinor s,
       rsum_ReportedEstimatedCommissionMinor s, rsum_PaymentCount s] = map (\<lambda>k. col k ?rows) [0..<6] \<and>
       rsum_NetworkCommissionPoolMinor s = RevenueCommissionMinor (col 3 ?N)"
      unfolding RevenueSummary_query_def Let_def N revenue_column_sums_ok [OF assms(1)] option.case mm net u by auto
    then show thesis using that [OF Inr] pool by simp
  qed
qed

lemma ledger_verified_nonces: "ledger_verified H (db\<lparr>used_nonces := ns\<rparr>) = ledger_verified H db"
  by (rule ledger_verified_cong) simp_all

subsection \<open>Properties\<close>

definition sample_currency :: RevenueCurrency where
  "sample_currency = \<lparr>rc_CurrencyCode = ''EUR'', rc_FractionDigits = 2, rc_CapturedMinor = 1000, rc_RefundedMinor = 100, rc_NetMinor = 900,
     rc_CommissionBasisMinor = 900, rc_EstimatedCommissionMinor = 45, rc_PaymentCount = 3\<rparr>"

definition sample_revenue :: RevenueBatchInput where
  "sample_revenue = \<lparr>rbi_RegistryScope = ''demo'', rbi_Signer = ''dep'', rbi_Nonce = ''n2'', rbi_IdempotencyKey = ''rk'', rbi_PayloadHash = ''rp'',
     rbi_RequestHash = ''rh'', rbi_DeploymentID = ''dep'', rbi_RequestTimestamp = ''2026-01-02T00:00:00Z'',
     rbi_DeploymentSignature = replicate 64 (CHR ''s''), rbi_CandidateBatchID = ''r1'', rbi_Kind = ''daily-revenue'', rbi_Period = ''2026-01-01'',
     rbi_Revision = 1, rbi_SupersedesBatchID = [], rbi_RulesetVersion = ''net-captured-revenue-v1'', rbi_CommissionRateBasisPoints = 500,
     rbi_Currencies = [sample_currency], rbi_AcceptedAt = ''2026-01-02T00:00:02Z'', rbi_CheckpointDate = ''2026-01-02''\<rparr>"

abbreviation sample_revenue_signer :: "LedgerEntry \<Rightarrow> RevenueBatchInput \<Rightarrow> int \<Rightarrow> string \<Rightarrow> bytes option" where
  "sample_revenue_signer \<equiv> \<lambda>_ _ _ _. Some (replicate 64 (CHR ''r''))"

definition sample_revenue_accepted :: "registry_db \<times> RevenueBatchRecord \<times> bool" where
  "sample_revenue_accepted = (case AcceptRevenueBatch pad_hash sample_db sample_revenue sample_revenue_signer of
     Inl _ \<Rightarrow> (sample_db, acceptedRevenueRecord sample_revenue (revenueLedgerEntry pad_hash sample_revenue (ledgerHeadTx sample_db)) [], True)
   | Inr x \<Rightarrow> x)"

lemma sample_revenue_accept_ok:
  "\<not> isl (AcceptRevenueBatch pad_hash sample_db sample_revenue sample_revenue_signer)" "\<not> snd (snd sample_revenue_accepted)"
  by code_simp+

lemma sample_revenue_accept: "AcceptRevenueBatch pad_hash sample_db sample_revenue sample_revenue_signer =
    Inr (fst sample_revenue_accepted, fst (snd sample_revenue_accepted), False)"
  using sample_revenue_accept_ok
  by (cases "AcceptRevenueBatch pad_hash sample_db sample_revenue sample_revenue_signer") (auto simp: sample_revenue_accepted_def)

lemma sample_db_revenue_ok: "revenue_ok sample_db"
  by (simp add: revenue_ok_def revenue_revisions_def active_rows_def sample_db_def empty_db_def MaxInt64_def)

lemma sample_revenue_for: "revenue_for sample_db sample_revenue"
  by (simp add: revenue_for_def sample_db_def sample_identity_def sample_revenue_def has_suffix_Z_def)

lemma AcceptRevenueBatch_verified:
  assumes "digest32 H" "ledger_verified H db" "length (ledger_entries db) < 2 ^ 62" "revenue_for db input"
    and "AcceptRevenueBatch H db input signReceipt = Inr (db', record, duplicate)"
  shows "ledger_verified H db' \<and> registry_identity db' = registry_identity db \<and>
    ledger_entries db' = ledger_entries db @ (if duplicate then [] else [rbrec_LedgerEntry record])"
  using assms(5)
proof (cases rule: AcceptRevenueBatch_cases)
  case known
  with assms(2) show ?thesis by simp
next
  case retry
  then obtain n where "db' = db\<lparr>used_nonces := used_nonces db @ [n]\<rparr>" by blast
  then have "ledger_verified H db' = ledger_verified H db" "ledger_entries db' = ledger_entries db" "registry_identity db' = registry_identity db"
    by (simp_all add: ledger_verified_nonces)
  with retry assms(2) show ?thesis by simp
next
  case (fresh sig)
  obtain nodes where "db' = revenue_appended db input (revenueLedgerEntry H input (ledgerHeadTx db)) sig
      (db\<lparr>ledger_entries := ledger_entries db @ [revenueLedgerEntry H input (ledgerHeadTx db)], ledger_merkle_nodes := nodes\<rparr>)"
    by (rule appendRevenueTx_Inr [OF fresh(6)])
  then have "registry_identity db' = registry_identity db" by (simp add: revenue_appended_def)
  with fresh appendRevenueTx_verified [OF assms(1-4) fresh(2,3,6)] show ?thesis by (simp add: acceptedRevenueRecord_def)
qed

text \<open>C11. Accepting a revenue batch keeps the ledger verifiable and only appends: when the checks of the ledger, the Merkle
  index and the weight rows pass before \<open>AcceptRevenueBatch\<close> and the call succeeds, they pass afterwards, and a new batch
  adds exactly the entry that is returned.\<close>

theorem AcceptRevenueBatch_keeps_ledger:
  assumes "digest32 H" "ledger_verified H db" "length (ledger_entries db) < 2 ^ 62" "revenue_for db input"
    and "AcceptRevenueBatch H db input signReceipt = Inr (db', record, duplicate)"
  shows "ledger_verified H db' \<and> ledger_entries db' = ledger_entries db @ (if duplicate then [] else [rbrec_LedgerEntry record])"
  using AcceptRevenueBatch_verified [OF assms] by blast

theorem AcceptRevenueBatch_keeps_ledger_witness:
  "ledger_verified pad_hash (fst sample_revenue_accepted) \<and> ledger_entries (fst sample_revenue_accepted) = [rbrec_LedgerEntry (fst (snd sample_revenue_accepted))]"
  using AcceptRevenueBatch_keeps_ledger [OF digest32_pad_hash sample_db_verified _ sample_revenue_for sample_revenue_accept]
  by (simp add: sample_db_def empty_db_def)

lemma AcceptRevenueBatch_revenue_ok:
  assumes "revenue_ok db" "length (revenue_batches db) < 2 ^ 62"
    and "AcceptRevenueBatch H db input signReceipt = Inr (db', record, duplicate)"
  shows "revenue_ok db'"
  using assms(3)
proof (cases rule: AcceptRevenueBatch_cases)
  case known
  with assms(1) show ?thesis by simp
next
  case retry
  then obtain n where "db' = db\<lparr>used_nonces := used_nonces db @ [n]\<rparr>" by blast
  with assms(1) show ?thesis by (simp add: revenue_ok_def revenue_revisions_def active_rows_def revenue_active_def)
next
  case (fresh sig)
  show ?thesis
    by (rule appendRevenueTx_Inr [OF fresh(6)])
      (rule revenue_ok_appended [OF assms(1,2) fresh(4,5), where e = "revenueLedgerEntry H input (ledgerHeadTx db)" and sig = sig]; simp)
qed

text \<open>C12. Revenue totals never overflow: for every day and currency, each of the six sums over the active rows (the rows of the latest
  revision of each deployment) stays within a signed 64-bit integer, revisions form a chain without gaps, and
  \<open>AcceptRevenueBatch\<close> keeps this. So the sums that summaries and settlements take are exact.\<close>

theorem AcceptRevenueBatch_keeps_totals:
  assumes "revenue_ok db" "length (revenue_batches db) < 2 ^ 62"
    and "AcceptRevenueBatch H db input signReceipt = Inr (db', record, duplicate)"
  shows "revenue_ok db' \<and> (\<forall>k < 6. col k (active_rows db' period code) \<le> MaxInt64)"
  using AcceptRevenueBatch_revenue_ok [OF assms] by (simp add: revenue_ok_def)

theorem AcceptRevenueBatch_keeps_totals_witness:
  "revenue_ok (fst sample_revenue_accepted) \<and> col 3 (active_rows (fst sample_revenue_accepted) ''2026-01-01'' ''EUR'') \<le> MaxInt64"
  using AcceptRevenueBatch_keeps_totals [OF sample_db_revenue_ok _ sample_revenue_accept, of "''2026-01-01''" "''EUR''"]
  by (simp add: sample_db_def empty_db_def)


text \<open>C13. Summaries are exact: when the invariant holds and every row has the digits of its currency, \<open>verifyRevenueAggregates\<close> passes
  and \<open>RevenueSummary\<close> answers every query without an overflow of a column sum; its six amounts are the sums over the active rows of
  the selected deployments, and its commission pool is five percent of the network's commission basis, rounded down.\<close>

theorem RevenueSummary_exact:
  assumes "revenue_ok db" "revenue_digits_ok db"
  shows "verifyRevenueAggregates db = Inr () \<and> (\<exists>summary. RevenueSummary_query g db query = Inr summary \<and>
    [rsum_CapturedMinor summary, rsum_RefundedMinor summary, rsum_NetMinor summary, rsum_CommissionBasisMinor summary,
     rsum_ReportedEstimatedCommissionMinor summary, rsum_PaymentCount summary] =
       map (\<lambda>k. col k (filter (\<lambda>row. revenue_selected g query (rq_deploymentID row))
         (active_rows db (rqy_Period query) (rqy_CurrencyCode query)))) [0..<6] \<and>
    rsum_NetworkCommissionPoolMinor summary = col 3 (active_rows db (rqy_Period query) (rqy_CurrencyCode query)) * 5 div 100)"
proof (rule conjI [OF verifyRevenueAggregates_ok [OF assms]], rule RevenueSummary_query_ok [OF assms, of g query], goal_cases)
  case (1 summary)
  then show ?case by (intro exI [of _ summary] conjI)
qed

theorem RevenueSummary_exact_witness: "verifyRevenueAggregates (fst sample_revenue_accepted) = Inr ()"
proof -
  have "ISO4217FractionDigits ''EUR'' = Some 2" by code_simp
  then have "revenue_digits_ok (fst sample_revenue_accepted)"
    by (intro AcceptRevenueBatch_digits_ok [OF _ _ sample_revenue_accept])
      (simp_all add: revenue_digits_ok_def pinned_digits_def sample_revenue_def sample_currency_def sample_db_def empty_db_def)
  moreover have "revenue_ok (fst sample_revenue_accepted)"
    by (rule AcceptRevenueBatch_revenue_ok [OF sample_db_revenue_ok _ sample_revenue_accept]) (simp add: sample_db_def empty_db_def)
  ultimately show ?thesis using RevenueSummary_exact by blast
qed

end
