(* ===== verification/Go_Sort.thy ===== *)
theory Go_Sort
  imports Registry_Prelude "HOL-Library.Multiset"
begin

text \<open>
  \<open>sort.Slice\<close>.  The routine sorts in place by a strict comparator; up to twelve elements it is the insertion sort written here,
  which moves an element to the left past every element it is less than.  It does not promise an order between elements the
  comparator does not separate, so what a client may use is stated by the locale \<open>slice_order\<close>: the result is a permutation
  without inversions, and it is the only one when the comparator separates the elements (\<open>sort_Slice_unique\<close>), whatever the
  algorithm.
\<close>

fun insert_left :: "('a \<Rightarrow> 'a \<Rightarrow> bool) \<Rightarrow> 'a \<Rightarrow> 'a list \<Rightarrow> 'a list" where
  "insert_left lt x [] = [x]"
| "insert_left lt x (y # ys) = (if lt x y then y # insert_left lt x ys else x # y # ys)"

text \<open>The sorted prefix is kept reversed, so that its last element comes first.\<close>

definition sort_Slice :: "('a \<Rightarrow> 'a \<Rightarrow> bool) \<Rightarrow> 'a list \<Rightarrow> 'a list" where
  "sort_Slice lt xs = rev (foldl (\<lambda>prefix x. insert_left lt x prefix) [] xs)"

lemma mset_insert_left [simp]: "mset (insert_left lt x ys) = add_mset x (mset ys)"
  by (induction ys) auto

lemma mset_sort_Slice [simp]: "mset (sort_Slice lt xs) = mset xs"
proof -
  have "mset (foldl (\<lambda>prefix x. insert_left lt x prefix) acc xs) = mset acc + mset xs" for acc
    by (induction xs arbitrary: acc) auto
  then show ?thesis by (simp add: sort_Slice_def)
qed

lemma set_sort_Slice [simp]: "set (sort_Slice lt xs) = set xs"
  by (metis mset_sort_Slice set_mset_mset)

lemma length_sort_Slice [simp]: "length (sort_Slice lt xs) = length xs"
  by (metis mset_sort_Slice size_mset)

lemma distinct_sort_Slice [simp]: "distinct (sort_Slice lt xs) = distinct xs"
  by (metis mset_sort_Slice mset_eq_imp_distinct_iff)

text \<open>An element that nothing is less than stays in front.\<close>

lemma sort_Slice_head:
  assumes "\<And>x. x \<in> set xs \<Longrightarrow> \<not> lt x h"
  shows "sort_Slice lt (h # xs) = h # sort_Slice lt xs"
proof -
  have "insert_left lt x (acc @ [h]) = insert_left lt x acc @ [h]" if "\<not> lt x h" for x acc
    using that by (induction acc) auto
  then have "foldl (\<lambda>prefix x. insert_left lt x prefix) (acc @ [h]) xs = foldl (\<lambda>prefix x. insert_left lt x prefix) acc xs @ [h]" for acc
    using assms by (induction xs arbitrary: acc) auto
  from this [of "[]"] show ?thesis by (simp add: sort_Slice_def)
qed

subsection \<open>Strict weak orders\<close>

locale slice_order =
  fixes lt :: "'a \<Rightarrow> 'a \<Rightarrow> bool" and S :: "'a set"
  assumes lt_asym: "x \<in> S \<Longrightarrow> y \<in> S \<Longrightarrow> lt x y \<Longrightarrow> \<not> lt y x"
    and lt_negtrans: "x \<in> S \<Longrightarrow> y \<in> S \<Longrightarrow> z \<in> S \<Longrightarrow> \<not> lt x y \<Longrightarrow> \<not> lt y z \<Longrightarrow> \<not> lt x z"
begin

lemma insert_left_sorted:
  assumes "sorted_wrt (\<lambda>y x. \<not> lt y x) ys" "x \<in> S" "set ys \<subseteq> S"
  shows "sorted_wrt (\<lambda>y x. \<not> lt y x) (insert_left lt x ys)"
  using assms
proof (induction ys)
  case (Cons y ys)
  show ?case
  proof (cases "lt x y")
    case True
    with Cons have "\<forall>z \<in> set (insert_left lt x ys). \<not> lt y z"
      using lt_asym [of x y] by (metis insert_iff list.simps(15) mset_insert_left set_mset_add_mset_insert set_mset_mset sorted_wrt.simps(2) subset_iff)
    with Cons True show ?thesis by simp
  next
    case False
    with Cons.prems lt_negtrans show ?thesis by (simp) (meson subsetD)
  qed
qed simp

theorem sort_Slice_sorted:
  assumes "set xs \<subseteq> S"
  shows "sorted_wrt (\<lambda>x y. \<not> lt y x) (sort_Slice lt xs)"
proof -
  have set_ins: "set (insert_left lt x ys) = insert x (set ys)" for x ys by (induction ys) auto
  have "sorted_wrt (\<lambda>y x. \<not> lt y x) (foldl (\<lambda>prefix x. insert_left lt x prefix) acc xs)"
    if "sorted_wrt (\<lambda>y x. \<not> lt y x) acc" "set acc \<subseteq> S" for acc
    using that assms by (induction xs arbitrary: acc) (simp_all add: insert_left_sorted set_ins)
  from this [of "[]"] show ?thesis by (simp add: sort_Slice_def sorted_wrt_rev)
qed

theorem sort_Slice_unique:
  assumes "set xs \<subseteq> S" "mset ys = mset xs" "sorted_wrt (\<lambda>x y. \<not> lt y x) ys"
    and "\<And>x y. x \<in> set xs \<Longrightarrow> y \<in> set xs \<Longrightarrow> x \<noteq> y \<Longrightarrow> lt x y \<or> lt y x"
  shows "ys = sort_Slice lt xs"
proof -
  have "set ys = set xs" using assms(2) by (metis set_mset_mset)
  have "us = vs" if "mset us = mset vs" "set us \<subseteq> set xs" "sorted_wrt (\<lambda>x y. \<not> lt y x) us" "sorted_wrt (\<lambda>x y. \<not> lt y x) vs" for us vs
    using that
  proof (induction us arbitrary: vs)
    case (Cons u us)
    then obtain v vs' where vs: "vs = v # vs'" by (cases vs) auto
    have in_sets: "u \<in> set vs" "v \<in> set (u # us)" using Cons.prems(1) vs by (metis list.set_intros(1) set_mset_mset)+
    have "u = v"
    proof (rule ccontr)
      assume "u \<noteq> v"
      then have "\<not> lt v u" "\<not> lt u v" using in_sets Cons.prems(3,4) vs by auto
      then show False using assms(4) [of u v] in_sets Cons.prems(2) \<open>u \<noteq> v\<close> by auto
    qed
    with Cons vs show ?case by auto
  qed simp
  from this [of ys "sort_Slice lt xs"] show ?thesis using assms \<open>set ys = set xs\<close> sort_Slice_sorted [OF assms(1)] by simp
qed

end

end
