(* ===== verification/Settlement_Math.thy ===== *)
theory Settlement_Math
  imports Revenue_Store Go_Sort
begin

text \<open>
  The arithmetic of a settlement (\<open>store/sqlite/settlement.go\<close>): the exact shares of the founder, the operator groups and the
  reserve (\<open>math/big\<close> rationals are \<open>rat\<close>, whose \<open>quotient_of\<close> is the reduced fraction \<open>Num/Denom\<close>), the largest-remainder
  division of an amount in minor units, and the growth figures of the valuation.  The lemmas show that the shares sum to one, that
  every amount is divided without losing or inventing a unit and within one unit of the exact share, and the bounds of the rates.
\<close>

subsection \<open>Shares\<close>

definition FounderContributionUnits :: int where
  "FounderContributionUnits = 100000"

definition settlementWeightMonths :: int where
  "settlementWeightMonths = 6"

record settlementRatio =
  srt_beneficiaryType :: string
  srt_beneficiaryID :: string
  srt_label :: string
  srt_ratio :: rat

record settlementRemainder =
  srm_index :: nat
  srm_numerator :: int
  srm_denominator :: int
  srm_id :: string

definition ratio_before :: "settlementRatio \<Rightarrow> settlementRatio \<Rightarrow> bool" where
  "ratio_before left right \<longleftrightarrow>
     (if srt_beneficiaryType left = SettlementBeneficiaryFounder then True
      else if srt_beneficiaryType right = SettlementBeneficiaryFounder then False
      else srt_beneficiaryID left < srt_beneficiaryID right)"

fun eligible_weight :: "int \<Rightarrow> SettlementWeightSource list \<Rightarrow> store_error + int" where
  "eligible_weight eligibleWeight [] = Inr eligibleWeight"
| "eligible_weight eligibleWeight (weight # weights) =
     bindR (from_option ErrRevenueAggregateOverflow (checkedRevenueAdd eligibleWeight (sws_Weight weight)))
       (\<lambda>sum. eligible_weight sum weights)"

definition founder_ratio :: "int \<Rightarrow> rat" where
  "founder_ratio measuredWeight =
     (let founderScaled = i64 (FounderContributionUnits * settlementWeightMonths);
          founder = Fract founderScaled (i64 (founderScaled + measuredWeight));
          minimum = Fract 1 10
      in if founder < minimum then minimum else founder)"

definition settlementRatios :: "SettlementWeightSource list \<Rightarrow> int \<Rightarrow> store_error + settlementRatio list" where
  "settlementRatios weights measuredWeight =
     (let founderScaled = i64 (FounderContributionUnits * settlementWeightMonths) in
      if measuredWeight < 0 \<or> measuredWeight > MaxInt64 - founderScaled then Inl ErrRevenueAggregateOverflow
      else
        let founder = founder_ratio measuredWeight;
            ratios = [\<lparr>srt_beneficiaryType = SettlementBeneficiaryFounder, srt_beneficiaryID = SettlementFounderBeneficiaryID,
              srt_label = ''Founder'', srt_ratio = founder\<rparr>]
        in bindR (eligible_weight 0 weights) (\<lambda>eligibleWeight.
          let operatorPool = 1 - founder;
              ratios = (if eligibleWeight > 0
                then ratios @ map (\<lambda>weight. \<lparr>srt_beneficiaryType = SettlementBeneficiaryOperator,
                  srt_beneficiaryID = sws_BeneficiaryID weight, srt_label = sws_Label weight,
                  srt_ratio = operatorPool * Fract (sws_Weight weight) eligibleWeight\<rparr>) weights
                else ratios @ [\<lparr>srt_beneficiaryType = SettlementBeneficiaryReserve,
                  srt_beneficiaryID = SettlementReserveBeneficiaryID, srt_label = ''Unallocated reserve'', srt_ratio = operatorPool\<rparr>])
          in Inr (sort_Slice ratio_before ratios)))"

subsection \<open>Dividing an amount\<close>

definition remainder_before :: "settlementRemainder \<Rightarrow> settlementRemainder \<Rightarrow> bool" where
  "remainder_before left right \<longleftrightarrow>
     (let crossLeft = srm_numerator left * srm_denominator right;
          crossRight = srm_numerator right * srm_denominator left
      in if crossLeft \<noteq> crossRight then crossLeft > crossRight else srm_id left < srm_id right)"

fun remainder_loop :: "int \<Rightarrow> nat \<Rightarrow> settlementRatio list \<Rightarrow> store_error + (int \<times> settlementRemainder) list" where
  "remainder_loop amount index [] = Inr []"
| "remainder_loop amount index (item # items) =
     (let (num, denom) = quotient_of (srt_ratio item);
          numerator = amount * num;
          quotient = numerator sdiv denom;
          remainder = numerator smod denom
      in if \<not> is_i64 quotient then Inl ErrRevenueAggregateOverflow
         else bindR (remainder_loop amount (index + 1) items) (\<lambda>rest.
           Inr ((quotient, \<lparr>srm_index = index, srm_numerator = remainder, srm_denominator = denom,
             srm_id = srt_beneficiaryID item\<rparr>) # rest)))"

definition add_one :: "int list \<Rightarrow> settlementRemainder \<Rightarrow> int list" where
  "add_one values r = values[srm_index r := i64 (values ! srm_index r + 1)]"

definition largestRemainder :: "settlementRatio list \<Rightarrow> int \<Rightarrow> store_error + int list" where
  "largestRemainder ratios amount =
     (if amount < 0 then Inl ErrInconsistentState
      else bindR (remainder_loop amount 0 ratios) (\<lambda>parts.
        let values = map fst parts;
            remainders = map snd parts;
            allocated = foldl (\<lambda>allocated v. i64 (allocated + v)) 0 values;
            left = i64 (amount - allocated)
        in if left < 0 \<or> left > int (length ratios) then Inl ErrInconsistentState
           else Inr (foldl add_one values (take (nat left) (sort_Slice remainder_before remainders)))))"

definition allocateSettlementAmounts ::
  "settlementRatio list \<Rightarrow> int \<Rightarrow> int \<Rightarrow> store_error + SettlementAllocation list" where
  "allocateSettlementAmounts ratios pool indicativeValue =
     bindR (largestRemainder ratios pool) (\<lambda>poolValues.
     bindR (largestRemainder ratios indicativeValue) (\<lambda>valueValues.
       Inr (map (\<lambda>index. let ratio = ratios ! index in
         \<lparr>sa_BeneficiaryType = srt_beneficiaryType ratio, sa_BeneficiaryID = srt_beneficiaryID ratio, sa_Label = srt_label ratio,
          sa_ShareNumerator = FormatInt (fst (quotient_of (srt_ratio ratio))),
          sa_ShareDenominator = FormatInt (snd (quotient_of (srt_ratio ratio))),
          sa_NetworkPoolAllocationMinor = poolValues ! index,
          sa_IndicativeValueAllocationMinor = valueValues ! index\<rparr>) [0..<length ratios])))"

subsection \<open>Growth and valuation\<close>

definition settlementThreeMonthAverages :: "SettlementTTMMonth list \<Rightarrow> int \<times> int \<times> int" where
  "settlementThreeMonthAverages months =
     (if length months \<noteq> 12 then (0, 0, 0)
      else
        let average = (\<lambda>from. i64 (i64 (stm_CommissionBasisMinor (months ! from) + stm_CommissionBasisMinor (months ! (from + 1))) +
          stm_CommissionBasisMinor (months ! (from + 2))) sdiv 3)
        in (average 3, average 6, average 9))"

definition clampInt64 :: "int \<Rightarrow> int \<Rightarrow> int \<Rightarrow> int" where
  "clampInt64 value minimum maximum =
     (if value < minimum then minimum else if value > maximum then maximum else value)"

definition settlementGrowthBasisPoints :: "int \<Rightarrow> int \<Rightarrow> int" where
  "settlementGrowthBasisPoints previous current =
     (if previous = 0 \<and> current = 0 then 0
      else if previous = 0 then SettlementMaximumGrowthBasisPoints
      else
        let difference = i64 (current - previous);
            scaled = difference * 10000;
            result = scaled sdiv previous
        in if \<not> is_i64 result then
             if result < 0 then SettlementMinimumGrowthBasisPoints else SettlementMaximumGrowthBasisPoints
           else clampInt64 result SettlementMinimumGrowthBasisPoints SettlementMaximumGrowthBasisPoints)"

definition multiplyBasisPoints :: "int \<Rightarrow> int \<Rightarrow> int \<times> bool" where
  "multiplyBasisPoints value basisPoints =
     (if value < 0 \<or> basisPoints < 0 then (0, False)
      else let result = (value * basisPoints) sdiv 10000 in (i64 result, is_i64 result))"

subsection \<open>The comparators\<close>

definition fraction :: "settlementRemainder \<Rightarrow> rat" where
  "fraction r = of_int (srm_numerator r) / of_int (srm_denominator r)"

lemma remainder_before_iff:
  assumes "0 < srm_denominator l" "0 < srm_denominator r"
  shows "remainder_before l r \<longleftrightarrow> fraction r < fraction l \<or> fraction l = fraction r \<and> srm_id l < srm_id r"
proof -
  have "srm_numerator l * srm_denominator r < srm_numerator r * srm_denominator l \<longleftrightarrow> fraction l < fraction r"
    if "0 < srm_denominator l" "0 < srm_denominator r" for l r
  proof -
    have "fraction l < fraction r \<longleftrightarrow>
        (of_int (srm_numerator l * srm_denominator r) :: rat) < of_int (srm_numerator r * srm_denominator l)"
      using that by (simp add: fraction_def divide_less_eq pos_less_divide_eq field_simps)
    then show ?thesis by (simp only: of_int_less_iff)
  qed
  from this [OF assms] this [OF assms(2,1)] show ?thesis by (auto simp: remainder_before_def Let_def)
qed

interpretation remainder_order: slice_order remainder_before "{r. 0 < srm_denominator r}"
  by unfold_locales (auto simp: remainder_before_iff)

interpretation ratio_order: slice_order ratio_before "{r. srt_beneficiaryType r \<noteq> SettlementBeneficiaryFounder}"
  by unfold_locales (auto simp: ratio_before_def)

subsection \<open>The largest-remainder division\<close>

definition part :: "int \<Rightarrow> nat \<Rightarrow> settlementRatio \<Rightarrow> int \<times> settlementRemainder" where
  "part amount index item =
     (let (num, denom) = quotient_of (srt_ratio item) in
      (amount * num div denom, \<lparr>srm_index = index, srm_numerator = amount * num mod denom, srm_denominator = denom,
        srm_id = srt_beneficiaryID item\<rparr>))"

lemma quotient_of_ratio:
  assumes "quotient_of r = (n, d)"
  shows "r = of_int n / of_int d" "0 < d" "0 \<le> r \<Longrightarrow> 0 \<le> n"
proof -
  show "r = of_int n / of_int d" "0 < d" using assms quotient_of_div quotient_of_denom_pos by blast+
  then show "0 \<le> n" if "0 \<le> r" using that by (simp add: zero_le_divide_iff)
qed

lemma part_facts:
  "fst (part amount index item) = \<lfloor>of_int amount * srt_ratio item\<rfloor>"
  "fraction (snd (part amount index item)) = frac (of_int amount * srt_ratio item)"
  "0 < srm_denominator (snd (part amount index item))"
  "srm_index (snd (part amount index item)) = index"
proof -
  obtain n d where q: "quotient_of (srt_ratio item) = (n, d)" by fastforce
  note r = quotient_of_ratio(1,2) [OF q]
  have x: "of_int amount * srt_ratio item = (of_int (amount * n) / of_int d :: rat)" using r by simp
  show "fst (part amount index item) = \<lfloor>of_int amount * srt_ratio item\<rfloor>"
    unfolding x floor_divide_of_int_eq by (simp add: part_def q)
  have "(of_int (amount * n mod d) :: rat) = of_int (amount * n) - of_int d * of_int (amount * n div d)"
    by (metis minus_mult_div_eq_mod of_int_diff of_int_mult)
  then show "fraction (snd (part amount index item)) = frac (of_int amount * srt_ratio item)"
    unfolding x frac_def floor_divide_of_int_eq using r(2) by (simp add: part_def q fraction_def diff_divide_distrib)
  show "0 < srm_denominator (snd (part amount index item))" "srm_index (snd (part amount index item)) = index"
    using r(2) by (simp_all add: part_def q)
qed

lemma remainder_loop_ok:
  assumes "0 \<le> amount" "amount \<le> MaxInt64" "list_all (\<lambda>item. 0 \<le> srt_ratio item \<and> srt_ratio item \<le> 1) items"
  shows "remainder_loop amount k items = Inr (map (\<lambda>i. part amount (k + i) (items ! i)) [0..<length items])"
  using assms(3)
proof (induction items arbitrary: k)
  case (Cons item items)
  obtain n d where q: "quotient_of (srt_ratio item) = (n, d)" by fastforce
  note r = quotient_of_ratio [OF q]
  from Cons.prems have b: "0 \<le> srt_ratio item" "srt_ratio item \<le> 1" by simp_all
  have n: "0 \<le> amount * n" using r(3) b(1) assms(1) by simp
  have "amount * n div d \<le> amount"
  proof -
    have "n \<le> d" using b(2) r(1,2) by (simp add: divide_le_eq_1)
    then have "amount * n \<le> amount * d" using assms(1) by (rule mult_left_mono)
    then have "amount * n div d \<le> amount * d div d" using r(2) by (intro zdiv_mono1)
    then show ?thesis using r(2) by simp
  qed
  moreover have "0 \<le> amount * n div d" using n r(2) by (simp add: pos_imp_zdiv_nonneg_iff)
  ultimately have "is_i64 (amount * n div d)" using assms(2) by (simp add: is_i64_def MaxInt64_def)
  moreover have "map (\<lambda>i. part amount (k + i) ((item # items) ! i)) [0..<length (item # items)] =
      part amount k item # map (\<lambda>i. part amount (k + 1 + i) (items ! i)) [0..<length items]"
    by (simp only: list.size add_Suc_right add_0_right upt_conv_Cons zero_less_Suc map_Suc_upt [symmetric] list.map map_map o_def) simp
  moreover have "part amount k item = (amount * n div d, \<lparr>srm_index = k, srm_numerator = amount * n mod d, srm_denominator = d,
        srm_id = srt_beneficiaryID item\<rparr>)" by (simp add: part_def q)
  ultimately show ?case using Cons.IH [of "k + 1"] Cons.prems sdiv_smod_nonneg [OF n r(2)]
    by (simp only: remainder_loop.simps q Let_def prod.case) simp
qed simp

lemma foldl_i64_sum:
  assumes "list_all (\<lambda>v. 0 \<le> v) vs" "0 \<le> acc" "acc + sum_list vs \<le> MaxInt64"
  shows "foldl (\<lambda>a v. i64 (a + v)) acc vs = acc + sum_list vs"
  using assms
proof (induction vs arbitrary: acc)
  case (Cons v vs)
  have "0 \<le> sum_list vs" using Cons.prems(1) by (intro sum_list_nonneg) (simp add: list_all_iff)
  then have "i64 (acc + v) = acc + v" using Cons.prems by (intro i64_nonneg_id) (simp_all add: MaxInt64_def)
  then show ?case using Cons.IH [of "acc + v"] Cons.prems by (simp add: algebra_simps)
qed simp

lemma sum_list_update_int: "i < length vs \<Longrightarrow> sum_list (vs[i := v]) = sum_list vs + v - vs ! i" for v :: int
  by (induction vs arbitrary: i) (auto split: nat.split)

lemma foldl_add_one:
  assumes "distinct (map srm_index rs)" "\<forall>r \<in> set rs. srm_index r < length vs \<and> - 1 \<le> vs ! srm_index r \<and> vs ! srm_index r < MaxInt64"
  shows "length (foldl add_one vs rs) = length vs \<and> sum_list (foldl add_one vs rs) = sum_list vs + int (length rs) \<and>
    (\<forall>i < length vs. foldl add_one vs rs ! i = vs ! i + (if i \<in> srm_index ` set rs then 1 else 0))"
  using assms
proof (induction rs arbitrary: vs)
  case (Cons r rs)
  have idx: "srm_index r < length vs" and "i64 (vs ! srm_index r + 1) = vs ! srm_index r + 1"
    using Cons.prems(2) by (auto simp: MaxInt64_def intro!: i64_nonneg_id)
  then have step: "add_one vs r = vs[srm_index r := vs ! srm_index r + 1]" by (simp add: add_one_def)
  have "\<forall>q \<in> set rs. srm_index q < length (add_one vs r) \<and> - 1 \<le> add_one vs r ! srm_index q \<and> add_one vs r ! srm_index q < MaxInt64"
    using Cons.prems by (auto simp: step nth_list_update)
  from Cons.IH [OF _ this] Cons.prems(1) show ?case
    using idx by (auto simp: step sum_list_update_int nth_list_update)
qed simp

text \<open>The parts of a division: the quotas, their fractional parts, and the leading units of the sorted remainders.\<close>

definition exact_share :: "int \<Rightarrow> settlementRatio \<Rightarrow> rat" where
  "exact_share amount item = of_int amount * srt_ratio item"

lemma ratio_le_1:
  assumes "list_all (\<lambda>item. 0 \<le> srt_ratio item) ratios" "sum_list (map srt_ratio ratios) = 1" "item \<in> set ratios"
  shows "srt_ratio item \<le> 1"
  using member_le_sum_list [of "srt_ratio item" "map srt_ratio ratios"] assms by (auto simp: list_all_iff)

lemma sum_list_floor_frac:
  "of_int (sum_list (map (\<lambda>x. \<lfloor>f x\<rfloor>) xs)) + sum_list (map (\<lambda>x. frac (f x)) xs) = (sum_list (map f xs) :: rat)"
  by (induction xs) (simp_all add: frac_def)

lemma leading_fractions_positive:
  assumes "sorted_wrt (\<lambda>x y. f y \<le> f x) ts" "\<forall>t \<in> set ts. 0 \<le> f t \<and> f t < (1 :: rat)" "k < nat left" "k < length ts"
    and "sum_list (map f ts) = of_int left"
  shows "0 < f (ts ! k)"
proof (rule ccontr)
  assume "\<not> 0 < f (ts ! k)"
  then have "f (ts ! k) \<le> 0" by simp
  moreover have "f (ts ! (k + i)) \<le> f (ts ! k)" if "k + i < length ts" for i
    using sorted_wrt_nth_less [OF assms(1), of k "k + i"] that by (cases "i = 0") simp_all
  ultimately have "\<forall>t \<in> set (drop k ts). f t \<le> 0"
    by (auto simp: in_set_conv_nth) (metis add.commute less_diff_conv order_trans)
  then have "sum_list (map f (drop k ts)) \<le> 0" by (intro sum_list_nonpos) auto
  moreover have "sum_list (map f (take k ts)) \<le> of_nat k"
  proof -
    have "sum_list (map f us) \<le> of_nat (length us)" if "\<forall>u \<in> set us. f u < 1" for us
      using that by (induction us) auto
    from this [of "take k ts"] show ?thesis using assms(2,4) by (metis in_set_takeD length_take min.absorb4)
  qed
  moreover have "sum_list (map f ts) = sum_list (map f (take k ts)) + sum_list (map f (drop k ts))"
    by (metis append_take_drop_id map_append sum_list_append)
  ultimately have "(of_int left :: rat) \<le> of_int (int k)" using assms(5) by simp
  then show False using assms(3) by simp
qed

definition division :: "int \<Rightarrow> settlementRatio list \<Rightarrow> (int \<times> settlementRemainder) list" where
  "division amount ratios = map (\<lambda>i. part amount i (ratios ! i)) [0..<length ratios]"

abbreviation quotas :: "int \<Rightarrow> settlementRatio list \<Rightarrow> int list" where
  "quotas amount ratios \<equiv> map fst (division amount ratios)"

abbreviation remainders :: "int \<Rightarrow> settlementRatio list \<Rightarrow> settlementRemainder list" where
  "remainders amount ratios \<equiv> map snd (division amount ratios)"

lemma division_facts:
  "quotas amount ratios = map (\<lambda>i. \<lfloor>exact_share amount (ratios ! i)\<rfloor>) [0..<length ratios]"
  "map srm_index (remainders amount ratios) = [0..<length ratios]"
  "map fraction (remainders amount ratios) = map (\<lambda>i. frac (exact_share amount (ratios ! i))) [0..<length ratios]"
  "set (remainders amount ratios) \<subseteq> {r. 0 < srm_denominator r}"
  "r \<in> set (remainders amount ratios) \<Longrightarrow> fraction r = frac (exact_share amount (ratios ! srm_index r)) \<and> srm_index r < length ratios"
  by (auto simp: division_def part_facts exact_share_def o_def)

lemma remainder_sum:
  assumes "sum_list (map srt_ratio ratios) = 1"
  shows "sum_list (map fraction (remainders amount ratios)) = of_int (amount - sum_list (quotas amount ratios))"
proof -
  have "map (\<lambda>i. exact_share amount (ratios ! i)) [0..<length ratios] = map (\<lambda>r. of_int amount * srt_ratio r) ratios"
    by (rule nth_equalityI) (simp_all add: exact_share_def)
  then have "sum_list (map (\<lambda>i. exact_share amount (ratios ! i)) [0..<length ratios]) = of_int amount"
    by (simp only: sum_list_const_mult assms mult_1_right)
  then show ?thesis
    using sum_list_floor_frac [of "\<lambda>i. exact_share amount (ratios ! i)" "[0..<length ratios]"]
    unfolding division_facts(1,3) by simp
qed

lemma left_bounds:
  assumes "sum_list (map srt_ratio ratios) = 1"
  shows "0 \<le> amount - sum_list (quotas amount ratios)" "amount - sum_list (quotas amount ratios) \<le> int (length ratios)"
proof -
  have b: "\<forall>r \<in> set (remainders amount ratios). 0 \<le> fraction r \<and> fraction r < 1" by (simp add: division_facts(5) frac_lt_1)
  then have "0 \<le> sum_list (map fraction (remainders amount ratios))" by (intro sum_list_nonneg) auto
  then have "(0 :: rat) \<le> of_int (amount - sum_list (quotas amount ratios))" unfolding remainder_sum [OF assms] .
  then show "0 \<le> amount - sum_list (quotas amount ratios)" by (simp only: of_int_0_le_iff)
  have "sum_list (map fraction us) \<le> of_nat (length us)" if "\<forall>u \<in> set us. fraction u < 1" for us
    using that by (induction us) auto
  from this [of "remainders amount ratios"] b
  have "(of_int (amount - sum_list (quotas amount ratios)) :: rat) \<le> of_int (int (length ratios))"
    unfolding remainder_sum [OF assms] by (simp add: division_def)
  then show "amount - sum_list (quotas amount ratios) \<le> int (length ratios)" by (simp only: of_int_le_iff)
qed

lemma quota_bounds:
  assumes "0 \<le> amount" "list_all (\<lambda>item. 0 \<le> srt_ratio item) ratios" "sum_list (map srt_ratio ratios) = 1" "i < length ratios"
  shows "0 \<le> exact_share amount (ratios ! i)" "exact_share amount (ratios ! i) \<le> of_int amount"
  using assms ratio_le_1 [OF assms(2,3), of "ratios ! i"]
  by (auto simp: exact_share_def list_all_length intro: mult_left_le)

lemma largestRemainder_result:
  assumes amount: "0 \<le> amount" "amount \<le> MaxInt64"
    and ratios: "list_all (\<lambda>item. 0 \<le> srt_ratio item) ratios" "sum_list (map srt_ratio ratios) = 1"
  shows "largestRemainder ratios amount = Inr (foldl add_one (quotas amount ratios)
    (take (nat (amount - sum_list (quotas amount ratios))) (sort_Slice remainder_before (remainders amount ratios))))"
proof -
  have parts: "remainder_loop amount 0 ratios = Inr (division amount ratios)"
    using remainder_loop_ok [OF amount, of ratios 0] ratios(1) ratio_le_1 [OF ratios] by (auto simp: division_def list_all_iff)
  have vs0: "list_all (\<lambda>v. 0 \<le> v) (quotas amount ratios)"
    unfolding division_facts(1) using quota_bounds(1) [OF amount(1) ratios] by (simp add: list_all_iff)
  then have "0 \<le> sum_list (quotas amount ratios)" by (intro sum_list_nonneg) (auto simp: list_all_iff)
  then have "i64 (amount - sum_list (quotas amount ratios)) = amount - sum_list (quotas amount ratios)"
    using left_bounds(1) [OF ratios(2), of amount] amount(2) by (intro i64_nonneg_id) (simp_all add: MaxInt64_def)
  moreover have "foldl (\<lambda>a v. i64 (a + v)) 0 (quotas amount ratios) = sum_list (quotas amount ratios)"
    using foldl_i64_sum [OF vs0, of 0] left_bounds(1) [OF ratios(2), of amount] amount(2) by simp
  ultimately show ?thesis
    using amount(1) left_bounds [OF ratios(2), of amount] by (simp add: largestRemainder_def parts Let_def)
qed

text \<open>The remainders that receive a unit: the leading ones of the sorted list.\<close>

definition rounded_up :: "int \<Rightarrow> settlementRatio list \<Rightarrow> settlementRemainder list" where
  "rounded_up amount ratios = take (nat (amount - sum_list (quotas amount ratios))) (sort_Slice remainder_before (remainders amount ratios))"

lemma sorted_remainders:
  "sorted_wrt (\<lambda>x y. fraction y \<le> fraction x) (sort_Slice remainder_before (remainders amount ratios))"
proof -
  have "sorted_wrt (\<lambda>x y. \<not> remainder_before y x) (sort_Slice remainder_before (remainders amount ratios))"
    by (rule remainder_order.sort_Slice_sorted [OF division_facts(4)])
  then show ?thesis
    by (rule sorted_wrt_mono_rel [rotated]) (use division_facts(4) [of amount ratios] in \<open>auto simp: remainder_before_iff subset_iff\<close>)
qed

lemma rounded_up_facts:
  assumes "sum_list (map srt_ratio ratios) = 1"
  shows "distinct (map srm_index (rounded_up amount ratios))" "set (rounded_up amount ratios) \<subseteq> set (remainders amount ratios)"
    "int (length (rounded_up amount ratios)) = amount - sum_list (quotas amount ratios)"
    "r \<in> set (rounded_up amount ratios) \<Longrightarrow> 0 < fraction r"
    "r \<in> set (rounded_up amount ratios) \<Longrightarrow> q \<in> set (remainders amount ratios) \<Longrightarrow> q \<notin> set (rounded_up amount ratios) \<Longrightarrow> fraction q \<le> fraction r"
proof -
  let ?t = "sort_Slice remainder_before (remainders amount ratios)" and ?k = "nat (amount - sum_list (quotas amount ratios))"
  have "distinct (map srm_index (remainders amount ratios))" unfolding division_facts(2) by simp
  then have "distinct (map srm_index ?t)"
    by (metis mset_eq_imp_distinct_iff mset_map mset_sort_Slice)
  then show "distinct (map srm_index (rounded_up amount ratios))" by (simp add: rounded_up_def distinct_take flip: take_map)
  show sub: "set (rounded_up amount ratios) \<subseteq> set (remainders amount ratios)"
    unfolding rounded_up_def by (metis set_sort_Slice set_take_subset)
  show len: "int (length (rounded_up amount ratios)) = amount - sum_list (quotas amount ratios)"
    using left_bounds [OF assms, of amount] by (simp add: rounded_up_def division_def)
  show "0 < fraction r" if "r \<in> set (rounded_up amount ratios)"
  proof -
    from that obtain k where k: "r = ?t ! k" "k < ?k" "k < length ?t" by (auto simp: rounded_up_def in_set_conv_nth)
    have "sum_list (map fraction ?t) = of_int (amount - sum_list (quotas amount ratios))"
      unfolding remainder_sum [OF assms, symmetric] by (metis mset_map mset_sort_Slice sum_mset_sum_list)
    moreover have "\<forall>t \<in> set ?t. 0 \<le> fraction t \<and> fraction t < 1" by (simp add: division_facts(5) frac_lt_1)
    ultimately show ?thesis unfolding k(1) using k(2,3) leading_fractions_positive [OF sorted_remainders] by blast
  qed
  show "fraction q \<le> fraction r"
    if "r \<in> set (rounded_up amount ratios)" "q \<in> set (remainders amount ratios)" "q \<notin> set (rounded_up amount ratios)"
  proof -
    have "q \<in> set (take ?k ?t @ drop ?k ?t)" using that(2) by (simp only: append_take_drop_id set_sort_Slice)
    then have "q \<in> set (drop ?k ?t)" using that(3) unfolding set_append rounded_up_def by blast
    moreover have "sorted_wrt (\<lambda>x y. fraction y \<le> fraction x) (take ?k ?t @ drop ?k ?t)"
      using sorted_remainders by (simp only: append_take_drop_id)
    ultimately show ?thesis using that(1) by (simp only: sorted_wrt_append rounded_up_def)
  qed
qed

lemma largestRemainder_divides:
  assumes amount: "0 \<le> amount" "amount \<le> MaxInt64"
    and ratios: "list_all (\<lambda>item. 0 \<le> srt_ratio item) ratios" "sum_list (map srt_ratio ratios) = 1"
  obtains shares where "largestRemainder ratios amount = Inr shares" "length shares = length ratios" "sum_list shares = amount"
    "\<And>i. i < length ratios \<Longrightarrow> shares ! i = \<lfloor>exact_share amount (ratios ! i)\<rfloor> +
       (if i \<in> srm_index ` set (rounded_up amount ratios) then 1 else 0)"
proof (rule that)
  have q: "quotas amount ratios ! i = \<lfloor>exact_share amount (ratios ! i)\<rfloor>" if "i < length ratios" for i
    using that by (simp add: division_facts(1) del: map_map)
  have up: "\<forall>r \<in> set (rounded_up amount ratios). srm_index r < length (quotas amount ratios) \<and>
      - 1 \<le> quotas amount ratios ! srm_index r \<and> quotas amount ratios ! srm_index r < MaxInt64"
  proof
    fix r assume r: "r \<in> set (rounded_up amount ratios)"
    then have m: "r \<in> set (remainders amount ratios)" using rounded_up_facts(2) [OF ratios(2)] by blast
    define x where "x = exact_share amount (ratios ! srm_index r)"
    have i: "srm_index r < length ratios" and "0 < frac x"
      using division_facts(5) [OF m] rounded_up_facts(4) [OF ratios(2) r] by (simp_all add: x_def)
    then have "of_int \<lfloor>x\<rfloor> < (of_int amount :: rat)"
      using quota_bounds(2) [OF amount(1) ratios i] unfolding x_def [symmetric] by (simp add: frac_def)
    then have "\<lfloor>x\<rfloor> < amount" by (simp only: of_int_less_iff)
    moreover have "- 1 \<le> \<lfloor>x\<rfloor>" using quota_bounds(1) [OF amount(1) ratios i] unfolding x_def by linarith
    ultimately show "srm_index r < length (quotas amount ratios) \<and>
      - 1 \<le> quotas amount ratios ! srm_index r \<and> quotas amount ratios ! srm_index r < MaxInt64"
      using i amount(2) unfolding q [OF i] x_def [symmetric] by (simp add: division_def del: le_floor_iff)
  qed
  note f = foldl_add_one [OF rounded_up_facts(1) [OF ratios(2)] up]
  show "largestRemainder ratios amount = Inr (foldl add_one (quotas amount ratios) (rounded_up amount ratios))"
    using largestRemainder_result [OF assms] by (simp add: rounded_up_def)
  show "length (foldl add_one (quotas amount ratios) (rounded_up amount ratios)) = length ratios"
    using f by (simp add: division_def)
  show "sum_list (foldl add_one (quotas amount ratios) (rounded_up amount ratios)) = amount"
    using f rounded_up_facts(3) [OF ratios(2)] by simp
  show "foldl add_one (quotas amount ratios) (rounded_up amount ratios) ! i = \<lfloor>exact_share amount (ratios ! i)\<rfloor> +
       (if i \<in> srm_index ` set (rounded_up amount ratios) then 1 else 0)" if "i < length ratios" for i
    using f that q [OF that] by (simp add: division_def)
qed

subsection \<open>Shares sum to one\<close>

lemma eligible_weight_sum:
  assumes "eligible_weight acc weights = Inr weight_total"
  shows "weight_total = acc + sum_list (map sws_Weight weights)" "list_all (\<lambda>w. 0 \<le> sws_Weight w) weights" "0 \<le> acc \<Longrightarrow> 0 \<le> weight_total"
proof -
  have "weight_total = acc + sum_list (map sws_Weight weights) \<and> list_all (\<lambda>w. 0 \<le> sws_Weight w) weights \<and> (0 \<le> acc \<longrightarrow> 0 \<le> weight_total)"
    using assms
  proof (induction weights arbitrary: acc)
    case (Cons w weights)
    then obtain s where s: "checkedRevenueAdd acc (sws_Weight w) = Some s" "eligible_weight s weights = Inr weight_total"
      by (auto simp: result_simps)
    then show ?case using Cons.IH [OF s(2)] by (auto simp: checkedRevenueAdd_def split: if_splits)
  qed simp
  then show "weight_total = acc + sum_list (map sws_Weight weights)" "list_all (\<lambda>w. 0 \<le> sws_Weight w) weights"
    "0 \<le> acc \<Longrightarrow> 0 \<le> weight_total" by simp_all
qed

lemma eligible_weight_ok:
  assumes "list_all (\<lambda>w. 0 \<le> sws_Weight w) weights" "0 \<le> acc" "acc + sum_list (map sws_Weight weights) \<le> MaxInt64"
  shows "eligible_weight acc weights = Inr (acc + sum_list (map sws_Weight weights))"
  using assms
proof (induction weights arbitrary: acc)
  case (Cons w weights)
  have "0 \<le> sum_list (map sws_Weight weights)" using Cons.prems(1) by (intro sum_list_nonneg) (auto simp: list_all_iff)
  then have "checkedRevenueAdd acc (sws_Weight w) = Some (acc + sws_Weight w)" using Cons.prems by (simp add: checkedRevenueAdd_def)
  then show ?case using Cons.IH [of "acc + sws_Weight w"] Cons.prems by (simp add: algebra_simps)
qed simp

lemma founder_ratio_bounds:
  assumes "0 \<le> measured" "measured \<le> MaxInt64 - 600000"
  shows "1 / 10 \<le> founder_ratio measured" "founder_ratio measured \<le> 1"
proof -
  have s: "i64 600000 = 600000" "i64 (600000 + measured) = 600000 + measured"
    using assms by (auto intro!: i64_nonneg_id simp: MaxInt64_def)
  have m: "Fract 600000 (600000 + measured) \<le> (1 :: rat)" using assms(1) by (simp add: Fract_of_int_quotient divide_le_eq_1)
  show "1 / 10 \<le> founder_ratio measured" "founder_ratio measured \<le> 1"
    using m by (auto simp: founder_ratio_def FounderContributionUnits_def settlementWeightMonths_def s Let_def Fract_of_int_quotient)
qed

lemma sum_list_shares:
  assumes "0 < sum_list (map sws_Weight weights)"
  shows "sum_list (map (\<lambda>w. pool * Fract (sws_Weight w) (sum_list (map sws_Weight weights))) weights) = (pool :: rat)"
proof -
  let ?t = "sum_list (map sws_Weight weights)"
  have "sum_list (map (\<lambda>w. pool * Fract (sws_Weight w) ?t) ws) = pool * (of_int (sum_list (map sws_Weight ws)) / of_int ?t)" for ws
    by (induction ws) (simp_all add: Fract_of_int_quotient algebra_simps add_divide_distrib)
  from this [of weights] assms show ?thesis by simp
qed

text \<open>The shares in the order of the code: the founder first, then the groups (or the reserve) by identifier.\<close>

lemma settlementRatios_cases:
  assumes "settlementRatios weights measured = Inr ratios"
  obtains rest where "0 \<le> measured" "measured \<le> MaxInt64 - 600000"
    "ratios = \<lparr>srt_beneficiaryType = SettlementBeneficiaryFounder, srt_beneficiaryID = SettlementFounderBeneficiaryID,
       srt_label = ''Founder'', srt_ratio = founder_ratio measured\<rparr> # sort_Slice ratio_before rest"
    "\<forall>r \<in> set rest. srt_beneficiaryType r \<noteq> SettlementBeneficiaryFounder \<and> 0 \<le> srt_ratio r"
    "sum_list (map srt_ratio rest) = 1 - founder_ratio measured"
proof -
  let ?f = "\<lparr>srt_beneficiaryType = SettlementBeneficiaryFounder, srt_beneficiaryID = SettlementFounderBeneficiaryID,
       srt_label = ''Founder'', srt_ratio = founder_ratio measured\<rparr>"
  have six: "i64 (FounderContributionUnits * settlementWeightMonths) = 600000"
    unfolding FounderContributionUnits_def settlementWeightMonths_def by (simp add: i64_def)
  from assms obtain t where t: "eligible_weight 0 weights = Inr t" and b: "0 \<le> measured" "measured \<le> MaxInt64 - 600000"
    by (auto simp: settlementRatios_def six Let_def result_simps split: if_splits)
  let ?rest = "if t > 0 then map (\<lambda>weight. \<lparr>srt_beneficiaryType = SettlementBeneficiaryOperator,
      srt_beneficiaryID = sws_BeneficiaryID weight, srt_label = sws_Label weight,
      srt_ratio = (1 - founder_ratio measured) * Fract (sws_Weight weight) t\<rparr>) weights
    else [\<lparr>srt_beneficiaryType = SettlementBeneficiaryReserve, srt_beneficiaryID = SettlementReserveBeneficiaryID,
      srt_label = ''Unallocated reserve'', srt_ratio = 1 - founder_ratio measured\<rparr>]"
  have types: "\<forall>r \<in> set ?rest. srt_beneficiaryType r \<noteq> SettlementBeneficiaryFounder"
    by (auto simp: SettlementBeneficiaryFounder_def SettlementBeneficiaryOperator_def SettlementBeneficiaryReserve_def)
  note w = eligible_weight_sum [OF t]
  have "0 \<le> 1 - founder_ratio measured" using founder_ratio_bounds [OF b] by simp
  moreover have "0 \<le> Fract (sws_Weight weight) t" if "weight \<in> set weights" "0 < t" for weight
    using w(2) that by (auto simp: Fract_of_int_quotient list_all_iff)
  ultimately have nonneg: "\<forall>r \<in> set ?rest. 0 \<le> srt_ratio r" by auto
  have "ratios = sort_Slice ratio_before (?f # ?rest)"
    using assms t b by (auto simp: settlementRatios_def six Let_def split: if_splits)
  also have "\<dots> = ?f # sort_Slice ratio_before ?rest"
    by (rule sort_Slice_head) (use types in \<open>auto simp: ratio_before_def\<close>)
  finally show thesis
    using that [of ?rest] types nonneg b w(1) sum_list_shares [of weights "1 - founder_ratio measured"]
    by (simp add: o_def)
qed

lemma settlementRatios_shares:
  assumes "settlementRatios weights measured = Inr ratios"
  shows "list_all (\<lambda>item. 0 \<le> srt_ratio item) ratios" "sum_list (map srt_ratio ratios) = 1"
    "ratios \<noteq> []" "srt_beneficiaryType (hd ratios) = SettlementBeneficiaryFounder" "1 / 10 \<le> srt_ratio (hd ratios)"
proof -
  obtain rest where r: "0 \<le> measured" "measured \<le> MaxInt64 - 600000"
    "ratios = \<lparr>srt_beneficiaryType = SettlementBeneficiaryFounder, srt_beneficiaryID = SettlementFounderBeneficiaryID,
       srt_label = ''Founder'', srt_ratio = founder_ratio measured\<rparr> # sort_Slice ratio_before rest"
    "\<forall>r \<in> set rest. srt_beneficiaryType r \<noteq> SettlementBeneficiaryFounder \<and> 0 \<le> srt_ratio r"
    "sum_list (map srt_ratio rest) = 1 - founder_ratio measured"
    by (rule settlementRatios_cases [OF assms])
  note f = founder_ratio_bounds [OF r(1,2)]
  have "sum_list (map srt_ratio (sort_Slice ratio_before rest)) = sum_list (map srt_ratio rest)"
    by (metis mset_map mset_sort_Slice sum_mset_sum_list)
  then show "sum_list (map srt_ratio ratios) = 1" by (simp add: r(3,5))
  have "0 \<le> founder_ratio measured" using f(1) by (rule order_trans [rotated]) simp
  then show "list_all (\<lambda>item. 0 \<le> srt_ratio item) ratios" using r(4) by (simp add: r(3) list_all_iff)
  show "ratios \<noteq> []" "srt_beneficiaryType (hd ratios) = SettlementBeneficiaryFounder" "1 / 10 \<le> srt_ratio (hd ratios)"
    using f(1) by (simp_all add: r(3))
qed

lemma settlementRatios_ok:
  assumes "list_all (\<lambda>w. 0 \<le> sws_Weight w) weights" "sum_list (map sws_Weight weights) \<le> MaxInt64"
    and "0 \<le> measured" "measured \<le> MaxInt64 - 600000"
  obtains ratios where "settlementRatios weights measured = Inr ratios"
proof -
  have "i64 (FounderContributionUnits * settlementWeightMonths) = 600000"
    unfolding FounderContributionUnits_def settlementWeightMonths_def by (simp add: i64_def)
  with eligible_weight_ok [OF assms(1), of 0] assms(2-4) that show thesis
    by (simp add: settlementRatios_def Let_def split: if_splits)
qed

lemma allocateSettlementAmounts_eq:
  assumes "list_all (\<lambda>item. 0 \<le> srt_ratio item) ratios" "sum_list (map srt_ratio ratios) = 1"
    and "0 \<le> pool" "pool \<le> MaxInt64" "0 \<le> indicative" "indicative \<le> MaxInt64"
  obtains allocations where "allocateSettlementAmounts ratios pool indicative = Inr allocations"
    "map sa_BeneficiaryID allocations = map srt_beneficiaryID ratios"
    "map sa_BeneficiaryType allocations = map srt_beneficiaryType ratios"
    "largestRemainder ratios pool = Inr (map sa_NetworkPoolAllocationMinor allocations)"
    "largestRemainder ratios indicative = Inr (map sa_IndicativeValueAllocationMinor allocations)"
    "sum_list (map sa_NetworkPoolAllocationMinor allocations) = pool"
    "sum_list (map sa_IndicativeValueAllocationMinor allocations) = indicative"
proof -
  obtain vs where vs: "largestRemainder ratios pool = Inr vs" "length vs = length ratios" "sum_list vs = pool"
    by (rule largestRemainder_divides [OF assms(3,4,1,2)])
  obtain ws where ws: "largestRemainder ratios indicative = Inr ws" "length ws = length ratios" "sum_list ws = indicative"
    by (rule largestRemainder_divides [OF assms(5,6,1,2)])
  have nth: "map (\<lambda>i. f (xs ! i)) [0..<length ratios] = map f xs" if "length xs = length ratios" for f xs
    using that by (intro nth_equalityI) simp_all
  show thesis
    by (rule that [unfolded allocateSettlementAmounts_def vs(1) ws(1) bindR.simps, OF refl])
      (simp_all add: Let_def o_def nth [of _ "\<lambda>x. x", simplified] nth vs ws)
qed

lemma first_share_tenth:
  assumes "list_all (\<lambda>item. 0 \<le> srt_ratio item) ratios" "sum_list (map srt_ratio ratios) = 1" "ratios \<noteq> []"
    "1 / 10 \<le> srt_ratio (hd ratios)" "0 \<le> amount" "amount \<le> MaxInt64" "largestRemainder ratios amount = Inr xs"
  shows "amount div 10 \<le> hd xs"
proof -
  obtain shares where s: "largestRemainder ratios amount = Inr shares" "length shares = length ratios"
    "\<And>i. i < length ratios \<Longrightarrow> shares ! i = \<lfloor>exact_share amount (ratios ! i)\<rfloor> +
       (if i \<in> srm_index ` set (rounded_up amount ratios) then 1 else 0)"
    by (rule largestRemainder_divides [OF assms(5,6,1,2)]) (rule that)
  have x: "xs = shares" "0 < length ratios" using assms(3,7) s(1) by simp_all
  have "of_int amount * (1 / 10) \<le> exact_share amount (ratios ! 0)"
    unfolding exact_share_def using assms(3-5) by (intro mult_left_mono) (simp_all add: hd_conv_nth)
  then have "\<lfloor>of_int amount / (10 :: rat)\<rfloor> \<le> \<lfloor>exact_share amount (ratios ! 0)\<rfloor>" by (intro floor_mono) simp
  moreover have "\<lfloor>of_int amount / (10 :: rat)\<rfloor> = amount div 10" using floor_divide_of_int_eq [where 'a = rat, of amount 10] by simp
  moreover have "hd xs = shares ! 0" using x s(2) by (cases shares) auto
  ultimately show ?thesis using s(3) [OF x(2)] by simp
qed

lemma settlementGrowthBasisPoints_bounds:
  "- 10000 \<le> settlementGrowthBasisPoints previous current" "settlementGrowthBasisPoints previous current \<le> 20000"
  by (simp_all add: settlementGrowthBasisPoints_def clampInt64_def SettlementMinimumGrowthBasisPoints_def
      SettlementMaximumGrowthBasisPoints_def Let_def)

subsection \<open>The properties\<close>

text \<open>C31. Dividing an amount by the largest-remainder method neither loses nor invents a unit: for shares that are nonnegative and sum
  to one, every nonnegative \<open>int64\<close> amount is divided into parts that sum to it; each part is the exact share rounded down or up,
  and a share whose part was rounded up has a fractional part at least as large as one whose part was rounded down.\<close>

theorem largestRemainder_exact:
  assumes "list_all (\<lambda>item. 0 \<le> srt_ratio item) ratios" "sum_list (map srt_ratio ratios) = 1" "0 \<le> amount" "amount \<le> MaxInt64"
  shows "\<exists>shares. largestRemainder ratios amount = Inr shares \<and> length shares = length ratios \<and> sum_list shares = amount \<and>
    (\<forall>i < length ratios. \<lfloor>of_int amount * srt_ratio (ratios ! i)\<rfloor> \<le> shares ! i \<and> shares ! i \<le> \<lceil>of_int amount * srt_ratio (ratios ! i)\<rceil>) \<and>
    (\<forall>i < length ratios. \<forall>j < length ratios. shares ! i > \<lfloor>of_int amount * srt_ratio (ratios ! i)\<rfloor> \<and>
       shares ! j = \<lfloor>of_int amount * srt_ratio (ratios ! j)\<rfloor> \<longrightarrow>
       frac (of_int amount * srt_ratio (ratios ! j)) \<le> frac (of_int amount * srt_ratio (ratios ! i)))"
proof -
  let ?x = "\<lambda>i. of_int amount * srt_ratio (ratios ! i)" and ?up = "srm_index ` set (rounded_up amount ratios)"
  obtain shares where s: "largestRemainder ratios amount = Inr shares" "length shares = length ratios" "sum_list shares = amount"
    "\<And>i. i < length ratios \<Longrightarrow> shares ! i = \<lfloor>exact_share amount (ratios ! i)\<rfloor> + (if i \<in> ?up then 1 else 0)"
    by (rule largestRemainder_divides [OF assms(3,4,1,2)]) (rule that)
  note up = rounded_up_facts [OF assms(2)] and d = division_facts(5) [unfolded exact_share_def]
  have fr: "r \<in> set (rounded_up amount ratios) \<Longrightarrow> 0 < frac (?x (srm_index r))" for r
    using up(2,4) d by (metis subsetD)
  have "shares ! i \<le> \<lceil>?x i\<rceil> \<and> \<lfloor>?x i\<rfloor> \<le> shares ! i" if "i < length ratios" for i
  proof (cases "i \<in> ?up")
    case True
    then have "0 < frac (?x i)" using fr by auto
    then have "\<lceil>?x i\<rceil> = \<lfloor>?x i\<rfloor> + 1" unfolding ceiling_altdef frac_def by auto
    then show ?thesis using s(4) [OF that] True by (simp add: exact_share_def)
  next
    case False
    then show ?thesis using s(4) [OF that] by (simp add: exact_share_def floor_le_ceiling)
  qed
  moreover have "frac (?x j) \<le> frac (?x i)"
    if ij: "i < length ratios" "j < length ratios" "shares ! i > \<lfloor>?x i\<rfloor>" "shares ! j = \<lfloor>?x j\<rfloor>" for i j
  proof -
    have "i \<in> ?up" "j \<notin> ?up" using s(4) [OF ij(1)] s(4) [OF ij(2)] ij(3,4) by (auto simp: exact_share_def split: if_splits)
    then obtain r where r: "r \<in> set (rounded_up amount ratios)" "srm_index r = i" by blast
    have "j \<in> set (map srm_index (remainders amount ratios))" unfolding division_facts(2) using ij(2) by simp
    then obtain q where q: "q \<in> set (remainders amount ratios)" "srm_index q = j" by auto
    then have "q \<notin> set (rounded_up amount ratios)" using \<open>j \<notin> ?up\<close> by blast
    moreover have "r \<in> set (remainders amount ratios)" using up(2) r(1) by blast
    ultimately show ?thesis using up(5) [OF r(1) q(1)] d [OF q(1)] d [of r amount ratios] r(2) q(2) by simp
  qed
  ultimately show ?thesis using s(1-3) by blast
qed

definition sample_ratios :: "settlementRatio list" where
  "sample_ratios = [\<lparr>srt_beneficiaryType = ''FOUNDER'', srt_beneficiaryID = ''founder'', srt_label = [], srt_ratio = 1 / 2\<rparr>,
     \<lparr>srt_beneficiaryType = ''OPERATOR_GROUP'', srt_beneficiaryID = ''a'', srt_label = [], srt_ratio = 1 / 6\<rparr>,
     \<lparr>srt_beneficiaryType = ''OPERATOR_GROUP'', srt_beneficiaryID = ''b'', srt_label = [], srt_ratio = 1 / 3\<rparr>]"

theorem largestRemainder_exact_witness: "\<exists>shares. largestRemainder sample_ratios 10 = Inr shares \<and> sum_list shares = 10"
  using largestRemainder_exact [of sample_ratios 10] by (auto simp: sample_ratios_def MaxInt64_def)

text \<open>The two allocations together: for nonnegative weights whose sum is an \<open>int64\<close> and a measured weight below the
  founder's headroom, the shares are computed and the pool and the indicative value are allocated; both allocations sum to the
  amount, the first beneficiary is the founder, and the founder receives at least a tenth of each amount, rounded down.\<close>

lemma settlement_allocation_exact:
  assumes "list_all (\<lambda>w. 0 \<le> sws_Weight w) weights" "sum_list (map sws_Weight weights) \<le> MaxInt64"
    and "0 \<le> measured" "measured \<le> MaxInt64 - 600000"
    and "0 \<le> pool" "pool \<le> MaxInt64" "0 \<le> indicative" "indicative \<le> MaxInt64"
  shows "\<exists>ratios allocations. settlementRatios weights measured = Inr ratios \<and>
    allocateSettlementAmounts ratios pool indicative = Inr allocations \<and>
    sum_list (map sa_NetworkPoolAllocationMinor allocations) = pool \<and>
    sum_list (map sa_IndicativeValueAllocationMinor allocations) = indicative \<and>
    allocations \<noteq> [] \<and> sa_BeneficiaryType (hd allocations) = SettlementBeneficiaryFounder \<and>
    pool div 10 \<le> sa_NetworkPoolAllocationMinor (hd allocations) \<and>
    indicative div 10 \<le> sa_IndicativeValueAllocationMinor (hd allocations)"
proof -
  obtain ratios where r: "settlementRatios weights measured = Inr ratios" by (rule settlementRatios_ok [OF assms(1-4)])
  note shares = settlementRatios_shares [OF r]
  obtain allocations where a: "allocateSettlementAmounts ratios pool indicative = Inr allocations"
    "map sa_BeneficiaryType allocations = map srt_beneficiaryType ratios"
    "largestRemainder ratios pool = Inr (map sa_NetworkPoolAllocationMinor allocations)"
    "largestRemainder ratios indicative = Inr (map sa_IndicativeValueAllocationMinor allocations)"
    "sum_list (map sa_NetworkPoolAllocationMinor allocations) = pool"
    "sum_list (map sa_IndicativeValueAllocationMinor allocations) = indicative"
    by (rule allocateSettlementAmounts_eq [OF shares(1,2) assms(5-8)])
  have ne: "allocations \<noteq> []" using a(2) shares(3) by auto
  note tenth = first_share_tenth [OF shares(1-3,5) assms(5,6) a(3)] first_share_tenth [OF shares(1-3,5) assms(7,8) a(4)]
  have "sa_BeneficiaryType (hd allocations) = SettlementBeneficiaryFounder"
    using arg_cong [OF a(2), of hd] ne shares(3,4) by (simp add: hd_map)
  then show ?thesis using tenth ne a(1,5,6) r by (intro exI [of _ ratios] exI [of _ allocations]) (simp add: hd_map)
qed

definition sample_weights :: "SettlementWeightSource list" where
  "sample_weights = [\<lparr>sws_BeneficiaryID = ''a'', sws_Label = ''A'', sws_Weight = 7\<rparr>, \<lparr>sws_BeneficiaryID = ''b'', sws_Label = ''B'', sws_Weight = 2\<rparr>]"

lemma settlement_allocation_exact_witness:
  "\<exists>ratios allocations. settlementRatios sample_weights 5000000 = Inr ratios \<and> allocateSettlementAmounts ratios 1001 77 = Inr allocations \<and>
    sum_list (map sa_NetworkPoolAllocationMinor allocations) = 1001"
  using settlement_allocation_exact [of sample_weights 5000000 1001 77] by (auto simp: sample_weights_def MaxInt64_def)

end
