(* ===== verification/Go_Calendar.thy ===== *)
theory Go_Calendar
  imports Go_Time
begin

text \<open>
  The formatting half of Go's \<open>time\<close> package, for UTC instants given in nanoseconds since the epoch: \<open>Date\<close>, \<open>Format\<close> with
  the layouts \<open>2006-01-02\<close>, \<open>2006-01\<close> and \<open>time.RFC3339\<close>, \<open>Truncate(time.Second)\<close>, and \<open>AddDate\<close> by months on the first day of
  a month.  The lemmas show that parsing inverts formatting and that the order of canonical texts is the order of time, which the
  store's comparisons of text columns rest on.
\<close>

subsection \<open>Formatting numbers\<close>

definition appendInt :: "int \<Rightarrow> nat \<Rightarrow> string" where
  "appendInt x width =
     (let ds = nat_decimal (nat \<bar>x\<bar>)
      in (if x < 0 then ''-'' else []) @ replicate (width - length ds) (CHR ''0'') @ ds)"

subsection \<open>The date of a day\<close>

text \<open>\<open>absDate\<close>: years in cycles of 400, 100, 4 and 1, with the last year of a cycle taking the remaining day.\<close>

definition year_and_day :: "int \<Rightarrow> int \<times> int" where
  "year_and_day days =
     (let d = days + 719162;
          n400 = d div 146097; d = d - 146097 * n400;
          n = d div 36524; n100 = n - n div 4; d = d - 36524 * n100;
          n4 = d div 1461; d = d - 1461 * n4;
          n = d div 365; n1 = n - n div 4; d = d - 365 * n1
      in (400 * n400 + 100 * n100 + 4 * n4 + n1 + 1, d))"

definition month_of :: "int \<Rightarrow> int \<Rightarrow> int" where
  "month_of year yday = 1 + int (length (takeWhile (\<lambda>m. daysBefore (m + 1) year \<le> yday) [1..11]))"

definition date_of_day :: "int \<Rightarrow> int \<times> int \<times> int" where
  "date_of_day days =
     (let (year, yday) = year_and_day days; month = month_of year yday
      in (year, month, yday - daysBefore month year + 1))"

subsection \<open>Formatting instants\<close>

definition format_date :: "int \<times> int \<times> int \<Rightarrow> string" where
  "format_date = (\<lambda>(year, month, day). appendInt year 4 @ ''-'' @ appendInt month 2 @ ''-'' @ appendInt day 2)"

definition time_Format_date :: "int \<Rightarrow> string" where
  "time_Format_date t = format_date (date_of_day (t div day_nanos))"

definition format_clock :: "int \<Rightarrow> string" where
  "format_clock s = appendInt (s div 3600) 2 @ '':'' @ appendInt (s div 60 mod 60) 2 @ '':'' @ appendInt (s mod 60) 2"

definition time_Format_RFC3339 :: "int \<Rightarrow> string" where
  "time_Format_RFC3339 t = time_Format_date t @ ''T'' @ format_clock (t mod day_nanos div 1000000000) @ ''Z''"

definition Truncate_second :: "int \<Rightarrow> int" where
  "Truncate_second t = t - t mod 1000000000"

definition dayStart :: "int \<Rightarrow> int" where
  "dayStart t = t div day_nanos * day_nanos"

text \<open>The first day of a month as a count of months: \<open>AddDate(0, n, 0)\<close> adds to it.\<close>

definition time_Parse_month :: "string \<Rightarrow> int option" where
  "time_Parse_month s =
     (if length s < 4 \<or> \<not> list_all is_digit (take 4 s) then None
      else Option.bind (skip_char (CHR ''-'') (drop 4 s)) (\<lambda>s1.
        Option.bind (getnum s1 True) (\<lambda>(month, s2).
        if month \<le> 0 \<or> 12 < month \<or> s2 \<noteq> [] then None else Some (digits_val (take 4 s) * 12 + month - 1))))"

definition format_month :: "int \<Rightarrow> string" where
  "format_month m = appendInt (m div 12) 4 @ ''-'' @ appendInt (m mod 12 + 1) 2"

definition format_first_day :: "int \<Rightarrow> string" where
  "format_first_day m = format_date (m div 12, m mod 12 + 1, 1)"

subsection \<open>Numbers of a fixed width\<close>

fun pad_decimal :: "nat \<Rightarrow> nat \<Rightarrow> string" where
  "pad_decimal 0 n = []"
| "pad_decimal (Suc w) n = pad_decimal w (n div 10) @ [digit_char (n mod 10)]"

lemma length_pad_decimal [simp]: "length (pad_decimal w n) = w"
  by (induction w arbitrary: n) simp_all

lemma digit_char_zero: "digit_char 0 = CHR ''0''"
  by code_simp

lemma pad_decimal_zero: "pad_decimal w 0 = replicate w (CHR ''0'')"
  by (induction w) (simp_all add: digit_char_zero replicate_append_same)

lemma appendInt_pad:
  assumes "n < 10 ^ w" "0 < w"
  shows "appendInt (int n) w = pad_decimal w n"
  using assms
proof (induction w arbitrary: n)
  case (Suc w)
  show ?case
  proof (cases "n < 10")
    case True
    then show ?thesis by (simp add: appendInt_def pad_decimal_zero nat_decimal.simps [of n])
  next
    case False
    then have w: "0 < w" using Suc.prems(1) by (cases w) simp_all
    have "n div 10 < 10 ^ w" using Suc.prems(1) by (simp add: less_mult_imp_div_less mult.commute)
    from Suc.IH [OF this w] False show ?thesis by (simp add: appendInt_def Let_def nat_decimal.simps [of n])
  qed
qed simp

lemma digit_char_digit: "d < 10 \<Longrightarrow> is_digit (digit_char d)" "d < 10 \<Longrightarrow> digit_val (digit_char d) = int d"
  by (simp_all add: is_digit_def digit_val_def of_char_digit_char)

lemma pad_decimal_digits: "list_all is_digit (pad_decimal w n)"
  by (induction w arbitrary: n) (simp_all add: digit_char_digit)

lemma digits_val_pad: "n < 10 ^ w \<Longrightarrow> digits_val (pad_decimal w n) = int n"
proof (induction w arbitrary: n)
  case (Suc w)
  then have "n div 10 < 10 ^ w" by (simp add: less_mult_imp_div_less mult.commute)
  from Suc.IH [OF this] show ?case by (simp add: digits_val_def digit_char_digit zdiv_int zmod_int)
qed (simp add: digits_val_def)

lemma append_less: "length x = length y \<Longrightarrow> x < y \<Longrightarrow> x @ u < y @ v" for x :: "'a :: linorder list"
  by (induction x y rule: list_induct2) auto

lemma append_same_less [simp]: "x @ u < x @ v \<longleftrightarrow> u < v" for x :: "'a :: linorder list"
  by (induction x) auto

lemma append_eq_less: "x = y \<Longrightarrow> u < v \<Longrightarrow> x @ u < y @ v" for x :: "'a :: linorder list"
  by simp

lemma digit_char_less: "d < e \<Longrightarrow> e < 10 \<Longrightarrow> digit_char d < digit_char e"
  by (simp add: less_char_def of_char_digit_char)

lemma pad_decimal_less: "m < n \<Longrightarrow> n < 10 ^ w \<Longrightarrow> pad_decimal w m < pad_decimal w n"
proof (induction w arbitrary: m n)
  case (Suc w)
  then consider "m div 10 < n div 10" | "m div 10 = n div 10" "m mod 10 < n mod 10"
    by (metis div_le_mono div_mult_mod_eq less_imp_le_nat nat_add_left_cancel_less nat_less_le)
  then show ?case
  proof cases
    case 1
    moreover have "n div 10 < 10 ^ w" using Suc.prems(2) by (simp add: less_mult_imp_div_less mult.commute)
    ultimately show ?thesis using Suc.IH by (simp add: append_less)
  qed (simp add: digit_char_less)
qed simp

subsection \<open>The calendar\<close>

definition year_start :: "int \<Rightarrow> int" where
  "year_start year = (let y = year - 1 in 365 * y + y div 4 - y div 100 + y div 400 - 719162)"

lemma unix_day_year_start: "unix_day year month day = year_start year + daysBefore month year + (day - 1)"
  by (simp add: unix_day_def year_start_def Let_def)

lemma div_bounds: "0 < k \<Longrightarrow> k * (x div k) \<le> x \<and> x < k * (x div k) + k" for x k :: int
  using pos_mod_sign [of k x] pos_mod_bound [of k x] mult_div_mod_eq [of k x] by linarith

lemma div_add_one: "0 < k \<Longrightarrow> (x + 1) div k = x div k + (if k dvd x + 1 then 1 else 0)" for x k :: int
proof (cases "x mod k + 1 = k")
  case True
  then have "x + 1 = k * (x div k + 1)" by (simp add: algebra_simps) (metis add.commute add.left_commute mult_div_mod_eq)
  then show "0 < k \<Longrightarrow> ?thesis" by (metis dvd_triv_left nonzero_mult_div_cancel_left order_less_irrefl)
next
  case False
  assume k: "0 < k"
  then have r: "0 \<le> x mod k + 1" "0 < x mod k + 1" "x mod k + 1 < k" using False pos_mod_sign [of k x] pos_mod_bound [of k x] by linarith+
  have e: "x + 1 = k * (x div k) + (x mod k + 1)" by simp
  have "(x + 1) div k = x div k" "(x + 1) mod k = x mod k + 1" using int_div_pos_eq [OF e r(1,3)] int_mod_pos_eq [OF e r(1,3)] by simp_all
  then show ?thesis using r(2) by (simp add: dvd_eq_mod_eq_0)
qed

lemma is_leap_dvd: "is_leap y \<longleftrightarrow> 4 dvd y \<and> (\<not> 100 dvd y \<or> 400 dvd y)"
  by (simp add: is_leap_def dvd_eq_mod_eq_0)

lemma year_start_Suc: "year_start (year + 1) = year_start year + (if is_leap year then 366 else 365)"
proof -
  have dvd: "400 dvd year \<Longrightarrow> 100 dvd year" "100 dvd year \<Longrightarrow> 4 dvd year"
    using dvd_trans [of 100 400 year] dvd_trans [of 4 100 year] by simp_all
  obtain a b c where abc: "(year - 1) div 4 = a" "(year - 1) div 100 = b" "(year - 1) div 400 = c" by blast
  have step: "year div k = (year - 1) div k + (if k dvd year then 1 else 0)" if "0 < k" for k
    using div_add_one [OF that, of "year - 1"] by (simp only: diff_add_cancel)
  have next_year: "year div 4 = a + (if 4 dvd year then 1 else 0)" "year div 100 = b + (if 100 dvd year then 1 else 0)"
    "year div 400 = c + (if 400 dvd year then 1 else 0)"
    unfolding abc [symmetric] by (rule step, simp)+
  have "year_start year = 365 * (year - 1) + a - b + c - 719162" by (simp only: year_start_def Let_def abc)
  moreover have "year_start (year + 1) = 365 * year + (a + (if 4 dvd year then 1 else 0)) - (b + (if 100 dvd year then 1 else 0)) +
      (c + (if 400 dvd year then 1 else 0)) - 719162"
    by (simp only: year_start_def Let_def add_diff_cancel_right' next_year)
  ultimately show ?thesis using dvd by (cases "4 dvd year"; cases "100 dvd year"; cases "400 dvd year") (simp_all add: is_leap_dvd)
qed

lemma year_start_mono: "y \<le> z \<Longrightarrow> year_start y \<le> year_start z"
proof (induction z rule: int_ge_induct)
  case (step z)
  then show ?case by (simp add: year_start_Suc)
qed simp

lemma quotient_unique: "k * q \<le> x \<Longrightarrow> x < k * q + k \<Longrightarrow> x div k = q" for x k q :: int
  by (rule int_div_pos_eq [of _ _ _ "x - k * q"]) simp_all

lemma year_and_day_correct:
  assumes "year_and_day days = (year, yday)"
  shows "days = year_start year + yday" "0 \<le> yday" "yday < (if is_leap year then 366 else 365)"
proof -
  define d0 where "d0 = days + 719162"
  define n400 where "n400 = d0 div 146097"
  define d1 where "d1 = d0 - 146097 * n400"
  define q100 where "q100 = d1 div 36524"
  define n100 where "n100 = q100 - q100 div 4"
  define d2 where "d2 = d1 - 36524 * n100"
  define n4 where "n4 = d2 div 1461"
  define d3 where "d3 = d2 - 1461 * n4"
  define q1 where "q1 = d3 div 365"
  define n1 where "n1 = q1 - q1 div 4"
  have eq: "year = 400 * n400 + 100 * n100 + 4 * n4 + n1 + 1" "yday = d3 - 365 * n1"
  proof -
    have "year_and_day days = (400 * n400 + 100 * n100 + 4 * n4 + n1 + 1, d3 - 365 * n1)"
      unfolding year_and_day_def Let_def n1_def q1_def d3_def n4_def d2_def n100_def q100_def d1_def n400_def d0_def by (rule refl)
    with assms show "year = 400 * n400 + 100 * n100 + 4 * n4 + n1 + 1" "yday = d3 - 365 * n1" by simp_all
  qed
  have d1: "0 \<le> d1" "d1 < 146097" using div_bounds [of 146097 d0, folded n400_def] by (simp_all add: d1_def)
  have quarter: "q < 4 \<and> q div 4 = 0 \<or> q = 4 \<and> q div 4 = 1" if "0 \<le> q" "q \<le> 4" for q :: int using that by presburger
  note b100 = div_bounds [of 36524 d1, folded q100_def, simplified]
  have q: "0 \<le> q100" "q100 \<le> 4" using b100 d1 by linarith+
  have c100: "q100 < 4 \<and> n100 = q100 \<or> q100 = 4 \<and> n100 = 3" using quarter [OF q] by (auto simp: n100_def)
  then have n100: "0 \<le> n100" "n100 \<le> 3" using q by auto
  have d2: "0 \<le> d2" "d2 < 36524 \<or> n100 = 3 \<and> d2 = 36524" using c100 b100 d1 unfolding d2_def by auto
  note b4 = div_bounds [of 1461 d2, folded n4_def, simplified]
  have n4: "0 \<le> n4" "n4 \<le> 24" "0 \<le> d3" "d3 < 1461" "n4 = 24 \<Longrightarrow> n100 < 3 \<Longrightarrow> d3 < 1460"
    using d2 b4 unfolding d3_def by linarith+
  note b1 = div_bounds [of 365 d3, folded q1_def, simplified]
  have r: "0 \<le> q1" "q1 \<le> 4" using b1 n4(3,4) by linarith+
  have c1: "q1 < 4 \<and> n1 = q1 \<or> q1 = 4 \<and> n1 = 3" using quarter [OF r] by (auto simp: n1_def)
  then have n1: "0 \<le> n1" "n1 \<le> 3" "0 \<le> yday" "yday < 365 \<or> n1 = 3 \<and> yday = 365 \<and> d3 = 1460"
    using r b1 n4(3,4) unfolding eq(2) by auto
  show "0 \<le> yday" by (rule n1)
  have years: "(year - 1) div 4 = 100 * n400 + 25 * n100 + n4" "(year - 1) div 100 = 4 * n400 + n100" "(year - 1) div 400 = n400"
    unfolding eq(1) by (rule quotient_unique; use n1(1,2) n4(1,2) n100(1,2) in simp)+
  show "days = year_start year + yday"
    unfolding year_start_def Let_def years eq(2) unfolding eq(1) d3_def d2_def d1_def d0_def by simp
  have "is_leap year" if "yday = 365"
  proof -
    from that n1(4) have y: "year = 400 * n400 + 100 * n100 + 4 * (n4 + 1)" "d3 = 1460" by (simp_all add: eq(1))
    show ?thesis
    proof (cases "n4 = 24")
      case True
      then have "n100 = 3" using n4(5) n100(2) y(2) by fastforce
      then have "year = 400 * (n400 + 1)" "year = 4 * (100 * (n400 + 1))" using y(1) True by simp_all
      then show ?thesis by (metis dvd_triv_left is_leap_dvd)
    next
      case False
      have "year = 4 * (100 * n400 + 25 * n100 + n4 + 1)" using y(1) by simp
      moreover have "year mod 100 = 4 * (n4 + 1)"
        using y(1) n4(1,2) False by (intro int_mod_pos_eq [of _ _ "4 * n400 + n100"]) simp_all
      ultimately show ?thesis using n4(1) by (metis dvd_triv_left is_leap_dvd dvd_eq_mod_eq_0 add_nonneg_pos mult_pos_pos order_less_irrefl zero_less_numeral zero_less_one)
    qed
  qed
  with n1(4) show "yday < (if is_leap year then 366 else 365)" by auto
qed

lemma daysIn_pos: "28 \<le> daysIn month year" "daysIn month year \<le> 31"
  by (auto simp: daysIn_def)

lemma daysBefore_Suc: "1 \<le> month \<Longrightarrow> daysBefore (month + 1) year = daysBefore month year + daysIn month year"
proof -
  assume "1 \<le> month"
  then have "[1..month] = [1..month - 1] @ [month]" by (rule upto_rec2)
  then show ?thesis by (simp add: daysBefore_def)
qed

lemma daysBefore_year: "daysBefore 1 year = 0" "daysBefore 13 year = (if is_leap year then 366 else 365)"
  by (simp add: daysBefore_def) (simp add: daysBefore_def upto_rec1 daysIn_def)

lemma daysBefore_mono:
  assumes "1 \<le> m" "m \<le> n"
  shows "daysBefore m year \<le> daysBefore n year"
  using assms(2)
proof (induction n rule: int_ge_induct)
  case (step n)
  then show ?case using assms(1) daysBefore_Suc [of n year] daysIn_pos(1) [of n year] by simp
qed simp

lemma month_of_correct:
  assumes "0 \<le> yday" "yday < (if is_leap year then 366 else 365)"
  shows "1 \<le> month_of year yday" "month_of year yday \<le> 12" "daysBefore (month_of year yday) year \<le> yday"
    "yday < daysBefore (month_of year yday + 1) year"
proof -
  let ?P = "\<lambda>m. daysBefore (m + 1) year \<le> yday"
  define k where "k = length (takeWhile ?P [1..11])"
  have m: "month_of year yday = 1 + int k" by (simp add: month_of_def k_def)
  have k: "k \<le> 11" unfolding k_def using length_takeWhile_le [of ?P "[1..11]"] by simp
  show "1 \<le> month_of year yday" "month_of year yday \<le> 12" using k by (simp_all add: m)
  show "daysBefore (month_of year yday) year \<le> yday"
  proof (cases k)
    case 0
    then show ?thesis using assms(1) daysBefore_year(1) by (simp add: m)
  next
    case (Suc i)
    have "takeWhile ?P [1..11] ! i \<in> set (takeWhile ?P [1..11])" using Suc k_def by (intro nth_mem) simp
    then have "?P (takeWhile ?P [1..11] ! i)" by (rule set_takeWhileD [THEN conjunct2])
    moreover have "takeWhile ?P [1..11] ! i = [1..11] ! i" using Suc k_def by (intro takeWhile_nth) simp
    ultimately have "?P ([1..11] ! i)" by simp
    then show ?thesis using k Suc by (simp add: m nth_upto algebra_simps)
  qed
  show "yday < daysBefore (month_of year yday + 1) year"
  proof (cases "k = 11")
    case True
    then show ?thesis using assms(2) daysBefore_year(2) by (simp add: m)
  next
    case False
    then have "\<not> ?P ([1..11] ! k)" unfolding k_def using k by (intro nth_length_takeWhile) (simp add: k_def)
    then show ?thesis using k False by (simp add: m nth_upto algebra_simps)
  qed
qed

lemma date_of_day_correct:
  assumes "date_of_day n = (year, month, day)"
  shows "unix_day year month day = n" "1 \<le> month" "month \<le> 12" "1 \<le> day" "day \<le> daysIn month year"
proof -
  obtain yday where y: "year_and_day n = (year, yday)" "month = month_of year yday" "day = yday - daysBefore month year + 1"
    using assms by (auto simp: date_of_day_def Let_def split: prod.splits)
  note d = year_and_day_correct [OF y(1)]
  note m = month_of_correct [OF d(2,3), folded y(2)]
  show "1 \<le> month" "month \<le> 12" by (fact m)+
  show "unix_day year month day = n" using y(3) d(1) by (simp add: unix_day_year_start)
  show "1 \<le> day" "day \<le> daysIn month year" using m(3,4) y(3) daysBefore_Suc [OF m(1), of year] by simp_all
qed

lemma day_bounds:
  assumes "1 \<le> month" "month \<le> 12" "1 \<le> day" "day \<le> daysIn month year"
  shows "year_start year \<le> unix_day year month day" "unix_day year month day < year_start (year + 1)"
    "daysBefore month year \<le> unix_day year month day - year_start year"
    "unix_day year month day - year_start year < daysBefore (month + 1) year"
proof -
  have "0 \<le> daysBefore month year" using daysBefore_mono [of 1 month year] assms(1) by (simp add: daysBefore_year)
  moreover have "daysBefore (month + 1) year \<le> (if is_leap year then 366 else 365)"
    using daysBefore_mono [of "month + 1" 13 year] assms(1,2) by (simp add: daysBefore_year(2))
  ultimately show "year_start year \<le> unix_day year month day" "unix_day year month day < year_start (year + 1)"
    "daysBefore month year \<le> unix_day year month day - year_start year"
    "unix_day year month day - year_start year < daysBefore (month + 1) year"
    using assms daysBefore_Suc [OF assms(1), of year] by (simp_all add: unix_day_year_start year_start_Suc split: if_splits)
qed

text \<open>Earlier days have earlier dates.\<close>

lemma date_order:
  assumes "m < n" "date_of_day m = (y1, m1, d1)" "date_of_day n = (y2, m2, d2)"
  shows "y1 < y2 \<or> y1 = y2 \<and> (m1 < m2 \<or> m1 = m2 \<and> d1 < d2)"
proof -
  note a = date_of_day_correct [OF assms(2)] and b = date_of_day_correct [OF assms(3)]
  note A = day_bounds [OF a(2-5), unfolded a(1)] and B = day_bounds [OF b(2-5), unfolded b(1)]
  have "\<not> y2 < y1"
  proof
    assume "y2 < y1"
    then have "year_start (y2 + 1) \<le> year_start y1" by (intro year_start_mono) simp
    with A(1) B(2) assms(1) show False by simp
  qed
  moreover have "\<not> m2 < m1" if "y1 = y2"
  proof
    assume "m2 < m1"
    then have "daysBefore (m2 + 1) y1 \<le> daysBefore m1 y1" using b(2) by (intro daysBefore_mono) simp_all
    with A(3) B(4) assms(1) that show False by simp
  qed
  moreover have "d1 < d2" if "y1 = y2" "m1 = m2" using a(1) b(1) assms(1) that by (simp add: unix_day_year_start)
  ultimately show ?thesis by force
qed

subsection \<open>Texts and their order\<close>

definition year_of :: "int \<Rightarrow> int" where
  "year_of n = fst (date_of_day n)"

lemma format_date_pad:
  assumes "date_of_day n = (year, month, day)" "0 \<le> year" "year \<le> 9999"
  shows "format_date (year, month, day) = pad_decimal 4 (nat year) @ ''-'' @ pad_decimal 2 (nat month) @ ''-'' @ pad_decimal 2 (nat day)"
proof -
  note a = date_of_day_correct [OF assms(1)]
  have "appendInt year 4 = pad_decimal 4 (nat year)" "appendInt month 2 = pad_decimal 2 (nat month)" "appendInt day 2 = pad_decimal 2 (nat day)"
    using appendInt_pad [of "nat year" 4] appendInt_pad [of "nat month" 2] appendInt_pad [of "nat day" 2] a(2-5) assms(2,3)
      daysIn_pos(2) [of month year] by (simp_all add: nat_less_iff)
  then show ?thesis by (simp only: format_date_def prod.case)
qed

lemma format_date_less:
  assumes "m < n" "0 \<le> year_of m" "year_of n \<le> 9999"
  shows "format_date (date_of_day m) < format_date (date_of_day n)"
proof -
  obtain y1 m1 d1 y2 m2 d2 where d: "date_of_day m = (y1, m1, d1)" "date_of_day n = (y2, m2, d2)" by (metis prod_cases3)
  note ord = date_order [OF assms(1) d] and a = date_of_day_correct [OF d(1)] and b = date_of_day_correct [OF d(2)]
  have y: "0 \<le> y1" "y1 \<le> y2" "y2 \<le> 9999" using ord assms(2,3) by (auto simp: year_of_def d)
  have f: "format_date (date_of_day m) = pad_decimal 4 (nat y1) @ ''-'' @ pad_decimal 2 (nat m1) @ ''-'' @ pad_decimal 2 (nat d1)"
    "format_date (date_of_day n) = pad_decimal 4 (nat y2) @ ''-'' @ pad_decimal 2 (nat m2) @ ''-'' @ pad_decimal 2 (nat d2)"
    using format_date_pad [OF d(1)] format_date_pad [OF d(2)] y by (simp_all add: d)
  consider "y1 < y2" | "y1 = y2" "m1 < m2" | "y1 = y2" "m1 = m2" "d1 < d2" using ord by blast
  then show ?thesis
  proof cases
    case 1
    then have "pad_decimal 4 (nat y1) < pad_decimal 4 (nat y2)" using y by (intro pad_decimal_less) (simp_all add: nat_less_iff)
    then show ?thesis unfolding f by (intro append_less) simp_all
  next
    case 2
    then have "pad_decimal 2 (nat m1) < pad_decimal 2 (nat m2)" using a b by (intro pad_decimal_less) (simp_all add: nat_less_iff)
    then show ?thesis unfolding f 2 append_same_less by (intro append_less) simp_all
  next
    case 3
    then have "pad_decimal 2 (nat d1) < pad_decimal 2 (nat d2)"
      using a b daysIn_pos(2) [of m2 y2] by (intro pad_decimal_less) (simp_all add: nat_less_iff)
    then show ?thesis unfolding f 3 append_same_less .
  qed
qed

lemma two_digits: "pad_decimal 2 n = [digit_char (n div 10 mod 10), digit_char (n mod 10)]"
  unfolding numeral_2_eq_2 by (simp only: pad_decimal.simps append_Nil append_Cons)

lemma getnum_pad: "n < 100 \<Longrightarrow> getnum (pad_decimal 2 n @ s) fixed = Some (int n, s)"
proof -
  assume "n < 100"
  then have "n div 10 mod 10 = n div 10" by simp
  moreover have "10 * int (n div 10) + int (n mod 10) = int n" by (metis mult_div_mod_eq of_nat_add of_nat_mult of_nat_numeral)
  moreover have "n div 10 < 10" "n mod 10 < 10" using \<open>n < 100\<close> by simp_all
  ultimately show ?thesis unfolding two_digits by (simp only: append_Cons append_Nil getnum.simps digit_char_digit) simp
qed

lemma parse_format_date:
  assumes "date_of_day n = (year, month, day)" "0 \<le> year" "year \<le> 9999"
  shows "parse_date (format_date (year, month, day) @ s) = Some ((year, month, day), s)"
proof -
  note a = date_of_day_correct [OF assms(1)]
  have b: "nat month < 100" "nat day < 100" "nat year < 10 ^ 4"
    using a(2-5) assms(2,3) daysIn_pos(2) [of month year] by (simp_all add: nat_less_iff)
  have y: "take 4 (pad_decimal 4 (nat year) @ r) = pad_decimal 4 (nat year)" "drop 4 (pad_decimal 4 (nat year) @ r) = r" for r by simp_all
  show ?thesis
    unfolding parse_date_def format_date_pad [OF assms] append_assoc y
    using a(2,3,4) assms(2) by (simp add: pad_decimal_digits digits_val_pad [OF b(3)] getnum_pad [OF b(1)] getnum_pad [OF b(2)])
qed

lemma time_Parse_Format_date:
  assumes "0 \<le> year_of n" "year_of n \<le> 9999"
  shows "time_Parse_date (format_date (date_of_day n)) = Some (n * day_nanos)"
proof -
  obtain year month day where d: "date_of_day n = (year, month, day)" by (metis prod_cases3)
  note a = date_of_day_correct [OF d]
  have "parse_date (format_date (year, month, day)) = Some ((year, month, day), [])"
    using parse_format_date [OF d, of "[]"] assms by (simp add: year_of_def d)
  then show ?thesis using a by (simp add: time_Parse_date_def d valid_day_def unix_nanos_def day_nanos_def)
qed

text \<open>The clock of a second of the day.\<close>

lemma quotient_less: "0 < k \<Longrightarrow> x < k * q \<Longrightarrow> x div k < q" for x k q :: int
  by (metis div_bounds mult_less_cancel_left_pos order_le_less_trans)

lemma clock_bounds:
  fixes s :: int
  assumes "0 \<le> s" "s < 86400"
  shows "0 \<le> s div 3600" "s div 3600 < 24" "0 \<le> s div 60 mod 60" "s div 60 mod 60 < 60" "0 \<le> s mod 60" "s mod 60 < 60"
    "s = s div 3600 * 3600 + s div 60 mod 60 * 60 + s mod 60"
proof -
  obtain q where q: "q = s div 60" by blast
  have "s div 3600 = q div 60" unfolding q by (simp add: zdiv_zmult2_eq [symmetric])
  moreover have "s = q * 60 + s mod 60" "q = q div 60 * 60 + q mod 60" by (simp_all add: q)
  moreover have "q * 60 = q div 60 * 3600 + q mod 60 * 60"
    using arg_cong [OF calculation(3), of "\<lambda>x. x * 60"] by (simp only: distrib_right mult.assoc)
  ultimately show "s = s div 3600 * 3600 + s div 60 mod 60 * 60 + s mod 60" by (simp only: q [symmetric])
  show "0 \<le> s div 3600" by (rule div_int_pos_iff [THEN iffD2]) (use assms in simp)
  show "s div 3600 < 24" by (rule quotient_less) (use assms(2) in simp_all)
  show "0 \<le> s div 60 mod 60" "0 \<le> s mod 60" by (rule pos_mod_sign, simp)+
  show "s div 60 mod 60 < 60" "s mod 60 < 60" by (rule pos_mod_bound, simp)+
qed

lemma format_clock_pad:
  assumes "0 \<le> s" "s < 86400"
  shows "format_clock s = pad_decimal 2 (nat (s div 3600)) @ '':'' @ pad_decimal 2 (nat (s div 60 mod 60)) @ '':'' @ pad_decimal 2 (nat (s mod 60))"
proof -
  have "appendInt k 2 = pad_decimal 2 (nat k)" if "0 \<le> k" "k < 100" for k
    using that appendInt_pad [of "nat k" 2] by (simp add: nat_less_iff)
  note pad = this
  note b = clock_bounds [OF assms]
  have "appendInt (s div 3600) 2 = pad_decimal 2 (nat (s div 3600))" by (rule pad [OF b(1) order_less_trans [OF b(2)]]) simp
  moreover have "appendInt (s div 60 mod 60) 2 = pad_decimal 2 (nat (s div 60 mod 60))" by (rule pad [OF b(3) order_less_trans [OF b(4)]]) simp
  moreover have "appendInt (s mod 60) 2 = pad_decimal 2 (nat (s mod 60))" by (rule pad [OF b(5) order_less_trans [OF b(6)]]) simp
  ultimately show ?thesis by (simp only: format_clock_def)
qed

lemma format_clock_less:
  assumes "0 \<le> s" "s < t" "t < 86400"
  shows "format_clock s < format_clock t"
proof -
  have less: "pad_decimal 2 (nat j) < pad_decimal 2 (nat k)" if "0 \<le> j" "j < k" "k < 60" for j k :: int
    using that by (intro pad_decimal_less) (simp_all add: nat_less_iff)
  obtain h1 m1 s1 h2 m2 s2 where v: "s div 3600 = h1" "s div 60 mod 60 = m1" "s mod 60 = s1" "t div 3600 = h2" "t div 60 mod 60 = m2" "t mod 60 = s2"
    by blast
  have "s < 86400" "0 \<le> t" using assms by simp_all
  note b = clock_bounds [OF assms(1) this(1), unfolded v] clock_bounds [OF this(2) assms(3), unfolded v]
  have "h1 < h2 \<or> h1 = h2 \<and> (m1 < m2 \<or> m1 = m2 \<and> s1 < s2)" using b assms(2) by linarith
  then consider "h1 < h2" | "h1 = h2" "m1 < m2" | "h1 = h2" "m1 = m2" "s1 < s2" by blast
  then show ?thesis
  proof cases
    case 1
    then show ?thesis unfolding format_clock_pad [OF assms(1) \<open>s < 86400\<close>] format_clock_pad [OF \<open>0 \<le> t\<close> assms(3)] v
      using less [of h1 h2] b by (intro append_less) simp_all
  next
    case 2
    then show ?thesis unfolding format_clock_pad [OF assms(1) \<open>s < 86400\<close>] format_clock_pad [OF \<open>0 \<le> t\<close> assms(3)] v 2 append_same_less
      using less [of m1 m2] b by (intro append_less) simp_all
  next
    case 3
    then show ?thesis unfolding format_clock_pad [OF assms(1) \<open>s < 86400\<close>] format_clock_pad [OF \<open>0 \<le> t\<close> assms(3)] v 3 append_same_less
      using less [of s1 s2] b by simp
  qed
qed

text \<open>Canonical instants: whole seconds of the years 0 to 9999.\<close>

definition canonical_instant :: "int \<Rightarrow> bool" where
  "canonical_instant t \<longleftrightarrow> t mod 1000000000 = 0 \<and> 0 \<le> year_of (t div day_nanos) \<and> year_of (t div day_nanos) \<le> 9999"

lemma instant_split:
  assumes "t mod 1000000000 = 0"
  shows "0 \<le> t mod day_nanos div 1000000000" "t mod day_nanos div 1000000000 < 86400"
    "t = t div day_nanos * day_nanos + t mod day_nanos div 1000000000 * 1000000000"
proof -
  have m: "0 \<le> t mod day_nanos" "t mod day_nanos < 86400 * 1000000000"
    using pos_mod_sign [of day_nanos t] pos_mod_bound [of day_nanos t] by (simp_all add: day_nanos_def)
  show "0 \<le> t mod day_nanos div 1000000000" using m(1) by (simp add: pos_imp_zdiv_nonneg_iff)
  show "t mod day_nanos div 1000000000 < 86400" using m(2) by (simp add: div_less_iff_less_mult)
  have "t mod day_nanos mod 1000000000 = 0"
    using assms mod_mod_cancel [of 1000000000 day_nanos t] by (simp add: day_nanos_def)
  then have "t mod day_nanos div 1000000000 * 1000000000 = t mod day_nanos"
    using div_mult_mod_eq [of "t mod day_nanos" 1000000000] by (simp only: add_0_right)
  then show "t = t div day_nanos * day_nanos + t mod day_nanos div 1000000000 * 1000000000" by (simp only: div_mult_mod_eq)
qed

lemma parse_format_clock:
  assumes "0 \<le> s" "s < 86400"
  obtains h m sec where "s = h * 3600 + m * 60 + sec" "0 \<le> h" "h < 24" "0 \<le> m" "m < 60" "0 \<le> sec" "sec < 60"
    "\<And>r b. getnum (format_clock s @ r) b = Some (h, '':'' @ pad_decimal 2 (nat m) @ '':'' @ pad_decimal 2 (nat sec) @ r)"
    "\<And>r b. getnum (pad_decimal 2 (nat m) @ r) b = Some (m, r)" "\<And>r b. getnum (pad_decimal 2 (nat sec) @ r) b = Some (sec, r)"
proof -
  note b = clock_bounds [OF assms]
  have g: "getnum (pad_decimal 2 (nat k) @ r) c = Some (k, r)" if "0 \<le> k" "k < 60" for k r c
    using getnum_pad [of "nat k" r c] that by (simp add: nat_less_iff)
  show thesis
  proof (rule that [OF b(7) b(1-6)])
    show "getnum (format_clock s @ r) c = Some (s div 3600, '':'' @ pad_decimal 2 (nat (s div 60 mod 60)) @ '':'' @ pad_decimal 2 (nat (s mod 60)) @ r)" for r c
      unfolding format_clock_pad [OF assms] append_assoc by (rule g) (use b(1,2) in linarith)+
  qed (rule g [OF b(3,4)], rule g [OF b(5,6)])
qed

lemma time_Parse_Format_RFC3339:
  assumes "canonical_instant t"
  shows "time_Parse_RFC3339Nano (time_Format_RFC3339 t) = Some t"
proof -
  obtain year month day where d: "date_of_day (t div day_nanos) = (year, month, day)" by (metis prod_cases3)
  have y: "0 \<le> year" "year \<le> 9999" and sec: "t mod 1000000000 = 0" using assms by (simp_all add: canonical_instant_def year_of_def d)
  note a = date_of_day_correct [OF d] and i = instant_split [OF sec]
  obtain h m s where c: "t mod day_nanos div 1000000000 = h * 3600 + m * 60 + s" "0 \<le> h" "h < 24" "0 \<le> m" "m < 60" "0 \<le> s" "s < 60"
    "\<And>r b. getnum (format_clock (t mod day_nanos div 1000000000) @ r) b =
       Some (h, '':'' @ pad_decimal 2 (nat m) @ '':'' @ pad_decimal 2 (nat s) @ r)"
    "\<And>r b. getnum (pad_decimal 2 (nat m) @ r) b = Some (m, r)" "\<And>r b. getnum (pad_decimal 2 (nat s) @ r) b = Some (s, r)"
    by (rule parse_format_clock [OF i(1,2)]) (rule that)
  have tail: "parse_fraction ''Z'' = (0, ''Z'')" "parse_zone ''Z'' = Some (0, [])" by (simp_all add: parse_fraction_def parse_zone_def)
  have "unix_nanos (t div day_nanos) h m s = t"
    using i(3) unfolding c(1) by (simp add: unix_nanos_def day_nanos_def algebra_simps)
  then show ?thesis
    unfolding time_Parse_RFC3339Nano_def time_Format_RFC3339_def time_Format_date_def d
    using a c(2-7) by (simp add: parse_format_date [OF d y] c(8-10) tail valid_day_def)
qed

lemma length_format_date:
  assumes "0 \<le> year_of n" "year_of n \<le> 9999"
  shows "length (format_date (date_of_day n)) = 10"
proof -
  obtain year month day where d: "date_of_day n = (year, month, day)" by (metis prod_cases3)
  show ?thesis unfolding d using format_date_pad [OF d] assms by (simp add: year_of_def d)
qed

lemma time_Format_RFC3339_less:
  assumes "canonical_instant t" "canonical_instant u" "t < u"
  shows "time_Format_RFC3339 t < time_Format_RFC3339 u"
proof -
  note y = assms(1,2) [unfolded canonical_instant_def]
  have "t div day_nanos \<le> u div day_nanos" using assms(3) by (intro zdiv_mono1) (simp_all add: day_nanos_def)
  then consider "t div day_nanos < u div day_nanos" | "t div day_nanos = u div day_nanos" by linarith
  then show ?thesis
  proof cases
    case 1
    then have "time_Format_date t < time_Format_date u" unfolding time_Format_date_def using y by (intro format_date_less) simp_all
    then show ?thesis unfolding time_Format_RFC3339_def
      using y by (intro append_less) (simp_all add: time_Format_date_def length_format_date)
  next
    case 2
    let ?s = "t mod day_nanos div 1000000000" and ?v = "u mod day_nanos div 1000000000"
    note i = instant_split [of t] and j = instant_split [of u]
    have s: "?s < ?v" using i(3) j(3) y 2 assms(3) by simp
    then have less: "format_clock ?s < format_clock ?v" using i j y by (intro format_clock_less) simp_all
    have "length (format_clock ?s) = length (format_clock ?v)"
      unfolding format_clock_pad [OF i(1,2) [OF conjunct1 [OF y(1)]]] format_clock_pad [OF j(1,2) [OF conjunct1 [OF y(2)]]]
      by (simp only: length_append length_pad_decimal)
    then show ?thesis using less by (simp add: time_Format_RFC3339_def time_Format_date_def 2 append_less)
  qed
qed

lemma year_of_mono: "m \<le> n \<Longrightarrow> year_of m \<le> year_of n"
proof (cases "m = n")
  case False
  assume "m \<le> n"
  with False have "m < n" by simp
  obtain y1 m1 d1 y2 m2 d2 where d: "date_of_day m = (y1, m1, d1)" "date_of_day n = (y2, m2, d2)" by (metis prod_cases3)
  from date_order [OF \<open>m < n\<close> d] show ?thesis by (auto simp: year_of_def d)
qed simp

text \<open>Every text that parses as a date is the canonical text of its day.\<close>

lemma date_of_day_unique:
  assumes "1 \<le> month" "month \<le> 12" "1 \<le> day" "day \<le> daysIn month year"
  shows "date_of_day (unix_day year month day) = (year, month, day)"
proof -
  obtain y m d where e: "date_of_day (unix_day year month day) = (y, m, d)" by (metis prod_cases3)
  note a = date_of_day_correct [OF e]
  note A = day_bounds [OF a(2-5), unfolded a(1)] and B = day_bounds [OF assms]
  have "y = year"
  proof (rule ccontr)
    assume "y \<noteq> year"
    then have "year_start (y + 1) \<le> year_start year \<or> year_start (year + 1) \<le> year_start y" by (metis year_start_mono add1_zle_eq linorder_neqE)
    with A(1,2) B(1,2) show False by linarith
  qed
  moreover have "m = month"
  proof (rule ccontr)
    assume "m \<noteq> month"
    then have "daysBefore (m + 1) year \<le> daysBefore month year \<or> daysBefore (month + 1) year \<le> daysBefore m year"
      using a(2) assms(1) by (metis daysBefore_mono add1_zle_eq linorder_neqE zle_add1_eq_le order_trans add_increasing2 zero_le_one)
    with A(3,4) B(3,4) \<open>y = year\<close> show False by auto
  qed
  ultimately show ?thesis using e a(1) by (simp add: unix_day_year_start)
qed

lemma digit_val_pad: "is_digit c \<Longrightarrow> digit_char (nat (digit_val c)) = c \<and> 0 \<le> digit_val c \<and> digit_val c < 10"
  by (auto simp: is_digit_def digit_val_def digit_char_def nat_diff_distrib)

lemma pad_digits_val:
  assumes "list_all is_digit ds"
  shows "pad_decimal (length ds) (nat (digits_val ds)) = ds \<and> 0 \<le> digits_val ds \<and> digits_val ds < 10 ^ length ds"
  using assms
proof (induction ds rule: rev_induct)
  case (snoc c ds)
  then have IH: "pad_decimal (length ds) (nat (digits_val ds)) = ds" "0 \<le> digits_val ds" "digits_val ds < 10 ^ length ds"
    and c: "digit_char (nat (digit_val c)) = c" "0 \<le> digit_val c" "digit_val c < 10" using digit_val_pad [of c] by simp_all
  have v: "digits_val (ds @ [c]) = 10 * digits_val ds + digit_val c" by (simp add: digits_val_def)
  have n: "nat (digits_val (ds @ [c])) = 10 * nat (digits_val ds) + nat (digit_val c)"
    unfolding v using IH(2) c(2) by (simp add: nat_add_distrib nat_mult_distrib)
  have "nat (digit_val c) < 10" using c by simp
  then have "nat (digits_val (ds @ [c])) div 10 = nat (digits_val ds)" "nat (digits_val (ds @ [c])) mod 10 = nat (digit_val c)"
    unfolding n by simp_all
  then show ?case using IH c by (simp add: v)
qed (simp add: digits_val_def)

lemma getnum_fixed:
  assumes "getnum s True = Some (n, r)"
  shows "s = pad_decimal 2 (nat n) @ r \<and> 0 \<le> n \<and> n < 100"
proof -
  from assms obtain a b where s: "s = a # b # r" "is_digit a" "is_digit b" "n = 10 * digit_val a + digit_val b"
    by (cases "(s, True)" rule: getnum.cases) (auto split: if_splits)
  from pad_digits_val [of "[a, b]"] s(2-4) show ?thesis unfolding s(1) by (simp add: digits_val_def flip: numeral_2_eq_2)
qed

lemma time_Parse_date_canonical:
  assumes "time_Parse_date s = Some t"
  shows "t = t div day_nanos * day_nanos" "s = format_date (date_of_day (t div day_nanos))"
    "0 \<le> year_of (t div day_nanos)" "year_of (t div day_nanos) \<le> 9999"
proof -
  obtain year month day where p: "parse_date s = Some ((year, month, day), [])" "valid_day (year, month, day)"
    "t = unix_nanos (unix_day year month day) 0 0 0"
    using assms by (auto simp: time_Parse_date_def split: option.splits prod.splits list.splits if_splits)
  let ?n = "unix_day year month day"
  have t: "t = ?n * day_nanos" by (simp add: p(3) unix_nanos_def day_nanos_def)
  then have n: "t div day_nanos = ?n" by (simp add: day_nanos_def)
  obtain s1 s2 s3 where q: "list_all is_digit (take 4 s)" "4 \<le> length s" "drop 4 s = CHR ''-'' # s1" "getnum s1 True = Some (month, CHR ''-'' # s2)"
    "1 \<le> month" "month \<le> 12" "getnum s2 True = Some (day, [])" "year = digits_val (take 4 s)"
    using p(1) unfolding parse_date_def
    by (auto simp: not_less bind_eq_Some_conv elim!: skip_char.elims split: if_splits prod.splits)
  have len: "length (take 4 s) = 4" using q(2) by simp
  note yr = pad_digits_val [OF q(1), unfolded len, folded q(8)]
  have "s = take 4 s @ drop 4 s" by simp
  also have "\<dots> = pad_decimal 4 (nat year) @ ''-'' @ pad_decimal 2 (nat month) @ ''-'' @ pad_decimal 2 (nat day)"
    using yr q(3) getnum_fixed [OF q(4)] getnum_fixed [OF q(7)] by simp
  finally have s: "s = pad_decimal 4 (nat year) @ ''-'' @ pad_decimal 2 (nat month) @ ''-'' @ pad_decimal 2 (nat day)" .
  have d: "date_of_day ?n = (year, month, day)" using q(5,6) p(2) by (intro date_of_day_unique) (simp_all add: valid_day_def)
  have y: "0 \<le> year" "year \<le> 9999" using yr by simp_all
  show "t = t div day_nanos * day_nanos" unfolding n by (rule t)
  show "s = format_date (date_of_day (t div day_nanos))" unfolding n d format_date_pad [OF d y] by (rule s)
  show "0 \<le> year_of (t div day_nanos)" "year_of (t div day_nanos) \<le> 9999" using y by (simp_all add: n d year_of_def)
qed

end
