(* ===== verification/Checkpoint_Store.thy ===== *)
theory Checkpoint_Store
  imports Revenue_Store Go_Calendar
begin

text \<open>
  Daily checkpoints (\<open>store/sqlite/checkpoints.go\<close>).  A checkpoint of a completed day pins the ledger head before the next day and
  the hash of the checkpoint before it; \<open>FinalizeCompletedCheckpoints\<close> writes the missing days and \<open>VerifyCheckpoints\<close> replays the
  chain.  The store selects and orders rows by text, so the proofs rest on the order of canonical texts (\<open>Go_Calendar\<close>).
  The lemmas show that finalizing keeps the chain verifiable and leaves no completed day without a checkpoint, and, for every
  operation that appends entries only after the last finalized day (the locale \<open>ledger_appender\<close>), that the chain stays verifiable
  under appends.
\<close>

subsection \<open>The operations\<close>

definition insert_checkpoint :: "registry_db \<Rightarrow> CheckpointRecord \<Rightarrow> store_error + registry_db" where
  "insert_checkpoint db record =
     (let c = cpr_Checkpoint record in
      if cp_ThroughLedgerIndex c \<ge> 0 \<and> cp_EntryCount c \<ge> 0 \<and> length (cpr_Signature record) = 64 \<and>
         cp_CheckpointDate c \<notin> (cp_CheckpointDate \<circ> cpr_Checkpoint) ` set (checkpoints db) \<and>
         cp_CheckpointHash c \<notin> (cp_CheckpointHash \<circ> cpr_Checkpoint) ` set (checkpoints db)
      then Inr (db\<lparr>checkpoints := checkpoints db @ [record]\<rparr>)
      else Inl ConstraintFailed)"

definition ledgerHeadBeforeTx :: "registry_db \<Rightarrow> string \<Rightarrow> store_error + LedgerHead" where
  "ledgerHeadBeforeTx db endExclusive =
     (let rows = filter (\<lambda>e. le_AcceptedAt e < endExclusive) (ledger_entries db);
          index = (if rows = [] then 0 else Max (le_LedgerIndex ` set rows))
      in bindR (if index > 0
           then (case find (\<lambda>e. le_LedgerIndex e = index) (ledger_entries db) of
                   None \<Rightarrow> Inl CheckpointHeadMissing
                 | Some e \<Rightarrow> Inr (le_EntryHash e))
           else Inr ZeroHash)
         (\<lambda>hash. Inr \<lparr>lh_LedgerIndex = index, lh_EntryCount = int (length rows), lh_EntryHash = hash, lh_AcceptedAt = []\<rparr>))"

definition day_checkpoint :: "(bytes \<Rightarrow> bytes) \<Rightarrow> string \<Rightarrow> string \<Rightarrow> string \<Rightarrow> int \<Rightarrow> LedgerHead \<Rightarrow> string \<Rightarrow> Checkpoint" where
  "day_checkpoint H registryScope registryKeyID generatedAt checkpointDay head previousCheckpointHash =
     (let checkpoint = \<lparr>cp_RegistryScope = registryScope, cp_CheckpointDate = time_Format_date checkpointDay,
            cp_ThroughLedgerIndex = lh_LedgerIndex head, cp_EntryCount = lh_EntryCount head,
            cp_LedgerHeadHash = lh_EntryHash head, cp_PreviousCheckpointHash = previousCheckpointHash,
            cp_CheckpointHash = [], cp_GeneratedAt = generatedAt, cp_RegistryKeyID = registryKeyID,
            cp_RegistryPublicKey = [], cp_Signature = []\<rparr>
      in checkpoint\<lparr>cp_CheckpointHash := Digest H (CheckpointMessage checkpoint)\<rparr>)"

text \<open>The loop over the days from \<open>checkpointDay\<close> to \<open>targetDate\<close>.\<close>

function finalize_loop ::
  "(bytes \<Rightarrow> bytes) \<Rightarrow> (Checkpoint \<Rightarrow> bytes option) \<Rightarrow> string \<Rightarrow> string \<Rightarrow> string \<Rightarrow> int
    \<Rightarrow> registry_db \<Rightarrow> int \<Rightarrow> string \<Rightarrow> CheckpointRecord list \<Rightarrow> store_error + registry_db \<times> CheckpointRecord list" where
  "finalize_loop H signCheckpoint scope keyID generatedAt targetDate db checkpointDay previousCheckpointHash created =
     (if checkpointDay > targetDate then Inr (db, created)
      else
        case ledgerHeadBeforeTx db (time_Format_RFC3339 (AddDays checkpointDay 1)) of Inl err \<Rightarrow> Inl err | Inr head \<Rightarrow>
        let checkpoint = day_checkpoint H scope keyID generatedAt checkpointDay head previousCheckpointHash in
        case signCheckpoint checkpoint of None \<Rightarrow> Inl SigningFailed | Some signature \<Rightarrow>
        let record = \<lparr>cpr_Checkpoint = checkpoint, cpr_Signature = signature\<rparr> in
        case insert_checkpoint db record of Inl err \<Rightarrow> Inl err | Inr db \<Rightarrow>
        finalize_loop H signCheckpoint scope keyID generatedAt targetDate db (AddDays checkpointDay 1)
          (cp_CheckpointHash checkpoint) (created @ [record]))"
  by auto
termination
  by (relation "measure (\<lambda>(_, _, _, _, _, target, _, day, _). nat (target + 1 - day))") (auto simp: AddDays_def day_nanos_def)

declare finalize_loop.simps [simp del]

definition FinalizeCompletedCheckpoints ::
  "(bytes \<Rightarrow> bytes) \<Rightarrow> registry_db \<Rightarrow> int \<Rightarrow> string \<Rightarrow> string \<Rightarrow> (Checkpoint \<Rightarrow> bytes option)
    \<Rightarrow> store_error + registry_db \<times> CheckpointRecord list" where
  "FinalizeCompletedCheckpoints H db now registryScope registryKeyID signCheckpoint =
     (let now = Truncate_second now; targetDate = AddDays (dayStart now) (- 1) in
      case registry_identity db of
        None \<Rightarrow> Inl ErrInconsistentState
      | Some identity \<Rightarrow>
          bindR (from_option ErrInconsistentState (time_Parse_RFC3339Nano (sri_CreatedAt identity))) (\<lambda>createdAt.
          bindR (case select_max (cp_CheckpointDate \<circ> cpr_Checkpoint) (checkpoints db) of
              None \<Rightarrow> Inr (dayStart createdAt, ZeroHash)
            | Some latest \<Rightarrow>
                bindR (from_option ErrInconsistentState (time_Parse_date (cp_CheckpointDate (cpr_Checkpoint latest)))) (\<lambda>parsedLatestDate.
                Inr (AddDays parsedLatestDate 1, cp_CheckpointHash (cpr_Checkpoint latest))))
          (\<lambda>(nextDate, previousCheckpointHash).
            if nextDate > targetDate then Inr (db, [])
            else finalize_loop H signCheckpoint registryScope registryKeyID (time_Format_RFC3339 now) targetDate db
              nextDate previousCheckpointHash [])))"

definition Checkpoint_query :: "registry_db \<Rightarrow> string \<Rightarrow> store_error + CheckpointRecord" where
  "Checkpoint_query db checkpointDate =
     from_option ErrNotFound (find (\<lambda>r. cp_CheckpointDate (cpr_Checkpoint r) = checkpointDate) (checkpoints db))"

subsection \<open>The verification\<close>

text \<open>\<open>verify\<close> stands for \<open>ed25519.Verify\<close> under the registry's public key.\<close>

definition verify_checkpoint ::
  "(bytes \<Rightarrow> bytes) \<Rightarrow> (bytes \<Rightarrow> bytes \<Rightarrow> bool) \<Rightarrow> string \<Rightarrow> string \<Rightarrow> registry_db \<Rightarrow> string \<Rightarrow> int option \<Rightarrow> CheckpointRecord \<Rightarrow> store_error + int" where
  "verify_checkpoint H verify registryKeyID registryScope db previousHash previousDate record =
     (let checkpoint = cpr_Checkpoint record; fail = CheckpointVerification (cp_CheckpointDate checkpoint) in
      bindR (from_option fail (time_Parse_date (cp_CheckpointDate checkpoint))) (\<lambda>checkpointDate.
      if (case previousDate of None \<Rightarrow> False | Some previous \<Rightarrow> checkpointDate \<noteq> AddDays previous 1) then Inl fail
      else if cp_RegistryKeyID checkpoint \<noteq> registryKeyID then Inl fail
      else if cp_RegistryScope checkpoint \<noteq> registryScope then Inl fail
      else if cp_PreviousCheckpointHash checkpoint \<noteq> previousHash then Inl fail
      else if cp_CheckpointHash checkpoint \<noteq> Digest H (CheckpointMessage checkpoint) then Inl fail
      else if \<not> verify (CheckpointMessage checkpoint) (cpr_Signature record) then Inl fail
      else bindR (ledgerHeadBeforeTx db (time_Format_RFC3339 (AddDays checkpointDate 1))) (\<lambda>expectedHead.
        if cp_ThroughLedgerIndex checkpoint \<noteq> lh_LedgerIndex expectedHead \<or> cp_EntryCount checkpoint \<noteq> lh_EntryCount expectedHead \<or>
           cp_LedgerHeadHash checkpoint \<noteq> lh_EntryHash expectedHead then Inl fail
        else Inr checkpointDate)))"

fun verify_checkpoints_loop ::
  "(bytes \<Rightarrow> bytes) \<Rightarrow> (bytes \<Rightarrow> bytes \<Rightarrow> bool) \<Rightarrow> string \<Rightarrow> string \<Rightarrow> registry_db \<Rightarrow> string \<Rightarrow> int option \<Rightarrow> CheckpointRecord list
    \<Rightarrow> store_error + unit" where
  "verify_checkpoints_loop H verify keyID scope db previousHash previousDate [] = Inr ()"
| "verify_checkpoints_loop H verify keyID scope db previousHash previousDate (record # records) =
     bindR (verify_checkpoint H verify keyID scope db previousHash previousDate record) (\<lambda>checkpointDate.
       verify_checkpoints_loop H verify keyID scope db (cp_CheckpointHash (cpr_Checkpoint record)) (Some checkpointDate) records)"

definition VerifyCheckpoints ::
  "(bytes \<Rightarrow> bytes) \<Rightarrow> registry_db \<Rightarrow> (bytes \<Rightarrow> bytes \<Rightarrow> bool) \<Rightarrow> string \<Rightarrow> string \<Rightarrow> store_error + unit" where
  "VerifyCheckpoints H db verify registryKeyID registryScope =
     verify_checkpoints_loop H verify registryKeyID registryScope db ZeroHash None
       (sort_key (cp_CheckpointDate \<circ> cpr_Checkpoint) (checkpoints db))"

subsection \<open>Chains of checkpoints\<close>

abbreviation checkpoint_date :: "CheckpointRecord \<Rightarrow> string" where
  "checkpoint_date \<equiv> cp_CheckpointDate \<circ> cpr_Checkpoint"

abbreviation day_text :: "int \<Rightarrow> string" where
  "day_text n \<equiv> format_date (date_of_day n)"

text \<open>What \<open>VerifyCheckpoints\<close> checks of the checkpoint of day \<open>n\<close>.\<close>

definition checkpoint_ok ::
  "(bytes \<Rightarrow> bytes) \<Rightarrow> (bytes \<Rightarrow> bytes \<Rightarrow> bool) \<Rightarrow> string \<Rightarrow> string \<Rightarrow> registry_db \<Rightarrow> string \<Rightarrow> int \<Rightarrow> CheckpointRecord \<Rightarrow> bool" where
  "checkpoint_ok H verify keyID scope db previousHash n record \<longleftrightarrow>
     (let checkpoint = cpr_Checkpoint record in
      cp_CheckpointDate checkpoint = day_text n \<and> 0 \<le> year_of n \<and> year_of n \<le> 9999 \<and>
      cp_RegistryKeyID checkpoint = keyID \<and> cp_RegistryScope checkpoint = scope \<and>
      cp_PreviousCheckpointHash checkpoint = previousHash \<and> cp_CheckpointHash checkpoint = Digest H (CheckpointMessage checkpoint) \<and>
      verify (CheckpointMessage checkpoint) (cpr_Signature record) \<and>
      ledgerHeadBeforeTx db (time_Format_RFC3339 ((n + 1) * day_nanos)) =
        Inr \<lparr>lh_LedgerIndex = cp_ThroughLedgerIndex checkpoint, lh_EntryCount = cp_EntryCount checkpoint,
          lh_EntryHash = cp_LedgerHeadHash checkpoint, lh_AcceptedAt = []\<rparr>)"

fun checkpoint_chain ::
  "(bytes \<Rightarrow> bytes) \<Rightarrow> (bytes \<Rightarrow> bytes \<Rightarrow> bool) \<Rightarrow> string \<Rightarrow> string \<Rightarrow> registry_db \<Rightarrow> string \<Rightarrow> int \<Rightarrow> CheckpointRecord list \<Rightarrow> bool" where
  "checkpoint_chain H verify keyID scope db previousHash n [] \<longleftrightarrow> True"
| "checkpoint_chain H verify keyID scope db previousHash n (r # rs) \<longleftrightarrow>
     checkpoint_ok H verify keyID scope db previousHash n r \<and>
     checkpoint_chain H verify keyID scope db (cp_CheckpointHash (cpr_Checkpoint r)) (n + 1) rs"

lemma AddDays_day: "AddDays (n * day_nanos) k = (n + k) * day_nanos"
  by (simp add: AddDays_def distrib_right)

lemma day_nanos_pos [simp]: "0 < day_nanos" "day_nanos \<noteq> 0"
  by (simp_all add: day_nanos_def)

lemma ledgerHeadBeforeTx_AcceptedAt: "ledgerHeadBeforeTx db t = Inr head \<Longrightarrow> lh_AcceptedAt head = []"
  by (auto simp: ledgerHeadBeforeTx_def Let_def result_simps)

lemma verify_checkpoint_iff:
  "verify_checkpoint H verify keyID scope db previousHash previousDate record = Inr d \<longleftrightarrow>
     (\<exists>n. d = n * day_nanos \<and> checkpoint_ok H verify keyID scope db previousHash n record \<and>
       (previousDate = None \<or> (\<exists>p. previousDate = Some p \<and> d = AddDays p 1)))" (is "?L \<longleftrightarrow> ?R")
proof
  assume ?L
  then obtain head where v: "time_Parse_date (cp_CheckpointDate (cpr_Checkpoint record)) = Some d"
    "ledgerHeadBeforeTx db (time_Format_RFC3339 (AddDays d 1)) = Inr head"
    "previousDate = None \<or> (\<exists>p. previousDate = Some p \<and> d = AddDays p 1)"
    and m: "cp_RegistryKeyID (cpr_Checkpoint record) = keyID" "cp_RegistryScope (cpr_Checkpoint record) = scope"
    "cp_PreviousCheckpointHash (cpr_Checkpoint record) = previousHash"
    "cp_CheckpointHash (cpr_Checkpoint record) = Digest H (CheckpointMessage (cpr_Checkpoint record))"
    "verify (CheckpointMessage (cpr_Checkpoint record)) (cpr_Signature record)"
    "cp_ThroughLedgerIndex (cpr_Checkpoint record) = lh_LedgerIndex head" "cp_EntryCount (cpr_Checkpoint record) = lh_EntryCount head"
    "cp_LedgerHeadHash (cpr_Checkpoint record) = lh_EntryHash head"
    by (auto simp: verify_checkpoint_def Let_def result_simps split: if_splits option.splits)
  note c = time_Parse_date_canonical [OF v(1)]
  have "AddDays d 1 = (d div day_nanos + 1) * day_nanos" using AddDays_day [of "d div day_nanos" 1] c(1) by simp
  then have "checkpoint_ok H verify keyID scope db previousHash (d div day_nanos) record"
    using v(2) m c(2-4) ledgerHeadBeforeTx_AcceptedAt [OF v(2)] by (cases head) (simp add: checkpoint_ok_def Let_def)
  then show ?R using c(1) v(3) by blast
next
  assume ?R
  then obtain n where n: "d = n * day_nanos" "checkpoint_ok H verify keyID scope db previousHash n record"
    "previousDate = None \<or> (\<exists>p. previousDate = Some p \<and> d = AddDays p 1)" by blast
  note c = n(2) [unfolded checkpoint_ok_def Let_def]
  have "time_Parse_date (cp_CheckpointDate (cpr_Checkpoint record)) = Some d"
    using c time_Parse_Format_date [of n] by (simp add: n(1))
  moreover have "AddDays d 1 = (n + 1) * day_nanos" by (simp add: n(1) AddDays_day)
  ultimately show ?L using c n(3) by (auto simp: verify_checkpoint_def Let_def)
qed

lemma verify_checkpoints_loop_iff:
  "verify_checkpoints_loop H verify keyID scope db previousHash (Some ((n - 1) * day_nanos)) rs = Inr () \<longleftrightarrow>
     checkpoint_chain H verify keyID scope db previousHash n rs"
proof (induction rs arbitrary: previousHash n)
  case (Cons r rs)
  have d: "d = AddDays ((n - 1) * day_nanos) 1 \<longleftrightarrow> d = n * day_nanos" for d using AddDays_day [of "n - 1" 1] by simp
  have "verify_checkpoint H verify keyID scope db previousHash (Some ((n - 1) * day_nanos)) r = Inr d \<longleftrightarrow>
      d = n * day_nanos \<and> checkpoint_ok H verify keyID scope db previousHash n r" for d
    unfolding verify_checkpoint_iff by (auto simp: d)
  then show ?case using Cons.IH [of _ "n + 1"] by (auto simp: result_simps)
qed simp

lemma VerifyCheckpoints_iff:
  "VerifyCheckpoints H db verify keyID scope = Inr () \<longleftrightarrow>
     (\<exists>n. checkpoint_chain H verify keyID scope db ZeroHash n (sort_key checkpoint_date (checkpoints db)))"
proof (cases "sort_key checkpoint_date (checkpoints db)")
  case (Cons r rs)
  have "verify_checkpoints_loop H verify keyID scope db h (Some (n * day_nanos)) rs = Inr () \<longleftrightarrow>
      checkpoint_chain H verify keyID scope db h (n + 1) rs" for h n
    using verify_checkpoints_loop_iff [of H verify keyID scope db h "n + 1" rs] by simp
  then show ?thesis by (auto simp: VerifyCheckpoints_def Cons result_simps verify_checkpoint_iff)
qed (simp add: VerifyCheckpoints_def)

lemma checkpoint_chain_snoc:
  "checkpoint_chain H verify keyID scope db h n (rs @ [r]) \<longleftrightarrow> checkpoint_chain H verify keyID scope db h n rs \<and>
     checkpoint_ok H verify keyID scope db (if rs = [] then h else cp_CheckpointHash (cpr_Checkpoint (last rs))) (n + int (length rs)) r"
  by (induction rs arbitrary: h n) (auto simp: algebra_simps)

lemma checkpoint_chain_nth:
  "checkpoint_chain H verify keyID scope db h n rs \<Longrightarrow> i < length rs \<Longrightarrow>
     cp_CheckpointDate (cpr_Checkpoint (rs ! i)) = day_text (n + int i) \<and> 0 \<le> year_of (n + int i) \<and> year_of (n + int i) \<le> 9999"
proof (induction rs arbitrary: h n i)
  case (Cons r rs)
  show ?case
  proof (cases i)
    case 0
    then show ?thesis using Cons.prems by (simp add: checkpoint_ok_def Let_def)
  next
    case (Suc j)
    then have j: "n + int i = n + 1 + int j" "(r # rs) ! i = rs ! j" "j < length rs" using Cons.prems(2) by simp_all
    from Cons.prems(1) have "checkpoint_chain H verify keyID scope db (cp_CheckpointHash (cpr_Checkpoint r)) (n + 1) rs" by simp
    from Cons.IH [OF this j(3)] show ?thesis unfolding j(1,2) .
  qed
qed simp

lemma checkpoint_chain_cong:
  assumes "\<And>m. n \<le> m \<Longrightarrow> m < n + int (length rs) \<Longrightarrow>
      ledgerHeadBeforeTx db' (time_Format_RFC3339 ((m + 1) * day_nanos)) = ledgerHeadBeforeTx db (time_Format_RFC3339 ((m + 1) * day_nanos))"
  shows "checkpoint_chain H verify keyID scope db' h n rs \<longleftrightarrow> checkpoint_chain H verify keyID scope db h n rs"
  using assms
proof (induction rs arbitrary: h n)
  case (Cons r rs)
  have "checkpoint_ok H verify keyID scope db' h n r = checkpoint_ok H verify keyID scope db h n r"
    using Cons.prems [of n] by (simp add: checkpoint_ok_def Let_def)
  moreover have "checkpoint_chain H verify keyID scope db' g (n + 1) rs = checkpoint_chain H verify keyID scope db g (n + 1) rs" for g
    using Cons.prems by (intro Cons.IH) simp
  ultimately show ?case by simp
qed simp

subsection \<open>Rows ordered by text\<close>

lemma sort_key_snoc:
  assumes "\<forall>y \<in> set xs. f y \<le> f x"
  shows "sort_key f (xs @ [x]) = sort_key f xs @ [x]"
proof (rule properties_for_sort_key)
  show "mset (sort_key f xs @ [x]) = mset (xs @ [x])" by simp
  show "filter (\<lambda>y. f k = f y) (sort_key f xs @ [x]) = filter (\<lambda>y. f k = f y) (xs @ [x])" if "k \<in> set (sort_key f xs @ [x])" for k
    using sort_key_stable [of f "f k" xs] by (simp add: eq_commute [of "f k"])
  show "sorted (map f (sort_key f xs @ [x]))" using assms by (simp add: sorted_append)
qed

lemma select_max_last: "select_max f rows = (if rows = [] then None else Some (last (sort_key f rows)))"
  by (simp add: select_max_def)

lemma sort_key_Nil_iff [simp]: "sort_key f xs = [] \<longleftrightarrow> xs = []"
  by (metis length_0_conv length_sort)

lemma ledgerHeadBeforeTx_cong: "ledger_entries db' = ledger_entries db \<Longrightarrow> ledgerHeadBeforeTx db' = ledgerHeadBeforeTx db"
  unfolding ledgerHeadBeforeTx_def by (rule ext) (simp only:)

text \<open>The chain of a table: its rows by date, starting at a day of the years 0 to 9999.\<close>

definition chain_from ::
  "(bytes \<Rightarrow> bytes) \<Rightarrow> (bytes \<Rightarrow> bytes \<Rightarrow> bool) \<Rightarrow> string \<Rightarrow> string \<Rightarrow> int \<Rightarrow> registry_db \<Rightarrow> bool" where
  "chain_from H verify keyID scope n db \<longleftrightarrow>
     checkpoint_chain H verify keyID scope db ZeroHash n (sort_key checkpoint_date (checkpoints db))"

lemma chain_dates:
  assumes "chain_from H verify keyID scope n db" "r \<in> set (checkpoints db)"
  obtains m where "n \<le> m" "m < n + int (length (checkpoints db))" "checkpoint_date r = day_text m" "0 \<le> year_of m" "year_of m \<le> 9999"
proof -
  let ?S = "sort_key checkpoint_date (checkpoints db)"
  from assms(2) obtain i where "i < length ?S" "?S ! i = r" by (metis in_set_conv_nth set_sort)
  with checkpoint_chain_nth [OF assms(1) [unfolded chain_from_def], of i] that [of "n + int i"] show thesis by simp
qed

lemma chain_latest:
  assumes "chain_from H verify keyID scope n db" "select_max checkpoint_date (checkpoints db) = Some latest"
  shows "time_Parse_date (checkpoint_date latest) = Some ((n + int (length (checkpoints db)) - 1) * day_nanos)"
    "latest = last (sort_key checkpoint_date (checkpoints db))" "checkpoints db \<noteq> []"
    "0 \<le> year_of (n + int (length (checkpoints db)) - 1)"
proof -
  let ?S = "sort_key checkpoint_date (checkpoints db)"
  show ne: "checkpoints db \<noteq> []" and l: "latest = last ?S" using assms(2) by (auto simp: select_max_last split: if_splits)
  then have "latest = ?S ! (length (checkpoints db) - 1)" "length (checkpoints db) - 1 < length ?S" by (simp_all add: last_conv_nth)
  with checkpoint_chain_nth [OF assms(1) [unfolded chain_from_def] this(2)] ne
  have d: "checkpoint_date latest = day_text (n + int (length (checkpoints db)) - 1)" "0 \<le> year_of (n + int (length (checkpoints db)) - 1)"
    "year_of (n + int (length (checkpoints db)) - 1) \<le> 9999" by (simp_all add: of_nat_diff algebra_simps Suc_leI)
  show "time_Parse_date (checkpoint_date latest) = Some ((n + int (length (checkpoints db)) - 1) * day_nanos)"
    unfolding d(1) using d(2,3) by (rule time_Parse_Format_date)
  show "0 \<le> year_of (n + int (length (checkpoints db)) - 1)" by (rule d(2))
qed

lemma chain_append:
  assumes "chain_from H verify keyID scope n db"
    and "checkpoint_ok H verify keyID scope db (case select_max checkpoint_date (checkpoints db) of None \<Rightarrow> ZeroHash
        | Some latest \<Rightarrow> cp_CheckpointHash (cpr_Checkpoint latest)) (n + int (length (checkpoints db))) r"
  shows "chain_from H verify keyID scope n (db\<lparr>checkpoints := checkpoints db @ [r]\<rparr>)"
    "select_max checkpoint_date (checkpoints db @ [r]) = Some r"
proof -
  let ?db = "db\<lparr>checkpoints := checkpoints db @ [r]\<rparr>" and ?k = "n + int (length (checkpoints db))"
  have r: "checkpoint_date r = day_text ?k" "year_of ?k \<le> 9999" using assms(2) by (simp_all add: checkpoint_ok_def Let_def)
  have "checkpoint_date q \<le> checkpoint_date r" if q: "q \<in> set (checkpoints db)" for q
  proof -
    obtain m where m: "m < ?k" "checkpoint_date q = day_text m" "0 \<le> year_of m" by (rule chain_dates [OF assms(1) q])
    show ?thesis unfolding m(2) r(1) using format_date_less [OF m(1,3) r(2)] by simp
  qed
  then have sorted: "sort_key checkpoint_date (checkpoints db @ [r]) = sort_key checkpoint_date (checkpoints db) @ [r]"
    by (intro sort_key_snoc) blast
  then show "select_max checkpoint_date (checkpoints db @ [r]) = Some r" by (simp add: select_max_last)
  have same: "ledgerHeadBeforeTx ?db = ledgerHeadBeforeTx db" by (rule ledgerHeadBeforeTx_cong) simp
  have "checkpoint_chain H verify keyID scope ?db h k rs = checkpoint_chain H verify keyID scope db h k rs" for h k rs
    by (rule checkpoint_chain_cong) (simp add: same)
  moreover have "checkpoint_ok H verify keyID scope ?db = checkpoint_ok H verify keyID scope db"
    by (intro ext) (simp only: checkpoint_ok_def same)
  ultimately show "chain_from H verify keyID scope n ?db"
    using assms by (simp add: chain_from_def sorted checkpoint_chain_snoc select_max_last split: if_splits)
qed

subsection \<open>Finalizing\<close>

text \<open>The signer the service passes: its signatures verify under the registry's key.\<close>

definition signs :: "(bytes \<Rightarrow> bytes \<Rightarrow> bool) \<Rightarrow> (Checkpoint \<Rightarrow> bytes option) \<Rightarrow> bool" where
  "signs verify signCheckpoint \<longleftrightarrow> (\<forall>c signature. signCheckpoint c = Some signature \<longrightarrow> verify (CheckpointMessage c) signature)"

lemma day_checkpoint_ok:
  assumes "ledgerHeadBeforeTx db (time_Format_RFC3339 ((n + 1) * day_nanos)) = Inr head" "0 \<le> year_of n" "year_of n \<le> 9999"
    and "verify (CheckpointMessage (day_checkpoint H scope keyID generatedAt (n * day_nanos) head h)) signature"
  shows "checkpoint_ok H verify keyID scope db h n
    \<lparr>cpr_Checkpoint = day_checkpoint H scope keyID generatedAt (n * day_nanos) head h, cpr_Signature = signature\<rparr>"
proof -
  from assms ledgerHeadBeforeTx_AcceptedAt [OF assms(1)] show ?thesis
    by (cases head) (simp add: checkpoint_ok_def day_checkpoint_def Let_def time_Format_date_def CheckpointMessage_def)
qed

lemma finalize_loop_keeps:
  assumes "finalize_loop H sign scope keyID generatedAt (last_day * day_nanos) db day h created = Inr (db', created')"
    and "signs verify sign" "chain_from H verify keyID scope n db" "day = (n + int (length (checkpoints db))) * day_nanos"
    and "h = (case select_max checkpoint_date (checkpoints db) of None \<Rightarrow> ZeroHash | Some latest \<Rightarrow> cp_CheckpointHash (cpr_Checkpoint latest))"
    and "0 \<le> year_of n" "year_of last_day \<le> 9999" "n + int (length (checkpoints db)) \<le> last_day + 1"
  shows "\<exists>new. db' = db\<lparr>checkpoints := checkpoints db @ new\<rparr> \<and> created' = created @ new \<and> chain_from H verify keyID scope n db' \<and>
    n + int (length (checkpoints db')) = last_day + 1"
  using assms
proof (induction "nat (last_day + 1 - (n + int (length (checkpoints db))))" arbitrary: db day h created)
  case 0
  let ?k = "n + int (length (checkpoints db))"
  have "?k = last_day + 1" using "0.hyps" "0.prems"(8) by linarith
  moreover have "last_day * day_nanos < day" unfolding "0.prems"(4) calculation by (simp add: distrib_right)
  ultimately show ?case using "0.prems"(1,3) by (simp add: finalize_loop.simps [of H sign])
next
  case (Suc x)
  let ?k = "n + int (length (checkpoints db))"
  have k: "?k \<le> last_day" using Suc.hyps(2) by linarith
  then have "\<not> last_day * day_nanos < day" unfolding Suc.prems(4) by (simp add: not_less mult_right_mono)
  then obtain head signature db1 where s: "ledgerHeadBeforeTx db (time_Format_RFC3339 (AddDays day 1)) = Inr head"
    "sign (day_checkpoint H scope keyID generatedAt day head h) = Some signature"
    "insert_checkpoint db \<lparr>cpr_Checkpoint = day_checkpoint H scope keyID generatedAt day head h, cpr_Signature = signature\<rparr> = Inr db1"
    "finalize_loop H sign scope keyID generatedAt (last_day * day_nanos) db1 (AddDays day 1)
      (cp_CheckpointHash (day_checkpoint H scope keyID generatedAt day head h))
      (created @ [\<lparr>cpr_Checkpoint = day_checkpoint H scope keyID generatedAt day head h, cpr_Signature = signature\<rparr>]) = Inr (db', created')"
    using Suc.prems(1) by (subst (asm) finalize_loop.simps) (auto simp: Let_def split: if_splits sum.splits option.splits)
  let ?r = "\<lparr>cpr_Checkpoint = day_checkpoint H scope keyID generatedAt day head h, cpr_Signature = signature\<rparr>"
  have year: "0 \<le> year_of ?k" "year_of ?k \<le> 9999"
    using year_of_mono [of n ?k] year_of_mono [OF k] Suc.prems(6,7) by simp_all
  have db1: "db1 = db\<lparr>checkpoints := checkpoints db @ [?r]\<rparr>" using s(3) by (auto simp: insert_checkpoint_def Let_def split: if_splits)
  have ok: "checkpoint_ok H verify keyID scope db h ?k ?r"
    unfolding Suc.prems(4) by (rule day_checkpoint_ok)
      (use s(1,2) year Suc.prems(2,4) in \<open>auto simp: signs_def AddDays_day\<close>)
  note app = chain_append [OF Suc.prems(3) ok [unfolded Suc.prems(5)]]
  have len: "n + int (length (checkpoints db1)) = ?k + 1" by (simp add: db1)
  have "x = nat (last_day + 1 - (n + int (length (checkpoints db1))))" unfolding len using Suc.hyps(2) by linarith
  moreover have "chain_from H verify keyID scope n db1" using app(1) by (simp add: db1 Suc.prems(5))
  moreover have "AddDays day 1 = (n + int (length (checkpoints db1))) * day_nanos" unfolding len Suc.prems(4) by (rule AddDays_day)
  moreover have "select_max checkpoint_date (checkpoints db1) = Some ?r" using app(2) by (simp add: db1 Suc.prems(5))
  then have "cp_CheckpointHash (cpr_Checkpoint ?r) = (case select_max checkpoint_date (checkpoints db1) of None \<Rightarrow> ZeroHash
      | Some latest \<Rightarrow> cp_CheckpointHash (cpr_Checkpoint latest))" by simp
  moreover have "n + int (length (checkpoints db1)) \<le> last_day + 1" unfolding len using k by simp
  ultimately obtain new where "db' = db1\<lparr>checkpoints := checkpoints db1 @ new\<rparr>" "created' = (created @ [?r]) @ new"
    "chain_from H verify keyID scope n db'" "n + int (length (checkpoints db')) = last_day + 1"
    using Suc.hyps(1) [OF _ s(4) Suc.prems(2) _ _ _ Suc.prems(6,7)] by auto
  then show ?case by (intro exI [of _ "?r # new"]) (simp add: db1)
qed

lemma Truncate_second_day: "Truncate_second t div day_nanos = t div day_nanos"
proof -
  have d: "day_nanos = 1000000000 * 86400" by (simp add: day_nanos_def)
  have "Truncate_second t = t div 1000000000 * 1000000000"
    unfolding Truncate_second_def using div_mult_mod_eq [of t 1000000000] by (metis add_diff_cancel_right')
  then have "Truncate_second t div day_nanos = t div 1000000000 * 1000000000 div 1000000000 div 86400"
    unfolding d by (simp only: zdiv_zmult2_eq [of 86400, OF zero_le_numeral])
  also have "\<dots> = t div 1000000000 div 86400" by (simp only: nonzero_mult_div_cancel_right zero_neq_numeral not_False_eq_True)
  finally show ?thesis unfolding d by (simp only: zdiv_zmult2_eq [of 86400, OF zero_le_numeral])
qed

text \<open>The day the next checkpoint is due.\<close>

lemma Finalize_start:
  assumes "registry_identity db = Some identity" "time_Parse_RFC3339Nano (sri_CreatedAt identity) = Some created"
    and chain: "chain_from H verify keyID scope n db" and start: "checkpoints db = [] \<Longrightarrow> n = created div day_nanos"
  shows "FinalizeCompletedCheckpoints H db now scope keyID sign =
    (if n + int (length (checkpoints db)) > now div day_nanos - 1 then Inr (db, [])
     else finalize_loop H sign scope keyID (time_Format_RFC3339 (Truncate_second now)) ((now div day_nanos - 1) * day_nanos) db
       ((n + int (length (checkpoints db))) * day_nanos)
       (case select_max checkpoint_date (checkpoints db) of None \<Rightarrow> ZeroHash | Some latest \<Rightarrow> cp_CheckpointHash (cpr_Checkpoint latest)) [])"
proof -
  have target: "AddDays (dayStart (Truncate_second now)) (- 1) = (now div day_nanos - 1) * day_nanos"
    unfolding dayStart_def Truncate_second_day AddDays_day by simp
  have less: "(j * day_nanos < k * day_nanos) = (j < k)" for j k by (simp add: day_nanos_def)
  show ?thesis
  proof (cases "select_max checkpoint_date (checkpoints db)")
    case None
    then have "checkpoints db = []" by (auto simp: select_max_last split: if_splits)
    with None start assms(1,2) show ?thesis
      by (simp add: FinalizeCompletedCheckpoints_def Let_def target less dayStart_def [of created])
  next
    case (Some latest)
    have "AddDays ((n + int (length (checkpoints db)) - 1) * day_nanos) 1 = (n + int (length (checkpoints db))) * day_nanos"
      unfolding AddDays_day by simp
    with chain_latest(1) [OF chain Some] Some assms(1,2) show ?thesis
      by (simp add: FinalizeCompletedCheckpoints_def Let_def target less)
  qed
qed

lemma Finalize_keeps_chain:
  assumes "registry_identity db = Some identity" "time_Parse_RFC3339Nano (sri_CreatedAt identity) = Some created"
    and "chain_from H verify keyID scope n db" "checkpoints db = [] \<Longrightarrow> n = created div day_nanos"
    and "signs verify sign" "0 \<le> year_of (created div day_nanos)" "year_of (now div day_nanos) \<le> 9999"
    and "FinalizeCompletedCheckpoints H db now scope keyID sign = Inr (db', records)"
  shows "db' = db\<lparr>checkpoints := checkpoints db @ records\<rparr>" "chain_from H verify keyID scope n db'"
    "now div day_nanos - 1 < n + int (length (checkpoints db'))"
    "n + int (length (checkpoints db)) \<le> now div day_nanos \<Longrightarrow> n + int (length (checkpoints db')) = now div day_nanos"
proof -
  let ?k = "n + int (length (checkpoints db))" and ?T = "now div day_nanos - 1"
  have year: "0 \<le> year_of n"
  proof (cases "checkpoints db")
    case (Cons r rs)
    then have "sort_key checkpoint_date (checkpoints db) \<noteq> []" by simp
    with checkpoint_chain_nth [OF assms(3) [unfolded chain_from_def], of 0] show ?thesis by simp
  qed (use assms(4,6) in simp)
  have "db' = db\<lparr>checkpoints := checkpoints db @ records\<rparr> \<and> chain_from H verify keyID scope n db' \<and>
      ?T < n + int (length (checkpoints db')) \<and> (?k \<le> now div day_nanos \<longrightarrow> n + int (length (checkpoints db')) = now div day_nanos)"
  proof (cases "?k > ?T")
    case True
    with assms(8) Finalize_start [OF assms(1-4), of now sign] assms(3) show ?thesis by auto
  next
    case False
    have last_day: "year_of ?T \<le> 9999" using year_of_mono [of ?T "now div day_nanos"] assms(7) by simp
    have "\<exists>new. db' = db\<lparr>checkpoints := checkpoints db @ new\<rparr> \<and> records = [] @ new \<and> chain_from H verify keyID scope n db' \<and>
        n + int (length (checkpoints db')) = ?T + 1"
      by (rule finalize_loop_keeps [OF _ assms(5,3) refl refl year last_day])
        (use assms(8) Finalize_start [OF assms(1-4), of now sign] False in auto)
    then show ?thesis by auto
  qed
  then show "db' = db\<lparr>checkpoints := checkpoints db @ records\<rparr>" "chain_from H verify keyID scope n db'"
    "?T < n + int (length (checkpoints db'))" "?k \<le> now div day_nanos \<Longrightarrow> n + int (length (checkpoints db')) = now div day_nanos"
    by blast+
qed

lemma day_text_inj:
  assumes "day_text m = day_text n" "0 \<le> year_of m" "year_of m \<le> 9999" "0 \<le> year_of n" "year_of n \<le> 9999"
  shows "m = n"
proof -
  have "time_Parse_date (day_text n) = Some (m * day_nanos)" unfolding assms(1) [symmetric] using assms(2,3) by (rule time_Parse_Format_date)
  from trans [OF this [symmetric] time_Parse_Format_date [OF assms(4,5)]] show ?thesis using day_nanos_pos(2) by simp
qed

text \<open>A verified table is the chain of consecutive days from some day on; without rows it is the chain of any day.\<close>

lemma VerifyCheckpoints_chain:
  assumes "VerifyCheckpoints H db verify keyID scope = Inr ()"
  obtains n where "chain_from H verify keyID scope n db" "checkpoints db = [] \<Longrightarrow> n = start"
proof (cases "checkpoints db")
  case Nil
  then show thesis by (intro that [of start]) (simp_all add: chain_from_def)
next
  case (Cons r rs)
  then show thesis using assms that by (auto simp: VerifyCheckpoints_iff chain_from_def)
qed

lemma chain_covers:
  assumes "chain_from H verify keyID scope n db" "n \<le> day" "day < n + int (length (checkpoints db))"
  shows "\<exists>r. Checkpoint_query db (time_Format_date (day * day_nanos)) = Inr r \<and> cp_CheckpointDate (cpr_Checkpoint r) = time_Format_date (day * day_nanos)"
proof -
  let ?S = "sort_key checkpoint_date (checkpoints db)"
  have i: "nat (day - n) < length ?S" using assms(2,3) by simp
  have "cp_CheckpointDate (cpr_Checkpoint (?S ! nat (day - n))) = day_text day"
    using checkpoint_chain_nth [OF assms(1) [unfolded chain_from_def] i] assms(2) by simp
  moreover have "?S ! nat (day - n) \<in> set (checkpoints db)" using nth_mem [OF i] by simp
  moreover have "time_Format_date (day * day_nanos) = day_text day" by (simp add: time_Format_date_def)
  ultimately obtain r where "find (\<lambda>r. cp_CheckpointDate (cpr_Checkpoint r) = time_Format_date (day * day_nanos)) (checkpoints db) = Some r"
    by (metis (mono_tags, lifting) find_None_iff not_None_eq)
  moreover from this have "cp_CheckpointDate (cpr_Checkpoint r) = time_Format_date (day * day_nanos)" by (auto simp: find_Some_iff)
  ultimately show ?thesis by (simp add: Checkpoint_query_def)
qed

lemma queried_day_in_chain:
  assumes "chain_from H verify keyID scope n db" "Checkpoint_query db (time_Format_date (day * day_nanos)) = Inr r"
    and "0 \<le> year_of day" "year_of day \<le> 9999"
  shows "n \<le> day"
proof -
  have r: "r \<in> set (checkpoints db)" "checkpoint_date r = day_text day"
    using assms(2) by (auto simp: Checkpoint_query_def result_simps find_Some_iff time_Format_date_def)
  obtain m where m: "n \<le> m" "checkpoint_date r = day_text m" "0 \<le> year_of m" "year_of m \<le> 9999"
    by (rule chain_dates [OF assms(1) r(1)])
  have "day = m" by (rule day_text_inj) (use r(2) m assms(3,4) in simp_all)
  then show ?thesis using m(1) by simp
qed

subsection \<open>Appending after the last finalized day\<close>

lemma whole_day_seconds: "k * day_nanos mod 1000000000 = 0"
proof -
  have "(1000000000 :: int) dvd day_nanos" by (simp add: day_nanos_def)
  then show ?thesis by (intro dvd_imp_mod_0 dvd_mult)
qed

lemma ledgerHeadBeforeTx_append:
  assumes "ledger_entries db' = ledger_entries db @ [e]" "\<not> le_AcceptedAt e < t"
  shows "ledgerHeadBeforeTx db' t = ledgerHeadBeforeTx db t"
proof -
  let ?rows = "filter (\<lambda>e. le_AcceptedAt e < t) (ledger_entries db)"
  have rows: "filter (\<lambda>e. le_AcceptedAt e < t) (ledger_entries db') = ?rows" using assms by simp
  have "\<exists>l. find (\<lambda>l. le_LedgerIndex l = Max (le_LedgerIndex ` set ?rows)) (ledger_entries db) = Some l" if "?rows \<noteq> []"
  proof -
    have "Max (le_LedgerIndex ` set ?rows) \<in> le_LedgerIndex ` set ?rows"
      using that by (intro Max_in) (simp_all del: set_filter)
    then obtain l where "l \<in> set (ledger_entries db)" "le_LedgerIndex l = Max (le_LedgerIndex ` set ?rows)" by auto
    then show ?thesis by (metis (mono_tags, lifting) find_None_iff not_None_eq)
  qed
  then show ?thesis unfolding ledgerHeadBeforeTx_def rows Let_def
    by (cases "?rows = []") (auto simp: assms(1) find_append)
qed

locale ledger_appender =
  fixes accept :: "registry_db \<Rightarrow> 'i \<Rightarrow> store_error + registry_db \<times> 'o" and acceptedAt :: "'i \<Rightarrow> string"
  assumes accept_appends: "accept db i = Inr (db', x) \<Longrightarrow> checkpoints db' = checkpoints db \<and>
    (ledger_entries db' = ledger_entries db \<or>
     (\<exists>e. ledger_entries db' = ledger_entries db @ [e] \<and> le_AcceptedAt e = acceptedAt i \<and>
       ensureAcceptedAtAfterCheckpoint db (acceptedAt i) = Inr ()))"
begin

lemma keeps_chain:
  assumes chain: "chain_from H verify keyID scope n db" and "accept db i = Inr (db', x)"
    and at: "acceptedAt i = time_Format_RFC3339 t" "canonical_instant t"
  shows "chain_from H verify keyID scope n db'"
proof -
  have same: "checkpoints db' = checkpoints db" using accept_appends [OF assms(2)] by blast
  have "ledgerHeadBeforeTx db' (time_Format_RFC3339 ((m + 1) * day_nanos)) = ledgerHeadBeforeTx db (time_Format_RFC3339 ((m + 1) * day_nanos))"
    if m: "n \<le> m" "m < n + int (length (checkpoints db))" for m
  proof (cases "ledger_entries db' = ledger_entries db")
    case True
    show ?thesis by (simp only: ledgerHeadBeforeTx_cong [OF True])
  next
    case False
    then obtain e where e: "ledger_entries db' = ledger_entries db @ [e]" "le_AcceptedAt e = acceptedAt i"
      "ensureAcceptedAtAfterCheckpoint db (acceptedAt i) = Inr ()" using accept_appends [OF assms(2)] by blast
    have "checkpoints db \<noteq> []" using m by auto
    then obtain latest where l: "select_max checkpoint_date (checkpoints db) = Some latest" by (simp add: select_max_last)
    have "time_Parse_RFC3339Nano (acceptedAt i) = Some t" unfolding at(1) by (rule time_Parse_Format_RFC3339 [OF at(2)])
    with e(3) chain_latest(1) [OF chain l] l have "AddDays ((n + int (length (checkpoints db)) - 1) * day_nanos) 1 \<le> t"
      by (simp add: ensureAcceptedAtAfterCheckpoint_def split: if_splits)
    then have "(n + int (length (checkpoints db))) * day_nanos \<le> t" unfolding AddDays_day by simp
    then have le: "(m + 1) * day_nanos \<le> t"
    proof (rule order_trans [rotated])
      show "(m + 1) * day_nanos \<le> (n + int (length (checkpoints db))) * day_nanos" using m by (intro mult_right_mono) (simp_all add: day_nanos_def)
    qed
    have "m + 1 \<le> t div day_nanos" using zdiv_mono1 [OF le day_nanos_pos(1)] by simp
    then have "year_of (m + 1) \<le> year_of (t div day_nanos)" by (rule year_of_mono)
    also have "\<dots> \<le> 9999" using at(2) by (simp only: canonical_instant_def)
    finally have y: "year_of (m + 1) \<le> 9999" .
    have "0 \<le> year_of m" using checkpoint_chain_nth [OF chain [unfolded chain_from_def], of "nat (m - n)"] m by simp
    also have "\<dots> \<le> year_of (m + 1)" by (rule year_of_mono) simp
    finally have "canonical_instant ((m + 1) * day_nanos)"
      unfolding canonical_instant_def using y by (simp only: whole_day_seconds nonzero_mult_div_cancel_right [OF day_nanos_pos(2)])
    then have "\<not> time_Format_RFC3339 t < time_Format_RFC3339 ((m + 1) * day_nanos)"
      using time_Format_RFC3339_less [OF _ at(2), of "(m + 1) * day_nanos"] le by (cases "t = (m + 1) * day_nanos") auto
    then show ?thesis using e at(1) by (intro ledgerHeadBeforeTx_append [of db' db e]) simp_all
  qed
  then show ?thesis
    using chain checkpoint_chain_cong [of n "sort_key checkpoint_date (checkpoints db)" db' db] by (simp add: chain_from_def same)
qed

end

subsection \<open>The accepting operations\<close>

lemma AcceptInstallationBatch_appends:
  assumes "AcceptInstallationBatch H db input sign = Inr (db', record, duplicate)"
  shows "checkpoints db' = checkpoints db \<and> (ledger_entries db' = ledger_entries db \<or>
    (\<exists>e. ledger_entries db' = ledger_entries db @ [e] \<and> le_AcceptedAt e = bin_AcceptedAt input \<and>
      ensureAcceptedAtAfterCheckpoint db (bin_AcceptedAt input) = Inr ()))"
  using assms
proof (cases rule: AcceptInstallationBatch_cases)
  case known
  then show ?thesis by simp
next
  case retry
  then show ?thesis by auto
next
  case (fresh sig)
  have "ensureAcceptedAtAfterCheckpoint db (bin_AcceptedAt input) = Inr ()"
    using assms fresh(1,7,8) by (auto simp: AcceptInstallationBatch_def result_simps Let_def)
  moreover obtain nodes where "db' = batch_appended db input (batchLedgerEntry H input (ledgerHeadTx db)) sig
      (db\<lparr>ledger_entries := ledger_entries db @ [batchLedgerEntry H input (ledgerHeadTx db)], ledger_merkle_nodes := nodes\<rparr>)"
    by (rule appendBatchTx_Inr [OF fresh(5)])
  moreover have "le_AcceptedAt (batchLedgerEntry H input (ledgerHeadTx db)) = bin_AcceptedAt input"
    by (simp add: batchLedgerEntry_def Let_def)
  ultimately show ?thesis by simp
qed

lemma AcceptRevenueBatch_appends:
  assumes "AcceptRevenueBatch H db input sign = Inr (db', record, duplicate)"
  shows "checkpoints db' = checkpoints db \<and> (ledger_entries db' = ledger_entries db \<or>
    (\<exists>e. ledger_entries db' = ledger_entries db @ [e] \<and> le_AcceptedAt e = rbi_AcceptedAt input \<and>
      ensureAcceptedAtAfterCheckpoint db (rbi_AcceptedAt input) = Inr ()))"
  using assms
proof (cases rule: AcceptRevenueBatch_cases)
  case known
  then show ?thesis by simp
next
  case retry
  then show ?thesis by auto
next
  case (fresh sig)
  have "ensureAcceptedAtAfterCheckpoint db (rbi_AcceptedAt input) = Inr ()"
    using assms fresh(1,8,9) by (auto simp: AcceptRevenueBatch_def result_simps Let_def)
  moreover obtain nodes where "db' = revenue_appended db input (revenueLedgerEntry H input (ledgerHeadTx db)) sig
      (db\<lparr>ledger_entries := ledger_entries db @ [revenueLedgerEntry H input (ledgerHeadTx db)], ledger_merkle_nodes := nodes\<rparr>)"
    by (rule appendRevenueTx_Inr [OF fresh(6)])
  moreover have "le_AcceptedAt (revenueLedgerEntry H input (ledgerHeadTx db)) = rbi_AcceptedAt input"
    by (simp add: revenueLedgerEntry_def Let_def)
  ultimately show ?thesis by (simp add: revenue_appended_def)
qed

interpretation installation_appender: ledger_appender "\<lambda>db (input, sign). AcceptInstallationBatch H db input sign" "\<lambda>(input, sign). bin_AcceptedAt input" for H
  by unfold_locales (auto dest!: AcceptInstallationBatch_appends split: prod.splits)

interpretation revenue_appender: ledger_appender "\<lambda>db (input, sign). AcceptRevenueBatch H db input sign" "\<lambda>(input, sign). rbi_AcceptedAt input" for H
  by unfold_locales (auto dest!: AcceptRevenueBatch_appends split: prod.splits)

subsection \<open>Properties\<close>

text \<open>A registry finalized on 2026-01-02, its second day: the checkpoint of its first day.\<close>

abbreviation sample_verify :: "bytes \<Rightarrow> bytes \<Rightarrow> bool" where
  "sample_verify \<equiv> \<lambda>_ signature. signature = replicate 64 (CHR ''c'')"

abbreviation sample_checkpoint_signer :: "Checkpoint \<Rightarrow> bytes option" where
  "sample_checkpoint_signer \<equiv> \<lambda>_. Some (replicate 64 (CHR ''c''))"

definition sample_now :: int where
  "sample_now = 1767312005000000000"

text \<open>A toy hash that tells the checkpoints of different days apart.\<close>

definition day_hash :: "bytes \<Rightarrow> bytes" where
  "day_hash m = take 32 (drop 33 m @ replicate 32 (CHR ''x''))"

definition first_checkpoint :: CheckpointRecord where
  "first_checkpoint = \<lparr>cpr_Checkpoint = \<lparr>cp_RegistryScope = ''demo'', cp_CheckpointDate = ''2026-01-01'', cp_ThroughLedgerIndex = 0,
       cp_EntryCount = 0, cp_LedgerHeadHash = ZeroHash, cp_PreviousCheckpointHash = ZeroHash,
       cp_CheckpointHash = ''sha256:64656d6f0a323032362d30312d30310a300a300a7368613235363a3030303030'',
       cp_GeneratedAt = ''2026-01-02T00:00:05Z'', cp_RegistryKeyID = ''k'', cp_RegistryPublicKey = [], cp_Signature = []\<rparr>,
     cpr_Signature = replicate 64 (CHR ''c'')\<rparr>"

definition finalized_db :: registry_db where
  "finalized_db = sample_db\<lparr>checkpoints := [first_checkpoint]\<rparr>"

lemma sample_finalize: "FinalizeCompletedCheckpoints day_hash sample_db sample_now ''demo'' ''k'' sample_checkpoint_signer =
    Inr (finalized_db, [first_checkpoint])"
  by code_simp

text \<open>The same registry a day later.\<close>

definition sample_tomorrow :: int where
  "sample_tomorrow = 1767398405000000000"

lemma sample_finalize_again: "\<not> isl (FinalizeCompletedCheckpoints day_hash finalized_db sample_tomorrow ''demo'' ''k'' sample_checkpoint_signer)"
  by code_simp

text \<open>On the second day the registry of the finalized first day accepts a batch and a revenue batch: one ledger entry each.\<close>

lemma sample_accept_finalized:
  "case AcceptInstallationBatch pad_hash finalized_db sample_batch sample_signer of Inl _ \<Rightarrow> False
     | Inr (db', _, duplicate) \<Rightarrow> \<not> duplicate \<and> length (ledger_entries db') = 1"
  by code_simp

lemma sample_accept_revenue_finalized:
  "case AcceptRevenueBatch pad_hash finalized_db sample_revenue sample_revenue_signer of Inl _ \<Rightarrow> False
     | Inr (db', _, duplicate) \<Rightarrow> \<not> duplicate \<and> length (ledger_entries db') = 1"
  by code_simp

lemma not_isl_pairE:
  assumes "\<not> isl x"
  obtains a b where "x = Inr (a, b)"
  using assms by (cases x) auto

lemma sample_start:
  "registry_identity sample_db = Some sample_identity" "time_Parse_RFC3339Nano (sri_CreatedAt sample_identity) = Some 1767225600000000000"
  "checkpoints sample_db = []" "signs sample_verify sample_checkpoint_signer"
proof -
  show "time_Parse_RFC3339Nano (sri_CreatedAt sample_identity) = Some 1767225600000000000" by code_simp
qed (simp_all add: sample_db_def empty_db_def signs_def)

lemma sample_days:
  "1767225600000000000 div day_nanos = 20454" "sample_now div day_nanos = 20455" "sample_tomorrow div day_nanos = 20456"
  "year_of 20454 = 2026" "year_of 20455 = 2026" "year_of 20456 = 2026"
proof -
  show "1767225600000000000 div day_nanos = 20454" "sample_now div day_nanos = 20455" "sample_tomorrow div day_nanos = 20456"
    by (simp_all add: day_nanos_def sample_now_def sample_tomorrow_def)
  show "year_of 20454 = 2026" "year_of 20455 = 2026" "year_of 20456 = 2026" by (simp_all add: year_of_def date_of_day_def year_and_day_def Let_def)
qed

lemma finalized_start:
  "registry_identity finalized_db = Some sample_identity" "checkpoints finalized_db = [first_checkpoint]"
  "Checkpoint_query finalized_db (time_Format_date (20454 * day_nanos)) = Inr first_checkpoint"
proof -
  show "Checkpoint_query finalized_db (time_Format_date (20454 * day_nanos)) = Inr first_checkpoint" by code_simp
qed (simp_all add: finalized_db_def sample_start)

lemma finalized_verified: "VerifyCheckpoints day_hash finalized_db sample_verify ''k'' ''demo'' = Inr ()"
proof -
  have "chain_from day_hash sample_verify ''k'' ''demo'' 20454 sample_db" by (simp add: chain_from_def sample_start)
  from Finalize_keeps_chain(2) [OF sample_start(1,2) this _ sample_start(4) _ _ sample_finalize]
  have "chain_from day_hash sample_verify ''k'' ''demo'' 20454 finalized_db" by (simp add: sample_days)
  then show ?thesis by (auto simp: VerifyCheckpoints_iff chain_from_def)
qed

text \<open>C28. Finalizing keeps the checkpoint chain verifiable: when \<open>VerifyCheckpoints\<close> passes and \<open>FinalizeCompletedCheckpoints\<close>
  succeeds with a signer whose signatures verify, \<open>VerifyCheckpoints\<close> passes on the result, the records returned are exactly
  those appended, and running it again at the same time appends nothing.\<close>

theorem FinalizeCompletedCheckpoints_keeps:
  assumes "registry_identity db = Some identity" "time_Parse_RFC3339Nano (sri_CreatedAt identity) = Some created"
    and "0 \<le> year_of (created div day_nanos)" "year_of (now div day_nanos) \<le> 9999"
    and "VerifyCheckpoints H db verify keyID scope = Inr ()" "signs verify signCheckpoint"
    and "FinalizeCompletedCheckpoints H db now scope keyID signCheckpoint = Inr (db', records)"
  shows "VerifyCheckpoints H db' verify keyID scope = Inr () \<and> db' = db\<lparr>checkpoints := checkpoints db @ records\<rparr> \<and>
    FinalizeCompletedCheckpoints H db' now scope keyID signCheckpoint = Inr (db', [])"
proof -
  obtain n where n: "chain_from H verify keyID scope n db" "checkpoints db = [] \<Longrightarrow> n = created div day_nanos"
    by (rule VerifyCheckpoints_chain [OF assms(5), where start = "created div day_nanos"]) (rule that)
  note f = Finalize_keeps_chain [OF assms(1,2) n assms(6,3,4,7)]
  have "registry_identity db' = Some identity" using f(1) assms(1) by simp
  moreover have "checkpoints db' = [] \<Longrightarrow> n = created div day_nanos" using f(1) n(2) by simp
  ultimately have "FinalizeCompletedCheckpoints H db' now scope keyID signCheckpoint = Inr (db', [])"
    using Finalize_start [OF _ assms(2) f(2), of now signCheckpoint] f(3) by simp
  then show ?thesis using f(1,2) by (auto simp: VerifyCheckpoints_iff chain_from_def)
qed

theorem FinalizeCompletedCheckpoints_keeps_witness:
  "\<exists>db' r. FinalizeCompletedCheckpoints day_hash finalized_db sample_tomorrow ''demo'' ''k'' sample_checkpoint_signer = Inr (db', r) \<and>
     checkpoints db' = first_checkpoint # r \<and> VerifyCheckpoints day_hash db' sample_verify ''k'' ''demo'' = Inr ()"
proof -
  obtain db' r where f: "FinalizeCompletedCheckpoints day_hash finalized_db sample_tomorrow ''demo'' ''k'' sample_checkpoint_signer = Inr (db', r)"
    by (rule not_isl_pairE [OF sample_finalize_again]) (rule that)
  from FinalizeCompletedCheckpoints_keeps [OF finalized_start(1) sample_start(2) _ _ finalized_verified sample_start(4) f, unfolded sample_days]
  show ?thesis using f by (auto simp: finalized_start)
qed

text \<open>C29. No completed day is left out: when the checkpoints verify and \<open>FinalizeCompletedCheckpoints\<close> succeeds, every day from the
  first one on, up to the day before \<open>now\<close>, has a checkpoint that \<open>Checkpoint\<close> returns.  The first day is the day of the registry's
  creation when the table is empty, and otherwise any day that already has a checkpoint: later runs go on where the table ends.\<close>

theorem FinalizeCompletedCheckpoints_covers:
  assumes "registry_identity db = Some identity" "time_Parse_RFC3339Nano (sri_CreatedAt identity) = Some created"
    and "0 \<le> year_of (created div day_nanos)" "year_of (now div day_nanos) \<le> 9999"
    and "VerifyCheckpoints H db verify keyID scope = Inr ()" "signs verify signCheckpoint"
    and "if checkpoints db = [] then first = created div day_nanos
         else 0 \<le> year_of first \<and> (\<exists>r. Checkpoint_query db (time_Format_date (first * day_nanos)) = Inr r)"
    and "FinalizeCompletedCheckpoints H db now scope keyID signCheckpoint = Inr (db', records)"
    and "first \<le> day" "day < now div day_nanos"
  shows "\<exists>r. Checkpoint_query db' (time_Format_date (day * day_nanos)) = Inr r \<and> cp_CheckpointDate (cpr_Checkpoint r) = time_Format_date (day * day_nanos)"
proof -
  obtain n where n: "chain_from H verify keyID scope n db" "checkpoints db = [] \<Longrightarrow> n = created div day_nanos"
    by (rule VerifyCheckpoints_chain [OF assms(5), where start = "created div day_nanos"]) (rule that)
  note f = Finalize_keeps_chain [OF assms(1,2) n assms(6,3,4,8)]
  have "n \<le> first"
  proof (cases "checkpoints db = []")
    case False
    have "year_of first \<le> 9999" using year_of_mono [of first "now div day_nanos"] assms(4,9,10) by simp
    then show ?thesis using assms(7) False queried_day_in_chain [OF n(1)] by auto
  qed (use assms(7) n(2) in simp)
  then show ?thesis using f(3) assms(9,10) by (intro chain_covers [OF f(2)]) simp_all
qed

theorem FinalizeCompletedCheckpoints_covers_witness:
  "\<exists>db' r. FinalizeCompletedCheckpoints day_hash finalized_db sample_tomorrow ''demo'' ''k'' sample_checkpoint_signer = Inr (db', r) \<and>
     (\<exists>c. Checkpoint_query db' (time_Format_date (20454 * day_nanos)) = Inr c) \<and>
     (\<exists>c. Checkpoint_query db' (time_Format_date (20455 * day_nanos)) = Inr c)"
proof -
  obtain db' r where f: "FinalizeCompletedCheckpoints day_hash finalized_db sample_tomorrow ''demo'' ''k'' sample_checkpoint_signer = Inr (db', r)"
    by (rule not_isl_pairE [OF sample_finalize_again]) (rule that)
  note covers = FinalizeCompletedCheckpoints_covers [OF finalized_start(1) sample_start(2) _ _ finalized_verified sample_start(4) _ f, of 20454, unfolded sample_days]
  show ?thesis using f covers [of 20454] covers [of 20455] by (simp add: finalized_start) blast
qed

text \<open>C30. Accepted entries never change a finalized day: when the checkpoint chain verifies and a batch or a revenue batch with a
  canonical acceptance time is accepted, the chain verifies afterwards.  (The acceptance time is compared with the last
  checkpoint as an instant, but the ledger head of a day is selected by text.)\<close>

theorem acceptance_keeps_checkpoints:
  assumes "VerifyCheckpoints H db verify keyID scope = Inr ()" "canonical_instant t"
    and "bin_AcceptedAt input = time_Format_RFC3339 t \<and> AcceptInstallationBatch H' db input sign = Inr (db', record, duplicate) \<or>
         rbi_AcceptedAt revenue = time_Format_RFC3339 t \<and> AcceptRevenueBatch H' db revenue signRevenue = Inr (db', revenueRecord, duplicate)"
  shows "VerifyCheckpoints H db' verify keyID scope = Inr ()"
proof -
  obtain n where n: "chain_from H verify keyID scope n db" using assms(1) by (auto simp: VerifyCheckpoints_iff chain_from_def)
  have "chain_from H verify keyID scope n db'"
    using assms(3) installation_appender.keeps_chain [OF n, of H' "(input, sign)" db' "(record, duplicate)" t]
      revenue_appender.keeps_chain [OF n, of H' "(revenue, signRevenue)" db' "(revenueRecord, duplicate)" t] assms(2) by auto
  then show ?thesis by (auto simp: VerifyCheckpoints_iff chain_from_def)
qed

theorem acceptance_keeps_checkpoints_witness:
  "(\<exists>db' record. AcceptInstallationBatch pad_hash finalized_db sample_batch sample_signer = Inr (db', record, False) \<and>
     length (ledger_entries db') = 1 \<and> checkpoints db' = [first_checkpoint] \<and>
     VerifyCheckpoints day_hash db' sample_verify ''k'' ''demo'' = Inr ()) \<and>
   (\<exists>db' record. AcceptRevenueBatch pad_hash finalized_db sample_revenue sample_revenue_signer = Inr (db', record, False) \<and>
     length (ledger_entries db') = 1 \<and> checkpoints db' = [first_checkpoint] \<and>
     VerifyCheckpoints day_hash db' sample_verify ''k'' ''demo'' = Inr ())"
proof -
  obtain db' "record" where b: "AcceptInstallationBatch pad_hash finalized_db sample_batch sample_signer = Inr (db', record, False)"
    "length (ledger_entries db') = 1" using sample_accept_finalized by (auto split: sum.splits)
  obtain db'' revenueRecord where r: "AcceptRevenueBatch pad_hash finalized_db sample_revenue sample_revenue_signer = Inr (db'', revenueRecord, False)"
    "length (ledger_entries db'') = 1" using sample_accept_revenue_finalized by (auto split: sum.splits)
  have "canonical_instant 1767312001000000000" "bin_AcceptedAt sample_batch = time_Format_RFC3339 1767312001000000000" by code_simp+
  then have "VerifyCheckpoints day_hash db' sample_verify ''k'' ''demo'' = Inr ()"
    using acceptance_keeps_checkpoints [OF finalized_verified _ disjI1] b(1) by blast
  moreover have "canonical_instant 1767312002000000000" "rbi_AcceptedAt sample_revenue = time_Format_RFC3339 1767312002000000000" by code_simp+
  then have "VerifyCheckpoints day_hash db'' sample_verify ''k'' ''demo'' = Inr ()"
    using acceptance_keeps_checkpoints [OF finalized_verified _ disjI2] r(1) by blast
  moreover have "checkpoints db' = [first_checkpoint]" "checkpoints db'' = [first_checkpoint]"
    using AcceptInstallationBatch_appends [OF b(1)] AcceptRevenueBatch_appends [OF r(1)] by (simp_all add: finalized_start)
  ultimately show ?thesis using b r by blast
qed

end
