(* ===== verification/Event_Chain.thy ===== *)
theory Event_Chain
  imports Ledger_Store
begin

text \<open>
  Hash-chained event logs.  Besides the ledger the registry keeps several append-only logs of signed events (operator audit
  events, claim reviews, eligibility decisions, registry cases, ownership transfers), all built the same way: an event
  carries its index, the hash of the event before it and the digest of its own canonical message.  The locale \<open>event_log\<close>
  states what such a log needs of its events; the logs interpret it on their own records.
\<close>

subsection \<open>Postconditions of fallible steps\<close>

named_theorems post_intros "rules that push a postcondition through a chain of fallible steps"

definition post :: "('a \<Rightarrow> bool) \<Rightarrow> 'e + 'a \<Rightarrow> bool" where
  "post P r \<longleftrightarrow> (\<forall>x. r = Inr x \<longrightarrow> P x)"

lemma postI: "(\<And>x. r = Inr x \<Longrightarrow> P x) \<Longrightarrow> post P r"
  by (simp add: post_def)

lemma postD: "post P r \<Longrightarrow> r = Inr x \<Longrightarrow> P x"
  by (simp add: post_def)

lemma post_Inl [post_intros]: "post P (Inl e)"
  by (simp add: post_def)

lemma post_Inr [post_intros]: "P x \<Longrightarrow> post P (Inr x)"
  by (simp add: post_def)

lemma post_if [post_intros]: "(c \<Longrightarrow> post P a) \<Longrightarrow> (\<not> c \<Longrightarrow> post P b) \<Longrightarrow> post P (if c then a else b)"
  by simp

lemma post_bindR [post_intros]: "(\<And>x. r = Inr x \<Longrightarrow> post P (f x)) \<Longrightarrow> post P (bindR r f)"
  by (auto simp: post_def result_simps)

lemma case_bindR: "(case r of Inl e \<Rightarrow> Inl e | Inr x \<Rightarrow> f x) = bindR r f"
  by (cases r) simp_all

lemma case_sum_eq_Inr_iff [result_simps]: "(case r of Inl e \<Rightarrow> Inl e | Inr x \<Rightarrow> f x) = Inr y \<longleftrightarrow> (\<exists>x. r = Inr x \<and> f x = Inr y)"
  by (cases r) simp_all

lemma post_sum [post_intros]:
  "(\<And>x. r = Inr x \<Longrightarrow> post P (f x)) \<Longrightarrow> post P (case r of Inl e \<Rightarrow> Inl e | Inr x \<Rightarrow> f x)"
  by (cases r) (simp_all add: post_def)

lemma post_option [post_intros]:
  "(o' = None \<Longrightarrow> post P a) \<Longrightarrow> (\<And>x. o' = Some x \<Longrightarrow> post P (b x)) \<Longrightarrow> post P (case o' of None \<Rightarrow> a | Some x \<Rightarrow> b x)"
  by (cases o') simp_all

lemma post_prod [post_intros]: "(\<And>x y. p = (x, y) \<Longrightarrow> post P (f x y)) \<Longrightarrow> post P (case p of (x, y) \<Rightarrow> f x y)"
  by (cases p) simp

lemma post_Let [post_intros]: "(\<And>x. x = t \<Longrightarrow> post P (f x)) \<Longrightarrow> post P (Let t f)"
  by simp

lemma post_mono: "post P r \<Longrightarrow> (\<And>x. P x \<Longrightarrow> Q x) \<Longrightarrow> post Q r"
  by (simp add: post_def)

subsection \<open>Chains\<close>

definition event_chain :: "(bytes \<Rightarrow> bytes) \<Rightarrow> ('e \<Rightarrow> int) \<Rightarrow> ('e \<Rightarrow> string) \<Rightarrow> ('e \<Rightarrow> string) \<Rightarrow> ('e \<Rightarrow> bytes) \<Rightarrow> 'e list \<Rightarrow> bool" where
  "event_chain H index previous hash message es \<longleftrightarrow>
     (\<forall>i < length es. index (es ! i) = int i + 1 \<and>
       previous (es ! i) = (if i = 0 then ZeroHash else hash (es ! (i - 1))) \<and> hash (es ! i) = Digest H (message (es ! i)))"

lemma event_chain_Nil [simp]: "event_chain H index previous hash message []"
  by (simp add: event_chain_def)

lemma event_chain_index: "event_chain H index previous hash message es \<Longrightarrow> map index es = map (\<lambda>i. int i + 1) [0..<length es]"
  by (rule nth_equalityI) (simp_all add: event_chain_def)

lemma event_chain_sorted: "event_chain H index previous hash message es \<Longrightarrow> sorted (map index es) \<and> distinct (map index es)"
  by (auto simp: event_chain_index sorted_iff_nth_mono distinct_map inj_on_def)

lemma event_chain_head:
  "event_chain H index previous hash message es \<Longrightarrow> select_max index es = (if es = [] then None else Some (last es))"
  by (simp add: select_max_sorted event_chain_sorted)

lemma event_chain_last:
  "event_chain H index previous hash message es \<Longrightarrow> es \<noteq> [] \<Longrightarrow> index (last es) = int (length es)"
  by (simp add: event_chain_def last_conv_nth of_nat_diff Suc_leI)

lemma event_chain_index_le:
  "event_chain H index previous hash message es \<Longrightarrow> e \<in> set es \<Longrightarrow> 0 < index e \<and> index e \<le> int (length es)"
  by (auto simp: event_chain_def in_set_conv_nth)

lemma event_chain_snoc:
  "event_chain H index previous hash message (es @ [e]) \<longleftrightarrow> event_chain H index previous hash message es \<and>
     index e = int (length es) + 1 \<and> previous e = (if es = [] then ZeroHash else hash (last es)) \<and> hash e = Digest H (message e)"
  (is "?L \<longleftrightarrow> ?R")
proof
  assume L: ?L
  have "event_chain H index previous hash message es"
    unfolding event_chain_def
  proof (intro allI impI)
    fix i assume "i < length es"
    then show "index (es ! i) = int i + 1 \<and> previous (es ! i) = (if i = 0 then ZeroHash else hash (es ! (i - 1))) \<and>
        hash (es ! i) = Digest H (message (es ! i))"
      using L [unfolded event_chain_def, rule_format, of i] by (simp add: nth_append less_imp_diff_less)
  qed
  moreover have "index e = int (length es) + 1 \<and> previous e = (if es = [] then ZeroHash else hash (last es)) \<and> hash e = Digest H (message e)"
    using L [unfolded event_chain_def, rule_format, of "length es"]
    by (cases es rule: rev_cases) (simp_all add: nth_append)
  ultimately show ?R by simp
next
  assume ?R
  then show ?L
    by (auto simp: event_chain_def nth_append less_Suc_eq last_conv_nth less_imp_diff_less)
qed

text \<open>An event built on the head of a chain extends it: its index is the head's index plus one as a 64-bit sum.\<close>

lemma event_chain_append_head:
  assumes "event_chain H index previous hash message es" "length es < 2 ^ 62"
    and "case select_max index es of None \<Rightarrow> index e = i64 (0 + 1) \<and> previous e = ZeroHash
         | Some h \<Rightarrow> index e = i64 (index h + 1) \<and> previous e = hash h"
    and "hash e = Digest H (message e)"
  shows "event_chain H index previous hash message (es @ [e])"
proof -
  have "i64 (int (length es) + 1) = int (length es) + 1" using assms(2) by (intro i64_nonneg_id) simp_all
  moreover have "es = [] \<Longrightarrow> select_max index es = None" by (simp add: select_max_def)
  ultimately show ?thesis using assms event_chain_last [OF assms(1)]
    by (cases "es = []") (simp_all add: event_chain_snoc event_chain_snoc [of _ _ _ _ _ "[]", simplified] event_chain_head [OF assms(1)])
qed

subsection \<open>What the head of a log commits to\<close>

text \<open>
  \<open>wf\<close> holds of events whose texts contain no line feed; \<open>committed\<close> lists what the canonical message of an event determines.
\<close>

locale event_log =
  fixes index :: "'e \<Rightarrow> int" and previous :: "'e \<Rightarrow> string" and hash :: "'e \<Rightarrow> string"
    and message :: "'e \<Rightarrow> bytes" and wf :: "'e \<Rightarrow> bool" and committed :: "'e \<Rightarrow> string list"
  assumes message_committed: "wf e \<Longrightarrow> wf e' \<Longrightarrow> message e = message e' \<Longrightarrow> committed e = committed e'"
    and committed_previous: "wf e \<Longrightarrow> wf e' \<Longrightarrow> committed e = committed e' \<Longrightarrow> previous e = previous e'"
begin

lemma events_determined:
  assumes "event_chain H index previous hash message es" "event_chain H index previous hash message es'" "length es = length es'"
    and "\<forall>e \<in> set es \<union> set es'. wf e" "inj_on H (message ` (set es \<union> set es'))"
    and "es \<noteq> [] \<Longrightarrow> hash (last es) = hash (last es')"
  shows "map committed es = map committed es'"
  using assms
proof (induction es arbitrary: es' rule: rev_induct)
  case (snoc e es)
  obtain d ds where es': "es' = ds @ [d]" using snoc.prems(3) by (cases es' rule: rev_cases) auto
  note c = snoc.prems(1) [unfolded event_chain_snoc] and c' = snoc.prems(2) [unfolded es' event_chain_snoc]
  have "hash e = hash d" using snoc.prems(6) by (simp add: es')
  then have "H (message e) = H (message d)" using c c' by simp
  then have "message e = message d" by (rule inj_onD [OF snoc.prems(5)]) (simp_all add: es')
  then have cm: "committed e = committed d" using snoc.prems(4) by (intro message_committed) (simp_all add: es')
  then have "previous e = previous d" using snoc.prems(4) by (intro committed_previous) (simp_all add: es')
  moreover have "length es = length ds" using snoc.prems(3) by (simp add: es')
  ultimately have "es \<noteq> [] \<Longrightarrow> hash (last es) = hash (last ds)"
    using conjunct1 [OF conjunct2 [OF conjunct2 [OF c]]] conjunct1 [OF conjunct2 [OF conjunct2 [OF c']]] by (cases ds) simp_all
  moreover have "inj_on H (message ` (set es \<union> set ds))" using snoc.prems(5) by (rule inj_on_subset) (auto simp: es')
  ultimately have "map committed es = map committed ds"
    using c c' snoc.prems(3,4) by (intro snoc.IH) (simp_all add: es')
  then show ?case using cm by (simp add: es')
qed simp

end

end
