(* ===== verification/Protocol_Operator.thy ===== *)
theory Protocol_Operator
  imports Protocol_Core
begin

text \<open>
  \<open>registry/protocol/operator.go\<close>: the wire records of operator actions, claim reviews,
      eligibility decisions
  and the leaderboard, the names of actions and states, and the canonical messages that are hashed and signed.
\<close>

subsection \<open>Constants\<close>

definition OperatorActionPath :: string where "OperatorActionPath = ''/v1/operator/actions''"
definition OperatorClaimStatusPathPrefix :: string where
  "OperatorClaimStatusPathPrefix = ''/v1/operator/claims/''"
definition LeaderboardPath :: string where "LeaderboardPath = ''/v1/leaderboard''"
definition OperatorActionClaim :: string where "OperatorActionClaim = ''claim''"
definition OperatorActionWithdrawClaim :: string where "OperatorActionWithdrawClaim = ''withdraw-claim''"
definition OperatorActionIssueClientToken :: string where
  "OperatorActionIssueClientToken = ''issue-client-token''"
definition OperatorActionRevokeClientToken :: string where
  "OperatorActionRevokeClientToken = ''revoke-client-token''"
definition OperatorActionRedeemClientToken :: string where
  "OperatorActionRedeemClientToken = ''redeem-client-token''"
definition OperatorActionRevokeGroupLink :: string where
  "OperatorActionRevokeGroupLink = ''revoke-group-link''"
definition OperatorActionDeactivateDeployment :: string where
  "OperatorActionDeactivateDeployment = ''deactivate-deployment''"
definition OperatorActionReactivateDeployment :: string where
  "OperatorActionReactivateDeployment = ''reactivate-deployment''"
definition OperatorAuditZeroHash :: string where "OperatorAuditZeroHash = ZeroHash"
definition OperatorClaimReviewZeroHash :: string where "OperatorClaimReviewZeroHash = ZeroHash"
definition OperatorClaimEligibilityZeroHash :: string where "OperatorClaimEligibilityZeroHash = ZeroHash"
definition OperatorClaimStateClaimed :: string where "OperatorClaimStateClaimed = ''claimed''"
definition OperatorClaimStatePendingReview :: string where
  "OperatorClaimStatePendingReview = ''pending-review''"
definition OperatorClaimStateApproved :: string where "OperatorClaimStateApproved = ''approved''"
definition OperatorClaimStateRejected :: string where "OperatorClaimStateRejected = ''rejected''"
definition OperatorClaimStateWithdrawn :: string where "OperatorClaimStateWithdrawn = ''withdrawn''"
definition OperatorClaimReviewApproved :: string where "OperatorClaimReviewApproved = ''approved''"
definition OperatorClaimReviewRejected :: string where "OperatorClaimReviewRejected = ''rejected''"
definition OperatorClaimEligibilitySuspend :: string where "OperatorClaimEligibilitySuspend = ''suspend''"
definition OperatorClaimEligibilityReinstate :: string where
  "OperatorClaimEligibilityReinstate = ''reinstate''"
definition OperatorEligibilityActive :: string where "OperatorEligibilityActive = ''active''"
definition OperatorEligibilitySuspended :: string where "OperatorEligibilitySuspended = ''suspended''"
definition OperatorEligibilityInactive :: string where "OperatorEligibilityInactive = ''inactive''"
definition OperatorEligibilityPartial :: string where "OperatorEligibilityPartial = ''partially-suspended''"
definition OperatorVerificationStatusPendingReview :: string where
  "OperatorVerificationStatusPendingReview = ''PENDING_REVIEW''"
definition OperatorVerificationStatusApproved :: string where
  "OperatorVerificationStatusApproved = ''APPROVED''"
definition OperatorVerificationStatusRejected :: string where
  "OperatorVerificationStatusRejected = ''REJECTED''"
definition OperatorVerificationStatusWithdrawn :: string where
  "OperatorVerificationStatusWithdrawn = ''WITHDRAWN''"
definition LeaderboardFormulaVersion :: string where
  "LeaderboardFormulaVersion = ''six-complete-month-average-v1''"
definition LeaderboardRulesetVersion :: string where "LeaderboardRulesetVersion = ''qmau-v1''"

lemmas operator_constants =
  OperatorActionPath_def OperatorClaimStatusPathPrefix_def LeaderboardPath_def
  OperatorActionClaim_def OperatorActionWithdrawClaim_def OperatorActionIssueClientToken_def
  OperatorActionRevokeClientToken_def OperatorActionRedeemClientToken_def OperatorActionRevokeGroupLink_def
  OperatorActionDeactivateDeployment_def OperatorActionReactivateDeployment_def OperatorAuditZeroHash_def
  OperatorClaimReviewZeroHash_def OperatorClaimEligibilityZeroHash_def OperatorClaimStateClaimed_def
  OperatorClaimStatePendingReview_def OperatorClaimStateApproved_def OperatorClaimStateRejected_def
  OperatorClaimStateWithdrawn_def OperatorClaimReviewApproved_def OperatorClaimReviewRejected_def
  OperatorClaimEligibilitySuspend_def OperatorClaimEligibilityReinstate_def OperatorEligibilityActive_def
  OperatorEligibilitySuspended_def OperatorEligibilityInactive_def OperatorEligibilityPartial_def
  OperatorVerificationStatusPendingReview_def OperatorVerificationStatusApproved_def
      OperatorVerificationStatusRejected_def
  OperatorVerificationStatusWithdrawn_def LeaderboardFormulaVersion_def LeaderboardRulesetVersion_def

subsection \<open>Wire records\<close>

record OperatorActionRequest =
  oar_ProtocolVersion :: string
  oar_RegistryScope :: string
  oar_DeploymentID :: string
  oar_Timestamp :: string
  oar_Nonce :: string
  oar_IdempotencyKey :: string
  oar_Action :: string
  oar_OperatorName :: string
  oar_OperatorAvatarURL :: string
  oar_LegalName :: string
  oar_RegistrationNumber :: string
  oar_Jurisdiction :: string
  oar_RegisteredAddress :: string
  oar_Website :: string
  oar_VerificationContactName :: string
  oar_VerificationContactRole :: string
  oar_VerificationContactEmail :: string
  oar_AuthorityAttested :: bool
  oar_ClientToken :: string
  oar_TokenTTLSeconds :: int
  oar_TokenID :: string
  oar_LinkID :: string
  oar_PayloadHash :: string
  oar_Signature :: string

record OperatorActionReceipt =
  oarc_AuditIndex :: int
  oarc_AuditHash :: string
  oarc_PreviousAuditHash :: string
  oarc_ActionID :: string
  oarc_DeploymentID :: string
  oarc_SubjectDeploymentID :: string
  oarc_RelatedDeploymentID :: string
  oarc_Action :: string
  oarc_AcceptedAt :: string
  oarc_ClaimState :: string
  oarc_GroupID :: string
  oarc_LinkID :: string
  oarc_TokenID :: string
  oarc_ClientToken :: string
  oarc_ClientTokenHash :: string
  oarc_SourceClaimActionID :: string
  oarc_SourcePrivateRecordHash :: string
  oarc_TokenExpiresAt :: string
  oarc_RegistryScope :: string
  oarc_RegistryKeyID :: string
  oarc_Signature :: string

record OperatorActionResponse =
  oaresp_ProtocolVersion :: string
  oaresp_RegistryScope :: string
  oaresp_Duplicate :: bool
  oaresp_Receipt :: OperatorActionReceipt

record OperatorClaimStatusReceipt =
  ocsr_DeploymentID :: string
  ocsr_ClaimActionID :: string
  ocsr_ClaimAuditIndex :: int
  ocsr_ClaimAuditHash :: string
  ocsr_GroupID :: string
  ocsr_LegalName :: string
  ocsr_VerificationStatus :: string
  ocsr_SubmittedAt :: string
  ocsr_ReviewID :: string
  ocsr_ReviewIndex :: int
  ocsr_ReviewHash :: string
  ocsr_ApprovedAt :: string
  ocsr_EligibilityStatus :: string
  ocsr_EligibilityID :: string
  ocsr_EligibilityIndex :: int
  ocsr_EligibilityHash :: string
  ocsr_RegistryScope :: string
  ocsr_RegistryKeyID :: string
  ocsr_Signature :: string

record OperatorClaimStatusResponse =
  ocsresp_ProtocolVersion :: string
  ocsresp_RegistryScope :: string
  ocsresp_Status :: OperatorClaimStatusReceipt

record OperatorClaimReviewReceipt =
  ocrr_ReviewIndex :: int
  ocrr_ReviewID :: string
  ocrr_DeploymentID :: string
  ocrr_ClaimActionID :: string
  ocrr_GroupID :: string
  ocrr_LegalName :: string
  ocrr_Decision :: string
  ocrr_ReviewerID :: string
  ocrr_ReviewReference :: string
  ocrr_ReasonCode :: string
  ocrr_IdempotencyKey :: string
  ocrr_ReviewedAt :: string
  ocrr_PreviousReviewHash :: string
  ocrr_ReviewHash :: string
  ocrr_RegistryScope :: string
  ocrr_RegistryKeyID :: string
  ocrr_Signature :: string

record OperatorClaimReviewResult =
  ocrres_Duplicate :: bool
  ocrres_Receipt :: OperatorClaimReviewReceipt

record OperatorClaimReviewListItem =
  ocrli_DeploymentID :: string
  ocrli_ClaimActionID :: string
  ocrli_GroupID :: string
  ocrli_LegalName :: string
  ocrli_VerificationStatus :: string
  ocrli_SubmittedAt :: string
  ocrli_ApprovedAt :: string
  ocrli_ReviewID :: string
  ocrli_EligibilityStatus :: string

record OperatorClaimReviewDetail =
  ocrd_OperatorClaimReviewListItem :: OperatorClaimReviewListItem
  ocrd_RegistrationNumber :: string
  ocrd_Jurisdiction :: string
  ocrd_RegisteredAddress :: string
  ocrd_Website :: string
  ocrd_VerificationContactName :: string
  ocrd_VerificationContactRole :: string
  ocrd_VerificationContactEmail :: string
  ocrd_AuthorityAttested :: bool

record OperatorClaimReviewListPage =
  ocrlp_Items :: "OperatorClaimReviewListItem list"
  ocrlp_NextDeploymentID :: string

record OperatorClaimEligibilityReceipt =
  ocer_EligibilityIndex :: int
  ocer_EligibilityID :: string
  ocer_DeploymentID :: string
  ocer_ClaimActionID :: string
  ocer_GroupID :: string
  ocer_LegalName :: string
  ocer_Decision :: string
  ocer_ActorID :: string
  ocer_DecisionReference :: string
  ocer_ReasonCode :: string
  ocer_IdempotencyKey :: string
  ocer_DecidedAt :: string
  ocer_PreviousEligibilityHash :: string
  ocer_EligibilityHash :: string
  ocer_RegistryScope :: string
  ocer_RegistryKeyID :: string
  ocer_Signature :: string

record OperatorClaimEligibilityResult =
  oceres_Duplicate :: bool
  oceres_Receipt :: OperatorClaimEligibilityReceipt

record LeaderboardSnapshotDto =
  lsd_SnapshotID :: string
  lsd_FormulaVersion :: string
  lsd_RulesetVersion :: string
  lsd_ThroughPeriod :: string
  lsd_ThroughLedgerIndex :: int
  lsd_ThroughAuditIndex :: int
  lsd_ThroughReviewIndex :: int
  lsd_ThroughEligibilityIndex :: int
  lsd_ThroughTransferEventIndex :: int
  lsd_LedgerHeadHash :: string
  lsd_AuditHeadHash :: string
  lsd_ReviewHeadHash :: string
  lsd_EligibilityHeadHash :: string
  lsd_TransferEventHeadHash :: string
  lsd_FounderUnitsNumerator :: string
  lsd_FounderUnitsDenominator :: string
  lsd_FounderShareNumerator :: string
  lsd_FounderShareDenominator :: string
  lsd_MeasuredWeightNumerator :: string
  lsd_MeasuredWeightDenominator :: string
  lsd_ClaimedWeightNumerator :: string
  lsd_ClaimedWeightDenominator :: string
  lsd_CreatedAt :: string
  lsd_SnapshotHash :: string
  lsd_RegistryScope :: string
  lsd_RegistryKeyID :: string
  lsd_Signature :: string

record LeaderboardRowDto =
  lrd_RowID :: string
  lrd_View :: string
  lrd_GroupID :: string
  lrd_Label :: string
  lrd_AvatarURL :: string
  lrd_ClaimState :: string
  lrd_EligibilityStatus :: string
  lrd_DeploymentCount :: int
  lrd_WeightNumerator :: string
  lrd_WeightDenominator :: string
  lrd_ShareNumerator :: string
  lrd_ShareDenominator :: string

record LeaderboardPageDto =
  lpd_Snapshot :: LeaderboardSnapshotDto
  lpd_View :: string
  lpd_Items :: "LeaderboardRowDto list"
  lpd_NextCursor :: string

record LeaderboardDeploymentDto =
  ldd_DeploymentID :: string
  ldd_GroupID :: string
  ldd_ClaimState :: string
  ldd_EligibilityStatus :: string
  ldd_MembershipState :: string
  ldd_WeightNumerator :: string
  ldd_WeightDenominator :: string
  ldd_ShareNumerator :: string
  ldd_ShareDenominator :: string

record LeaderboardDeploymentPageDto =
  ldpd_Snapshot :: LeaderboardSnapshotDto
  ldpd_GroupID :: string
  ldpd_Items :: "LeaderboardDeploymentDto list"
  ldpd_NextCursor :: string

subsection \<open>Messages\<close>

definition OperatorActionPayload :: "string \<Rightarrow> string \<Rightarrow> string \<Rightarrow>
    string \<Rightarrow> int \<Rightarrow> string \<Rightarrow> string \<Rightarrow> bytes" where
  "OperatorActionPayload action operatorName operatorAvatarURL clientTokenHash tokenTTLSeconds
      tokenID linkID = canonical
    [''myscoutee-registry-operator-action-payload-v1'', action, operatorName, operatorAvatarURL,
     clientTokenHash, FormatInt tokenTTLSeconds, tokenID, linkID]"

definition OperatorClaimPayload where
  "OperatorClaimPayload legalName registrationNumber jurisdiction registeredAddress website
      verificationContactName verificationContactRole verificationContactEmail authorityAttested
      operatorAvatarURL = canonical
    [''myscoutee-registry-operator-claim-payload-v2'', OperatorActionClaim, legalName,
     registrationNumber, jurisdiction, registeredAddress, website, verificationContactName,
     verificationContactRole, verificationContactEmail, FormatBool authorityAttested,
     operatorAvatarURL]"

definition OperatorAuditMessage where
  "OperatorAuditMessage auditIndex actionID deploymentID subjectDeploymentID relatedDeploymentID
      action payloadHash acceptedAt claimState groupID linkID tokenID clientTokenHash
      sourceClaimActionID sourcePrivateRecordHash tokenExpiresAt previousAuditHash =
     (if sourceClaimActionID \<noteq> [] \<or> sourcePrivateRecordHash \<noteq> []
      then canonical
        [''myscoutee-registry-operator-audit-v2'', FormatInt auditIndex, actionID, deploymentID,
         subjectDeploymentID, relatedDeploymentID, action, payloadHash, acceptedAt, claimState,
         groupID, linkID, tokenID, clientTokenHash, sourceClaimActionID, sourcePrivateRecordHash,
         tokenExpiresAt, previousAuditHash]
      else canonical
        [''myscoutee-registry-operator-audit-v1'', FormatInt auditIndex, actionID, deploymentID,
         subjectDeploymentID, relatedDeploymentID, action, payloadHash, acceptedAt, claimState,
         groupID, linkID, tokenID, clientTokenHash, tokenExpiresAt, previousAuditHash])"

definition OperatorActionReceiptMessage :: "OperatorActionReceipt \<Rightarrow> bytes" where
  "OperatorActionReceiptMessage receipt = 
     (if oarc_SourceClaimActionID receipt \<noteq> [] \<or> oarc_SourcePrivateRecordHash receipt \<noteq> []
      then canonical
        [''myscoutee-registry-operator-action-receipt-v2'', FormatInt (oarc_AuditIndex receipt),
         oarc_AuditHash receipt, oarc_PreviousAuditHash receipt, oarc_ActionID receipt,
         oarc_DeploymentID receipt, oarc_SubjectDeploymentID receipt,
         oarc_RelatedDeploymentID receipt, oarc_Action receipt, oarc_AcceptedAt receipt,
         oarc_ClaimState receipt, oarc_GroupID receipt, oarc_LinkID receipt, oarc_TokenID receipt,
         oarc_ClientTokenHash receipt, oarc_SourceClaimActionID receipt,
         oarc_SourcePrivateRecordHash receipt, oarc_TokenExpiresAt receipt,
         oarc_RegistryScope receipt, oarc_RegistryKeyID receipt]
      else canonical
        [''myscoutee-registry-operator-action-receipt-v1'', FormatInt (oarc_AuditIndex receipt),
         oarc_AuditHash receipt, oarc_PreviousAuditHash receipt, oarc_ActionID receipt,
         oarc_DeploymentID receipt, oarc_SubjectDeploymentID receipt,
         oarc_RelatedDeploymentID receipt, oarc_Action receipt, oarc_AcceptedAt receipt,
         oarc_ClaimState receipt, oarc_GroupID receipt, oarc_LinkID receipt, oarc_TokenID receipt,
         oarc_ClientTokenHash receipt, oarc_TokenExpiresAt receipt, oarc_RegistryScope receipt,
         oarc_RegistryKeyID receipt])"

definition OperatorClaimPrivateRecordMessage where
  "OperatorClaimPrivateRecordMessage claimActionID deploymentID groupID payloadHash legalName
      registrationNumber jurisdiction registeredAddress website verificationContactName
      verificationContactRole verificationContactEmail authorityAttested operatorAvatarURL submittedAt =
      canonical
    [''myscoutee-registry-operator-claim-private-record-v1'', claimActionID, deploymentID,
     groupID, payloadHash, legalName, registrationNumber, jurisdiction, registeredAddress,
     website, verificationContactName, verificationContactRole, verificationContactEmail,
     FormatBool authorityAttested, operatorAvatarURL, submittedAt]"

definition OperatorClaimReviewHashMessage :: "OperatorClaimReviewReceipt \<Rightarrow> bytes" where
  "OperatorClaimReviewHashMessage receipt = 
     (if ocrr_ReasonCode receipt \<noteq> []
      then canonical
        [''myscoutee-registry-operator-claim-review-v2'', FormatInt (ocrr_ReviewIndex receipt),
         ocrr_ReviewID receipt, ocrr_DeploymentID receipt, ocrr_ClaimActionID receipt,
         ocrr_GroupID receipt, ocrr_LegalName receipt, ocrr_Decision receipt,
         ocrr_ReviewerID receipt, ocrr_ReviewReference receipt, ocrr_ReasonCode receipt,
         ocrr_IdempotencyKey receipt, ocrr_ReviewedAt receipt, ocrr_PreviousReviewHash receipt,
         ocrr_RegistryScope receipt, ocrr_RegistryKeyID receipt]
      else canonical
        [''myscoutee-registry-operator-claim-review-v1'', FormatInt (ocrr_ReviewIndex receipt),
         ocrr_ReviewID receipt, ocrr_DeploymentID receipt, ocrr_ClaimActionID receipt,
         ocrr_GroupID receipt, ocrr_LegalName receipt, ocrr_Decision receipt,
         ocrr_ReviewerID receipt, ocrr_ReviewReference receipt, ocrr_IdempotencyKey receipt,
         ocrr_ReviewedAt receipt, ocrr_PreviousReviewHash receipt, ocrr_RegistryScope receipt,
         ocrr_RegistryKeyID receipt])"

definition OperatorClaimReviewReceiptMessage :: "OperatorClaimReviewReceipt \<Rightarrow> bytes" where
  "OperatorClaimReviewReceiptMessage receipt = canonical
    [''myscoutee-registry-operator-claim-review-receipt-v1'', ocrr_ReviewHash receipt,
     ocrr_RegistryKeyID receipt]"

definition OperatorClaimStatusReceiptMessage :: "OperatorClaimStatusReceipt \<Rightarrow> bytes" where
  "OperatorClaimStatusReceiptMessage status = canonical
    [''myscoutee-registry-operator-claim-status-receipt-v2'', ocsr_DeploymentID status,
     ocsr_ClaimActionID status, FormatInt (ocsr_ClaimAuditIndex status),
     ocsr_ClaimAuditHash status, ocsr_GroupID status, ocsr_LegalName status,
     ocsr_VerificationStatus status, ocsr_SubmittedAt status, ocsr_ReviewID status,
     FormatInt (ocsr_ReviewIndex status), ocsr_ReviewHash status, ocsr_ApprovedAt status,
     ocsr_EligibilityStatus status, ocsr_EligibilityID status,
     FormatInt (ocsr_EligibilityIndex status), ocsr_EligibilityHash status,
     ocsr_RegistryScope status, ocsr_RegistryKeyID status]"

definition OperatorClaimEligibilityHashMessage :: "OperatorClaimEligibilityReceipt \<Rightarrow> bytes" where
  "OperatorClaimEligibilityHashMessage receipt = canonical
    [''myscoutee-registry-operator-claim-eligibility-v1'',
     FormatInt (ocer_EligibilityIndex receipt), ocer_EligibilityID receipt,
     ocer_DeploymentID receipt, ocer_ClaimActionID receipt, ocer_GroupID receipt,
     ocer_LegalName receipt, ocer_Decision receipt, ocer_ActorID receipt,
     ocer_DecisionReference receipt, ocer_ReasonCode receipt, ocer_IdempotencyKey receipt,
     ocer_DecidedAt receipt, ocer_PreviousEligibilityHash receipt, ocer_RegistryScope receipt,
     ocer_RegistryKeyID receipt]"

definition OperatorClaimEligibilityReceiptMessage :: "OperatorClaimEligibilityReceipt \<Rightarrow>
    bytes" where
  "OperatorClaimEligibilityReceiptMessage receipt = canonical
    [''myscoutee-registry-operator-claim-eligibility-receipt-v1'', ocer_EligibilityHash receipt,
     ocer_RegistryKeyID receipt]"

definition LeaderboardSnapshotMessage :: "LeaderboardSnapshotDto \<Rightarrow> bytes" where
  "LeaderboardSnapshotMessage snapshot = canonical
    [''myscoutee-registry-leaderboard-snapshot-receipt-v1'', lsd_SnapshotHash snapshot,
     lsd_RegistryKeyID snapshot]"

definition LeaderboardSnapshotHashMessage :: "LeaderboardSnapshotDto \<Rightarrow> bytes" where
  "LeaderboardSnapshotHashMessage snapshot = canonical
    [''myscoutee-registry-leaderboard-snapshot-hash-v3'', lsd_SnapshotID snapshot,
     lsd_FormulaVersion snapshot, lsd_RulesetVersion snapshot, lsd_ThroughPeriod snapshot,
     FormatInt (lsd_ThroughLedgerIndex snapshot), FormatInt (lsd_ThroughAuditIndex snapshot),
     FormatInt (lsd_ThroughReviewIndex snapshot),
     FormatInt (lsd_ThroughEligibilityIndex snapshot),
     FormatInt (lsd_ThroughTransferEventIndex snapshot), lsd_LedgerHeadHash snapshot,
     lsd_AuditHeadHash snapshot, lsd_ReviewHeadHash snapshot, lsd_EligibilityHeadHash snapshot,
     lsd_TransferEventHeadHash snapshot, lsd_FounderUnitsNumerator snapshot,
     lsd_FounderUnitsDenominator snapshot, lsd_FounderShareNumerator snapshot,
     lsd_FounderShareDenominator snapshot, lsd_MeasuredWeightNumerator snapshot,
     lsd_MeasuredWeightDenominator snapshot, lsd_ClaimedWeightNumerator snapshot,
     lsd_ClaimedWeightDenominator snapshot, lsd_CreatedAt snapshot, lsd_RegistryScope snapshot,
     lsd_RegistryKeyID snapshot]"

subsection \<open>Reason codes\<close>

definition IsOperatorClaimReviewReasonCode :: "string \<Rightarrow> bool" where
  "IsOperatorClaimReviewReasonCode value \<longleftrightarrow>
     3 \<le> length value \<and> length value \<le> 64 \<and> CHR ''a'' \<le> hd value \<and> hd
         value \<le> CHR ''z'' \<and>
     list_all (\<lambda>character. CHR ''a'' \<le> character \<and> character \<le> CHR ''z'' \<or>
       CHR ''0'' \<le> character \<and> character \<le> CHR ''9'' \<or> character = CHR ''-'') (tl value)"

definition IsOperatorClaimEligibilityReasonCode :: "string \<Rightarrow> bool" where
  "IsOperatorClaimEligibilityReasonCode value \<longleftrightarrow> IsOperatorClaimReviewReasonCode value"


end
