(* ===== verification/Protocol_Exit.thy ===== *)
theory Protocol_Exit
  imports Protocol_Core
begin

text \<open>
  \<open>registry/protocol/exit_review.go\<close>, \<open>ownership_transfer.go\<close> and
      \<open>exit_allocation.go\<close>: the records of exit reviews,
  ownership transfers and exit allocations, their states and actions, and the messages that are
      hashed and signed.
\<close>

subsection \<open>Constants\<close>

definition ExitReviewRulesetVersion :: string where "ExitReviewRulesetVersion = ''exit-review-v1''"
definition ExitReviewStatusPending :: string where "ExitReviewStatusPending = ''review-pending''"
definition ExitReviewStatusEligible :: string where "ExitReviewStatusEligible = ''verified-eligible''"
definition ExitReviewStatusRejected :: string where "ExitReviewStatusRejected = ''rejected''"
definition ExitReviewStatusDisputed :: string where "ExitReviewStatusDisputed = ''disputed''"
definition ExitReviewStatusWithdrawn :: string where "ExitReviewStatusWithdrawn = ''withdrawn''"
definition ExitReviewActionFreeze :: string where "ExitReviewActionFreeze = ''freeze''"
definition ExitReviewActionVerify :: string where "ExitReviewActionVerify = ''verify''"
definition ExitReviewActionReject :: string where "ExitReviewActionReject = ''reject''"
definition ExitReviewActionDispute :: string where "ExitReviewActionDispute = ''dispute''"
definition ExitReviewActionWithdraw :: string where "ExitReviewActionWithdraw = ''withdraw''"
definition ExitReviewActorBuyer :: string where "ExitReviewActorBuyer = ''buyer''"
definition ExitReviewActorAuditor :: string where "ExitReviewActorAuditor = ''auditor''"
definition ExitReviewZeroHash :: string where "ExitReviewZeroHash = ZeroHash"
definition OwnershipTransferRulesetVersion :: string where
  "OwnershipTransferRulesetVersion = ''ownership-transfer-v1''"
definition OwnershipTransferStatusPrepared :: string where "OwnershipTransferStatusPrepared = ''prepared''"
definition OwnershipTransferStatusApproved :: string where "OwnershipTransferStatusApproved = ''approved''"
definition OwnershipTransferStatusRejected :: string where "OwnershipTransferStatusRejected = ''rejected''"
definition OwnershipTransferStatusCancelled :: string where "OwnershipTransferStatusCancelled = ''cancelled''"
definition OwnershipTransferStatusCompleted :: string where "OwnershipTransferStatusCompleted = ''completed''"
definition OwnershipTransferActionPrepare :: string where "OwnershipTransferActionPrepare = ''prepare''"
definition OwnershipTransferActionApprove :: string where "OwnershipTransferActionApprove = ''approve''"
definition OwnershipTransferActionReject :: string where "OwnershipTransferActionReject = ''reject''"
definition OwnershipTransferActionCancel :: string where "OwnershipTransferActionCancel = ''cancel''"
definition OwnershipTransferActionComplete :: string where "OwnershipTransferActionComplete = ''complete''"
definition OwnershipTransferActorRequester :: string where "OwnershipTransferActorRequester = ''requester''"
definition OwnershipTransferActorManager :: string where
  "OwnershipTransferActorManager = ''registry-manager''"
definition OwnershipTransferZeroHash :: string where "OwnershipTransferZeroHash = ZeroHash"
definition ExitAllocationRulesetVersion :: string where
  "ExitAllocationRulesetVersion = ''final-exit-allocation-v1''"
definition ExitAllocationDecisionCompletedTransfer :: string where
  "ExitAllocationDecisionCompletedTransfer = ''completed-transfer''"
definition ExitAllocationDecisionNoTransfer :: string where
  "ExitAllocationDecisionNoTransfer = ''no-transfer''"
definition ExitAllocationBeneficiaryOperatorGroup :: string where
  "ExitAllocationBeneficiaryOperatorGroup = ''OPERATOR_GROUP''"
definition ExitAllocationBeneficiaryContract :: string where
  "ExitAllocationBeneficiaryContract = ''CONTRACT_BENEFICIARY''"
definition ExitAllocationStatusRecorded :: string where "ExitAllocationStatusRecorded = ''recorded''"
definition ExitAllocationStatusVerifiedFinal :: string where
  "ExitAllocationStatusVerifiedFinal = ''verified-final''"
definition ExitAllocationActionCreate :: string where "ExitAllocationActionCreate = ''create''"
definition ExitAllocationActionVerify :: string where "ExitAllocationActionVerify = ''verify''"
definition ExitAllocationActorAllocator :: string where "ExitAllocationActorAllocator = ''allocator''"
definition ExitAllocationActorVerifier :: string where "ExitAllocationActorVerifier = ''registry-verifier''"
definition ExitAllocationZeroHash :: string where "ExitAllocationZeroHash = ZeroHash"

lemmas exit_constants =
  ExitReviewRulesetVersion_def ExitReviewStatusPending_def ExitReviewStatusEligible_def
  ExitReviewStatusRejected_def ExitReviewStatusDisputed_def ExitReviewStatusWithdrawn_def
  ExitReviewActionFreeze_def ExitReviewActionVerify_def ExitReviewActionReject_def
  ExitReviewActionDispute_def ExitReviewActionWithdraw_def ExitReviewActorBuyer_def
  ExitReviewActorAuditor_def ExitReviewZeroHash_def OwnershipTransferRulesetVersion_def
  OwnershipTransferStatusPrepared_def OwnershipTransferStatusApproved_def OwnershipTransferStatusRejected_def
  OwnershipTransferStatusCancelled_def OwnershipTransferStatusCompleted_def OwnershipTransferActionPrepare_def
  OwnershipTransferActionApprove_def OwnershipTransferActionReject_def OwnershipTransferActionCancel_def
  OwnershipTransferActionComplete_def OwnershipTransferActorRequester_def OwnershipTransferActorManager_def
  OwnershipTransferZeroHash_def ExitAllocationRulesetVersion_def ExitAllocationDecisionCompletedTransfer_def
  ExitAllocationDecisionNoTransfer_def ExitAllocationBeneficiaryOperatorGroup_def
      ExitAllocationBeneficiaryContract_def
  ExitAllocationStatusRecorded_def ExitAllocationStatusVerifiedFinal_def ExitAllocationActionCreate_def
  ExitAllocationActionVerify_def ExitAllocationActorAllocator_def ExitAllocationActorVerifier_def
  ExitAllocationZeroHash_def

subsection \<open>Wire records\<close>

record ExitReviewDeployment =
  exd_MemberOrder :: int
  exd_DeploymentID :: string
  exd_ClaimActionID :: string
  exd_ClaimState :: string
  exd_EligibilityState :: string
  exd_ClaimAuditIndex :: int
  exd_ClaimAuditHash :: string
  exd_ReviewIndex :: int
  exd_ReviewHash :: string
  exd_EligibilityIndex :: int
  exd_EligibilityHash :: string

record ExitReviewSettlementBoundary =
  exb_BoundaryOrder :: int
  exb_SettlementID :: string
  exb_Period :: string
  exb_CurrencyCode :: string
  exb_Revision :: int
  exb_LedgerIndex :: int
  exb_SettlementHash :: string
  exb_SourceFingerprint :: string
  exb_AllocationHash :: string

record ExitReviewRecord =
  exr_ReviewID :: string
  exr_RulesetVersion :: string
  exr_RecordDate :: string
  exr_TargetDeploymentID :: string
  exr_ClaimActionID :: string
  exr_GroupID :: string
  exr_LegalName :: string
  exr_CheckpointHash :: string
  exr_ThroughLedgerIndex :: int
  exr_LedgerHeadHash :: string
  exr_MerkleTreeSize :: int
  exr_MerkleRootHash :: string
  exr_ThroughAuditIndex :: int
  exr_AuditHeadHash :: string
  exr_ThroughReviewIndex :: int
  exr_ClaimReviewHeadHash :: string
  exr_ThroughEligibilityIndex :: int
  exr_EligibilityHeadHash :: string
  exr_ThroughSettlementLedgerIndex :: int
  exr_SettlementBoundaryCount :: int
  exr_SettlementBoundaryHash :: string
  exr_DeploymentCount :: int
  exr_MembershipHash :: string
  exr_FrozenAt :: string
  exr_RecordHash :: string
  exr_RegistryScope :: string
  exr_RegistryKeyID :: string
  exr_Deployments :: "ExitReviewDeployment list"
  exr_Settlements :: "ExitReviewSettlementBoundary list"

record ExitReviewEvent =
  exe_EventIndex :: int
  exe_EventID :: string
  exe_ReviewID :: string
  exe_Action :: string
  exe_ResultingStatus :: string
  exe_EffectiveDate :: string
  exe_ActorRole :: string
  exe_ActorID :: string
  exe_Reference :: string
  exe_EvidenceHash :: string
  exe_ReasonCode :: string
  exe_IdempotencyKey :: string
  exe_PayloadHash :: string
  exe_RecordHash :: string
  exe_AcceptedAt :: string
  exe_PreviousEventHash :: string
  exe_PreviousReviewEventHash :: string
  exe_EventHash :: string
  exe_RegistryScope :: string
  exe_RegistryKeyID :: string
  exe_Signature :: string

record ExitReview =
  ex_Record :: ExitReviewRecord
  ex_Status :: string
  ex_LatestEventIndex :: int
  ex_LatestEventHash :: string
  ex_LatestAction :: string
  ex_LatestEffectiveDate :: string
  ex_LatestActorRole :: string
  ex_LatestActorID :: string
  ex_LatestReference :: string
  ex_LatestEvidenceHash :: string
  ex_LatestReasonCode :: string
  ex_LatestAcceptedAt :: string
  ex_Events :: "ExitReviewEvent list"

record ExitReviewMutationResult =
  exmr_Duplicate :: bool
  exmr_Review :: ExitReview
  exmr_Event :: ExitReviewEvent

record ExitReviewPage =
  exp_Items :: "ExitReview list"
  exp_NextEventIndex :: int

record OwnershipTransferRecord =
  otr_TransferID :: string
  otr_RulesetVersion :: string
  otr_ExitReviewID :: string
  otr_TargetDeploymentID :: string
  otr_ClaimActionID :: string
  otr_SourceGroupID :: string
  otr_TargetGroupID :: string
  otr_LegalName :: string
  otr_ExitRecordHash :: string
  otr_ExitVerificationEventIndex :: int
  otr_ExitVerificationEventHash :: string
  otr_ExitEvidenceHash :: string
  otr_PreparedAt :: string
  otr_RecordHash :: string
  otr_RegistryScope :: string
  otr_RegistryKeyID :: string

record OwnershipTransferEvent =
  ote_EventIndex :: int
  ote_EventID :: string
  ote_TransferID :: string
  ote_Action :: string
  ote_ResultingStatus :: string
  ote_EffectiveDate :: string
  ote_ActorRole :: string
  ote_ActorID :: string
  ote_Reference :: string
  ote_EvidenceHash :: string
  ote_ReasonCode :: string
  ote_IdempotencyKey :: string
  ote_PayloadHash :: string
  ote_RecordHash :: string
  ote_AcceptedAt :: string
  ote_PreviousEventHash :: string
  ote_PreviousTransferEventHash :: string
  ote_EventHash :: string
  ote_RegistryScope :: string
  ote_RegistryKeyID :: string
  ote_Signature :: string

record OwnershipTransferMembership =
  otm_TransferID :: string
  otm_CompletionEventIndex :: int
  otm_CompletionEventHash :: string
  otm_TargetDeploymentID :: string
  otm_ClaimActionID :: string
  otm_SourceGroupID :: string
  otm_TargetGroupID :: string
  otm_EffectiveDate :: string
  otm_ThroughAuditIndex :: int
  otm_AuditHeadHash :: string
  otm_CompletedAt :: string
  otm_MembershipHash :: string

record OwnershipTransfer =
  ot_Record :: OwnershipTransferRecord
  ot_Status :: string
  ot_LatestEventIndex :: int
  ot_LatestEventHash :: string
  ot_LatestAction :: string
  ot_LatestEffectiveDate :: string
  ot_LatestActorRole :: string
  ot_LatestActorID :: string
  ot_LatestReference :: string
  ot_LatestEvidenceHash :: string
  ot_LatestReasonCode :: string
  ot_LatestAcceptedAt :: string
  ot_Membership :: "OwnershipTransferMembership option"
  ot_Events :: "OwnershipTransferEvent list"

record OwnershipTransferMutationResult =
  otmr_Duplicate :: bool
  otmr_Transfer :: OwnershipTransfer
  otmr_Event :: OwnershipTransferEvent

record OwnershipTransferPage =
  otp_Items :: "OwnershipTransfer list"
  otp_NextEventIndex :: int

record ExitAllocationSettlementSource =
  eass_BoundaryOrder :: int
  eass_SettlementID :: string
  eass_Period :: string
  eass_CurrencyCode :: string
  eass_FractionDigits :: int
  eass_Revision :: int
  eass_LedgerIndex :: int
  eass_SettlementHash :: string
  eass_SourceFingerprint :: string
  eass_SettlementAllocationHash :: string
  eass_DistributableMinor :: int

record ExitAllocationCurrency =
  eac_AllocationOrder :: int
  eac_CurrencyCode :: string
  eac_FractionDigits :: int
  eac_DistributableMinor :: int
  eac_AllocatedMinor :: int
  eac_BeneficiaryType :: string
  eac_BeneficiaryID :: string

record ExitAllocationRecord =
  ear_AllocationID :: string
  ear_RulesetVersion :: string
  ear_ExitReviewID :: string
  ear_TargetDeploymentID :: string
  ear_ClaimActionID :: string
  ear_SourceGroupID :: string
  ear_ExitRecordHash :: string
  ear_ExitVerificationEventIndex :: int
  ear_ExitVerificationEventHash :: string
  ear_ExitEvidenceHash :: string
  ear_DecisionMode :: string
  ear_OwnershipTransferID :: string
  ear_OwnershipTransferCompletionEventIndex :: int
  ear_OwnershipTransferCompletionEventHash :: string
  ear_ThroughOwnershipTransferEventIndex :: int
  ear_OwnershipTransferHeadHash :: string
  ear_BeneficiaryType :: string
  ear_BeneficiaryID :: string
  ear_ContractReference :: string
  ear_ContractTermsHash :: string
  ear_EvidenceHash :: string
  ear_SettlementSourceCount :: int
  ear_SettlementSourceHash :: string
  ear_CurrencyAllocationCount :: int
  ear_CurrencyAllocationHash :: string
  ear_CreatedAt :: string
  ear_RecordHash :: string
  ear_RegistryScope :: string
  ear_RegistryKeyID :: string
  ear_SettlementSources :: "ExitAllocationSettlementSource list"
  ear_CurrencyAllocations :: "ExitAllocationCurrency list"

record ExitAllocationEvent =
  eae_EventIndex :: int
  eae_EventID :: string
  eae_AllocationID :: string
  eae_Action :: string
  eae_ResultingStatus :: string
  eae_ActorRole :: string
  eae_ActorID :: string
  eae_Reference :: string
  eae_EvidenceHash :: string
  eae_IdempotencyKey :: string
  eae_PayloadHash :: string
  eae_RecordHash :: string
  eae_AcceptedAt :: string
  eae_PreviousEventHash :: string
  eae_PreviousAllocationEventHash :: string
  eae_EventHash :: string
  eae_RegistryScope :: string
  eae_RegistryKeyID :: string
  eae_Signature :: string

record ExitAllocation =
  ea_Record :: ExitAllocationRecord
  ea_Status :: string
  ea_LatestEventIndex :: int
  ea_LatestEventHash :: string
  ea_LatestAction :: string
  ea_LatestActorRole :: string
  ea_LatestActorID :: string
  ea_LatestReference :: string
  ea_LatestEvidenceHash :: string
  ea_LatestAcceptedAt :: string
  ea_Events :: "ExitAllocationEvent list"

record ExitAllocationMutationResult =
  eamr_Duplicate :: bool
  eamr_Allocation :: ExitAllocation
  eamr_Event :: ExitAllocationEvent

record ExitAllocationPage =
  eap_Items :: "ExitAllocation list"
  eap_NextEventIndex :: int

subsection \<open>Messages\<close>

definition ExitReviewMembershipHash :: "(bytes \<Rightarrow> bytes) \<Rightarrow>
    ExitReviewDeployment list \<Rightarrow> string" where
  "ExitReviewMembershipHash H members = Digest H (canonical (
    [''myscoutee-registry-exit-review-members-v1'', FormatInt (int (length members))] @
    concat (map (\<lambda>member. [FormatInt (exd_MemberOrder member), exd_DeploymentID member,
        exd_ClaimActionID member,
       exd_ClaimState member, exd_EligibilityState member, FormatInt (exd_ClaimAuditIndex member),
       exd_ClaimAuditHash member, FormatInt (exd_ReviewIndex member), exd_ReviewHash member,
       FormatInt (exd_EligibilityIndex member), exd_EligibilityHash member]) members)))"

definition ExitReviewSettlementBoundaryHash :: "(bytes \<Rightarrow> bytes) \<Rightarrow>
    ExitReviewSettlementBoundary list \<Rightarrow> string" where
  "ExitReviewSettlementBoundaryHash H boundaries = Digest H (canonical (
    [''myscoutee-registry-exit-review-settlements-v1'', FormatInt (int (length boundaries))] @
    concat (map (\<lambda>boundary. [FormatInt (exb_BoundaryOrder boundary), exb_SettlementID
        boundary, exb_Period boundary,
       exb_CurrencyCode boundary, FormatInt (exb_Revision boundary),
       FormatInt (exb_LedgerIndex boundary), exb_SettlementHash boundary,
       exb_SourceFingerprint boundary, exb_AllocationHash boundary]) boundaries)))"

definition ExitReviewRecordHashMessage :: "ExitReviewRecord \<Rightarrow> bytes" where
  "ExitReviewRecordHashMessage record = canonical
    [''myscoutee-registry-exit-review-record-v1'', exr_ReviewID record,
     exr_RulesetVersion record, exr_RecordDate record, exr_TargetDeploymentID record,
     exr_ClaimActionID record, exr_GroupID record, exr_LegalName record,
     exr_CheckpointHash record, FormatInt (exr_ThroughLedgerIndex record),
     exr_LedgerHeadHash record, FormatInt (exr_MerkleTreeSize record),
     exr_MerkleRootHash record, FormatInt (exr_ThroughAuditIndex record),
     exr_AuditHeadHash record, FormatInt (exr_ThroughReviewIndex record),
     exr_ClaimReviewHeadHash record, FormatInt (exr_ThroughEligibilityIndex record),
     exr_EligibilityHeadHash record, FormatInt (exr_ThroughSettlementLedgerIndex record),
     FormatInt (exr_SettlementBoundaryCount record), exr_SettlementBoundaryHash record,
     FormatInt (exr_DeploymentCount record), exr_MembershipHash record, exr_FrozenAt record,
     exr_RegistryScope record, exr_RegistryKeyID record]"

definition ExitReviewEventPayloadMessage :: "ExitReviewEvent \<Rightarrow> bytes" where
  "ExitReviewEventPayloadMessage event = canonical
    [''myscoutee-registry-exit-review-event-payload-v1'', exe_ReviewID event, exe_Action event,
     exe_ResultingStatus event, exe_EffectiveDate event, exe_ActorRole event, exe_ActorID event,
     exe_Reference event, exe_EvidenceHash event, exe_ReasonCode event, exe_RecordHash event]"

definition ExitReviewEventHashMessage :: "ExitReviewEvent \<Rightarrow> bytes" where
  "ExitReviewEventHashMessage event = canonical
    [''myscoutee-registry-exit-review-event-v1'', FormatInt (exe_EventIndex event),
     exe_EventID event, exe_ReviewID event, exe_Action event, exe_ResultingStatus event,
     exe_EffectiveDate event, exe_ActorRole event, exe_ActorID event, exe_Reference event,
     exe_EvidenceHash event, exe_ReasonCode event, exe_IdempotencyKey event,
     exe_PayloadHash event, exe_RecordHash event, exe_AcceptedAt event,
     exe_PreviousEventHash event, exe_PreviousReviewEventHash event, exe_RegistryScope event,
     exe_RegistryKeyID event]"

definition ExitReviewEventReceiptMessage :: "ExitReviewEvent \<Rightarrow> bytes" where
  "ExitReviewEventReceiptMessage event = canonical
    [''myscoutee-registry-exit-review-event-receipt-v1'', exe_EventHash event,
     exe_RegistryKeyID event]"

definition OwnershipTransferRecordHashMessage :: "OwnershipTransferRecord \<Rightarrow> bytes" where
  "OwnershipTransferRecordHashMessage record = canonical
    [''myscoutee-registry-ownership-transfer-record-v1'', otr_TransferID record,
     otr_RulesetVersion record, otr_ExitReviewID record, otr_TargetDeploymentID record,
     otr_ClaimActionID record, otr_SourceGroupID record, otr_TargetGroupID record,
     otr_LegalName record, otr_ExitRecordHash record,
     FormatInt (otr_ExitVerificationEventIndex record), otr_ExitVerificationEventHash record,
     otr_ExitEvidenceHash record, otr_PreparedAt record, otr_RegistryScope record,
     otr_RegistryKeyID record]"

definition OwnershipTransferEventPayloadMessage :: "OwnershipTransferEvent \<Rightarrow> bytes" where
  "OwnershipTransferEventPayloadMessage event = canonical
    [''myscoutee-registry-ownership-transfer-event-payload-v1'', ote_TransferID event,
     ote_Action event, ote_ResultingStatus event, ote_EffectiveDate event, ote_ActorRole event,
     ote_ActorID event, ote_Reference event, ote_EvidenceHash event, ote_ReasonCode event,
     ote_RecordHash event]"

definition OwnershipTransferEventHashMessage :: "OwnershipTransferEvent \<Rightarrow> bytes" where
  "OwnershipTransferEventHashMessage event = canonical
    [''myscoutee-registry-ownership-transfer-event-v1'', FormatInt (ote_EventIndex event),
     ote_EventID event, ote_TransferID event, ote_Action event, ote_ResultingStatus event,
     ote_EffectiveDate event, ote_ActorRole event, ote_ActorID event, ote_Reference event,
     ote_EvidenceHash event, ote_ReasonCode event, ote_IdempotencyKey event,
     ote_PayloadHash event, ote_RecordHash event, ote_AcceptedAt event,
     ote_PreviousEventHash event, ote_PreviousTransferEventHash event, ote_RegistryScope event,
     ote_RegistryKeyID event]"

definition OwnershipTransferEventReceiptMessage :: "OwnershipTransferEvent \<Rightarrow> bytes" where
  "OwnershipTransferEventReceiptMessage event = canonical
    [''myscoutee-registry-ownership-transfer-event-receipt-v1'', ote_EventHash event,
     ote_RegistryKeyID event]"

definition OwnershipTransferMembershipHashMessage :: "OwnershipTransferMembership \<Rightarrow> bytes" where
  "OwnershipTransferMembershipHashMessage membership = canonical
    [''myscoutee-registry-ownership-transfer-membership-v1'', otm_TransferID membership,
     FormatInt (otm_CompletionEventIndex membership), otm_CompletionEventHash membership,
     otm_TargetDeploymentID membership, otm_ClaimActionID membership,
     otm_SourceGroupID membership, otm_TargetGroupID membership, otm_EffectiveDate membership,
     FormatInt (otm_ThroughAuditIndex membership), otm_AuditHeadHash membership,
     otm_CompletedAt membership]"

definition ExitAllocationSettlementSourceHash :: "(bytes \<Rightarrow> bytes) \<Rightarrow>
    ExitAllocationSettlementSource list \<Rightarrow> string" where
  "ExitAllocationSettlementSourceHash H sources = Digest H (canonical (
    [''myscoutee-registry-exit-allocation-settlement-sources-v1'',
     FormatInt (int (length sources))] @
    concat (map (\<lambda>source. [FormatInt (eass_BoundaryOrder source), eass_SettlementID source,
        eass_Period source,
       eass_CurrencyCode source, FormatInt (eass_FractionDigits source),
       FormatInt (eass_Revision source), FormatInt (eass_LedgerIndex source),
       eass_SettlementHash source, eass_SourceFingerprint source,
       eass_SettlementAllocationHash source, FormatInt (eass_DistributableMinor source)]) sources)))"

definition ExitAllocationCurrencyHash :: "(bytes \<Rightarrow> bytes) \<Rightarrow>
    ExitAllocationCurrency list \<Rightarrow> string" where
  "ExitAllocationCurrencyHash H allocations = Digest H (canonical (
    [''myscoutee-registry-exit-allocation-currencies-v1'', FormatInt (int (length allocations))] @
    concat (map (\<lambda>allocation. [FormatInt (eac_AllocationOrder allocation), eac_CurrencyCode
        allocation,
       FormatInt (eac_FractionDigits allocation), FormatInt (eac_DistributableMinor allocation),
       FormatInt (eac_AllocatedMinor allocation), eac_BeneficiaryType allocation,
       eac_BeneficiaryID allocation]) allocations)))"

definition ExitAllocationRecordHashMessage :: "ExitAllocationRecord \<Rightarrow> bytes" where
  "ExitAllocationRecordHashMessage record = canonical
    [''myscoutee-registry-exit-allocation-record-v1'', ear_AllocationID record,
     ear_RulesetVersion record, ear_ExitReviewID record, ear_TargetDeploymentID record,
     ear_ClaimActionID record, ear_SourceGroupID record, ear_ExitRecordHash record,
     FormatInt (ear_ExitVerificationEventIndex record), ear_ExitVerificationEventHash record,
     ear_ExitEvidenceHash record, ear_DecisionMode record, ear_OwnershipTransferID record,
     FormatInt (ear_OwnershipTransferCompletionEventIndex record),
     ear_OwnershipTransferCompletionEventHash record,
     FormatInt (ear_ThroughOwnershipTransferEventIndex record),
     ear_OwnershipTransferHeadHash record, ear_BeneficiaryType record, ear_BeneficiaryID record,
     ear_ContractReference record, ear_ContractTermsHash record, ear_EvidenceHash record,
     FormatInt (ear_SettlementSourceCount record), ear_SettlementSourceHash record,
     FormatInt (ear_CurrencyAllocationCount record), ear_CurrencyAllocationHash record,
     ear_CreatedAt record, ear_RegistryScope record, ear_RegistryKeyID record]"

definition ExitAllocationEventPayloadMessage :: "ExitAllocationEvent \<Rightarrow> bytes" where
  "ExitAllocationEventPayloadMessage event = canonical
    [''myscoutee-registry-exit-allocation-event-payload-v1'', eae_AllocationID event,
     eae_Action event, eae_ResultingStatus event, eae_ActorRole event, eae_ActorID event,
     eae_Reference event, eae_EvidenceHash event, eae_RecordHash event]"

definition ExitAllocationEventHashMessage :: "ExitAllocationEvent \<Rightarrow> bytes" where
  "ExitAllocationEventHashMessage event = canonical
    [''myscoutee-registry-exit-allocation-event-v1'', FormatInt (eae_EventIndex event),
     eae_EventID event, eae_AllocationID event, eae_Action event, eae_ResultingStatus event,
     eae_ActorRole event, eae_ActorID event, eae_Reference event, eae_EvidenceHash event,
     eae_IdempotencyKey event, eae_PayloadHash event, eae_RecordHash event,
     eae_AcceptedAt event, eae_PreviousEventHash event, eae_PreviousAllocationEventHash event,
     eae_RegistryScope event, eae_RegistryKeyID event]"

definition ExitAllocationEventReceiptMessage :: "ExitAllocationEvent \<Rightarrow> bytes" where
  "ExitAllocationEventReceiptMessage event = canonical
    [''myscoutee-registry-exit-allocation-event-receipt-v1'', eae_EventHash event,
     eae_RegistryKeyID event]"


end
