(* ===== verification/Operator_Db.thy ===== *)
theory Operator_Db
  imports Registry_Db Protocol_Operator Protocol_Exit
begin

text \<open>
  The tables of the operator network and of ownership transfers (migrations 0002 to 0018) and the
      records the store exchanges
  with the service (\<open>registry/store/operator.go\<close>,
      \<open>registry/store/ownership_transfer.go\<close>).

  The tables stand in two records of their own beside \<open>registry_db\<close>: an operation takes
      the tables it reads and returns the
  ones it writes.  Inserts check the constraints of the final schema; the two tables of current claim state
  (\<open>operator_claim_status\<close> and \<open>operator_claim_eligibility_current\<close>) are
      the only ones with an \<open>UPDATE\<close>.
\<close>

subsection \<open>Records of the store\<close>

record OperatorActionInput =
  oai_RegistryScope :: string
  oai_DeploymentID :: string
  oai_Action :: string
  oai_RequestTimestamp :: string
  oai_Nonce :: string
  oai_IdempotencyKey :: string
  oai_PayloadHash :: string
  oai_RequestHash :: string
  oai_DeploymentSignature :: bytes
  oai_OperatorName :: string
  oai_OperatorAvatarURL :: string
  oai_LegalName :: string
  oai_RegistrationNumber :: string
  oai_Jurisdiction :: string
  oai_RegisteredAddress :: string
  oai_Website :: string
  oai_VerificationContactName :: string
  oai_VerificationContactRole :: string
  oai_VerificationContactEmail :: string
  oai_AuthorityAttested :: bool
  oai_ClientTokenHash :: string
  oai_TokenTTLSeconds :: int
  oai_TokenID :: string
  oai_LinkID :: string
  oai_CandidateActionID :: string
  oai_CandidateGroupID :: string
  oai_CandidateLinkID :: string
  oai_CandidateTokenID :: string
  oai_CandidateClientTokenHash :: string
  oai_CandidateTokenExpiresAt :: string
  oai_AcceptedAt :: string
  oai_RegistryKeyID :: string

record OperatorAuditEvent =
  oae_AuditIndex :: int
  oae_ActionID :: string
  oae_DeploymentID :: string
  oae_SubjectDeploymentID :: string
  oae_RelatedDeploymentID :: string
  oae_Action :: string
  oae_RequestTimestamp :: string
  oae_Nonce :: string
  oae_IdempotencyKey :: string
  oae_PayloadHash :: string
  oae_RequestHash :: string
  oae_DeploymentSignature :: bytes
  oae_OperatorName :: string
  oae_OperatorAvatarURL :: string
  oae_ClaimState :: string
  oae_GroupID :: string
  oae_LinkID :: string
  oae_TokenID :: string
  oae_ClientTokenHash :: string
  oae_SourceClaimActionID :: string
  oae_SourcePrivateRecordHash :: string
  oae_TokenTTLSeconds :: int
  oae_TokenExpiresAt :: string
  oae_AcceptedAt :: string
  oae_PreviousAuditHash :: string
  oae_AuditHash :: string
  oae_RegistryKeyID :: string
  oae_ReceiptSignature :: bytes

record OperatorClaimSubmission =
  ocs_ClaimActionID :: string
  ocs_DeploymentID :: string
  ocs_GroupID :: string
  ocs_LegalName :: string
  ocs_RegistrationNumber :: string
  ocs_Jurisdiction :: string
  ocs_RegisteredAddress :: string
  ocs_Website :: string
  ocs_VerificationContactName :: string
  ocs_VerificationContactRole :: string
  ocs_VerificationContactEmail :: string
  ocs_AuthorityAttested :: bool
  ocs_OperatorAvatarURL :: string
  ocs_PayloadHash :: string
  ocs_SubmittedAt :: string
  ocs_PrivateRecordHash :: string

record OperatorClaimStatus =
  ocst_DeploymentID :: string
  ocst_ClaimActionID :: string
  ocst_ClaimAuditIndex :: int
  ocst_ClaimAuditHash :: string
  ocst_GroupID :: string
  ocst_LegalName :: string
  ocst_VerificationState :: string
  ocst_SubmittedAt :: string
  ocst_ReviewID :: string
  ocst_ReviewIndex :: int
  ocst_ReviewHash :: string
  ocst_ApprovedAt :: string
  ocst_UpdatedAt :: string
  ocst_PrivateRecordHash :: string
  ocst_EligibilityState :: string
  ocst_EligibilityID :: string
  ocst_EligibilityIndex :: int
  ocst_EligibilityHash :: string

record OperatorClaimEligibilityInput =
  ocei_RegistryScope :: string
  ocei_DeploymentID :: string
  ocei_ClaimActionID :: string
  ocei_GroupID :: string
  ocei_LegalName :: string
  ocei_Decision :: string
  ocei_ActorID :: string
  ocei_DecisionReference :: string
  ocei_ReasonCode :: string
  ocei_IdempotencyKey :: string
  ocei_CandidateEligibilityID :: string
  ocei_DecidedAt :: string
  ocei_RegistryKeyID :: string

record OperatorClaimEligibility =
  oce_EligibilityIndex :: int
  oce_EligibilityID :: string
  oce_DeploymentID :: string
  oce_ClaimActionID :: string
  oce_GroupID :: string
  oce_LegalName :: string
  oce_Decision :: string
  oce_ActorID :: string
  oce_DecisionReference :: string
  oce_ReasonCode :: string
  oce_IdempotencyKey :: string
  oce_DecidedAt :: string
  oce_PreviousEligibilityHash :: string
  oce_EligibilityHash :: string
  oce_RegistryKeyID :: string
  oce_Signature :: bytes

record OperatorClaimReviewInput =
  ocri_RegistryScope :: string
  ocri_DeploymentID :: string
  ocri_ClaimActionID :: string
  ocri_GroupID :: string
  ocri_LegalName :: string
  ocri_Decision :: string
  ocri_ReviewerID :: string
  ocri_ReviewReference :: string
  ocri_ReasonCode :: string
  ocri_IdempotencyKey :: string
  ocri_CandidateReviewID :: string
  ocri_ReviewedAt :: string
  ocri_RegistryKeyID :: string

record OperatorClaimReview =
  ocrw_ReviewIndex :: int
  ocrw_ReviewID :: string
  ocrw_DeploymentID :: string
  ocrw_ClaimActionID :: string
  ocrw_GroupID :: string
  ocrw_LegalName :: string
  ocrw_Decision :: string
  ocrw_ReviewerID :: string
  ocrw_ReviewReference :: string
  ocrw_ReasonCode :: string
  ocrw_IdempotencyKey :: string
  ocrw_ReviewedAt :: string
  ocrw_PreviousReviewHash :: string
  ocrw_ReviewHash :: string
  ocrw_RegistryKeyID :: string
  ocrw_Signature :: bytes

record OperatorClaimQuery =
  ocq_Status :: string
  ocq_Limit :: int
  ocq_AfterDeploymentID :: string

record OperatorClaimPage =
  ocp_Items :: "OperatorClaimStatus list"
  ocp_NextDeploymentID :: string

record LeaderboardRecord =
  lr_RowID :: string
  lr_View :: string
  lr_GroupID :: string
  lr_Label :: string
  lr_AvatarURL :: string
  lr_ClaimState :: string
  lr_EligibilityState :: string
  lr_DeploymentCount :: int
  lr_Weight :: int
  lr_SortWeight :: int

record LeaderboardDeploymentRecord =
  ldr_DeploymentID :: string
  ldr_GroupID :: string
  ldr_ClaimState :: string
  ldr_EligibilityState :: string
  ldr_MembershipState :: string
  ldr_Weight :: int
  ldr_SortWeight :: int

record LeaderboardQuery =
  lq_View :: string
  lq_FromPeriod :: string
  lq_ThroughPeriod :: string
  lq_ThroughLedgerIndex :: int
  lq_ThroughAuditIndex :: int
  lq_ThroughReviewIndex :: int
  lq_ThroughEligibilityIndex :: int
  lq_ThroughTransferEventIndex :: int
  lq_TransferEffectiveDate :: string
  lq_Limit :: int
  lq_AfterWeight :: int
  lq_AfterID :: string
  lq_HasAfter :: bool

record LeaderboardDeploymentQuery =
  ldq_GroupID :: string
  ldq_FromPeriod :: string
  ldq_ThroughPeriod :: string
  ldq_ThroughLedgerIndex :: int
  ldq_ThroughAuditIndex :: int
  ldq_ThroughReviewIndex :: int
  ldq_ThroughEligibilityIndex :: int
  ldq_ThroughTransferEventIndex :: int
  ldq_TransferEffectiveDate :: string
  ldq_Limit :: int
  ldq_AfterWeight :: int
  ldq_AfterID :: string
  ldq_HasAfter :: bool

record LeaderboardTotals =
  lt_MeasuredWeight :: int
  lt_ClaimedWeight :: int

record operatorNetworkStateRow =
  ons_AuditIndex :: int
  ons_ActionID :: string
  ons_DeploymentID :: string
  ons_Claimed :: bool
  ons_Active :: bool
  ons_ClaimState :: string
  ons_ClaimStateAuditIndex :: int
  ons_ProfileClaimAuditIndex :: int
  ons_ClaimGroupID :: string
  ons_EffectiveGroupID :: string
  ons_OperatorName :: string
  ons_OperatorAvatarURL :: string
  ons_ProfileClaimState :: string
  ons_LinkID :: string
  ons_RelatedDeploymentID :: string
  ons_SourceAuditHash :: string
  ons_AcceptedAt :: string

record operatorClaimState =
  ocl_AuditIndex :: int
  ocl_Claimed :: bool
  ocl_ClaimState :: string
  ocl_GroupID :: string
  ocl_OperatorName :: string
  ocl_OperatorAvatarURL :: string

record operatorMembership =
  om_operatorClaimState :: operatorClaimState
  om_LinkID :: string
  om_RelatedDeploymentID :: string

record operatorLink =
  olk_TargetDeploymentID :: string
  olk_IssuerDeploymentID :: string
  olk_GroupID :: string
  olk_LinkID :: string
  olk_TokenID :: string

record operatorToken =
  otk_DeploymentID :: string
  otk_GroupID :: string
  otk_TokenID :: string
  otk_ClientTokenHash :: string
  otk_TokenExpiresAt :: string
  otk_AuditIndex :: int

record StoreOwnershipTransferRecord =
  sotr_TransferID :: string
  sotr_RulesetVersion :: string
  sotr_ExitReviewID :: string
  sotr_TargetDeploymentID :: string
  sotr_ClaimActionID :: string
  sotr_SourceGroupID :: string
  sotr_TargetGroupID :: string
  sotr_LegalName :: string
  sotr_ExitRecordHash :: string
  sotr_ExitVerificationEventIndex :: int
  sotr_ExitVerificationEventHash :: string
  sotr_ExitEvidenceHash :: string
  sotr_PreparedAt :: string
  sotr_RecordHash :: string
  sotr_RegistryScope :: string
  sotr_RegistryKeyID :: string

record StoreOwnershipTransferEvent =
  sote_EventIndex :: int
  sote_EventID :: string
  sote_TransferID :: string
  sote_Action :: string
  sote_ResultingStatus :: string
  sote_EffectiveDate :: string
  sote_ActorRole :: string
  sote_ActorID :: string
  sote_Reference :: string
  sote_EvidenceHash :: string
  sote_ReasonCode :: string
  sote_IdempotencyKey :: string
  sote_PayloadHash :: string
  sote_RecordHash :: string
  sote_AcceptedAt :: string
  sote_PreviousEventHash :: string
  sote_PreviousTransferEventHash :: string
  sote_EventHash :: string
  sote_RegistryScope :: string
  sote_RegistryKeyID :: string
  sote_Signature :: bytes

record StoreOwnershipTransferMembership =
  sotm_TransferID :: string
  sotm_CompletionEventIndex :: int
  sotm_CompletionEventHash :: string
  sotm_TargetDeploymentID :: string
  sotm_ClaimActionID :: string
  sotm_SourceGroupID :: string
  sotm_TargetGroupID :: string
  sotm_EffectiveDate :: string
  sotm_ThroughAuditIndex :: int
  sotm_AuditHeadHash :: string
  sotm_CompletedAt :: string
  sotm_MembershipHash :: string

record ownershipTransferState =
  ots_EventIndex :: int
  ots_EventHash :: string
  ots_TransferID :: string
  ots_Status :: string
  ots_TargetDeploymentID :: string
  ots_ClaimActionID :: string
  ots_SourceGroupID :: string
  ots_TargetGroupID :: string
  ots_LegalName :: string
  ots_ExitReviewID :: string
  ots_ExitRecordHash :: string
  ots_ExitVerificationEventIndex :: int
  ots_ExitVerificationEventHash :: string
  ots_ExitEvidenceHash :: string
  ots_RecordHash :: string
  ots_LatestAction :: string
  ots_LatestEffectiveDate :: string
  ots_LatestActorRole :: string
  ots_LatestActorID :: string
  ots_LatestReference :: string
  ots_LatestEvidenceHash :: string
  ots_LatestReasonCode :: string
  ots_LatestAcceptedAt :: string

subsection \<open>Rows of the tables\<close>

record operator_nonce_row =
  on_deployment_id :: string
  on_request_nonce :: string
  on_request_hash :: string
  on_idempotency_key :: string
  on_payload_hash :: string
  on_request_timestamp :: string
  on_deployment_signature :: bytes
  on_action_id :: string
  on_accepted_at :: string

record claim_status_row =
  cs_deployment_id :: string
  cs_claim_action_id :: string
  cs_claim_audit_index :: int
  cs_claim_audit_hash :: string
  cs_group_id :: string
  cs_legal_name :: string
  cs_verification_state :: string
  cs_submitted_at :: string
  cs_review_id :: string
  cs_review_index :: int
  cs_review_hash :: string
  cs_approved_at :: string
  cs_updated_at :: string
  cs_private_record_hash :: string

record eligibility_current_row =
  ec_deployment_id :: string
  ec_claim_action_id :: string
  ec_group_id :: string
  ec_legal_name :: string
  ec_eligibility_state :: string
  ec_approved_review_index :: int
  ec_approved_review_hash :: string
  ec_eligibility_id :: string
  ec_eligibility_index :: int
  ec_eligibility_hash :: string
  ec_updated_at :: string
  ec_source_claim_audit_index :: int
  ec_source_claim_audit_hash :: string

record operator_tables =
  operator_audit_events :: "OperatorAuditEvent list"
  operator_action_nonces :: "operator_nonce_row list"
  operator_network_state_rows :: "operatorNetworkStateRow list"
  operator_claim_verification_submissions :: "OperatorClaimSubmission list"
  operator_claim_reviews :: "OperatorClaimReview list"
  operator_claim_eligibility_events :: "OperatorClaimEligibility list"
  operator_claim_status :: "claim_status_row list"
  operator_claim_eligibility_current :: "eligibility_current_row list"

record transfer_tables =
  ownership_transfers :: "StoreOwnershipTransferRecord list"
  ownership_transfer_events :: "StoreOwnershipTransferEvent list"
  ownership_transfer_state_rows :: "ownershipTransferState list"
  ownership_transfer_memberships :: "StoreOwnershipTransferMembership list"

definition empty_operators :: operator_tables where
  "empty_operators = \<lparr>operator_audit_events = [], operator_action_nonces = [],
      operator_network_state_rows = [],
     operator_claim_verification_submissions = [], operator_claim_reviews = [],
         operator_claim_eligibility_events = [],
     operator_claim_status = [], operator_claim_eligibility_current = []\<rparr>"

definition empty_transfers :: transfer_tables where
  "empty_transfers = \<lparr>ownership_transfers = [], ownership_transfer_events = [],
      ownership_transfer_state_rows = [],
     ownership_transfer_memberships = []\<rparr>"

abbreviation deployment_ids :: "registry_db \<Rightarrow> string set" where
  "deployment_ids db \<equiv> dep_DeploymentID ` set (deployments db)"

subsection \<open>Inserts and their constraints\<close>

definition operator_event_check :: "OperatorAuditEvent \<Rightarrow> bool" where
  "operator_event_check e \<longleftrightarrow>
     oae_SourceClaimActionID e = [] \<and> oae_SourcePrivateRecordHash e = [] \<or>
     oae_Action e = ''redeem-client-token'' \<and> oae_ClaimState e = ''pending-review'' \<and>
         oae_LinkID e = [] \<and>
     oae_OperatorName e \<noteq> [] \<and> oae_SourceClaimActionID e \<noteq> [] \<and>
         oae_SourcePrivateRecordHash e \<noteq> []"

definition insert_operator_audit_event ::
  "registry_db \<Rightarrow> operator_tables \<Rightarrow> OperatorAuditEvent \<Rightarrow>
      store_error + operator_tables" where
  "insert_operator_audit_event db ops e =
     (let events = operator_audit_events ops in
      if oae_AuditIndex e > 0 \<and> oae_AuditIndex e \<notin> oae_AuditIndex ` set events \<and>
         oae_ActionID e \<notin> oae_ActionID ` set events \<and> oae_DeploymentID e \<in>
             deployment_ids db \<and>
         oae_SubjectDeploymentID e \<in> deployment_ids db \<and>
         oae_Action e \<in> {''claim'', ''withdraw-claim'', ''issue-client-token'', ''revoke-client-token'',
           ''redeem-client-token'', ''revoke-group-link'', ''deactivate-deployment'',
               ''reactivate-deployment''} \<and>
         length (oae_DeploymentSignature e) = 64 \<and> oae_TokenTTLSeconds e \<ge> 0 \<and>
         oae_AuditHash e \<notin> oae_AuditHash ` set events \<and> length (oae_ReceiptSignature e)
             = 64 \<and>
         (oae_DeploymentID e, oae_Nonce e) \<notin> (\<lambda>x. (oae_DeploymentID x, oae_Nonce x))
             ` set events \<and>
         (oae_DeploymentID e, oae_IdempotencyKey e) \<notin> (\<lambda>x. (oae_DeploymentID x,
             oae_IdempotencyKey x)) ` set events \<and>
         operator_event_check e \<and>
         (oae_Action e = ''redeem-client-token'' \<longrightarrow>
           oae_TokenID e \<notin> oae_TokenID ` set (filter (\<lambda>x. oae_Action x =
               ''redeem-client-token'') events))
      then Inr (ops\<lparr>operator_audit_events := events @ [e]\<rparr>)
      else Inl ConstraintFailed)"

definition insert_operator_nonce ::
  "registry_db \<Rightarrow> operator_tables \<Rightarrow> operator_nonce_row \<Rightarrow>
      store_error + operator_tables" where
  "insert_operator_nonce db ops n =
     (if on_deployment_id n \<in> deployment_ids db \<and> length (on_deployment_signature n) = 64 \<and>
         on_action_id n \<in> oae_ActionID ` set (operator_audit_events ops) \<and>
         (on_deployment_id n, on_request_nonce n) \<notin>
           (\<lambda>x. (on_deployment_id x, on_request_nonce x)) ` set (operator_action_nonces ops)
      then Inr (ops\<lparr>operator_action_nonces := operator_action_nonces ops @ [n]\<rparr>)
      else Inl ConstraintFailed)"

definition network_state_check :: "operatorNetworkStateRow \<Rightarrow> bool" where
  "network_state_check s \<longleftrightarrow>
     ons_ClaimState s \<in> {[], ''claimed'', ''pending-review'', ''withdrawn''} \<and>
     ons_ClaimStateAuditIndex s \<ge> 0 \<and> ons_ProfileClaimAuditIndex s \<ge> 0 \<and>
     ons_ProfileClaimState s \<in> {[], ''claimed'', ''pending-review''} \<and>
     (ons_Claimed s \<and> ons_ClaimState s \<in> {''claimed'', ''pending-review''} \<or>
      \<not> ons_Claimed s \<and> ons_ClaimState s \<in> {[], ''withdrawn''}) \<and>
     (ons_ProfileClaimAuditIndex s = 0 \<and> ons_ClaimGroupID s = [] \<and> ons_ProfileClaimState s
         = [] \<or>
      ons_ProfileClaimAuditIndex s > 0 \<and> ons_ClaimGroupID s \<noteq> [] \<and>
          ons_ProfileClaimState s \<noteq> []) \<and>
     (\<not> ons_Claimed s \<and> ons_EffectiveGroupID s = [] \<or> ons_Claimed s \<and>
         ons_EffectiveGroupID s \<noteq> []) \<and>
     (ons_LinkID s = [] \<and> ons_RelatedDeploymentID s = [] \<or>
      ons_LinkID s \<noteq> [] \<and> ons_RelatedDeploymentID s \<noteq> [] \<and> ons_Claimed s)"

definition insert_network_state ::
  "registry_db \<Rightarrow> operator_tables \<Rightarrow> operatorNetworkStateRow \<Rightarrow>
      store_error + operator_tables" where
  "insert_network_state db ops s =
     (let rows = operator_network_state_rows ops in
      if ons_AuditIndex s \<in> oae_AuditIndex ` set (operator_audit_events ops) \<and>
          ons_AuditIndex s \<notin> ons_AuditIndex ` set rows \<and>
         ons_ActionID s \<in> oae_ActionID ` set (operator_audit_events ops) \<and> ons_ActionID s
             \<notin> ons_ActionID ` set rows \<and>
         ons_DeploymentID s \<in> deployment_ids db \<and> ons_SourceAuditHash s \<notin>
             ons_SourceAuditHash ` set rows \<and>
         network_state_check s
      then Inr (ops\<lparr>operator_network_state_rows := rows @ [s]\<rparr>)
      else Inl ConstraintFailed)"

definition insert_claim_submission ::
  "registry_db \<Rightarrow> operator_tables \<Rightarrow> OperatorClaimSubmission \<Rightarrow>
      store_error + operator_tables" where
  "insert_claim_submission db ops s =
     (let rows = operator_claim_verification_submissions ops in
      if ocs_ClaimActionID s \<in> oae_ActionID ` set (operator_audit_events ops) \<and>
         ocs_ClaimActionID s \<notin> ocs_ClaimActionID ` set rows \<and> ocs_DeploymentID s \<in>
             deployment_ids db \<and>
         ocs_AuthorityAttested s \<and> ocs_PrivateRecordHash s \<notin> ocs_PrivateRecordHash ` set rows
      then Inr (ops\<lparr>operator_claim_verification_submissions := rows @ [s]\<rparr>)
      else Inl ConstraintFailed)"

abbreviation submission_ids :: "operator_tables \<Rightarrow> string set" where
  "submission_ids ops \<equiv> ocs_ClaimActionID ` set (operator_claim_verification_submissions ops)"

definition insert_claim_review ::
  "registry_db \<Rightarrow> operator_tables \<Rightarrow> OperatorClaimReview \<Rightarrow>
      store_error + operator_tables" where
  "insert_claim_review db ops r =
     (let rows = operator_claim_reviews ops in
      if ocrw_ReviewIndex r > 0 \<and> ocrw_ReviewIndex r \<notin> ocrw_ReviewIndex ` set rows \<and>
         ocrw_ReviewID r \<notin> ocrw_ReviewID ` set rows \<and> ocrw_DeploymentID r \<in>
             deployment_ids db \<and>
         ocrw_ClaimActionID r \<in> submission_ids ops \<and> ocrw_ClaimActionID r \<notin>
             ocrw_ClaimActionID ` set rows \<and>
         ocrw_IdempotencyKey r \<notin> ocrw_IdempotencyKey ` set rows \<and> ocrw_ReviewHash r
             \<notin> ocrw_ReviewHash ` set rows \<and>
         length (ocrw_Signature r) = 64 \<and>
         (ocrw_Decision r = ''approved'' \<and> ocrw_ReasonCode r = [] \<or>
          ocrw_Decision r = ''rejected'' \<and> 3 \<le> length (ocrw_ReasonCode r) \<and> length
              (ocrw_ReasonCode r) \<le> 64)
      then Inr (ops\<lparr>operator_claim_reviews := rows @ [r]\<rparr>)
      else Inl ConstraintFailed)"

definition insert_eligibility_event ::
  "registry_db \<Rightarrow> operator_tables \<Rightarrow> OperatorClaimEligibility \<Rightarrow>
      store_error + operator_tables" where
  "insert_eligibility_event db ops r =
     (let rows = operator_claim_eligibility_events ops in
      if oce_EligibilityIndex r > 0 \<and> oce_EligibilityIndex r \<notin> oce_EligibilityIndex `
          set rows \<and>
         oce_EligibilityID r \<notin> oce_EligibilityID ` set rows \<and> oce_DeploymentID r \<in>
             deployment_ids db \<and>
         oce_ClaimActionID r \<in> submission_ids ops \<and>
         oce_IdempotencyKey r \<notin> oce_IdempotencyKey ` set rows \<and> oce_EligibilityHash r
             \<notin> oce_EligibilityHash ` set rows \<and>
         length (oce_Signature r) = 64 \<and>
         (oce_Decision r = ''suspend'' \<and> 3 \<le> length (oce_ReasonCode r) \<and> length
             (oce_ReasonCode r) \<le> 64 \<or>
          oce_Decision r = ''reinstate'' \<and> oce_ReasonCode r = [])
      then Inr (ops\<lparr>operator_claim_eligibility_events := rows @ [r]\<rparr>)
      else Inl ConstraintFailed)"

text \<open>\<open>INSERT ... ON CONFLICT(deployment_id) DO UPDATE\<close>: the row of the
    deployment is replaced where it stands, or appended.\<close>

definition replace_row :: "('r \<Rightarrow> 'k) \<Rightarrow> 'r list \<Rightarrow> 'r
    \<Rightarrow> 'r list" where
  "replace_row key rows r =
     (if key r \<in> key ` set rows then map (\<lambda>x. if key x = key r then r else x) rows else
         rows @ [r])"

definition claim_status_check :: "registry_db \<Rightarrow> operator_tables \<Rightarrow>
    claim_status_row \<Rightarrow> bool" where
  "claim_status_check db ops r \<longleftrightarrow>
     cs_deployment_id r \<in> deployment_ids db \<and> cs_claim_action_id r \<in> submission_ids ops
         \<and> cs_claim_audit_index r > 0 \<and>
     cs_verification_state r \<in> {''pending-review'', ''approved'', ''rejected'', ''withdrawn''}
         \<and> cs_review_index r \<ge> 0"

definition upsert_claim_status ::
  "registry_db \<Rightarrow> operator_tables \<Rightarrow> claim_status_row \<Rightarrow>
      store_error + operator_tables" where
  "upsert_claim_status db ops r =
     (let rows = operator_claim_status ops in
      if claim_status_check db ops r \<and>
         cs_claim_action_id r \<notin> cs_claim_action_id ` set (filter (\<lambda>x.
             cs_deployment_id x \<noteq> cs_deployment_id r) rows)
      then Inr (ops\<lparr>operator_claim_status := replace_row cs_deployment_id rows r\<rparr>)
      else Inl ConstraintFailed)"

definition eligibility_current_check :: "registry_db \<Rightarrow> operator_tables \<Rightarrow>
    eligibility_current_row \<Rightarrow> bool" where
  "eligibility_current_check db ops r \<longleftrightarrow>
     ec_deployment_id r \<in> deployment_ids db \<and> ec_claim_action_id r \<in> submission_ids ops \<and>
     ec_eligibility_state r \<in> {''active'', ''suspended'', ''inactive''} \<and>
         ec_approved_review_index r \<ge> 0 \<and>
     ec_source_claim_audit_index r > 0 \<and>
     (ec_eligibility_index r = 0 \<and> ec_eligibility_id r = [] \<and> ec_eligibility_hash r = ZeroHash \<or>
      ec_eligibility_index r > 0 \<and> ec_eligibility_id r \<noteq> [] \<and> ec_eligibility_hash r
          \<noteq> ZeroHash)"

definition upsert_eligibility_current ::
  "registry_db \<Rightarrow> operator_tables \<Rightarrow> eligibility_current_row \<Rightarrow>
      store_error + operator_tables" where
  "upsert_eligibility_current db ops r =
     (let rows = operator_claim_eligibility_current ops in
      if eligibility_current_check db ops r \<and>
         ec_claim_action_id r \<notin> ec_claim_action_id ` set (filter (\<lambda>x.
             ec_deployment_id x \<noteq> ec_deployment_id r) rows)
      then Inr (ops\<lparr>operator_claim_eligibility_current := replace_row ec_deployment_id rows r\<rparr>)
      else Inl ConstraintFailed)"

text \<open>\<open>UPDATE ... WHERE\<close>: the number of rows affected and the new rows; a
    violated check fails the statement.\<close>

definition update_rows :: "('r \<Rightarrow> bool) \<Rightarrow> ('r \<Rightarrow> bool)
    \<Rightarrow> ('r \<Rightarrow> 'r) \<Rightarrow> 'r list \<Rightarrow> store_error + nat \<times>
    'r list" where
  "update_rows check selected f rows =
     (if list_all (\<lambda>r. selected r \<longrightarrow> check (f r)) rows
      then Inr (length (filter selected rows), map (\<lambda>r. if selected r then f r else r) rows)
      else Inl ConstraintFailed)"

end
