(* ===== verification/Operator_Store.thy ===== *)
theory Operator_Store
  imports Event_Chain Operator_Db
begin

text \<open>
  The operator network of the store (\<open>store/sqlite/operator.go\<close> and \<open>operator_state.go\<close>): signed operator actions of
  deployments (claims, client tokens, group links, activation) are appended to a hash-chained audit log; with every event
  one state row of its subject is written, and the current status and eligibility of claims are kept in two tables.

  The lemmas show that the audit chain stays well linked, that the state rows are exactly the replay of the events
  (\<open>verifyOperatorNetworkStateRows\<close>), that every state row satisfies its schema checks, that tokens are single-use, and
  that retries are answered from the log.
\<close>

subsection \<open>Reading the network state\<close>

definition initialNetworkState :: "string \<Rightarrow> operatorNetworkStateRow" where
  "initialNetworkState deploymentID =
     \<lparr>ons_AuditIndex = 0, ons_ActionID = [], ons_DeploymentID = deploymentID, ons_Claimed = False, ons_Active = True,
      ons_ClaimState = [], ons_ClaimStateAuditIndex = 0, ons_ProfileClaimAuditIndex = 0, ons_ClaimGroupID = [],
      ons_EffectiveGroupID = [], ons_OperatorName = [], ons_OperatorAvatarURL = [], ons_ProfileClaimState = [],
      ons_LinkID = [], ons_RelatedDeploymentID = [], ons_SourceAuditHash = [], ons_AcceptedAt = []\<rparr>"

definition operatorNetworkStateBeforeTx :: "operator_tables \<Rightarrow> string \<Rightarrow> int \<Rightarrow> operatorNetworkStateRow" where
  "operatorNetworkStateBeforeTx ops deploymentID beforeAuditIndex =
     (case select_max ons_AuditIndex (filter (\<lambda>s. ons_DeploymentID s = deploymentID \<and> ons_AuditIndex s < beforeAuditIndex)
         (operator_network_state_rows ops)) of
        None \<Rightarrow> initialNetworkState deploymentID
      | Some state \<Rightarrow> state)"

definition operatorNetworkStateAtTx :: "operator_tables \<Rightarrow> string \<Rightarrow> int \<Rightarrow> operatorNetworkStateRow" where
  "operatorNetworkStateAtTx ops deploymentID throughAuditIndex =
     (case select_max ons_AuditIndex (filter (\<lambda>s. ons_DeploymentID s = deploymentID \<and>
         (throughAuditIndex > 0 \<longrightarrow> ons_AuditIndex s \<le> throughAuditIndex)) (operator_network_state_rows ops)) of
        None \<Rightarrow> initialNetworkState deploymentID
      | Some state \<Rightarrow> state)"

definition operatorDeploymentActiveTx :: "operator_tables \<Rightarrow> string \<Rightarrow> bool" where
  "operatorDeploymentActiveTx ops deploymentID = ons_Active (operatorNetworkStateAtTx ops deploymentID 0)"

definition operatorClaimTx :: "operator_tables \<Rightarrow> string \<Rightarrow> int \<Rightarrow> operatorClaimState" where
  "operatorClaimTx ops deploymentID throughAuditIndex =
     (let networkState = operatorNetworkStateAtTx ops deploymentID throughAuditIndex in
      \<lparr>ocl_AuditIndex = ons_ClaimStateAuditIndex networkState, ocl_Claimed = ons_Claimed networkState,
       ocl_ClaimState = ons_ClaimState networkState, ocl_GroupID = ons_ClaimGroupID networkState,
       ocl_OperatorName = ons_OperatorName networkState, ocl_OperatorAvatarURL = ons_OperatorAvatarURL networkState\<rparr>)"

definition operatorMembershipTx :: "operator_tables \<Rightarrow> string \<Rightarrow> int \<Rightarrow> operatorMembership" where
  "operatorMembershipTx ops deploymentID throughAuditIndex =
     (let state = operatorNetworkStateAtTx ops deploymentID throughAuditIndex;
          groupID = (if ons_Claimed state then ons_EffectiveGroupID state else ons_ClaimGroupID state)
      in \<lparr>om_operatorClaimState =
            \<lparr>ocl_AuditIndex = ons_ClaimStateAuditIndex state, ocl_Claimed = ons_Claimed state,
             ocl_ClaimState = ons_ClaimState state, ocl_GroupID = groupID, ocl_OperatorName = ons_OperatorName state,
             ocl_OperatorAvatarURL = ons_OperatorAvatarURL state\<rparr>,
          om_LinkID = ons_LinkID state, om_RelatedDeploymentID = ons_RelatedDeploymentID state\<rparr>)"

subsection \<open>The effect of an event on the state of its subject\<close>

definition withdrawOperatorNetworkState :: "operatorNetworkStateRow \<Rightarrow> OperatorAuditEvent \<Rightarrow> operatorNetworkStateRow" where
  "withdrawOperatorNetworkState state event =
     state\<lparr>ons_Claimed := False, ons_ClaimState := OperatorClaimStateWithdrawn, ons_ClaimStateAuditIndex := oae_AuditIndex event,
       ons_EffectiveGroupID := [], ons_LinkID := [], ons_RelatedDeploymentID := []\<rparr>"

definition claimNetworkState :: "operatorNetworkStateRow \<Rightarrow> OperatorAuditEvent \<Rightarrow> operatorNetworkStateRow" where
  "claimNetworkState state event =
     state\<lparr>ons_Claimed := True, ons_ClaimState := oae_ClaimState event, ons_ClaimStateAuditIndex := oae_AuditIndex event,
       ons_ProfileClaimAuditIndex := oae_AuditIndex event, ons_ClaimGroupID := oae_GroupID event,
       ons_EffectiveGroupID := oae_GroupID event, ons_OperatorName := oae_OperatorName event,
       ons_OperatorAvatarURL := oae_OperatorAvatarURL event, ons_ProfileClaimState := oae_ClaimState event,
       ons_RelatedDeploymentID := []\<rparr>"

definition applyOperatorNetworkEvent :: "operatorNetworkStateRow \<Rightarrow> OperatorAuditEvent \<Rightarrow> operatorNetworkStateRow" where
  "applyOperatorNetworkEvent state event =
     (let state = state\<lparr>ons_AuditIndex := oae_AuditIndex event, ons_ActionID := oae_ActionID event,
            ons_DeploymentID := oae_SubjectDeploymentID event, ons_SourceAuditHash := oae_AuditHash event,
            ons_AcceptedAt := oae_AcceptedAt event\<rparr>
      in if oae_Action event = OperatorActionClaim then (claimNetworkState state event)\<lparr>ons_LinkID := []\<rparr>
         else if oae_Action event = OperatorActionWithdrawClaim then withdrawOperatorNetworkState state event
         else if oae_Action event = OperatorActionRedeemClientToken then
           if \<not> ons_Claimed state \<and> oae_ClaimState event = OperatorClaimStatePendingReview \<and>
              oae_OperatorName event \<noteq> [] \<and> oae_LinkID event = []
           then claimNetworkState state event
           else state\<lparr>ons_EffectiveGroupID := oae_GroupID event, ons_LinkID := oae_LinkID event,
             ons_RelatedDeploymentID := oae_RelatedDeploymentID event\<rparr>
         else if oae_Action event = OperatorActionRevokeGroupLink then
           state\<lparr>ons_EffectiveGroupID := (if ons_Claimed state then ons_ClaimGroupID state else []), ons_LinkID := [],
             ons_RelatedDeploymentID := []\<rparr>
         else if oae_Action event = OperatorActionDeactivateDeployment then
           let state = state\<lparr>ons_Active := False\<rparr> in
           if ons_Claimed state then withdrawOperatorNetworkState state event else state
         else if oae_Action event = OperatorActionReactivateDeployment then state\<lparr>ons_Active := True\<rparr>
         else state)"

definition insertOperatorNetworkStateTx ::
  "registry_db \<Rightarrow> operator_tables \<Rightarrow> OperatorAuditEvent \<Rightarrow> store_error + operator_tables" where
  "insertOperatorNetworkStateTx db ops event =
     insert_network_state db ops (applyOperatorNetworkEvent
       (operatorNetworkStateBeforeTx ops (oae_SubjectDeploymentID event) (oae_AuditIndex event)) event)"

subsection \<open>Tokens, links and approved claims\<close>

text \<open>A token is looked up by its identifier, or by its hash when no identifier is given.\<close>

definition activeClientTokenTx :: "operator_tables \<Rightarrow> string \<Rightarrow> string \<Rightarrow> string \<Rightarrow> store_error + operatorToken" where
  "activeClientTokenTx ops tokenID tokenHash at' =
     (case select_max oae_AuditIndex (filter (\<lambda>a. oae_Action a = ''issue-client-token'' \<and>
         (if tokenID \<noteq> [] then oae_TokenID a = tokenID else oae_ClientTokenHash a = tokenHash)) (operator_audit_events ops)) of
        None \<Rightarrow> Inl ErrNotFound
      | Some a \<Rightarrow>
          let token = \<lparr>otk_DeploymentID = oae_DeploymentID a, otk_GroupID = oae_GroupID a, otk_TokenID = oae_TokenID a,
                otk_ClientTokenHash = oae_ClientTokenHash a, otk_TokenExpiresAt = oae_TokenExpiresAt a,
                otk_AuditIndex = oae_AuditIndex a\<rparr>;
              later = (\<lambda>action. list_ex (\<lambda>e. oae_Action e = action \<and> oae_TokenID e = otk_TokenID token \<and>
                oae_AuditIndex e > otk_AuditIndex token) (operator_audit_events ops))
          in if later ''revoke-client-token'' then Inl ErrClientTokenRevoked
             else if tokenHash \<noteq> [] \<and> later ''redeem-client-token'' then Inl ErrClientTokenUsed
             else case time_Parse_RFC3339Nano (otk_TokenExpiresAt token) of
                 None \<Rightarrow> Inl ErrInconsistentState
               | Some expiresAt \<Rightarrow>
                   (case time_Parse_RFC3339Nano at' of
                      None \<Rightarrow> Inl ErrInconsistentState
                    | Some currentAt \<Rightarrow> if \<not> currentAt < expiresAt then Inl ErrClientTokenExpired else Inr token))"

definition activeOperatorLinkTx :: "operator_tables \<Rightarrow> string \<Rightarrow> store_error + operatorLink" where
  "activeOperatorLinkTx ops linkID =
     (case select_max oae_AuditIndex (filter (\<lambda>e. oae_Action e = ''redeem-client-token'' \<and> oae_LinkID e = linkID)
         (operator_audit_events ops)) of
        None \<Rightarrow> Inl ErrNotFound
      | Some e \<Rightarrow>
          if list_ex (\<lambda>r. oae_Action r = ''revoke-group-link'' \<and> oae_LinkID r = linkID \<and> oae_AuditIndex r > oae_AuditIndex e)
              (operator_audit_events ops)
          then Inl ErrOperatorActionConflict
          else Inr \<lparr>olk_TargetDeploymentID = oae_SubjectDeploymentID e, olk_IssuerDeploymentID = oae_RelatedDeploymentID e,
            olk_GroupID = oae_GroupID e, olk_LinkID = oae_LinkID e, olk_TokenID = oae_TokenID e\<rparr>)"

definition approvedOperatorClaimSubmissionTx ::
  "operator_tables \<Rightarrow> string \<Rightarrow> string \<Rightarrow> string \<Rightarrow> store_error + OperatorClaimSubmission" where
  "approvedOperatorClaimSubmissionTx ops deploymentID groupID acceptedAt =
     (case find (\<lambda>s. cs_deployment_id s = deploymentID \<and> cs_group_id s = groupID \<and> cs_verification_state s = ''approved'' \<and>
         cs_approved_at s \<noteq> [] \<and>
         list_ex (\<lambda>e. ec_deployment_id e = cs_deployment_id s \<and> ec_claim_action_id e = cs_claim_action_id s \<and>
           ec_eligibility_state e = ''active'') (operator_claim_eligibility_current ops)) (operator_claim_status ops) of
        None \<Rightarrow> Inl ErrNotFound
      | Some s \<Rightarrow>
          (case (time_Parse_RFC3339Nano (cs_approved_at s), time_Parse_RFC3339Nano acceptedAt) of
             (Some approvedTime, Some acceptedTime) \<Rightarrow>
               if approvedTime > acceptedTime then Inl ErrNotFound
               else from_option ErrNotFound (find (\<lambda>submission. ocs_ClaimActionID submission = cs_claim_action_id s \<and>
                 ocs_Website submission \<noteq> []) (operator_claim_verification_submissions ops))
           | _ \<Rightarrow> Inl ErrInconsistentState))"

definition claim_required :: "store_error + 'a \<Rightarrow> store_error + 'a" where
  "claim_required r =
     (case r of Inl err \<Rightarrow> Inl (if err = ErrNotFound then ErrOperatorClaimRequired else err) | Inr x \<Rightarrow> Inr x)"

subsection \<open>Deriving the event of an action\<close>

text \<open>Redeeming: what was read of the redeeming deployment is an argument (its claim and its membership), as is what was read of
  the issuer of the token.\<close>

definition redeemEvent ::
  "OperatorActionInput \<Rightarrow> OperatorAuditEvent \<Rightarrow> operatorClaimState \<Rightarrow> operatorClaimState \<Rightarrow> operatorClaimState \<Rightarrow> operatorToken
    \<Rightarrow> OperatorClaimSubmission \<Rightarrow> OperatorAuditEvent" where
  "redeemEvent input event claim target issuer token source =
     (if ocl_Claimed target
      then event\<lparr>oae_ClaimState := ocl_ClaimState claim, oae_LinkID := oai_CandidateLinkID input\<rparr>
      else event\<lparr>oae_ClaimState := OperatorClaimStatePendingReview, oae_OperatorName := ocs_LegalName source,
        oae_OperatorAvatarURL := ocs_OperatorAvatarURL source, oae_SourceClaimActionID := ocs_ClaimActionID source,
        oae_SourcePrivateRecordHash := ocs_PrivateRecordHash source\<rparr>)
     \<lparr>oae_GroupID := ocl_GroupID issuer, oae_TokenID := otk_TokenID token,
      oae_ClientTokenHash := otk_ClientTokenHash token, oae_RelatedDeploymentID := otk_DeploymentID token\<rparr>"

definition redeemTokenTx ::
  "operator_tables \<Rightarrow> OperatorActionInput \<Rightarrow> OperatorAuditEvent \<Rightarrow> operatorClaimState \<Rightarrow> operatorClaimState \<Rightarrow> operatorToken
    \<Rightarrow> operatorClaimState \<Rightarrow> store_error + OperatorAuditEvent" where
  "redeemTokenTx ops input event claim target token issuer =
     (if \<not> operatorDeploymentActiveTx ops (otk_DeploymentID token) \<or> \<not> ocl_Claimed issuer then Inl ErrOperatorClaimRequired
      else if ocl_GroupID issuer \<noteq> otk_GroupID token then Inl ErrOperatorActionConflict
      else (case claim_required (approvedOperatorClaimSubmissionTx ops (otk_DeploymentID token) (otk_GroupID token)
          (oai_AcceptedAt input)) of Inl err \<Rightarrow> Inl err | Inr source \<Rightarrow>
        if ocl_Claimed target \<and> ocl_GroupID issuer = ocl_GroupID target then Inl ErrOperatorActionConflict
        else Inr (redeemEvent input event claim target issuer token source)))"

definition deriveRedeemTx ::
  "operator_tables \<Rightarrow> OperatorActionInput \<Rightarrow> OperatorAuditEvent \<Rightarrow> operatorClaimState \<Rightarrow> operatorMembership
    \<Rightarrow> store_error + OperatorAuditEvent" where
  "deriveRedeemTx ops input event claim targetMembership =
     (if om_LinkID targetMembership \<noteq> [] then Inl ErrOperatorActionConflict
      else (case activeClientTokenTx ops [] (oai_ClientTokenHash input) (oai_AcceptedAt input) of Inl err \<Rightarrow> Inl err | Inr token \<Rightarrow>
        if otk_DeploymentID token = oai_DeploymentID input then Inl ErrOperatorActionConflict
        else redeemTokenTx ops input event claim (om_operatorClaimState targetMembership) token
          (om_operatorClaimState (operatorMembershipTx ops (otk_DeploymentID token) 0))))"

text \<open>The switch over the action, with what was read of the caller: its activity, its claim and its membership.\<close>

definition deriveActionTx ::
  "operator_tables \<Rightarrow> OperatorActionInput \<Rightarrow> OperatorAuditEvent \<Rightarrow> bool \<Rightarrow> operatorClaimState \<Rightarrow> operatorMembership
    \<Rightarrow> operatorClaimState \<Rightarrow> store_error + OperatorAuditEvent" where
  "deriveActionTx ops input event active claim membership member =
     (if oai_Action input = OperatorActionClaim then
           if \<not> active then Inl ErrDeploymentInactive
           else Inr (event\<lparr>oae_ClaimState := OperatorClaimStatePendingReview, oae_OperatorName := oai_LegalName input,
             oae_OperatorAvatarURL := oai_OperatorAvatarURL input,
             oae_GroupID := (if ocl_Claimed claim then ocl_GroupID claim else oai_CandidateGroupID input)\<rparr>)
         else if oai_Action input = OperatorActionWithdrawClaim then
           if \<not> ocl_Claimed claim then Inl ErrOperatorClaimRequired
           else Inr (event\<lparr>oae_ClaimState := OperatorClaimStateWithdrawn, oae_GroupID := ocl_GroupID claim,
             oae_OperatorName := ocl_OperatorName claim, oae_OperatorAvatarURL := ocl_OperatorAvatarURL claim\<rparr>)
         else if oai_Action input = OperatorActionIssueClientToken then
           if \<not> active \<or> \<not> ocl_Claimed member then Inl ErrOperatorClaimRequired
           else (case claim_required (approvedOperatorClaimSubmissionTx ops (oai_DeploymentID input) (ocl_GroupID member)
               (oai_AcceptedAt input)) of Inl err \<Rightarrow> Inl err | Inr _ \<Rightarrow>
             Inr (event\<lparr>oae_ClaimState := ocl_ClaimState member, oae_GroupID := ocl_GroupID member,
               oae_TokenID := oai_CandidateTokenID input, oae_ClientTokenHash := oai_CandidateClientTokenHash input,
               oae_TokenTTLSeconds := oai_TokenTTLSeconds input, oae_TokenExpiresAt := oai_CandidateTokenExpiresAt input\<rparr>))
         else if oai_Action input = OperatorActionRevokeClientToken then
           (case activeClientTokenTx ops (oai_TokenID input) [] (oai_AcceptedAt input) of Inl err \<Rightarrow> Inl err | Inr token \<Rightarrow>
             if otk_DeploymentID token \<noteq> oai_DeploymentID input then Inl ErrOperatorActionConflict
             else Inr (event\<lparr>oae_GroupID := otk_GroupID token, oae_TokenID := otk_TokenID token,
               oae_ClientTokenHash := otk_ClientTokenHash token, oae_TokenExpiresAt := otk_TokenExpiresAt token\<rparr>))
         else if oai_Action input = OperatorActionRedeemClientToken then
           if \<not> active then Inl ErrDeploymentInactive else deriveRedeemTx ops input event claim membership
         else if oai_Action input = OperatorActionRevokeGroupLink then
           (case activeOperatorLinkTx ops (oai_LinkID input) of Inl err \<Rightarrow> Inl err | Inr link \<Rightarrow>
             if oai_DeploymentID input \<noteq> olk_TargetDeploymentID link \<and> ocl_GroupID member \<noteq> olk_GroupID link
             then Inl ErrOperatorActionConflict
             else Inr (event\<lparr>oae_SubjectDeploymentID := olk_TargetDeploymentID link,
               oae_RelatedDeploymentID := olk_IssuerDeploymentID link, oae_GroupID := olk_GroupID link,
               oae_LinkID := olk_LinkID link, oae_TokenID := olk_TokenID link\<rparr>))
         else if oai_Action input = OperatorActionDeactivateDeployment then
           if \<not> active then Inl ErrOperatorActionConflict
           else if ocl_Claimed claim
             then Inr (event\<lparr>oae_ClaimState := OperatorClaimStateWithdrawn, oae_GroupID := ocl_GroupID member,
               oae_OperatorName := ocl_OperatorName member, oae_OperatorAvatarURL := ocl_OperatorAvatarURL member,
               oae_LinkID := om_LinkID membership, oae_RelatedDeploymentID := om_RelatedDeploymentID membership\<rparr>)
             else Inr event
         else if oai_Action input = OperatorActionReactivateDeployment then
           if active then Inl ErrOperatorActionConflict else Inr event
         else Inl ErrOperatorActionConflict)"

definition deriveOperatorActionTx ::
  "operator_tables \<Rightarrow> OperatorActionInput \<Rightarrow> OperatorAuditEvent \<Rightarrow> store_error + OperatorAuditEvent" where
  "deriveOperatorActionTx ops input event =
     deriveActionTx ops input event (operatorDeploymentActiveTx ops (oai_DeploymentID input))
       (operatorClaimTx ops (oai_DeploymentID input) 0) (operatorMembershipTx ops (oai_DeploymentID input) 0)
       (om_operatorClaimState (operatorMembershipTx ops (oai_DeploymentID input) 0))"

subsection \<open>Writing the current claim state\<close>

definition writePendingOperatorClaimTx ::
  "(bytes \<Rightarrow> bytes) \<Rightarrow> registry_db \<Rightarrow> operator_tables \<Rightarrow> OperatorAuditEvent \<Rightarrow> OperatorClaimSubmission \<Rightarrow> store_error + operator_tables" where
  "writePendingOperatorClaimTx H db ops event source =
     (let privateRecordHash = Digest H (OperatorClaimPrivateRecordMessage (oae_ActionID event) (oae_DeploymentID event)
            (oae_GroupID event) (oae_PayloadHash event) (ocs_LegalName source) (ocs_RegistrationNumber source)
            (ocs_Jurisdiction source) (ocs_RegisteredAddress source) (ocs_Website source) (ocs_VerificationContactName source)
            (ocs_VerificationContactRole source) (ocs_VerificationContactEmail source) (ocs_AuthorityAttested source)
            (ocs_OperatorAvatarURL source) (oae_AcceptedAt event))
      in (case insert_claim_submission db ops (source\<lparr>ocs_ClaimActionID := oae_ActionID event,
           ocs_DeploymentID := oae_DeploymentID event, ocs_GroupID := oae_GroupID event, ocs_PayloadHash := oae_PayloadHash event,
           ocs_SubmittedAt := oae_AcceptedAt event, ocs_PrivateRecordHash := privateRecordHash\<rparr>) of Inl err \<Rightarrow> Inl err | Inr ops \<Rightarrow>
         (case upsert_claim_status db ops
           \<lparr>cs_deployment_id = oae_DeploymentID event, cs_claim_action_id = oae_ActionID event,
            cs_claim_audit_index = oae_AuditIndex event, cs_claim_audit_hash = oae_AuditHash event,
            cs_group_id = oae_GroupID event, cs_legal_name = ocs_LegalName source,
            cs_verification_state = OperatorClaimStatePendingReview, cs_submitted_at = oae_AcceptedAt event, cs_review_id = [],
            cs_review_index = 0, cs_review_hash = OperatorClaimReviewZeroHash, cs_approved_at = [],
            cs_updated_at = oae_AcceptedAt event, cs_private_record_hash = privateRecordHash\<rparr> of Inl err \<Rightarrow> Inl err | Inr ops \<Rightarrow>
         upsert_eligibility_current db ops
           \<lparr>ec_deployment_id = oae_DeploymentID event, ec_claim_action_id = oae_ActionID event, ec_group_id = oae_GroupID event,
            ec_legal_name = ocs_LegalName source, ec_eligibility_state = OperatorEligibilityInactive,
            ec_approved_review_index = 0, ec_approved_review_hash = OperatorClaimReviewZeroHash, ec_eligibility_id = [],
            ec_eligibility_index = 0, ec_eligibility_hash = OperatorClaimEligibilityZeroHash,
            ec_updated_at = oae_AcceptedAt event, ec_source_claim_audit_index = oae_AuditIndex event,
            ec_source_claim_audit_hash = oae_AuditHash event\<rparr>)))"

definition inputSubmission :: "OperatorActionInput \<Rightarrow> OperatorClaimSubmission" where
  "inputSubmission input =
     \<lparr>ocs_ClaimActionID = [], ocs_DeploymentID = [], ocs_GroupID = [], ocs_LegalName = oai_LegalName input,
      ocs_RegistrationNumber = oai_RegistrationNumber input, ocs_Jurisdiction = oai_Jurisdiction input,
      ocs_RegisteredAddress = oai_RegisteredAddress input, ocs_Website = oai_Website input,
      ocs_VerificationContactName = oai_VerificationContactName input,
      ocs_VerificationContactRole = oai_VerificationContactRole input,
      ocs_VerificationContactEmail = oai_VerificationContactEmail input, ocs_AuthorityAttested = oai_AuthorityAttested input,
      ocs_OperatorAvatarURL = oai_OperatorAvatarURL input, ocs_PayloadHash = [], ocs_SubmittedAt = [], ocs_PrivateRecordHash = []\<rparr>"

definition withdrawCurrentClaimTx :: "registry_db \<Rightarrow> operator_tables \<Rightarrow> OperatorAuditEvent \<Rightarrow> store_error + operator_tables" where
  "withdrawCurrentClaimTx db ops event =
     (case update_rows (claim_status_check db ops) (\<lambda>s. cs_deployment_id s = oae_SubjectDeploymentID event)
       (\<lambda>s. s\<lparr>cs_verification_state := OperatorClaimStateWithdrawn, cs_updated_at := oae_AcceptedAt event\<rparr>)
       (operator_claim_status ops) of Inl err \<Rightarrow> Inl err | Inr (statusRows, statuses) \<Rightarrow>
     (case update_rows (eligibility_current_check db ops) (\<lambda>e. ec_deployment_id e = oae_SubjectDeploymentID event)
       (\<lambda>e. e\<lparr>ec_eligibility_state := OperatorEligibilityInactive, ec_updated_at := oae_AcceptedAt event\<rparr>)
       (operator_claim_eligibility_current ops) of Inl err \<Rightarrow> Inl err | Inr (eligibilityRows, eligibilities) \<Rightarrow>
     if statusRows = 1 \<and> eligibilityRows \<noteq> 1 \<or> statusRows = 0 \<and> eligibilityRows \<noteq> 0 then Inl ErrInconsistentState
     else Inr (ops\<lparr>operator_claim_status := statuses, operator_claim_eligibility_current := eligibilities\<rparr>)))"

definition writeOperatorClaimStateTx ::
  "(bytes \<Rightarrow> bytes) \<Rightarrow> registry_db \<Rightarrow> operator_tables \<Rightarrow> OperatorActionInput \<Rightarrow> OperatorAuditEvent \<Rightarrow> store_error + operator_tables" where
  "writeOperatorClaimStateTx H db ops input event =
     (if oae_Action event = OperatorActionClaim then writePendingOperatorClaimTx H db ops event (inputSubmission input)
      else if oae_Action event = OperatorActionRedeemClientToken then
        if oae_ClaimState event \<noteq> OperatorClaimStatePendingReview \<or> oae_OperatorName event = [] \<or> oae_LinkID event \<noteq> []
        then Inr ops
        else (case approvedOperatorClaimSubmissionTx ops (oae_RelatedDeploymentID event) (oae_GroupID event)
            (oae_AcceptedAt event) of Inl err \<Rightarrow> Inl err | Inr source \<Rightarrow>
          if ocs_ClaimActionID source \<noteq> oae_SourceClaimActionID event \<or>
             ocs_PrivateRecordHash source \<noteq> oae_SourcePrivateRecordHash event then Inl ErrInconsistentState
          else writePendingOperatorClaimTx H db ops event source)
      else if oae_Action event = OperatorActionWithdrawClaim \<or> oae_Action event = OperatorActionDeactivateDeployment then
        if oae_ClaimState event \<noteq> OperatorClaimStateWithdrawn then Inr ops else withdrawCurrentClaimTx db ops event
      else Inr ops)"

subsection \<open>Appending an action\<close>

definition operatorAuditHeadQuery :: "operator_tables \<Rightarrow> OperatorAuditEvent option" where
  "operatorAuditHeadQuery ops = select_max oae_AuditIndex (operator_audit_events ops)"

text \<open>The index, hash and time of the head; for an empty log 0, the zero hash and no time.\<close>

definition audit_head :: "operator_tables \<Rightarrow> int \<times> string \<times> string" where
  "audit_head ops = (case operatorAuditHeadQuery ops of
     None \<Rightarrow> (0, OperatorAuditZeroHash, []) | Some e \<Rightarrow> (oae_AuditIndex e, oae_AuditHash e, oae_AcceptedAt e))"

definition requireDeploymentTx :: "registry_db \<Rightarrow> string \<Rightarrow> store_error + unit" where
  "requireDeploymentTx db deploymentID = (if deploymentID \<in> deployment_ids db then Inr () else Inl ErrNotFound)"

definition operatorNonceStateTx :: "operator_tables \<Rightarrow> string \<Rightarrow> string \<Rightarrow> string \<times> string" where
  "operatorNonceStateTx ops deploymentID nonce =
     (case find (\<lambda>n. on_deployment_id n = deploymentID \<and> on_request_nonce n = nonce) (operator_action_nonces ops) of
        None \<Rightarrow> ([], [])
      | Some n \<Rightarrow> (on_action_id n, on_request_hash n))"

definition insertOperatorNonceTx ::
  "registry_db \<Rightarrow> operator_tables \<Rightarrow> OperatorActionInput \<Rightarrow> string \<Rightarrow> store_error + operator_tables" where
  "insertOperatorNonceTx db ops input actionID =
     insert_operator_nonce db ops
       \<lparr>on_deployment_id = oai_DeploymentID input, on_request_nonce = oai_Nonce input, on_request_hash = oai_RequestHash input,
        on_idempotency_key = oai_IdempotencyKey input, on_payload_hash = oai_PayloadHash input,
        on_request_timestamp = oai_RequestTimestamp input, on_deployment_signature = oai_DeploymentSignature input,
        on_action_id = actionID, on_accepted_at = oai_AcceptedAt input\<rparr>"

definition operatorActionByIDTx :: "operator_tables \<Rightarrow> string \<Rightarrow> store_error + OperatorAuditEvent" where
  "operatorActionByIDTx ops actionID = from_option ErrNotFound (find (\<lambda>e. oae_ActionID e = actionID) (operator_audit_events ops))"

definition operatorActionByIdempotencyTx :: "operator_tables \<Rightarrow> string \<Rightarrow> string \<Rightarrow> OperatorAuditEvent option" where
  "operatorActionByIdempotencyTx ops deploymentID idempotencyKey =
     find (\<lambda>e. oae_DeploymentID e = deploymentID \<and> oae_IdempotencyKey e = idempotencyKey) (operator_audit_events ops)"

definition ensureOperatorActionAfterOwnershipTransfer :: "transfer_tables \<Rightarrow> string \<Rightarrow> store_error + unit" where
  "ensureOperatorActionAfterOwnershipTransfer transfers acceptedAt =
     (case select_max sotm_CompletionEventIndex (ownership_transfer_memberships transfers) of
        None \<Rightarrow> Inr ()
      | Some m \<Rightarrow> if acceptedAt \<le> sotm_CompletedAt m then Inl ErrAcceptedAtBeforeHead else Inr ())"

definition operatorEventMessage :: "OperatorAuditEvent \<Rightarrow> bytes" where
  "operatorEventMessage e =
     OperatorAuditMessage (oae_AuditIndex e) (oae_ActionID e) (oae_DeploymentID e) (oae_SubjectDeploymentID e)
       (oae_RelatedDeploymentID e) (oae_Action e) (oae_PayloadHash e) (oae_AcceptedAt e) (oae_ClaimState e) (oae_GroupID e)
       (oae_LinkID e) (oae_TokenID e) (oae_ClientTokenHash e) (oae_SourceClaimActionID e) (oae_SourcePrivateRecordHash e)
       (oae_TokenExpiresAt e) (oae_PreviousAuditHash e)"

definition newOperatorEvent :: "OperatorActionInput \<Rightarrow> int \<Rightarrow> string \<Rightarrow> OperatorAuditEvent" where
  "newOperatorEvent input headIndex headHash =
     \<lparr>oae_AuditIndex = i64 (headIndex + 1), oae_ActionID = oai_CandidateActionID input, oae_DeploymentID = oai_DeploymentID input,
      oae_SubjectDeploymentID = oai_DeploymentID input, oae_RelatedDeploymentID = [], oae_Action = oai_Action input,
      oae_RequestTimestamp = oai_RequestTimestamp input, oae_Nonce = oai_Nonce input, oae_IdempotencyKey = oai_IdempotencyKey input,
      oae_PayloadHash = oai_PayloadHash input, oae_RequestHash = oai_RequestHash input,
      oae_DeploymentSignature = oai_DeploymentSignature input, oae_OperatorName = [], oae_OperatorAvatarURL = [],
      oae_ClaimState = [], oae_GroupID = [], oae_LinkID = [], oae_TokenID = [], oae_ClientTokenHash = [],
      oae_SourceClaimActionID = [], oae_SourcePrivateRecordHash = [], oae_TokenTTLSeconds = 0, oae_TokenExpiresAt = [],
      oae_AcceptedAt = oai_AcceptedAt input, oae_PreviousAuditHash = headHash, oae_AuditHash = [],
      oae_RegistryKeyID = oai_RegistryKeyID input, oae_ReceiptSignature = []\<rparr>"

text \<open>The writes of an accepted action, in the order of the code.\<close>

definition appendOperatorEventTx ::
  "(bytes \<Rightarrow> bytes) \<Rightarrow> registry_db \<Rightarrow> operator_tables \<Rightarrow> OperatorActionInput \<Rightarrow> OperatorAuditEvent \<Rightarrow> store_error + operator_tables" where
  "appendOperatorEventTx H db ops input event =
     (case insert_operator_audit_event db ops event of Inl err \<Rightarrow> Inl err | Inr ops \<Rightarrow>
     (case insertOperatorNetworkStateTx db ops event of Inl err \<Rightarrow> Inl err | Inr ops \<Rightarrow>
     (case writeOperatorClaimStateTx H db ops input event of Inl err \<Rightarrow> Inl err | Inr ops \<Rightarrow>
     insertOperatorNonceTx db ops input (oae_ActionID event))))"

definition hashedOperatorEvent :: "(bytes \<Rightarrow> bytes) \<Rightarrow> OperatorAuditEvent \<Rightarrow> OperatorAuditEvent" where
  "hashedOperatorEvent H event = event\<lparr>oae_AuditHash := Digest H (operatorEventMessage event)\<rparr>"

definition AppendOperatorAction ::
  "(bytes \<Rightarrow> bytes) \<Rightarrow> registry_db \<Rightarrow> transfer_tables \<Rightarrow> operator_tables \<Rightarrow> OperatorActionInput
    \<Rightarrow> (OperatorAuditEvent \<Rightarrow> bytes option) \<Rightarrow> store_error + operator_tables \<times> OperatorAuditEvent \<times> bool" where
  "AppendOperatorAction H db transfers ops input signReceipt =
     (case requireDeploymentTx db (oai_DeploymentID input) of Inl err \<Rightarrow> Inl err | Inr _ \<Rightarrow>
     case operatorNonceStateTx ops (oai_DeploymentID input) (oai_Nonce input) of (nonceActionID, nonceRequestHash) \<Rightarrow>
     if nonceActionID \<noteq> [] then
       if nonceRequestHash \<noteq> oai_RequestHash input then Inl ErrReplayConflict
       else (case operatorActionByIDTx ops nonceActionID of Inl err \<Rightarrow> Inl err | Inr event \<Rightarrow>
         if oae_IdempotencyKey event \<noteq> oai_IdempotencyKey input \<or> oae_PayloadHash event \<noteq> oai_PayloadHash input
         then Inl ErrInconsistentState else Inr (ops, event, True))
     else case operatorActionByIdempotencyTx ops (oai_DeploymentID input) (oai_IdempotencyKey input) of
       Some existing \<Rightarrow>
         if oae_PayloadHash existing \<noteq> oai_PayloadHash input then Inl ErrIdempotencyConflict
         else (case insertOperatorNonceTx db ops input (oae_ActionID existing) of Inl err \<Rightarrow> Inl err | Inr ops \<Rightarrow> Inr (ops, existing, True))
     | None \<Rightarrow>
         (case ensureAcceptedAtAfterRegistryCreation db (oai_AcceptedAt input) of Inl err \<Rightarrow> Inl err | Inr _ \<Rightarrow>
         case audit_head ops of (headIndex, headHash, headAcceptedAt) \<Rightarrow>
         (case ensureAcceptedAtNotBeforeHead (oai_AcceptedAt input) headAcceptedAt of Inl err \<Rightarrow> Inl err | Inr _ \<Rightarrow>
         (case ensureOperatorActionAfterOwnershipTransfer transfers (oai_AcceptedAt input) of Inl err \<Rightarrow> Inl err | Inr _ \<Rightarrow>
         (case deriveOperatorActionTx ops input (newOperatorEvent input headIndex headHash) of Inl err \<Rightarrow> Inl err | Inr event \<Rightarrow>
         (case signReceipt (hashedOperatorEvent H event) of None \<Rightarrow> Inl SigningFailed | Some signature \<Rightarrow>
         (case appendOperatorEventTx H db ops input ((hashedOperatorEvent H event)\<lparr>oae_ReceiptSignature := signature\<rparr>) of
            Inl err \<Rightarrow> Inl err
          | Inr ops \<Rightarrow> Inr (ops, (hashedOperatorEvent H event)\<lparr>oae_ReceiptSignature := signature\<rparr>, False))))))))"

subsection \<open>Checking the state rows\<close>

text \<open>\<open>verifyOperatorNetworkStateRows\<close> replays the events in order, with the last state of every subject, and compares the rows.\<close>

fun replay_states :: "(string \<rightharpoonup> operatorNetworkStateRow) \<Rightarrow> OperatorAuditEvent list \<Rightarrow> operatorNetworkStateRow list" where
  "replay_states current [] = []"
| "replay_states current (event # events) =
     (let subject = oae_SubjectDeploymentID event;
          state = applyOperatorNetworkEvent (case current subject of None \<Rightarrow> initialNetworkState subject | Some s \<Rightarrow> s) event
      in state # replay_states (current(subject \<mapsto> state)) events)"

fun compare_rows :: "'r list \<Rightarrow> 'r list \<Rightarrow> store_error + unit" where
  "compare_rows (actual # actuals) (expected # expecteds) =
     (if actual \<noteq> expected then Inl ErrInconsistentState else compare_rows actuals expecteds)"
| "compare_rows [] [] = Inr ()"
| "compare_rows (_ # _) [] = Inl ErrInconsistentState"
| "compare_rows [] (_ # _) = Inl ErrInconsistentState"

definition verifyOperatorNetworkStateRows :: "operator_tables \<Rightarrow> store_error + unit" where
  "verifyOperatorNetworkStateRows ops =
     compare_rows (sort_key ons_AuditIndex (operator_network_state_rows ops))
       (replay_states Map.empty (sort_key oae_AuditIndex (operator_audit_events ops)))"

subsection \<open>The state rows are the replay of the events\<close>

fun replay_map :: "(string \<rightharpoonup> operatorNetworkStateRow) \<Rightarrow> OperatorAuditEvent list \<Rightarrow> (string \<rightharpoonup> operatorNetworkStateRow)" where
  "replay_map current [] = current"
| "replay_map current (event # events) =
     (let subject = oae_SubjectDeploymentID event;
          state = applyOperatorNetworkEvent (case current subject of None \<Rightarrow> initialNetworkState subject | Some s \<Rightarrow> s) event
      in replay_map (current(subject \<mapsto> state)) events)"

text \<open>The state of a deployment after a list of events.\<close>

definition network_state :: "OperatorAuditEvent list \<Rightarrow> string \<Rightarrow> operatorNetworkStateRow" where
  "network_state events d = (case replay_map Map.empty events d of None \<Rightarrow> initialNetworkState d | Some s \<Rightarrow> s)"

lemmas network_event_defs = applyOperatorNetworkEvent_def claimNetworkState_def withdrawOperatorNetworkState_def

lemma applyOperatorNetworkEvent_simps [simp]:
  "ons_AuditIndex (applyOperatorNetworkEvent s e) = oae_AuditIndex e"
  "ons_ActionID (applyOperatorNetworkEvent s e) = oae_ActionID e"
  "ons_DeploymentID (applyOperatorNetworkEvent s e) = oae_SubjectDeploymentID e"
  "ons_SourceAuditHash (applyOperatorNetworkEvent s e) = oae_AuditHash e"
  by (simp_all add: network_event_defs Let_def)

lemma replay_map_snoc:
  "replay_map current (events @ [e]) = (let m = replay_map current events; subject = oae_SubjectDeploymentID e in
     m(subject \<mapsto> applyOperatorNetworkEvent (case m subject of None \<Rightarrow> initialNetworkState subject | Some s \<Rightarrow> s) e))"
  by (induction events arbitrary: current) (simp_all add: Let_def)

lemma replay_states_snoc:
  "replay_states current (events @ [e]) = replay_states current events @
     [applyOperatorNetworkEvent (case replay_map current events (oae_SubjectDeploymentID e) of
        None \<Rightarrow> initialNetworkState (oae_SubjectDeploymentID e) | Some s \<Rightarrow> s) e]"
  by (induction events arbitrary: current) (simp_all add: Let_def)

lemma network_state_snoc:
  "network_state (events @ [e]) d =
     (if d = oae_SubjectDeploymentID e then applyOperatorNetworkEvent (network_state events d) e else network_state events d)"
  by (simp add: network_state_def replay_map_snoc Let_def)

lemma replay_states_snoc':
  "replay_states Map.empty (events @ [e]) =
     replay_states Map.empty events @ [applyOperatorNetworkEvent (network_state events (oae_SubjectDeploymentID e)) e]"
  by (simp add: replay_states_snoc network_state_def)

lemma network_state_Nil [simp]: "network_state [] d = initialNetworkState d"
  by (simp add: network_state_def)

lemma replay_states_indexes: "map ons_AuditIndex (replay_states current events) = map oae_AuditIndex events"
  by (induction events arbitrary: current) (simp_all add: Let_def)

lemma replay_states_length [simp]: "length (replay_states current events) = length events"
  by (induction events arbitrary: current) (simp_all add: Let_def)

lemma replay_states_take: "take k (replay_states current events) = replay_states current (take k events)"
  by (induction events arbitrary: current k) (simp_all add: Let_def take_Cons split: nat.splits)

lemma replay_states_last:
  "(case filter (\<lambda>s. ons_DeploymentID s = d) (replay_states Map.empty events) of
      [] \<Rightarrow> initialNetworkState d | x # xs \<Rightarrow> last (x # xs)) = network_state events d"
proof (induction events rule: rev_induct)
  case (snoc e events)
  show ?case
  proof (cases "d = oae_SubjectDeploymentID e")
    case True
    then show ?thesis
      by (cases "filter (\<lambda>s. ons_DeploymentID s = d) (replay_states Map.empty events)")
        (simp_all add: replay_states_snoc' network_state_snoc)
  next
    case False
    then show ?thesis using snoc by (simp add: replay_states_snoc' network_state_snoc)
  qed
qed simp

abbreviation audit_chain :: "(bytes \<Rightarrow> bytes) \<Rightarrow> OperatorAuditEvent list \<Rightarrow> bool" where
  "audit_chain H \<equiv> event_chain H oae_AuditIndex oae_PreviousAuditHash oae_AuditHash operatorEventMessage"

text \<open>The audit log is a chain and the state rows are its replay.\<close>

definition network_ok :: "(bytes \<Rightarrow> bytes) \<Rightarrow> operator_tables \<Rightarrow> bool" where
  "network_ok H ops \<longleftrightarrow> audit_chain H (operator_audit_events ops) \<and>
     operator_network_state_rows ops = replay_states Map.empty (operator_audit_events ops)"

lemma select_max_sorted_last:
  "sorted (map key rows) \<Longrightarrow> select_max key rows = (case rows of [] \<Rightarrow> None | x # xs \<Rightarrow> Some (last (x # xs)))"
  by (cases rows) (simp_all add: select_max_sorted)

lemma select_max_mem: "select_max key rows = Some a \<Longrightarrow> a \<in> set rows"
proof -
  assume "select_max key rows = Some a"
  then have a: "rows \<noteq> []" "a = last (sort_key key rows)" by (simp_all add: select_max_def split: if_split_asm)
  then have "length (sort_key key rows) \<noteq> 0" by simp
  then have "sort_key key rows \<noteq> []" by (simp only: length_0_conv not_False_eq_True)
  then have "last (sort_key key rows) \<in> set (sort_key key rows)" by (rule last_in_set)
  then show ?thesis by (simp add: a(2))
qed

lemma sorted_filter_map: "sorted (map key rows) \<Longrightarrow> sorted (map key (filter P rows))"
  by (rule sorted_filter)

lemma select_state:
  assumes "sorted (map oae_AuditIndex events)"
  shows "(case select_max ons_AuditIndex (filter (\<lambda>s. ons_DeploymentID s = d) (replay_states Map.empty events)) of
      None \<Rightarrow> initialNetworkState d | Some s \<Rightarrow> s) = network_state events d"
proof -
  have "sorted (map ons_AuditIndex (filter (\<lambda>s. ons_DeploymentID s = d) (replay_states Map.empty events)))"
    using assms by (intro sorted_filter_map) (simp add: replay_states_indexes)
  then show ?thesis unfolding replay_states_last [symmetric] by (simp add: select_max_sorted_last split: list.splits)
qed

lemma filter_index_take:
  assumes "audit_chain H events"
  shows "filter (\<lambda>s. ons_DeploymentID s = d \<and> ons_AuditIndex s \<le> int k) (replay_states Map.empty events) =
    filter (\<lambda>s. ons_DeploymentID s = d) (replay_states Map.empty (take k events))"
proof -
  let ?R = "replay_states Map.empty events"
  have idx: "ons_AuditIndex (?R ! i) = int i + 1" if "i < length events" for i
    using arg_cong [OF replay_states_indexes [of Map.empty events], of "\<lambda>xs. xs ! i"] assms that by (simp add: event_chain_def)
  have "x \<in> set (take k ?R) \<Longrightarrow> ons_AuditIndex x \<le> int k" for x
    using idx by (auto simp: in_set_conv_nth)
  moreover have "x \<in> set (drop k ?R) \<Longrightarrow> \<not> ons_AuditIndex x \<le> int k" for x
    using idx by (auto simp: in_set_conv_nth)
  ultimately have "filter (\<lambda>s. ons_DeploymentID s = d \<and> ons_AuditIndex s \<le> int k) (take k ?R @ drop k ?R) =
      filter (\<lambda>s. ons_DeploymentID s = d) (take k ?R)"
    unfolding filter_append by (simp add: filter_empty_conv cong: filter_cong)
  from this [unfolded append_take_drop_id] show ?thesis by (simp only: replay_states_take)
qed

text \<open>Reading the state at a boundary is the replay of the events up to it.\<close>

lemma operatorNetworkStateAtTx_replay:
  assumes "network_ok H ops"
  shows "operatorNetworkStateAtTx ops d 0 = network_state (operator_audit_events ops) d"
    and "0 < k \<Longrightarrow> operatorNetworkStateAtTx ops d (int k) = network_state (take k (operator_audit_events ops)) d"
    and "operatorNetworkStateBeforeTx ops d (int k + 1) = network_state (take k (operator_audit_events ops)) d"
proof -
  have c: "audit_chain H (operator_audit_events ops)"
    and r: "operator_network_state_rows ops = replay_states Map.empty (operator_audit_events ops)"
    using assms by (simp_all add: network_ok_def)
  have s: "sorted (map oae_AuditIndex (take n (operator_audit_events ops)))" for n
    using event_chain_sorted [OF c] by (simp add: take_map [symmetric] sorted_wrt_take)
  show "operatorNetworkStateAtTx ops d 0 = network_state (operator_audit_events ops) d"
    using select_state [of "operator_audit_events ops" d] event_chain_sorted [OF c] by (simp add: operatorNetworkStateAtTx_def r)
  show "operatorNetworkStateAtTx ops d (int k) = network_state (take k (operator_audit_events ops)) d" if "0 < k"
    using select_state [OF s [of k], of d] filter_index_take [OF c, of d k] that by (simp add: operatorNetworkStateAtTx_def r)
  have lt: "x < int k + 1 \<longleftrightarrow> x \<le> int k" for x by linarith
  show "operatorNetworkStateBeforeTx ops d (int k + 1) = network_state (take k (operator_audit_events ops)) d"
    using select_state [OF s [of k], of d] filter_index_take [OF c, of d k] by (simp add: operatorNetworkStateBeforeTx_def r lt)
qed

lemma compare_rows_iff: "compare_rows xs ys = Inr () \<longleftrightarrow> xs = ys"
  by (induction xs ys rule: compare_rows.induct) auto

lemma verifyOperatorNetworkStateRows_ok: "network_ok H ops \<Longrightarrow> verifyOperatorNetworkStateRows ops = Inr ()"
proof -
  assume n: "network_ok H ops"
  then have s: "sorted (map oae_AuditIndex (operator_audit_events ops))"
    unfolding network_ok_def by (blast dest: event_chain_sorted)
  then have "sorted (map ons_AuditIndex (operator_network_state_rows ops))" using n by (simp add: network_ok_def replay_states_indexes)
  with s n show ?thesis by (simp add: verifyOperatorNetworkStateRows_def compare_rows_iff sort_key_id_if_sorted network_ok_def)
qed

subsection \<open>What an accepted action writes\<close>

text \<open>What an event takes over from its request and the head; deriving the event only fills in the other fields.\<close>

definition event_request :: "OperatorAuditEvent \<Rightarrow> int \<times> string \<times> string \<times> string \<times> string \<times> string \<times> string \<times> string \<times> string \<times> string" where
  "event_request e = (oae_AuditIndex e, oae_ActionID e, oae_DeploymentID e, oae_Action e, oae_PreviousAuditHash e, oae_AcceptedAt e,
     oae_IdempotencyKey e, oae_PayloadHash e, oae_Nonce e, oae_RequestHash e)"

lemma event_request_updates [simp]:
  "event_request (oae_SubjectDeploymentID_update f e) = event_request e" "event_request (oae_RelatedDeploymentID_update f e) = event_request e"
  "event_request (oae_OperatorName_update f e) = event_request e" "event_request (oae_OperatorAvatarURL_update f e) = event_request e"
  "event_request (oae_ClaimState_update f e) = event_request e" "event_request (oae_GroupID_update f e) = event_request e"
  "event_request (oae_LinkID_update f e) = event_request e" "event_request (oae_TokenID_update f e) = event_request e"
  "event_request (oae_ClientTokenHash_update f e) = event_request e" "event_request (oae_SourceClaimActionID_update f e) = event_request e"
  "event_request (oae_SourcePrivateRecordHash_update f e) = event_request e"
  "event_request (oae_TokenTTLSeconds_update g e) = event_request e" "event_request (oae_TokenExpiresAt_update f e) = event_request e"
  "event_request (oae_AuditHash_update f e) = event_request e" "event_request (oae_ReceiptSignature_update f e) = event_request e"
  by (simp_all add: event_request_def)

lemma deriveRedeemTx_request:
  "post (\<lambda>e. event_request e = event_request event) (deriveRedeemTx ops input event claim targetMembership)"
  unfolding deriveRedeemTx_def redeemTokenTx_def by (intro post_intros) (simp_all add: redeemEvent_def)

lemma deriveOperatorActionTx_request: "post (\<lambda>e. event_request e = event_request event) (deriveOperatorActionTx ops input event)"
  unfolding deriveOperatorActionTx_def deriveActionTx_def by (intro post_intros deriveRedeemTx_request) simp_all

lemma insert_frames:
  "insert_operator_audit_event db ops e = Inr ops' \<Longrightarrow> ops' = ops\<lparr>operator_audit_events := operator_audit_events ops @ [e]\<rparr>"
  "insert_operator_nonce db ops n = Inr ops' \<Longrightarrow> ops' = ops\<lparr>operator_action_nonces := operator_action_nonces ops @ [n]\<rparr>"
  "insert_network_state db ops s = Inr ops' \<Longrightarrow>
     ops' = ops\<lparr>operator_network_state_rows := operator_network_state_rows ops @ [s]\<rparr> \<and> network_state_check s"
  "insert_claim_submission db ops u = Inr ops' \<Longrightarrow>
     ops' = ops\<lparr>operator_claim_verification_submissions := operator_claim_verification_submissions ops @ [u]\<rparr>"
  "upsert_claim_status db ops c = Inr ops' \<Longrightarrow>
     ops' = ops\<lparr>operator_claim_status := replace_row cs_deployment_id (operator_claim_status ops) c\<rparr>"
  "upsert_eligibility_current db ops g = Inr ops' \<Longrightarrow>
     ops' = ops\<lparr>operator_claim_eligibility_current := replace_row ec_deployment_id (operator_claim_eligibility_current ops) g\<rparr>"
  by (simp_all add: insert_operator_audit_event_def insert_operator_nonce_def insert_network_state_def insert_claim_submission_def
      upsert_claim_status_def upsert_eligibility_current_def Let_def split: if_splits)

lemma writePendingOperatorClaimTx_frame:
  assumes "writePendingOperatorClaimTx H db ops event source = Inr ops'"
  shows "\<exists>subs sts els. ops' = ops\<lparr>operator_claim_verification_submissions := subs, operator_claim_status := sts,
    operator_claim_eligibility_current := els\<rparr>"
proof -
  from assms obtain a b ops1 ops2 where "insert_claim_submission db ops a = Inr ops1" "upsert_claim_status db ops1 b = Inr ops2"
    "\<exists>c. upsert_eligibility_current db ops2 c = Inr ops'"
    unfolding writePendingOperatorClaimTx_def Let_def result_simps by blast
  then show ?thesis by (auto dest!: insert_frames)
qed

lemma writeOperatorClaimStateTx_frame:
  assumes "writeOperatorClaimStateTx H db ops input event = Inr ops'"
  shows "\<exists>subs sts els. ops' = ops\<lparr>operator_claim_verification_submissions := subs, operator_claim_status := sts,
    operator_claim_eligibility_current := els\<rparr>"
proof -
  have id: "ops = ops\<lparr>operator_claim_verification_submissions := operator_claim_verification_submissions ops,
    operator_claim_status := operator_claim_status ops, operator_claim_eligibility_current := operator_claim_eligibility_current ops\<rparr>"
    by simp
  have "post (\<lambda>ops'. ops' = ops \<or> (\<exists>source. writePendingOperatorClaimTx H db ops event source = Inr ops') \<or>
      withdrawCurrentClaimTx db ops event = Inr ops') (writeOperatorClaimStateTx H db ops input event)"
    unfolding writeOperatorClaimStateTx_def by (intro post_intros) (auto intro: postI)
  then consider "ops' = ops" | source where "writePendingOperatorClaimTx H db ops event source = Inr ops'"
    | "withdrawCurrentClaimTx db ops event = Inr ops'" using assms by (auto dest: postD)
  then show ?thesis
  proof cases
    case 1
    then show ?thesis using id by metis
  next
    case 2
    then show ?thesis by (rule writePendingOperatorClaimTx_frame)
  next
    case 3
    then obtain sts els where "ops' = ops\<lparr>operator_claim_status := sts, operator_claim_eligibility_current := els\<rparr>"
      unfolding withdrawCurrentClaimTx_def result_simps by (auto simp: result_simps split: if_splits)
    then have "ops' = ops\<lparr>operator_claim_verification_submissions := operator_claim_verification_submissions ops,
      operator_claim_status := sts, operator_claim_eligibility_current := els\<rparr>" by simp
    then show ?thesis by blast
  qed
qed

lemma appendOperatorEventTx_Inr:
  assumes "appendOperatorEventTx H db ops input event = Inr ops'"
  obtains rows subs sts els nonces where
    "ops' = ops\<lparr>operator_audit_events := operator_audit_events ops @ [event],
       operator_network_state_rows := operator_network_state_rows ops @ [applyOperatorNetworkEvent
         (operatorNetworkStateBeforeTx ops (oae_SubjectDeploymentID event) (oae_AuditIndex event)) event],
       operator_claim_verification_submissions := subs, operator_claim_status := sts,
       operator_claim_eligibility_current := els, operator_action_nonces := operator_action_nonces ops @ [nonces]\<rparr>"
    "network_state_check (applyOperatorNetworkEvent
       (operatorNetworkStateBeforeTx ops (oae_SubjectDeploymentID event) (oae_AuditIndex event)) event)"
proof -
  from assms obtain ops1 ops2 ops3 where
    1: "insert_operator_audit_event db ops event = Inr ops1" and
    2: "insertOperatorNetworkStateTx db ops1 event = Inr ops2" and
    3: "writeOperatorClaimStateTx H db ops2 input event = Inr ops3" and
    4: "insertOperatorNonceTx db ops3 input (oae_ActionID event) = Inr ops'"
    by (auto simp: appendOperatorEventTx_def result_simps)
  note e1 = insert_frames(1) [OF 1]
  have b: "operatorNetworkStateBeforeTx ops1 d k = operatorNetworkStateBeforeTx ops d k" for d k
    by (simp add: operatorNetworkStateBeforeTx_def e1)
  note e2 = insert_frames(3) [OF 2 [unfolded insertOperatorNetworkStateTx_def b]]
  from writeOperatorClaimStateTx_frame [OF 3] obtain subs sts els where e3: "ops3 = ops2\<lparr>operator_claim_verification_submissions := subs,
    operator_claim_status := sts, operator_claim_eligibility_current := els\<rparr>" by blast
  from insert_frames(2) [OF 4 [unfolded insertOperatorNonceTx_def]] e1 e2 e3 that show thesis by simp
qed

lemma AppendOperatorAction_cases [consumes 1, case_names known retry fresh]:
  assumes "AppendOperatorAction H db transfers ops input signReceipt = Inr (ops', event, duplicate)"
  obtains (known) actionID where "duplicate" "ops' = ops"
      "operatorNonceStateTx ops (oai_DeploymentID input) (oai_Nonce input) = (actionID, oai_RequestHash input)" "actionID \<noteq> []"
      "operatorActionByIDTx ops actionID = Inr event"
      "oae_IdempotencyKey event = oai_IdempotencyKey input" "oae_PayloadHash event = oai_PayloadHash input"
  | (retry) "duplicate" "fst (operatorNonceStateTx ops (oai_DeploymentID input) (oai_Nonce input)) = []"
      "operatorActionByIdempotencyTx ops (oai_DeploymentID input) (oai_IdempotencyKey input) = Some event"
      "oae_PayloadHash event = oai_PayloadHash input" "insertOperatorNonceTx db ops input (oae_ActionID event) = Inr ops'"
  | (fresh) derived signature where "\<not> duplicate" "fst (operatorNonceStateTx ops (oai_DeploymentID input) (oai_Nonce input)) = []"
      "operatorActionByIdempotencyTx ops (oai_DeploymentID input) (oai_IdempotencyKey input) = None"
      "ensureAcceptedAtNotBeforeHead (oai_AcceptedAt input) (snd (snd (audit_head ops))) = Inr ()"
      "deriveOperatorActionTx ops input (newOperatorEvent input (fst (audit_head ops)) (fst (snd (audit_head ops)))) = Inr derived"
      "event = (hashedOperatorEvent H derived)\<lparr>oae_ReceiptSignature := signature\<rparr>"
      "appendOperatorEventTx H db ops input event = Inr ops'"
proof -
  obtain hi hh ha where h: "audit_head ops = (hi, hh, ha)" by (cases "audit_head ops")
  obtain na nr where n: "operatorNonceStateTx ops (oai_DeploymentID input) (oai_Nonce input) = (na, nr)" by fastforce
  show thesis
  proof (cases "na = []")
    case False
    then show thesis using assms n by (intro known [of na]) (auto simp: AppendOperatorAction_def result_simps split: if_splits)
  next
    case na: True
    show thesis
    proof (cases "operatorActionByIdempotencyTx ops (oai_DeploymentID input) (oai_IdempotencyKey input)")
      case (Some existing)
      then show thesis using assms n na by (intro retry) (auto simp: AppendOperatorAction_def result_simps split: if_splits)
    next
      case None
      from assms [unfolded AppendOperatorAction_def] n na None h obtain derived signature where
        d: "ensureAcceptedAtNotBeforeHead (oai_AcceptedAt input) ha = Inr ()"
        "deriveOperatorActionTx ops input (newOperatorEvent input hi hh) = Inr derived"
        "event = (hashedOperatorEvent H derived)\<lparr>oae_ReceiptSignature := signature\<rparr>"
        "appendOperatorEventTx H db ops input event = Inr ops'" "\<not> duplicate"
        by (auto simp: result_simps split: option.splits)
      then show thesis using n na None h by (intro fresh [of derived signature]) simp_all
    qed
  qed
qed

lemma operatorEventMessage_updates [simp]:
  "operatorEventMessage (oae_AuditHash_update f e) = operatorEventMessage e"
  "operatorEventMessage (oae_ReceiptSignature_update g e) = operatorEventMessage e"
  by (simp_all add: operatorEventMessage_def)

lemma fresh_event_request:
  assumes "deriveOperatorActionTx ops input (newOperatorEvent input headIndex headHash) = Inr derived"
    and "event = (hashedOperatorEvent H derived)\<lparr>oae_ReceiptSignature := signature\<rparr>"
  shows "oae_AuditIndex event = i64 (headIndex + 1)" "oae_PreviousAuditHash event = headHash" "oae_Action event = oai_Action input"
    "oae_ActionID event = oai_CandidateActionID input" "oae_DeploymentID event = oai_DeploymentID input"
    "oae_AcceptedAt event = oai_AcceptedAt input" "oae_PayloadHash event = oai_PayloadHash input"
    "oae_IdempotencyKey event = oai_IdempotencyKey input"
proof -
  have "event_request event = event_request (newOperatorEvent input headIndex headHash)"
    using postD [OF deriveOperatorActionTx_request assms(1)] by (simp add: assms(2) hashedOperatorEvent_def)
  then show "oae_AuditIndex event = i64 (headIndex + 1)" "oae_PreviousAuditHash event = headHash" "oae_Action event = oai_Action input"
    "oae_ActionID event = oai_CandidateActionID input" "oae_DeploymentID event = oai_DeploymentID input"
    "oae_AcceptedAt event = oai_AcceptedAt input" "oae_PayloadHash event = oai_PayloadHash input"
    "oae_IdempotencyKey event = oai_IdempotencyKey input"
    by (simp_all add: event_request_def newOperatorEvent_def)
qed

lemma appendOperatorEventTx_network:
  assumes n: "network_ok H ops" and len: "length (operator_audit_events ops) < 2 ^ 62"
    and idx: "oae_AuditIndex event = i64 (fst (audit_head ops) + 1)" "oae_PreviousAuditHash event = fst (snd (audit_head ops))"
    and hash: "oae_AuditHash event = Digest H (operatorEventMessage event)"
    and app: "appendOperatorEventTx H db ops input event = Inr ops'"
  shows "network_ok H ops' \<and> operator_audit_events ops' = operator_audit_events ops @ [event]"
proof -
  have c: "audit_chain H (operator_audit_events ops)" using n by (simp add: network_ok_def)
  have c': "audit_chain H (operator_audit_events ops @ [event])"
    using idx by (intro event_chain_append_head [OF c len _ hash])
      (auto simp: audit_head_def operatorAuditHeadQuery_def OperatorAuditZeroHash_def split: option.splits)
  then have "oae_AuditIndex event = int (length (operator_audit_events ops)) + 1" by (simp add: event_chain_snoc)
  then have "operatorNetworkStateBeforeTx ops d (oae_AuditIndex event) = network_state (operator_audit_events ops) d" for d
    using operatorNetworkStateAtTx_replay(3) [OF n, of d "length (operator_audit_events ops)"] by simp
  then show ?thesis using c' n
    by (rule_tac appendOperatorEventTx_Inr [OF app]) (simp add: network_ok_def replay_states_snoc')
qed

lemma AppendOperatorAction_network:
  assumes "network_ok H ops" "length (operator_audit_events ops) < 2 ^ 62"
    and "AppendOperatorAction H db transfers ops input signReceipt = Inr (ops', event, duplicate)"
  shows "network_ok H ops' \<and> operator_audit_events ops' = operator_audit_events ops @ (if duplicate then [] else [event])"
  using assms(3)
proof (cases rule: AppendOperatorAction_cases)
  case known
  then show ?thesis using assms(1) by simp
next
  case retry
  then show ?thesis using assms(1) insert_frames(2) [OF retry(5) [unfolded insertOperatorNonceTx_def]] by (simp add: network_ok_def)
next
  case (fresh derived signature)
  note r = fresh_event_request [OF fresh(5,6)]
  have "oae_AuditHash event = Digest H (operatorEventMessage event)" by (simp add: fresh(6) hashedOperatorEvent_def)
  then show ?thesis using appendOperatorEventTx_network [OF assms(1,2) r(1,2) _ fresh(7)] fresh(1) by simp
qed

subsection \<open>The audit log commits to its events\<close>

definition operatorEvent_texts :: "OperatorAuditEvent \<Rightarrow> string list" where
  "operatorEvent_texts e =
     [FormatInt (oae_AuditIndex e), oae_ActionID e, oae_DeploymentID e, oae_SubjectDeploymentID e, oae_RelatedDeploymentID e,
      oae_Action e, oae_PayloadHash e, oae_AcceptedAt e, oae_ClaimState e, oae_GroupID e, oae_LinkID e, oae_TokenID e,
      oae_ClientTokenHash e, oae_SourceClaimActionID e, oae_SourcePrivateRecordHash e, oae_TokenExpiresAt e,
      oae_PreviousAuditHash e]"

interpretation audit_log: event_log oae_AuditIndex oae_PreviousAuditHash oae_AuditHash operatorEventMessage
  "\<lambda>e. list_all no_lf (operatorEvent_texts e)" operatorEvent_texts
proof
  fix e e' :: OperatorAuditEvent
  assume wf: "list_all no_lf (operatorEvent_texts e)" "list_all no_lf (operatorEvent_texts e')"
    and eq: "operatorEventMessage e = operatorEventMessage e'"
  show "operatorEvent_texts e = operatorEvent_texts e'"
    using eq wf unfolding operatorEventMessage_def OperatorAuditMessage_def
    by (simp split: if_split_asm add: canonical_Cons_eq_iff operatorEvent_texts_def)
qed (simp add: operatorEvent_texts_def)

subsection \<open>Client tokens\<close>

lemma activeClientTokenTx_issued:
  assumes "activeClientTokenTx ops [] tokenHash t = Inr token" "tokenHash \<noteq> []"
  obtains a x u where "a \<in> set (operator_audit_events ops)" "oae_Action a = ''issue-client-token''" "oae_ClientTokenHash a = tokenHash"
    "otk_DeploymentID token = oae_DeploymentID a" "otk_GroupID token = oae_GroupID a" "otk_TokenID token = oae_TokenID a"
    "time_Parse_RFC3339Nano (oae_TokenExpiresAt a) = Some x" "time_Parse_RFC3339Nano t = Some u" "u < x"
    "\<forall>e \<in> set (operator_audit_events ops). oae_TokenID e = oae_TokenID a \<and> oae_AuditIndex e > oae_AuditIndex a \<longrightarrow>
       oae_Action e \<notin> {''revoke-client-token'', ''redeem-client-token''}"
proof -
  let ?rows = "filter (\<lambda>a. oae_Action a = ''issue-client-token'' \<and> oae_ClientTokenHash a = tokenHash) (operator_audit_events ops)"
  obtain a where sel: "select_max oae_AuditIndex ?rows = Some a"
    using assms(1) by (auto simp: activeClientTokenTx_def split: option.splits)
  then have "a \<in> set ?rows" by (rule select_max_mem)
  then have a: "a \<in> set (operator_audit_events ops)" "oae_Action a = ''issue-client-token''" "oae_ClientTokenHash a = tokenHash" by simp_all
  from assms sel obtain x u where "time_Parse_RFC3339Nano (oae_TokenExpiresAt a) = Some x" "time_Parse_RFC3339Nano t = Some u" "u < x"
    "otk_DeploymentID token = oae_DeploymentID a" "otk_GroupID token = oae_GroupID a" "otk_TokenID token = oae_TokenID a"
    "\<forall>e \<in> set (operator_audit_events ops). oae_TokenID e = oae_TokenID a \<and> oae_AuditIndex e > oae_AuditIndex a \<longrightarrow>
       oae_Action e \<notin> {''revoke-client-token'', ''redeem-client-token''}"
    by (auto simp: activeClientTokenTx_def Let_def list_ex_iff split: if_split_asm option.split_asm) blast
  with a show thesis by (intro that [of a x u])
qed

lemma approvedOperatorClaimSubmissionTx_approved:
  assumes "approvedOperatorClaimSubmissionTx ops deploymentID groupID t = Inr source"
  shows "\<exists>s \<in> set (operator_claim_status ops). cs_deployment_id s = deploymentID \<and> cs_group_id s = groupID \<and>
    cs_verification_state s = ''approved'' \<and> (\<exists>e \<in> set (operator_claim_eligibility_current ops).
      ec_deployment_id e = deploymentID \<and> ec_claim_action_id e = cs_claim_action_id s \<and> ec_eligibility_state e = ''active'')"
proof -
  from assms obtain s where "find (\<lambda>s. cs_deployment_id s = deploymentID \<and> cs_group_id s = groupID \<and> cs_verification_state s = ''approved'' \<and>
         cs_approved_at s \<noteq> [] \<and>
         list_ex (\<lambda>e. ec_deployment_id e = cs_deployment_id s \<and> ec_claim_action_id e = cs_claim_action_id s \<and>
           ec_eligibility_state e = ''active'') (operator_claim_eligibility_current ops)) (operator_claim_status ops) = Some s"
    by (auto simp: approvedOperatorClaimSubmissionTx_def split: option.splits)
  then show ?thesis by (auto simp: find_Some_iff list_ex_iff)
qed

lemma claim_required_Inr: "claim_required r = Inr x \<longleftrightarrow> r = Inr x"
  by (cases r) (simp_all add: claim_required_def)

text \<open>What a redeemed token must satisfy.\<close>

definition token_redeemable :: "operator_tables \<Rightarrow> OperatorActionInput \<Rightarrow> OperatorAuditEvent \<Rightarrow> bool" where
  "token_redeemable ops input a \<longleftrightarrow>
     oae_Action a = ''issue-client-token'' \<and> oae_ClientTokenHash a = oai_ClientTokenHash input \<and>
     oae_DeploymentID a \<noteq> oai_DeploymentID input \<and> operatorDeploymentActiveTx ops (oae_DeploymentID a) \<and>
     (\<forall>e \<in> set (operator_audit_events ops). oae_TokenID e = oae_TokenID a \<and> oae_AuditIndex e > oae_AuditIndex a \<longrightarrow>
       oae_Action e \<notin> {''revoke-client-token'', ''redeem-client-token''}) \<and>
     (\<exists>x t. time_Parse_RFC3339Nano (oae_TokenExpiresAt a) = Some x \<and> time_Parse_RFC3339Nano (oai_AcceptedAt input) = Some t \<and> t < x) \<and>
     (\<exists>s \<in> set (operator_claim_status ops). cs_deployment_id s = oae_DeploymentID a \<and> cs_group_id s = oae_GroupID a \<and>
       cs_verification_state s = ''approved'' \<and> (\<exists>e \<in> set (operator_claim_eligibility_current ops).
         ec_deployment_id e = oae_DeploymentID a \<and> ec_claim_action_id e = cs_claim_action_id s \<and> ec_eligibility_state e = ''active''))"

lemma redeemEvent_simps [simp]:
  "oae_TokenID (redeemEvent input event claim target issuer token source) = otk_TokenID token"
  "oae_RelatedDeploymentID (redeemEvent input event claim target issuer token source) = otk_DeploymentID token"
  "oae_GroupID (redeemEvent input event claim target issuer token source) = ocl_GroupID issuer"
  by (simp_all add: redeemEvent_def)

lemma deriveRedeemTx_redeemable:
  assumes "oai_ClientTokenHash input \<noteq> []"
  shows "post (\<lambda>e. \<exists>a \<in> set (operator_audit_events ops). token_redeemable ops input a \<and> oae_TokenID e = oae_TokenID a \<and>
      oae_RelatedDeploymentID e = oae_DeploymentID a \<and> oae_GroupID e = oae_GroupID a) (deriveRedeemTx ops input event claim targetMembership)"
  unfolding deriveRedeemTx_def redeemTokenTx_def
proof (intro post_intros, goal_cases)
  case (1 token source)
  obtain a x u where a: "a \<in> set (operator_audit_events ops)" "oae_Action a = ''issue-client-token''"
      "oae_ClientTokenHash a = oai_ClientTokenHash input"
      "otk_DeploymentID token = oae_DeploymentID a" "otk_GroupID token = oae_GroupID a" "otk_TokenID token = oae_TokenID a"
      "time_Parse_RFC3339Nano (oae_TokenExpiresAt a) = Some x" "time_Parse_RFC3339Nano (oai_AcceptedAt input) = Some u" "u < x"
      "\<forall>e \<in> set (operator_audit_events ops). oae_TokenID e = oae_TokenID a \<and> oae_AuditIndex e > oae_AuditIndex a \<longrightarrow>
         oae_Action e \<notin> {''revoke-client-token'', ''redeem-client-token''}"
    by (rule activeClientTokenTx_issued [OF 1(2) assms])
  have "approvedOperatorClaimSubmissionTx ops (oae_DeploymentID a) (oae_GroupID a) (oai_AcceptedAt input) = Inr source"
    using 1(6) by (simp add: claim_required_Inr a(4,5))
  note s = approvedOperatorClaimSubmissionTx_approved [OF this]
  have "token_redeemable ops input a" unfolding token_redeemable_def using a s 1(3,4) by auto
  moreover have "ocl_GroupID (om_operatorClaimState (operatorMembershipTx ops (otk_DeploymentID token) 0)) = oae_GroupID a"
    using 1(5) a(5) by simp
  ultimately show ?case using a(1,4,6) by (intro bexI [of _ a]) simp_all
qed

definition redeemed_tokens :: "operator_tables \<Rightarrow> string list" where
  "redeemed_tokens ops = map oae_TokenID (filter (\<lambda>e. oae_Action e = ''redeem-client-token'') (operator_audit_events ops))"

lemma appendOperatorEventTx_redeemed:
  assumes "appendOperatorEventTx H db ops input event = Inr ops'" "distinct (redeemed_tokens ops)"
  shows "distinct (redeemed_tokens ops')"
proof -
  from assms(1) have "oae_Action event = ''redeem-client-token'' \<Longrightarrow> oae_TokenID event \<notin> set (redeemed_tokens ops)"
    unfolding appendOperatorEventTx_def insert_operator_audit_event_def result_simps Let_def redeemed_tokens_def
    by (auto split: if_split_asm)
  then show ?thesis by (rule_tac appendOperatorEventTx_Inr [OF assms(1)]) (use assms(2) in \<open>simp add: redeemed_tokens_def\<close>)
qed

subsection \<open>Properties\<close>

text \<open>A deployment claims its operator and the claim is answered again on a retry.\<close>

definition sample_claim :: OperatorActionInput where
  "sample_claim = \<lparr>oai_RegistryScope = ''demo'', oai_DeploymentID = ''dep'', oai_Action = ''claim'',
     oai_RequestTimestamp = ''2026-01-02T00:00:00Z'', oai_Nonce = ''n1'', oai_IdempotencyKey = ''key'', oai_PayloadHash = ''payload'',
     oai_RequestHash = ''request'', oai_DeploymentSignature = replicate 64 (CHR ''s''), oai_OperatorName = [],
     oai_OperatorAvatarURL = [], oai_LegalName = ''Acme'', oai_RegistrationNumber = ''1'', oai_Jurisdiction = ''HU'',
     oai_RegisteredAddress = ''a'', oai_Website = ''w'', oai_VerificationContactName = ''c'', oai_VerificationContactRole = ''r'',
     oai_VerificationContactEmail = ''e'', oai_AuthorityAttested = True, oai_ClientTokenHash = [], oai_TokenTTLSeconds = 0,
     oai_TokenID = [], oai_LinkID = [], oai_CandidateActionID = ''opa_1'', oai_CandidateGroupID = ''grp_1'', oai_CandidateLinkID = [],
     oai_CandidateTokenID = [], oai_CandidateClientTokenHash = [], oai_CandidateTokenExpiresAt = [],
     oai_AcceptedAt = ''2026-01-02T00:00:01Z'', oai_RegistryKeyID = ''k''\<rparr>"

abbreviation sample_audit_signer :: "OperatorAuditEvent \<Rightarrow> bytes option" where
  "sample_audit_signer \<equiv> \<lambda>_. Some (replicate 64 (CHR ''r''))"

text \<open>A constant toy hash: the samples hash one event.\<close>

definition flat_hash :: "bytes \<Rightarrow> bytes" where
  "flat_hash m = replicate 32 (CHR ''a'')"

definition flat_digest :: string where
  "flat_digest = ''sha256:6161616161616161616161616161616161616161616161616161616161616161''"

lemma hex_flat: "hex_EncodeToString (replicate 32 (CHR ''a'')) = ''6161616161616161616161616161616161616161616161616161616161616161''"
  by code_simp

lemma Digest_flat: "Digest flat_hash m = flat_digest"
  by (simp add: Digest_def flat_hash_def hex_flat flat_digest_def)

lemma sample_times:
  "time_Parse_RFC3339Nano ''2026-01-02T00:00:01Z'' = Some 1767312001000000000"
  "time_Parse_RFC3339Nano ''2026-01-01T00:00:00Z'' = Some 1767225600000000000"
  by code_simp+

lemmas operator_eval = AppendOperatorAction_def requireDeploymentTx_def operatorNonceStateTx_def operatorActionByIdempotencyTx_def
  operatorActionByIDTx_def ensureAcceptedAtAfterRegistryCreation_def audit_head_def operatorAuditHeadQuery_def select_max_def
  ensureAcceptedAtNotBeforeHead_def ensureOperatorActionAfterOwnershipTransfer_def deriveOperatorActionTx_def deriveActionTx_def
  operatorDeploymentActiveTx_def operatorClaimTx_def operatorMembershipTx_def operatorNetworkStateAtTx_def
  operatorNetworkStateBeforeTx_def initialNetworkState_def hashedOperatorEvent_def appendOperatorEventTx_def
  insert_operator_audit_event_def operator_event_check_def insertOperatorNetworkStateTx_def insert_network_state_def
  network_state_check_def network_event_defs writeOperatorClaimStateTx_def writePendingOperatorClaimTx_def
  insert_claim_submission_def upsert_claim_status_def upsert_eligibility_current_def claim_status_check_def
  eligibility_current_check_def replace_row_def inputSubmission_def insertOperatorNonceTx_def insert_operator_nonce_def
  newOperatorEvent_def operator_constants protocol_constants Let_def

lemmas sample_eval = sample_claim_def sample_db_def empty_db_def empty_operators_def empty_transfers_def sample_identity_def
  sample_deployment_def sample_times Digest_flat flat_digest_def i64_nonneg_id

definition sample_claimed :: "operator_tables \<times> OperatorAuditEvent \<times> bool" where
  "sample_claimed = (case AppendOperatorAction flat_hash sample_db empty_transfers empty_operators sample_claim sample_audit_signer of
     Inl _ \<Rightarrow> (empty_operators, newOperatorEvent sample_claim 0 [], True) | Inr x \<Rightarrow> x)"

lemma sample_claim_ok:
  "\<not> isl (AppendOperatorAction flat_hash sample_db empty_transfers empty_operators sample_claim sample_audit_signer)"
  "\<not> snd (snd sample_claimed)" "oae_SubjectDeploymentID (fst (snd sample_claimed)) = ''dep''"
  by (simp_all add: sample_claimed_def operator_eval sample_eval)

lemma sample_claim_accepted:
  "AppendOperatorAction flat_hash sample_db empty_transfers empty_operators sample_claim sample_audit_signer =
    Inr (fst sample_claimed, fst (snd sample_claimed), False)"
  using sample_claim_ok
  by (cases "AppendOperatorAction flat_hash sample_db empty_transfers empty_operators sample_claim sample_audit_signer")
    (auto simp: sample_claimed_def)

lemma empty_network_ok [simp]: "network_ok H empty_operators" "operator_audit_events empty_operators = []"
  by (simp_all add: network_ok_def empty_operators_def)

text \<open>C21. An accepted operator action keeps the audit log and the network state consistent: when the log is a hash chain and the
  state rows are its replay, they are so after \<open>AppendOperatorAction\<close>, \<open>verifyOperatorNetworkStateRows\<close> passes, and the log
  grew by exactly the event returned, or not at all for a retry.\<close>

theorem AppendOperatorAction_keeps_network:
  assumes "network_ok H ops" "length (operator_audit_events ops) < 2 ^ 62"
    and "AppendOperatorAction H db transfers ops input signReceipt = Inr (ops', event, duplicate)"
  shows "network_ok H ops' \<and> verifyOperatorNetworkStateRows ops' = Inr () \<and>
    operator_audit_events ops' = operator_audit_events ops @ (if duplicate then [] else [event])"
  using AppendOperatorAction_network [OF assms] verifyOperatorNetworkStateRows_ok [of H ops'] by blast

theorem AppendOperatorAction_keeps_network_witness:
  "verifyOperatorNetworkStateRows (fst sample_claimed) = Inr () \<and> operator_audit_events (fst sample_claimed) = [fst (snd sample_claimed)]"
  using AppendOperatorAction_keeps_network [OF empty_network_ok(1) _ sample_claim_accepted] by simp

text \<open>C23. The stored state refines the replay of the log: the state a deployment is read with after a new action is the effect of the
  event on the state it was read with before, and the state of every other deployment is as it was; at an older boundary the
  state read is the replay of the events up to it.\<close>

theorem operatorNetworkStateAtTx_refines:
  assumes "network_ok H ops" "length (operator_audit_events ops) < 2 ^ 62"
    and "AppendOperatorAction H db transfers ops input signReceipt = Inr (ops', event, False)"
  shows "operatorNetworkStateAtTx ops' d 0 =
      (if d = oae_SubjectDeploymentID event then applyOperatorNetworkEvent (operatorNetworkStateAtTx ops d 0) event
       else operatorNetworkStateAtTx ops d 0) \<and>
    (\<forall>k > 0. operatorNetworkStateAtTx ops' d (int k) = network_state (take k (operator_audit_events ops')) d)"
proof -
  note n = AppendOperatorAction_network [OF assms]
  then have "network_ok H ops'" by blast
  from operatorNetworkStateAtTx_replay(1,2) [OF this] operatorNetworkStateAtTx_replay(1) [OF assms(1)] n
  show ?thesis by (simp add: network_state_snoc)
qed

theorem operatorNetworkStateAtTx_refines_witness:
  "operatorNetworkStateAtTx (fst sample_claimed) ''dep'' 0 =
    applyOperatorNetworkEvent (initialNetworkState ''dep'') (fst (snd sample_claimed))"
proof -
  have "operatorNetworkStateAtTx empty_operators ''dep'' 0 = initialNetworkState ''dep''"
    by (simp add: operatorNetworkStateAtTx_def empty_operators_def select_max_def)
  then show ?thesis
    using sample_claim_ok(3) operatorNetworkStateAtTx_refines [OF empty_network_ok(1) _ sample_claim_accepted, of "''dep''", THEN conjunct1] by simp
qed

text \<open>C22. A client token is redeemed only with authority: an accepted redemption names a token that was issued with the presented hash by
  another deployment, is neither revoked nor redeemed, has not expired, and whose issuer is active with an approved claim that is
  eligible in the token's group; the event records that issuer and group, and no token is redeemed twice.\<close>

theorem redeem_authorized:
  assumes "AppendOperatorAction H db transfers ops input signReceipt = Inr (ops', event, False)"
    and "oai_Action input = OperatorActionRedeemClientToken" "oai_ClientTokenHash input \<noteq> []" "distinct (redeemed_tokens ops)"
  shows "(\<exists>a \<in> set (operator_audit_events ops). token_redeemable ops input a \<and> oae_TokenID event = oae_TokenID a \<and>
      oae_RelatedDeploymentID event = oae_DeploymentID a \<and> oae_GroupID event = oae_GroupID a) \<and> distinct (redeemed_tokens ops')"
  using assms(1)
proof (cases rule: AppendOperatorAction_cases)
  case (fresh derived signature)
  have n: "OperatorActionRedeemClientToken \<notin> {OperatorActionClaim, OperatorActionWithdrawClaim, OperatorActionIssueClientToken,
      OperatorActionRevokeClientToken}" by (simp add: operator_constants)
  then have "\<exists>claim membership event. deriveRedeemTx ops input event claim membership = Inr derived"
    using fresh(5) assms(2) by (auto simp: deriveOperatorActionTx_def deriveActionTx_def split: if_split_asm)
  then obtain a where "a \<in> set (operator_audit_events ops)" "token_redeemable ops input a" "oae_TokenID derived = oae_TokenID a"
    "oae_RelatedDeploymentID derived = oae_DeploymentID a" "oae_GroupID derived = oae_GroupID a"
    using postD [OF deriveRedeemTx_redeemable [OF assms(3), of ops]] by blast
  moreover have "distinct (redeemed_tokens ops')" by (rule appendOperatorEventTx_redeemed [OF fresh(7) assms(4)])
  ultimately show ?thesis by (auto simp: fresh(6) hashedOperatorEvent_def)
qed simp_all

definition sample_issue :: OperatorAuditEvent where
  "sample_issue = (newOperatorEvent sample_claim 0 ZeroHash)\<lparr>oae_Action := ''issue-client-token'', oae_TokenID := ''tok'',
     oae_ClientTokenHash := ''th'', oae_GroupID := ''grp_1'', oae_TokenExpiresAt := ''2026-01-03T00:00:00Z'', oae_AuditHash := ''h1''\<rparr>"

definition sample_redeem_ops :: operator_tables where
  "sample_redeem_ops = empty_operators\<lparr>operator_audit_events := [sample_issue],
     operator_network_state_rows := [(initialNetworkState ''dep'')\<lparr>ons_AuditIndex := 1, ons_Claimed := True,
       ons_ClaimState := ''pending-review'', ons_ClaimGroupID := ''grp_1'', ons_EffectiveGroupID := ''grp_1'',
       ons_SourceAuditHash := ''h1''\<rparr>],
     operator_claim_verification_submissions := [(inputSubmission sample_claim)\<lparr>ocs_ClaimActionID := ''opa_0'',
       ocs_DeploymentID := ''dep'', ocs_PrivateRecordHash := ''p0''\<rparr>],
     operator_claim_status := [\<lparr>cs_deployment_id = ''dep'', cs_claim_action_id = ''opa_0'', cs_claim_audit_index = 1,
       cs_claim_audit_hash = [], cs_group_id = ''grp_1'', cs_legal_name = ''Acme'', cs_verification_state = ''approved'',
       cs_submitted_at = [], cs_review_id = [], cs_review_index = 1, cs_review_hash = [],
       cs_approved_at = ''2026-01-01T00:00:00Z'', cs_updated_at = [], cs_private_record_hash = ''p0''\<rparr>],
     operator_claim_eligibility_current := [\<lparr>ec_deployment_id = ''dep'', ec_claim_action_id = ''opa_0'', ec_group_id = ''grp_1'',
       ec_legal_name = ''Acme'', ec_eligibility_state = ''active'', ec_approved_review_index = 1, ec_approved_review_hash = [],
       ec_eligibility_id = [], ec_eligibility_index = 0, ec_eligibility_hash = ZeroHash, ec_updated_at = [],
       ec_source_claim_audit_index = 1, ec_source_claim_audit_hash = []\<rparr>]\<rparr>"

definition sample_redeem :: OperatorActionInput where
  "sample_redeem = sample_claim\<lparr>oai_DeploymentID := ''dep2'', oai_Action := ''redeem-client-token'', oai_ClientTokenHash := ''th'',
     oai_CandidateActionID := ''opa_2'', oai_IdempotencyKey := ''key2''\<rparr>"

definition sample_db2 :: registry_db where
  "sample_db2 = sample_db\<lparr>deployments := [sample_deployment, sample_deployment\<lparr>dep_DeploymentID := ''dep2''\<rparr>]\<rparr>"

definition sample_redeemed :: "operator_tables \<times> OperatorAuditEvent \<times> bool" where
  "sample_redeemed = (case AppendOperatorAction flat_hash sample_db2 empty_transfers sample_redeem_ops sample_redeem sample_audit_signer of
     Inl _ \<Rightarrow> (empty_operators, sample_issue, True) | Inr x \<Rightarrow> x)"

lemma sample_expiry: "time_Parse_RFC3339Nano ''2026-01-03T00:00:00Z'' = Some 1767398400000000000"
  by code_simp

lemmas redeem_eval = operator_eval sample_eval sample_issue_def sample_redeem_ops_def sample_redeem_def sample_db2_def sample_expiry
  deriveRedeemTx_def redeemTokenTx_def redeemEvent_def activeClientTokenTx_def approvedOperatorClaimSubmissionTx_def claim_required_def

lemma sample_redeem_ok:
  "\<not> isl (AppendOperatorAction flat_hash sample_db2 empty_transfers sample_redeem_ops sample_redeem sample_audit_signer)"
  "\<not> snd (snd sample_redeemed)" "redeemed_tokens sample_redeem_ops = []"
  by (simp_all add: sample_redeemed_def redeem_eval redeemed_tokens_def del: set_filter)

lemma sample_redeem_accepted:
  "AppendOperatorAction flat_hash sample_db2 empty_transfers sample_redeem_ops sample_redeem sample_audit_signer =
    Inr (fst sample_redeemed, fst (snd sample_redeemed), False)"
  using sample_redeem_ok
  by (cases "AppendOperatorAction flat_hash sample_db2 empty_transfers sample_redeem_ops sample_redeem sample_audit_signer")
    (auto simp: sample_redeemed_def)

theorem redeem_authorized_witness:
  "distinct (redeemed_tokens (fst sample_redeemed)) \<and> (\<exists>a \<in> set (operator_audit_events sample_redeem_ops).
     token_redeemable sample_redeem_ops sample_redeem a)"
proof -
  have "oai_Action sample_redeem = OperatorActionRedeemClientToken" "oai_ClientTokenHash sample_redeem \<noteq> []"
    by (simp_all add: sample_redeem_def operator_constants)
  then show ?thesis using redeem_authorized [OF sample_redeem_accepted] sample_redeem_ok(3) by auto
qed

text \<open>C24. The audit head commits to the audit log: two audit chains of the same length with the same head hash record the same actions,
  in every field of the audit message, unless two of their messages collide under the hash.\<close>

theorem audit_log_tamper_evident:
  assumes "audit_chain H es" "audit_chain H es'" "length es = length es'" "es \<noteq> []" "oae_AuditHash (last es) = oae_AuditHash (last es')"
    and "\<forall>e \<in> set es \<union> set es'. list_all no_lf (operatorEvent_texts e)" "inj_on H (operatorEventMessage ` (set es \<union> set es'))"
  shows "map operatorEvent_texts es = map operatorEvent_texts es'"
  using audit_log.events_determined [OF assms(1-3,6,7)] assms(5) by simp

theorem audit_log_tamper_evident_witness:
  "map operatorEvent_texts (operator_audit_events (fst sample_claimed)) =
     map operatorEvent_texts [(fst (snd sample_claimed))\<lparr>oae_OperatorName := ''other''\<rparr>]"
proof -
  let ?e = "fst (snd sample_claimed)"
  let ?d = "?e\<lparr>oae_OperatorName := ''other''\<rparr>"
  have n: "network_ok flat_hash (fst sample_claimed)" and es: "operator_audit_events (fst sample_claimed) = [?e]"
    using AppendOperatorAction_network [OF empty_network_ok(1) _ sample_claim_accepted] by simp_all
  then have c: "audit_chain flat_hash [?e]" by (simp add: network_ok_def)
  have m: "operatorEventMessage ?d = operatorEventMessage ?e" by (simp add: operatorEventMessage_def)
  have "audit_chain flat_hash [?d]" using c m by (simp add: event_chain_def)
  moreover have "list_all no_lf (operatorEvent_texts ?e)"
    by (simp add: sample_claimed_def operator_eval sample_eval operatorEvent_texts_def)
  moreover have "operatorEvent_texts ?d = operatorEvent_texts ?e" by (simp add: operatorEvent_texts_def)
  ultimately show ?thesis unfolding es using audit_log_tamper_evident [OF c, of "[?d]"] m by simp
qed

subsection \<open>Retries\<close>

lemma appendOperatorEventTx_recorded:
  assumes "appendOperatorEventTx H db ops input event = Inr ops'"
  shows "operatorActionByIDTx ops' (oae_ActionID event) = Inr event"
    and "operatorNonceStateTx ops' (oai_DeploymentID input) (oai_Nonce input) = (oae_ActionID event, oai_RequestHash input)"
    and "oae_DeploymentID event = oai_DeploymentID input \<Longrightarrow> oae_IdempotencyKey event = oai_IdempotencyKey input \<Longrightarrow>
      operatorActionByIdempotencyTx ops' (oai_DeploymentID input) (oai_IdempotencyKey input) = Some event"
proof -
  from assms obtain ops1 ops2 ops3 where
    1: "insert_operator_audit_event db ops event = Inr ops1" and
    2: "insertOperatorNetworkStateTx db ops1 event = Inr ops2" and
    3: "writeOperatorClaimStateTx H db ops2 input event = Inr ops3" and
    4: "insertOperatorNonceTx db ops3 input (oae_ActionID event) = Inr ops'"
    by (auto simp: appendOperatorEventTx_def result_simps)
  have fresh: "oae_ActionID event \<notin> oae_ActionID ` set (operator_audit_events ops)"
    "(oae_DeploymentID event, oae_IdempotencyKey event) \<notin> (\<lambda>x. (oae_DeploymentID x, oae_IdempotencyKey x)) ` set (operator_audit_events ops)"
    using 1 by (simp_all add: insert_operator_audit_event_def Let_def split: if_split_asm)
  have e3: "operator_audit_events ops3 = operator_audit_events ops @ [event]"
    using insert_frames(1) [OF 1] insert_frames(3) [OF 2 [unfolded insertOperatorNetworkStateTx_def]] writeOperatorClaimStateTx_frame [OF 3] by auto
  note e4 = insert_frames(2) [OF 4 [unfolded insertOperatorNonceTx_def]]
  have ev: "operator_audit_events ops' = operator_audit_events ops @ [event]" using e3 e4 by simp
  have nf: "find (\<lambda>e. oae_ActionID e = oae_ActionID event) (operator_audit_events ops) = None"
    using fresh(1) by (simp add: find_None_notin)
  then show "operatorActionByIDTx ops' (oae_ActionID event) = Inr event" by (simp add: operatorActionByIDTx_def ev find_append)
  have "find (\<lambda>n. on_deployment_id n = oai_DeploymentID input \<and> on_request_nonce n = oai_Nonce input) (operator_action_nonces ops3) = None"
    using 4 by (auto simp: insertOperatorNonceTx_def insert_operator_nonce_def find_None_iff image_iff split: if_split_asm)
  then show "operatorNonceStateTx ops' (oai_DeploymentID input) (oai_Nonce input) = (oae_ActionID event, oai_RequestHash input)"
    by (simp add: operatorNonceStateTx_def e4 find_append)
  have "find (\<lambda>e. oae_DeploymentID e = oae_DeploymentID event \<and> oae_IdempotencyKey e = oae_IdempotencyKey event) (operator_audit_events ops) = None"
    using fresh(2) by (auto simp: find_None_iff image_iff)
  then show "operatorActionByIdempotencyTx ops' (oai_DeploymentID input) (oai_IdempotencyKey input) = Some event"
    if "oae_DeploymentID event = oai_DeploymentID input" "oae_IdempotencyKey event = oai_IdempotencyKey input"
    using that by (simp add: operatorActionByIdempotencyTx_def ev find_append)
qed

text \<open>C25. Operator actions are idempotent: after an action was accepted, the same request returns the same event and changes nothing, a
  different request under the same nonce is a replay conflict, and a different payload under the same idempotency key (with an
  unused nonce) is an idempotency conflict.\<close>

theorem AppendOperatorAction_retry:
  assumes "AppendOperatorAction H db transfers ops input signReceipt = Inr (ops', event, False)" "oai_CandidateActionID input \<noteq> []"
  shows "AppendOperatorAction H db transfers' ops' input signReceipt' = Inr (ops', event, True) \<and>
    (oai_DeploymentID other = oai_DeploymentID input \<and> oai_Nonce other = oai_Nonce input \<and> oai_RequestHash other \<noteq> oai_RequestHash input \<longrightarrow>
      AppendOperatorAction H db transfers' ops' other signReceipt' = Inl ErrReplayConflict) \<and>
    (oai_DeploymentID other = oai_DeploymentID input \<and> oai_IdempotencyKey other = oai_IdempotencyKey input \<and>
      oai_PayloadHash other \<noteq> oai_PayloadHash input \<and> operatorNonceStateTx ops' (oai_DeploymentID other) (oai_Nonce other) = ([], []) \<longrightarrow>
      AppendOperatorAction H db transfers' ops' other signReceipt' = Inl ErrIdempotencyConflict)"
  using assms(1)
proof (cases rule: AppendOperatorAction_cases)
  case (fresh derived signature)
  note r = fresh_event_request [OF fresh(5,6)] and p = appendOperatorEventTx_recorded [OF fresh(7)]
  have d: "requireDeploymentTx db (oai_DeploymentID input) = Inr ()"
    using assms(1) by (auto simp: AppendOperatorAction_def result_simps)
  have "oae_ActionID event \<noteq> []" using r(4) assms(2) by simp
  with d p r(4-8) show ?thesis by (auto simp: AppendOperatorAction_def)
qed simp_all

theorem AppendOperatorAction_retry_witness:
  "AppendOperatorAction flat_hash sample_db empty_transfers (fst sample_claimed) sample_claim sample_audit_signer =
     Inr (fst sample_claimed, fst (snd sample_claimed), True) \<and>
   AppendOperatorAction flat_hash sample_db empty_transfers (fst sample_claimed) (sample_claim\<lparr>oai_RequestHash := ''x''\<rparr>) sample_audit_signer =
     Inl ErrReplayConflict"
proof -
  have "oai_CandidateActionID sample_claim \<noteq> []" "oai_RequestHash sample_claim \<noteq> ''x''" by (simp_all add: sample_claim_def)
  with AppendOperatorAction_retry [OF sample_claim_accepted, of empty_transfers sample_audit_signer "sample_claim\<lparr>oai_RequestHash := ''x''\<rparr>"]
  show ?thesis by simp
qed

end
