(* ===== verification/Operator_Claims.thy ===== *)
theory Operator_Claims
  imports Operator_Store
begin

text \<open>
  Review of operator claims (\<open>store/sqlite/operator_claims.go\<close>, \<open>operator_claim_eligibility.go\<close>) and the checks of the current
  claim state (\<open>operator_claim_verify.go\<close>, \<open>operator_claim_eligibility_verify.go\<close>).

  A claim is submitted by an operator action, decided once by a review, and an approved claim can be suspended and
  reinstated by eligibility decisions.  Reviews and eligibility decisions are hash-chained logs of their own; the tables
  \<open>operator_claim_status\<close> and \<open>operator_claim_eligibility_current\<close> hold what the three logs say about every deployment.

  The lemmas show that in every reachable state both tables are exactly what the checks recompute from the logs, which
  claims are eligible, and how a decision and a withdrawal that overlap in time are judged by the check.
\<close>

subsection \<open>Reading claims\<close>

text \<open>\<open>operatorClaimStatusSelect\<close>: a status row joined with the current eligibility of its deployment.\<close>

definition current_eligibility :: "operator_tables \<Rightarrow> string \<Rightarrow> eligibility_current_row option" where
  "current_eligibility ops deploymentID =
     find (\<lambda>e. ec_deployment_id e = deploymentID) (operator_claim_eligibility_current ops)"

definition operatorClaimStatusSelect :: "operator_tables \<Rightarrow> claim_status_row \<Rightarrow> OperatorClaimStatus" where
  "operatorClaimStatusSelect ops s =
     (let eligibility = current_eligibility ops (cs_deployment_id s) in
      \<lparr>ocst_DeploymentID = cs_deployment_id s, ocst_ClaimActionID = cs_claim_action_id s,
       ocst_ClaimAuditIndex = cs_claim_audit_index s, ocst_ClaimAuditHash = cs_claim_audit_hash s,
       ocst_GroupID = cs_group_id s, ocst_LegalName = cs_legal_name s, ocst_VerificationState = cs_verification_state s,
       ocst_SubmittedAt = cs_submitted_at s, ocst_ReviewID = cs_review_id s, ocst_ReviewIndex = cs_review_index s,
       ocst_ReviewHash = cs_review_hash s, ocst_ApprovedAt = cs_approved_at s, ocst_UpdatedAt = cs_updated_at s,
       ocst_PrivateRecordHash = cs_private_record_hash s,
       ocst_EligibilityState = (case eligibility of None \<Rightarrow> ''inactive'' | Some e \<Rightarrow> ec_eligibility_state e),
       ocst_EligibilityID = (case eligibility of None \<Rightarrow> [] | Some e \<Rightarrow> ec_eligibility_id e),
       ocst_EligibilityIndex = (case eligibility of None \<Rightarrow> 0 | Some e \<Rightarrow> ec_eligibility_index e),
       ocst_EligibilityHash = (case eligibility of None \<Rightarrow> OperatorClaimEligibilityZeroHash | Some e \<Rightarrow> ec_eligibility_hash e)\<rparr>)"

definition OperatorClaimStatus_query :: "operator_tables \<Rightarrow> string \<Rightarrow> store_error + OperatorClaimStatus" where
  "OperatorClaimStatus_query ops deploymentID =
     (case find (\<lambda>s. cs_deployment_id s = deploymentID) (operator_claim_status ops) of
        None \<Rightarrow> Inl ErrNotFound
      | Some s \<Rightarrow> Inr (operatorClaimStatusSelect ops s))"

definition OperatorClaimSubmission_query ::
  "operator_tables \<Rightarrow> string \<Rightarrow> store_error + OperatorClaimSubmission \<times> OperatorClaimStatus" where
  "OperatorClaimSubmission_query ops deploymentID =
     (case OperatorClaimStatus_query ops deploymentID of Inl err \<Rightarrow> Inl err | Inr status \<Rightarrow>
     (case find (\<lambda>s. ocs_ClaimActionID s = ocst_ClaimActionID status) (operator_claim_verification_submissions ops) of
        None \<Rightarrow> Inl ErrNotFound
      | Some submission \<Rightarrow> Inr (submission, status)))"

text \<open>One row more than the page is read to find the next page.  A negative limit panics (making the slice, or indexing it), and so
  does a limit of zero when a row is left.\<close>

definition OperatorClaims :: "operator_tables \<Rightarrow> OperatorClaimQuery \<Rightarrow> store_error + OperatorClaimPage" where
  "OperatorClaims ops query =
     (let limit = nat (ocq_Limit query);
          items = take (limit + 1) (sort_key ocst_DeploymentID
            (filter (\<lambda>s. (ocq_Status query = [] \<or> ocst_VerificationState s = ocq_Status query) \<and>
              ocst_DeploymentID s > ocq_AfterDeploymentID query)
              (map (operatorClaimStatusSelect ops) (operator_claim_status ops))))
      in if i64 (ocq_Limit query + 1) \<le> 0 then Inl SliceOutOfRange
         else if length items > limit then
           if limit = 0 then Inl SliceOutOfRange
           else Inr \<lparr>ocp_Items = take limit items, ocp_NextDeploymentID = ocst_DeploymentID (items ! (limit - 1))\<rparr>
         else Inr \<lparr>ocp_Items = items, ocp_NextDeploymentID = []\<rparr>)"

subsection \<open>Deciding a claim\<close>

definition operatorClaimReviewByIdempotencyTx :: "operator_tables \<Rightarrow> string \<Rightarrow> OperatorClaimReview option" where
  "operatorClaimReviewByIdempotencyTx ops idempotencyKey =
     find (\<lambda>r. ocrw_IdempotencyKey r = idempotencyKey) (operator_claim_reviews ops)"

text \<open>The index, hash and time of the latest review; for an empty log 0, the zero hash and no time.\<close>

definition operatorClaimReviewHeadQuery :: "operator_tables \<Rightarrow> int \<times> string \<times> string" where
  "operatorClaimReviewHeadQuery ops = (case select_max ocrw_ReviewIndex (operator_claim_reviews ops) of
     None \<Rightarrow> (0, OperatorClaimReviewZeroHash, []) | Some r \<Rightarrow> (ocrw_ReviewIndex r, ocrw_ReviewHash r, ocrw_ReviewedAt r))"

definition operatorClaimReviewReceipt :: "OperatorClaimReview \<Rightarrow> string \<Rightarrow> OperatorClaimReviewReceipt" where
  "operatorClaimReviewReceipt review registryScope =
     \<lparr>ocrr_ReviewIndex = ocrw_ReviewIndex review, ocrr_ReviewID = ocrw_ReviewID review,
      ocrr_DeploymentID = ocrw_DeploymentID review, ocrr_ClaimActionID = ocrw_ClaimActionID review,
      ocrr_GroupID = ocrw_GroupID review, ocrr_LegalName = ocrw_LegalName review, ocrr_Decision = ocrw_Decision review,
      ocrr_ReviewerID = ocrw_ReviewerID review, ocrr_ReviewReference = ocrw_ReviewReference review,
      ocrr_ReasonCode = ocrw_ReasonCode review, ocrr_IdempotencyKey = ocrw_IdempotencyKey review,
      ocrr_ReviewedAt = ocrw_ReviewedAt review, ocrr_PreviousReviewHash = ocrw_PreviousReviewHash review,
      ocrr_ReviewHash = ocrw_ReviewHash review, ocrr_RegistryScope = registryScope,
      ocrr_RegistryKeyID = ocrw_RegistryKeyID review, ocrr_Signature = []\<rparr>"

definition valid_review_decision :: "string \<Rightarrow> string \<Rightarrow> bool" where
  "valid_review_decision decision reasonCode \<longleftrightarrow>
     decision = OperatorClaimReviewApproved \<and> reasonCode = [] \<or>
     decision = OperatorClaimReviewRejected \<and> IsOperatorClaimReviewReasonCode reasonCode"

definition same_review :: "OperatorClaimReview \<Rightarrow> OperatorClaimReviewInput \<Rightarrow> bool" where
  "same_review existing input \<longleftrightarrow>
     ocrw_DeploymentID existing = ocri_DeploymentID input \<and> ocrw_ClaimActionID existing = ocri_ClaimActionID input \<and>
     ocrw_GroupID existing = ocri_GroupID input \<and> ocrw_LegalName existing = ocri_LegalName input \<and>
     ocrw_Decision existing = ocri_Decision input \<and> ocrw_ReviewerID existing = ocri_ReviewerID input \<and>
     ocrw_ReviewReference existing = ocri_ReviewReference input \<and> ocrw_ReasonCode existing = ocri_ReasonCode input"

text \<open>A decision must not be earlier than the head of its log.\<close>

definition not_before_head :: "string \<Rightarrow> string \<Rightarrow> bool" where
  "not_before_head at' headAt \<longleftrightarrow> headAt = [] \<or>
     (case (time_Parse_RFC3339Nano at', time_Parse_RFC3339Nano headAt) of (Some t, Some h) \<Rightarrow> \<not> t < h | _ \<Rightarrow> False)"

definition newClaimReview :: "OperatorClaimReviewInput \<Rightarrow> int \<Rightarrow> string \<Rightarrow> OperatorClaimReview" where
  "newClaimReview input headIndex headHash =
     \<lparr>ocrw_ReviewIndex = i64 (headIndex + 1), ocrw_ReviewID = ocri_CandidateReviewID input,
      ocrw_DeploymentID = ocri_DeploymentID input, ocrw_ClaimActionID = ocri_ClaimActionID input,
      ocrw_GroupID = ocri_GroupID input, ocrw_LegalName = ocri_LegalName input, ocrw_Decision = ocri_Decision input,
      ocrw_ReviewerID = ocri_ReviewerID input, ocrw_ReviewReference = ocri_ReviewReference input,
      ocrw_ReasonCode = ocri_ReasonCode input, ocrw_IdempotencyKey = ocri_IdempotencyKey input,
      ocrw_ReviewedAt = ocri_ReviewedAt input, ocrw_PreviousReviewHash = headHash, ocrw_ReviewHash = [],
      ocrw_RegistryKeyID = ocri_RegistryKeyID input, ocrw_Signature = []\<rparr>"

definition hashedClaimReview :: "(bytes \<Rightarrow> bytes) \<Rightarrow> OperatorClaimReviewInput \<Rightarrow> OperatorClaimReview \<Rightarrow> OperatorClaimReview" where
  "hashedClaimReview H input review = review\<lparr>ocrw_ReviewHash :=
     Digest H (OperatorClaimReviewHashMessage (operatorClaimReviewReceipt review (ocri_RegistryScope input)))\<rparr>"

text \<open>The effect of a review on the two rows of its deployment.\<close>

definition decideStatusRow :: "OperatorClaimReview \<Rightarrow> claim_status_row \<Rightarrow> claim_status_row" where
  "decideStatusRow review s =
     (let rejected = ocrw_Decision review = OperatorClaimReviewRejected in
      s\<lparr>cs_verification_state := (if rejected then OperatorClaimStateRejected else OperatorClaimStateApproved),
        cs_review_id := ocrw_ReviewID review, cs_review_index := ocrw_ReviewIndex review,
        cs_review_hash := ocrw_ReviewHash review,
        cs_approved_at := (if rejected then [] else ocrw_ReviewedAt review), cs_updated_at := ocrw_ReviewedAt review\<rparr>)"

definition decideEligibilityRow :: "OperatorClaimReview \<Rightarrow> eligibility_current_row \<Rightarrow> eligibility_current_row" where
  "decideEligibilityRow review e =
     (let rejected = ocrw_Decision review = OperatorClaimReviewRejected in
      e\<lparr>ec_eligibility_state := (if rejected then OperatorEligibilityInactive else OperatorEligibilityActive),
        ec_approved_review_index := (if rejected then 0 else ocrw_ReviewIndex review),
        ec_approved_review_hash := (if rejected then OperatorClaimReviewZeroHash else ocrw_ReviewHash review),
        ec_eligibility_id := [], ec_eligibility_index := 0, ec_eligibility_hash := OperatorClaimEligibilityZeroHash,
        ec_updated_at := ocrw_ReviewedAt review\<rparr>)"

definition appendClaimReviewTx :: "registry_db \<Rightarrow> operator_tables \<Rightarrow> OperatorClaimReview \<Rightarrow> store_error + operator_tables" where
  "appendClaimReviewTx db ops review =
     (case insert_claim_review db ops review of Inl err \<Rightarrow> Inl err | Inr ops \<Rightarrow>
     (case update_rows (claim_status_check db ops)
         (\<lambda>s. cs_deployment_id s = ocrw_DeploymentID review \<and> cs_claim_action_id s = ocrw_ClaimActionID review \<and>
           cs_verification_state s = OperatorClaimStatePendingReview)
         (decideStatusRow review) (operator_claim_status ops) of Inl err \<Rightarrow> Inl err | Inr (affected, statuses) \<Rightarrow>
     if affected \<noteq> 1 then Inl ErrOperatorClaimStale else
     (case update_rows (eligibility_current_check db ops)
         (\<lambda>e. ec_deployment_id e = ocrw_DeploymentID review \<and> ec_claim_action_id e = ocrw_ClaimActionID review)
         (decideEligibilityRow review) (operator_claim_eligibility_current ops) of Inl err \<Rightarrow> Inl err | Inr (affected, eligibilities) \<Rightarrow>
     if affected \<noteq> 1 then Inl ErrOperatorClaimStale
     else Inr (ops\<lparr>operator_claim_status := statuses, operator_claim_eligibility_current := eligibilities\<rparr>))))"

definition DecideOperatorClaim ::
  "(bytes \<Rightarrow> bytes) \<Rightarrow> registry_db \<Rightarrow> operator_tables \<Rightarrow> OperatorClaimReviewInput \<Rightarrow> (OperatorClaimReview \<Rightarrow> bytes option)
    \<Rightarrow> store_error + operator_tables \<times> OperatorClaimReview \<times> bool" where
  "DecideOperatorClaim H db ops input signReview =
     (if \<not> valid_review_decision (ocri_Decision input) (ocri_ReasonCode input) then Inl ErrInconsistentState
      else case operatorClaimReviewByIdempotencyTx ops (ocri_IdempotencyKey input) of
        Some existing \<Rightarrow> if \<not> same_review existing input then Inl ErrIdempotencyConflict else Inr (ops, existing, True)
      | None \<Rightarrow>
          (case OperatorClaimStatus_query ops (ocri_DeploymentID input) of Inl err \<Rightarrow> Inl err | Inr status \<Rightarrow>
          if ocst_ClaimActionID status \<noteq> ocri_ClaimActionID input \<or> ocst_GroupID status \<noteq> ocri_GroupID input \<or>
             ocst_LegalName status \<noteq> ocri_LegalName input then Inl ErrOperatorClaimStale
          else if ocst_VerificationState status \<noteq> OperatorClaimStatePendingReview then Inl ErrOperatorClaimAlreadyReviewed
          else if ocri_ReviewedAt input < ocst_SubmittedAt status then Inl ErrInconsistentState
          else case operatorClaimReviewHeadQuery ops of (headIndex, headHash, headReviewedAt) \<Rightarrow>
          if \<not> not_before_head (ocri_ReviewedAt input) headReviewedAt then Inl ErrInconsistentState
          else (case signReview (hashedClaimReview H input (newClaimReview input headIndex headHash)) of None \<Rightarrow> Inl SigningFailed
            | Some signature \<Rightarrow>
          (case appendClaimReviewTx db ops ((hashedClaimReview H input (newClaimReview input headIndex headHash))
              \<lparr>ocrw_Signature := signature\<rparr>) of Inl err \<Rightarrow> Inl err | Inr ops \<Rightarrow>
          Inr (ops, (hashedClaimReview H input (newClaimReview input headIndex headHash))\<lparr>ocrw_Signature := signature\<rparr>, False)))))"

subsection \<open>Suspending and reinstating an approved claim\<close>

definition operatorClaimEligibilityByIdempotencyTx :: "operator_tables \<Rightarrow> string \<Rightarrow> OperatorClaimEligibility option" where
  "operatorClaimEligibilityByIdempotencyTx ops idempotencyKey =
     find (\<lambda>r. oce_IdempotencyKey r = idempotencyKey) (operator_claim_eligibility_events ops)"

definition operatorClaimEligibilityHeadQuery :: "operator_tables \<Rightarrow> int \<times> string \<times> string" where
  "operatorClaimEligibilityHeadQuery ops = (case select_max oce_EligibilityIndex (operator_claim_eligibility_events ops) of
     None \<Rightarrow> (0, OperatorClaimEligibilityZeroHash, [])
   | Some d \<Rightarrow> (oce_EligibilityIndex d, oce_EligibilityHash d, oce_DecidedAt d))"

definition operatorClaimEligibilityReceipt :: "OperatorClaimEligibility \<Rightarrow> string \<Rightarrow> OperatorClaimEligibilityReceipt" where
  "operatorClaimEligibilityReceipt decision registryScope =
     \<lparr>ocer_EligibilityIndex = oce_EligibilityIndex decision, ocer_EligibilityID = oce_EligibilityID decision,
      ocer_DeploymentID = oce_DeploymentID decision, ocer_ClaimActionID = oce_ClaimActionID decision,
      ocer_GroupID = oce_GroupID decision, ocer_LegalName = oce_LegalName decision, ocer_Decision = oce_Decision decision,
      ocer_ActorID = oce_ActorID decision, ocer_DecisionReference = oce_DecisionReference decision,
      ocer_ReasonCode = oce_ReasonCode decision, ocer_IdempotencyKey = oce_IdempotencyKey decision,
      ocer_DecidedAt = oce_DecidedAt decision, ocer_PreviousEligibilityHash = oce_PreviousEligibilityHash decision,
      ocer_EligibilityHash = oce_EligibilityHash decision, ocer_RegistryScope = registryScope,
      ocer_RegistryKeyID = oce_RegistryKeyID decision, ocer_Signature = []\<rparr>"

definition valid_eligibility_decision :: "string \<Rightarrow> string \<Rightarrow> bool" where
  "valid_eligibility_decision decision reasonCode \<longleftrightarrow>
     decision = OperatorClaimEligibilitySuspend \<and> IsOperatorClaimEligibilityReasonCode reasonCode \<or>
     decision = OperatorClaimEligibilityReinstate \<and> reasonCode = []"

definition same_eligibility :: "OperatorClaimEligibility \<Rightarrow> OperatorClaimEligibilityInput \<Rightarrow> bool" where
  "same_eligibility existing input \<longleftrightarrow>
     oce_DeploymentID existing = ocei_DeploymentID input \<and> oce_ClaimActionID existing = ocei_ClaimActionID input \<and>
     oce_GroupID existing = ocei_GroupID input \<and> oce_LegalName existing = ocei_LegalName input \<and>
     oce_Decision existing = ocei_Decision input \<and> oce_ActorID existing = ocei_ActorID input \<and>
     oce_DecisionReference existing = ocei_DecisionReference input \<and> oce_ReasonCode existing = ocei_ReasonCode input"

definition newClaimEligibility :: "OperatorClaimEligibilityInput \<Rightarrow> int \<Rightarrow> string \<Rightarrow> OperatorClaimEligibility" where
  "newClaimEligibility input headIndex headHash =
     \<lparr>oce_EligibilityIndex = i64 (headIndex + 1), oce_EligibilityID = ocei_CandidateEligibilityID input,
      oce_DeploymentID = ocei_DeploymentID input, oce_ClaimActionID = ocei_ClaimActionID input,
      oce_GroupID = ocei_GroupID input, oce_LegalName = ocei_LegalName input, oce_Decision = ocei_Decision input,
      oce_ActorID = ocei_ActorID input, oce_DecisionReference = ocei_DecisionReference input,
      oce_ReasonCode = ocei_ReasonCode input, oce_IdempotencyKey = ocei_IdempotencyKey input,
      oce_DecidedAt = ocei_DecidedAt input, oce_PreviousEligibilityHash = headHash, oce_EligibilityHash = [],
      oce_RegistryKeyID = ocei_RegistryKeyID input, oce_Signature = []\<rparr>"

definition hashedClaimEligibility ::
  "(bytes \<Rightarrow> bytes) \<Rightarrow> OperatorClaimEligibilityInput \<Rightarrow> OperatorClaimEligibility \<Rightarrow> OperatorClaimEligibility" where
  "hashedClaimEligibility H input decision = decision\<lparr>oce_EligibilityHash :=
     Digest H (OperatorClaimEligibilityHashMessage (operatorClaimEligibilityReceipt decision (ocei_RegistryScope input)))\<rparr>"

definition suspendRow :: "OperatorClaimEligibility \<Rightarrow> eligibility_current_row \<Rightarrow> eligibility_current_row" where
  "suspendRow decision e =
     e\<lparr>ec_eligibility_state := (if oce_Decision decision = OperatorClaimEligibilityReinstate then OperatorEligibilityActive
          else OperatorEligibilitySuspended),
       ec_eligibility_id := oce_EligibilityID decision, ec_eligibility_index := oce_EligibilityIndex decision,
       ec_eligibility_hash := oce_EligibilityHash decision, ec_updated_at := oce_DecidedAt decision\<rparr>"

definition appendEligibilityTx ::
  "registry_db \<Rightarrow> operator_tables \<Rightarrow> OperatorClaimEligibility \<Rightarrow> string \<Rightarrow> store_error + operator_tables" where
  "appendEligibilityTx db ops decision currentState =
     (case insert_eligibility_event db ops decision of Inl err \<Rightarrow> Inl err | Inr ops \<Rightarrow>
     (case update_rows (eligibility_current_check db ops)
         (\<lambda>e. ec_deployment_id e = oce_DeploymentID decision \<and> ec_claim_action_id e = oce_ClaimActionID decision \<and>
           ec_eligibility_state e = currentState)
         (suspendRow decision) (operator_claim_eligibility_current ops) of Inl err \<Rightarrow> Inl err | Inr (affected, eligibilities) \<Rightarrow>
     if affected \<noteq> 1 then Inl ErrOperatorClaimEligibilityStale
     else Inr (ops\<lparr>operator_claim_eligibility_current := eligibilities\<rparr>)))"

definition DecideOperatorClaimEligibility ::
  "(bytes \<Rightarrow> bytes) \<Rightarrow> registry_db \<Rightarrow> operator_tables \<Rightarrow> OperatorClaimEligibilityInput \<Rightarrow> (OperatorClaimEligibility \<Rightarrow> bytes option)
    \<Rightarrow> store_error + operator_tables \<times> OperatorClaimEligibility \<times> bool" where
  "DecideOperatorClaimEligibility H db ops input signDecision =
     (if \<not> valid_eligibility_decision (ocei_Decision input) (ocei_ReasonCode input) then Inl ErrInconsistentState
      else case operatorClaimEligibilityByIdempotencyTx ops (ocei_IdempotencyKey input) of
        Some existing \<Rightarrow> if \<not> same_eligibility existing input then Inl ErrIdempotencyConflict else Inr (ops, existing, True)
      | None \<Rightarrow>
          (case OperatorClaimStatus_query ops (ocei_DeploymentID input) of Inl err \<Rightarrow> Inl err | Inr status \<Rightarrow>
          if ocst_ClaimActionID status \<noteq> ocei_ClaimActionID input \<or> ocst_GroupID status \<noteq> ocei_GroupID input \<or>
             ocst_LegalName status \<noteq> ocei_LegalName input then Inl ErrOperatorClaimEligibilityStale
          else if ocst_VerificationState status \<noteq> OperatorClaimStateApproved then Inl ErrOperatorClaimNotEligible
          else case current_eligibility ops (ocei_DeploymentID input) of None \<Rightarrow> Inl ErrOperatorClaimEligibilityStale | Some current \<Rightarrow>
          if ec_claim_action_id current \<noteq> ocei_ClaimActionID input \<or> ec_group_id current \<noteq> ocei_GroupID input \<or>
             ec_legal_name current \<noteq> ocei_LegalName input \<or> ec_approved_review_index current \<noteq> ocst_ReviewIndex status \<or>
             ec_approved_review_hash current \<noteq> ocst_ReviewHash status then Inl ErrOperatorClaimEligibilityStale
          else if ocei_Decision input = OperatorClaimEligibilitySuspend \<and> ec_eligibility_state current \<noteq> OperatorEligibilityActive
          then Inl ErrOperatorClaimNotEligible
          else if ocei_Decision input = OperatorClaimEligibilityReinstate \<and> ec_eligibility_state current \<noteq> OperatorEligibilitySuspended
          then Inl ErrOperatorClaimNotSuspended
          else case operatorClaimEligibilityHeadQuery ops of (headIndex, headHash, headDecidedAt) \<Rightarrow>
          if ocei_DecidedAt input < ocst_ApprovedAt status then Inl ErrInconsistentState
          else if \<not> not_before_head (ocei_DecidedAt input) headDecidedAt then Inl ErrInconsistentState
          else (case signDecision (hashedClaimEligibility H input (newClaimEligibility input headIndex headHash)) of
              None \<Rightarrow> Inl SigningFailed
            | Some signature \<Rightarrow>
          (case appendEligibilityTx db ops ((hashedClaimEligibility H input (newClaimEligibility input headIndex headHash))
              \<lparr>oce_Signature := signature\<rparr>) (ec_eligibility_state current) of Inl err \<Rightarrow> Inl err | Inr ops \<Rightarrow>
          Inr (ops, (hashedClaimEligibility H input (newClaimEligibility input headIndex headHash))\<lparr>oce_Signature := signature\<rparr>, False)))))"

subsection \<open>Checking the claim tables against the logs\<close>

text \<open>
  The check recomputes the status of every deployment: the claims and withdrawals of the audit log in order, then the review
  of the current claim, then its latest eligibility decision.  A Go map keyed by the deployment of its values is a list of
  values with distinct keys, in the order of the first assignment; the maps of submissions, reviews and decisions are lists
  with the claim action as key, the last entry of a key being the value of the map.
\<close>

definition submission_of :: "OperatorClaimSubmission list \<Rightarrow> string \<Rightarrow> OperatorClaimSubmission option" where
  "submission_of submissions actionID = find (\<lambda>s. ocs_ClaimActionID s = actionID) (rev submissions)"

definition review_of :: "OperatorClaimReview list \<Rightarrow> string \<Rightarrow> OperatorClaimReview option" where
  "review_of reviews actionID = find (\<lambda>r. ocrw_ClaimActionID r = actionID) (rev reviews)"

definition decision_of :: "OperatorClaimEligibility list \<Rightarrow> string \<Rightarrow> OperatorClaimEligibility option" where
  "decision_of decisions actionID = find (\<lambda>d. oce_ClaimActionID d = actionID) (rev decisions)"

definition pending_status :: "OperatorAuditEvent \<Rightarrow> OperatorClaimSubmission \<Rightarrow> OperatorClaimStatus" where
  "pending_status event submission =
     \<lparr>ocst_DeploymentID = oae_DeploymentID event, ocst_ClaimActionID = oae_ActionID event,
      ocst_ClaimAuditIndex = oae_AuditIndex event, ocst_ClaimAuditHash = oae_AuditHash event,
      ocst_GroupID = oae_GroupID event, ocst_LegalName = ocs_LegalName submission,
      ocst_VerificationState = OperatorClaimStatePendingReview, ocst_SubmittedAt = oae_AcceptedAt event,
      ocst_ReviewID = [], ocst_ReviewIndex = 0, ocst_ReviewHash = OperatorClaimReviewZeroHash, ocst_ApprovedAt = [],
      ocst_UpdatedAt = oae_AcceptedAt event, ocst_PrivateRecordHash = ocs_PrivateRecordHash submission,
      ocst_EligibilityState = [], ocst_EligibilityID = [], ocst_EligibilityIndex = 0, ocst_EligibilityHash = []\<rparr>"

definition withdrawn_status :: "OperatorAuditEvent \<Rightarrow> OperatorClaimStatus \<Rightarrow> OperatorClaimStatus" where
  "withdrawn_status event status =
     status\<lparr>ocst_VerificationState := OperatorClaimStateWithdrawn, ocst_UpdatedAt := oae_AcceptedAt event\<rparr>"

definition status_step ::
  "OperatorClaimSubmission list \<Rightarrow> OperatorClaimStatus list \<Rightarrow> OperatorAuditEvent \<Rightarrow> OperatorClaimStatus list" where
  "status_step submissions expected event =
     (if oae_Action event = OperatorActionClaim \<or> oae_Action event = OperatorActionRedeemClientToken then
        (case submission_of submissions (oae_ActionID event) of
           None \<Rightarrow> expected
         | Some submission \<Rightarrow> replace_row ocst_DeploymentID expected (pending_status event submission))
      else if oae_Action event = OperatorActionWithdrawClaim then
        (case find (\<lambda>s. ocst_DeploymentID s = oae_SubjectDeploymentID event) expected of
           None \<Rightarrow> expected
         | Some status \<Rightarrow> replace_row ocst_DeploymentID expected (withdrawn_status event status))
      else if oae_Action event = OperatorActionDeactivateDeployment then
        (case find (\<lambda>s. ocst_DeploymentID s = oae_SubjectDeploymentID event) expected of
           None \<Rightarrow> expected
         | Some status \<Rightarrow>
             if ocst_VerificationState status \<noteq> OperatorClaimStateWithdrawn
             then replace_row ocst_DeploymentID expected (withdrawn_status event status) else expected)
      else expected)"

definition reviewed_status :: "OperatorClaimReview list \<Rightarrow> OperatorClaimStatus \<Rightarrow> OperatorClaimStatus" where
  "reviewed_status reviews status =
     (case review_of reviews (ocst_ClaimActionID status) of
        None \<Rightarrow> status
      | Some review \<Rightarrow>
          let status = status\<lparr>ocst_ReviewID := ocrw_ReviewID review, ocst_ReviewIndex := ocrw_ReviewIndex review,
            ocst_ReviewHash := ocrw_ReviewHash review,
            ocst_ApprovedAt := (if ocrw_Decision review = OperatorClaimReviewApproved then ocrw_ReviewedAt review
              else ocst_ApprovedAt status)\<rparr>
          in if ocst_VerificationState status = OperatorClaimStatePendingReview
             then status\<lparr>ocst_VerificationState :=
                 (if ocrw_Decision review = OperatorClaimReviewApproved then OperatorClaimStateApproved
                  else if ocrw_Decision review = OperatorClaimReviewRejected then OperatorClaimStateRejected
                  else ocst_VerificationState status),
               ocst_UpdatedAt := ocrw_ReviewedAt review\<rparr>
             else status)"

definition eligibility_status :: "OperatorClaimEligibility list \<Rightarrow> OperatorClaimStatus \<Rightarrow> OperatorClaimStatus" where
  "eligibility_status decisions status =
     (let approved = ocst_VerificationState status = OperatorClaimStateApproved;
          status = status\<lparr>ocst_EligibilityState := (if approved then OperatorEligibilityActive else OperatorEligibilityInactive),
            ocst_EligibilityHash := OperatorClaimEligibilityZeroHash\<rparr>
      in case decision_of decisions (ocst_ClaimActionID status) of
           None \<Rightarrow> status
         | Some decision \<Rightarrow> status\<lparr>ocst_EligibilityID := oce_EligibilityID decision,
             ocst_EligibilityIndex := oce_EligibilityIndex decision, ocst_EligibilityHash := oce_EligibilityHash decision,
             ocst_EligibilityState := (if approved \<and> oce_Decision decision = OperatorClaimEligibilitySuspend
               then OperatorEligibilitySuspended else ocst_EligibilityState status)\<rparr>)"

definition expected_statuses ::
  "OperatorAuditEvent list \<Rightarrow> OperatorClaimSubmission list \<Rightarrow> OperatorClaimReview list \<Rightarrow> OperatorClaimEligibility list
    \<Rightarrow> OperatorClaimStatus list" where
  "expected_statuses actions submissions reviews decisions =
     map (eligibility_status decisions) (map (reviewed_status reviews)
       (foldl (status_step submissions) [] (sort_key oae_AuditIndex actions)))"

definition expectedOperatorClaimEligibilityCurrent ::
  "OperatorClaimStatus \<Rightarrow> OperatorClaimEligibility option \<Rightarrow> eligibility_current_row" where
  "expectedOperatorClaimEligibilityCurrent status decision =
     (let approved = ocst_VerificationState status = OperatorClaimStateApproved;
          current = \<lparr>ec_deployment_id = ocst_DeploymentID status, ec_claim_action_id = ocst_ClaimActionID status,
            ec_group_id = ocst_GroupID status, ec_legal_name = ocst_LegalName status,
            ec_eligibility_state = (if approved then OperatorEligibilityActive else OperatorEligibilityInactive),
            ec_approved_review_index = (if ocst_ApprovedAt status \<noteq> [] then ocst_ReviewIndex status else 0),
            ec_approved_review_hash = (if ocst_ApprovedAt status \<noteq> [] then ocst_ReviewHash status else OperatorClaimReviewZeroHash),
            ec_eligibility_id = [], ec_eligibility_index = 0, ec_eligibility_hash = OperatorClaimEligibilityZeroHash,
            ec_updated_at = ocst_UpdatedAt status, ec_source_claim_audit_index = ocst_ClaimAuditIndex status,
            ec_source_claim_audit_hash = ocst_ClaimAuditHash status\<rparr>
      in case decision of
           None \<Rightarrow> current
         | Some d \<Rightarrow>
             if oce_EligibilityID d = [] then current
             else current\<lparr>ec_eligibility_id := oce_EligibilityID d, ec_eligibility_index := oce_EligibilityIndex d,
               ec_eligibility_hash := oce_EligibilityHash d,
               ec_eligibility_state := (if approved \<and> oce_Decision d = OperatorClaimEligibilitySuspend
                 then OperatorEligibilitySuspended else ec_eligibility_state current),
               ec_updated_at := (if approved \<and> oce_DecidedAt d > ec_updated_at current then oce_DecidedAt d
                 else ec_updated_at current)\<rparr>)"

definition verifyOperatorClaimEligibilityCurrentRows ::
  "operator_tables \<Rightarrow> OperatorClaimStatus list \<Rightarrow> OperatorClaimEligibility list \<Rightarrow> store_error + unit" where
  "verifyOperatorClaimEligibilityCurrentRows ops statuses decisions =
     (if \<not> list_all (\<lambda>actual. case find (\<lambda>s. ocst_DeploymentID s = ec_deployment_id actual) statuses of
           None \<Rightarrow> False
         | Some status \<Rightarrow> actual = expectedOperatorClaimEligibilityCurrent status (decision_of decisions (ocst_ClaimActionID status)))
         (operator_claim_eligibility_current ops)
      then Inl ErrInconsistentState
      else if length (operator_claim_eligibility_current ops) \<noteq> length statuses then Inl ErrInconsistentState
      else Inr ())"

definition verifyOperatorClaimStatusRows ::
  "operator_tables \<Rightarrow> OperatorAuditEvent list \<Rightarrow> OperatorClaimSubmission list \<Rightarrow> OperatorClaimReview list
    \<Rightarrow> OperatorClaimEligibility list \<Rightarrow> store_error + unit" where
  "verifyOperatorClaimStatusRows ops actions submissions reviews decisions =
     (let expected = expected_statuses actions submissions reviews decisions;
          actuals = map (operatorClaimStatusSelect ops) (operator_claim_status ops)
      in if \<not> list_all (\<lambda>actual. find (\<lambda>s. ocst_DeploymentID s = ocst_DeploymentID actual) expected = Some actual) actuals
         then Inl ErrInconsistentState
         else if length actuals \<noteq> length expected then Inl ErrInconsistentState
         else verifyOperatorClaimEligibilityCurrentRows ops expected decisions)"

subsection \<open>Checking the chain of eligibility decisions\<close>

definition operatorClaimWasSupersededBefore :: "OperatorAuditEvent list \<Rightarrow> OperatorAuditEvent \<Rightarrow> int \<Rightarrow> bool" where
  "operatorClaimWasSupersededBefore actions claim decidedAt \<longleftrightarrow>
     list_ex (\<lambda>event. oae_SubjectDeploymentID event = oae_DeploymentID claim \<and> oae_AuditIndex event > oae_AuditIndex claim \<and>
       (case time_Parse_RFC3339Nano (oae_AcceptedAt event) of None \<Rightarrow> False | Some acceptedAt \<Rightarrow> acceptedAt < decidedAt) \<and>
       (oae_Action event = OperatorActionClaim \<or> oae_Action event = OperatorActionWithdrawClaim \<or>
        oae_Action event = OperatorActionDeactivateDeployment \<or>
        oae_Action event = OperatorActionRedeemClientToken \<and> oae_ClaimState event = OperatorClaimStatePendingReview)) actions"

definition validHexID :: "string \<Rightarrow> string \<Rightarrow> nat \<Rightarrow> bool" where
  "validHexID value prefix' hexLength \<longleftrightarrow>
     take (length prefix') value = prefix' \<and> length value = length prefix' + hexLength \<and>
     list_all is_lower_hex (drop (length prefix') value)"

definition validOperatorEligibilityAuditField :: "string \<Rightarrow> nat \<Rightarrow> bool" where
  "validOperatorEligibilityAuditField value maximum \<longleftrightarrow>
     length value \<ge> 1 \<and> length value \<le> maximum \<and> \<not> HasCanonicalLineBreak value"

definition action_of :: "OperatorAuditEvent list \<Rightarrow> string \<Rightarrow> OperatorAuditEvent option" where
  "action_of actions actionID = find (\<lambda>e. oae_ActionID e = actionID) (rev actions)"

text \<open>What one decision is compared with: the metadata, the order in time, and the decision before it on the same claim.\<close>

definition eligibility_metadata_ok ::
  "OperatorAuditEvent list \<Rightarrow> OperatorClaimSubmission list \<Rightarrow> OperatorClaimReview list \<Rightarrow> string \<Rightarrow> int \<Rightarrow> string
    \<Rightarrow> OperatorClaimEligibility \<Rightarrow> bool" where
  "eligibility_metadata_ok actions submissions reviews registryKeyID expectedIndex previousHash decision \<longleftrightarrow>
     oce_EligibilityIndex decision = expectedIndex \<and> validHexID (oce_EligibilityID decision) ''ope_'' 32 \<and>
     oce_PreviousEligibilityHash decision = previousHash \<and> oce_RegistryKeyID decision = registryKeyID \<and>
     valid_eligibility_decision (oce_Decision decision) (oce_ReasonCode decision) \<and>
     validOperatorEligibilityAuditField (oce_ActorID decision) 120 \<and>
     validOperatorEligibilityAuditField (oce_DecisionReference decision) 240 \<and>
     action_of actions (oce_ClaimActionID decision) \<noteq> None \<and>
     (case submission_of submissions (oce_ClaimActionID decision) of
        None \<Rightarrow> False
      | Some submission \<Rightarrow> oce_DeploymentID decision = ocs_DeploymentID submission \<and>
          oce_GroupID decision = ocs_GroupID submission \<and> oce_LegalName decision = ocs_LegalName submission) \<and>
     (case review_of reviews (oce_ClaimActionID decision) of
        None \<Rightarrow> False
      | Some review \<Rightarrow> ocrw_Decision review = OperatorClaimReviewApproved)"

definition eligibility_order_ok ::
  "OperatorAuditEvent list \<Rightarrow> OperatorClaimReview list \<Rightarrow> int option \<Rightarrow> OperatorClaimEligibility \<Rightarrow> bool" where
  "eligibility_order_ok actions reviews previousDecidedAt decision \<longleftrightarrow>
     (case (time_Parse_RFC3339Nano (oce_DecidedAt decision), review_of reviews (oce_ClaimActionID decision),
         action_of actions (oce_ClaimActionID decision)) of
        (Some decidedAt, Some review, Some claim) \<Rightarrow>
          (case time_Parse_RFC3339Nano (ocrw_ReviewedAt review) of None \<Rightarrow> False | Some reviewedAt \<Rightarrow> \<not> decidedAt < reviewedAt) \<and>
          (case previousDecidedAt of None \<Rightarrow> True | Some previous \<Rightarrow> \<not> decidedAt < previous) \<and>
          \<not> operatorClaimWasSupersededBefore actions claim decidedAt
      | _ \<Rightarrow> False)"

definition extends_eligibility :: "OperatorClaimEligibility option \<Rightarrow> OperatorClaimEligibility \<Rightarrow> bool" where
  "extends_eligibility prior decision \<longleftrightarrow>
     \<not> (oce_Decision decision = OperatorClaimEligibilitySuspend \<and>
        (case prior of None \<Rightarrow> False | Some p \<Rightarrow> oce_Decision p \<noteq> OperatorClaimEligibilityReinstate)) \<and>
     \<not> (oce_Decision decision = OperatorClaimEligibilityReinstate \<and>
        (case prior of None \<Rightarrow> True | Some p \<Rightarrow> oce_Decision p \<noteq> OperatorClaimEligibilitySuspend))"

text \<open>The loop over the decisions in the order of their indexes, with the decisions seen so far.\<close>

fun verify_eligibility_loop ::
  "crypto \<Rightarrow> bytes \<Rightarrow> string \<Rightarrow> string \<Rightarrow> OperatorAuditEvent list \<Rightarrow> OperatorClaimSubmission list \<Rightarrow> OperatorClaimReview list
    \<Rightarrow> OperatorClaimEligibility list \<Rightarrow> int \<Rightarrow> string \<Rightarrow> int option \<Rightarrow> OperatorClaimEligibility list
    \<Rightarrow> store_error + OperatorClaimEligibility list" where
  "verify_eligibility_loop C key keyID scope actions submissions reviews seen expectedIndex previousHash previousAt [] = Inr seen"
| "verify_eligibility_loop C key keyID scope actions submissions reviews seen expectedIndex previousHash previousAt (decision # rest) =
     (if \<not> eligibility_metadata_ok actions submissions reviews keyID expectedIndex previousHash decision then Inl ErrInconsistentState
      else if \<not> eligibility_order_ok actions reviews previousAt decision then Inl ErrInconsistentState
      else if \<not> extends_eligibility (decision_of seen (oce_ClaimActionID decision)) decision then Inl ErrInconsistentState
      else if oce_EligibilityHash decision \<noteq>
          Digest (Sum256 C) (OperatorClaimEligibilityHashMessage (operatorClaimEligibilityReceipt decision scope)) then Inl ErrInconsistentState
      else if \<not> Ed25519Verify C key (OperatorClaimEligibilityReceiptMessage (operatorClaimEligibilityReceipt decision scope))
          (oce_Signature decision) then Inl ErrInconsistentState
      else verify_eligibility_loop C key keyID scope actions submissions reviews (seen @ [decision]) (i64 (expectedIndex + 1))
        (oce_EligibilityHash decision) (time_Parse_RFC3339Nano (oce_DecidedAt decision)) rest)"

definition verifiedOperatorClaimEligibilityRows ::
  "crypto \<Rightarrow> bytes \<Rightarrow> string \<Rightarrow> string \<Rightarrow> operator_tables \<Rightarrow> OperatorAuditEvent list \<Rightarrow> OperatorClaimSubmission list
    \<Rightarrow> OperatorClaimReview list \<Rightarrow> store_error + OperatorClaimEligibility list" where
  "verifiedOperatorClaimEligibilityRows C key keyID scope ops actions submissions reviews =
     verify_eligibility_loop C key keyID scope actions submissions reviews [] 1 OperatorClaimEligibilityZeroHash None
       (sort_key oce_EligibilityIndex (operator_claim_eligibility_events ops))"

subsection \<open>Checking the chain of reviews\<close>

definition review_metadata_ok ::
  "OperatorAuditEvent list \<Rightarrow> OperatorClaimSubmission list \<Rightarrow> string \<Rightarrow> int \<Rightarrow> string \<Rightarrow> OperatorClaimReview \<Rightarrow> bool" where
  "review_metadata_ok actions submissions registryKeyID expectedIndex previousHash review \<longleftrightarrow>
     ocrw_ReviewIndex review = expectedIndex \<and> validHexID (ocrw_ReviewID review) ''opr_'' 32 \<and>
     ocrw_PreviousReviewHash review = previousHash \<and> valid_review_decision (ocrw_Decision review) (ocrw_ReasonCode review) \<and>
     ocrw_RegistryKeyID review = registryKeyID \<and>
     (case action_of actions (ocrw_ClaimActionID review) of
        None \<Rightarrow> False
      | Some event \<Rightarrow> (oae_Action event = OperatorActionClaim \<or> oae_Action event = OperatorActionRedeemClientToken) \<and>
          oae_ClaimState event = OperatorClaimStatePendingReview) \<and>
     (case submission_of submissions (ocrw_ClaimActionID review) of
        None \<Rightarrow> False
      | Some submission \<Rightarrow> ocrw_DeploymentID review = ocs_DeploymentID submission \<and>
          ocrw_GroupID review = ocs_GroupID submission \<and> ocrw_LegalName review = ocs_LegalName submission) \<and>
     1 \<le> length (ocrw_ReviewerID review) \<and> length (ocrw_ReviewerID review) \<le> 120 \<and>
     1 \<le> length (ocrw_ReviewReference review) \<and> length (ocrw_ReviewReference review) \<le> 240 \<and>
     \<not> HasCanonicalLineBreak (ocrw_ReviewerID review) \<and> \<not> HasCanonicalLineBreak (ocrw_ReviewReference review)"

definition review_order_ok :: "OperatorClaimSubmission list \<Rightarrow> int option \<Rightarrow> OperatorClaimReview \<Rightarrow> bool" where
  "review_order_ok submissions previousReviewedAt review \<longleftrightarrow>
     (case (time_Parse_RFC3339Nano (ocrw_ReviewedAt review), submission_of submissions (ocrw_ClaimActionID review)) of
        (Some reviewedAt, Some submission) \<Rightarrow>
          (case time_Parse_RFC3339Nano (ocs_SubmittedAt submission) of None \<Rightarrow> False | Some submittedAt \<Rightarrow> \<not> reviewedAt < submittedAt) \<and>
          (case previousReviewedAt of None \<Rightarrow> True | Some previous \<Rightarrow> \<not> reviewedAt < previous)
      | _ \<Rightarrow> False)"

fun verify_reviews_loop ::
  "crypto \<Rightarrow> bytes \<Rightarrow> string \<Rightarrow> string \<Rightarrow> OperatorAuditEvent list \<Rightarrow> OperatorClaimSubmission list
    \<Rightarrow> OperatorClaimReview list \<Rightarrow> int \<Rightarrow> string \<Rightarrow> int option \<Rightarrow> OperatorClaimReview list
    \<Rightarrow> store_error + OperatorClaimReview list" where
  "verify_reviews_loop C key keyID scope actions submissions seen expectedIndex previousHash previousAt [] = Inr seen"
| "verify_reviews_loop C key keyID scope actions submissions seen expectedIndex previousHash previousAt (review # rest) =
     (if \<not> review_metadata_ok actions submissions keyID expectedIndex previousHash review then Inl ErrInconsistentState
      else if \<not> review_order_ok submissions previousAt review then Inl ErrInconsistentState
      else if ocrw_ReviewHash review \<noteq>
          Digest (Sum256 C) (OperatorClaimReviewHashMessage (operatorClaimReviewReceipt review scope)) then Inl ErrInconsistentState
      else if \<not> Ed25519Verify C key (OperatorClaimReviewReceiptMessage (operatorClaimReviewReceipt review scope))
          (ocrw_Signature review) then Inl ErrInconsistentState
      else if review_of seen (ocrw_ClaimActionID review) \<noteq> None then Inl ErrInconsistentState
      else verify_reviews_loop C key keyID scope actions submissions (seen @ [review]) (i64 (expectedIndex + 1))
        (ocrw_ReviewHash review) (time_Parse_RFC3339Nano (ocrw_ReviewedAt review)) rest)"

definition verifiedOperatorClaimReviewRows ::
  "crypto \<Rightarrow> bytes \<Rightarrow> string \<Rightarrow> string \<Rightarrow> operator_tables \<Rightarrow> OperatorAuditEvent list \<Rightarrow> OperatorClaimSubmission list
    \<Rightarrow> store_error + OperatorClaimReview list" where
  "verifiedOperatorClaimReviewRows C key keyID scope ops actions submissions =
     verify_reviews_loop C key keyID scope actions submissions [] 1 OperatorClaimReviewZeroHash None
       (sort_key ocrw_ReviewIndex (operator_claim_reviews ops))"

subsection \<open>The shape of derived events\<close>

text \<open>What the derivation guarantees about the events that change a claim; the state is the one the subject had before.\<close>

definition event_shape :: "operatorNetworkStateRow \<Rightarrow> OperatorAuditEvent \<Rightarrow> bool" where
  "event_shape state e \<longleftrightarrow>
     (oae_Action e \<in> {OperatorActionClaim, OperatorActionWithdrawClaim, OperatorActionRedeemClientToken,
        OperatorActionDeactivateDeployment} \<longrightarrow> oae_SubjectDeploymentID e = oae_DeploymentID e) \<and>
     (oae_Action e = OperatorActionWithdrawClaim \<longrightarrow> oae_ClaimState e = OperatorClaimStateWithdrawn) \<and>
     (oae_Action e = OperatorActionRedeemClientToken \<longrightarrow>
        (if ons_Claimed state then oae_OperatorName e = []
         else oae_ClaimState e = OperatorClaimStatePendingReview \<and> oae_LinkID e = [])) \<and>
     (oae_Action e = OperatorActionDeactivateDeployment \<longrightarrow>
        oae_ClaimState e = (if ons_Claimed state then OperatorClaimStateWithdrawn else []))"

lemma deriveRedeemTx_shape:
  assumes "oae_Action event = OperatorActionRedeemClientToken" "oae_SubjectDeploymentID event = oae_DeploymentID event"
    "oae_OperatorName event = []" "oae_LinkID event = []" "ocl_Claimed (om_operatorClaimState membership) = ons_Claimed state"
  shows "post (event_shape state) (deriveRedeemTx ops input event claim membership)"
  unfolding deriveRedeemTx_def redeemTokenTx_def
  by (intro post_intros) (simp_all add: redeemEvent_def event_shape_def assms operator_constants)

lemma deriveOperatorActionTx_shape:
  assumes "event = newOperatorEvent input headIndex headHash"
  shows "post (event_shape (operatorNetworkStateAtTx ops (oai_DeploymentID input) 0)) (deriveOperatorActionTx ops input event)"
  unfolding deriveOperatorActionTx_def deriveActionTx_def
  by (intro post_intros deriveRedeemTx_shape)
    (simp_all add: assms newOperatorEvent_def event_shape_def operatorClaimTx_def operatorMembershipTx_def Let_def operator_constants)

lemma event_shape_updates [simp]:
  "event_shape s (oae_AuditHash_update f e) = event_shape s e" "event_shape s (oae_ReceiptSignature_update g e) = event_shape s e"
  by (simp_all add: event_shape_def)

text \<open>Events that open a claim, and events that withdraw one.\<close>

definition opens_claim :: "OperatorAuditEvent \<Rightarrow> bool" where
  "opens_claim e \<longleftrightarrow> oae_Action e = OperatorActionClaim \<or>
     oae_Action e = OperatorActionRedeemClientToken \<and> oae_ClaimState e = OperatorClaimStatePendingReview \<and>
     oae_OperatorName e \<noteq> [] \<and> oae_LinkID e = []"

definition withdraws_claim :: "OperatorAuditEvent \<Rightarrow> bool" where
  "withdraws_claim e \<longleftrightarrow> (oae_Action e = OperatorActionWithdrawClaim \<or> oae_Action e = OperatorActionDeactivateDeployment) \<and>
     oae_ClaimState e = OperatorClaimStateWithdrawn"

lemma opens_not_withdraws: "opens_claim e \<Longrightarrow> \<not> withdraws_claim e"
  by (auto simp: opens_claim_def withdraws_claim_def operator_constants)

lemma apply_Claimed:
  "event_shape state e \<Longrightarrow> ons_Claimed (applyOperatorNetworkEvent state e) =
     (if opens_claim e then True else if withdraws_claim e then False else ons_Claimed state)"
  by (auto simp: event_shape_def network_event_defs Let_def opens_claim_def withdraws_claim_def operator_constants)

lemma writeOperatorClaimStateTx_cases [consumes 1, case_names opened withdrawn neither]:
  assumes "writeOperatorClaimStateTx H db ops input event = Inr ops'"
  obtains (opened) source where "opens_claim event" "writePendingOperatorClaimTx H db ops event source = Inr ops'"
  | (withdrawn) "withdraws_claim event" "withdrawCurrentClaimTx db ops event = Inr ops'"
  | (neither) "\<not> opens_claim event" "\<not> withdraws_claim event" "ops' = ops"
proof -
  have "post (\<lambda>ops'. opens_claim event \<and> (\<exists>source. writePendingOperatorClaimTx H db ops event source = Inr ops') \<or>
      withdraws_claim event \<and> withdrawCurrentClaimTx db ops event = Inr ops' \<or>
      \<not> opens_claim event \<and> \<not> withdraws_claim event \<and> ops' = ops) (writeOperatorClaimStateTx H db ops input event)"
    unfolding writeOperatorClaimStateTx_def
    by (intro post_intros) (auto intro!: postI simp: opens_claim_def withdraws_claim_def operator_constants)
  then show thesis using assms opened withdrawn neither by (auto dest: postD)
qed

subsection \<open>Keyed lists\<close>

lemma map_replace_row: "(\<And>x. key' (f x) = key x) \<Longrightarrow> map f (replace_row key xs r) = replace_row key' (map f xs) (f r)"
  by (simp add: replace_row_def image_image)

lemma set_replace_row: "x \<in> set (replace_row key xs r) \<longleftrightarrow> x = r \<or> x \<in> set xs \<and> key x \<noteq> key r"
  by (auto simp: replace_row_def image_iff)

lemma replace_row_quantifiers:
  "(\<forall>x \<in> set (replace_row key xs r). P x) \<longleftrightarrow> P r \<and> (\<forall>x \<in> set xs. key x \<noteq> key r \<longrightarrow> P x)"
  "(\<exists>x \<in> set (replace_row key xs r). P x) \<longleftrightarrow> P r \<or> (\<exists>x \<in> set xs. key x \<noteq> key r \<and> P x)"
  unfolding Ball_def Bex_def set_replace_row by blast+

lemma distinct_replace_row: "distinct (map key xs) \<Longrightarrow> distinct (map key (replace_row key xs r))"
proof -
  assume d: "distinct (map key xs)"
  have "map (key \<circ> (\<lambda>x. if key x = key r then r else x)) xs = map key xs" by simp
  then show ?thesis using d by (auto simp: replace_row_def simp del: map_map simp flip: map_map)
qed

lemma distinct_replace_other:
  assumes "distinct (map key xs)" "distinct (map other xs)" "other r \<notin> other ` set (filter (\<lambda>x. key x \<noteq> key r) xs)"
  shows "distinct (map other (replace_row key xs r))"
proof (cases "key r \<in> key ` set xs")
  case False
  then have "filter (\<lambda>x. key x \<noteq> key r) xs = xs" by (auto simp: image_iff intro!: filter_True)
  then show ?thesis using assms False by (simp add: replace_row_def)
next
  case True
  have i: "inj_on other (set xs)" "inj_on key (set xs)" using assms by (simp_all add: distinct_map)
  have n: "other x \<noteq> other r" if "x \<in> set xs" "key x \<noteq> key r" for x
    using that assms(3) by (simp add: image_iff) metis
  have "inj_on (other \<circ> (\<lambda>x. if key x = key r then r else x)) (set xs)"
  proof (rule inj_onI)
    fix x y assume m: "x \<in> set xs" "y \<in> set xs"
      and e: "(other \<circ> (\<lambda>x. if key x = key r then r else x)) x = (other \<circ> (\<lambda>x. if key x = key r then r else x)) y"
    consider "key x = key r" "key y = key r" | "key x \<noteq> key r" "key y \<noteq> key r" using e m n by (auto split: if_split_asm)
    then show "x = y" using e m i by cases (auto simp: inj_on_eq_iff dest: inj_onD [of key _ x y])
  qed
  then show ?thesis using True assms(1) by (simp add: replace_row_def distinct_map)
qed

lemma find_SomeD: "find P xs = Some x \<Longrightarrow> x \<in> set xs \<and> P x"
  by (induction xs) (auto split: if_split_asm)

lemma find_key: "distinct (map key xs) \<Longrightarrow> x \<in> set xs \<Longrightarrow> find (\<lambda>y. key y = key x) xs = Some x"
  by (induction xs) auto

lemma replace_found_if:
  assumes "distinct (map key xs)" "\<And>x. key (f x) = key x"
  shows "(case find (\<lambda>x. key x = d) xs of None \<Rightarrow> xs | Some x \<Rightarrow> if P x then replace_row key xs (f x) else xs) =
    map (\<lambda>x. if key x = d \<and> P x then f x else x) xs"
proof (cases "find (\<lambda>x. key x = d) xs")
  case None
  then have "\<forall>x \<in> set xs. key x \<noteq> d" by (auto simp: find_None_iff)
  then show ?thesis using None by (simp add: map_idI)
next
  case (Some y)
  then have y: "y \<in> set xs" "key y = d" by (auto simp: find_Some_iff)
  have u: "x = y" if "x \<in> set xs" "key x = d" for x using that y assms(1) by (auto simp: distinct_map inj_on_def)
  have m: "key (f y) \<in> key ` set xs" using y(1) assms(2) by simp
  have "map (\<lambda>x. if key x = key (f y) then f y else x) xs = map (\<lambda>x. if key x = d \<and> P x then f x else x) xs" if "P y"
    using that u y(2) by (intro map_cong) (auto simp: assms(2))
  moreover have "map (\<lambda>x. if key x = d \<and> P x then f x else x) xs = xs" if "\<not> P y"
    using that u by (intro map_idI) auto
  ultimately show ?thesis using Some m by (simp add: replace_row_def)
qed

lemma replace_found:
  assumes "distinct (map key xs)" "\<And>x. key (f x) = key x"
  shows "(case find (\<lambda>x. key x = d) xs of None \<Rightarrow> xs | Some x \<Rightarrow> replace_row key xs (f x)) = map (\<lambda>x. if key x = d then f x else x) xs"
  using replace_found_if [OF assms, where P = "\<lambda>_. True" and d = d] by (simp only: if_True simp_thms)

subsection \<open>The tables hold what the logs say\<close>

text \<open>
  The claims and withdrawals of the audit log alone give one status per deployment; the two tables add the reviews and the
  decisions to it.
\<close>

definition claim_base :: "operator_tables \<Rightarrow> OperatorClaimStatus list" where
  "claim_base ops = foldl (status_step (operator_claim_verification_submissions ops)) [] (operator_audit_events ops)"

definition status_row :: "OperatorClaimStatus \<Rightarrow> claim_status_row" where
  "status_row s =
     \<lparr>cs_deployment_id = ocst_DeploymentID s, cs_claim_action_id = ocst_ClaimActionID s, cs_claim_audit_index = ocst_ClaimAuditIndex s,
      cs_claim_audit_hash = ocst_ClaimAuditHash s, cs_group_id = ocst_GroupID s, cs_legal_name = ocst_LegalName s,
      cs_verification_state = ocst_VerificationState s, cs_submitted_at = ocst_SubmittedAt s, cs_review_id = ocst_ReviewID s,
      cs_review_index = ocst_ReviewIndex s, cs_review_hash = ocst_ReviewHash s, cs_approved_at = ocst_ApprovedAt s,
      cs_updated_at = ocst_UpdatedAt s, cs_private_record_hash = ocst_PrivateRecordHash s\<rparr>"

definition table_status :: "OperatorClaimReview list \<Rightarrow> OperatorClaimStatus \<Rightarrow> claim_status_row" where
  "table_status reviews s = status_row (reviewed_status reviews s)"

definition table_eligibility ::
  "OperatorClaimReview list \<Rightarrow> OperatorClaimEligibility list \<Rightarrow> OperatorClaimStatus \<Rightarrow> eligibility_current_row" where
  "table_eligibility reviews decisions s =
     expectedOperatorClaimEligibilityCurrent (reviewed_status reviews s) (decision_of decisions (ocst_ClaimActionID s))"

definition base_status :: "OperatorClaimStatus \<Rightarrow> bool" where
  "base_status s \<longleftrightarrow> ocst_VerificationState s \<in> {OperatorClaimStatePendingReview, OperatorClaimStateWithdrawn} \<and>
     ocst_ApprovedAt s = [] \<and> ocst_SubmittedAt s \<noteq> [] \<and> ocst_EligibilityID s = [] \<and> ocst_EligibilityIndex s = 0"

definition base_ok :: "operator_tables \<Rightarrow> bool" where
  "base_ok ops \<longleftrightarrow> distinct (map ocst_DeploymentID (claim_base ops)) \<and> distinct (map ocst_ClaimActionID (claim_base ops)) \<and>
     (\<forall>s \<in> set (claim_base ops). base_status s) \<and>
     (\<forall>d. ons_Claimed (network_state (operator_audit_events ops) d) \<longleftrightarrow>
        (\<exists>s \<in> set (claim_base ops). ocst_DeploymentID s = d \<and> ocst_VerificationState s = OperatorClaimStatePendingReview))"

text \<open>The references between the logs.\<close>

definition refs_ok :: "operator_tables \<Rightarrow> bool" where
  "refs_ok ops \<longleftrightarrow> submission_ids ops \<subseteq> oae_ActionID ` set (operator_audit_events ops) \<and>
     (\<forall>r \<in> set (operator_claim_reviews ops). ocrw_ClaimActionID r \<in> submission_ids ops \<and> ocrw_ReviewedAt r \<noteq> [] \<and>
       ocrw_Decision r \<in> {OperatorClaimReviewApproved, OperatorClaimReviewRejected}) \<and>
     distinct (map ocrw_ClaimActionID (operator_claim_reviews ops)) \<and>
     (\<forall>d \<in> set (operator_claim_eligibility_events ops). oce_EligibilityID d \<noteq> [] \<and>
       oce_Decision d \<in> {OperatorClaimEligibilitySuspend, OperatorClaimEligibilityReinstate} \<and>
       oce_ClaimActionID d \<in> ocrw_ClaimActionID ` set (operator_claim_reviews ops))"

definition claims_ok :: "operator_tables \<Rightarrow> bool" where
  "claims_ok ops \<longleftrightarrow> base_ok ops \<and> refs_ok ops \<and>
     operator_claim_status ops = map (table_status (operator_claim_reviews ops)) (claim_base ops) \<and>
     operator_claim_eligibility_current ops =
       map (table_eligibility (operator_claim_reviews ops) (operator_claim_eligibility_events ops)) (claim_base ops)"

text \<open>The states and decisions are distinct texts.\<close>

lemma claim_distinct:
  "OperatorClaimStatePendingReview \<noteq> OperatorClaimStateApproved" "OperatorClaimStatePendingReview \<noteq> OperatorClaimStateRejected"
  "OperatorClaimStatePendingReview \<noteq> OperatorClaimStateWithdrawn" "OperatorClaimStateApproved \<noteq> OperatorClaimStatePendingReview"
  "OperatorClaimStateApproved \<noteq> OperatorClaimStateRejected" "OperatorClaimStateApproved \<noteq> OperatorClaimStateWithdrawn"
  "OperatorClaimStateRejected \<noteq> OperatorClaimStatePendingReview" "OperatorClaimStateRejected \<noteq> OperatorClaimStateApproved"
  "OperatorClaimStateRejected \<noteq> OperatorClaimStateWithdrawn" "OperatorClaimStateWithdrawn \<noteq> OperatorClaimStatePendingReview"
  "OperatorClaimStateWithdrawn \<noteq> OperatorClaimStateApproved" "OperatorClaimStateWithdrawn \<noteq> OperatorClaimStateRejected"
  "OperatorClaimReviewApproved \<noteq> OperatorClaimReviewRejected" "OperatorClaimReviewRejected \<noteq> OperatorClaimReviewApproved"
  "OperatorClaimEligibilitySuspend \<noteq> OperatorClaimEligibilityReinstate" "OperatorClaimEligibilityReinstate \<noteq> OperatorClaimEligibilitySuspend"
  "OperatorEligibilityActive \<noteq> OperatorEligibilitySuspended" "OperatorEligibilityActive \<noteq> OperatorEligibilityInactive"
  "OperatorEligibilitySuspended \<noteq> OperatorEligibilityActive" "OperatorEligibilitySuspended \<noteq> OperatorEligibilityInactive"
  "OperatorEligibilityInactive \<noteq> OperatorEligibilityActive" "OperatorEligibilityInactive \<noteq> OperatorEligibilitySuspended"
  by (simp_all add: operator_constants)

lemma claim_base_frame [simp]:
  "claim_base (operator_claim_reviews_update f1 ops) = claim_base ops" "claim_base (operator_claim_eligibility_events_update f2 ops) = claim_base ops"
  "claim_base (operator_claim_status_update f3 ops) = claim_base ops" "claim_base (operator_claim_eligibility_current_update f4 ops) = claim_base ops"
  "claim_base (operator_action_nonces_update f5 ops) = claim_base ops"
  by (simp_all add: claim_base_def)

lemma status_row_simps [simp]:
  "cs_deployment_id (status_row s) = ocst_DeploymentID s" "cs_claim_action_id (status_row s) = ocst_ClaimActionID s"
  "cs_verification_state (status_row s) = ocst_VerificationState s" "cs_submitted_at (status_row s) = ocst_SubmittedAt s"
  "cs_approved_at (status_row s) = ocst_ApprovedAt s" "cs_group_id (status_row s) = ocst_GroupID s"
  "cs_legal_name (status_row s) = ocst_LegalName s" "cs_review_index (status_row s) = ocst_ReviewIndex s"
  "cs_review_hash (status_row s) = ocst_ReviewHash s"
  by (simp_all add: status_row_def)

lemma reviewed_status_simps [simp]:
  "ocst_DeploymentID (reviewed_status reviews s) = ocst_DeploymentID s" "ocst_ClaimActionID (reviewed_status reviews s) = ocst_ClaimActionID s"
  "ocst_GroupID (reviewed_status reviews s) = ocst_GroupID s" "ocst_LegalName (reviewed_status reviews s) = ocst_LegalName s"
  "ocst_SubmittedAt (reviewed_status reviews s) = ocst_SubmittedAt s" "ocst_EligibilityID (reviewed_status reviews s) = ocst_EligibilityID s"
  "ocst_EligibilityIndex (reviewed_status reviews s) = ocst_EligibilityIndex s"
  by (simp_all add: reviewed_status_def Let_def split: option.split)

lemma expectedCurrent_simps [simp]:
  "ec_deployment_id (expectedOperatorClaimEligibilityCurrent s d) = ocst_DeploymentID s"
  "ec_claim_action_id (expectedOperatorClaimEligibilityCurrent s d) = ocst_ClaimActionID s"
  by (simp_all add: expectedOperatorClaimEligibilityCurrent_def Let_def split: option.split)

lemma table_simps [simp]:
  "cs_deployment_id (table_status reviews s) = ocst_DeploymentID s" "cs_claim_action_id (table_status reviews s) = ocst_ClaimActionID s"
  "ec_deployment_id (table_eligibility reviews decisions s) = ocst_DeploymentID s"
  "ec_claim_action_id (table_eligibility reviews decisions s) = ocst_ClaimActionID s"
  by (simp_all add: table_status_def table_eligibility_def)

lemma pending_status_simps [simp]:
  "ocst_DeploymentID (pending_status e u) = oae_DeploymentID e" "ocst_ClaimActionID (pending_status e u) = oae_ActionID e"
  "ocst_VerificationState (pending_status e u) = OperatorClaimStatePendingReview"
  by (simp_all add: pending_status_def)

lemma withdrawn_status_simps [simp]:
  "ocst_DeploymentID (withdrawn_status e s) = ocst_DeploymentID s" "ocst_ClaimActionID (withdrawn_status e s) = ocst_ClaimActionID s"
  "ocst_VerificationState (withdrawn_status e s) = OperatorClaimStateWithdrawn"
  "base_status (withdrawn_status e s) \<longleftrightarrow> ocst_ApprovedAt s = [] \<and> ocst_SubmittedAt s \<noteq> [] \<and> ocst_EligibilityID s = [] \<and> ocst_EligibilityIndex s = 0"
  by (simp_all add: withdrawn_status_def base_status_def)

lemma of_snoc [simp]:
  "submission_of (us @ [u]) a = (if ocs_ClaimActionID u = a then Some u else submission_of us a)"
  "review_of (rs @ [r]) a = (if ocrw_ClaimActionID r = a then Some r else review_of rs a)"
  "decision_of (ds @ [d]) a = (if oce_ClaimActionID d = a then Some d else decision_of ds a)"
  by (simp_all add: submission_of_def review_of_def decision_of_def)

lemma of_None_iff:
  "submission_of us a = None \<longleftrightarrow> a \<notin> ocs_ClaimActionID ` set us"
  "review_of rs a = None \<longleftrightarrow> a \<notin> ocrw_ClaimActionID ` set rs"
  "decision_of ds a = None \<longleftrightarrow> a \<notin> oce_ClaimActionID ` set ds"
  by (auto simp: submission_of_def review_of_def decision_of_def find_None_iff image_iff)

lemma of_SomeD:
  "review_of rs a = Some r \<Longrightarrow> r \<in> set rs \<and> ocrw_ClaimActionID r = a"
  "decision_of ds a = Some d \<Longrightarrow> d \<in> set ds \<and> oce_ClaimActionID d = a"
  by (auto simp: review_of_def decision_of_def dest: find_SomeD)

text \<open>Withdrawing commutes with adding the review and the decision.\<close>

lemma table_withdrawn:
  "table_status reviews (withdrawn_status e s) =
     (table_status reviews s)\<lparr>cs_verification_state := OperatorClaimStateWithdrawn, cs_updated_at := oae_AcceptedAt e\<rparr>"
  "table_eligibility reviews decisions (withdrawn_status e s) =
     (table_eligibility reviews decisions s)\<lparr>ec_eligibility_state := OperatorEligibilityInactive, ec_updated_at := oae_AcceptedAt e\<rparr>"
proof -
  have r: "reviewed_status reviews (withdrawn_status e s) = withdrawn_status e (reviewed_status reviews s)"
    by (cases "review_of reviews (ocst_ClaimActionID s)") (simp_all add: reviewed_status_def withdrawn_status_def Let_def operator_constants)
  then show "table_status reviews (withdrawn_status e s) =
     (table_status reviews s)\<lparr>cs_verification_state := OperatorClaimStateWithdrawn, cs_updated_at := oae_AcceptedAt e\<rparr>"
    by (simp add: table_status_def status_row_def withdrawn_status_def)
  show "table_eligibility reviews decisions (withdrawn_status e s) =
     (table_eligibility reviews decisions s)\<lparr>ec_eligibility_state := OperatorEligibilityInactive, ec_updated_at := oae_AcceptedAt e\<rparr>"
    unfolding table_eligibility_def r
    by (cases "decision_of decisions (ocst_ClaimActionID s)")
      (simp_all add: expectedOperatorClaimEligibilityCurrent_def withdrawn_status_def Let_def operator_constants)
qed

text \<open>An event that neither opens nor withdraws a claim leaves the base as it is, the others change one entry.\<close>

lemma claim_base_snoc:
  assumes "oae_ActionID e \<notin> oae_ActionID ` set (operator_audit_events ops)"
    and "operator_claim_verification_submissions ops' = operator_claim_verification_submissions ops @ us"
    and "\<forall>u \<in> set us. ocs_ClaimActionID u = oae_ActionID e" "operator_audit_events ops' = operator_audit_events ops @ [e]"
  shows "claim_base ops' = status_step (operator_claim_verification_submissions ops') (claim_base ops) e"
proof -
  have sub: "submission_of (operator_claim_verification_submissions ops') a = submission_of (operator_claim_verification_submissions ops) a"
    if "a \<noteq> oae_ActionID e" for a
    using assms(3) that by (simp add: assms(2)) (induction us rule: rev_induct; simp flip: append_assoc)
  have "status_step (operator_claim_verification_submissions ops') acc x = status_step (operator_claim_verification_submissions ops) acc x"
    if "x \<in> set (operator_audit_events ops)" for acc x
  proof -
    have "oae_ActionID x \<noteq> oae_ActionID e" using that assms(1) by (metis imageI)
    then show ?thesis using sub by (simp add: status_step_def)
  qed
  then have "foldl (status_step (operator_claim_verification_submissions ops')) [] (operator_audit_events ops) = claim_base ops"
    unfolding claim_base_def by (intro foldl_cong) simp_all
  then show ?thesis by (simp add: claim_base_def assms(4))
qed

lemma status_step_withdraw:
  assumes "event_shape state e" "distinct (map ocst_DeploymentID base)" "\<forall>s \<in> set base. base_status s"
    and "ons_Claimed state \<longleftrightarrow> (\<exists>s \<in> set base. ocst_DeploymentID s = oae_SubjectDeploymentID e \<and>
      ocst_VerificationState s = OperatorClaimStatePendingReview)"
    and "\<not> opens_claim e" "submission_of us (oae_ActionID e) = None"
  shows "status_step us base e =
    (if withdraws_claim e then map (\<lambda>s. if ocst_DeploymentID s = oae_SubjectDeploymentID e then withdrawn_status e s else s) base else base)"
proof -
  note found = replace_found [OF assms(2), of "withdrawn_status e", simplified]
    and found_if = replace_found_if [OF assms(2), of "withdrawn_status e",
      where P = "\<lambda>s. ocst_VerificationState s \<noteq> OperatorClaimStateWithdrawn", simplified]
  consider (w) "oae_Action e = OperatorActionWithdrawClaim" | (d) "oae_Action e = OperatorActionDeactivateDeployment"
    | (n) "oae_Action e \<noteq> OperatorActionWithdrawClaim" "oae_Action e \<noteq> OperatorActionDeactivateDeployment" by blast
  then show ?thesis
  proof cases
    case w
    then have "withdraws_claim e" using assms(1) by (simp add: event_shape_def withdraws_claim_def)
    then show ?thesis using w found by (simp add: status_step_def operator_constants)
  next
    case d
    have s: "status_step us base e = map (\<lambda>s. if ocst_DeploymentID s = oae_SubjectDeploymentID e \<and>
        ocst_VerificationState s \<noteq> OperatorClaimStateWithdrawn then withdrawn_status e s else s) base"
      using d found_if by (simp add: status_step_def operator_constants)
    have p: "OperatorClaimStatePendingReview \<noteq> OperatorClaimStateWithdrawn" "OperatorClaimStateWithdrawn \<noteq> []"
      by (simp_all add: operator_constants)
    have st: "ocst_VerificationState s \<in> {OperatorClaimStatePendingReview, OperatorClaimStateWithdrawn}" if "s \<in> set base" for s
      using that assms(3) by (simp add: base_status_def)
    show ?thesis
    proof (cases "ons_Claimed state")
      case True
      then obtain y where y: "y \<in> set base" "ocst_DeploymentID y = oae_SubjectDeploymentID e"
        "ocst_VerificationState y = OperatorClaimStatePendingReview" using assms(4) by blast
      have "x = y" if "x \<in> set base" "ocst_DeploymentID x = oae_SubjectDeploymentID e" for x
        using that y assms(2) by (auto simp: distinct_map inj_on_def)
      then have "map (\<lambda>s. if ocst_DeploymentID s = oae_SubjectDeploymentID e \<and> ocst_VerificationState s \<noteq> OperatorClaimStateWithdrawn
          then withdrawn_status e s else s) base =
        map (\<lambda>s. if ocst_DeploymentID s = oae_SubjectDeploymentID e then withdrawn_status e s else s) base"
        using y(3) p by (intro map_cong) auto
      moreover have "withdraws_claim e" using True d assms(1) by (simp add: withdraws_claim_def event_shape_def)
      ultimately show ?thesis using s by simp
    next
      case False
      then have "\<not> withdraws_claim e" using d assms(1) p(2) by (simp add: withdraws_claim_def event_shape_def)
      moreover have "map (\<lambda>s. if ocst_DeploymentID s = oae_SubjectDeploymentID e \<and> ocst_VerificationState s \<noteq> OperatorClaimStateWithdrawn
          then withdrawn_status e s else s) base = base"
        using False assms(4) st by (intro map_idI) auto
      ultimately show ?thesis using s by simp
    qed
  next
    case n
    then show ?thesis using assms(6) by (auto simp: status_step_def withdraws_claim_def)
  qed
qed

lemma event_shape_subject: "event_shape (f (oae_DeploymentID e)) e \<Longrightarrow> event_shape (f (oae_SubjectDeploymentID e)) e"
  by (cases "oae_SubjectDeploymentID e = oae_DeploymentID e") (auto simp: event_shape_def)

lemma writePendingOperatorClaimTx_Inr:
  assumes "writePendingOperatorClaimTx H db ops event source = Inr ops'"
  obtains u where "ocs_ClaimActionID u = oae_ActionID event"
    "ops' = ops\<lparr>operator_claim_verification_submissions := operator_claim_verification_submissions ops @ [u],
       operator_claim_status := replace_row cs_deployment_id (operator_claim_status ops) (status_row (pending_status event u)),
       operator_claim_eligibility_current := replace_row ec_deployment_id (operator_claim_eligibility_current ops)
         (expectedOperatorClaimEligibilityCurrent (pending_status event u) None)\<rparr>"
    "oae_ActionID event \<notin> cs_claim_action_id ` set (filter (\<lambda>x. cs_deployment_id x \<noteq> oae_DeploymentID event) (operator_claim_status ops))"
proof -
  define u where "u = source\<lparr>ocs_ClaimActionID := oae_ActionID event, ocs_DeploymentID := oae_DeploymentID event,
    ocs_GroupID := oae_GroupID event, ocs_PayloadHash := oae_PayloadHash event, ocs_SubmittedAt := oae_AcceptedAt event,
    ocs_PrivateRecordHash := Digest H (OperatorClaimPrivateRecordMessage (oae_ActionID event) (oae_DeploymentID event)
            (oae_GroupID event) (oae_PayloadHash event) (ocs_LegalName source) (ocs_RegistrationNumber source)
            (ocs_Jurisdiction source) (ocs_RegisteredAddress source) (ocs_Website source) (ocs_VerificationContactName source)
            (ocs_VerificationContactRole source) (ocs_VerificationContactEmail source) (ocs_AuthorityAttested source)
            (ocs_OperatorAvatarURL source) (oae_AcceptedAt event))\<rparr>"
  have "writePendingOperatorClaimTx H db ops event source =
      (case insert_claim_submission db ops u of Inl err \<Rightarrow> Inl err | Inr ops \<Rightarrow>
      (case upsert_claim_status db ops (status_row (pending_status event u)) of Inl err \<Rightarrow> Inl err | Inr ops \<Rightarrow>
       upsert_eligibility_current db ops (expectedOperatorClaimEligibilityCurrent (pending_status event u) None)))"
    by (simp add: writePendingOperatorClaimTx_def u_def status_row_def pending_status_def
      expectedOperatorClaimEligibilityCurrent_def Let_def operator_constants cong: sum.case_cong)
  with assms obtain ops1 ops2 where 1: "insert_claim_submission db ops u = Inr ops1"
    and 2: "upsert_claim_status db ops1 (status_row (pending_status event u)) = Inr ops2"
    and 3: "upsert_eligibility_current db ops2 (expectedOperatorClaimEligibilityCurrent (pending_status event u) None) = Inr ops'"
    by (auto simp: result_simps)
  have "oae_ActionID event \<notin> cs_claim_action_id ` set (filter (\<lambda>x. cs_deployment_id x \<noteq> oae_DeploymentID event) (operator_claim_status ops1))"
    using 2 by (simp add: upsert_claim_status_def Let_def split: if_split_asm)
  moreover note insert_frames(4) [OF 1] insert_frames(5) [OF 2] insert_frames(6) [OF 3]
  ultimately show thesis by (intro that [of u]) (simp_all add: u_def)
qed

lemma withdrawCurrentClaimTx_Inr:
  "withdrawCurrentClaimTx db ops event = Inr ops' \<Longrightarrow>
     ops' = ops\<lparr>operator_claim_status := map (\<lambda>s. if cs_deployment_id s = oae_SubjectDeploymentID event
         then s\<lparr>cs_verification_state := OperatorClaimStateWithdrawn, cs_updated_at := oae_AcceptedAt event\<rparr> else s) (operator_claim_status ops),
       operator_claim_eligibility_current := map (\<lambda>e. if ec_deployment_id e = oae_SubjectDeploymentID event
         then e\<lparr>ec_eligibility_state := OperatorEligibilityInactive, ec_updated_at := oae_AcceptedAt event\<rparr> else e)
           (operator_claim_eligibility_current ops)\<rparr>"
  unfolding withdrawCurrentClaimTx_def result_simps
  by (auto simp: update_rows_def result_simps split: if_split_asm)

text \<open>Claims opened and withdrawn, as effects on the base.\<close>

lemma base_okD:
  assumes "base_ok ops"
  shows "distinct (map ocst_DeploymentID (claim_base ops))" "distinct (map ocst_ClaimActionID (claim_base ops))"
    "\<forall>s \<in> set (claim_base ops). base_status s"
    "ons_Claimed (network_state (operator_audit_events ops) d) \<longleftrightarrow> (\<exists>s \<in> set (claim_base ops). ocst_DeploymentID s = d \<and>
      ocst_VerificationState s = OperatorClaimStatePendingReview)"
  using assms by (simp_all add: base_ok_def)

lemma base_ok_opened:
  assumes "base_ok ops" "claim_base ops' = replace_row ocst_DeploymentID (claim_base ops) (pending_status e u)"
    and "operator_audit_events ops' = operator_audit_events ops @ [e]" "opens_claim e"
    and "event_shape (network_state (operator_audit_events ops) (oae_SubjectDeploymentID e)) e" "oae_AcceptedAt e \<noteq> []"
    and "oae_ActionID e \<notin> ocst_ClaimActionID ` set (filter (\<lambda>x. ocst_DeploymentID x \<noteq> oae_DeploymentID e) (claim_base ops))"
  shows "base_ok ops'"
proof -
  have subj: "oae_SubjectDeploymentID e = oae_DeploymentID e" using assms(4,5) by (auto simp: event_shape_def opens_claim_def)
  have d: "distinct (map ocst_DeploymentID (claim_base ops))" "distinct (map ocst_ClaimActionID (claim_base ops))"
    by (rule base_okD [OF assms(1)])+
  have d': "distinct (map ocst_ClaimActionID (claim_base ops'))"
    unfolding assms(2) using assms(7) by (intro distinct_replace_other [OF d]) simp
  have p: "base_status (pending_status e u)" using assms(6) by (simp add: base_status_def pending_status_def)
  have "ons_Claimed (network_state (operator_audit_events ops') x) \<longleftrightarrow>
      x = oae_DeploymentID e \<or> ons_Claimed (network_state (operator_audit_events ops) x)" for x
    using assms(4) apply_Claimed [OF assms(5)] by (auto simp: assms(3) network_state_snoc subj)
  also have "x = oae_DeploymentID e \<or> ons_Claimed (network_state (operator_audit_events ops) x) \<longleftrightarrow>
      (\<exists>s \<in> set (claim_base ops'). ocst_DeploymentID s = x \<and> ocst_VerificationState s = OperatorClaimStatePendingReview)" for x
    unfolding base_okD(4) [OF assms(1)] assms(2) replace_row_quantifiers pending_status_simps
    by (cases "x = oae_DeploymentID e") auto
  finally show ?thesis using d' p base_okD(3) [OF assms(1)] distinct_replace_row [OF d(1), of "pending_status e u"]
    unfolding base_ok_def assms(2) replace_row_quantifiers by blast
qed

lemma base_ok_withdrawn:
  assumes "base_ok ops" "claim_base ops' = (if withdraws_claim e
      then map (\<lambda>s. if ocst_DeploymentID s = oae_SubjectDeploymentID e then withdrawn_status e s else s) (claim_base ops) else claim_base ops)"
    and "operator_audit_events ops' = operator_audit_events ops @ [e]" "\<not> opens_claim e"
    and "event_shape (network_state (operator_audit_events ops) (oae_SubjectDeploymentID e)) e"
  shows "base_ok ops'"
proof -
  let ?w = "\<lambda>s. if ocst_DeploymentID s = oae_SubjectDeploymentID e then withdrawn_status e s else s"
  have k: "ocst_DeploymentID (?w s) = ocst_DeploymentID s" "ocst_ClaimActionID (?w s) = ocst_ClaimActionID s" for s by simp_all
  have c: "ons_Claimed (network_state (operator_audit_events ops') x) \<longleftrightarrow>
      \<not> (withdraws_claim e \<and> x = oae_SubjectDeploymentID e) \<and> ons_Claimed (network_state (operator_audit_events ops) x)" for x
    using assms(4) apply_Claimed [OF assms(5)] by (auto simp: assms(3) network_state_snoc)
  have p: "OperatorClaimStateWithdrawn \<noteq> OperatorClaimStatePendingReview" by (simp add: operator_constants)
  show ?thesis
  proof (cases "withdraws_claim e")
    case True
    have m: "map ocst_DeploymentID (map ?w (claim_base ops)) = map ocst_DeploymentID (claim_base ops)"
      "map ocst_ClaimActionID (map ?w (claim_base ops)) = map ocst_ClaimActionID (claim_base ops)" by (simp_all add: k comp_def)
    have "base_status (?w s)" if "base_status s" for s using that by (auto simp: base_status_def withdrawn_status_def)
    then have b: "\<forall>s \<in> set (map ?w (claim_base ops)). base_status s"
      using base_okD(3) [OF assms(1)] unfolding set_map ball_simps by blast
    have "(\<exists>s \<in> set (map ?w (claim_base ops)). ocst_DeploymentID s = x \<and> ocst_VerificationState s = OperatorClaimStatePendingReview) \<longleftrightarrow>
        x \<noteq> oae_SubjectDeploymentID e \<and> ons_Claimed (network_state (operator_audit_events ops) x)" for x
      unfolding base_okD(4) [OF assms(1)] using p by auto
    then show ?thesis using c True assms(2) b m base_okD(1,2) [OF assms(1)] by (simp add: base_ok_def del: map_map set_map)
  next
    case False
    then show ?thesis using assms(1,2) c by (simp add: base_ok_def)
  qed
qed

subsection \<open>Every operation keeps the tables in step with the logs\<close>

lemma refs_ok_fresh:
  assumes "refs_ok ops" "a \<notin> oae_ActionID ` set (operator_audit_events ops)"
  shows "submission_of (operator_claim_verification_submissions ops) a = None" "review_of (operator_claim_reviews ops) a = None"
    "decision_of (operator_claim_eligibility_events ops) a = None"
proof -
  have s: "a \<notin> submission_ids ops" using assms by (auto simp: refs_ok_def)
  then have r: "a \<notin> ocrw_ClaimActionID ` set (operator_claim_reviews ops)" using assms(1) by (auto simp: refs_ok_def)
  then have "a \<notin> oce_ClaimActionID ` set (operator_claim_eligibility_events ops)" using assms(1) by (auto simp: refs_ok_def)
  with s r show "submission_of (operator_claim_verification_submissions ops) a = None" "review_of (operator_claim_reviews ops) a = None"
    "decision_of (operator_claim_eligibility_events ops) a = None" by (simp_all only: of_None_iff not_False_eq_True)
qed

lemma refs_ok_append:
  assumes "refs_ok ops" "operator_audit_events ops' = operator_audit_events ops @ [e]"
    and "operator_claim_verification_submissions ops' = operator_claim_verification_submissions ops @ us"
    and "\<forall>u \<in> set us. ocs_ClaimActionID u = oae_ActionID e" "operator_claim_reviews ops' = operator_claim_reviews ops"
    and "operator_claim_eligibility_events ops' = operator_claim_eligibility_events ops"
  shows "refs_ok ops'"
  using assms(1,4) unfolding refs_ok_def assms(2,3,5,6) by auto

lemma claim_base_opened:
  assumes "oae_ActionID e \<notin> oae_ActionID ` set (operator_audit_events ops)" "opens_claim e" "ocs_ClaimActionID u = oae_ActionID e"
    and "operator_claim_verification_submissions ops' = operator_claim_verification_submissions ops @ [u]"
    and "operator_audit_events ops' = operator_audit_events ops @ [e]"
  shows "claim_base ops' = replace_row ocst_DeploymentID (claim_base ops) (pending_status e u)"
  using claim_base_snoc [OF assms(1,4) _ assms(5)] assms(2,3) by (auto simp: assms(4) status_step_def opens_claim_def)

lemma claim_base_withdrawn:
  assumes "oae_ActionID e \<notin> oae_ActionID ` set (operator_audit_events ops)" "base_ok ops" "refs_ok ops" "\<not> opens_claim e"
    and "event_shape (network_state (operator_audit_events ops) (oae_SubjectDeploymentID e)) e"
    and "operator_claim_verification_submissions ops' = operator_claim_verification_submissions ops"
    and "operator_audit_events ops' = operator_audit_events ops @ [e]"
  shows "claim_base ops' = (if withdraws_claim e then map (\<lambda>s. if ocst_DeploymentID s = oae_SubjectDeploymentID e
      then withdrawn_status e s else s) (claim_base ops) else claim_base ops)"
proof -
  have "claim_base ops' = status_step (operator_claim_verification_submissions ops) (claim_base ops) e"
    using claim_base_snoc [OF assms(1), of ops' "[]"] assms(6,7) by simp
  also note status_step_withdraw [OF assms(5) base_okD(1,3,4) [OF assms(2)] assms(4) refs_ok_fresh(1) [OF assms(3,1)]]
  finally show ?thesis .
qed

lemma claims_ok_event:
  assumes "claims_ok ops" "insert_operator_audit_event db ops e = Inr ops1"
    and e: "event_shape (network_state (operator_audit_events ops) (oae_SubjectDeploymentID e)) e" "oae_AcceptedAt e \<noteq> []"
    and "operator_claim_verification_submissions ops2 = operator_claim_verification_submissions ops"
      "operator_claim_reviews ops2 = operator_claim_reviews ops"
      "operator_claim_eligibility_events ops2 = operator_claim_eligibility_events ops"
      "operator_claim_status ops2 = operator_claim_status ops"
      "operator_claim_eligibility_current ops2 = operator_claim_eligibility_current ops"
      "operator_audit_events ops2 = operator_audit_events ops @ [e]"
    and w: "writeOperatorClaimStateTx H db ops2 input e = Inr ops'"
  shows "claims_ok ops'"
proof -
  note same = assms(5-10)
  have base: "base_ok ops" and refs: "refs_ok ops"
    and st: "operator_claim_status ops = map (table_status (operator_claim_reviews ops)) (claim_base ops)"
    and el: "operator_claim_eligibility_current ops =
      map (table_eligibility (operator_claim_reviews ops) (operator_claim_eligibility_events ops)) (claim_base ops)"
    using assms(1) by (simp_all add: claims_ok_def)
  have fresh: "oae_ActionID e \<notin> oae_ActionID ` set (operator_audit_events ops)"
    using assms(2) by (simp add: insert_operator_audit_event_def Let_def split: if_split_asm)
  note none = refs_ok_fresh [OF refs fresh]
  from w show ?thesis
  proof (cases rule: writeOperatorClaimStateTx_cases)
    case (opened source)
    obtain u where u: "ocs_ClaimActionID u = oae_ActionID e"
      and ops': "ops' = ops2\<lparr>operator_claim_verification_submissions := operator_claim_verification_submissions ops2 @ [u],
        operator_claim_status := replace_row cs_deployment_id (operator_claim_status ops2) (status_row (pending_status e u)),
        operator_claim_eligibility_current := replace_row ec_deployment_id (operator_claim_eligibility_current ops2)
          (expectedOperatorClaimEligibilityCurrent (pending_status e u) None)\<rparr>"
      and n: "oae_ActionID e \<notin> cs_claim_action_id ` set (filter (\<lambda>x. cs_deployment_id x \<noteq> oae_DeploymentID e) (operator_claim_status ops2))"
      by (rule writePendingOperatorClaimTx_Inr [OF opened(2)]) (rule that)
    have b: "claim_base ops' = replace_row ocst_DeploymentID (claim_base ops) (pending_status e u)"
      by (rule claim_base_opened [OF fresh opened(1) u]) (simp_all add: ops' same)
    have "oae_ActionID e \<notin> ocst_ClaimActionID ` set (filter (\<lambda>x. ocst_DeploymentID x \<noteq> oae_DeploymentID e) (claim_base ops))"
      using n by (simp add: same st filter_map comp_def image_image)
    then have "base_ok ops'" using e opened(1) by (intro base_ok_opened [OF base b]) (simp_all add: ops' same)
    moreover have "refs_ok ops'" by (rule refs_ok_append [OF refs, of _ e "[u]"]) (simp_all add: ops' same u)
    moreover have "status_row (pending_status e u) = table_status (operator_claim_reviews ops) (pending_status e u)"
      "expectedOperatorClaimEligibilityCurrent (pending_status e u) None =
         table_eligibility (operator_claim_reviews ops) (operator_claim_eligibility_events ops) (pending_status e u)"
      using none by (simp_all add: table_status_def table_eligibility_def reviewed_status_def)
    ultimately show ?thesis unfolding claims_ok_def b by (simp add: ops' same st el
      map_replace_row [of cs_deployment_id "table_status _" ocst_DeploymentID] map_replace_row [of ec_deployment_id "table_eligibility _ _" ocst_DeploymentID])
  next
    case withdrawn
    note ops' = withdrawCurrentClaimTx_Inr [OF withdrawn(2)]
    have no: "\<not> opens_claim e" using withdrawn(1) opens_not_withdraws by blast
    have b: "claim_base ops' = (if withdraws_claim e then map (\<lambda>s. if ocst_DeploymentID s = oae_SubjectDeploymentID e
      then withdrawn_status e s else s) (claim_base ops) else claim_base ops)"
      by (rule claim_base_withdrawn [OF fresh base refs no e(1)]) (simp_all add: ops' same)
    have "base_ok ops'" using e no by (intro base_ok_withdrawn [OF base b]) (simp_all add: ops' same)
    moreover have "refs_ok ops'" by (rule refs_ok_append [OF refs, of _ e "[]"]) (simp_all add: ops' same)
    ultimately show ?thesis unfolding claims_ok_def b using withdrawn(1) by (simp add: ops' same st el table_withdrawn)
  next
    case neither
    have b: "claim_base ops' = (if withdraws_claim e then map (\<lambda>s. if ocst_DeploymentID s = oae_SubjectDeploymentID e
      then withdrawn_status e s else s) (claim_base ops) else claim_base ops)"
      by (rule claim_base_withdrawn [OF fresh base refs neither(1) e(1)]) (simp_all add: neither(3) same)
    have "base_ok ops'" using e neither(1) by (intro base_ok_withdrawn [OF base b]) (simp_all add: neither(3) same)
    moreover have "refs_ok ops'" by (rule refs_ok_append [OF refs, of _ e "[]"]) (simp_all add: neither(3) same)
    ultimately show ?thesis unfolding claims_ok_def b using neither(2) by (simp add: neither(3) same st el)
  qed
qed

lemma AppendOperatorAction_accepted_at:
  assumes "AppendOperatorAction H db transfers ops input signReceipt = Inr (ops', event, False)"
  shows "oai_AcceptedAt input \<noteq> []"
proof
  assume "oai_AcceptedAt input = []"
  then have "ensureAcceptedAtAfterRegistryCreation db (oai_AcceptedAt input) \<noteq> Inr u" for u
    by (simp add: ensureAcceptedAtAfterRegistryCreation_def split: option.split)
  then have "post (\<lambda>(_, _, duplicate). duplicate) (AppendOperatorAction H db transfers ops input signReceipt)"
    unfolding AppendOperatorAction_def by (intro post_intros) simp_all
  then show False using assms by (auto dest: postD)
qed

lemma AppendOperatorAction_claims_ok:
  assumes "network_ok H ops" "length (operator_audit_events ops) < 2 ^ 62" "claims_ok ops"
    and "AppendOperatorAction H db transfers ops input signReceipt = Inr (ops', event, duplicate)"
  shows "claims_ok ops'"
  using assms(4)
proof (cases rule: AppendOperatorAction_cases)
  case known
  then show ?thesis using assms(3) by simp
next
  case retry
  then show ?thesis using assms(3) insert_frames(2) [OF retry(5) [unfolded insertOperatorNonceTx_def]]
    by (simp add: claims_ok_def base_ok_def refs_ok_def claim_base_def)
next
  case (fresh derived signature)
  note r = fresh_event_request [OF fresh(5,6)]
  have "event_shape (operatorNetworkStateAtTx ops (oai_DeploymentID input) 0) event"
    using postD [OF deriveOperatorActionTx_shape [OF refl] fresh(5)] by (simp add: fresh(6) hashedOperatorEvent_def)
  then have shape: "event_shape (network_state (operator_audit_events ops) (oae_SubjectDeploymentID event)) event"
    using event_shape_subject [of "network_state (operator_audit_events ops)" event] r(5) operatorNetworkStateAtTx_replay(1) [OF assms(1)] by simp
  have at: "oae_AcceptedAt event \<noteq> []" using AppendOperatorAction_accepted_at assms(4) fresh(1) r(6) by simp
  from fresh(7) obtain ops1 ops2 ops3 where
    1: "insert_operator_audit_event db ops event = Inr ops1" and
    2: "insertOperatorNetworkStateTx db ops1 event = Inr ops2" and
    3: "writeOperatorClaimStateTx H db ops2 input event = Inr ops3" and
    4: "insertOperatorNonceTx db ops3 input (oae_ActionID event) = Inr ops'"
    by (auto simp: appendOperatorEventTx_def result_simps)
  note f = insert_frames(1) [OF 1] insert_frames(3) [OF 2 [unfolded insertOperatorNetworkStateTx_def]]
    insert_frames(2) [OF 4 [unfolded insertOperatorNonceTx_def]]
  have "claims_ok ops3" using f by (intro claims_ok_event [OF assms(3) 1 shape at _ _ _ _ _ _ 3]) simp_all
  then show ?thesis using f(3) by (simp add: claims_ok_def base_ok_def refs_ok_def claim_base_def)
qed

lemma update_rows_Inr:
  "update_rows check selected f rows = Inr (n, rows') \<Longrightarrow> n = length (filter selected rows) \<and>
     rows' = map (\<lambda>r. if selected r then f r else r) rows \<and> (\<forall>r \<in> set rows. selected r \<longrightarrow> check (f r))"
  by (auto simp: update_rows_def list_all_iff split: if_split_asm)

lemma OperatorClaimStatus_query_Inr:
  assumes "claims_ok ops" "OperatorClaimStatus_query ops d = Inr status"
  obtains s where "s \<in> set (claim_base ops)" "ocst_DeploymentID s = d"
    "status = operatorClaimStatusSelect ops (table_status (operator_claim_reviews ops) s)"
  using assms by (auto simp: claims_ok_def OperatorClaimStatus_query_def split: option.splits dest!: find_SomeD)

lemma select_simps [simp]:
  "ocst_ClaimActionID (operatorClaimStatusSelect ops r) = cs_claim_action_id r"
  "ocst_DeploymentID (operatorClaimStatusSelect ops r) = cs_deployment_id r"
  "ocst_VerificationState (operatorClaimStatusSelect ops r) = cs_verification_state r"
  "ocst_SubmittedAt (operatorClaimStatusSelect ops r) = cs_submitted_at r"
  "ocst_ApprovedAt (operatorClaimStatusSelect ops r) = cs_approved_at r"
  by (simp_all add: operatorClaimStatusSelect_def Let_def)

text \<open>The review of a pending claim, and what it adds to its row.\<close>

lemma reviewed_status_pending:
  assumes "ocst_VerificationState (reviewed_status reviews s) = OperatorClaimStatePendingReview" "base_status s"
    and "\<forall>r \<in> set reviews. ocrw_Decision r \<in> {OperatorClaimReviewApproved, OperatorClaimReviewRejected}"
  shows "review_of reviews (ocst_ClaimActionID s) = None" "ocst_VerificationState s = OperatorClaimStatePendingReview"
proof -
  show n: "review_of reviews (ocst_ClaimActionID s) = None"
  proof (rule ccontr)
    assume "review_of reviews (ocst_ClaimActionID s) \<noteq> None"
    then obtain r where r: "review_of reviews (ocst_ClaimActionID s) = Some r" by auto
    then have "ocrw_Decision r \<in> {OperatorClaimReviewApproved, OperatorClaimReviewRejected}" using assms(3) of_SomeD(1) by blast
    then show False using assms(1,2) r by (auto simp: reviewed_status_def base_status_def Let_def operator_constants split: if_split_asm)
  qed
  then show "ocst_VerificationState s = OperatorClaimStatePendingReview" using assms(1) by (simp add: reviewed_status_def)
qed

lemma table_reviewed:
  assumes "base_status s" "ocst_VerificationState s = OperatorClaimStatePendingReview" "review_of reviews (ocst_ClaimActionID s) = None"
    and "decision_of decisions (ocst_ClaimActionID s) = None" "ocrw_ClaimActionID r = ocst_ClaimActionID s" "ocrw_ReviewedAt r \<noteq> []"
    and "ocrw_Decision r \<in> {OperatorClaimReviewApproved, OperatorClaimReviewRejected}"
  shows "table_status (reviews @ [r]) s = decideStatusRow r (table_status reviews s)"
    "table_eligibility (reviews @ [r]) decisions s = decideEligibilityRow r (table_eligibility reviews decisions s)"
  using assms
  by (auto simp: table_status_def table_eligibility_def reviewed_status_def status_row_def decideStatusRow_def decideEligibilityRow_def
      expectedOperatorClaimEligibilityCurrent_def base_status_def Let_def operator_constants)

lemma reviewed_status_other: "ocst_ClaimActionID s \<noteq> ocrw_ClaimActionID r \<Longrightarrow> reviewed_status (reviews @ [r]) s = reviewed_status reviews s"
  by (simp add: reviewed_status_def)

lemma map_update_one:
  assumes "\<And>x. x \<in> set xs \<Longrightarrow> x \<noteq> s \<Longrightarrow> g' x = g x \<and> \<not> selected (g x)" "g' s = f (g s)" "selected (g s)"
  shows "map (\<lambda>r. if selected r then f r else r) (map g xs) = map g' xs"
proof -
  have "(if selected (g x) then f (g x) else g x) = g' x" if "x \<in> set xs" for x
    using assms that by (cases "x = s") simp_all
  then show ?thesis by simp
qed

lemma DecideOperatorClaim_fresh:
  assumes "DecideOperatorClaim H db ops input signReview = Inr (ops', review, False)"
  obtains status signature where "OperatorClaimStatus_query ops (ocri_DeploymentID input) = Inr status"
    "ocst_ClaimActionID status = ocri_ClaimActionID input" "ocst_VerificationState status = OperatorClaimStatePendingReview"
    "\<not> ocri_ReviewedAt input < ocst_SubmittedAt status"
    "valid_review_decision (ocri_Decision input) (ocri_ReasonCode input)"
    "review = (hashedClaimReview H input (newClaimReview input (fst (operatorClaimReviewHeadQuery ops))
       (fst (snd (operatorClaimReviewHeadQuery ops)))))\<lparr>ocrw_Signature := signature\<rparr>"
    "appendClaimReviewTx db ops review = Inr ops'"
proof -
  have "post (\<lambda>(ops', review, duplicate). duplicate \<or> (\<exists>status signature.
      OperatorClaimStatus_query ops (ocri_DeploymentID input) = Inr status \<and>
      ocst_ClaimActionID status = ocri_ClaimActionID input \<and> ocst_VerificationState status = OperatorClaimStatePendingReview \<and>
      \<not> ocri_ReviewedAt input < ocst_SubmittedAt status \<and> valid_review_decision (ocri_Decision input) (ocri_ReasonCode input) \<and>
      review = (hashedClaimReview H input (newClaimReview input (fst (operatorClaimReviewHeadQuery ops))
        (fst (snd (operatorClaimReviewHeadQuery ops)))))\<lparr>ocrw_Signature := signature\<rparr> \<and>
      appendClaimReviewTx db ops review = Inr ops')) (DecideOperatorClaim H db ops input signReview)"
    unfolding DecideOperatorClaim_def by (intro post_intros) auto
  then show thesis using that assms by (auto dest: postD)
qed

lemma DecideOperatorClaim_duplicate:
  "DecideOperatorClaim H db ops input signReview = Inr (ops', review, True) \<Longrightarrow> ops' = ops"
proof -
  have "post (\<lambda>(ops', review, duplicate). duplicate \<longrightarrow> ops' = ops) (DecideOperatorClaim H db ops input signReview)"
    unfolding DecideOperatorClaim_def by (intro post_intros) auto
  then show "DecideOperatorClaim H db ops input signReview = Inr (ops', review, True) \<Longrightarrow> ops' = ops" by (auto dest: postD)
qed

lemma appendClaimReviewTx_Inr:
  assumes "appendClaimReviewTx db ops review = Inr ops'"
  shows "ops' = ops\<lparr>operator_claim_reviews := operator_claim_reviews ops @ [review],
      operator_claim_status := map (\<lambda>s. if cs_deployment_id s = ocrw_DeploymentID review \<and> cs_claim_action_id s = ocrw_ClaimActionID review \<and>
        cs_verification_state s = OperatorClaimStatePendingReview then decideStatusRow review s else s) (operator_claim_status ops),
      operator_claim_eligibility_current := map (\<lambda>e. if ec_deployment_id e = ocrw_DeploymentID review \<and>
        ec_claim_action_id e = ocrw_ClaimActionID review then decideEligibilityRow review e else e) (operator_claim_eligibility_current ops)\<rparr>"
    "ocrw_ClaimActionID review \<in> submission_ids ops"
proof -
  from assms obtain ops1 n sts m els where 1: "insert_claim_review db ops review = Inr ops1"
    and 2: "update_rows (claim_status_check db ops1) (\<lambda>s. cs_deployment_id s = ocrw_DeploymentID review \<and>
      cs_claim_action_id s = ocrw_ClaimActionID review \<and> cs_verification_state s = OperatorClaimStatePendingReview)
      (decideStatusRow review) (operator_claim_status ops1) = Inr (n, sts)"
    and 3: "update_rows (eligibility_current_check db ops1) (\<lambda>e. ec_deployment_id e = ocrw_DeploymentID review \<and>
      ec_claim_action_id e = ocrw_ClaimActionID review) (decideEligibilityRow review) (operator_claim_eligibility_current ops1) = Inr (m, els)"
    and 4: "ops' = ops1\<lparr>operator_claim_status := sts, operator_claim_eligibility_current := els\<rparr>"
    unfolding appendClaimReviewTx_def by (auto simp: result_simps split: if_split_asm)
  have "ops1 = ops\<lparr>operator_claim_reviews := operator_claim_reviews ops @ [review]\<rparr>" "ocrw_ClaimActionID review \<in> submission_ids ops"
    using 1 by (simp_all add: insert_claim_review_def Let_def split: if_split_asm)
  then show "ops' = ops\<lparr>operator_claim_reviews := operator_claim_reviews ops @ [review],
      operator_claim_status := map (\<lambda>s. if cs_deployment_id s = ocrw_DeploymentID review \<and> cs_claim_action_id s = ocrw_ClaimActionID review \<and>
        cs_verification_state s = OperatorClaimStatePendingReview then decideStatusRow review s else s) (operator_claim_status ops),
      operator_claim_eligibility_current := map (\<lambda>e. if ec_deployment_id e = ocrw_DeploymentID review \<and>
        ec_claim_action_id e = ocrw_ClaimActionID review then decideEligibilityRow review e else e) (operator_claim_eligibility_current ops)\<rparr>"
    "ocrw_ClaimActionID review \<in> submission_ids ops"
    using update_rows_Inr [OF 2] update_rows_Inr [OF 3] 4 by simp_all
qed

lemma DecideOperatorClaim_claims_ok:
  assumes "claims_ok ops" "DecideOperatorClaim H db ops input signReview = Inr (ops', review, duplicate)"
  shows "claims_ok ops'"
proof (cases duplicate)
  case True
  then show ?thesis using assms DecideOperatorClaim_duplicate [of H db ops input signReview ops' review] by simp
next
  case False
  then have fr: "DecideOperatorClaim H db ops input signReview = Inr (ops', review, False)" using assms(2) by simp
  have base: "base_ok ops" and refs: "refs_ok ops"
    and st: "operator_claim_status ops = map (table_status (operator_claim_reviews ops)) (claim_base ops)"
    and el: "operator_claim_eligibility_current ops =
      map (table_eligibility (operator_claim_reviews ops) (operator_claim_eligibility_events ops)) (claim_base ops)"
    using assms(1) by (simp_all add: claims_ok_def)
  obtain status signature where q: "OperatorClaimStatus_query ops (ocri_DeploymentID input) = Inr status"
    "ocst_ClaimActionID status = ocri_ClaimActionID input" "ocst_VerificationState status = OperatorClaimStatePendingReview"
    "\<not> ocri_ReviewedAt input < ocst_SubmittedAt status" "valid_review_decision (ocri_Decision input) (ocri_ReasonCode input)"
    and rv: "review = (hashedClaimReview H input (newClaimReview input (fst (operatorClaimReviewHeadQuery ops))
       (fst (snd (operatorClaimReviewHeadQuery ops)))))\<lparr>ocrw_Signature := signature\<rparr>"
    and app: "appendClaimReviewTx db ops review = Inr ops'"
    by (rule DecideOperatorClaim_fresh [OF fr]) (rule that)
  obtain s where s: "s \<in> set (claim_base ops)" "ocst_DeploymentID s = ocri_DeploymentID input"
    and sel: "status = operatorClaimStatusSelect ops (table_status (operator_claim_reviews ops) s)"
    by (rule OperatorClaimStatus_query_Inr [OF assms(1) q(1)]) (rule that)
  note ops' = appendClaimReviewTx_Inr [OF app]
  have fields: "ocrw_DeploymentID review = ocri_DeploymentID input" "ocrw_ClaimActionID review = ocri_ClaimActionID input"
    "ocrw_Decision review = ocri_Decision input" "ocrw_ReviewedAt review = ocri_ReviewedAt input"
    by (simp_all add: rv hashedClaimReview_def newClaimReview_def)
  have sb: "base_status s" using base_okD(3) [OF base] s(1) by blast
  have dec: "ocrw_Decision review \<in> {OperatorClaimReviewApproved, OperatorClaimReviewRejected}"
    using q(5) by (auto simp: fields valid_review_decision_def)
  have at: "ocrw_ReviewedAt review \<noteq> []"
    using q(4) sb by (cases "ocst_SubmittedAt s") (auto simp: fields sel table_status_def base_status_def)
  have pend: "ocst_VerificationState (reviewed_status (operator_claim_reviews ops) s) = OperatorClaimStatePendingReview"
    using q(3) by (simp add: sel table_status_def)
  then have none: "review_of (operator_claim_reviews ops) (ocst_ClaimActionID s) = None"
    and ps: "ocst_VerificationState s = OperatorClaimStatePendingReview"
    using reviewed_status_pending [OF _ sb] refs by (simp_all add: refs_ok_def)
  then have "decision_of (operator_claim_eligibility_events ops) (ocst_ClaimActionID s) = None"
    using refs by (auto simp: of_None_iff refs_ok_def)
  moreover have cl: "ocrw_ClaimActionID review = ocst_ClaimActionID s" using q(2) by (simp add: fields sel)
  ultimately have upd:
    "table_status (operator_claim_reviews ops @ [review]) s = decideStatusRow review (table_status (operator_claim_reviews ops) s)"
    "table_eligibility (operator_claim_reviews ops @ [review]) (operator_claim_eligibility_events ops) s =
      decideEligibilityRow review (table_eligibility (operator_claim_reviews ops) (operator_claim_eligibility_events ops) s)"
    using table_reviewed [OF sb ps none _ _ at dec] by blast+
  have other: "ocst_ClaimActionID x \<noteq> ocrw_ClaimActionID review" if "x \<in> set (claim_base ops)" "x \<noteq> s" for x
    using that s(1) cl base_okD(2) [OF base] by (auto simp: distinct_map inj_on_def)
  have cb: "claim_base ops' = claim_base ops" by (simp add: claim_base_def ops'(1))
  have "base_ok ops'" using base by (simp add: base_ok_def cb) (simp add: ops'(1))
  moreover have "refs_ok ops'" using refs ops'(2) at dec none cl unfolding refs_ok_def by (auto simp: ops'(1) of_None_iff)
  moreover have "map (\<lambda>s. if cs_deployment_id s = ocrw_DeploymentID review \<and> cs_claim_action_id s = ocrw_ClaimActionID review \<and>
        cs_verification_state s = OperatorClaimStatePendingReview then decideStatusRow review s else s)
      (map (table_status (operator_claim_reviews ops)) (claim_base ops)) = map (table_status (operator_claim_reviews ops @ [review])) (claim_base ops)"
    by (rule map_update_one [of _ s]) (use pend other upd(1) s(2) cl in \<open>simp_all add: fields table_status_def reviewed_status_other\<close>)
  moreover have "map (\<lambda>e. if ec_deployment_id e = ocrw_DeploymentID review \<and> ec_claim_action_id e = ocrw_ClaimActionID review
        then decideEligibilityRow review e else e)
      (map (table_eligibility (operator_claim_reviews ops) (operator_claim_eligibility_events ops)) (claim_base ops)) =
      map (table_eligibility (operator_claim_reviews ops @ [review]) (operator_claim_eligibility_events ops)) (claim_base ops)"
    by (rule map_update_one [of _ s]) (use other upd(2) s(2) cl in \<open>simp_all add: fields table_eligibility_def reviewed_status_other\<close>)
  ultimately show ?thesis by (simp add: claims_ok_def cb ops'(1) st el del: map_map)
qed

lemma DecideOperatorClaimEligibility_fresh:
  assumes "DecideOperatorClaimEligibility H db ops input signDecision = Inr (ops', decision, False)"
  obtains status current signature where "OperatorClaimStatus_query ops (ocei_DeploymentID input) = Inr status"
    "ocst_ClaimActionID status = ocei_ClaimActionID input" "ocst_VerificationState status = OperatorClaimStateApproved"
    "current_eligibility ops (ocei_DeploymentID input) = Some current"
    "\<not> ocei_DecidedAt input < ocst_ApprovedAt status"
    "valid_eligibility_decision (ocei_Decision input) (ocei_ReasonCode input)"
    "decision = (hashedClaimEligibility H input (newClaimEligibility input (fst (operatorClaimEligibilityHeadQuery ops))
       (fst (snd (operatorClaimEligibilityHeadQuery ops)))))\<lparr>oce_Signature := signature\<rparr>"
    "appendEligibilityTx db ops decision (ec_eligibility_state current) = Inr ops'"
proof -
  have "post (\<lambda>(ops', decision, duplicate). duplicate \<or> (\<exists>status current signature.
      OperatorClaimStatus_query ops (ocei_DeploymentID input) = Inr status \<and>
      ocst_ClaimActionID status = ocei_ClaimActionID input \<and> ocst_VerificationState status = OperatorClaimStateApproved \<and>
      current_eligibility ops (ocei_DeploymentID input) = Some current \<and>
      \<not> ocei_DecidedAt input < ocst_ApprovedAt status \<and> valid_eligibility_decision (ocei_Decision input) (ocei_ReasonCode input) \<and>
      decision = (hashedClaimEligibility H input (newClaimEligibility input (fst (operatorClaimEligibilityHeadQuery ops))
        (fst (snd (operatorClaimEligibilityHeadQuery ops)))))\<lparr>oce_Signature := signature\<rparr> \<and>
      appendEligibilityTx db ops decision (ec_eligibility_state current) = Inr ops'))
    (DecideOperatorClaimEligibility H db ops input signDecision)"
    unfolding DecideOperatorClaimEligibility_def by (intro post_intros) auto
  then show thesis using that assms by (auto dest: postD)
qed

lemma DecideOperatorClaimEligibility_duplicate:
  "DecideOperatorClaimEligibility H db ops input signDecision = Inr (ops', decision, True) \<Longrightarrow> ops' = ops"
proof -
  have "post (\<lambda>(ops', decision, duplicate). duplicate \<longrightarrow> ops' = ops) (DecideOperatorClaimEligibility H db ops input signDecision)"
    unfolding DecideOperatorClaimEligibility_def by (intro post_intros) auto
  then show "DecideOperatorClaimEligibility H db ops input signDecision = Inr (ops', decision, True) \<Longrightarrow> ops' = ops" by (auto dest: postD)
qed

lemma appendEligibilityTx_Inr:
  assumes "appendEligibilityTx db ops decision currentState = Inr ops'"
  shows "ops' = ops\<lparr>operator_claim_eligibility_events := operator_claim_eligibility_events ops @ [decision],
      operator_claim_eligibility_current := map (\<lambda>e. if ec_deployment_id e = oce_DeploymentID decision \<and>
        ec_claim_action_id e = oce_ClaimActionID decision \<and> ec_eligibility_state e = currentState then suspendRow decision e else e)
        (operator_claim_eligibility_current ops)\<rparr>" (is "_ = ?ops'")
    "oce_EligibilityID decision \<noteq> []"
proof -
  from assms obtain ops1 n els where 1: "insert_eligibility_event db ops decision = Inr ops1"
    and 2: "update_rows (eligibility_current_check db ops1) (\<lambda>e. ec_deployment_id e = oce_DeploymentID decision \<and>
      ec_claim_action_id e = oce_ClaimActionID decision \<and> ec_eligibility_state e = currentState) (suspendRow decision)
      (operator_claim_eligibility_current ops1) = Inr (n, els)"
    and 3: "n = 1" "ops' = ops1\<lparr>operator_claim_eligibility_current := els\<rparr>"
    unfolding appendEligibilityTx_def by (auto simp: result_simps split: if_split_asm)
  have o1: "ops1 = ops\<lparr>operator_claim_eligibility_events := operator_claim_eligibility_events ops @ [decision]\<rparr>"
    and pos: "oce_EligibilityIndex decision > 0"
    using 1 by (simp_all add: insert_eligibility_event_def Let_def split: if_split_asm)
  then show "ops' = ?ops'" using update_rows_Inr [OF 2] 3 by simp
  have "filter (\<lambda>e. ec_deployment_id e = oce_DeploymentID decision \<and> ec_claim_action_id e = oce_ClaimActionID decision \<and>
      ec_eligibility_state e = currentState) (operator_claim_eligibility_current ops1) \<noteq> []" using update_rows_Inr [OF 2] 3(1) by auto
  then obtain e where "e \<in> set (operator_claim_eligibility_current ops1)" "ec_deployment_id e = oce_DeploymentID decision \<and>
      ec_claim_action_id e = oce_ClaimActionID decision \<and> ec_eligibility_state e = currentState"
    by (auto simp: filter_empty_conv)
  then have "eligibility_current_check db ops1 (suspendRow decision e)" using update_rows_Inr [OF 2] by blast
  then show "oce_EligibilityID decision \<noteq> []" using pos by (auto simp: eligibility_current_check_def suspendRow_def)
qed

text \<open>A decision on an approved claim, and what it adds to its row.\<close>

lemma reviewed_status_approved:
  assumes "ocst_VerificationState (reviewed_status reviews s) = OperatorClaimStateApproved" "base_status s"
  obtains r where "review_of reviews (ocst_ClaimActionID s) = Some r" "ocst_VerificationState s = OperatorClaimStatePendingReview"
    "ocrw_Decision r = OperatorClaimReviewApproved" "ocst_ApprovedAt (reviewed_status reviews s) = ocrw_ReviewedAt r"
    "ocst_UpdatedAt (reviewed_status reviews s) = ocrw_ReviewedAt r"
proof (cases "review_of reviews (ocst_ClaimActionID s)")
  case None
  then show thesis using assms by (auto simp: reviewed_status_def base_status_def claim_distinct)
next
  case (Some r)
  have "ocst_VerificationState s = OperatorClaimStatePendingReview \<and> ocrw_Decision r = OperatorClaimReviewApproved"
    using assms Some by (auto simp: reviewed_status_def base_status_def Let_def claim_distinct split: if_split_asm)
  then show thesis using Some by (intro that [of r]) (simp_all add: reviewed_status_def)
qed

lemma table_decided:
  assumes "ocst_VerificationState (reviewed_status reviews s) = OperatorClaimStateApproved" "base_status s"
    and "\<not> oce_DecidedAt d < ocst_ApprovedAt (reviewed_status reviews s)" "oce_ClaimActionID d = ocst_ClaimActionID s" "oce_EligibilityID d \<noteq> []"
    and "oce_Decision d \<in> {OperatorClaimEligibilitySuspend, OperatorClaimEligibilityReinstate}"
  shows "table_eligibility reviews (decisions @ [d]) s = suspendRow d (table_eligibility reviews decisions s)"
proof -
  have "ocst_ApprovedAt (reviewed_status reviews s) = ocst_UpdatedAt (reviewed_status reviews s)"
    by (rule reviewed_status_approved [OF assms(1,2)]) simp
  then have "(if ocst_UpdatedAt (reviewed_status reviews s) < oce_DecidedAt d then oce_DecidedAt d
      else ocst_UpdatedAt (reviewed_status reviews s)) = oce_DecidedAt d" using assms(3) by auto
  then show ?thesis using assms
    by (cases "decision_of decisions (ocst_ClaimActionID s)")
      (auto simp: table_eligibility_def suspendRow_def expectedOperatorClaimEligibilityCurrent_def Let_def claim_distinct)
qed

lemma DecideOperatorClaimEligibility_claims_ok:
  assumes "claims_ok ops" "DecideOperatorClaimEligibility H db ops input signDecision = Inr (ops', decision, duplicate)"
  shows "claims_ok ops'"
proof (cases duplicate)
  case True
  then show ?thesis using assms DecideOperatorClaimEligibility_duplicate [of H db ops input signDecision ops' decision] by simp
next
  case False
  then have fr: "DecideOperatorClaimEligibility H db ops input signDecision = Inr (ops', decision, False)" using assms(2) by simp
  have base: "base_ok ops" and refs: "refs_ok ops"
    and st: "operator_claim_status ops = map (table_status (operator_claim_reviews ops)) (claim_base ops)"
    and el: "operator_claim_eligibility_current ops =
      map (table_eligibility (operator_claim_reviews ops) (operator_claim_eligibility_events ops)) (claim_base ops)"
    using assms(1) by (simp_all add: claims_ok_def)
  obtain status current signature where q: "OperatorClaimStatus_query ops (ocei_DeploymentID input) = Inr status"
    "ocst_ClaimActionID status = ocei_ClaimActionID input" "ocst_VerificationState status = OperatorClaimStateApproved"
    and cur: "current_eligibility ops (ocei_DeploymentID input) = Some current"
    and q2: "\<not> ocei_DecidedAt input < ocst_ApprovedAt status" "valid_eligibility_decision (ocei_Decision input) (ocei_ReasonCode input)"
    and dc: "decision = (hashedClaimEligibility H input (newClaimEligibility input (fst (operatorClaimEligibilityHeadQuery ops))
       (fst (snd (operatorClaimEligibilityHeadQuery ops)))))\<lparr>oce_Signature := signature\<rparr>"
    and app: "appendEligibilityTx db ops decision (ec_eligibility_state current) = Inr ops'"
    by (rule DecideOperatorClaimEligibility_fresh [OF fr]) (rule that)
  obtain s where s: "s \<in> set (claim_base ops)" "ocst_DeploymentID s = ocei_DeploymentID input"
    and sel: "status = operatorClaimStatusSelect ops (table_status (operator_claim_reviews ops) s)"
    by (rule OperatorClaimStatus_query_Inr [OF assms(1) q(1)]) (rule that)
  note ops' = appendEligibilityTx_Inr [OF app]
  have fields: "oce_DeploymentID decision = ocei_DeploymentID input" "oce_ClaimActionID decision = ocei_ClaimActionID input"
    "oce_Decision decision = ocei_Decision input" "oce_DecidedAt decision = ocei_DecidedAt input"
    by (simp_all add: dc hashedClaimEligibility_def newClaimEligibility_def)
  have sb: "base_status s" using base_okD(3) [OF base] s(1) by blast
  have dec: "oce_Decision decision \<in> {OperatorClaimEligibilitySuspend, OperatorClaimEligibilityReinstate}"
    using q2(2) by (auto simp: fields valid_eligibility_decision_def)
  have appr: "ocst_VerificationState (reviewed_status (operator_claim_reviews ops) s) = OperatorClaimStateApproved"
    using q(3) by (simp add: sel table_status_def)
  have cl: "oce_ClaimActionID decision = ocst_ClaimActionID s" using q(2) by (simp add: fields sel)
  have "\<not> oce_DecidedAt decision < ocst_ApprovedAt (reviewed_status (operator_claim_reviews ops) s)"
    using q2(1) by (simp add: fields sel table_status_def)
  note upd = table_decided [OF appr sb this cl ops'(2) dec]
  have "review_of (operator_claim_reviews ops) (ocst_ClaimActionID s) \<noteq> None" by (rule reviewed_status_approved [OF appr sb]) simp
  then have rev: "oce_ClaimActionID decision \<in> ocrw_ClaimActionID ` set (operator_claim_reviews ops)" using cl by (simp add: of_None_iff)
  have "find (\<lambda>e. ec_deployment_id e = ocst_DeploymentID s) (operator_claim_eligibility_current ops) =
      Some (table_eligibility (operator_claim_reviews ops) (operator_claim_eligibility_events ops) s)"
    using find_key [of ec_deployment_id "operator_claim_eligibility_current ops"
      "table_eligibility (operator_claim_reviews ops) (operator_claim_eligibility_events ops) s"] base_okD(1) [OF base] s(1) by (simp add: el comp_def)
  then have cs: "current = table_eligibility (operator_claim_reviews ops) (operator_claim_eligibility_events ops) s"
    using cur by (simp add: current_eligibility_def s(2))
  have other: "ocst_ClaimActionID x \<noteq> oce_ClaimActionID decision" if "x \<in> set (claim_base ops)" "x \<noteq> s" for x
    using that s(1) cl base_okD(2) [OF base] by (auto simp: distinct_map inj_on_def)
  have cb: "claim_base ops' = claim_base ops" by (simp add: claim_base_def ops'(1))
  have "base_ok ops'" using base by (simp add: base_ok_def cb) (simp add: ops'(1))
  moreover have "refs_ok ops'" using refs ops'(2) rev dec unfolding refs_ok_def by (auto simp: ops'(1))
  moreover have "map (\<lambda>e. if ec_deployment_id e = oce_DeploymentID decision \<and> ec_claim_action_id e = oce_ClaimActionID decision \<and>
        ec_eligibility_state e = ec_eligibility_state current then suspendRow decision e else e)
      (map (table_eligibility (operator_claim_reviews ops) (operator_claim_eligibility_events ops)) (claim_base ops)) =
      map (table_eligibility (operator_claim_reviews ops) (operator_claim_eligibility_events ops @ [decision])) (claim_base ops)"
    by (rule map_update_one [of _ s]) (use other other [THEN not_sym] upd s(2) cl cs in \<open>simp_all add: fields table_eligibility_def\<close>)
  ultimately show ?thesis by (simp add: claims_ok_def cb ops'(1) st el del: map_map)
qed

subsection \<open>The checks accept the tables\<close>

lemma current_eligibility_base:
  assumes "claims_ok ops" "s \<in> set (claim_base ops)"
  shows "current_eligibility ops (ocst_DeploymentID s) =
    Some (table_eligibility (operator_claim_reviews ops) (operator_claim_eligibility_events ops) s)"
  using find_key [of ec_deployment_id "operator_claim_eligibility_current ops"
      "table_eligibility (operator_claim_reviews ops) (operator_claim_eligibility_events ops) s"] assms
  by (simp add: claims_ok_def base_ok_def current_eligibility_def comp_def)

lemma eligibility_status_simps [simp]:
  "ocst_DeploymentID (eligibility_status decisions s) = ocst_DeploymentID s"
  "ocst_ClaimActionID (eligibility_status decisions s) = ocst_ClaimActionID s"
  "ocst_VerificationState (eligibility_status decisions s) = ocst_VerificationState s" "ocst_GroupID (eligibility_status decisions s) = ocst_GroupID s"
  "ocst_LegalName (eligibility_status decisions s) = ocst_LegalName s" "ocst_ApprovedAt (eligibility_status decisions s) = ocst_ApprovedAt s"
  "ocst_ReviewIndex (eligibility_status decisions s) = ocst_ReviewIndex s" "ocst_ReviewHash (eligibility_status decisions s) = ocst_ReviewHash s"
  "ocst_UpdatedAt (eligibility_status decisions s) = ocst_UpdatedAt s" "ocst_ClaimAuditIndex (eligibility_status decisions s) = ocst_ClaimAuditIndex s"
  "ocst_ClaimAuditHash (eligibility_status decisions s) = ocst_ClaimAuditHash s"
  by (simp_all add: eligibility_status_def Let_def split: option.split)

lemma select_expected:
  assumes "claims_ok ops" "s \<in> set (claim_base ops)"
  shows "operatorClaimStatusSelect ops (table_status (operator_claim_reviews ops) s) =
    eligibility_status (operator_claim_eligibility_events ops) (reviewed_status (operator_claim_reviews ops) s)"
proof -
  have b: "base_status s" using assms by (simp add: claims_ok_def base_ok_def)
  have "oce_EligibilityID d \<noteq> []" if "decision_of (operator_claim_eligibility_events ops) a = Some d" for a d
    using assms(1) of_SomeD(2) [OF that] by (auto simp: claims_ok_def refs_ok_def)
  then show ?thesis using b
    by (cases "decision_of (operator_claim_eligibility_events ops) (ocst_ClaimActionID s)")
      (auto simp: operatorClaimStatusSelect_def current_eligibility_base [OF assms] Let_def table_status_def status_row_def
        table_eligibility_def expectedOperatorClaimEligibilityCurrent_def eligibility_status_def base_status_def)
qed

lemma expectedCurrent_eligibility_status:
  "expectedOperatorClaimEligibilityCurrent (eligibility_status decisions s) d = expectedOperatorClaimEligibilityCurrent s d"
  by (simp add: expectedOperatorClaimEligibilityCurrent_def)

text \<open>The tables pass the check of the claim tables, with the logs themselves as the verified actions, reviews and decisions.\<close>

definition claim_rows_verified :: "operator_tables \<Rightarrow> bool" where
  "claim_rows_verified ops \<longleftrightarrow> verifyOperatorClaimStatusRows ops (operator_audit_events ops)
     (operator_claim_verification_submissions ops) (operator_claim_reviews ops) (operator_claim_eligibility_events ops) = Inr ()"

lemma claims_ok_verified:
  assumes "network_ok H ops" "claims_ok ops"
  shows "claim_rows_verified ops"
proof -
  let ?ex = "\<lambda>s. eligibility_status (operator_claim_eligibility_events ops) (reviewed_status (operator_claim_reviews ops) s)"
  have "sort_key oae_AuditIndex (operator_audit_events ops) = operator_audit_events ops"
    using assms(1) event_chain_sorted [of H oae_AuditIndex] by (intro sort_key_id_if_sorted) (auto simp: network_ok_def)
  then have ex: "expected_statuses (operator_audit_events ops) (operator_claim_verification_submissions ops) (operator_claim_reviews ops)
      (operator_claim_eligibility_events ops) = map ?ex (claim_base ops)"
    by (simp add: expected_statuses_def claim_base_def)
  have d: "distinct (map ocst_DeploymentID (map ?ex (claim_base ops)))" using assms(2) by (simp add: claims_ok_def base_ok_def comp_def)
  have f: "find (\<lambda>x. ocst_DeploymentID x = ocst_DeploymentID s) (map ?ex (claim_base ops)) = Some (?ex s)" if "s \<in> set (claim_base ops)" for s
    using find_key [OF d, of "?ex s"] that by simp
  have st: "operator_claim_status ops = map (table_status (operator_claim_reviews ops)) (claim_base ops)"
    and el: "operator_claim_eligibility_current ops =
      map (table_eligibility (operator_claim_reviews ops) (operator_claim_eligibility_events ops)) (claim_base ops)"
    using assms(2) by (simp_all add: claims_ok_def)
  have ac: "map (operatorClaimStatusSelect ops) (operator_claim_status ops) = map ?ex (claim_base ops)"
    using select_expected [OF assms(2)] by (simp add: st)
  have "verifyOperatorClaimEligibilityCurrentRows ops (map ?ex (claim_base ops)) (operator_claim_eligibility_events ops) = Inr ()"
    by (simp add: verifyOperatorClaimEligibilityCurrentRows_def el list_all_iff f expectedCurrent_eligibility_status table_eligibility_def)
  then show ?thesis
    by (simp add: claim_rows_verified_def verifyOperatorClaimStatusRows_def ex ac list_all_iff f Let_def del: map_map)
qed

subsection \<open>The operator network as a state machine\<close>

text \<open>
  One step is one accepted call of the store.  The tables of deployments and transfers are arguments of every step: other
  components may change them in between.  The logs of reviews and decisions are chains under the scope of the registry.
\<close>

abbreviation review_message :: "string \<Rightarrow> OperatorClaimReview \<Rightarrow> bytes" where
  "review_message scope r \<equiv> OperatorClaimReviewHashMessage (operatorClaimReviewReceipt r scope)"

abbreviation decision_message :: "string \<Rightarrow> OperatorClaimEligibility \<Rightarrow> bytes" where
  "decision_message scope d \<equiv> OperatorClaimEligibilityHashMessage (operatorClaimEligibilityReceipt d scope)"

abbreviation review_chain :: "(bytes \<Rightarrow> bytes) \<Rightarrow> string \<Rightarrow> OperatorClaimReview list \<Rightarrow> bool" where
  "review_chain H scope \<equiv> event_chain H ocrw_ReviewIndex ocrw_PreviousReviewHash ocrw_ReviewHash (review_message scope)"

abbreviation decision_chain :: "(bytes \<Rightarrow> bytes) \<Rightarrow> string \<Rightarrow> OperatorClaimEligibility list \<Rightarrow> bool" where
  "decision_chain H scope \<equiv> event_chain H oce_EligibilityIndex oce_PreviousEligibilityHash oce_EligibilityHash (decision_message scope)"

inductive operator_step :: "(bytes \<Rightarrow> bytes) \<Rightarrow> string \<Rightarrow> operator_tables \<Rightarrow> operator_tables \<Rightarrow> bool" for H scope where
  action: "AppendOperatorAction H db transfers ops input signReceipt = Inr (ops', event, duplicate) \<Longrightarrow> operator_step H scope ops ops'"
| review: "DecideOperatorClaim H db ops input' signReview = Inr (ops', review, duplicate) \<Longrightarrow> ocri_RegistryScope input' = scope \<Longrightarrow>
    operator_step H scope ops ops'"
| eligibility: "DecideOperatorClaimEligibility H db ops input'' signDecision = Inr (ops', decision, duplicate) \<Longrightarrow>
    ocei_RegistryScope input'' = scope \<Longrightarrow> operator_step H scope ops ops'"

text \<open>The logs hold fewer than \<open>2 ^ 62\<close> events, so that the 64-bit indexes do not wrap around.\<close>

definition logs_bounded :: "operator_tables \<Rightarrow> bool" where
  "logs_bounded ops \<longleftrightarrow> length (operator_audit_events ops) < 2 ^ 62 \<and> length (operator_claim_reviews ops) < 2 ^ 62 \<and>
     length (operator_claim_eligibility_events ops) < 2 ^ 62"

inductive operator_reachable :: "(bytes \<Rightarrow> bytes) \<Rightarrow> string \<Rightarrow> operator_tables \<Rightarrow> bool" for H scope where
  start: "operator_reachable H scope empty_operators"
| step: "operator_reachable H scope ops \<Longrightarrow> logs_bounded ops \<Longrightarrow> operator_step H scope ops ops' \<Longrightarrow> operator_reachable H scope ops'"

definition operators_ok :: "(bytes \<Rightarrow> bytes) \<Rightarrow> string \<Rightarrow> operator_tables \<Rightarrow> bool" where
  "operators_ok H scope ops \<longleftrightarrow> network_ok H ops \<and> claims_ok ops \<and> review_chain H scope (operator_claim_reviews ops) \<and>
     decision_chain H scope (operator_claim_eligibility_events ops)"

lemma AppendOperatorAction_other_logs:
  assumes "AppendOperatorAction H db transfers ops input signReceipt = Inr (ops', event, duplicate)"
  shows "operator_claim_reviews ops' = operator_claim_reviews ops" "operator_claim_eligibility_events ops' = operator_claim_eligibility_events ops"
proof -
  have "operator_claim_reviews ops' = operator_claim_reviews ops \<and> operator_claim_eligibility_events ops' = operator_claim_eligibility_events ops"
    using assms
  proof (cases rule: AppendOperatorAction_cases)
    case retry
    then show ?thesis using insert_frames(2) [OF retry(5) [unfolded insertOperatorNonceTx_def]] by simp
  next
    case fresh
    then show ?thesis by (rule_tac appendOperatorEventTx_Inr [OF fresh(7)]) simp
  qed simp
  then show "operator_claim_reviews ops' = operator_claim_reviews ops" "operator_claim_eligibility_events ops' = operator_claim_eligibility_events ops"
    by simp_all
qed

lemma DecideOperatorClaim_logs:
  assumes "DecideOperatorClaim H db ops input signReview = Inr (ops', review, duplicate)" "review_chain H (ocri_RegistryScope input) (operator_claim_reviews ops)"
    and "length (operator_claim_reviews ops) < 2 ^ 62"
  shows "review_chain H (ocri_RegistryScope input) (operator_claim_reviews ops') \<and> operator_audit_events ops' = operator_audit_events ops \<and>
    operator_network_state_rows ops' = operator_network_state_rows ops \<and> operator_claim_eligibility_events ops' = operator_claim_eligibility_events ops"
proof (cases duplicate)
  case True
  then show ?thesis using assms DecideOperatorClaim_duplicate [of H db ops input signReview ops' review] by simp
next
  case False
  then have fr: "DecideOperatorClaim H db ops input signReview = Inr (ops', review, False)" using assms(1) by simp
  obtain signature where rv: "review = (hashedClaimReview H input (newClaimReview input (fst (operatorClaimReviewHeadQuery ops))
       (fst (snd (operatorClaimReviewHeadQuery ops)))))\<lparr>ocrw_Signature := signature\<rparr>"
    and app: "appendClaimReviewTx db ops review = Inr ops'"
    by (rule DecideOperatorClaim_fresh [OF fr]) (rule that)
  have "review_chain H (ocri_RegistryScope input) (operator_claim_reviews ops @ [review])"
    by (rule event_chain_append_head [OF assms(2,3)])
      (auto simp: rv hashedClaimReview_def newClaimReview_def operatorClaimReviewHeadQuery_def OperatorClaimReviewZeroHash_def
        operatorClaimReviewReceipt_def OperatorClaimReviewHashMessage_def split: option.split)
  then show ?thesis by (simp add: appendClaimReviewTx_Inr(1) [OF app])
qed

lemma DecideOperatorClaimEligibility_logs:
  assumes "DecideOperatorClaimEligibility H db ops input signDecision = Inr (ops', decision, duplicate)"
    and "decision_chain H (ocei_RegistryScope input) (operator_claim_eligibility_events ops)" "length (operator_claim_eligibility_events ops) < 2 ^ 62"
  shows "decision_chain H (ocei_RegistryScope input) (operator_claim_eligibility_events ops') \<and> operator_audit_events ops' = operator_audit_events ops \<and>
    operator_network_state_rows ops' = operator_network_state_rows ops \<and> operator_claim_reviews ops' = operator_claim_reviews ops"
proof (cases duplicate)
  case True
  then show ?thesis using assms DecideOperatorClaimEligibility_duplicate [of H db ops input signDecision ops' decision] by simp
next
  case False
  then have fr: "DecideOperatorClaimEligibility H db ops input signDecision = Inr (ops', decision, False)" using assms(1) by simp
  obtain current :: eligibility_current_row and signature where rv: "decision = (hashedClaimEligibility H input (newClaimEligibility input (fst (operatorClaimEligibilityHeadQuery ops))
       (fst (snd (operatorClaimEligibilityHeadQuery ops)))))\<lparr>oce_Signature := signature\<rparr>"
    and app: "appendEligibilityTx db ops decision (ec_eligibility_state current) = Inr ops'"
    by (rule DecideOperatorClaimEligibility_fresh [OF fr]) (rule that)
  have "decision_chain H (ocei_RegistryScope input) (operator_claim_eligibility_events ops @ [decision])"
    by (rule event_chain_append_head [OF assms(2,3)])
      (auto simp: rv hashedClaimEligibility_def newClaimEligibility_def operatorClaimEligibilityHeadQuery_def OperatorClaimEligibilityZeroHash_def
        operatorClaimEligibilityReceipt_def OperatorClaimEligibilityHashMessage_def split: option.split)
  then show ?thesis by (simp add: appendEligibilityTx_Inr(1) [OF app])
qed

lemma operator_step_ok:
  assumes "operator_step H scope ops ops'" "operators_ok H scope ops" "logs_bounded ops"
  shows "operators_ok H scope ops'"
  using assms(1)
proof cases
  case (action db transfers input signReceipt event duplicate)
  then show ?thesis using assms(2,3) AppendOperatorAction_network [OF _ _ action] AppendOperatorAction_claims_ok [OF _ _ _ action]
      AppendOperatorAction_other_logs [OF action] by (simp add: operators_ok_def logs_bounded_def)
next
  case (review db input signReview review' duplicate)
  then show ?thesis using assms(2,3) DecideOperatorClaim_logs [OF review(1)] DecideOperatorClaim_claims_ok [OF _ review(1)]
    by (simp add: operators_ok_def logs_bounded_def network_ok_def)
next
  case (eligibility db input signDecision decision duplicate)
  then show ?thesis using assms(2,3) DecideOperatorClaimEligibility_logs [OF eligibility(1)] DecideOperatorClaimEligibility_claims_ok [OF _ eligibility(1)]
    by (simp add: operators_ok_def logs_bounded_def network_ok_def)
qed

lemma empty_operators_ok: "operators_ok H scope empty_operators"
  by (simp add: operators_ok_def claims_ok_def base_ok_def refs_ok_def claim_base_def empty_operators_def network_ok_def initialNetworkState_def)

lemma operator_reachable_ok: "operator_reachable H scope ops \<Longrightarrow> operators_ok H scope ops"
  by (induction rule: operator_reachable.induct) (simp_all add: empty_operators_ok operator_step_ok)

lemmas operator_chains_defs = operators_ok_def network_ok_def

text \<open>What the two tables say about one deployment, in terms of the logs.\<close>

lemma eligibility_state_cases:
  assumes "claims_ok ops" "current_eligibility ops d = Some e"
  shows "ec_eligibility_state e =
    (if ons_Claimed (network_state (operator_audit_events ops) d) \<and>
        (\<exists>r. review_of (operator_claim_reviews ops) (ec_claim_action_id e) = Some r \<and> ocrw_Decision r = OperatorClaimReviewApproved)
     then if \<exists>x. decision_of (operator_claim_eligibility_events ops) (ec_claim_action_id e) = Some x \<and> oce_Decision x = OperatorClaimEligibilitySuspend
       then OperatorEligibilitySuspended else OperatorEligibilityActive
     else OperatorEligibilityInactive)"
proof -
  have base: "base_ok ops" and refs: "refs_ok ops" using assms(1) by (simp_all add: claims_ok_def)
  obtain s where s: "s \<in> set (claim_base ops)" "ocst_DeploymentID s = d"
    and e: "e = table_eligibility (operator_claim_reviews ops) (operator_claim_eligibility_events ops) s"
    using assms by (auto simp: current_eligibility_def claims_ok_def dest!: find_SomeD)
  have u: "x = s" if "x \<in> set (claim_base ops)" "ocst_DeploymentID x = d" for x
    using that s base_okD(1) [OF base] by (auto simp: distinct_map inj_on_def)
  then have c: "ons_Claimed (network_state (operator_audit_events ops) d) \<longleftrightarrow> ocst_VerificationState s = OperatorClaimStatePendingReview"
    unfolding base_okD(4) [OF base] using s by blast
  have "ocst_VerificationState s = OperatorClaimStatePendingReview \<or> ocst_VerificationState s = OperatorClaimStateWithdrawn"
    using base_okD(3) [OF base] s(1) by (simp add: base_status_def)
  then have v: "ocst_VerificationState (reviewed_status (operator_claim_reviews ops) s) = OperatorClaimStateApproved \<longleftrightarrow>
      ocst_VerificationState s = OperatorClaimStatePendingReview \<and>
      (\<exists>r. review_of (operator_claim_reviews ops) (ocst_ClaimActionID s) = Some r \<and> ocrw_Decision r = OperatorClaimReviewApproved)"
    by (cases "review_of (operator_claim_reviews ops) (ocst_ClaimActionID s)") (auto simp: reviewed_status_def Let_def claim_distinct)
  have "oce_EligibilityID x \<noteq> []" if "decision_of (operator_claim_eligibility_events ops) a = Some x" for a x
    using refs of_SomeD(2) [OF that] by (auto simp: refs_ok_def)
  then show ?thesis unfolding c e table_simps v [symmetric]
    by (cases "decision_of (operator_claim_eligibility_events ops) (ocst_ClaimActionID s)")
      (simp_all add: table_eligibility_def expectedOperatorClaimEligibilityCurrent_def Let_def)
qed

subsection \<open>Decisions and withdrawals that overlap in time\<close>

lemma verify_eligibility_loop_order:
  "verify_eligibility_loop C key keyID scope actions submissions reviews seen i h previousAt ds = Inr seen' \<Longrightarrow>
     d \<in> set ds \<Longrightarrow> \<exists>p. eligibility_order_ok actions reviews p d"
  by (induction ds arbitrary: seen i h previousAt) (auto split: if_split_asm)

lemma verify_eligibility_loop_result:
  "verify_eligibility_loop C key keyID scope actions submissions reviews seen i h previousAt ds = Inl err \<Longrightarrow> err = ErrInconsistentState"
  by (induction ds arbitrary: seen i h previousAt) (auto split: if_split_asm)

lemma superseded_decision_rejected:
  assumes "d \<in> set (operator_claim_eligibility_events ops)" "action_of actions (oce_ClaimActionID d) = Some claim"
    and "time_Parse_RFC3339Nano (oce_DecidedAt d) = Some decidedAt" "operatorClaimWasSupersededBefore actions claim decidedAt"
  shows "verifiedOperatorClaimEligibilityRows C key keyID scope ops actions submissions reviews = Inl ErrInconsistentState"
proof (cases "verifiedOperatorClaimEligibilityRows C key keyID scope ops actions submissions reviews")
  case (Inl err)
  then show ?thesis using verify_eligibility_loop_result by (simp add: verifiedOperatorClaimEligibilityRows_def)
next
  case (Inr seen)
  then obtain p where "eligibility_order_ok actions reviews p d"
    using verify_eligibility_loop_order assms(1) unfolding verifiedOperatorClaimEligibilityRows_def by (metis set_sort)
  then show ?thesis using assms(2-4) by (simp add: eligibility_order_ok_def split: option.splits)
qed

subsection \<open>Properties\<close>

text \<open>A claim is submitted, approved and suspended, and then withdrawn by a request that was dated before the suspension.  The toy
  hash only tells messages that contain the letter W from the others.\<close>

definition tag_hash :: "bytes \<Rightarrow> bytes" where
  "tag_hash m = replicate 32 (if CHR ''W'' \<in> set m then CHR ''b'' else CHR ''a'')"

definition tag_digest :: string where
  "tag_digest = ''sha256:6262626262626262626262626262626262626262626262626262626262626262''"

lemma Digest_tag: "Digest tag_hash m = (if CHR ''W'' \<in> set m then tag_digest else flat_digest)"
proof -
  have "hex_EncodeToString (replicate 32 (CHR ''b'')) = ''6262626262626262626262626262626262626262626262626262626262626262''" by code_simp
  then show ?thesis by (simp add: Digest_def tag_hash_def hex_flat flat_digest_def tag_digest_def)
qed

definition sample_review :: OperatorClaimReviewInput where
  "sample_review = \<lparr>ocri_RegistryScope = ''demo'', ocri_DeploymentID = ''dep'', ocri_ClaimActionID = ''opa_1'', ocri_GroupID = ''grp_1'',
     ocri_LegalName = ''Acme'', ocri_Decision = ''approved'', ocri_ReviewerID = ''r'', ocri_ReviewReference = ''ref'', ocri_ReasonCode = [],
     ocri_IdempotencyKey = ''rk'', ocri_CandidateReviewID = ''opr_1'', ocri_ReviewedAt = ''2026-01-02T00:00:02Z'', ocri_RegistryKeyID = ''k''\<rparr>"

definition sample_suspend :: OperatorClaimEligibilityInput where
  "sample_suspend = \<lparr>ocei_RegistryScope = ''demo'', ocei_DeploymentID = ''dep'', ocei_ClaimActionID = ''opa_1'', ocei_GroupID = ''grp_1'',
     ocei_LegalName = ''Acme'', ocei_Decision = ''suspend'', ocei_ActorID = ''a'', ocei_DecisionReference = ''ref'', ocei_ReasonCode = ''fraud'',
     ocei_IdempotencyKey = ''ek'', ocei_CandidateEligibilityID = ''ope_1'', ocei_DecidedAt = ''2026-01-02T00:00:05Z'', ocei_RegistryKeyID = ''k''\<rparr>"

definition sample_withdraw :: OperatorActionInput where
  "sample_withdraw = sample_claim\<lparr>oai_Action := ''withdraw-claim'', oai_Nonce := ''n2'', oai_IdempotencyKey := ''key2'',
     oai_CandidateActionID := ''opa_W'', oai_AcceptedAt := ''2026-01-02T00:00:03Z''\<rparr>"

abbreviation sample_sign :: "'x \<Rightarrow> bytes option" where
  "sample_sign \<equiv> \<lambda>_. Some (replicate 64 (CHR ''r''))"

abbreviation run_step :: "'s \<Rightarrow> store_error + 's \<times> 'x \<times> bool \<Rightarrow> 's" where
  "run_step s r \<equiv> (case r of Inl _ \<Rightarrow> s | Inr x \<Rightarrow> fst x)"

definition sample_ops1 :: operator_tables where
  "sample_ops1 = run_step empty_operators
     (AppendOperatorAction tag_hash sample_db empty_transfers empty_operators sample_claim sample_audit_signer)"

definition sample_ops2 :: operator_tables where
  "sample_ops2 = run_step empty_operators (DecideOperatorClaim tag_hash sample_db sample_ops1 sample_review sample_sign)"

definition sample_ops3 :: operator_tables where
  "sample_ops3 = run_step empty_operators
     (DecideOperatorClaimEligibility tag_hash sample_db sample_ops2 sample_suspend sample_sign)"

lemma sample_run_times:
  "time_Parse_RFC3339Nano ''2026-01-02T00:00:02Z'' = Some 1767312002000000000"
  "time_Parse_RFC3339Nano ''2026-01-02T00:00:03Z'' = Some 1767312003000000000"
  "time_Parse_RFC3339Nano ''2026-01-02T00:00:05Z'' = Some 1767312005000000000"
  by code_simp+

lemmas claim_eval = DecideOperatorClaim_def valid_review_decision_def operatorClaimReviewByIdempotencyTx_def OperatorClaimStatus_query_def
  operatorClaimStatusSelect_def current_eligibility_def operatorClaimReviewHeadQuery_def not_before_head_def newClaimReview_def hashedClaimReview_def
  appendClaimReviewTx_def insert_claim_review_def update_rows_def decideStatusRow_def decideEligibilityRow_def
  DecideOperatorClaimEligibility_def valid_eligibility_decision_def operatorClaimEligibilityByIdempotencyTx_def operatorClaimEligibilityHeadQuery_def
  newClaimEligibility_def hashedClaimEligibility_def appendEligibilityTx_def insert_eligibility_event_def suspendRow_def
  withdrawCurrentClaimTx_def

lemma sample_messages:
  "CHR ''W'' \<notin> set (FormatInt 1)" "CHR ''W'' \<notin> set (FormatInt 2)" "CHR ''W'' \<notin> set flat_digest" "CHR ''W'' \<notin> set ZeroHash"
  "IsOperatorClaimReviewReasonCode ''fraud''" "tag_digest \<noteq> flat_digest"
  "flat_digest \<noteq> ''sha256:0000000000000000000000000000000000000000000000000000000000000000''"
  by code_simp+

lemmas run_eval = operator_eval claim_eval sample_claim_def sample_review_def sample_suspend_def sample_withdraw_def sample_db_def empty_db_def
  empty_operators_def empty_transfers_def sample_identity_def sample_deployment_def sample_times sample_run_times Digest_tag i64_nonneg_id
  operatorEventMessage_def OperatorAuditMessage_def OperatorClaimPrivateRecordMessage_def canonical_def sample_messages
  OperatorClaimReviewHashMessage_def operatorClaimReviewReceipt_def OperatorClaimEligibilityHashMessage_def operatorClaimEligibilityReceipt_def
  IsOperatorClaimEligibilityReasonCode_def

text \<open>What the samples use of every state, evaluated once per state.\<close>

definition sample_facts1 :: "operator_tables \<Rightarrow> bool" where
  "sample_facts1 ops \<longleftrightarrow> logs_bounded ops \<and> \<not> isl (DecideOperatorClaim tag_hash sample_db ops sample_review sample_sign)"

definition sample_facts2 :: "operator_tables \<Rightarrow> bool" where
  "sample_facts2 ops \<longleftrightarrow> logs_bounded ops \<and> \<not> isl (DecideOperatorClaimEligibility tag_hash sample_db ops sample_suspend sample_sign)"

definition sample_facts3 :: "operator_tables \<Rightarrow> bool" where
  "sample_facts3 ops \<longleftrightarrow> logs_bounded ops \<and>
     (\<exists>ops' event. AppendOperatorAction tag_hash sample_db empty_transfers ops sample_withdraw sample_audit_signer = Inr (ops', event, False)) \<and>
     (\<exists>d \<in> set (operator_claim_eligibility_events ops). oce_ClaimActionID d = ''opa_1'' \<and> oce_DecidedAt d = ''2026-01-02T00:00:05Z'') \<and>
     (\<exists>claim. action_of (operator_audit_events ops) ''opa_1'' = Some claim \<and> oae_DeploymentID claim = ''dep'') \<and>
     (\<exists>e. current_eligibility ops ''dep'' = Some e \<and> ec_eligibility_state e = OperatorEligibilitySuspended)"

lemma sample_facts:
  "\<not> isl (AppendOperatorAction tag_hash sample_db empty_transfers empty_operators sample_claim sample_audit_signer)"
  "sample_facts1 sample_ops1" "sample_facts2 sample_ops2" "sample_facts3 sample_ops3"
  by (simp_all add: sample_facts1_def sample_facts2_def sample_facts3_def sample_ops3_def sample_ops2_def sample_ops1_def run_eval
    logs_bounded_def action_of_def cong: if_cong)

lemma sample_bounded: "logs_bounded empty_operators" "logs_bounded sample_ops1" "logs_bounded sample_ops2" "logs_bounded sample_ops3"
  using sample_facts(2-4)
  by (simp_all add: sample_facts1_def sample_facts2_def sample_facts3_def) (simp add: logs_bounded_def empty_operators_def)

lemmas sample_run = sample_facts(1) sample_facts(2) [unfolded sample_facts1_def, THEN conjunct2] sample_facts(3) [unfolded sample_facts2_def, THEN conjunct2]

lemma sample_run4:
  "\<exists>ops event. AppendOperatorAction tag_hash sample_db empty_transfers sample_ops3 sample_withdraw sample_audit_signer = Inr (ops, event, False)"
  "\<exists>d \<in> set (operator_claim_eligibility_events sample_ops3). oce_ClaimActionID d = ''opa_1'' \<and> oce_DecidedAt d = ''2026-01-02T00:00:05Z''"
  "\<exists>claim. action_of (operator_audit_events sample_ops3) ''opa_1'' = Some claim \<and> oae_DeploymentID claim = ''dep''"
  "\<exists>e. current_eligibility sample_ops3 ''dep'' = Some e \<and> ec_eligibility_state e = OperatorEligibilitySuspended"
  using sample_facts(4) unfolding sample_facts3_def by blast+

lemma run_step_Inr: "\<not> isl r \<Longrightarrow> \<exists>x b. r = Inr (run_step s r, x, b)"
  by (cases r) auto

lemma sample_reachable:
  "operator_reachable tag_hash ''demo'' sample_ops1" "operator_reachable tag_hash ''demo'' sample_ops2"
  "operator_reachable tag_hash ''demo'' sample_ops3"
proof -
  have scopes: "ocri_RegistryScope sample_review = ''demo''" "ocei_RegistryScope sample_suspend = ''demo''"
    by (simp_all add: sample_review_def sample_suspend_def)
  have s1: "operator_step tag_hash ''demo'' empty_operators sample_ops1"
    using run_step_Inr [OF sample_run(1), of empty_operators] unfolding sample_ops1_def [symmetric] by (auto intro: operator_step.action)
  have s2: "operator_step tag_hash ''demo'' sample_ops1 sample_ops2"
    using run_step_Inr [OF sample_run(2), of empty_operators] scopes unfolding sample_ops2_def [symmetric] by (auto intro: operator_step.review)
  have s3: "operator_step tag_hash ''demo'' sample_ops2 sample_ops3"
    using run_step_Inr [OF sample_run(3), of empty_operators] scopes unfolding sample_ops3_def [symmetric] by (auto intro: operator_step.eligibility)
  show r1: "operator_reachable tag_hash ''demo'' sample_ops1" by (rule operator_reachable.step [OF operator_reachable.start sample_bounded(1) s1])
  show r2: "operator_reachable tag_hash ''demo'' sample_ops2" by (rule operator_reachable.step [OF r1 sample_bounded(2) s2])
  show "operator_reachable tag_hash ''demo'' sample_ops3" by (rule operator_reachable.step [OF r2 sample_bounded(3) s3])
qed

text \<open>C14. The operator network stays consistent: in every state that accepted actions, reviews and eligibility decisions reach from empty
  tables, the three logs are hash chains, \<open>verifyOperatorNetworkStateRows\<close> accepts the state rows and
  \<open>verifyOperatorClaimStatusRows\<close> accepts the tables of claim status and current eligibility.\<close>

theorem operator_reachable_verified:
  assumes "operator_reachable H scope ops"
  shows "verifyOperatorNetworkStateRows ops = Inr () \<and>
    verifyOperatorClaimStatusRows ops (operator_audit_events ops) (operator_claim_verification_submissions ops)
      (operator_claim_reviews ops) (operator_claim_eligibility_events ops) = Inr () \<and>
    audit_chain H (operator_audit_events ops) \<and> review_chain H scope (operator_claim_reviews ops) \<and>
    decision_chain H scope (operator_claim_eligibility_events ops)"
proof -
  have o: "operators_ok H scope ops" by (rule operator_reachable_ok [OF assms])
  then have n: "network_ok H ops" and c: "claims_ok ops" by (simp_all add: operators_ok_def)
  from claims_ok_verified [OF n c] verifyOperatorNetworkStateRows_ok [OF n] o show ?thesis
    by (simp add: operators_ok_def network_ok_def claim_rows_verified_def)
qed

theorem operator_reachable_verified_witness:
  "verifyOperatorNetworkStateRows sample_ops3 = Inr () \<and>
    verifyOperatorClaimStatusRows sample_ops3 (operator_audit_events sample_ops3) (operator_claim_verification_submissions sample_ops3)
      (operator_claim_reviews sample_ops3) (operator_claim_eligibility_events sample_ops3) = Inr ()"
  using operator_reachable_verified [OF sample_reachable(3)] by simp

text \<open>C15. Who is eligible: in every reachable state the current eligibility of a deployment is active exactly when its claim stands in the
  network state, its current claim was approved by a review and the latest decision on it, if any, is not a suspension; it is
  suspended when the latest decision is one, and inactive otherwise.  A client token is honoured only in the first case.\<close>

theorem operator_eligibility_exact:
  assumes "operator_reachable H scope ops" "current_eligibility ops d = Some e"
  shows "ec_eligibility_state e =
    (if ons_Claimed (operatorNetworkStateAtTx ops d 0) \<and>
        (\<exists>r. review_of (operator_claim_reviews ops) (ec_claim_action_id e) = Some r \<and> ocrw_Decision r = OperatorClaimReviewApproved)
     then if \<exists>x. decision_of (operator_claim_eligibility_events ops) (ec_claim_action_id e) = Some x \<and> oce_Decision x = OperatorClaimEligibilitySuspend
       then OperatorEligibilitySuspended else OperatorEligibilityActive
     else OperatorEligibilityInactive)"
proof -
  have "network_ok H ops" "claims_ok ops" using operator_reachable_ok [OF assms(1)] by (simp_all add: operators_ok_def)
  then show ?thesis using eligibility_state_cases [OF _ assms(2)] operatorNetworkStateAtTx_replay(1) by simp
qed

theorem operator_eligibility_exact_witness:
  "ons_Claimed (operatorNetworkStateAtTx sample_ops3 ''dep'' 0) \<and> (\<exists>a x. decision_of (operator_claim_eligibility_events sample_ops3) a = Some x \<and>
     oce_Decision x = OperatorClaimEligibilitySuspend)"
proof -
  obtain e where "current_eligibility sample_ops3 ''dep'' = Some e" "ec_eligibility_state e = OperatorEligibilitySuspended"
    using sample_run4(4) by blast
  then show ?thesis using operator_eligibility_exact [OF sample_reachable(3), of "''dep''" e] by (auto simp: claim_distinct split: if_split_asm)
qed

text \<open>C39. An accepted withdrawal can make the check of the decisions fail: a withdrawal whose request was dated before a decision on the claim
  it withdraws, but that was committed after it, is accepted; afterwards \<open>verifiedOperatorClaimEligibilityRows\<close> judges the decision
  superseded before it was made and reports an inconsistent state.\<close>

theorem overlapping_withdrawal_inconsistent:
  assumes "operator_reachable H scope ops" "logs_bounded ops" "d \<in> set (operator_claim_eligibility_events ops)"
    and "action_of (operator_audit_events ops) (oce_ClaimActionID d) = Some claim" "oae_DeploymentID claim = oai_DeploymentID input"
    and "time_Parse_RFC3339Nano (oce_DecidedAt d) = Some decidedAt" "time_Parse_RFC3339Nano (oai_AcceptedAt input) = Some acceptedAt"
    and "acceptedAt < decidedAt" "oai_Action input = OperatorActionWithdrawClaim"
    and "AppendOperatorAction H db transfers ops input signReceipt = Inr (ops', event, False)"
  shows "verifiedOperatorClaimEligibilityRows C key keyID scope' ops' (operator_audit_events ops') submissions reviews = Inl ErrInconsistentState"
proof -
  have n: "network_ok H ops" using operator_reachable_ok [OF assms(1)] by (simp add: operators_ok_def)
  have len: "length (operator_audit_events ops) < 2 ^ 62" using assms(2) by (simp add: logs_bounded_def)
  have n': "network_ok H ops'" and ev: "operator_audit_events ops' = operator_audit_events ops @ [event]"
    using AppendOperatorAction_network [OF n len assms(10)] by simp_all
  note claim_mem = find_SomeD [OF assms(4) [unfolded action_of_def]]
  from assms(10) show ?thesis
  proof (cases rule: AppendOperatorAction_cases)
    case (fresh derived signature)
    note r = fresh_event_request [OF fresh(5,6)]
    have "oae_SubjectDeploymentID event = oae_DeploymentID event"
      using postD [OF deriveOperatorActionTx_shape [OF refl] fresh(5)] r(3) assms(9)
      by (simp add: fresh(6) hashedOperatorEvent_def event_shape_def)
    moreover have "oae_AuditIndex claim < oae_AuditIndex event"
      using n' n claim_mem event_chain_index_le [of H oae_AuditIndex oae_PreviousAuditHash oae_AuditHash operatorEventMessage _ claim]
      by (auto simp: network_ok_def ev event_chain_snoc)
    ultimately have "operatorClaimWasSupersededBefore (operator_audit_events ops') claim decidedAt"
      using r(3,5,6) assms(5,7-9) by (simp add: operatorClaimWasSupersededBefore_def ev)
    moreover obtain ops1 where "insert_operator_audit_event db ops event = Inr ops1"
      using fresh(7) unfolding appendOperatorEventTx_def result_simps by blast
    then have "oae_ActionID event \<notin> oae_ActionID ` set (operator_audit_events ops)"
      by (simp add: insert_operator_audit_event_def Let_def split: if_split_asm)
    then have "oae_ActionID event \<noteq> oce_ClaimActionID d" using claim_mem by (metis image_eqI set_rev)
    then have "action_of (operator_audit_events ops') (oce_ClaimActionID d) = Some claim" using assms(4) by (simp add: action_of_def ev)
    ultimately show ?thesis using assms(3,6) AppendOperatorAction_other_logs(2) [OF assms(10)] by (intro superseded_decision_rejected) simp_all
  qed simp_all
qed

theorem overlapping_withdrawal_inconsistent_witness:
  "\<exists>ops. (\<exists>event. AppendOperatorAction tag_hash sample_db empty_transfers sample_ops3 sample_withdraw sample_audit_signer = Inr (ops, event, False)) \<and>
     verifiedOperatorClaimEligibilityRows sample_crypto [] [] ''demo'' ops (operator_audit_events ops) [] [] = Inl ErrInconsistentState"
proof -
  obtain ops event where w: "AppendOperatorAction tag_hash sample_db empty_transfers sample_ops3 sample_withdraw sample_audit_signer = Inr (ops, event, False)"
    using sample_run4(1) by blast
  obtain d claim where d: "d \<in> set (operator_claim_eligibility_events sample_ops3)" "oce_DecidedAt d = ''2026-01-02T00:00:05Z''"
    "action_of (operator_audit_events sample_ops3) (oce_ClaimActionID d) = Some claim" "oae_DeploymentID claim = ''dep''"
    using sample_run4(2,3) by auto
  have i: "oai_DeploymentID sample_withdraw = ''dep''" "oai_AcceptedAt sample_withdraw = ''2026-01-02T00:00:03Z''"
    "oai_Action sample_withdraw = OperatorActionWithdrawClaim"
    by (simp_all add: sample_withdraw_def sample_claim_def operator_constants)
  show ?thesis using w overlapping_withdrawal_inconsistent [OF sample_reachable(3) sample_bounded(4) d(1,3) _ _ _ _ i(3) w] d i
    by (auto simp: sample_run_times)
qed

end
