(* ===== verification/Leaderboard_Store.thy ===== *)
theory Leaderboard_Store
  imports Revenue_Store Operator_Claims
begin

text \<open>
  The leaderboard of the store (\<open>store/sqlite/leaderboard.go\<close>) and the weights of a settlement
  (\<open>settlementWeightSourcesTx\<close> of \<open>store/sqlite/settlement.go\<close>).

  \<open>leaderboardStateCTE\<close> is one SQL query over the tables of the operator network, of ownership transfers and of the ledger
  weights, read at a boundary of five log positions.  Its common table expressions become functions of a deployment here:
  every join of it is on a unique key, so every deployment has exactly one membership.  A row with rank 1 of a partition is
  the row with the greatest sort key.

  The membership subquery of a revenue summary (\<open>RevenueSummary\<close> of \<open>store/sqlite/revenue.go\<close>) reads the same tables at their heads
  and is modelled here too; it selects the deployments the leaderboard counts for the group.

  The lemmas show that the eligible weight never exceeds the measured weight, that a settlement weighs every eligible deployment
  once, by its latest revisions, and that the pages of a ranking add up to the ranking.
\<close>

subsection \<open>Boundaries\<close>

definition ownershipTransferEventHeadQuery :: "transfer_tables \<Rightarrow> int \<times> string" where
  "ownershipTransferEventHeadQuery transfers = (case select_max sote_EventIndex (ownership_transfer_events transfers) of
     None \<Rightarrow> (0, OwnershipTransferZeroHash) | Some e \<Rightarrow> (sote_EventIndex e, sote_EventHash e))"

definition ownershipTransferEventHeadAt :: "transfer_tables \<Rightarrow> string \<Rightarrow> int \<times> string" where
  "ownershipTransferEventHeadAt transfers acceptedAt =
     (case select_max sote_EventIndex (filter (\<lambda>e. sote_AcceptedAt e \<le> acceptedAt) (ownership_transfer_events transfers)) of
        None \<Rightarrow> (0, OwnershipTransferZeroHash) | Some e \<Rightarrow> (sote_EventIndex e, sote_EventHash e))"

definition LeaderboardBoundary_query :: "registry_db \<Rightarrow> operator_tables \<Rightarrow> transfer_tables \<Rightarrow> LeaderboardBoundary" where
  "LeaderboardBoundary_query db ops transfers =
     (let ledgerHead = ledgerHeadTx db; auditHead = audit_head ops; reviewHead = operatorClaimReviewHeadQuery ops;
          eligibilityHead = operatorClaimEligibilityHeadQuery ops; transferHead = ownershipTransferEventHeadQuery transfers
      in \<lparr>lb_LedgerIndex = lh_LedgerIndex ledgerHead, lb_AuditIndex = fst auditHead, lb_ReviewIndex = fst reviewHead,
          lb_EligibilityIndex = fst eligibilityHead, lb_TransferEventIndex = fst transferHead,
          lb_LedgerHash = lh_EntryHash ledgerHead, lb_AuditHash = fst (snd auditHead), lb_ReviewHash = fst (snd reviewHead),
          lb_EligibilityHash = fst (snd eligibilityHead), lb_TransferEventHash = snd transferHead, lb_CreatedAt = []\<rparr>)"

text \<open>The arguments of the query.\<close>

record leaderboard_bounds =
  lbo_audit_bound :: int
  lbo_ledger_bound :: int
  lbo_review_bound :: int
  lbo_eligibility_bound :: int
  lbo_transfer_event_bound :: int
  lbo_transfer_effective_date :: string
  lbo_from_period :: string
  lbo_through_period :: string

subsection \<open>The common table expressions of the query\<close>

definition cte_state :: "operator_tables \<Rightarrow> leaderboard_bounds \<Rightarrow> string \<Rightarrow> operatorNetworkStateRow option" where
  "cte_state ops B deploymentID =
     select_max ons_AuditIndex (filter (\<lambda>s. ons_DeploymentID s = deploymentID \<and> ons_AuditIndex s \<le> lbo_audit_bound B)
       (operator_network_state_rows ops))"

text \<open>The event at an audit index, and the review of its claim up to the boundary.\<close>

definition cte_claim :: "operator_tables \<Rightarrow> int \<Rightarrow> OperatorAuditEvent option" where
  "cte_claim ops auditIndex = find (\<lambda>e. oae_AuditIndex e = auditIndex) (operator_audit_events ops)"

definition cte_review :: "operator_tables \<Rightarrow> leaderboard_bounds \<Rightarrow> OperatorAuditEvent option \<Rightarrow> OperatorClaimReview option" where
  "cte_review ops B claim = (case claim of None \<Rightarrow> None | Some e \<Rightarrow>
     find (\<lambda>r. ocrw_ClaimActionID r = oae_ActionID e \<and> ocrw_ReviewIndex r \<le> lbo_review_bound B) (operator_claim_reviews ops))"

definition cte_claim_state :: "string \<Rightarrow> OperatorClaimReview option \<Rightarrow> string" where
  "cte_claim_state claimState review = (case review of None \<Rightarrow> claimState | Some r \<Rightarrow>
     if claimState = ''pending-review'' \<and> ocrw_Decision r = ''approved'' then ''approved''
     else if claimState = ''pending-review'' \<and> ocrw_Decision r = ''rejected'' then ''rejected'' else claimState)"

record base_membership =
  bm_deployment_id :: string
  bm_claimed :: bool
  bm_claim_state :: string
  bm_active :: bool
  bm_group_id :: string
  bm_link_id :: string
  bm_claim_action_id :: string
  bm_state_audit_index :: int

definition base_membership_state :: "operator_tables \<Rightarrow> leaderboard_bounds \<Rightarrow> string \<Rightarrow> base_membership" where
  "base_membership_state ops B deploymentID =
     (case cte_state ops B deploymentID of
        None \<Rightarrow> \<lparr>bm_deployment_id = deploymentID, bm_claimed = False, bm_claim_state = [], bm_active = True, bm_group_id = [],
          bm_link_id = [], bm_claim_action_id = [], bm_state_audit_index = 0\<rparr>
      | Some state \<Rightarrow>
          let claim = cte_claim ops (ons_ClaimStateAuditIndex state) in
          \<lparr>bm_deployment_id = deploymentID, bm_claimed = ons_Claimed state,
           bm_claim_state = cte_claim_state (ons_ClaimState state) (cte_review ops B claim), bm_active = ons_Active state,
           bm_group_id = ons_EffectiveGroupID state, bm_link_id = ons_LinkID state,
           bm_claim_action_id = (case claim of None \<Rightarrow> [] | Some e \<Rightarrow> oae_ActionID e), bm_state_audit_index = ons_AuditIndex state\<rparr>)"

definition cte_transfer :: "transfer_tables \<Rightarrow> leaderboard_bounds \<Rightarrow> string \<Rightarrow> StoreOwnershipTransferMembership option" where
  "cte_transfer transfers B deploymentID =
     select_max sotm_CompletionEventIndex (filter (\<lambda>m. sotm_TargetDeploymentID m = deploymentID \<and>
       sotm_CompletionEventIndex m \<le> lbo_transfer_event_bound B \<and> sotm_EffectiveDate m \<le> lbo_transfer_effective_date B)
       (ownership_transfer_memberships transfers))"

record leaderboard_membership =
  lm_deployment_id :: string
  lm_claimed :: bool
  lm_claim_state :: string
  lm_active :: bool
  lm_group_id :: string
  lm_link_id :: string
  lm_claim_action_id :: string
  lm_transfer_id :: string
  lm_eligibility_state :: string
  lm_eligible :: bool

definition cte_decision :: "operator_tables \<Rightarrow> leaderboard_bounds \<Rightarrow> string \<Rightarrow> string" where
  "cte_decision ops B claimActionID =
     (case select_max oce_EligibilityIndex (filter (\<lambda>d. oce_ClaimActionID d = claimActionID \<and>
         oce_EligibilityIndex d \<le> lbo_eligibility_bound B) (operator_claim_eligibility_events ops)) of
        None \<Rightarrow> [] | Some d \<Rightarrow> oce_Decision d)"

definition membership :: "operator_tables \<Rightarrow> transfer_tables \<Rightarrow> leaderboard_bounds \<Rightarrow> string \<Rightarrow> leaderboard_membership" where
  "membership ops transfers B deploymentID =
     (let base = base_membership_state ops B deploymentID;
          transfer = (case cte_transfer transfers B deploymentID of
             None \<Rightarrow> None
           | Some t \<Rightarrow> if sotm_ClaimActionID t = bm_claim_action_id base \<and> sotm_ThroughAuditIndex t \<ge> bm_state_audit_index base
               then Some t else None);
          decision = cte_decision ops B (bm_claim_action_id base);
          claimState = bm_claim_state base
      in \<lparr>lm_deployment_id = deploymentID, lm_claimed = bm_claimed base, lm_claim_state = claimState, lm_active = bm_active base,
          lm_group_id = (case transfer of None \<Rightarrow> bm_group_id base | Some t \<Rightarrow> sotm_TargetGroupID t),
          lm_link_id = (case transfer of None \<Rightarrow> bm_link_id base | Some t \<Rightarrow> []),
          lm_claim_action_id = bm_claim_action_id base,
          lm_transfer_id = (case transfer of None \<Rightarrow> [] | Some t \<Rightarrow> sotm_TransferID t),
          lm_eligibility_state = (if claimState = ''claimed'' then ''active''
            else if claimState = ''approved'' \<and> decision = ''suspend'' then ''suspended''
            else if claimState = ''approved'' then ''active'' else ''inactive''),
          lm_eligible = (claimState = ''claimed'' \<or> claimState = ''approved'' \<and> decision \<noteq> ''suspend'')\<rparr>)"

text \<open>The profile of a group: the latest claim of an active, claimed deployment with that group.\<close>

record group_profile =
  gp_operator_name :: string
  gp_operator_avatar_url :: string
  gp_claim_state :: string

definition cte_states :: "operator_tables \<Rightarrow> leaderboard_bounds \<Rightarrow> operatorNetworkStateRow list" where
  "cte_states ops B = List.map_filter (cte_state ops B) (remdups (map ons_DeploymentID (operator_network_state_rows ops)))"

definition group_profile_of :: "operator_tables \<Rightarrow> leaderboard_bounds \<Rightarrow> string \<Rightarrow> group_profile option" where
  "group_profile_of ops B groupID =
     (case select_max (\<lambda>s. (ons_ProfileClaimAuditIndex s, ons_AuditIndex s))
         (filter (\<lambda>s. ons_Active s \<and> ons_Claimed s \<and> ons_ClaimGroupID s = groupID \<and> ons_ClaimGroupID s \<noteq> [] \<and>
           ons_ProfileClaimState s \<in> {''claimed'', ''pending-review''}) (cte_states ops B)) of
        None \<Rightarrow> None
      | Some s \<Rightarrow> Some \<lparr>gp_operator_name = ons_OperatorName s, gp_operator_avatar_url = ons_OperatorAvatarURL s,
          gp_claim_state = cte_claim_state (ons_ProfileClaimState s)
            (cte_review ops B (cte_claim ops (ons_ProfileClaimAuditIndex s)))\<rparr>)"

text \<open>The weight of a deployment: the latest revision of every month; \<open>SUM\<close> fails when it leaves the range of 64-bit integers.\<close>

definition weight_rows_in :: "registry_db \<Rightarrow> leaderboard_bounds \<Rightarrow> string \<Rightarrow> weight_row list" where
  "weight_rows_in db B deploymentID = filter (\<lambda>w. lw_deployment_id w = deploymentID \<and> lw_ledger_index w \<le> lbo_ledger_bound B \<and>
     lw_period w \<ge> lbo_from_period B \<and> lw_period w \<le> lbo_through_period B) (ledger_weight_rows db)"

definition weight_revisions :: "registry_db \<Rightarrow> leaderboard_bounds \<Rightarrow> string \<Rightarrow> int list" where
  "weight_revisions db B deploymentID =
     (let rows = weight_rows_in db B deploymentID in
      map lw_weight_numerator (List.map_filter (\<lambda>period. select_max (\<lambda>w. (lw_revision w, lw_ledger_index w))
        (filter (\<lambda>w. lw_period w = period) rows)) (remdups (map lw_period rows))))"

type_synonym weighted_membership = "leaderboard_membership \<times> int"

abbreviation measured_weight :: "weighted_membership \<Rightarrow> int" where
  "measured_weight m \<equiv> snd m"

abbreviation eligible_weight_of :: "weighted_membership \<Rightarrow> int" where
  "eligible_weight_of m \<equiv> (if lm_eligible (fst m) then snd m else 0)"

definition sql_SUM :: "int list \<Rightarrow> store_error + int" where
  "sql_SUM xs = from_option IntegerOverflow (sql_sum_from 0 xs)"

fun weigh :: "registry_db \<Rightarrow> operator_tables \<Rightarrow> transfer_tables \<Rightarrow> leaderboard_bounds \<Rightarrow> string list \<Rightarrow> store_error + weighted_membership list" where
  "weigh db ops transfers B [] = Inr []"
| "weigh db ops transfers B (d # ds) =
     (case sql_SUM (weight_revisions db B d) of Inl err \<Rightarrow> Inl err | Inr weight \<Rightarrow>
     (case weigh db ops transfers B ds of Inl err \<Rightarrow> Inl err | Inr rest \<Rightarrow> Inr ((membership ops transfers B d, weight) # rest)))"

definition weighted_memberships ::
  "registry_db \<Rightarrow> operator_tables \<Rightarrow> transfer_tables \<Rightarrow> leaderboard_bounds \<Rightarrow> store_error + weighted_membership list" where
  "weighted_memberships db ops transfers B = weigh db ops transfers B (map dep_DeploymentID (deployments db))"

subsection \<open>Queries\<close>

definition LeaderboardTotalsAtOwnershipTransfer ::
  "registry_db \<Rightarrow> operator_tables \<Rightarrow> transfer_tables \<Rightarrow> leaderboard_bounds \<Rightarrow> store_error + LeaderboardTotals" where
  "LeaderboardTotalsAtOwnershipTransfer db ops transfers B =
     (case weighted_memberships db ops transfers B of Inl err \<Rightarrow> Inl err | Inr ms \<Rightarrow>
     (case sql_SUM (map measured_weight ms) of Inl err \<Rightarrow> Inl err | Inr measured \<Rightarrow>
     (case sql_SUM (map (\<lambda>m. if lm_active (fst m) \<and> lm_claimed (fst m) then eligible_weight_of m else 0) ms) of
        Inl err \<Rightarrow> Inl err
      | Inr claimed \<Rightarrow> Inr \<lparr>lt_MeasuredWeight = measured, lt_ClaimedWeight = claimed\<rparr>)))"

definition LeaderboardTotalsAtEligibility ::
  "registry_db \<Rightarrow> operator_tables \<Rightarrow> transfer_tables \<Rightarrow> leaderboard_bounds \<Rightarrow> store_error + LeaderboardTotals" where
  "LeaderboardTotalsAtEligibility db ops transfers B =
     LeaderboardTotalsAtOwnershipTransfer db ops transfers (B\<lparr>lbo_transfer_event_bound := 0, lbo_transfer_effective_date := []\<rparr>)"

definition LeaderboardTotals_query ::
  "registry_db \<Rightarrow> operator_tables \<Rightarrow> transfer_tables \<Rightarrow> leaderboard_bounds \<Rightarrow> store_error + LeaderboardTotals" where
  "LeaderboardTotals_query db ops transfers B = LeaderboardTotalsAtEligibility db ops transfers (B\<lparr>lbo_eligibility_bound := 0\<rparr>)"

text \<open>\<open>COALESCE(NULLIF(value, ''), other)\<close> on a joined profile.\<close>

definition profile_label :: "group_profile option \<Rightarrow> string \<Rightarrow> string" where
  "profile_label profile groupID = (case profile of None \<Rightarrow> groupID | Some p \<Rightarrow> if gp_operator_name p = [] then groupID else gp_operator_name p)"

definition profile_claim_state :: "group_profile option \<Rightarrow> string" where
  "profile_claim_state profile = (case profile of None \<Rightarrow> ''claimed'' | Some p \<Rightarrow> if gp_claim_state p = [] then ''claimed'' else gp_claim_state p)"

definition group_eligibility :: "weighted_membership list \<Rightarrow> string" where
  "group_eligibility ms =
     (let suspended = list_ex (\<lambda>m. lm_eligibility_state (fst m) = ''suspended'') ms; eligible = list_ex (\<lambda>m. lm_eligible (fst m)) ms
      in if \<not> suspended \<and> \<not> eligible then ''inactive'' else if \<not> suspended then ''active''
         else if eligible then ''partially-suspended'' else ''suspended'')"

fun claimed_rows :: "operator_tables \<Rightarrow> leaderboard_bounds \<Rightarrow> weighted_membership list \<Rightarrow> string list \<Rightarrow> store_error + LeaderboardRecord list" where
  "claimed_rows ops B ms [] = Inr []"
| "claimed_rows ops B ms (groupID # groups) =
     (let profile = group_profile_of ops B groupID; members = filter (\<lambda>m. lm_group_id (fst m) = groupID) ms in
      (case sql_SUM (map measured_weight members) of Inl err \<Rightarrow> Inl err | Inr weight \<Rightarrow>
      (case sql_SUM (map (\<lambda>m. eligible_weight_of m) members) of Inl err \<Rightarrow> Inl err | Inr eligible \<Rightarrow>
      (case claimed_rows ops B ms groups of Inl err \<Rightarrow> Inl err | Inr rest \<Rightarrow>
       Inr (\<lparr>lr_RowID = groupID, lr_View = ''claimed'', lr_GroupID = groupID, lr_Label = profile_label profile groupID,
             lr_AvatarURL = (case profile of None \<Rightarrow> [] | Some p \<Rightarrow> gp_operator_avatar_url p),
             lr_ClaimState = profile_claim_state profile, lr_EligibilityState = group_eligibility members,
             lr_DeploymentCount = int (length members), lr_Weight = weight,
             lr_SortWeight = (if profile_claim_state profile = ''pending-review'' then 0 else eligible)\<rparr> # rest)))))"

definition unclaimed_rows :: "weighted_membership list \<Rightarrow> LeaderboardRecord list" where
  "unclaimed_rows ms = map (\<lambda>m. \<lparr>lr_RowID = lm_deployment_id (fst m), lr_View = ''unclaimed'', lr_GroupID = [],
     lr_Label = lm_deployment_id (fst m), lr_AvatarURL = [], lr_ClaimState = ''unclaimed'', lr_EligibilityState = ''inactive'',
     lr_DeploymentCount = 1, lr_Weight = measured_weight m, lr_SortWeight = measured_weight m\<rparr>)
     (filter (\<lambda>m. lm_active (fst m) \<and> \<not> lm_claimed (fst m)) ms)"

text \<open>\<open>ORDER BY weight DESC, id LIMIT n\<close> after a cursor; for a negative limit the Go code panics when it makes the result slice.\<close>

definition rank_key :: "('r \<Rightarrow> int) \<Rightarrow> ('r \<Rightarrow> string) \<Rightarrow> 'r \<Rightarrow> int \<times> string" where
  "rank_key weight key row = (- weight row, key row)"

definition page_after :: "('r \<Rightarrow> int) \<Rightarrow> ('r \<Rightarrow> string) \<Rightarrow> bool \<Rightarrow> int \<Rightarrow> string \<Rightarrow> int \<Rightarrow> 'r list \<Rightarrow> 'r list" where
  "page_after weight key hasAfter afterWeight afterID limit rows =
     (let ordered = sort_key (rank_key weight key)
        (filter (\<lambda>r. \<not> hasAfter \<or> weight r < afterWeight \<or> weight r = afterWeight \<and> key r > afterID) rows)
      in take (nat limit) ordered)"

definition query_bounds :: "LeaderboardQuery \<Rightarrow> leaderboard_bounds" where
  "query_bounds q = \<lparr>lbo_audit_bound = lq_ThroughAuditIndex q, lbo_ledger_bound = lq_ThroughLedgerIndex q,
     lbo_review_bound = lq_ThroughReviewIndex q, lbo_eligibility_bound = lq_ThroughEligibilityIndex q,
     lbo_transfer_event_bound = lq_ThroughTransferEventIndex q, lbo_transfer_effective_date = lq_TransferEffectiveDate q,
     lbo_from_period = lq_FromPeriod q, lbo_through_period = lq_ThroughPeriod q\<rparr>"

definition claimed_groups :: "weighted_membership list \<Rightarrow> string list" where
  "claimed_groups ms = sort (remdups (map (lm_group_id \<circ> fst) ms))"

definition ranked_rows :: "registry_db \<Rightarrow> operator_tables \<Rightarrow> transfer_tables \<Rightarrow> LeaderboardQuery \<Rightarrow> store_error + LeaderboardRecord list" where
  "ranked_rows db ops transfers query =
     (let B = query_bounds query in
      if lq_View query = ''claimed'' then
        (case weighted_memberships db ops transfers B of Inl err \<Rightarrow> Inl err | Inr ms \<Rightarrow>
          let ms = filter (\<lambda>m. lm_active (fst m) \<and> lm_claimed (fst m) \<and> lm_group_id (fst m) \<noteq> []) ms in
          claimed_rows ops B ms (claimed_groups ms))
      else if lq_View query = ''unclaimed'' then
        (case weighted_memberships db ops transfers B of Inl err \<Rightarrow> Inl err | Inr ms \<Rightarrow> Inr (unclaimed_rows ms))
      else Inl UnsupportedView)"

definition LeaderboardRows ::
  "registry_db \<Rightarrow> operator_tables \<Rightarrow> transfer_tables \<Rightarrow> LeaderboardQuery \<Rightarrow> store_error + LeaderboardRecord list" where
  "LeaderboardRows db ops transfers query =
     (case ranked_rows db ops transfers query of Inl err \<Rightarrow> Inl err | Inr rows \<Rightarrow>
       if lq_Limit query < 0 then Inl SliceOutOfRange
       else Inr (page_after lr_SortWeight lr_RowID (lq_HasAfter query) (lq_AfterWeight query) (lq_AfterID query) (lq_Limit query) rows))"

definition deployment_query_bounds :: "LeaderboardDeploymentQuery \<Rightarrow> leaderboard_bounds" where
  "deployment_query_bounds q = \<lparr>lbo_audit_bound = ldq_ThroughAuditIndex q, lbo_ledger_bound = ldq_ThroughLedgerIndex q,
     lbo_review_bound = ldq_ThroughReviewIndex q, lbo_eligibility_bound = ldq_ThroughEligibilityIndex q,
     lbo_transfer_event_bound = ldq_ThroughTransferEventIndex q, lbo_transfer_effective_date = ldq_TransferEffectiveDate q,
     lbo_from_period = ldq_FromPeriod q, lbo_through_period = ldq_ThroughPeriod q\<rparr>"

definition deployment_record :: "weighted_membership \<Rightarrow> LeaderboardDeploymentRecord" where
  "deployment_record m = \<lparr>ldr_DeploymentID = lm_deployment_id (fst m), ldr_GroupID = lm_group_id (fst m),
     ldr_ClaimState = lm_claim_state (fst m), ldr_EligibilityState = lm_eligibility_state (fst m),
     ldr_MembershipState = (if lm_transfer_id (fst m) \<noteq> [] then ''transferred'' else if lm_link_id (fst m) = [] then ''owner'' else ''linked''),
     ldr_Weight = measured_weight m, ldr_SortWeight = eligible_weight_of m\<rparr>"

definition LeaderboardDeployments ::
  "registry_db \<Rightarrow> operator_tables \<Rightarrow> transfer_tables \<Rightarrow> LeaderboardDeploymentQuery \<Rightarrow> store_error + LeaderboardDeploymentRecord list" where
  "LeaderboardDeployments db ops transfers query =
     (case weighted_memberships db ops transfers (deployment_query_bounds query) of Inl err \<Rightarrow> Inl err | Inr ms \<Rightarrow>
       if ldq_Limit query < 0 then Inl SliceOutOfRange
       else Inr (page_after ldr_SortWeight ldr_DeploymentID (ldq_HasAfter query) (ldq_AfterWeight query) (ldq_AfterID query) (ldq_Limit query)
         (map deployment_record (filter (\<lambda>m. lm_active (fst m) \<and> lm_claimed (fst m) \<and> lm_group_id (fst m) = ldq_GroupID query) ms))))"

subsection \<open>The deployments of a group in a revenue summary\<close>

text \<open>The left join of a state row with the latest transfer of its deployment; an absent claim event compares as \<open>NULL\<close>.\<close>

definition revenue_transfer ::
  "operator_tables \<Rightarrow> transfer_tables \<Rightarrow> operatorNetworkStateRow \<Rightarrow> StoreOwnershipTransferMembership option" where
  "revenue_transfer ops transfers state =
     (let sameDeployment = filter (\<lambda>t. sotm_TargetDeploymentID t = ons_DeploymentID state) (ownership_transfer_memberships transfers) in
      find (\<lambda>t. map_option oae_ActionID (cte_claim ops (ons_ClaimStateAuditIndex state)) = Some (sotm_ClaimActionID t) \<and>
          sotm_ThroughAuditIndex t \<ge> ons_AuditIndex state \<and>
          sotm_CompletionEventIndex t = Max (sotm_CompletionEventIndex ` set sameDeployment)) sameDeployment)"

definition latest_state_row :: "operator_tables \<Rightarrow> operatorNetworkStateRow \<Rightarrow> bool" where
  "latest_state_row ops state \<longleftrightarrow> list_all (\<lambda>latest. ons_DeploymentID latest = ons_DeploymentID state \<longrightarrow>
     ons_AuditIndex latest \<le> ons_AuditIndex state) (operator_network_state_rows ops)"

definition revenue_group_deployments :: "operator_tables \<Rightarrow> transfer_tables \<Rightarrow> string \<Rightarrow> string list" where
  "revenue_group_deployments ops transfers groupID =
     map ons_DeploymentID (filter (\<lambda>state. latest_state_row ops state \<and> ons_Active state \<and> ons_Claimed state \<and>
       (case revenue_transfer ops transfers state of Some t \<Rightarrow> sotm_TargetGroupID t | None \<Rightarrow> ons_EffectiveGroupID state) = groupID)
       (operator_network_state_rows ops))"

definition RevenueSummary_store ::
  "registry_db \<Rightarrow> operator_tables \<Rightarrow> transfer_tables \<Rightarrow> RevenueQuery \<Rightarrow> store_error + RevenueSummary" where
  "RevenueSummary_store db ops transfers query = RevenueSummary_query (revenue_group_deployments ops transfers) db query"

subsection \<open>The weights of a settlement\<close>

text \<open>The memberships that share in a settlement: active, claimed, eligible, with a group whose profile is claimed or approved.\<close>

definition settlement_members :: "operator_tables \<Rightarrow> leaderboard_bounds \<Rightarrow> weighted_membership list \<Rightarrow> weighted_membership list" where
  "settlement_members ops B ms = filter (\<lambda>m. lm_active (fst m) \<and> lm_claimed (fst m) \<and> lm_eligible (fst m) \<and> lm_group_id (fst m) \<noteq> [] \<and>
     profile_claim_state (group_profile_of ops B (lm_group_id (fst m))) \<in> {''claimed'', ''approved''}) ms"

fun settlement_weights ::
  "operator_tables \<Rightarrow> leaderboard_bounds \<Rightarrow> weighted_membership list \<Rightarrow> string list \<Rightarrow> store_error + SettlementWeightSource list" where
  "settlement_weights ops B members [] = Inr []"
| "settlement_weights ops B members (groupID # groups) =
     (case sql_SUM (map (\<lambda>m. eligible_weight_of m) (filter (\<lambda>m. lm_group_id (fst m) = groupID) members)) of Inl err \<Rightarrow> Inl err | Inr weight \<Rightarrow>
     (case settlement_weights ops B members groups of Inl err \<Rightarrow> Inl err | Inr rest \<Rightarrow>
       Inr (if weight > 0 then \<lparr>sws_BeneficiaryID = groupID, sws_Label = profile_label (group_profile_of ops B groupID) groupID,
         sws_Weight = weight\<rparr> # rest else rest)))"

definition settlement_bounds :: "string \<Rightarrow> string \<Rightarrow> LeaderboardBoundary \<Rightarrow> string \<Rightarrow> leaderboard_bounds" where
  "settlement_bounds fromPeriod throughPeriod boundary transferEffectiveDate =
     \<lparr>lbo_audit_bound = lb_AuditIndex boundary, lbo_ledger_bound = lb_LedgerIndex boundary, lbo_review_bound = lb_ReviewIndex boundary,
      lbo_eligibility_bound = lb_EligibilityIndex boundary, lbo_transfer_event_bound = lb_TransferEventIndex boundary,
      lbo_transfer_effective_date = transferEffectiveDate, lbo_from_period = fromPeriod, lbo_through_period = throughPeriod\<rparr>"

definition settlementWeightSourcesTx ::
  "registry_db \<Rightarrow> operator_tables \<Rightarrow> transfer_tables \<Rightarrow> string \<Rightarrow> string \<Rightarrow> LeaderboardBoundary \<Rightarrow> string
    \<Rightarrow> store_error + SettlementWeightSource list \<times> SettlementBeneficiaryDeployment list \<times> int" where
  "settlementWeightSourcesTx db ops transfers fromPeriod throughPeriod boundary transferEffectiveDate =
     (let B = settlement_bounds fromPeriod throughPeriod boundary transferEffectiveDate in
      (case weighted_memberships db ops transfers B of Inl err \<Rightarrow> Inl err | Inr ms \<Rightarrow>
      (case sql_SUM (map measured_weight ms) of Inl err \<Rightarrow> Inl err | Inr measuredWeight \<Rightarrow>
      let members = settlement_members ops B ms in
      (case settlement_weights ops B members (claimed_groups members) of Inl err \<Rightarrow> Inl err | Inr weights \<Rightarrow>
        Inr (weights, map (\<lambda>m. \<lparr>sbd_BeneficiaryID = lm_group_id (fst m), sbd_DeploymentID = lm_deployment_id (fst m)\<rparr>)
            (sort_key (\<lambda>m. (lm_group_id (fst m), lm_deployment_id (fst m))) members), measuredWeight)))))"


subsection \<open>Sums of weights\<close>

lemma select_max_greatest:
  assumes "select_max f xs = Some m" "y \<in> set xs"
  shows "f y \<le> f m"
proof -
  have m: "m = last (sort_key f xs)" "sort_key f xs \<noteq> []"
    using assms(1,2) by (auto simp: select_max_def split: if_splits dest: arg_cong [where f = set])
  obtain ys where ys: "sort_key f xs = ys @ [m]" using m append_butlast_last_id by metis
  have "sorted (map f (ys @ [m]))" using sorted_sort_key [of f xs] by (simp only: ys)
  moreover have "y \<in> set (ys @ [m])" using assms(2) by (simp only: ys [symmetric] set_sort)
  ultimately show ?thesis by (auto simp: sorted_append)
qed

lemma select_max_Some_iff:
  assumes "distinct (map f rows)"
  shows "select_max f rows = Some r \<longleftrightarrow> r \<in> set rows \<and> (\<forall>x\<in>set rows. f x \<le> f r)"
proof
  assume r: "r \<in> set rows \<and> (\<forall>x\<in>set rows. f x \<le> f r)"
  then obtain y where y: "select_max f rows = Some y" by (cases rows) (simp_all add: select_max_def)
  have "f y = f r" using r select_max_greatest [OF y] select_max_mem [OF y] by (auto intro: antisym)
  then show "select_max f rows = Some r" using y r select_max_mem [OF y] inj_onD [of f "set rows" y r] assms by (auto simp: distinct_map)
qed (auto dest: select_max_greatest select_max_mem)

lemma find_unique_max:
  fixes f :: "'a \<Rightarrow> int"
  assumes "distinct (map f rows)"
  shows "find (\<lambda>t. P t \<and> f t = Max (f ` set rows)) rows = (case select_max f rows of None \<Rightarrow> None | Some t \<Rightarrow> if P t then Some t else None)"
proof (cases "select_max f rows")
  case None
  then show ?thesis by (auto simp: select_max_def split: if_splits)
next
  case (Some m)
  then have m: "m \<in> set rows" "\<And>x. x \<in> set rows \<Longrightarrow> f x \<le> f m" using select_max_Some_iff [OF assms] by blast+
  then have "Max (f ` set rows) = f m" by (intro Max_eqI) auto
  moreover have "t = m" if "t \<in> set rows" "f t = f m" for t using that m(1) assms by (auto simp: distinct_map dest: inj_onD)
  ultimately have unique: "t \<in> set rows \<and> f t = Max (f ` set rows) \<longleftrightarrow> t = m" for t using m(1) by metis
  show ?thesis
  proof (cases "find (\<lambda>t. P t \<and> f t = Max (f ` set rows)) rows")
    case None
    then have "\<not> P m" using unique [of m] by (auto simp: find_None_iff)
    then show ?thesis using None Some by simp
  next
    case (Some t)
    then have "t \<in> set rows" "P t" "f t = Max (f ` set rows)" by (auto simp: find_Some_iff)
    then have "t = m" using unique [of t] by blast
    then show ?thesis using Some \<open>select_max f rows = Some m\<close> \<open>P t\<close> by simp
  qed
qed

text \<open>Read at boundaries beyond every row, the leaderboard counts for a group exactly the deployments a revenue summary of the
  group selects.\<close>

definition tables_keyed :: "operator_tables \<Rightarrow> transfer_tables \<Rightarrow> bool" where
  "tables_keyed ops transfers \<longleftrightarrow> distinct (map (\<lambda>s. (ons_DeploymentID s, ons_AuditIndex s)) (operator_network_state_rows ops)) \<and>
     distinct (map sotm_CompletionEventIndex (ownership_transfer_memberships transfers)) \<and>
     (\<forall>s\<in>set (operator_network_state_rows ops). ons_Claimed s \<longrightarrow> cte_claim ops (ons_ClaimStateAuditIndex s) \<noteq> None)"

definition at_heads :: "operator_tables \<Rightarrow> transfer_tables \<Rightarrow> leaderboard_bounds \<Rightarrow> bool" where
  "at_heads ops transfers B \<longleftrightarrow> (\<forall>s\<in>set (operator_network_state_rows ops). ons_AuditIndex s \<le> lbo_audit_bound B) \<and>
     (\<forall>t\<in>set (ownership_transfer_memberships transfers). sotm_CompletionEventIndex t \<le> lbo_transfer_event_bound B \<and>
        sotm_EffectiveDate t \<le> lbo_transfer_effective_date B)"

lemma cte_state_latest:
  assumes "tables_keyed ops transfers" "at_heads ops transfers B"
  shows "cte_state ops B d = Some s \<longleftrightarrow> s \<in> set (operator_network_state_rows ops) \<and> ons_DeploymentID s = d \<and> latest_state_row ops s"
proof -
  let ?rows = "filter (\<lambda>s. ons_DeploymentID s = d) (operator_network_state_rows ops)"
  have rows: "filter (\<lambda>s. ons_DeploymentID s = d \<and> ons_AuditIndex s \<le> lbo_audit_bound B) (operator_network_state_rows ops) = ?rows"
    using assms(2) by (intro filter_cong) (auto simp: at_heads_def)
  have "distinct (map ons_AuditIndex ?rows)"
    using assms(1) by (auto simp: tables_keyed_def distinct_map inj_on_def)
  then show ?thesis unfolding cte_state_def rows by (auto simp: select_max_Some_iff latest_state_row_def list_all_iff)
qed

lemma revenue_transfer_leaderboard:
  assumes "tables_keyed ops transfers" "at_heads ops transfers B" "cte_claim ops (ons_ClaimStateAuditIndex s) = Some e"
  shows "revenue_transfer ops transfers s = (case cte_transfer transfers B (ons_DeploymentID s) of None \<Rightarrow> None
    | Some t \<Rightarrow> if sotm_ClaimActionID t = oae_ActionID e \<and> sotm_ThroughAuditIndex t \<ge> ons_AuditIndex s then Some t else None)"
proof -
  let ?rows = "filter (\<lambda>t. sotm_TargetDeploymentID t = ons_DeploymentID s) (ownership_transfer_memberships transfers)"
  have rows: "filter (\<lambda>m. sotm_TargetDeploymentID m = ons_DeploymentID s \<and> sotm_CompletionEventIndex m \<le> lbo_transfer_event_bound B \<and>
      sotm_EffectiveDate m \<le> lbo_transfer_effective_date B) (ownership_transfer_memberships transfers) = ?rows"
    using assms(2) by (intro filter_cong) (auto simp: at_heads_def)
  have "distinct (map sotm_CompletionEventIndex ?rows)" using assms(1) by (auto simp: tables_keyed_def distinct_map_filter)
  from find_unique_max [OF this, of "\<lambda>t. oae_ActionID e = sotm_ClaimActionID t \<and> sotm_ThroughAuditIndex t \<ge> ons_AuditIndex s"]
  show ?thesis unfolding cte_transfer_def rows by (simp add: revenue_transfer_def assms(3) conj_assoc eq_commute [of "oae_ActionID e"] cong: option.case_cong)
qed

lemma revenue_group_deployments_leaderboard:
  assumes "tables_keyed ops transfers" "at_heads ops transfers B"
  shows "d \<in> set (revenue_group_deployments ops transfers groupID) \<longleftrightarrow>
    (let m = membership ops transfers B d in lm_active m \<and> lm_claimed m \<and> lm_group_id m = groupID)"
proof (cases "cte_state ops B d")
  case None
  then have "d \<notin> set (revenue_group_deployments ops transfers groupID)"
    using cte_state_latest [OF assms, of d] by (auto simp: revenue_group_deployments_def)
  then show ?thesis using None by (simp add: membership_def base_membership_state_def Let_def)
next
  case (Some s)
  then have s: "s \<in> set (operator_network_state_rows ops)" "ons_DeploymentID s = d" "latest_state_row ops s"
    using cte_state_latest [OF assms] by blast+
  have only: "s' = s" if "s' \<in> set (operator_network_state_rows ops)" "ons_DeploymentID s' = d" "latest_state_row ops s'" for s'
    using that cte_state_latest [OF assms, of d s'] Some by simp
  have "d \<in> set (revenue_group_deployments ops transfers groupID) \<longleftrightarrow> ons_Active s \<and> ons_Claimed s \<and>
      (case revenue_transfer ops transfers s of Some t \<Rightarrow> sotm_TargetGroupID t | None \<Rightarrow> ons_EffectiveGroupID s) = groupID"
    unfolding revenue_group_deployments_def set_map set_filter using s only by blast
  also have "\<dots> \<longleftrightarrow> (let m = membership ops transfers B d in lm_active m \<and> lm_claimed m \<and> lm_group_id m = groupID)"
  proof (cases "ons_Claimed s")
    case True
    then obtain e where e: "cte_claim ops (ons_ClaimStateAuditIndex s) = Some e" using assms(1) s(1) by (auto simp: tables_keyed_def)
    show ?thesis unfolding revenue_transfer_leaderboard [OF assms e] s(2)
      by (simp add: membership_def base_membership_state_def Some e Let_def split: option.splits)
  qed (simp add: membership_def base_membership_state_def Some Let_def)
  finally show ?thesis .
qed

lemma sql_sum_from_Some: "sql_sum_from acc xs = Some s \<Longrightarrow> s = acc + sum_list xs"
  by (induction xs arbitrary: acc) (fastforce split: if_splits)+

lemma sql_SUM_Inr [dest]: "sql_SUM xs = Inr s \<Longrightarrow> s = sum_list xs"
  by (auto simp: sql_SUM_def from_option_def dest: sql_sum_from_Some split: option.splits)

text \<open>The weight of a deployment within the bounds of a query.\<close>

definition deployment_weight :: "registry_db \<Rightarrow> leaderboard_bounds \<Rightarrow> string \<Rightarrow> int" where
  "deployment_weight db B deploymentID = sum_list (weight_revisions db B deploymentID)"

lemma membership_deployment [simp]: "lm_deployment_id (membership ops transfers B d) = d"
  by (simp add: membership_def Let_def)

lemma weigh_Inr:
  "weigh db ops transfers B ds = Inr ms \<Longrightarrow> ms = map (\<lambda>d. (membership ops transfers B d, deployment_weight db B d)) ds"
  by (induction ds arbitrary: ms) (auto simp: deployment_weight_def split: sum.splits)

lemma weighted_memberships_Inr:
  "weighted_memberships db ops transfers B = Inr ms \<Longrightarrow>
   ms = map (\<lambda>d. (membership ops transfers B d, deployment_weight db B d)) (map dep_DeploymentID (deployments db))"
  unfolding weighted_memberships_def by (rule weigh_Inr)

definition weights_nonneg :: "registry_db \<Rightarrow> bool" where
  "weights_nonneg db \<longleftrightarrow> list_all (\<lambda>w. 0 \<le> lw_weight_numerator w) (ledger_weight_rows db)"

lemma map_filter_mem: "y \<in> set (List.map_filter f xs) \<Longrightarrow> \<exists>x\<in>set xs. f x = Some y"
  by (force simp: List.map_filter_def)

lemma deployment_weight_nonneg:
  assumes "weights_nonneg db"
  shows "0 \<le> deployment_weight db B d"
proof -
  have "0 \<le> x" if "x \<in> set (weight_revisions db B d)" for x
  proof -
    from that obtain period w where w: "select_max (\<lambda>w. (lw_revision w, lw_ledger_index w))
        (filter (\<lambda>w. lw_period w = period) (weight_rows_in db B d)) = Some w" "x = lw_weight_numerator w"
      unfolding weight_revisions_def Let_def by (auto dest!: map_filter_mem)
    from select_max_mem [OF w(1)] show ?thesis using assms w(2) by (auto simp: weight_rows_in_def weights_nonneg_def list_all_iff)
  qed
  then show ?thesis unfolding deployment_weight_def by (intro sum_list_nonneg)
qed

text \<open>Grouping: the sums of the groups add up to the sum of all.\<close>

lemma sum_list_filter_le:
  fixes f :: "'a \<Rightarrow> int"
  assumes "\<And>x. x \<in> set xs \<Longrightarrow> 0 \<le> f x"
  shows "sum_list (map f (filter P xs)) \<le> sum_list (map f xs)"
  using assms by (induction xs) (auto simp: add_increasing)

lemma sum_list_partition:
  fixes f :: "'a \<Rightarrow> int"
  shows "sum_list (map f xs) = sum_list (map f (filter P xs)) + sum_list (map f (filter (\<lambda>x. \<not> P x) xs))"
  by (induction xs) auto

lemma sum_groups_le:
  fixes f :: "'a \<Rightarrow> int"
  assumes "distinct gs" "\<And>x. x \<in> set xs \<Longrightarrow> 0 \<le> f x"
  shows "(\<Sum>g\<leftarrow>gs. sum_list (map f (filter (\<lambda>x. k x = g) xs))) \<le> sum_list (map f xs)"
  using assms
proof (induction gs arbitrary: xs)
  case Nil
  then show ?case by (auto intro!: sum_list_nonneg)
next
  case (Cons g gs)
  let ?rest = "filter (\<lambda>x. k x \<noteq> g) xs"
  have same: "filter (\<lambda>x. k x = h) xs = filter (\<lambda>x. k x = h) ?rest" if "h \<in> set gs" for h
    using that Cons.prems(1) by (auto intro!: filter_cong)
  have "(\<Sum>h\<leftarrow>gs. sum_list (map f (filter (\<lambda>x. k x = h) xs))) = (\<Sum>h\<leftarrow>gs. sum_list (map f (filter (\<lambda>x. k x = h) ?rest)))"
    using same by (intro arg_cong [where f = sum_list] map_cong) simp_all
  also have "\<dots> \<le> sum_list (map f ?rest)"
    by (rule Cons.IH) (use Cons.prems in auto)
  finally show ?case using sum_list_partition [of f xs "\<lambda>x. k x = g"] by simp
qed

subsection \<open>The weights of a settlement are exact\<close>

definition group_weight :: "weighted_membership list \<Rightarrow> string \<Rightarrow> int" where
  "group_weight members groupID = sum_list (map eligible_weight_of (filter (\<lambda>m. lm_group_id (fst m) = groupID) members))"

lemma settlement_weights_Inr:
  "settlement_weights ops B members groups = Inr ws \<Longrightarrow>
   ws = map (\<lambda>g. \<lparr>sws_BeneficiaryID = g, sws_Label = profile_label (group_profile_of ops B g) g, sws_Weight = group_weight members g\<rparr>)
     (filter (\<lambda>g. 0 < group_weight members g) groups)"
  by (induction groups arbitrary: ws) (auto simp: group_weight_def split: sum.splits if_splits dest!: sql_SUM_Inr)

lemma claimed_groups_sorted: "sorted_wrt (<) (claimed_groups ms)"
  by (simp add: claimed_groups_def strict_sorted_iff)

lemma settlement_members_eligible:
  "m \<in> set (settlement_members ops B ms) \<Longrightarrow> lm_active (fst m) \<and> lm_claimed (fst m) \<and> lm_eligible (fst m) \<and> lm_group_id (fst m) \<noteq> []"
  by (auto simp: settlement_members_def)

lemma settlementWeightSourcesTx_Inr:
  assumes "settlementWeightSourcesTx db ops transfers fromPeriod throughPeriod boundary effectiveDate = Inr (weights, members, measured)"
    and "B = settlement_bounds fromPeriod throughPeriod boundary effectiveDate"
  obtains ms where "ms = map (\<lambda>d. (membership ops transfers B d, deployment_weight db B d)) (map dep_DeploymentID (deployments db))"
    and "measured = sum_list (map measured_weight ms)"
    and "weights = map (\<lambda>g. \<lparr>sws_BeneficiaryID = g, sws_Label = profile_label (group_profile_of ops B g) g,
          sws_Weight = group_weight (settlement_members ops B ms) g\<rparr>)
        (filter (\<lambda>g. 0 < group_weight (settlement_members ops B ms) g) (claimed_groups (settlement_members ops B ms)))"
    and "members = map (\<lambda>m. \<lparr>sbd_BeneficiaryID = lm_group_id (fst m), sbd_DeploymentID = lm_deployment_id (fst m)\<rparr>)
        (sort_key (\<lambda>m. (lm_group_id (fst m), lm_deployment_id (fst m))) (settlement_members ops B ms))"
  using assms unfolding settlementWeightSourcesTx_def Let_def
  by (auto split: sum.splits dest!: weighted_memberships_Inr sql_SUM_Inr settlement_weights_Inr)

subsection \<open>A small network\<close>

definition board_row :: "string \<Rightarrow> string \<Rightarrow> int \<Rightarrow> operatorNetworkStateRow" where
  "board_row d g i = (initialNetworkState d)\<lparr>ons_AuditIndex := i, ons_Claimed := True, ons_ClaimState := ''claimed'', ons_Active := True,
     ons_EffectiveGroupID := g\<rparr>"

definition board_weight :: "string \<Rightarrow> string \<Rightarrow> int \<Rightarrow> int \<Rightarrow> int \<Rightarrow> weight_row" where
  "board_weight d period revision i n = \<lparr>lw_ledger_index = i, lw_deployment_id = d, lw_period = period, lw_revision = revision,
     lw_ruleset_version = [], lw_qualified_mau_count = n, lw_weight_numerator = n, lw_weight_denominator = 1, lw_accepted_at = [],
     lw_source_entry_hash = []\<rparr>"

definition board_db :: registry_db where
  "board_db = empty_db\<lparr>deployments := map (\<lambda>d. sample_deployment\<lparr>dep_DeploymentID := d\<rparr>) [''a'', ''b'', ''c''],
     ledger_weight_rows := [board_weight ''a'' ''2026-01'' 1 1 5, board_weight ''b'' ''2026-01'' 1 2 7, board_weight ''a'' ''2026-01'' 2 3 6,
       board_weight ''c'' ''2026-01'' 1 4 9]\<rparr>"

definition board_ops :: operator_tables where
  "board_ops = empty_operators\<lparr>operator_network_state_rows := [board_row ''a'' ''g'' 1, board_row ''b'' ''g'' 2]\<rparr>"

definition board_boundary :: LeaderboardBoundary where
  "board_boundary = (LeaderboardBoundary_query board_db board_ops empty_transfers)\<lparr>lb_LedgerIndex := 4, lb_AuditIndex := 2\<rparr>"

lemma board_weights:
  "settlementWeightSourcesTx board_db board_ops empty_transfers ''2025-08'' ''2026-01'' board_boundary ''2026-02-01'' =
     Inr ([\<lparr>sws_BeneficiaryID = ''g'', sws_Label = ''g'', sws_Weight = 13\<rparr>],
       [\<lparr>sbd_BeneficiaryID = ''g'', sbd_DeploymentID = ''a''\<rparr>, \<lparr>sbd_BeneficiaryID = ''g'', sbd_DeploymentID = ''b''\<rparr>], 22)"
  by code_simp

lemma board_ok: "weights_nonneg board_db" "distinct (map dep_DeploymentID (deployments board_db))"
  by code_simp+

definition board_query :: LeaderboardQuery where
  "board_query = \<lparr>lq_View = ''unclaimed'', lq_FromPeriod = ''2025-08'', lq_ThroughPeriod = ''2026-01'', lq_ThroughLedgerIndex = 4,
     lq_ThroughAuditIndex = 0, lq_ThroughReviewIndex = 0, lq_ThroughEligibilityIndex = 0, lq_ThroughTransferEventIndex = 0,
     lq_TransferEffectiveDate = ''2026-02-01'', lq_Limit = 0, lq_AfterWeight = 0, lq_AfterID = [], lq_HasAfter = False\<rparr>"

definition board_rows :: "LeaderboardRecord list" where
  "board_rows = (case ranked_rows board_db board_ops empty_transfers board_query of Inl _ \<Rightarrow> [] | Inr rows \<Rightarrow> rows)"

lemma board_ranked: "ranked_rows board_db board_ops empty_transfers board_query = Inr board_rows" "length board_rows = 3"
proof -
  have "\<not> isl (ranked_rows board_db board_ops empty_transfers board_query)" by code_simp
  then show "ranked_rows board_db board_ops empty_transfers board_query = Inr board_rows"
    unfolding board_rows_def by (cases "ranked_rows board_db board_ops empty_transfers board_query") simp_all
  show "length board_rows = 3" by code_simp
qed

lemma group_weight_members:
  assumes "ms = map (\<lambda>d. (membership ops transfers B d, deployment_weight db B d)) ds"
  shows "group_weight (settlement_members ops B ms) g =
    (\<Sum>m\<leftarrow>filter (\<lambda>m. sbd_BeneficiaryID m = g) (map (\<lambda>m. \<lparr>sbd_BeneficiaryID = lm_group_id (fst m), sbd_DeploymentID = lm_deployment_id (fst m)\<rparr>)
       (sort_key (\<lambda>m. (lm_group_id (fst m), lm_deployment_id (fst m))) (settlement_members ops B ms))). deployment_weight db B (sbd_DeploymentID m))"
    (is "_ = sum_list (map _ (filter _ (map ?row ?sorted)))")
proof -
  let ?members = "settlement_members ops B ms"
  have weight: "eligible_weight_of m = deployment_weight db B (lm_deployment_id (fst m))" if "m \<in> set ?members" for m
    using that assms by (auto simp: settlement_members_def)
  have "group_weight ?members g = sum_list (map (\<lambda>m. deployment_weight db B (lm_deployment_id (fst m))) (filter (\<lambda>m. lm_group_id (fst m) = g) ?members))"
    unfolding group_weight_def using weight by (intro arg_cong [where f = sum_list] map_cong) auto
  also have "\<dots> = (\<Sum>m\<in>#filter_mset (\<lambda>m. lm_group_id (fst m) = g) (mset ?sorted). deployment_weight db B (lm_deployment_id (fst m)))"
    by (simp flip: mset_filter add: sum_mset_sum_list [symmetric] del: sum_mset_sum_list)
  also have "\<dots> = sum_list (map (\<lambda>m. deployment_weight db B (lm_deployment_id (fst m))) (filter (\<lambda>m. lm_group_id (fst m) = g) ?sorted))"
    by (metis (no_types, lifting) mset_filter mset_map sum_mset_sum_list)
  also have "\<dots> = sum_list (map (\<lambda>m. deployment_weight db B (sbd_DeploymentID m)) (filter (\<lambda>m. sbd_BeneficiaryID m = g) (map ?row ?sorted)))"
    by (simp add: filter_map comp_def)
  finally show ?thesis .
qed

lemma settlementWeightSourcesTx_facts:
  assumes nonneg: "weights_nonneg db" and ids: "distinct (map dep_DeploymentID (deployments db))"
    and result: "settlementWeightSourcesTx db ops transfers fromPeriod throughPeriod boundary effectiveDate = Inr (weights, members, measured)"
    and B: "B = settlement_bounds fromPeriod throughPeriod boundary effectiveDate"
  shows "sorted_wrt (<) (map sws_BeneficiaryID weights)"
    and "\<And>source. source \<in> set weights \<Longrightarrow> 0 < sws_Weight source \<and> sws_Weight source =
       (\<Sum>m\<leftarrow>filter (\<lambda>m. sbd_BeneficiaryID m = sws_BeneficiaryID source) members. deployment_weight db B (sbd_DeploymentID m))"
    and "distinct (map sbd_DeploymentID members)"
    and "\<And>m. m \<in> set members \<Longrightarrow> (let s = membership ops transfers B (sbd_DeploymentID m) in
       lm_active s \<and> lm_claimed s \<and> lm_eligible s \<and> lm_group_id s = sbd_BeneficiaryID m)"
    and "measured = (\<Sum>d\<leftarrow>deployments db. deployment_weight db B (dep_DeploymentID d))"
    and "sum_list (map sws_Weight weights) \<le> measured"
proof -
  obtain ms where ms: "ms = map (\<lambda>d. (membership ops transfers B d, deployment_weight db B d)) (map dep_DeploymentID (deployments db))"
    and measured: "measured = sum_list (map measured_weight ms)"
    and weights: "weights = map (\<lambda>g. \<lparr>sws_BeneficiaryID = g, sws_Label = profile_label (group_profile_of ops B g) g,
          sws_Weight = group_weight (settlement_members ops B ms) g\<rparr>)
        (filter (\<lambda>g. 0 < group_weight (settlement_members ops B ms) g) (claimed_groups (settlement_members ops B ms)))"
    and members: "members = map (\<lambda>m. \<lparr>sbd_BeneficiaryID = lm_group_id (fst m), sbd_DeploymentID = lm_deployment_id (fst m)\<rparr>)
        (sort_key (\<lambda>m. (lm_group_id (fst m), lm_deployment_id (fst m))) (settlement_members ops B ms))"
    by (rule settlementWeightSourcesTx_Inr [OF result B])
  let ?members = "settlement_members ops B ms"
  have ids': "distinct (map (lm_deployment_id \<circ> fst) ms)" using ids by (simp add: ms comp_def)
  show "sorted_wrt (<) (map sws_BeneficiaryID weights)"
    unfolding weights using claimed_groups_sorted [of ?members] by (simp add: comp_def sorted_wrt_filter)
  show "0 < sws_Weight source \<and> sws_Weight source =
       (\<Sum>m\<leftarrow>filter (\<lambda>m. sbd_BeneficiaryID m = sws_BeneficiaryID source) members. deployment_weight db B (sbd_DeploymentID m))"
    if "source \<in> set weights" for source
    using that group_weight_members [OF ms] unfolding weights members by auto
  have "distinct (map (lm_deployment_id \<circ> fst) ?members)"
    unfolding settlement_members_def by (rule distinct_map_filter [OF ids'])
  then have "distinct (map (lm_deployment_id \<circ> fst) (sort_key (\<lambda>m. (lm_group_id (fst m), lm_deployment_id (fst m))) ?members))"
    by (simp add: distinct_map)
  then show "distinct (map sbd_DeploymentID members)" by (simp add: members comp_def)
  show "let s = membership ops transfers B (sbd_DeploymentID m) in
       lm_active s \<and> lm_claimed s \<and> lm_eligible s \<and> lm_group_id s = sbd_BeneficiaryID m" if "m \<in> set members" for m
    using that by (auto simp: members ms settlement_members_def)
  show "measured = (\<Sum>d\<leftarrow>deployments db. deployment_weight db B (dep_DeploymentID d))"
    by (simp add: measured ms comp_def)
  have nn: "0 \<le> snd m" if "m \<in> set ms" for m using that deployment_weight_nonneg [OF nonneg] by (auto simp: ms)
  have "sum_list (map sws_Weight weights) \<le> (\<Sum>g\<leftarrow>claimed_groups ?members. group_weight ?members g)"
    unfolding weights by (simp add: comp_def) (rule sum_list_filter_le, auto simp: group_weight_def settlement_members_def intro!: sum_list_nonneg nn)
  also have "\<dots> \<le> sum_list (map eligible_weight_of ?members)"
    unfolding group_weight_def
    by (rule sum_groups_le) (auto simp: claimed_groups_def settlement_members_def intro: nn)
  also have "\<dots> \<le> sum_list (map measured_weight ?members)" by (rule sum_list_mono) (auto simp: settlement_members_def intro: nn)
  also have "\<dots> \<le> measured" unfolding measured settlement_members_def by (rule sum_list_filter_le) (rule nn)
  finally show "sum_list (map sws_Weight weights) \<le> measured" .
qed

text \<open>C20. The weights of a settlement are exact: whenever the query answers, the beneficiaries are sorted and distinct, each has a positive
weight that is the sum of the latest monthly revisions of its member deployments, no deployment counts for two beneficiaries, every
member is an active, claimed and eligible deployment of its beneficiary, and the weights together never exceed the measured weight of
the network.\<close>

theorem settlementWeightSourcesTx_exact:
  assumes "weights_nonneg db" "distinct (map dep_DeploymentID (deployments db))"
    and "settlementWeightSourcesTx db ops transfers fromPeriod throughPeriod boundary effectiveDate = Inr (weights, members, measured)"
    and "B = settlement_bounds fromPeriod throughPeriod boundary effectiveDate"
  shows "sorted_wrt (<) (map sws_BeneficiaryID weights) \<and>
    list_all (\<lambda>source. 0 < sws_Weight source \<and> sws_Weight source =
      (\<Sum>m\<leftarrow>filter (\<lambda>m. sbd_BeneficiaryID m = sws_BeneficiaryID source) members. deployment_weight db B (sbd_DeploymentID m))) weights \<and>
    distinct (map sbd_DeploymentID members) \<and>
    list_all (\<lambda>m. let s = membership ops transfers B (sbd_DeploymentID m) in
      lm_active s \<and> lm_claimed s \<and> lm_eligible s \<and> lm_group_id s = sbd_BeneficiaryID m) members \<and>
    measured = (\<Sum>d\<leftarrow>deployments db. deployment_weight db B (dep_DeploymentID d)) \<and>
    sum_list (map sws_Weight weights) \<le> measured"
  using settlementWeightSourcesTx_facts [OF assms] unfolding list_all_iff by blast

theorem settlementWeightSourcesTx_exact_witness:
  "deployment_weight board_db (settlement_bounds ''2025-08'' ''2026-01'' board_boundary ''2026-02-01'') ''a'' +
    deployment_weight board_db (settlement_bounds ''2025-08'' ''2026-01'' board_boundary ''2026-02-01'') ''b'' = 13"
  using settlementWeightSourcesTx_exact [OF board_ok board_weights refl] by simp

subsection \<open>Pages of a ranking\<close>

lemma filter_beyond_nth:
  fixes f :: "'r \<Rightarrow> 'k :: linorder"
  assumes "sorted_wrt (<) (map f xs)" "k < length xs"
  shows "filter (\<lambda>r. f (xs ! k) < f r) xs = drop (Suc k) xs"
proof -
  let ?pre = "take k xs" and ?post = "drop (Suc k) xs"
  have xs: "xs = ?pre @ xs ! k # ?post" by (rule id_take_nth_drop [OF assms(2)])
  have "sorted_wrt (<) (map f (?pre @ xs ! k # ?post))" using assms(1) xs by simp
  then have pre: "\<forall>r\<in>set ?pre. f r < f (xs ! k)" and post: "\<forall>r\<in>set ?post. f (xs ! k) < f r"
    by (simp_all only: map_append list.map sorted_wrt_append sorted_wrt.simps) auto
  have "filter (\<lambda>r. f (xs ! k) < f r) (?pre @ xs ! k # ?post) = ?post"
    using pre post by (auto simp: filter_empty_conv dest: order.strict_trans)
  then show ?thesis using xs by simp
qed

lemma rank_strictly_sorted:
  assumes "distinct (map key rows)"
  shows "sorted_wrt (<) (map (rank_key weight key) (sort_key (rank_key weight key) rows))"
proof -
  have "inj_on (rank_key weight key) (set rows)"
    using assms by (auto simp: rank_key_def inj_on_def distinct_map)
  then show ?thesis using assms by (simp add: strict_sorted_iff distinct_map)
qed

lemma page_after_first:
  "page_after weight key False w i n rows = take (nat n) (sort_key (rank_key weight key) rows)"
  by (simp add: page_after_def)

lemma page_after_cursor:
  assumes "distinct (map key rows)" "ordered = sort_key (rank_key weight key) rows" "k < length ordered"
  shows "page_after weight key True (weight (ordered ! k)) (key (ordered ! k)) n rows = take (nat n) (drop (Suc k) ordered)"
proof -
  have beyond: "(weight r < weight c \<or> weight r = weight c \<and> key c < key r) \<longleftrightarrow> rank_key weight key c < rank_key weight key r" for r c
    by (auto simp: rank_key_def)
  have "sort_key (rank_key weight key) (filter (\<lambda>r. rank_key weight key (ordered ! k) < rank_key weight key r) rows) =
      filter (\<lambda>r. rank_key weight key (ordered ! k) < rank_key weight key r) ordered"
    unfolding assms(2) by (rule filter_sort [symmetric])
  also have "\<dots> = drop (Suc k) ordered"
    by (rule filter_beyond_nth [OF _ assms(3)]) (unfold assms(2), rule rank_strictly_sorted [OF assms(1)])
  finally show ?thesis by (simp add: page_after_def beyond)
qed

lemma claimed_rows_ids: "claimed_rows ops B ms groups = Inr rows \<Longrightarrow> map lr_RowID rows = groups"
  by (induction groups arbitrary: rows) (auto simp: Let_def split: sum.splits)

lemma unclaimed_rows_ids: "map lr_RowID (unclaimed_rows ms) = map (lm_deployment_id \<circ> fst) (filter (\<lambda>m. lm_active (fst m) \<and> \<not> lm_claimed (fst m)) ms)"
  by (simp add: unclaimed_rows_def comp_def)

lemma ranked_rows_distinct:
  assumes "distinct (map dep_DeploymentID (deployments db))" "ranked_rows db ops transfers query = Inr rows"
  shows "distinct (map lr_RowID rows)"
proof (cases "lq_View query = ''claimed''")
  case True
  with assms(2) obtain ms where "claimed_rows ops (query_bounds query) ms (claimed_groups ms) = Inr rows"
    by (auto simp: ranked_rows_def Let_def split: sum.splits)
  then show ?thesis by (simp add: claimed_rows_ids claimed_groups_def)
next
  case False
  with assms(2) obtain ms where ms: "weighted_memberships db ops transfers (query_bounds query) = Inr ms" "rows = unclaimed_rows ms"
    by (auto simp: ranked_rows_def Let_def split: sum.splits if_splits)
  have "distinct (map (lm_deployment_id \<circ> fst) ms)"
    unfolding weighted_memberships_Inr [OF ms(1)] using assms(1) by (simp add: comp_def)
  then show ?thesis unfolding ms(2) unclaimed_rows_ids by (rule distinct_map_filter)
qed

text \<open>The view and the bounds of a query choose the ranking; cursor and limit only choose the page.\<close>

lemma ranked_rows_cursor [simp]:
  "ranked_rows db ops transfers (query\<lparr>lq_HasAfter := a, lq_AfterWeight := w, lq_AfterID := i, lq_Limit := n\<rparr>) = ranked_rows db ops transfers query"
  by (simp add: ranked_rows_def query_bounds_def Let_def)

text \<open>C26. Paging through the leaderboard loses no row and repeats none: the rows of a view are totally ordered by descending weight and
row identifier, the first page is the beginning of that ranking, and the page after the cursor of its \<open>k\<close>-th row (its weight and its
identifier) is exactly the next rows of it, for every page size.\<close>

theorem LeaderboardRows_pages:
  assumes "distinct (map dep_DeploymentID (deployments db))" "ranked_rows db ops transfers query = Inr rows"
    and "ordered = sort_key (rank_key lr_SortWeight lr_RowID) rows" "0 \<le> n" "k < length ordered"
  shows "sorted_wrt (<) (map (rank_key lr_SortWeight lr_RowID) ordered) \<and>
    LeaderboardRows db ops transfers (query\<lparr>lq_HasAfter := False, lq_AfterWeight := w, lq_AfterID := i, lq_Limit := n\<rparr>) =
      Inr (take (nat n) ordered) \<and>
    LeaderboardRows db ops transfers (query\<lparr>lq_HasAfter := True, lq_AfterWeight := lr_SortWeight (ordered ! k),
      lq_AfterID := lr_RowID (ordered ! k), lq_Limit := n\<rparr>) = Inr (take (nat n) (drop (Suc k) ordered))"
  using rank_strictly_sorted [OF ranked_rows_distinct [OF assms(1,2)], of lr_SortWeight]
    page_after_cursor [OF ranked_rows_distinct [OF assms(1,2)] assms(3,5)] page_after_first
  unfolding LeaderboardRows_def ranked_rows_cursor assms(2) using assms(4) by (simp add: assms(3))

theorem LeaderboardRows_pages_witness:
  "LeaderboardRows board_db board_ops empty_transfers (board_query\<lparr>lq_HasAfter := False, lq_AfterWeight := 0, lq_AfterID := [], lq_Limit := 2\<rparr>) =
     Inr (take 2 (sort_key (rank_key lr_SortWeight lr_RowID) board_rows))"
  using LeaderboardRows_pages [OF board_ok(2) board_ranked(1) refl, where n = 2 and k = 1 and w = 0 and i = "[]"] board_ranked(2) by simp

end
