(* ===== verification/Settlement_Store.thy ===== *)
theory Settlement_Store
  imports Settlement_Math Checkpoint_Store Leaderboard_Store
begin

text \<open>
  Settlements of the store (\<open>store/sqlite/settlement.go\<close>): reading the revenue of twelve months, the valuation figures, the record
  and its fingerprint, the insert of a settlement with its ledger entry and detail rows, and reading it back.

  The weights and the heads of the operator logs are read from the tables of the operator network and of ownership transfers.
  The lemmas show that a settlement keeps the ledger and the checkpoints verifiable (it is a \<open>ledger_appender\<close>), that its figures
  satisfy the schema's checks, that its allocations pay out exactly its pool, and that a stored settlement is read back as it was
  written.
\<close>

subsection \<open>The sources of a settlement\<close>

definition zeroLedgerEntry :: LedgerEntry where
  "zeroLedgerEntry = \<lparr>le_ProtocolVersion = [], le_RegistryScope = [], le_LedgerIndex = 0, le_EntryType = [], le_DeploymentID = [], le_BatchID = [], le_Kind = [], le_Period = [], le_RulesetVersion = [], le_QualifiedMAUCount = 0, le_BatchHash = [], le_PreviousEntryHash = [], le_EntryHash = [], le_AcceptedAt = []\<rparr>"

definition settlementBoundaryTx :: "registry_db \<Rightarrow> operator_tables \<Rightarrow> transfer_tables \<Rightarrow> string \<Rightarrow> LeaderboardBoundary" where
  "settlementBoundaryTx db ops transfers acceptedAt =
     (let ledger = (case select_max le_LedgerIndex (filter (\<lambda>e. le_EntryType e \<noteq> SettlementEntryType) (ledger_entries db)) of
            None \<Rightarrow> (0, ZeroHash) | Some e \<Rightarrow> (le_LedgerIndex e, le_EntryHash e));
          audit = audit_head ops; review = operatorClaimReviewHeadQuery ops; eligibility = operatorClaimEligibilityHeadQuery ops;
          transfer = ownershipTransferEventHeadAt transfers acceptedAt
      in \<lparr>lb_LedgerIndex = fst ledger, lb_AuditIndex = fst audit, lb_ReviewIndex = fst review, lb_EligibilityIndex = fst eligibility,
          lb_TransferEventIndex = fst transfer, lb_LedgerHash = snd ledger, lb_AuditHash = fst (snd audit),
          lb_ReviewHash = fst (snd review), lb_EligibilityHash = fst (snd eligibility), lb_TransferEventHash = snd transfer,
          lb_CreatedAt = []\<rparr>)"

definition settlementRevenueSourcesTx ::
  "registry_db \<Rightarrow> string \<Rightarrow> string \<Rightarrow> string \<Rightarrow> int \<Rightarrow> SettlementRevenueSource list" where
  "settlementRevenueSourcesTx db currencyCode fromDate throughDateExclusive throughLedgerIndex =
     (let rows = sort_key (\<lambda>row. (rq_period row, rq_deploymentID row, rq_batchID row))
            (filter (\<lambda>row. rc_CurrencyCode (rq_currency row) = currencyCode \<and> rq_period row \<ge> fromDate \<and>
               rq_period row < throughDateExclusive \<and> rq_ledgerIndex row \<le> throughLedgerIndex \<and>
               \<not> list_ex (\<lambda>newer. rb_deployment_id newer = rq_deploymentID row \<and> rb_period newer = rq_period row \<and>
                 rb_revision newer > rq_revision row \<and> rb_ledger_index newer \<le> throughLedgerIndex) (revenue_batches db))
             (revenue_query_rows db))
      in map (\<lambda>(index, row). \<lparr>srs_SourceOrder = int index, srs_RevenuePeriod = rq_period row, srs_DeploymentID = rq_deploymentID row,
            srs_BatchID = rq_batchID row, srs_LedgerIndex = rq_ledgerIndex row, srs_EntryHash = rq_sourceEntryHash row,
            srs_CommissionBasisMinor = rc_CommissionBasisMinor (rq_currency row)\<rparr>) (enumerate 0 rows))"

text \<open>The sums per month: \<open>RevenuePeriod[:len("2006-01")]\<close> needs seven bytes.\<close>

fun monthly_basis_loop :: "(string \<Rightarrow> int) \<Rightarrow> SettlementRevenueSource list \<Rightarrow> store_error + (string \<Rightarrow> int)" where
  "monthly_basis_loop monthlyBasis [] = Inr monthlyBasis"
| "monthly_basis_loop monthlyBasis (source # sources) =
     (if length (srs_RevenuePeriod source) < 7 then Inl SliceOutOfRange
      else
        let month = take 7 (srs_RevenuePeriod source) in
        bindR (from_option ErrRevenueAggregateOverflow (checkedRevenueAdd (monthlyBasis month) (srs_CommissionBasisMinor source)))
          (\<lambda>sum. monthly_basis_loop (monthlyBasis(month := sum)) sources))"

fun ttm_loop :: "(string \<Rightarrow> int) \<Rightarrow> int \<Rightarrow> string list \<Rightarrow> store_error + int \<times> SettlementTTMMonth list" where
  "ttm_loop monthlyBasis ttmBasis [] = Inr (ttmBasis, [])"
| "ttm_loop monthlyBasis ttmBasis (month # months) =
     (let basis = monthlyBasis month in
      bindR (from_option ErrRevenueAggregateOverflow (checkedRevenueAdd ttmBasis basis)) (\<lambda>ttmBasis.
      bindR (ttm_loop monthlyBasis ttmBasis months) (\<lambda>(ttmBasis, rest).
      Inr (ttmBasis, \<lparr>stm_Period = month, stm_CommissionBasisMinor = basis,
        stm_NetworkCommissionPoolMinor = RevenueCommissionMinor basis\<rparr> # rest))))"

record valuation_figures =
  vf_recentAverage :: int
  vf_priorAverage :: int
  vf_earlierAverage :: int
  vf_recentGrowth :: int
  vf_priorGrowth :: int
  vf_acceleration :: int
  vf_adjustment :: int
  vf_effectiveMultiplier :: int
  vf_indicativeValue :: int

definition settlement_valuation :: "SettlementCalculationInput \<Rightarrow> SettlementTTMMonth list \<Rightarrow> int \<Rightarrow> store_error + valuation_figures" where
  "settlement_valuation input months ttmBasis =
     (let (earlierAverage, priorAverage, recentAverage) = settlementThreeMonthAverages months;
          priorGrowth = settlementGrowthBasisPoints earlierAverage priorAverage;
          recentGrowth = settlementGrowthBasisPoints priorAverage recentAverage;
          acceleration = clampInt64 (i64 (recentGrowth - priorGrowth))
            SettlementMinimumAccelerationBasisPoints SettlementMaximumAccelerationBasisPoints;
          adjustment = clampInt64 (i64 (recentGrowth sdiv SettlementAccelerationAdjustmentDivisor +
              acceleration sdiv SettlementAccelerationAdjustmentDivisor))
            SettlementMinimumValuationAdjustmentBasisPoints SettlementMaximumValuationAdjustmentBasisPoints;
          (effectiveMultiplier, ok) = multiplyBasisPoints (sci_BaseValuationMultiplierBasisPoints input) (i64 (10000 + adjustment))
      in if \<not> ok \<or> effectiveMultiplier \<le> 0 then Inl ErrRevenueAggregateOverflow
         else
           let (indicativeValue, ok) = multiplyBasisPoints ttmBasis effectiveMultiplier
           in if \<not> ok then Inl ErrRevenueAggregateOverflow
              else Inr \<lparr>vf_recentAverage = recentAverage, vf_priorAverage = priorAverage, vf_earlierAverage = earlierAverage,
                vf_recentGrowth = recentGrowth, vf_priorGrowth = priorGrowth, vf_acceleration = acceleration,
                vf_adjustment = adjustment, vf_effectiveMultiplier = effectiveMultiplier, vf_indicativeValue = indicativeValue\<rparr>)"

definition settlementRecordHasSafeMinorAmounts :: "SettlementRecord \<Rightarrow> bool" where
  "settlementRecordHasSafeMinorAmounts record \<longleftrightarrow>
     list_all SettlementMinorAmountIsSafe
       [srec_CommissionBasisMinor record, srec_NetworkCommissionPoolMinor record, srec_TTMCommissionBasisMinor record,
        srec_TTMNetworkCommissionPoolMinor record, srec_IndicativeNetworkValueMinor record, srec_RecentThreeMonthAverageMinor record,
        srec_PriorThreeMonthAverageMinor record, srec_EarlierThreeMonthAverageMinor record] \<and>
     list_all (\<lambda>allocation. SettlementMinorAmountIsSafe (sa_NetworkPoolAllocationMinor allocation) \<and>
       SettlementMinorAmountIsSafe (sa_IndicativeValueAllocationMinor allocation)) (srec_Allocations record)"

definition settlementSourceFingerprint :: "(bytes \<Rightarrow> bytes) \<Rightarrow> SettlementRecord \<Rightarrow> string" where
  "settlementSourceFingerprint H record = Digest H (canonical (
     [''myscoutee-registry-settlement-source-v1'', srec_Period record, srec_CurrencyCode record, FormatInt (srec_FractionDigits record),
      srec_RulesetVersion record, srec_ValuationRulesetVersion record, FormatInt (srec_CommissionRateBasisPoints record),
      FormatInt (srec_BaseValuationMultiplierBasisPoints record), FormatInt (srec_ThroughLedgerIndex record),
      FormatInt (srec_ThroughAuditIndex record), FormatInt (srec_ThroughReviewIndex record),
      FormatInt (srec_ThroughEligibilityIndex record), srec_LedgerHeadHash record, srec_AuditHeadHash record,
      srec_ReviewHeadHash record, srec_EligibilityHeadHash record, FormatInt (int (length (srec_RevenueSources record)))] @
     concat (map (\<lambda>source. [FormatInt (srs_SourceOrder source), srs_RevenuePeriod source, srs_DeploymentID source,
       srs_BatchID source, FormatInt (srs_LedgerIndex source), srs_EntryHash source, FormatInt (srs_CommissionBasisMinor source)])
       (srec_RevenueSources record)) @
     [FormatInt (int (length (srec_TTMMonths record)))] @
     concat (map (\<lambda>month. [stm_Period month, FormatInt (stm_CommissionBasisMinor month),
       FormatInt (stm_NetworkCommissionPoolMinor month)]) (srec_TTMMonths record)) @
     [FormatInt (int (length (srec_WeightSources record)))] @
     concat (map (\<lambda>weight. [sws_BeneficiaryID weight, sws_Label weight, FormatInt (sws_Weight weight)]) (srec_WeightSources record)) @
     [FormatInt (int (length (srec_BeneficiaryDeployments record)))] @
     concat (map (\<lambda>member. [sbd_BeneficiaryID member, sbd_DeploymentID member]) (srec_BeneficiaryDeployments record))))"

text \<open>The record of a calculation, before it is numbered and signed.\<close>

definition settlement_record ::
  "SettlementCalculationInput \<Rightarrow> LeaderboardBoundary \<Rightarrow> valuation_figures \<Rightarrow> int \<Rightarrow> int \<Rightarrow> SettlementRevenueSource list
    \<Rightarrow> SettlementTTMMonth list \<Rightarrow> SettlementWeightSource list \<Rightarrow> SettlementBeneficiaryDeployment list
    \<Rightarrow> SettlementAllocation list \<Rightarrow> SettlementRecord" where
  "settlement_record input boundary v currentBasis ttmBasis revenueSources months weightSources members allocations =
     \<lparr>srec_SettlementID = [], srec_Period = sci_Period input, srec_CurrencyCode = sci_CurrencyCode input,
      srec_FractionDigits = sci_FractionDigits input, srec_Revision = 0, srec_SupersedesSettlementID = [],
      srec_RulesetVersion = SettlementRulesetVersion,
      srec_ValuationRulesetVersion = SettlementValuationRulesetVersion,
      srec_CommissionRateBasisPoints = RevenueCommissionBasisPoints,
      srec_BaseValuationMultiplierBasisPoints = sci_BaseValuationMultiplierBasisPoints input,
      srec_RecentThreeMonthAverageMinor = vf_recentAverage v, srec_PriorThreeMonthAverageMinor = vf_priorAverage v,
      srec_EarlierThreeMonthAverageMinor = vf_earlierAverage v, srec_RecentGrowthBasisPoints = vf_recentGrowth v,
      srec_PriorGrowthBasisPoints = vf_priorGrowth v, srec_AccelerationBasisPoints = vf_acceleration v,
      srec_ValuationAdjustmentBasisPoints = vf_adjustment v,
      srec_EffectiveValuationMultiplierBasisPoints = vf_effectiveMultiplier v, srec_CommissionBasisMinor = currentBasis,
      srec_NetworkCommissionPoolMinor = RevenueCommissionMinor currentBasis, srec_TTMCommissionBasisMinor = ttmBasis,
      srec_TTMNetworkCommissionPoolMinor = RevenueCommissionMinor ttmBasis,
      srec_IndicativeNetworkValueMinor = vf_indicativeValue v, srec_ThroughLedgerIndex = lb_LedgerIndex boundary,
      srec_ThroughAuditIndex = lb_AuditIndex boundary, srec_ThroughReviewIndex = lb_ReviewIndex boundary,
      srec_ThroughEligibilityIndex = lb_EligibilityIndex boundary, srec_LedgerHeadHash = lb_LedgerHash boundary,
      srec_AuditHeadHash = lb_AuditHash boundary, srec_ReviewHeadHash = lb_ReviewHash boundary,
      srec_EligibilityHeadHash = lb_EligibilityHash boundary, srec_SourceFingerprint = [], srec_AllocationHash = [],
      srec_SettlementHash = [], srec_AcceptedAt = [], srec_RegistryKeyID = [], srec_LedgerEntry = zeroLedgerEntry,
      srec_ReceiptSignature = [], srec_Allocations = allocations, srec_RevenueSources = revenueSources,
      srec_TTMMonths = months, srec_WeightSources = weightSources, srec_BeneficiaryDeployments = members\<rparr>"

definition settlementSourcesTx ::
  "(bytes \<Rightarrow> bytes) \<Rightarrow> registry_db \<Rightarrow> operator_tables \<Rightarrow> transfer_tables \<Rightarrow> SettlementCalculationInput \<Rightarrow> store_error + SettlementRecord" where
  "settlementSourcesTx H db ops transfers input =
     (let boundary = settlementBoundaryTx db ops transfers (sci_AcceptedAt input) in
      bindR (from_option ErrInconsistentState (time_Parse_month (sci_Period input))) (\<lambda>periodStart.
      let ttmStart = periodStart - 11;
          ttmEnd = periodStart + 1;
          revenueSources = settlementRevenueSourcesTx db (sci_CurrencyCode input) (format_first_day ttmStart) (format_first_day ttmEnd)
            (lb_LedgerIndex boundary)
      in bindR (monthly_basis_loop (\<lambda>_. 0) revenueSources) (\<lambda>monthlyBasis.
      bindR (ttm_loop monthlyBasis 0 (map (\<lambda>offset. format_month (ttmStart + int offset)) [0..<12])) (\<lambda>(ttmBasis, months).
      let currentBasis = monthlyBasis (sci_Period input);
          currentPool = RevenueCommissionMinor currentBasis
      in bindR (settlement_valuation input months ttmBasis) (\<lambda>v.
      if length (sci_AcceptedAt input) < 10 then Inl SliceOutOfRange
      else
      bindR (settlementWeightSourcesTx db ops transfers (format_month (periodStart - 5)) (sci_Period input) boundary
          (take 10 (sci_AcceptedAt input))) (\<lambda>(weightSources, members, measuredWeight).
      bindR (settlementRatios weightSources measuredWeight) (\<lambda>ratios.
      bindR (allocateSettlementAmounts ratios currentPool (vf_indicativeValue v)) (\<lambda>allocations.
      let record = settlement_record input boundary v currentBasis ttmBasis revenueSources months weightSources members allocations
      in if \<not> settlementRecordHasSafeMinorAmounts record then Inl ErrRevenueAggregateOverflow
         else Inr (record\<lparr>srec_SourceFingerprint := settlementSourceFingerprint H record\<rparr>)))))))))"

subsection \<open>Reading settlements\<close>

definition settlementAllocationsQuery :: "registry_db \<Rightarrow> string \<Rightarrow> SettlementAllocation list" where
  "settlementAllocationsQuery db settlementID =
     map (snd \<circ> snd) (sort_key (fst \<circ> snd) (filter (\<lambda>r. fst r = settlementID) (settlement_allocations db)))"

definition settlementRevenueSourcesQuery :: "registry_db \<Rightarrow> string \<Rightarrow> SettlementRevenueSource list" where
  "settlementRevenueSourcesQuery db settlementID =
     sort_key srs_SourceOrder (map snd (filter (\<lambda>r. fst r = settlementID) (settlement_revenue_sources db)))"

definition settlementTTMMonthsQuery :: "registry_db \<Rightarrow> string \<Rightarrow> SettlementTTMMonth list" where
  "settlementTTMMonthsQuery db settlementID =
     sort_key stm_Period (map snd (filter (\<lambda>r. fst r = settlementID) (settlement_ttm_months db)))"

definition settlementWeightSourcesQuery :: "registry_db \<Rightarrow> string \<Rightarrow> SettlementWeightSource list" where
  "settlementWeightSourcesQuery db settlementID =
     sort_key sws_BeneficiaryID (map snd (filter (\<lambda>r. fst r = settlementID) (settlement_weight_sources db)))"

definition settlementMembersQuery :: "registry_db \<Rightarrow> string \<Rightarrow> SettlementBeneficiaryDeployment list" where
  "settlementMembersQuery db settlementID =
     sort_key (\<lambda>m. (sbd_BeneficiaryID m, sbd_DeploymentID m))
       (map snd (filter (\<lambda>r. fst r = settlementID) (settlement_beneficiary_deployments db)))"

definition settlementByIDQuery :: "registry_db \<Rightarrow> string \<Rightarrow> store_error + SettlementRecord" where
  "settlementByIDQuery db settlementID =
     (case find (\<lambda>s. st_settlement_id s = settlementID) (settlements db) of
        None \<Rightarrow> Inl ErrNotFound
      | Some s \<Rightarrow>
          (case find (\<lambda>l. le_LedgerIndex l = st_ledger_index s) (ledger_entries db) of
             None \<Rightarrow> Inl ErrNotFound
           | Some l \<Rightarrow> Inr
               \<lparr>srec_SettlementID = st_settlement_id s, srec_Period = st_period s, srec_CurrencyCode = st_currency_code s,
                srec_FractionDigits = st_fraction_digits s, srec_Revision = st_revision s,
                srec_SupersedesSettlementID = (case st_supersedes_settlement_id s of None \<Rightarrow> [] | Some i \<Rightarrow> i),
                srec_RulesetVersion = st_ruleset_version s, srec_ValuationRulesetVersion = st_valuation_ruleset_version s,
                srec_CommissionRateBasisPoints = st_commission_rate_basis_points s,
                srec_BaseValuationMultiplierBasisPoints = st_base_valuation_multiplier_basis_points s,
                srec_RecentThreeMonthAverageMinor = st_recent_three_month_average_minor s,
                srec_PriorThreeMonthAverageMinor = st_prior_three_month_average_minor s,
                srec_EarlierThreeMonthAverageMinor = st_earlier_three_month_average_minor s,
                srec_RecentGrowthBasisPoints = st_recent_growth_basis_points s,
                srec_PriorGrowthBasisPoints = st_prior_growth_basis_points s,
                srec_AccelerationBasisPoints = st_acceleration_basis_points s,
                srec_ValuationAdjustmentBasisPoints = st_valuation_adjustment_basis_points s,
                srec_EffectiveValuationMultiplierBasisPoints = st_effective_valuation_multiplier_basis_points s,
                srec_CommissionBasisMinor = st_commission_basis_minor s,
                srec_NetworkCommissionPoolMinor = st_network_commission_pool_minor s,
                srec_TTMCommissionBasisMinor = st_ttm_commission_basis_minor s,
                srec_TTMNetworkCommissionPoolMinor = st_ttm_network_commission_pool_minor s,
                srec_IndicativeNetworkValueMinor = st_indicative_network_value_minor s,
                srec_ThroughLedgerIndex = st_through_ledger_index s, srec_ThroughAuditIndex = st_through_audit_index s,
                srec_ThroughReviewIndex = st_through_review_index s,
                srec_ThroughEligibilityIndex = st_through_eligibility_index s, srec_LedgerHeadHash = st_ledger_head_hash s,
                srec_AuditHeadHash = st_audit_head_hash s, srec_ReviewHeadHash = st_review_head_hash s,
                srec_EligibilityHeadHash = st_eligibility_head_hash s, srec_SourceFingerprint = st_source_fingerprint s,
                srec_AllocationHash = st_allocation_hash s, srec_SettlementHash = st_settlement_hash s,
                srec_AcceptedAt = st_accepted_at s, srec_RegistryKeyID = st_registry_key_id s, srec_LedgerEntry = l,
                srec_ReceiptSignature = st_receipt_signature s,
                srec_Allocations = settlementAllocationsQuery db settlementID,
                srec_RevenueSources = settlementRevenueSourcesQuery db settlementID,
                srec_TTMMonths = settlementTTMMonthsQuery db settlementID,
                srec_WeightSources = settlementWeightSourcesQuery db settlementID,
                srec_BeneficiaryDeployments = settlementMembersQuery db settlementID\<rparr>))"

definition latestSettlementTx :: "registry_db \<Rightarrow> string \<Rightarrow> string \<Rightarrow> store_error + SettlementRecord option" where
  "latestSettlementTx db period currencyCode =
     (case select_max st_revision (filter (\<lambda>s. st_period s = period \<and> st_currency_code s = currencyCode) (settlements db)) of
        None \<Rightarrow> Inr None
      | Some s \<Rightarrow> bindR (settlementByIDQuery db (st_settlement_id s)) (\<lambda>record. Inr (Some record)))"

subsection \<open>Calculating a settlement\<close>

definition settlementReceipt :: "SettlementRecord \<Rightarrow> string \<Rightarrow> SettlementReceipt" where
  "settlementReceipt record registryScope =
     (let entry = srec_LedgerEntry record in
      \<lparr>sr_SettlementID = srec_SettlementID record, sr_Period = srec_Period record,
       sr_CurrencyCode = srec_CurrencyCode record, sr_FractionDigits = srec_FractionDigits record,
       sr_Revision = srec_Revision record, sr_SupersedesSettlementID = srec_SupersedesSettlementID record,
       sr_RulesetVersion = srec_RulesetVersion record, sr_ValuationRulesetVersion = srec_ValuationRulesetVersion record,
       sr_CommissionRateBasisPoints = srec_CommissionRateBasisPoints record,
       sr_BaseValuationMultiplierBasisPoints = srec_BaseValuationMultiplierBasisPoints record,
       sr_RecentThreeMonthAverageMinor = srec_RecentThreeMonthAverageMinor record,
       sr_PriorThreeMonthAverageMinor = srec_PriorThreeMonthAverageMinor record,
       sr_EarlierThreeMonthAverageMinor = srec_EarlierThreeMonthAverageMinor record,
       sr_RecentGrowthBasisPoints = srec_RecentGrowthBasisPoints record,
       sr_PriorGrowthBasisPoints = srec_PriorGrowthBasisPoints record,
       sr_AccelerationBasisPoints = srec_AccelerationBasisPoints record,
       sr_ValuationAdjustmentBasisPoints = srec_ValuationAdjustmentBasisPoints record,
       sr_EffectiveValuationMultiplierBasisPoints = srec_EffectiveValuationMultiplierBasisPoints record,
       sr_CommissionBasisMinor = srec_CommissionBasisMinor record,
       sr_NetworkCommissionPoolMinor = srec_NetworkCommissionPoolMinor record,
       sr_TTMCommissionBasisMinor = srec_TTMCommissionBasisMinor record,
       sr_TTMNetworkCommissionPoolMinor = srec_TTMNetworkCommissionPoolMinor record,
       sr_IndicativeNetworkValueMinor = srec_IndicativeNetworkValueMinor record, sr_ValuationIsNonBinding = True,
       sr_ThroughLedgerIndex = srec_ThroughLedgerIndex record, sr_ThroughAuditIndex = srec_ThroughAuditIndex record,
       sr_ThroughReviewIndex = srec_ThroughReviewIndex record,
       sr_ThroughEligibilityIndex = srec_ThroughEligibilityIndex record, sr_LedgerHeadHash = srec_LedgerHeadHash record,
       sr_AuditHeadHash = srec_AuditHeadHash record, sr_ReviewHeadHash = srec_ReviewHeadHash record,
       sr_EligibilityHeadHash = srec_EligibilityHeadHash record, sr_SourceFingerprint = srec_SourceFingerprint record,
       sr_AllocationHash = srec_AllocationHash record, sr_SettlementHash = srec_SettlementHash record,
       sr_LedgerIndex = le_LedgerIndex entry, sr_EntryHash = le_EntryHash entry,
       sr_PreviousEntryHash = le_PreviousEntryHash entry, sr_AcceptedAt = srec_AcceptedAt record,
       sr_RegistryScope = registryScope, sr_RegistryKeyID = srec_RegistryKeyID record, sr_RegistryPublicKey = [],
       sr_Allocations = srec_Allocations record, sr_Signature = []\<rparr>)"

definition settlementRow :: "SettlementRecord \<Rightarrow> settlement_row" where
  "settlementRow record =
     \<lparr>st_settlement_id = srec_SettlementID record, st_period = srec_Period record,
      st_currency_code = srec_CurrencyCode record, st_fraction_digits = srec_FractionDigits record,
      st_revision = srec_Revision record,
      st_supersedes_settlement_id = (if srec_SupersedesSettlementID record \<noteq> [] then Some (srec_SupersedesSettlementID record) else None),
      st_ruleset_version = srec_RulesetVersion record, st_valuation_ruleset_version = srec_ValuationRulesetVersion record,
      st_commission_rate_basis_points = srec_CommissionRateBasisPoints record,
      st_base_valuation_multiplier_basis_points = srec_BaseValuationMultiplierBasisPoints record,
      st_recent_three_month_average_minor = srec_RecentThreeMonthAverageMinor record,
      st_prior_three_month_average_minor = srec_PriorThreeMonthAverageMinor record,
      st_earlier_three_month_average_minor = srec_EarlierThreeMonthAverageMinor record,
      st_recent_growth_basis_points = srec_RecentGrowthBasisPoints record,
      st_prior_growth_basis_points = srec_PriorGrowthBasisPoints record,
      st_acceleration_basis_points = srec_AccelerationBasisPoints record,
      st_valuation_adjustment_basis_points = srec_ValuationAdjustmentBasisPoints record,
      st_effective_valuation_multiplier_basis_points = srec_EffectiveValuationMultiplierBasisPoints record,
      st_commission_basis_minor = srec_CommissionBasisMinor record,
      st_network_commission_pool_minor = srec_NetworkCommissionPoolMinor record,
      st_ttm_commission_basis_minor = srec_TTMCommissionBasisMinor record,
      st_ttm_network_commission_pool_minor = srec_TTMNetworkCommissionPoolMinor record,
      st_indicative_network_value_minor = srec_IndicativeNetworkValueMinor record,
      st_through_ledger_index = srec_ThroughLedgerIndex record, st_through_audit_index = srec_ThroughAuditIndex record,
      st_through_review_index = srec_ThroughReviewIndex record,
      st_through_eligibility_index = srec_ThroughEligibilityIndex record, st_ledger_head_hash = srec_LedgerHeadHash record,
      st_audit_head_hash = srec_AuditHeadHash record, st_review_head_hash = srec_ReviewHeadHash record,
      st_eligibility_head_hash = srec_EligibilityHeadHash record, st_source_fingerprint = srec_SourceFingerprint record,
      st_allocation_hash = srec_AllocationHash record, st_settlement_hash = srec_SettlementHash record,
      st_accepted_at = srec_AcceptedAt record, st_ledger_index = le_LedgerIndex (srec_LedgerEntry record),
      st_registry_key_id = srec_RegistryKeyID record, st_receipt_signature = srec_ReceiptSignature record\<rparr>"

definition insertSettlementTx :: "(bytes \<Rightarrow> bytes) \<Rightarrow> registry_db \<Rightarrow> SettlementRecord \<Rightarrow> store_error + registry_db" where
  "insertSettlementTx H db record =
     (let entry = srec_LedgerEntry record; settlementID = srec_SettlementID record in
      bindR (insert_ledger_entry db (entry\<lparr>le_DeploymentID := [], le_QualifiedMAUCount := 0\<rparr>)) (\<lambda>db.
      bindR (appendMerkleEntryTx H db (le_LedgerIndex entry) (le_EntryHash entry)) (\<lambda>db.
      bindR (insert_settlement db (settlementRow record)) (\<lambda>db.
      bindR (insert_all (insert_settlement_revenue_source settlementID) db (srec_RevenueSources record)) (\<lambda>db.
      bindR (insert_all (insert_settlement_ttm_month settlementID) db (srec_TTMMonths record)) (\<lambda>db.
      bindR (insert_all (insert_settlement_weight_source settlementID) db (srec_WeightSources record)) (\<lambda>db.
      bindR (insert_all (insert_settlement_beneficiary_deployment settlementID) db (srec_BeneficiaryDeployments record)) (\<lambda>db.
      insert_all (insert_settlement_allocation settlementID) db
        (map (\<lambda>(index, allocation). (int index, allocation)) (enumerate 0 (srec_Allocations record)))))))))))"

text \<open>The record that a calculation writes: its revision, hashes and ledger entry.\<close>

definition settlement_entry :: "(bytes \<Rightarrow> bytes) \<Rightarrow> SettlementCalculationInput \<Rightarrow> LedgerHead \<Rightarrow> SettlementRecord \<Rightarrow> LedgerEntry" where
  "settlement_entry H input ledgerHead record =
     (let entry = \<lparr>le_ProtocolVersion = Version, le_RegistryScope = sci_RegistryScope input,
            le_LedgerIndex = i64 (lh_LedgerIndex ledgerHead + 1), le_EntryType = SettlementEntryType, le_DeploymentID = [],
            le_BatchID = srec_SettlementID record, le_Kind = SettlementKind, le_Period = srec_Period record,
            le_RulesetVersion = SettlementRulesetVersion, le_QualifiedMAUCount = 0, le_BatchHash = srec_SettlementHash record,
            le_PreviousEntryHash = lh_EntryHash ledgerHead, le_EntryHash = [], le_AcceptedAt = sci_AcceptedAt input\<rparr>
      in entry\<lparr>le_EntryHash := Digest H (LedgerEntryMessage entry)\<rparr>)"

definition numbered_settlement :: "SettlementCalculationInput \<Rightarrow> SettlementRecord option \<Rightarrow> SettlementRecord \<Rightarrow> SettlementRecord" where
  "numbered_settlement input latest record =
     (let record = record\<lparr>srec_SettlementID := sci_CandidateSettlementID input, srec_RegistryKeyID := sci_RegistryKeyID input,
        srec_Revision := 1\<rparr>
      in case latest of
           None \<Rightarrow> record
         | Some l \<Rightarrow> record\<lparr>srec_Revision := i64 (srec_Revision l + 1), srec_SupersedesSettlementID := srec_SettlementID l\<rparr>)"

definition hashed_settlement :: "(bytes \<Rightarrow> bytes) \<Rightarrow> SettlementCalculationInput \<Rightarrow> LedgerHead \<Rightarrow> SettlementRecord \<Rightarrow> SettlementRecord" where
  "hashed_settlement H input ledgerHead record =
     (let record = record\<lparr>srec_AcceptedAt := sci_AcceptedAt input,
            srec_AllocationHash := SettlementAllocationHash H (srec_Allocations record)\<rparr>;
          receipt = settlementReceipt record (sci_RegistryScope input);
          record = record\<lparr>srec_SettlementHash := Digest H (SettlementHashMessage receipt)\<rparr>
      in record\<lparr>srec_LedgerEntry := settlement_entry H input ledgerHead record\<rparr>)"

definition CalculateSettlement ::
  "(bytes \<Rightarrow> bytes) \<Rightarrow> registry_db \<Rightarrow> operator_tables \<Rightarrow> transfer_tables \<Rightarrow> SettlementCalculationInput
    \<Rightarrow> (SettlementRecord \<Rightarrow> bytes option) \<Rightarrow> store_error + registry_db \<times> SettlementRecord \<times> bool" where
  "CalculateSettlement H db ops transfers input signReceipt =
     bindR (ensureAcceptedAtAfterRegistryCreation db (sci_AcceptedAt input)) (\<lambda>_.
     bindR (ensureAcceptedAtAfterCheckpoint db (sci_AcceptedAt input)) (\<lambda>_.
     let ledgerHead = ledgerHeadTx db in
     bindR (ensureAcceptedAtNotBeforeHead (sci_AcceptedAt input) (lh_AcceptedAt ledgerHead)) (\<lambda>_.
     bindR (settlementSourcesTx H db ops transfers input) (\<lambda>sources.
     bindR (latestSettlementTx db (sci_Period input) (sci_CurrencyCode input)) (\<lambda>latest.
     case (case latest of None \<Rightarrow> None
           | Some l \<Rightarrow> if srec_SourceFingerprint l = srec_SourceFingerprint sources then Some l else None) of
       Some known \<Rightarrow> Inr (db, known, True)
     | None \<Rightarrow>
         let record = hashed_settlement H input ledgerHead (numbered_settlement input latest sources) in
         bindR (from_option SigningFailed (signReceipt record)) (\<lambda>signature.
         let record = record\<lparr>srec_ReceiptSignature := signature\<rparr> in
         bindR (insertSettlementTx H db record) (\<lambda>db. Inr (db, record, False))))))))"


subsection \<open>What a successful insert does\<close>

lemma insert_all_update:
  assumes "\<And>d r d'. ins d r = Inr d' \<Longrightarrow> d' = upd (\<lambda>t. t @ [row r]) d"
    and "\<And>f g d. upd f (upd g d) = upd (\<lambda>t. f (g t)) d" "\<And>d. upd (\<lambda>t. t) d = d"
    and "insert_all ins db rs = Inr db'"
  shows "db' = upd (\<lambda>t. t @ map row rs) db"
  using assms(4)
proof (induction rs arbitrary: db)
  case Nil
  then show ?case using assms(3) by simp
next
  case (Cons r rs)
  then obtain d where d: "ins db r = Inr d" "insert_all ins d rs = Inr db'" by (auto simp: result_simps)
  from assms(1) [OF d(1)] Cons.IH [OF d(2)] show ?case by (simp add: assms(2))
qed

lemma insert_details:
  "insert_all (insert_settlement_revenue_source sid) db sources = Inr db1 \<Longrightarrow>
     db1 = db\<lparr>settlement_revenue_sources := settlement_revenue_sources db @ map (Pair sid) sources\<rparr>"
  "insert_all (insert_settlement_ttm_month sid) db months = Inr db2 \<Longrightarrow>
     db2 = db\<lparr>settlement_ttm_months := settlement_ttm_months db @ map (Pair sid) months\<rparr>"
  "insert_all (insert_settlement_weight_source sid) db weights = Inr db3 \<Longrightarrow>
     db3 = db\<lparr>settlement_weight_sources := settlement_weight_sources db @ map (Pair sid) weights\<rparr>"
  "insert_all (insert_settlement_beneficiary_deployment sid) db members = Inr db4 \<Longrightarrow>
     db4 = db\<lparr>settlement_beneficiary_deployments := settlement_beneficiary_deployments db @ map (Pair sid) members\<rparr>"
  "insert_all (insert_settlement_allocation sid) db allocations = Inr db5 \<Longrightarrow>
     db5 = db\<lparr>settlement_allocations := settlement_allocations db @ map (Pair sid) allocations\<rparr>"
  subgoal by (drule insert_all_update [where row = "Pair sid" and upd = settlement_revenue_sources_update, rotated 3])
    (auto simp: insert_settlement_revenue_source_def split: if_splits)
  subgoal by (drule insert_all_update [where row = "Pair sid" and upd = settlement_ttm_months_update, rotated 3])
    (auto simp: insert_settlement_ttm_month_def split: if_splits)
  subgoal by (drule insert_all_update [where row = "Pair sid" and upd = settlement_weight_sources_update, rotated 3])
    (auto simp: insert_settlement_weight_source_def split: if_splits)
  subgoal by (drule insert_all_update [where row = "Pair sid" and upd = settlement_beneficiary_deployments_update, rotated 3])
    (auto simp: insert_settlement_beneficiary_deployment_def split: if_splits)
  subgoal by (drule insert_all_update [where row = "Pair sid" and upd = settlement_allocations_update, rotated 3])
    (auto simp: insert_settlement_allocation_def split: if_splits)
  done

definition settlement_appended :: "registry_db \<Rightarrow> SettlementRecord \<Rightarrow> registry_db" where
  "settlement_appended db record = (let sid = srec_SettlementID record in db\<lparr>
     settlements := settlements db @ [settlementRow record],
     settlement_revenue_sources := settlement_revenue_sources db @ map (Pair sid) (srec_RevenueSources record),
     settlement_ttm_months := settlement_ttm_months db @ map (Pair sid) (srec_TTMMonths record),
     settlement_weight_sources := settlement_weight_sources db @ map (Pair sid) (srec_WeightSources record),
     settlement_beneficiary_deployments := settlement_beneficiary_deployments db @ map (Pair sid) (srec_BeneficiaryDeployments record),
     settlement_allocations := settlement_allocations db @
       map (Pair sid) (map (\<lambda>(index, allocation). (int index, allocation)) (enumerate 0 (srec_Allocations record)))\<rparr>)"

lemma settlement_appended_simps [simp]:
  "ledger_entries (settlement_appended db r) = ledger_entries db" "ledger_merkle_nodes (settlement_appended db r) = ledger_merkle_nodes db"
  "registry_identity (settlement_appended db r) = registry_identity db" "ledger_weight_rows (settlement_appended db r) = ledger_weight_rows db"
  "mau_batches (settlement_appended db r) = mau_batches db" "checkpoints (settlement_appended db r) = checkpoints db"
  "deployments (settlement_appended db r) = deployments db" "revenue_batches (settlement_appended db r) = revenue_batches db"
  "revenue_query_rows (settlement_appended db r) = revenue_query_rows db"
  "settlements (settlement_appended db r) = settlements db @ [settlementRow r]"
  by (simp_all add: settlement_appended_def Let_def)

lemma settlementRow_simps [simp]:
  "st_settlement_id (settlementRow r) = srec_SettlementID r" "st_period (settlementRow r) = srec_Period r"
  "st_currency_code (settlementRow r) = srec_CurrencyCode r" "st_revision (settlementRow r) = srec_Revision r"
  "st_source_fingerprint (settlementRow r) = srec_SourceFingerprint r" "st_ledger_index (settlementRow r) = le_LedgerIndex (srec_LedgerEntry r)"
  by (simp_all add: settlementRow_def)

lemma insertSettlementTx_Inr:
  assumes "insertSettlementTx H db record = Inr db'" "entry = srec_LedgerEntry record"
    and "le_DeploymentID entry = []" "le_QualifiedMAUCount entry = 0"
  obtains nodes where
    "appendMerkleEntryTx H (db\<lparr>ledger_entries := ledger_entries db @ [entry]\<rparr>) (le_LedgerIndex entry) (le_EntryHash entry) =
       Inr (db\<lparr>ledger_entries := ledger_entries db @ [entry], ledger_merkle_nodes := nodes\<rparr>)"
    "db' = settlement_appended (db\<lparr>ledger_entries := ledger_entries db @ [entry], ledger_merkle_nodes := nodes\<rparr>) record"
    "le_LedgerIndex entry \<notin> le_LedgerIndex ` set (ledger_entries db)"
    "srec_SettlementID record \<notin> st_settlement_id ` set (settlements db)"
    "(srec_Period record, srec_CurrencyCode record, srec_SourceFingerprint record) \<notin>
       (\<lambda>r. (st_period r, st_currency_code r, st_source_fingerprint r)) ` set (settlements db)"
proof -
  let ?sid = "srec_SettlementID record" and ?rows = "map (\<lambda>(index, allocation). (int index, allocation)) (enumerate 0 (srec_Allocations record))"
  have same: "entry\<lparr>le_DeploymentID := [], le_QualifiedMAUCount := 0\<rparr> = entry"
    using assms(3,4) by (cases entry) simp
  from assms(1) obtain db1 db2 db3 db4 db5 db6 db7 where
    1: "insert_ledger_entry db entry = Inr db1" and
    2: "appendMerkleEntryTx H db1 (le_LedgerIndex entry) (le_EntryHash entry) = Inr db2" and
    3: "insert_settlement db2 (settlementRow record) = Inr db3" and
    4: "insert_all (insert_settlement_revenue_source ?sid) db3 (srec_RevenueSources record) = Inr db4" and
    5: "insert_all (insert_settlement_ttm_month ?sid) db4 (srec_TTMMonths record) = Inr db5" and
    6: "insert_all (insert_settlement_weight_source ?sid) db5 (srec_WeightSources record) = Inr db6" and
    7: "insert_all (insert_settlement_beneficiary_deployment ?sid) db6 (srec_BeneficiaryDeployments record) = Inr db7" and
    8: "insert_all (insert_settlement_allocation ?sid) db7 ?rows = Inr db'"
    unfolding insertSettlementTx_def Let_def assms(2) [symmetric] same result_simps by blast
  from 1 have e1: "db1 = db\<lparr>ledger_entries := ledger_entries db @ [entry]\<rparr>"
    and n1: "le_LedgerIndex entry \<notin> le_LedgerIndex ` set (ledger_entries db)"
    by (simp_all add: insert_ledger_entry_def split: if_splits)
  from appendMerkleEntryTx_frame [OF 2] obtain nodes where e2: "db2 = db1\<lparr>ledger_merkle_nodes := nodes\<rparr>" by blast
  from 3 have e3: "db3 = db2\<lparr>settlements := settlements db2 @ [settlementRow record]\<rparr>"
    and n3: "?sid \<notin> st_settlement_id ` set (settlements db2)"
      "(srec_Period record, srec_CurrencyCode record, srec_SourceFingerprint record) \<notin>
         (\<lambda>r. (st_period r, st_currency_code r, st_source_fingerprint r)) ` set (settlements db2)"
    unfolding insert_settlement_def settlementRow_simps by (simp_all split: if_split_asm)
  show thesis
  proof (rule that)
    show "db' = settlement_appended (db\<lparr>ledger_entries := ledger_entries db @ [entry], ledger_merkle_nodes := nodes\<rparr>) record"
      unfolding insert_details(5) [OF 8] insert_details(4) [OF 7] insert_details(3) [OF 6] insert_details(2) [OF 5] insert_details(1) [OF 4] e3 e2 e1
      by (simp add: settlement_appended_def Let_def)
  qed (use 2 n1 n3 in \<open>simp_all add: e1 e2\<close>)
qed

subsection \<open>A calculation case by case\<close>

abbreviation signed_settlement :: "SettlementRecord \<Rightarrow> bytes \<Rightarrow> SettlementRecord" where
  "signed_settlement record sig \<equiv> record\<lparr>srec_ReceiptSignature := sig\<rparr>"

lemma CalculateSettlement_cases:
  assumes "CalculateSettlement H db ops transfers input signReceipt = Inr (db', record, duplicate)"
  obtains (known) sources where "duplicate" "db' = db" "settlementSourcesTx H db ops transfers input = Inr sources"
      "latestSettlementTx db (sci_Period input) (sci_CurrencyCode input) = Inr (Some record)"
      "srec_SourceFingerprint record = srec_SourceFingerprint sources"
  | (fresh) sources latest sig where "\<not> duplicate"
      "ensureAcceptedAtAfterRegistryCreation db (sci_AcceptedAt input) = Inr ()"
      "ensureAcceptedAtAfterCheckpoint db (sci_AcceptedAt input) = Inr ()"
      "ensureAcceptedAtNotBeforeHead (sci_AcceptedAt input) (lh_AcceptedAt (ledgerHeadTx db)) = Inr ()"
      "settlementSourcesTx H db ops transfers input = Inr sources"
      "latestSettlementTx db (sci_Period input) (sci_CurrencyCode input) = Inr latest"
      "record = signed_settlement (hashed_settlement H input (ledgerHeadTx db) (numbered_settlement input latest sources)) sig"
      "insertSettlementTx H db record = Inr db'"
      "signReceipt (hashed_settlement H input (ledgerHeadTx db) (numbered_settlement input latest sources)) = Some sig"
proof -
  from assms obtain sources latest where
    t: "ensureAcceptedAtAfterRegistryCreation db (sci_AcceptedAt input) = Inr ()"
      "ensureAcceptedAtAfterCheckpoint db (sci_AcceptedAt input) = Inr ()"
      "ensureAcceptedAtNotBeforeHead (sci_AcceptedAt input) (lh_AcceptedAt (ledgerHeadTx db)) = Inr ()"
    and s: "settlementSourcesTx H db ops transfers input = Inr sources"
    and l: "latestSettlementTx db (sci_Period input) (sci_CurrencyCode input) = Inr latest"
    unfolding CalculateSettlement_def Let_def result_simps by auto
  let ?match = "case latest of None \<Rightarrow> None
    | Some l \<Rightarrow> if srec_SourceFingerprint l = srec_SourceFingerprint sources then Some l else None"
  show thesis
  proof (cases ?match)
    case None
    with assms obtain sig where "\<not> duplicate"
        "record = signed_settlement (hashed_settlement H input (ledgerHeadTx db) (numbered_settlement input latest sources)) sig"
        "insertSettlementTx H db record = Inr db'"
        "signReceipt (hashed_settlement H input (ledgerHeadTx db) (numbered_settlement input latest sources)) = Some sig"
      by (simp add: CalculateSettlement_def t s l Let_def result_simps) blast
    then show thesis using fresh t s l by blast
  next
    case (Some known_record)
    then have "latest = Some known_record" "srec_SourceFingerprint known_record = srec_SourceFingerprint sources"
      by (auto split: option.splits if_splits)
    moreover from Some assms have "duplicate" "db' = db" "record = known_record"
      by (simp_all add: CalculateSettlement_def t s l Let_def)
    ultimately show thesis using known s l by blast
  qed
qed

text \<open>What the steps after the sources leave of them.\<close>

lemma numbered_settlement_simps [simp]:
  "srec_SettlementID (numbered_settlement input latest r) = sci_CandidateSettlementID input"
  "srec_RegistryKeyID (numbered_settlement input latest r) = sci_RegistryKeyID input"
  "srec_Revision (numbered_settlement input latest r) = (case latest of None \<Rightarrow> 1 | Some l \<Rightarrow> i64 (srec_Revision l + 1))"
  "srec_Period (numbered_settlement input latest r) = srec_Period r" "srec_CurrencyCode (numbered_settlement input latest r) = srec_CurrencyCode r"
  "srec_SourceFingerprint (numbered_settlement input latest r) = srec_SourceFingerprint r"
  "srec_Allocations (numbered_settlement input latest r) = srec_Allocations r" "srec_TTMMonths (numbered_settlement input latest r) = srec_TTMMonths r"
  "srec_RevenueSources (numbered_settlement input latest r) = srec_RevenueSources r"
  "srec_WeightSources (numbered_settlement input latest r) = srec_WeightSources r"
  "srec_BeneficiaryDeployments (numbered_settlement input latest r) = srec_BeneficiaryDeployments r"
  "srec_NetworkCommissionPoolMinor (numbered_settlement input latest r) = srec_NetworkCommissionPoolMinor r"
  "srec_IndicativeNetworkValueMinor (numbered_settlement input latest r) = srec_IndicativeNetworkValueMinor r"
  "srec_CommissionBasisMinor (numbered_settlement input latest r) = srec_CommissionBasisMinor r"
  by (cases latest; simp add: numbered_settlement_def Let_def)+

lemma hashed_settlement_simps [simp]:
  "srec_SettlementID (hashed_settlement H input head r) = srec_SettlementID r"
  "srec_Revision (hashed_settlement H input head r) = srec_Revision r"
  "srec_Period (hashed_settlement H input head r) = srec_Period r" "srec_CurrencyCode (hashed_settlement H input head r) = srec_CurrencyCode r"
  "srec_SourceFingerprint (hashed_settlement H input head r) = srec_SourceFingerprint r"
  "srec_Allocations (hashed_settlement H input head r) = srec_Allocations r" "srec_TTMMonths (hashed_settlement H input head r) = srec_TTMMonths r"
  "srec_RevenueSources (hashed_settlement H input head r) = srec_RevenueSources r"
  "srec_WeightSources (hashed_settlement H input head r) = srec_WeightSources r"
  "srec_BeneficiaryDeployments (hashed_settlement H input head r) = srec_BeneficiaryDeployments r"
  "srec_NetworkCommissionPoolMinor (hashed_settlement H input head r) = srec_NetworkCommissionPoolMinor r"
  "srec_IndicativeNetworkValueMinor (hashed_settlement H input head r) = srec_IndicativeNetworkValueMinor r"
  "srec_CommissionBasisMinor (hashed_settlement H input head r) = srec_CommissionBasisMinor r"
  by (simp_all add: hashed_settlement_def Let_def)

lemma settlement_ledger_entry [simp]:
  "le_LedgerIndex (srec_LedgerEntry (hashed_settlement H input head r)) = i64 (lh_LedgerIndex head + 1)"
  "le_RegistryScope (srec_LedgerEntry (hashed_settlement H input head r)) = sci_RegistryScope input"
  "le_PreviousEntryHash (srec_LedgerEntry (hashed_settlement H input head r)) = lh_EntryHash head"
  "le_AcceptedAt (srec_LedgerEntry (hashed_settlement H input head r)) = sci_AcceptedAt input"
  "le_EntryType (srec_LedgerEntry (hashed_settlement H input head r)) = SettlementEntryType"
  "le_DeploymentID (srec_LedgerEntry (hashed_settlement H input head r)) = []"
  "le_QualifiedMAUCount (srec_LedgerEntry (hashed_settlement H input head r)) = 0"
  by (simp_all add: hashed_settlement_def settlement_entry_def Let_def)

lemma settlement_ledger_entry_hash:
  "le_EntryHash (srec_LedgerEntry (hashed_settlement H input head r)) = Digest H (LedgerEntryMessage (srec_LedgerEntry (hashed_settlement H input head r)))"
  by (simp add: hashed_settlement_def settlement_entry_def Let_def LedgerEntryMessage_def)

lemma inserted_settlement:
  assumes "record = signed_settlement (hashed_settlement H input head r) sig" "insertSettlementTx H db record = Inr db'"
  obtains nodes where
    "appendMerkleEntryTx H (db\<lparr>ledger_entries := ledger_entries db @ [srec_LedgerEntry record]\<rparr>) (le_LedgerIndex (srec_LedgerEntry record))
       (le_EntryHash (srec_LedgerEntry record)) =
       Inr (db\<lparr>ledger_entries := ledger_entries db @ [srec_LedgerEntry record], ledger_merkle_nodes := nodes\<rparr>)"
    "db' = settlement_appended (db\<lparr>ledger_entries := ledger_entries db @ [srec_LedgerEntry record], ledger_merkle_nodes := nodes\<rparr>) record"
    "le_LedgerIndex (srec_LedgerEntry record) \<notin> le_LedgerIndex ` set (ledger_entries db)"
    "srec_SettlementID record \<notin> st_settlement_id ` set (settlements db)"
proof -
  have d: "le_DeploymentID (srec_LedgerEntry record) = []" "le_QualifiedMAUCount (srec_LedgerEntry record) = 0" by (simp_all add: assms(1))
  show thesis by (rule insertSettlementTx_Inr [OF assms(2) refl d]) (rule that)
qed

subsection \<open>The ledger stays verifiable\<close>

definition settlement_for :: "registry_db \<Rightarrow> SettlementCalculationInput \<Rightarrow> bool" where
  "settlement_for db input \<longleftrightarrow> (\<exists>identity. registry_identity db = Some identity \<and> sci_RegistryScope input = sri_RegistryScope identity) \<and>
     has_suffix_Z (sci_AcceptedAt input)"

lemma CalculateSettlement_verified:
  assumes H: "digest32 H" and v: "ledger_verified H db" and n: "length (ledger_entries db) < 2 ^ 62" and "settlement_for db input"
    and "CalculateSettlement H db ops transfers input signReceipt = Inr (db', record, False)"
  shows "ledger_verified H db' \<and> ledger_entries db' = ledger_entries db @ [srec_LedgerEntry record]"
  using assms(5)
proof (cases rule: CalculateSettlement_cases)
  case (fresh sources latest sig)
  let ?e = "srec_LedgerEntry record"
  from assms(4) obtain identity where ident: "registry_identity db = Some identity" "sci_RegistryScope input = sri_RegistryScope identity"
    and z: "has_suffix_Z (sci_AcceptedAt input)" by (auto simp: settlement_for_def)
  note v' = v [unfolded ledger_verified_def]
  have ext: "entry_extends H (sri_RegistryScope identity) (ledger_entries db) ?e"
    using v' ident by (intro head_entry_extends [OF H _ _ n z fresh(2,4)]) (simp_all add: fresh(7) settlement_ledger_entry_hash)
  obtain nodes where nodes: "appendMerkleEntryTx H (db\<lparr>ledger_entries := ledger_entries db @ [?e]\<rparr>) (le_LedgerIndex ?e) (le_EntryHash ?e) =
        Inr (db\<lparr>ledger_entries := ledger_entries db @ [?e], ledger_merkle_nodes := nodes\<rparr>)"
      and db': "db' = settlement_appended (db\<lparr>ledger_entries := ledger_entries db @ [?e], ledger_merkle_nodes := nodes\<rparr>) record"
      and new: "le_LedgerIndex ?e \<notin> le_LedgerIndex ` set (ledger_entries db)"
    by (rule inserted_settlement [OF fresh(7,8)])
  have "VerifyLedgerWeightRows db' = Inr ()"
    by (rule VerifyLedgerWeightRows_extend_plain [of db db' ?e]) (use v' new in \<open>simp_all add: db' fresh(7)\<close>)
  moreover have "ledger_sorted db' \<and> merkle_rows_ok (ledger_merkle_nodes db') \<and> VerifyLedger H db' = Inr () \<and> VerifyMerkleTree H db' = Inr ()"
    by (rule append_entry_verified [OF H v n ident(1) ext nodes]) (simp_all add: db')
  ultimately show ?thesis by (simp add: ledger_verified_def db')
qed simp

subsection \<open>The sources of a calculation\<close>

lemma ttm_loop_periods: "ttm_loop basis acc months = Inr (total', rows) \<Longrightarrow> map stm_Period rows = months"
  by (induction months arbitrary: acc total' rows) (auto simp: Let_def result_simps split: prod.splits)

lemma settlementSourcesTx_Inr:
  assumes "settlementSourcesTx H db ops transfers input = Inr r"
    and "boundary = settlementBoundaryTx db ops transfers (sci_AcceptedAt input)"
  obtains m sources basis ttm months v weights members measured ratios allocations r0 where
    "time_Parse_month (sci_Period input) = Some m"
    "sources = settlementRevenueSourcesTx db (sci_CurrencyCode input) (format_first_day (m - 11)) (format_first_day (m + 1)) (lb_LedgerIndex boundary)"
    "monthly_basis_loop (\<lambda>_. 0) sources = Inr basis"
    "ttm_loop basis 0 (map (\<lambda>offset. format_month (m - 11 + int offset)) [0..<12]) = Inr (ttm, months)"
    "settlement_valuation input months ttm = Inr v" "10 \<le> length (sci_AcceptedAt input)"
    "settlementWeightSourcesTx db ops transfers (format_month (m - 5)) (sci_Period input) boundary (take 10 (sci_AcceptedAt input)) =
      Inr (weights, members, measured)"
    "settlementRatios weights measured = Inr ratios"
    "allocateSettlementAmounts ratios (RevenueCommissionMinor (basis (sci_Period input))) (vf_indicativeValue v) = Inr allocations"
    "r0 = settlement_record input boundary v (basis (sci_Period input)) ttm sources months weights members allocations"
    "settlementRecordHasSafeMinorAmounts r0" "r = r0\<lparr>srec_SourceFingerprint := settlementSourceFingerprint H r0\<rparr>"
  using assms(1) unfolding settlementSourcesTx_def Let_def result_simps assms(2) [symmetric]
  by (auto simp: result_simps not_less split: if_splits prod.splits)

lemma settlementSourcesTx_steps:
  assumes "settlementSourcesTx H db ops transfers input = Inr r"
  obtains m basis ttm v measured ratios where
    "time_Parse_month (sci_Period input) = Some m"
    "ttm_loop basis 0 (map (\<lambda>offset. format_month (m - 11 + int offset)) [0..<12]) = Inr (ttm, srec_TTMMonths r)"
    "settlement_valuation input (srec_TTMMonths r) ttm = Inr v"
    "settlementWeightSourcesTx db ops transfers (format_month (m - 5)) (sci_Period input)
       (settlementBoundaryTx db ops transfers (sci_AcceptedAt input)) (take 10 (sci_AcceptedAt input)) =
       Inr (srec_WeightSources r, srec_BeneficiaryDeployments r, measured)"
    "settlementRatios (srec_WeightSources r) measured = Inr ratios"
    "allocateSettlementAmounts ratios (srec_NetworkCommissionPoolMinor r) (srec_IndicativeNetworkValueMinor r) = Inr (srec_Allocations r)"
    "srec_NetworkCommissionPoolMinor r = RevenueCommissionMinor (srec_CommissionBasisMinor r)"
    "settlementRecordHasSafeMinorAmounts r"
    "srec_RevenueSources r = settlementRevenueSourcesTx db (sci_CurrencyCode input) (format_first_day (m - 11)) (format_first_day (m + 1))
       (lb_LedgerIndex (settlementBoundaryTx db ops transfers (sci_AcceptedAt input)))"
    "srec_Period r = sci_Period input" "srec_CurrencyCode r = sci_CurrencyCode input"
proof -
  let ?boundary = "settlementBoundaryTx db ops transfers (sci_AcceptedAt input)"
  obtain m sources basis ttm months v weights members measured ratios allocations r0 where
    m: "time_Parse_month (sci_Period input) = Some m" and
    s: "sources = settlementRevenueSourcesTx db (sci_CurrencyCode input) (format_first_day (m - 11)) (format_first_day (m + 1)) (lb_LedgerIndex ?boundary)" and
    l: "ttm_loop basis 0 (map (\<lambda>offset. format_month (m - 11 + int offset)) [0..<12]) = Inr (ttm, months)" and
    v: "settlement_valuation input months ttm = Inr v" and
    w: "settlementWeightSourcesTx db ops transfers (format_month (m - 5)) (sci_Period input) ?boundary (take 10 (sci_AcceptedAt input)) =
      Inr (weights, members, measured)" and
    q: "settlementRatios weights measured = Inr ratios" and
    a: "allocateSettlementAmounts ratios (RevenueCommissionMinor (basis (sci_Period input))) (vf_indicativeValue v) = Inr allocations" and
    r0: "r0 = settlement_record input ?boundary v (basis (sci_Period input)) ttm sources months weights members allocations" and
    safe: "settlementRecordHasSafeMinorAmounts r0" and r: "r = r0\<lparr>srec_SourceFingerprint := settlementSourceFingerprint H r0\<rparr>"
    by (rule settlementSourcesTx_Inr [OF assms refl])
  have f: "srec_TTMMonths r = months" "srec_WeightSources r = weights" "srec_BeneficiaryDeployments r = members"
    "srec_NetworkCommissionPoolMinor r = RevenueCommissionMinor (basis (sci_Period input))" "srec_IndicativeNetworkValueMinor r = vf_indicativeValue v"
    "srec_Allocations r = allocations" "srec_CommissionBasisMinor r = basis (sci_Period input)" "srec_Period r = sci_Period input"
    "srec_RevenueSources r = settlementRevenueSourcesTx db (sci_CurrencyCode input) (format_first_day (m - 11)) (format_first_day (m + 1))
      (lb_LedgerIndex ?boundary)" "srec_CurrencyCode r = sci_CurrencyCode input"
    by (simp_all add: r r0 s settlement_record_def)
  have "settlementRecordHasSafeMinorAmounts r" using safe by (simp add: r settlementRecordHasSafeMinorAmounts_def)
  then show thesis using m l v w q a f by (intro that) simp_all
qed

subsection \<open>A stored settlement is read back as it was written\<close>

lemma format_month_less:
  assumes "0 \<le> m" "m < n" "n < 120000"
  shows "format_month m < format_month n"
proof -
  have y: "0 \<le> m div 12" "m div 12 \<le> n div 12" "n div 12 < 10000" using assms by (auto intro: zdiv_mono1)
  have k: "0 \<le> x mod 12" "x mod 12 < 12" for x :: int by simp_all
  have pad: "format_month x = pad_decimal 4 (nat (x div 12)) @ ''-'' @ pad_decimal 2 (nat (x mod 12 + 1))" if "0 \<le> x div 12" "x div 12 < 10000" for x
    unfolding format_month_def using that k [of x] appendInt_pad [of "nat (x div 12)" 4] appendInt_pad [of "nat (x mod 12 + 1)" 2]
    by (simp add: nat_less_iff)
  show ?thesis
  proof (cases "m div 12 = n div 12")
    case True
    have "m mod 12 < n mod 12" using assms(2) True mult_div_mod_eq [of 12 m] mult_div_mod_eq [of 12 n] by linarith
    then have "pad_decimal 2 (nat (m mod 12 + 1)) < pad_decimal 2 (nat (n mod 12 + 1))"
      using k [of m] k [of n] by (intro pad_decimal_less) (simp_all add: nat_less_iff)
    then show ?thesis using y by (simp add: pad True)
  next
    case False
    then have "pad_decimal 4 (nat (m div 12)) < pad_decimal 4 (nat (n div 12))" using y by (intro pad_decimal_less) (simp_all add: nat_less_iff)
    then show ?thesis using y unfolding pad [OF y(1) order_le_less_trans [OF y(2,3)]] pad [OF order_trans [OF y(1,2)] y(3)]
      by (intro append_less) simp_all
  qed
qed

text \<open>The months of the year before year 0 start with a minus sign, which sorts before all digits.\<close>

lemma format_month_before_0:
  assumes "- 12 \<le> m" "m < 0"
  shows "format_month m = ''-0001-'' @ pad_decimal 2 (nat (m mod 12 + 1))"
proof -
  have y: "m div 12 = - 1" using assms by (intro int_div_pos_eq [of m 12 "-1" "m + 12"]) simp_all
  have "0 \<le> m mod 12" "m mod 12 < 12" by simp_all
  then have "appendInt (m mod 12 + 1) 2 = pad_decimal 2 (nat (m mod 12 + 1))" using appendInt_pad [of "nat (m mod 12 + 1)" 2] by (simp add: nat_less_iff)
  moreover have "appendInt (- 1) 4 = ''-0001''" by code_simp
  ultimately show ?thesis unfolding format_month_def y by simp
qed

lemma minus_before_year:
  assumes "0 \<le> m" "m < 120000"
  shows "CHR ''-'' # s < format_month m"
proof -
  have y: "0 \<le> m div 12" "m div 12 < 10000" using assms by simp_all
  have a: "appendInt (m div 12) 4 = pad_decimal 4 (nat (m div 12))" using y appendInt_pad [of "nat (m div 12)" 4] by (simp add: nat_less_iff)
  obtain c rest where c: "pad_decimal 4 (nat (m div 12)) = c # rest" using length_pad_decimal [of 4 "nat (m div 12)"] by (cases "pad_decimal 4 (nat (m div 12))") simp_all
  have "is_digit c" using pad_decimal_digits [of 4 "nat (m div 12)"] by (simp add: c)
  then have "CHR ''-'' < c" by (auto simp: is_digit_def less_char_def)
  then show ?thesis by (simp add: format_month_def a c)
qed

lemma format_month_less_all:
  assumes "- 12 \<le> m" "m < n" "n < 120000"
  shows "format_month m < format_month n"
proof (cases "m < 0")
  case m: True
  show ?thesis
  proof (cases "n < 0")
    case True
    have "m mod 12 = m + 12" "n mod 12 = n + 12" using assms m True by (auto intro: int_mod_pos_eq [where q = "- 1"])
    then have "pad_decimal 2 (nat (m mod 12 + 1)) < pad_decimal 2 (nat (n mod 12 + 1))"
      using assms True by (intro pad_decimal_less) (simp_all add: nat_less_iff)
    then show ?thesis using assms m True by (simp add: format_month_before_0)
  next
    case False
    then show ?thesis using assms m minus_before_year [of n "''0001-'' @ pad_decimal 2 (nat (m mod 12 + 1))"] by (simp add: format_month_before_0)
  qed
qed (use assms in \<open>simp add: format_month_less\<close>)
lemma time_Parse_month_bound:
  assumes "time_Parse_month s = Some m"
  shows "0 \<le> m" "m < 120000"
proof -
  from assms have d: "4 \<le> length s" "list_all is_digit (take 4 s)" "digits_val (take 4 s) * 12 \<le> m" "m < digits_val (take 4 s) * 12 + 12"
    by (auto simp: time_Parse_month_def bind_eq_Some_conv split: if_splits prod.splits)
  have "length (take 4 s) = 4" using d(1) by simp
  then have "0 \<le> digits_val (take 4 s)" "digits_val (take 4 s) < 10000" using pad_digits_val [OF d(2)] by simp_all
  then show "0 \<le> m" "m < 120000" using d(3,4) by linarith+
qed

lemma ttm_periods_sorted:
  assumes "0 \<le> m" "m < 120000"
  shows "sorted (map (\<lambda>offset. format_month (m - 11 + int offset)) [0..<12])"
  unfolding sorted_iff_nth_mono_less
proof (intro allI impI)
  fix i j assume "i < j" "j < length (map (\<lambda>offset. format_month (m - 11 + int offset)) [0..<12])"
  then show "map (\<lambda>offset. format_month (m - 11 + int offset)) [0..<12] ! i \<le> map (\<lambda>offset. format_month (m - 11 + int offset)) [0..<12] ! j"
    using assms format_month_less_all [of "m - 11 + int i" "m - 11 + int j"] by (simp add: less_imp_le)
qed

text \<open>The detail rows belong to settlements, and settlements have unique identifiers.\<close>

definition settlements_ok :: "registry_db \<Rightarrow> bool" where
  "settlements_ok db \<longleftrightarrow> distinct (map st_settlement_id (settlements db)) \<and>
     fst ` set (settlement_revenue_sources db) \<union> fst ` set (settlement_ttm_months db) \<union> fst ` set (settlement_weight_sources db) \<union>
     fst ` set (settlement_beneficiary_deployments db) \<union> fst ` set (settlement_allocations db) \<subseteq> st_settlement_id ` set (settlements db)"

lemma settlements_ok_appended:
  assumes "settlements_ok db" "srec_SettlementID r \<notin> st_settlement_id ` set (settlements db)"
  shows "settlements_ok (settlement_appended db r)"
  using assms unfolding settlements_ok_def by (auto simp: settlement_appended_def Let_def settlementRow_def)

lemma filter_other_rows: "sid \<notin> fst ` set old \<Longrightarrow> filter (\<lambda>r. fst r = sid) old = []"
  by (auto simp: filter_empty_conv)

lemma filter_own_rows: "sid \<notin> fst ` set old \<Longrightarrow> filter (\<lambda>r. fst r = sid) (old @ map (Pair sid) rows) = map (Pair sid) rows"
  by (simp add: filter_other_rows filter_id_conv)

lemma appended_details:
  assumes "settlements_ok db" "srec_SettlementID r \<notin> st_settlement_id ` set (settlements db)"
    and "sorted (map srs_SourceOrder (srec_RevenueSources r))" "sorted (map stm_Period (srec_TTMMonths r))"
    and "sorted (map sws_BeneficiaryID (srec_WeightSources r))"
    and "sorted (map (\<lambda>m. (sbd_BeneficiaryID m, sbd_DeploymentID m)) (srec_BeneficiaryDeployments r))"
  shows "settlementRevenueSourcesQuery (settlement_appended db r) (srec_SettlementID r) = srec_RevenueSources r"
    and "settlementTTMMonthsQuery (settlement_appended db r) (srec_SettlementID r) = srec_TTMMonths r"
    and "settlementWeightSourcesQuery (settlement_appended db r) (srec_SettlementID r) = srec_WeightSources r"
    and "settlementMembersQuery (settlement_appended db r) (srec_SettlementID r) = srec_BeneficiaryDeployments r"
    and "settlementAllocationsQuery (settlement_appended db r) (srec_SettlementID r) = srec_Allocations r"
proof -
  have new: "srec_SettlementID r \<notin> fst ` set (settlement_revenue_sources db)" "srec_SettlementID r \<notin> fst ` set (settlement_ttm_months db)"
    "srec_SettlementID r \<notin> fst ` set (settlement_weight_sources db)" "srec_SettlementID r \<notin> fst ` set (settlement_beneficiary_deployments db)"
    "srec_SettlementID r \<notin> fst ` set (settlement_allocations db)"
    using assms(1,2) unfolding settlements_ok_def by blast+
  let ?rows = "map (\<lambda>(index, allocation). (int index, allocation)) (enumerate 0 (srec_Allocations r))"
  have idx: "map fst ?rows = map int [0..<length (srec_Allocations r)]" "map snd ?rows = srec_Allocations r"
    by (rule nth_equalityI; simp add: nth_enumerate_eq)+
  have "sorted (map (fst \<circ> snd) (map (Pair (srec_SettlementID r)) ?rows))"
    using idx(1) by (simp add: comp_def sorted_map sorted_wrt_upt)
  then have "sort_key (fst \<circ> snd) (map (Pair (srec_SettlementID r)) ?rows) = map (Pair (srec_SettlementID r)) ?rows"
    by (rule sort_key_id_if_sorted)
  moreover have "settlement_allocations (settlement_appended db r) = settlement_allocations db @ map (Pair (srec_SettlementID r)) ?rows"
    by (simp add: settlement_appended_def Let_def)
  ultimately show "settlementAllocationsQuery (settlement_appended db r) (srec_SettlementID r) = srec_Allocations r"
    unfolding settlementAllocationsQuery_def using filter_own_rows [OF new(5), of ?rows] idx(2) by (simp add: comp_def split_def)
  show "settlementRevenueSourcesQuery (settlement_appended db r) (srec_SettlementID r) = srec_RevenueSources r"
    "settlementTTMMonthsQuery (settlement_appended db r) (srec_SettlementID r) = srec_TTMMonths r"
    "settlementWeightSourcesQuery (settlement_appended db r) (srec_SettlementID r) = srec_WeightSources r"
    "settlementMembersQuery (settlement_appended db r) (srec_SettlementID r) = srec_BeneficiaryDeployments r"
    using assms(3-6)
    by (simp_all add: settlementRevenueSourcesQuery_def settlementTTMMonthsQuery_def settlementWeightSourcesQuery_def settlementMembersQuery_def
      settlement_appended_def Let_def filter_other_rows [OF new(1)] filter_other_rows [OF new(2)] filter_other_rows [OF new(3)]
      filter_other_rows [OF new(4)] sort_key_id_if_sorted comp_def)
qed

lemma find_snoc_None: "find P xs = None \<Longrightarrow> P x \<Longrightarrow> find P (xs @ [x]) = Some x"
  by (induction xs) (auto split: if_splits)

lemma settlementByIDQuery_appended:
  assumes "settlements_ok db" "srec_SettlementID r \<notin> st_settlement_id ` set (settlements db)"
    and "find (\<lambda>l. le_LedgerIndex l = le_LedgerIndex (srec_LedgerEntry r)) (ledger_entries db) = Some (srec_LedgerEntry r)"
    and "sorted (map srs_SourceOrder (srec_RevenueSources r))" "sorted (map stm_Period (srec_TTMMonths r))"
    and "sorted (map sws_BeneficiaryID (srec_WeightSources r))"
    and "sorted (map (\<lambda>m. (sbd_BeneficiaryID m, sbd_DeploymentID m)) (srec_BeneficiaryDeployments r))"
  shows "settlementByIDQuery (settlement_appended db r) (srec_SettlementID r) = Inr r"
proof -
  have none: "find (\<lambda>s. st_settlement_id s = srec_SettlementID r) (settlements db) = None"
    using assms(2) unfolding find_None_iff by (metis image_eqI)
  have "find (\<lambda>s. st_settlement_id s = srec_SettlementID r) (settlements db @ [settlementRow r]) = Some (settlementRow r)"
    by (rule find_snoc_None [OF none]) simp
  then show ?thesis using assms(3) unfolding settlementByIDQuery_def
    by (simp add: appended_details [OF assms(1,2,4-7)]) (simp add: settlementRow_def)
qed

lemma revenue_sources_order: "map srs_SourceOrder (settlementRevenueSourcesTx db c f t i) = map int [0..<length (settlementRevenueSourcesTx db c f t i)]"
  unfolding settlementRevenueSourcesTx_def Let_def by (rule nth_equalityI) (simp_all add: nth_enumerate_eq)

lemma settlementSourcesTx_sorted:
  assumes "settlementSourcesTx H db ops transfers input = Inr r"
  shows "sorted (map srs_SourceOrder (srec_RevenueSources r))" "sorted (map stm_Period (srec_TTMMonths r))"
    "sorted (map sws_BeneficiaryID (srec_WeightSources r))"
    "sorted (map (\<lambda>m. (sbd_BeneficiaryID m, sbd_DeploymentID m)) (srec_BeneficiaryDeployments r))"
proof -
  obtain m' basis ttm measured where m': "time_Parse_month (sci_Period input) = Some m'"
    and l: "ttm_loop basis 0 (map (\<lambda>offset. format_month (m' - 11 + int offset)) [0..<12]) = Inr (ttm, srec_TTMMonths r)"
    and w: "settlementWeightSourcesTx db ops transfers (format_month (m' - 5)) (sci_Period input)
       (settlementBoundaryTx db ops transfers (sci_AcceptedAt input)) (take 10 (sci_AcceptedAt input)) =
       Inr (srec_WeightSources r, srec_BeneficiaryDeployments r, measured)"
    and s: "srec_RevenueSources r = settlementRevenueSourcesTx db (sci_CurrencyCode input) (format_first_day (m' - 11)) (format_first_day (m' + 1))
       (lb_LedgerIndex (settlementBoundaryTx db ops transfers (sci_AcceptedAt input)))"
    by (rule settlementSourcesTx_steps [OF assms]) (rule that)
  show "sorted (map srs_SourceOrder (srec_RevenueSources r))" unfolding s revenue_sources_order by (simp add: sorted_map sorted_wrt_upt)
  show "sorted (map stm_Period (srec_TTMMonths r))"
    unfolding ttm_loop_periods [OF l] by (rule ttm_periods_sorted) (rule time_Parse_month_bound [OF m'])+
  obtain groups members where weights: "map sws_BeneficiaryID (srec_WeightSources r) = filter groups (claimed_groups members)"
    and members: "map (\<lambda>m. (sbd_BeneficiaryID m, sbd_DeploymentID m)) (srec_BeneficiaryDeployments r) =
      map (\<lambda>m. (lm_group_id (fst m), lm_deployment_id (fst m))) (sort_key (\<lambda>m. (lm_group_id (fst m), lm_deployment_id (fst m))) members)"
    by (rule settlementWeightSourcesTx_Inr [OF w refl]) (auto simp: comp_def)
  show "sorted (map sws_BeneficiaryID (srec_WeightSources r))"
    unfolding weights by (rule sorted_wrt_filter) (simp add: claimed_groups_def)
  show "sorted (map (\<lambda>m. (sbd_BeneficiaryID m, sbd_DeploymentID m)) (srec_BeneficiaryDeployments r))"
    unfolding members by (rule sorted_sort_key)
qed

lemma CalculateSettlement_stored:
  assumes "settlements_ok db" "CalculateSettlement H db ops transfers input signReceipt = Inr (db', record, False)"
  shows "settlements_ok db'" "settlementByIDQuery db' (srec_SettlementID record) = Inr record"
    "settlements db' = settlements db @ [settlementRow record]"
proof -
  from assms(2) have "settlements_ok db' \<and> settlementByIDQuery db' (srec_SettlementID record) = Inr record \<and>
    settlements db' = settlements db @ [settlementRow record]"
  proof (cases rule: CalculateSettlement_cases)
    case (fresh sources latest sig)
    let ?e = "srec_LedgerEntry record"
    obtain nodes where db': "db' = settlement_appended (db\<lparr>ledger_entries := ledger_entries db @ [?e], ledger_merkle_nodes := nodes\<rparr>) record"
        and new: "le_LedgerIndex ?e \<notin> le_LedgerIndex ` set (ledger_entries db)" "srec_SettlementID record \<notin> st_settlement_id ` set (settlements db)"
      by (rule inserted_settlement [OF fresh(7,8)])
    let ?db1 = "db\<lparr>ledger_entries := ledger_entries db @ [?e], ledger_merkle_nodes := nodes\<rparr>"
    have ok: "settlements_ok ?db1" using assms(1) by (simp add: settlements_ok_def)
    have new1: "srec_SettlementID record \<notin> st_settlement_id ` set (settlements ?db1)" using new(2) by simp
    have none: "find (\<lambda>l. le_LedgerIndex l = le_LedgerIndex ?e) (ledger_entries db) = None"
      using new(1) unfolding find_None_iff by (metis image_eqI)
    have entry: "find (\<lambda>l. le_LedgerIndex l = le_LedgerIndex ?e) (ledger_entries ?db1) = Some ?e"
      using find_snoc_None [OF none, of ?e] by simp
    have same: "srec_RevenueSources record = srec_RevenueSources sources" "srec_TTMMonths record = srec_TTMMonths sources"
      "srec_WeightSources record = srec_WeightSources sources" "srec_BeneficiaryDeployments record = srec_BeneficiaryDeployments sources"
      by (simp_all add: fresh(7))
    show ?thesis
      using settlements_ok_appended [OF ok new1] settlementByIDQuery_appended [OF ok new1 entry, unfolded same, OF settlementSourcesTx_sorted [OF fresh(5)]]
      by (simp add: db')
  qed simp
  then show "settlements_ok db'" "settlementByIDQuery db' (srec_SettlementID record) = Inr record"
    "settlements db' = settlements db @ [settlementRow record]" by simp_all
qed

subsection \<open>A settlement pays out its pool\<close>

lemma settlementSourcesTx_pays:
  assumes "settlementSourcesTx H db ops transfers input = Inr sources"
  shows "sum_list (map sa_NetworkPoolAllocationMinor (srec_Allocations sources)) = RevenueCommissionMinor (srec_CommissionBasisMinor sources) \<and>
    srec_NetworkCommissionPoolMinor sources = RevenueCommissionMinor (srec_CommissionBasisMinor sources) \<and>
    sum_list (map sa_IndicativeValueAllocationMinor (srec_Allocations sources)) = srec_IndicativeNetworkValueMinor sources \<and>
    list_all (\<lambda>a. 0 \<le> sa_NetworkPoolAllocationMinor a \<and> 0 \<le> sa_IndicativeValueAllocationMinor a) (srec_Allocations sources) \<and>
    srec_Allocations sources \<noteq> [] \<and> sa_BeneficiaryType (hd (srec_Allocations sources)) = SettlementBeneficiaryFounder \<and>
    srec_NetworkCommissionPoolMinor sources div 10 \<le> sa_NetworkPoolAllocationMinor (hd (srec_Allocations sources)) \<and>
    srec_IndicativeNetworkValueMinor sources div 10 \<le> sa_IndicativeValueAllocationMinor (hd (srec_Allocations sources))"
proof -
  let ?pool = "srec_NetworkCommissionPoolMinor sources" and ?worth = "srec_IndicativeNetworkValueMinor sources"
  obtain ratios measured where r: "settlementRatios (srec_WeightSources sources) measured = Inr ratios"
    and a: "allocateSettlementAmounts ratios ?pool ?worth = Inr (srec_Allocations sources)"
    and p: "?pool = RevenueCommissionMinor (srec_CommissionBasisMinor sources)" and safe: "settlementRecordHasSafeMinorAmounts sources"
    by (rule settlementSourcesTx_steps [OF assms])
  have b: "0 \<le> ?pool" "?pool \<le> MaxInt64" "0 \<le> ?worth" "?worth \<le> MaxInt64"
    using safe by (simp_all add: settlementRecordHasSafeMinorAmounts_def SettlementMinorAmountIsSafe_def SettlementMaximumSafeMinor_def MaxInt64_def)
  have nn: "list_all (\<lambda>a. 0 \<le> sa_NetworkPoolAllocationMinor a \<and> 0 \<le> sa_IndicativeValueAllocationMinor a) (srec_Allocations sources)"
    using safe by (auto simp: settlementRecordHasSafeMinorAmounts_def SettlementMinorAmountIsSafe_def list_all_iff)
  note shares = settlementRatios_shares [OF r]
  obtain as where as: "allocateSettlementAmounts ratios ?pool ?worth = Inr as" "map sa_BeneficiaryType as = map srt_beneficiaryType ratios"
    "largestRemainder ratios ?pool = Inr (map sa_NetworkPoolAllocationMinor as)"
    "largestRemainder ratios ?worth = Inr (map sa_IndicativeValueAllocationMinor as)"
    "sum_list (map sa_NetworkPoolAllocationMinor as) = ?pool" "sum_list (map sa_IndicativeValueAllocationMinor as) = ?worth"
    by (rule allocateSettlementAmounts_eq [OF shares(1,2) b])
  have eq: "as = srec_Allocations sources" using a as(1) by simp
  have ne: "srec_Allocations sources \<noteq> []" using as(2) shares(3) eq by auto
  note tenth = first_share_tenth [OF shares(1-3,5) b(1,2) as(3)] first_share_tenth [OF shares(1-3,5) b(3,4) as(4)]
  have "sa_BeneficiaryType (hd (srec_Allocations sources)) = SettlementBeneficiaryFounder"
    using as(2) shares(3,4) ne by (simp add: eq) (metis hd_map)
  then show ?thesis using as(5,6) p nn ne tenth by (simp add: eq hd_map)
qed

subsection \<open>Recalculating\<close>

lemma select_max_snoc:
  assumes "\<And>y. y \<in> set xs \<Longrightarrow> f y < f x"
  shows "select_max f (xs @ [x]) = Some x"
proof -
  obtain m where m: "select_max f (xs @ [x]) = Some m" by (auto simp: select_max_def)
  have "f x \<le> f m" by (rule select_max_greatest [OF m]) simp
  moreover have "m \<in> set xs \<or> m = x" using select_max_mem [OF m] by auto
  ultimately show ?thesis using assms m by (metis linorder_not_le)
qed

lemma settlementByIDQuery_row:
  assumes "settlements_ok db" "row \<in> set (settlements db)" "settlementByIDQuery db (st_settlement_id row) = Inr r"
  shows "srec_Revision r = st_revision row" "srec_SourceFingerprint r = st_source_fingerprint row"
proof -
  have "find (\<lambda>s. st_settlement_id s = st_settlement_id row) (settlements db) = Some row"
    using assms(1,2) by (intro find_key) (simp_all add: settlements_ok_def)
  with assms(3) show "srec_Revision r = st_revision row" "srec_SourceFingerprint r = st_source_fingerprint row"
    by (auto simp: settlementByIDQuery_def split: option.splits)
qed

abbreviation revisions_of :: "registry_db \<Rightarrow> string \<Rightarrow> string \<Rightarrow> settlement_row list" where
  "revisions_of db period currency \<equiv> filter (\<lambda>s. st_period s = period \<and> st_currency_code s = currency) (settlements db)"

lemma latestSettlementTx_Inr:
  assumes "settlements_ok db" "latestSettlementTx db period currency = Inr latest"
  obtains (none) "latest = None" "revisions_of db period currency = []"
  | (some) l where "latest = Some l" "\<And>s. s \<in> set (revisions_of db period currency) \<Longrightarrow> st_revision s \<le> srec_Revision l"
      "\<exists>row \<in> set (settlements db). srec_Revision l = st_revision row"
proof (cases "select_max st_revision (revisions_of db period currency)")
  case None
  then show thesis using assms(2) none by (simp add: latestSettlementTx_def select_max_def split: if_splits)
next
  case (Some row)
  then obtain l where l: "latest = Some l" "settlementByIDQuery db (st_settlement_id row) = Inr l"
    using assms(2) by (auto simp: latestSettlementTx_def result_simps)
  have row: "row \<in> set (settlements db)" using select_max_mem [OF Some] by simp
  show thesis using some [OF l(1)] settlementByIDQuery_row(1) [OF assms(1) row l(2)] select_max_greatest [OF Some] row by auto
qed

lemma weigh_cong:
  assumes "ledger_weight_rows db = ledger_weight_rows db'"
  shows "weigh db ops transfers B ds = weigh db' ops transfers B ds"
proof -
  have "weight_revisions db = weight_revisions db'" by (intro ext) (simp add: weight_revisions_def weight_rows_in_def assms)
  then show ?thesis by (induction ds) (simp_all cong: sum.case_cong)
qed

text \<open>The sources do not depend on settlements and their ledger entries.\<close>

lemma settlement_reads_cong:
  assumes "filter (\<lambda>e. le_EntryType e \<noteq> SettlementEntryType) (ledger_entries db) = filter (\<lambda>e. le_EntryType e \<noteq> SettlementEntryType) (ledger_entries db')"
    and "revenue_query_rows db = revenue_query_rows db'" "revenue_batches db = revenue_batches db'"
    and "ledger_weight_rows db = ledger_weight_rows db'" "deployments db = deployments db'"
  shows "settlementBoundaryTx db = settlementBoundaryTx db'" "settlementRevenueSourcesTx db = settlementRevenueSourcesTx db'"
    "settlementWeightSourcesTx db = settlementWeightSourcesTx db'"
proof -
  show "settlementBoundaryTx db = settlementBoundaryTx db'" by (intro ext) (simp add: settlementBoundaryTx_def assms(1))
  show "settlementRevenueSourcesTx db = settlementRevenueSourcesTx db'" by (intro ext) (simp add: settlementRevenueSourcesTx_def assms(2,3))
  have "weighted_memberships db = weighted_memberships db'"
    by (intro ext) (simp add: weighted_memberships_def weigh_cong [OF assms(4)] assms(5))
  then show "settlementWeightSourcesTx db = settlementWeightSourcesTx db'" by (intro ext) (simp add: settlementWeightSourcesTx_def)
qed

lemma settlementSourcesTx_cong:
  assumes "filter (\<lambda>e. le_EntryType e \<noteq> SettlementEntryType) (ledger_entries db) = filter (\<lambda>e. le_EntryType e \<noteq> SettlementEntryType) (ledger_entries db')"
    and "revenue_query_rows db = revenue_query_rows db'" "revenue_batches db = revenue_batches db'"
    and "ledger_weight_rows db = ledger_weight_rows db'" "deployments db = deployments db'"
  shows "settlementSourcesTx H db ops transfers input = settlementSourcesTx H db' ops transfers input"
  by (simp only: settlementSourcesTx_def settlement_reads_cong [OF assms])

lemma CalculateSettlement_known:
  assumes "ensureAcceptedAtAfterRegistryCreation db (sci_AcceptedAt input) = Inr ()"
    "ensureAcceptedAtAfterCheckpoint db (sci_AcceptedAt input) = Inr ()"
    "ensureAcceptedAtNotBeforeHead (sci_AcceptedAt input) (lh_AcceptedAt (ledgerHeadTx db)) = Inr ()"
    "settlementSourcesTx H db ops transfers input = Inr sources"
    "latestSettlementTx db (sci_Period input) (sci_CurrencyCode input) = Inr (Some record)"
    "srec_SourceFingerprint record = srec_SourceFingerprint sources"
  shows "CalculateSettlement H db ops transfers input signReceipt = Inr (db, record, True)"
  using assms by (simp add: CalculateSettlement_def Let_def)

lemma latestSettlementTx_appended:
  assumes "settlements_ok db" "latestSettlementTx db period currency = Inr latest"
    and "settlements db' = settlements db @ [settlementRow r]" "settlementByIDQuery db' (srec_SettlementID r) = Inr r"
    and "srec_Period r = period" "srec_CurrencyCode r = currency"
    and "srec_Revision r = (case latest of None \<Rightarrow> 1 | Some l \<Rightarrow> i64 (srec_Revision l + 1))"
    and "list_all (\<lambda>s. 0 \<le> st_revision s \<and> st_revision s < 2 ^ 62) (settlements db)"
  shows "latestSettlementTx db' period currency = Inr (Some r)"
proof -
  have "st_revision s < srec_Revision r" if "s \<in> set (revisions_of db period currency)" for s
    using assms(1,2)
  proof (cases rule: latestSettlementTx_Inr)
    case none
    then show ?thesis using that by (metis empty_iff list.set(1))
  next
    case (some l)
    then have "0 \<le> srec_Revision l" "srec_Revision l < 2 ^ 62" using assms(8) by (auto simp: list_all_iff)
    then show ?thesis using some(1) some(2) [OF that] by (simp add: assms(7) i64_nonneg_id)
  qed
  then have "select_max st_revision (revisions_of db period currency @ [settlementRow r]) = Some (settlementRow r)"
    by (intro select_max_snoc) simp
  then show ?thesis using assms(4-6) by (simp add: latestSettlementTx_def assms(3))
qed

text \<open>A settlement is appended like a batch, so it keeps the checkpoint chain too.\<close>

lemma CalculateSettlement_appends:
  assumes "CalculateSettlement H db ops transfers input signReceipt = Inr (db', record, duplicate)"
  shows "checkpoints db' = checkpoints db \<and> (ledger_entries db' = ledger_entries db \<or>
    (\<exists>e. ledger_entries db' = ledger_entries db @ [e] \<and> le_AcceptedAt e = sci_AcceptedAt input \<and>
      ensureAcceptedAtAfterCheckpoint db (sci_AcceptedAt input) = Inr ()))"
  using assms
proof (cases rule: CalculateSettlement_cases)
  case known
  then show ?thesis by simp
next
  case (fresh sources latest sig)
  have "ensureAcceptedAtAfterCheckpoint db (sci_AcceptedAt input) = Inr ()"
    using assms by (auto simp: CalculateSettlement_def result_simps Let_def)
  moreover have "le_AcceptedAt (srec_LedgerEntry record) = sci_AcceptedAt input"
    by (simp add: fresh(7) hashed_settlement_def settlement_entry_def Let_def)
  moreover obtain nodes where "db' = settlement_appended (db\<lparr>ledger_entries := ledger_entries db @ [srec_LedgerEntry record], ledger_merkle_nodes := nodes\<rparr>) record"
    by (rule inserted_settlement [OF fresh(7,8)])
  ultimately show ?thesis by simp
qed

interpretation settlement_appender: ledger_appender "\<lambda>db (ops, transfers, input, signReceipt). CalculateSettlement H db ops transfers input signReceipt"
    "\<lambda>(ops, transfers, input, signReceipt). sci_AcceptedAt input" for H
  by unfold_locales (auto dest!: CalculateSettlement_appends split: prod.splits)

lemma CalculateSettlement_keeps_checkpoints:
  assumes "VerifyCheckpoints H db verify keyID scope = Inr ()" "canonical_instant t" "sci_AcceptedAt input = time_Format_RFC3339 t"
    and "CalculateSettlement H' db ops transfers input signReceipt = Inr (db', record, duplicate)"
  shows "VerifyCheckpoints H db' verify keyID scope = Inr ()"
proof -
  obtain n where "chain_from H verify keyID scope n db" using assms(1) by (auto simp: VerifyCheckpoints_iff chain_from_def)
  from settlement_appender.keeps_chain [OF this, of H' "(ops, transfers, input, signReceipt)" db' "(record, duplicate)" t] assms(2-4)
  have "chain_from H verify keyID scope n db'" by simp
  then show ?thesis by (auto simp: VerifyCheckpoints_iff chain_from_def)
qed
subsection \<open>A sample settlement\<close>

definition sample_revenue_W :: RevenueBatchInput where
  "sample_revenue_W = sample_revenue\<lparr>rbi_CandidateBatchID := ''W''\<rparr>"

definition revenue_db :: registry_db where
  "revenue_db = run_step sample_db (AcceptRevenueBatch tag_hash sample_db sample_revenue_W sample_revenue_signer)"

definition sample_settlement_input :: SettlementCalculationInput where
  "sample_settlement_input = \<lparr>sci_RegistryScope = ''demo'', sci_Period = ''2026-01'', sci_CurrencyCode = ''EUR'', sci_FractionDigits = 2,
     sci_BaseValuationMultiplierBasisPoints = 10000, sci_CandidateSettlementID = ''stl_00000000000000000000000000000001'', sci_AcceptedAt = ''2026-02-02T00:00:00Z'',
     sci_RegistryKeyID = ''k''\<rparr>"

lemma digit_chars:
  "digit_char 0 = CHR ''0''" "digit_char (Suc 0) = CHR ''1''" "digit_char 1 = CHR ''1''" "digit_char 2 = CHR ''2''" "digit_char 3 = CHR ''3''"
  "digit_char 4 = CHR ''4''" "digit_char 5 = CHR ''5''" "digit_char 6 = CHR ''6''" "digit_char 7 = CHR ''7''" "digit_char 8 = CHR ''8''"
  "digit_char 9 = CHR ''9''"
  by code_simp+

lemmas month_eval = format_month_def appendInt_def nat_decimal.simps Let_def

lemma sample_months: "format_month 24301 = ''2025-02''" "format_month 24302 = ''2025-03''" "format_month 24303 = ''2025-04''" "format_month 24304 = ''2025-05''" "format_month 24305 = ''2025-06''" "format_month 24306 = ''2025-07''" "format_month 24307 = ''2025-08''" "format_month 24308 = ''2025-09''" "format_month 24309 = ''2025-10''" "format_month 24310 = ''2025-11''" "format_month 24311 = ''2025-12''" "format_month 24312 = ''2026-01''"
  by (simp_all add: month_eval digit_chars)

lemma sample_first_days: "format_first_day 24301 = ''2025-02-01''" "format_first_day 24313 = ''2026-02-01''"
  by (simp_all add: format_first_day_def format_date_def month_eval digit_chars)

lemma sample_period: "time_Parse_month ''2026-01'' = Some 24312"
  by code_simp

lemma digest32_tag_hash: "digest32 tag_hash"
  by unfold_locales (simp add: tag_hash_def)

definition revenue_entry :: LedgerEntry where
  "revenue_entry = revenueLedgerEntry tag_hash sample_revenue_W (ledgerHeadTx sample_db)"

lemma revenue_db_state:
  "ledger_verified tag_hash revenue_db"
  "\<exists>nodes sig. revenue_db = revenue_appended sample_db sample_revenue_W revenue_entry sig
     (sample_db\<lparr>ledger_entries := [revenue_entry], ledger_merkle_nodes := nodes\<rparr>)"
proof -
  have "case AcceptRevenueBatch tag_hash sample_db sample_revenue_W sample_revenue_signer of Inl _ \<Rightarrow> False | Inr x \<Rightarrow> \<not> snd (snd x)"
    by code_simp
  then obtain r where "AcceptRevenueBatch tag_hash sample_db sample_revenue_W sample_revenue_signer = Inr (revenue_db, r, False)"
    unfolding revenue_db_def by (cases "AcceptRevenueBatch tag_hash sample_db sample_revenue_W sample_revenue_signer") auto
  then have "ledger_verified tag_hash revenue_db \<and> (\<exists>nodes sig. revenue_db = revenue_appended sample_db sample_revenue_W revenue_entry sig
     (sample_db\<lparr>ledger_entries := [revenue_entry], ledger_merkle_nodes := nodes\<rparr>))"
  proof (cases rule: AcceptRevenueBatch_cases)
    case (fresh sig)
    have db: "ledger_verified tag_hash sample_db" "ledger_entries sample_db = []" "revenue_for sample_db sample_revenue_W"
      by (code_simp, simp_all add: sample_db_def empty_db_def revenue_for_def sample_identity_def sample_revenue_W_def sample_revenue_def has_suffix_Z_def)
    have f: "appendRevenueTx tag_hash sample_db sample_revenue_W revenue_entry sig = Inr revenue_db" using fresh(6) by (simp only: revenue_entry_def)
    obtain nodes where "revenue_db = revenue_appended sample_db sample_revenue_W revenue_entry sig
        (sample_db\<lparr>ledger_entries := ledger_entries sample_db @ [revenue_entry], ledger_merkle_nodes := nodes\<rparr>)"
      by (rule appendRevenueTx_Inr [OF f])
    then show ?thesis using appendRevenueTx_verified [OF digest32_tag_hash db(1) _ db(3) fresh(2,3,6)] db(2) by auto
  qed simp_all
  then show "ledger_verified tag_hash revenue_db"
    "\<exists>nodes sig. revenue_db = revenue_appended sample_db sample_revenue_W revenue_entry sig
       (sample_db\<lparr>ledger_entries := [revenue_entry], ledger_merkle_nodes := nodes\<rparr>)" by blast+
qed

lemma revenue_entry_hash: "le_EntryHash revenue_entry = tag_digest"
  by code_simp

lemma revenue_entry_fields:
  "le_LedgerIndex revenue_entry = 1" "le_EntryHash revenue_entry = tag_digest" "le_EntryType revenue_entry = RevenueEntryType"
  "le_AcceptedAt revenue_entry = ''2026-01-02T00:00:02Z''" "le_BatchID revenue_entry = ''W''"
  unfolding revenue_entry_hash
  by (simp_all add: revenue_entry_def revenueLedgerEntry_def sample_revenue_W_def sample_revenue_def sample_db_def empty_db_def
    ledgerHeadTx_def select_max_def Let_def i64_def)

lemma revenue_db_fields:
  "ledger_entries revenue_db = [revenue_entry]" "deployments revenue_db = [sample_deployment]" "registry_identity revenue_db = Some sample_identity"
  "checkpoints revenue_db = []" "ledger_weight_rows revenue_db = []" "settlements revenue_db = []"
  "settlement_revenue_sources revenue_db = []" "settlement_ttm_months revenue_db = []" "settlement_weight_sources revenue_db = []"
  "settlement_beneficiary_deployments revenue_db = []" "settlement_allocations revenue_db = []"
  "revenue_query_rows revenue_db = [revenueQueryRow sample_revenue_W revenue_entry (0, sample_currency)]"
  "\<exists>sig. revenue_batches revenue_db = [revenueBatchRow sample_revenue_W revenue_entry sig]"
proof -
  obtain nodes sig where db: "revenue_db = revenue_appended sample_db sample_revenue_W revenue_entry sig
    (sample_db\<lparr>ledger_entries := [revenue_entry], ledger_merkle_nodes := nodes\<rparr>)" using revenue_db_state(2) by blast
  have c: "rbi_Currencies sample_revenue_W = [sample_currency]" by (simp add: sample_revenue_W_def sample_revenue_def)
  show
  "ledger_entries revenue_db = [revenue_entry]" "deployments revenue_db = [sample_deployment]" "registry_identity revenue_db = Some sample_identity"
  "checkpoints revenue_db = []" "ledger_weight_rows revenue_db = []" "settlements revenue_db = []"
  "settlement_revenue_sources revenue_db = []" "settlement_ttm_months revenue_db = []" "settlement_weight_sources revenue_db = []"
  "settlement_beneficiary_deployments revenue_db = []" "settlement_allocations revenue_db = []"
  "revenue_query_rows revenue_db = [revenueQueryRow sample_revenue_W revenue_entry (0, sample_currency)]"
  "\<exists>sig. revenue_batches revenue_db = [revenueBatchRow sample_revenue_W revenue_entry sig]"
    by (simp_all add: db c revenue_appended_def sample_db_def empty_db_def) blast
qed

lemma revenue_sources:
  "settlementRevenueSourcesTx revenue_db ''EUR'' ''2025-02-01'' ''2026-02-01'' 1 =
     [\<lparr>srs_SourceOrder = 0, srs_RevenuePeriod = ''2026-01-01'', srs_DeploymentID = ''dep'', srs_BatchID = ''W'', srs_LedgerIndex = 1,
       srs_EntryHash = tag_digest, srs_CommissionBasisMinor = 900\<rparr>]"
proof -
  obtain sig where "revenue_batches revenue_db = [revenueBatchRow sample_revenue_W revenue_entry sig]" using revenue_db_fields(13) by blast
  then show ?thesis
    by (simp add: settlementRevenueSourcesTx_def revenue_db_fields revenueQueryRow_def revenueBatchRow_def revenue_entry_fields sample_currency_def
      sample_revenue_W_def sample_revenue_def)
qed

definition sample_ttm :: "SettlementTTMMonth list" where
  "sample_ttm = map (\<lambda>month. \<lparr>stm_Period = month, stm_CommissionBasisMinor = 0, stm_NetworkCommissionPoolMinor = 0\<rparr>)
     [''2025-02'', ''2025-03'', ''2025-04'', ''2025-05'', ''2025-06'', ''2025-07'', ''2025-08'', ''2025-09'', ''2025-10'', ''2025-11'', ''2025-12''] @
     [\<lparr>stm_Period = ''2026-01'', stm_CommissionBasisMinor = 900, stm_NetworkCommissionPoolMinor = 45\<rparr>]"

lemma sample_commission: "RevenueCommissionMinor 0 = 0" "RevenueCommissionMinor 900 = 45"
  by code_simp+

lemma sample_ttm_loop:
  "ttm_loop ((\<lambda>_. 0)(''2026-01'' := 900)) 0 (map (\<lambda>offset. format_month (24312 - 11 + int offset)) [0..<12]) = Inr (900, sample_ttm)"
  by (simp add: upt_conv_Cons sample_months sample_ttm_def checkedRevenueAdd_def MaxInt64_def sample_commission result_simps)

definition sample_figures :: valuation_figures where
  "sample_figures = \<lparr>vf_recentAverage = 300, vf_priorAverage = 0, vf_earlierAverage = 0, vf_recentGrowth = 20000, vf_priorGrowth = 0,
     vf_acceleration = 10000, vf_adjustment = 2500, vf_effectiveMultiplier = 12500, vf_indicativeValue = 1125\<rparr>"

definition sample_allocations :: "SettlementAllocation list" where
  "sample_allocations = [\<lparr>sa_BeneficiaryType = ''FOUNDER'', sa_BeneficiaryID = ''founder'', sa_Label = ''Founder'', sa_ShareNumerator = ''1'',
     sa_ShareDenominator = ''1'', sa_NetworkPoolAllocationMinor = 45, sa_IndicativeValueAllocationMinor = 1125\<rparr>,
     \<lparr>sa_BeneficiaryType = ''UNALLOCATED_RESERVE'', sa_BeneficiaryID = ''unallocated-reserve'', sa_Label = ''Unallocated reserve'',
       sa_ShareNumerator = ''0'', sa_ShareDenominator = ''1'', sa_NetworkPoolAllocationMinor = 0, sa_IndicativeValueAllocationMinor = 0\<rparr>]"

lemma sample_valuation: "settlement_valuation sample_settlement_input sample_ttm 900 = Inr sample_figures"
  by code_simp

lemma sample_shares: "bindR (settlementRatios [] 0) (\<lambda>ratios. allocateSettlementAmounts ratios 45 1125) = Inr sample_allocations"
  by code_simp

definition sample_boundary :: LeaderboardBoundary where
  "sample_boundary = \<lparr>lb_LedgerIndex = 1, lb_AuditIndex = 0, lb_ReviewIndex = 0, lb_EligibilityIndex = 0, lb_TransferEventIndex = 0,
     lb_LedgerHash = tag_digest, lb_AuditHash = OperatorAuditZeroHash, lb_ReviewHash = OperatorClaimReviewZeroHash,
     lb_EligibilityHash = OperatorClaimEligibilityZeroHash, lb_TransferEventHash = OwnershipTransferZeroHash, lb_CreatedAt = []\<rparr>"

lemma sample_settlement_boundary: "settlementBoundaryTx revenue_db empty_operators empty_transfers ''2026-02-02T00:00:00Z'' = sample_boundary"
proof -
  have "select_max le_LedgerIndex (filter (\<lambda>e. le_EntryType e \<noteq> SettlementEntryType) (ledger_entries revenue_db)) = Some revenue_entry"
    by (simp add: revenue_db_fields revenue_entry_fields select_max_def RevenueEntryType_def SettlementEntryType_def)
  then show ?thesis
    by (simp add: settlementBoundaryTx_def revenue_entry_fields sample_boundary_def audit_head_def operatorClaimReviewHeadQuery_def
      operatorClaimEligibilityHeadQuery_def ownershipTransferEventHeadAt_def empty_operators_def empty_transfers_def select_max_def operatorAuditHeadQuery_def Let_def)
qed

lemma sample_weights:
  "settlementWeightSourcesTx revenue_db empty_operators empty_transfers ''2025-08'' ''2026-01'' sample_boundary ''2026-02-02'' = Inr ([], [], 0)"
  by (simp add: settlementWeightSourcesTx_def weighted_memberships_def revenue_db_fields weight_revisions_def weight_rows_in_def sql_SUM_def
    from_option_def Let_def List.map_filter_def membership_def base_membership_state_def cte_state_def empty_operators_def empty_transfers_def select_max_def
    settlement_members_def claimed_groups_def MaxInt64_def)

definition sample_record0 :: SettlementRecord where
  "sample_record0 = settlement_record sample_settlement_input sample_boundary sample_figures 900 900
     [\<lparr>srs_SourceOrder = 0, srs_RevenuePeriod = ''2026-01-01'', srs_DeploymentID = ''dep'', srs_BatchID = ''W'', srs_LedgerIndex = 1,
       srs_EntryHash = tag_digest, srs_CommissionBasisMinor = 900\<rparr>] sample_ttm [] [] sample_allocations"

lemma sample_record0_safe: "settlementRecordHasSafeMinorAmounts sample_record0"
  by (simp add: settlementRecordHasSafeMinorAmounts_def sample_record0_def settlement_record_def sample_figures_def sample_allocations_def
    SettlementMinorAmountIsSafe_def SettlementMaximumSafeMinor_def sample_commission)

lemma settlementSourcesTx_eval:
  assumes "settlementBoundaryTx db ops transfers (sci_AcceptedAt input) = boundary" "time_Parse_month (sci_Period input) = Some m"
    and "settlementRevenueSourcesTx db (sci_CurrencyCode input) (format_first_day (m - 11)) (format_first_day (m + 1)) (lb_LedgerIndex boundary) = sources"
    and "monthly_basis_loop (\<lambda>_. 0) sources = Inr basis"
    and "ttm_loop basis 0 (map (\<lambda>offset. format_month (m - 11 + int offset)) [0..<12]) = Inr (ttm, months)"
    and "settlement_valuation input months ttm = Inr v" "\<not> length (sci_AcceptedAt input) < 10"
    and "settlementWeightSourcesTx db ops transfers (format_month (m - 5)) (sci_Period input) boundary (take 10 (sci_AcceptedAt input)) =
      Inr (weights, members, measured)"
    and "settlementRatios weights measured = Inr ratios"
    and "allocateSettlementAmounts ratios (RevenueCommissionMinor (basis (sci_Period input))) (vf_indicativeValue v) = Inr allocations"
    and "r0 = settlement_record input boundary v (basis (sci_Period input)) ttm sources months weights members allocations"
    and "settlementRecordHasSafeMinorAmounts r0"
  shows "settlementSourcesTx H db ops transfers input = Inr (r0\<lparr>srec_SourceFingerprint := settlementSourceFingerprint H r0\<rparr>)"
  using assms by (simp add: settlementSourcesTx_def from_option_def Let_def)

lemma sample_sources:
  "settlementSourcesTx tag_hash revenue_db empty_operators empty_transfers sample_settlement_input =
     Inr (sample_record0\<lparr>srec_SourceFingerprint := settlementSourceFingerprint tag_hash sample_record0\<rparr>)"
proof -
  have i: "sci_AcceptedAt sample_settlement_input = ''2026-02-02T00:00:00Z''" "sci_Period sample_settlement_input = ''2026-01''"
    "sci_CurrencyCode sample_settlement_input = ''EUR''" by (simp_all add: sample_settlement_input_def)
  have b: "monthly_basis_loop (\<lambda>_. 0) [\<lparr>srs_SourceOrder = 0, srs_RevenuePeriod = ''2026-01-01'', srs_DeploymentID = ''dep'', srs_BatchID = ''W'',
      srs_LedgerIndex = 1, srs_EntryHash = tag_digest, srs_CommissionBasisMinor = 900\<rparr>] = Inr ((\<lambda>_. 0)(''2026-01'' := 900))"
    by (simp add: checkedRevenueAdd_def MaxInt64_def from_option_def)
  obtain ratios where q: "settlementRatios [] 0 = Inr ratios" "allocateSettlementAmounts ratios 45 1125 = Inr sample_allocations"
    using sample_shares unfolding result_simps by blast
  have l: "lb_LedgerIndex sample_boundary = 1" "vf_indicativeValue sample_figures = 1125" by (simp_all add: sample_boundary_def sample_figures_def)
  have n: "(24312 :: int) - 11 = 24301" "(24312 :: int) + 1 = 24313" "(24312 :: int) - 5 = 24307" by simp_all
  note eval = settlementSourcesTx_eval [where m = 24312 and input = sample_settlement_input, unfolded i n]
  show ?thesis
  proof (rule eval [OF sample_settlement_boundary sample_period])
    show "settlementRevenueSourcesTx revenue_db ''EUR'' (format_first_day 24301) (format_first_day 24313) (lb_LedgerIndex sample_boundary) =
      [\<lparr>srs_SourceOrder = 0, srs_RevenuePeriod = ''2026-01-01'', srs_DeploymentID = ''dep'', srs_BatchID = ''W'', srs_LedgerIndex = 1,
       srs_EntryHash = tag_digest, srs_CommissionBasisMinor = 900\<rparr>]"
      unfolding sample_first_days l by (rule revenue_sources)
    show "ttm_loop ((\<lambda>_. 0)(''2026-01'' := 900)) 0 (map (\<lambda>offset. format_month (24301 + int offset)) [0..<12]) = Inr (900, sample_ttm)"
      using sample_ttm_loop unfolding n .
    show "settlementWeightSourcesTx revenue_db empty_operators empty_transfers (format_month 24307) ''2026-01'' sample_boundary
        (take 10 ''2026-02-02T00:00:00Z'') = Inr ([], [], 0)" by (simp add: sample_months sample_weights)
    show "allocateSettlementAmounts ratios (RevenueCommissionMinor (((\<lambda>_. 0)(''2026-01'' := 900)) ''2026-01'')) (vf_indicativeValue sample_figures) =
        Inr sample_allocations" using q(2) by (simp add: sample_commission l)
  qed (use b sample_valuation q(1) sample_record0_safe in \<open>simp_all add: sample_record0_def\<close>)
qed

lemma sample_fingerprint: "settlementSourceFingerprint tag_hash sample_record0 = tag_digest"
  by (simp add: settlementSourceFingerprint_def Digest_tag canonical_def sample_record0_def settlement_record_def)

abbreviation sample_sources_record :: SettlementRecord where
  "sample_sources_record \<equiv> sample_record0\<lparr>srec_SourceFingerprint := tag_digest\<rparr>"

definition revenue_head :: LedgerHead where
  "revenue_head = \<lparr>lh_LedgerIndex = 1, lh_EntryCount = 1, lh_EntryHash = tag_digest, lh_AcceptedAt = ''2026-01-02T00:00:02Z''\<rparr>"

lemma revenue_db_head: "ledgerHeadTx revenue_db = revenue_head"
  by (simp add: ledgerHeadTx_def revenue_db_fields select_max_def revenue_entry_fields revenue_head_def)

definition sample_settlement :: SettlementRecord where
  "sample_settlement = signed_settlement (hashed_settlement tag_hash sample_settlement_input revenue_head
     (numbered_settlement sample_settlement_input None sample_sources_record)) (replicate 64 (CHR ''r''))"

lemma sample_record0_fields:
  "srec_Period sample_record0 = ''2026-01''" "srec_CurrencyCode sample_record0 = ''EUR''" "srec_Allocations sample_record0 = sample_allocations"
  "srec_TTMMonths sample_record0 = sample_ttm" "srec_WeightSources sample_record0 = []" "srec_BeneficiaryDeployments sample_record0 = []"
  "srec_RevenueSources sample_record0 = [\<lparr>srs_SourceOrder = 0, srs_RevenuePeriod = ''2026-01-01'', srs_DeploymentID = ''dep'', srs_BatchID = ''W'',
     srs_LedgerIndex = 1, srs_EntryHash = tag_digest, srs_CommissionBasisMinor = 900\<rparr>]"
  by (simp_all add: sample_record0_def settlement_record_def sample_settlement_input_def)

lemma FormatInt_zero: "CHR ''W'' \<notin> set (FormatInt 0)"
  by code_simp

lemma sample_entry:
  "le_EntryHash (srec_LedgerEntry sample_settlement) = flat_digest" "le_LedgerIndex (srec_LedgerEntry sample_settlement) = 2"
  "le_BatchID (srec_LedgerEntry sample_settlement) = ''stl_00000000000000000000000000000001''" "ledger_row_check (srec_LedgerEntry sample_settlement)"
  "le_ProtocolVersion (srec_LedgerEntry sample_settlement) = ''1''" "le_QualifiedMAUCount (srec_LedgerEntry sample_settlement) = 0"
  "le_DeploymentID (srec_LedgerEntry sample_settlement) = []"
  by (simp_all add: sample_settlement_def hashed_settlement_def settlement_entry_def Let_def LedgerEntryMessage_def canonical_def Digest_tag revenue_head_def
    sample_settlement_input_def sample_record0_fields sample_messages FormatInt_zero i64_nonneg_id ledger_row_check_def SettlementEntryType_def SettlementKind_def
    SettlementRulesetVersion_def Version_def flat_digest_def tag_digest_def)

lemma sample_entry_extends:
  "\<exists>nodes. appendMerkleEntryTx tag_hash (revenue_db\<lparr>ledger_entries := [revenue_entry, srec_LedgerEntry sample_settlement]\<rparr>) 2 flat_digest =
     Inr (revenue_db\<lparr>ledger_entries := [revenue_entry, srec_LedgerEntry sample_settlement], ledger_merkle_nodes := nodes\<rparr>)"
proof -
  let ?db = "revenue_db\<lparr>ledger_entries := [revenue_entry, srec_LedgerEntry sample_settlement]\<rparr>"
  have "ledger_contiguous revenue_db"
    using revenue_db_state(1) by (intro VerifyLedger_contiguous [OF digest32_tag_hash]) (simp_all add: ledger_verified_def revenue_db_fields)
  moreover have "IsDigest flat_digest" by code_simp
  ultimately have "ledger_contiguous ?db" by (simp add: ledger_contiguous_def revenue_db_fields sample_entry)
  from appendMerkleEntryTx_verified [OF digest32_tag_hash this, of revenue_db "srec_LedgerEntry sample_settlement"] show ?thesis
    using revenue_db_state(1) by (auto simp: revenue_db_fields sample_entry ledger_verified_def)
qed

lemma sample_row_ok:
  "settlement_rates_check (settlementRow sample_settlement)" "settlement_amounts_check (settlementRow sample_settlement)"
  "srec_SettlementID sample_settlement = ''stl_00000000000000000000000000000001''" "srec_Revision sample_settlement = 1" "srec_SupersedesSettlementID sample_settlement = []"
  "srec_Period sample_settlement = ''2026-01''" "srec_CurrencyCode sample_settlement = ''EUR''" "srec_FractionDigits sample_settlement = 2"
  "length (srec_ReceiptSignature sample_settlement) = 64"
  by (simp_all add: settlement_rates_check_def settlement_amounts_check_def settlementRow_def sample_settlement_def hashed_settlement_def
    numbered_settlement_def sample_record0_def settlement_record_def sample_figures_def sample_settlement_input_def sample_boundary_def
    sample_commission Let_def SettlementRulesetVersion_def SettlementValuationRulesetVersion_def RevenueCommissionBasisPoints_def)

lemma sample_details:
  "srec_RevenueSources sample_settlement = srec_RevenueSources sample_record0" "srec_TTMMonths sample_settlement = sample_ttm"
  "srec_WeightSources sample_settlement = []" "srec_BeneficiaryDeployments sample_settlement = []" "srec_Allocations sample_settlement = sample_allocations"
  by (simp_all add: sample_settlement_def sample_record0_fields)

lemma sample_insert: "\<exists>db. insertSettlementTx tag_hash revenue_db sample_settlement = Inr db"
proof -
  let ?e = "srec_LedgerEntry sample_settlement"
  obtain nodes where m: "appendMerkleEntryTx tag_hash (revenue_db\<lparr>ledger_entries := [revenue_entry, ?e]\<rparr>) 2 flat_digest =
      Inr (revenue_db\<lparr>ledger_entries := [revenue_entry, ?e], ledger_merkle_nodes := nodes\<rparr>)" using sample_entry_extends by blast
  obtain sig where b: "revenue_batches revenue_db = [revenueBatchRow sample_revenue_W revenue_entry sig]" using revenue_db_fields(13) by blast
  have bid: "rb_batch_id (revenueBatchRow sample_revenue_W revenue_entry sig) = ''W''"
    by (simp add: revenueBatchRow_def sample_revenue_W_def)
  have same: "?e\<lparr>le_DeploymentID := [], le_QualifiedMAUCount := 0\<rparr> = ?e" using sample_entry by (cases ?e) simp
  have 1: "insert_ledger_entry revenue_db ?e = Inr (revenue_db\<lparr>ledger_entries := [revenue_entry, ?e]\<rparr>)"
    by (simp add: insert_ledger_entry_def sample_entry revenue_db_fields revenue_entry_fields sample_messages)
      (use sample_messages in metis)
  have upper: "strings_ToUpper ''EUR'' = ''EUR''" by code_simp
  have rest: "st_supersedes_settlement_id (settlementRow sample_settlement) = None" "st_fraction_digits (settlementRow sample_settlement) = 2"
    "st_receipt_signature (settlementRow sample_settlement) = srec_ReceiptSignature sample_settlement"
    by (simp_all add: settlementRow_def sample_row_ok)
  let ?db2 = "revenue_db\<lparr>ledger_entries := [revenue_entry, ?e], ledger_merkle_nodes := nodes\<rparr>"
  have 2: "insert_settlement ?db2 (settlementRow sample_settlement) = Inr (?db2\<lparr>settlements := [settlementRow sample_settlement]\<rparr>)"
    by (simp add: insert_settlement_def revenue_db_fields sample_entry sample_row_ok rest upper)
  show ?thesis
    by (simp add: insertSettlementTx_def same sample_entry(1,2) 1 m 2 sample_details sample_record0_fields sample_ttm_def sample_allocations_def
      insert_settlement_revenue_source_def insert_settlement_ttm_month_def insert_settlement_allocation_def sample_row_ok revenue_db_fields b bid
      revenue_entry_fields sample_deployment_def sample_revenue_W_def Let_def)
qed

lemma sample_calculation:
  "\<exists>db. CalculateSettlement tag_hash revenue_db empty_operators empty_transfers sample_settlement_input sample_sign = Inr (db, sample_settlement, False)"
proof -
  obtain db where db: "insertSettlementTx tag_hash revenue_db sample_settlement = Inr db" using sample_insert by blast
  have t: "ensureAcceptedAtAfterRegistryCreation revenue_db ''2026-02-02T00:00:00Z'' = Inr ()"
    "ensureAcceptedAtAfterCheckpoint revenue_db ''2026-02-02T00:00:00Z'' = Inr ()"
    "ensureAcceptedAtNotBeforeHead ''2026-02-02T00:00:00Z'' ''2026-01-02T00:00:02Z'' = Inr ()"
  proof -
    have p: "time_Parse_RFC3339Nano ''2026-02-02T00:00:00Z'' = Some 1769990400000000000" by code_simp
    show "ensureAcceptedAtAfterRegistryCreation revenue_db ''2026-02-02T00:00:00Z'' = Inr ()"
      by (simp add: ensureAcceptedAtAfterRegistryCreation_def revenue_db_fields p sample_times sample_identity_def)
    show "ensureAcceptedAtAfterCheckpoint revenue_db ''2026-02-02T00:00:00Z'' = Inr ()"
      by (simp add: ensureAcceptedAtAfterCheckpoint_def revenue_db_fields select_max_def)
    show "ensureAcceptedAtNotBeforeHead ''2026-02-02T00:00:00Z'' ''2026-01-02T00:00:02Z'' = Inr ()"
      by (simp add: ensureAcceptedAtNotBeforeHead_def p sample_run_times)
  qed
  have i: "sci_AcceptedAt sample_settlement_input = ''2026-02-02T00:00:00Z''" by (simp add: sample_settlement_input_def)
  have h: "lh_AcceptedAt revenue_head = ''2026-01-02T00:00:02Z''" by (simp add: revenue_head_def)
  have l: "latestSettlementTx revenue_db p c = Inr None" for p c by (simp add: latestSettlementTx_def revenue_db_fields select_max_def)
  show ?thesis
    using db by (simp add: CalculateSettlement_def Let_def i h t revenue_db_head sample_sources sample_fingerprint l from_option_def sample_settlement_def)
qed

definition settled_db :: registry_db where
  "settled_db = run_step revenue_db (CalculateSettlement tag_hash revenue_db empty_operators empty_transfers sample_settlement_input sample_sign)"

lemma sample_settled:
  "CalculateSettlement tag_hash revenue_db empty_operators empty_transfers sample_settlement_input sample_sign = Inr (settled_db, sample_settlement, False)"
  using sample_calculation unfolding settled_db_def by fastforce

lemma sample_settlement_ok: "settlements_ok revenue_db" "settlement_for revenue_db sample_settlement_input" "length (ledger_entries revenue_db) < 2 ^ 62"
  "time_Parse_month (sci_Period sample_settlement_input) = Some 24312"
  by (simp_all add: settlements_ok_def settlement_for_def revenue_db_fields sample_identity_def sample_settlement_input_def has_suffix_Z_def sample_period)

subsection \<open>Properties\<close>

text \<open>C16. Calculating a settlement keeps the ledger verifiable and only appends: when the checks of the ledger, the Merkle index and the
  weight rows pass before \<open>CalculateSettlement\<close> and the call succeeds, they pass afterwards; a new settlement adds exactly the entry that
  is returned, under a settlement identifier that was free, and an unchanged one adds nothing.\<close>

theorem CalculateSettlement_keeps_ledger:
  assumes "digest32 H" "ledger_verified H db" "length (ledger_entries db) < 2 ^ 62" "settlement_for db input" "settlements_ok db"
    and "CalculateSettlement H db ops transfers input signReceipt = Inr (db', record, duplicate)"
  shows "ledger_verified H db' \<and> ledger_entries db' = ledger_entries db @ (if duplicate then [] else [srec_LedgerEntry record]) \<and>
    settlements_ok db' \<and> settlements db' = settlements db @ (if duplicate then [] else [settlementRow record])"
  using assms(6)
proof (cases rule: CalculateSettlement_cases)
  case known
  then show ?thesis using assms(2,5) by simp
next
  case (fresh sources latest sig)
  then have f: "CalculateSettlement H db ops transfers input signReceipt = Inr (db', record, False)" using assms(6) by simp
  obtain nodes where "db' = settlement_appended (db\<lparr>ledger_entries := ledger_entries db @ [srec_LedgerEntry record], ledger_merkle_nodes := nodes\<rparr>) record"
      "srec_SettlementID record \<notin> st_settlement_id ` set (settlements db)"
    by (rule inserted_settlement [OF fresh(7,8)])
  then have "settlements_ok db'" "settlements db' = settlements db @ [settlementRow record]"
    using settlements_ok_appended [of "db\<lparr>ledger_entries := ledger_entries db @ [srec_LedgerEntry record], ledger_merkle_nodes := nodes\<rparr>" "record"] assms(5)
    by (simp_all add: settlements_ok_def)
  then show ?thesis using CalculateSettlement_verified [OF assms(1-4) f] fresh(1) by simp
qed

theorem CalculateSettlement_keeps_ledger_witness:
  "ledger_verified tag_hash settled_db \<and> ledger_entries settled_db = [revenue_entry, srec_LedgerEntry sample_settlement]"
  using CalculateSettlement_keeps_ledger [OF digest32_tag_hash revenue_db_state(1) sample_settlement_ok(3,2,1) sample_settled]
  by (simp add: revenue_db_fields)

text \<open>C17. A settlement is read back as it was written and calculated once: after a new settlement, looking it up by its identifier returns
  the very record, with its allocations, revenue and weight sources, months and members in order; and repeating the calculation with
  unchanged sources returns it as a duplicate, signs nothing and leaves the database as it is.\<close>

theorem CalculateSettlement_roundtrip:
  assumes "digest32 H" "ledger_verified H db" "length (ledger_entries db) < 2 ^ 62" "settlement_for db input" "settlements_ok db"
    and "list_all (\<lambda>s. 0 \<le> st_revision s \<and> st_revision s < 2 ^ 62) (settlements db)"
    and "CalculateSettlement H db ops transfers input signReceipt = Inr (db', record, False)"
  shows "settlementByIDQuery db' (srec_SettlementID record) = Inr record \<and>
    CalculateSettlement H db' ops transfers input signAgain = Inr (db', record, True)"
  using assms(7)
proof (cases rule: CalculateSettlement_cases)
  case (fresh sources latest sig)
  note stored = CalculateSettlement_stored [OF assms(5,7)] and v = CalculateSettlement_verified [OF assms(1-4,7)]
  obtain nodes where db': "db' = settlement_appended (db\<lparr>ledger_entries := ledger_entries db @ [srec_LedgerEntry record], ledger_merkle_nodes := nodes\<rparr>) record"
    by (rule inserted_settlement [OF fresh(7,8)])
  obtain t where t: "time_Parse_RFC3339Nano (sci_AcceptedAt input) = Some t"
    using fresh(2) by (auto simp: ensureAcceptedAtAfterRegistryCreation_def split: option.splits if_splits)
  have head: "lh_AcceptedAt (ledgerHeadTx db') = sci_AcceptedAt input"
    using v by (simp add: ledger_verified_def ledgerHeadTx_sorted fresh(7))
  have sources: "srec_Period sources = sci_Period input" "srec_CurrencyCode sources = sci_CurrencyCode input"
    by (rule settlementSourcesTx_steps [OF fresh(5)], assumption)+
  have "latestSettlementTx db' (sci_Period input) (sci_CurrencyCode input) = Inr (Some record)"
    using assms(6) by (intro latestSettlementTx_appended [OF assms(5) fresh(6) stored(3,2)]) (simp_all add: fresh(7) sources)
  moreover have "settlementSourcesTx H db' ops transfers input = Inr sources"
    using fresh(5) settlementSourcesTx_cong [of db' db] by (simp add: db' fresh(7))
  moreover have "ensureAcceptedAtAfterRegistryCreation db' (sci_AcceptedAt input) = Inr ()" "ensureAcceptedAtAfterCheckpoint db' (sci_AcceptedAt input) = Inr ()"
    using fresh(2,3) by (simp_all add: ensureAcceptedAtAfterRegistryCreation_def ensureAcceptedAtAfterCheckpoint_def db')
  moreover have "ensureAcceptedAtNotBeforeHead (sci_AcceptedAt input) (lh_AcceptedAt (ledgerHeadTx db')) = Inr ()"
    by (simp add: head ensureAcceptedAtNotBeforeHead_def t)
  ultimately show ?thesis using stored(2) by (intro conjI CalculateSettlement_known) (simp_all add: fresh(7))
qed simp

theorem CalculateSettlement_roundtrip_witness:
  "settlementByIDQuery settled_db ''stl_00000000000000000000000000000001'' = Inr sample_settlement \<and>
    CalculateSettlement tag_hash settled_db empty_operators empty_transfers sample_settlement_input (\<lambda>_. None) = Inr (settled_db, sample_settlement, True)"
  using CalculateSettlement_roundtrip [OF digest32_tag_hash revenue_db_state(1) sample_settlement_ok(3,2,1) _ sample_settled]
  by (simp add: revenue_db_fields sample_row_ok)

text \<open>C18. A settlement pays out exactly its pool: in every new settlement the allocations add up to the commission pool of the month, which
  is five percent of its commission basis rounded down, and to the indicative network value; no allocation is negative, and the founder
  stands first with at least a tenth of both.\<close>

theorem CalculateSettlement_pays_pool:
  assumes "CalculateSettlement H db ops transfers input signReceipt = Inr (db', record, False)"
  shows "sum_list (map sa_NetworkPoolAllocationMinor (srec_Allocations record)) = RevenueCommissionMinor (srec_CommissionBasisMinor record) \<and>
    srec_NetworkCommissionPoolMinor record = RevenueCommissionMinor (srec_CommissionBasisMinor record) \<and>
    sum_list (map sa_IndicativeValueAllocationMinor (srec_Allocations record)) = srec_IndicativeNetworkValueMinor record \<and>
    list_all (\<lambda>a. 0 \<le> sa_NetworkPoolAllocationMinor a \<and> 0 \<le> sa_IndicativeValueAllocationMinor a) (srec_Allocations record) \<and>
    srec_Allocations record \<noteq> [] \<and> sa_BeneficiaryType (hd (srec_Allocations record)) = SettlementBeneficiaryFounder \<and>
    srec_NetworkCommissionPoolMinor record div 10 \<le> sa_NetworkPoolAllocationMinor (hd (srec_Allocations record)) \<and>
    srec_IndicativeNetworkValueMinor record div 10 \<le> sa_IndicativeValueAllocationMinor (hd (srec_Allocations record))"
  using assms
proof (cases rule: CalculateSettlement_cases)
  case (fresh sources latest sig)
  have same: "srec_Allocations record = srec_Allocations sources" "srec_NetworkCommissionPoolMinor record = srec_NetworkCommissionPoolMinor sources"
    "srec_IndicativeNetworkValueMinor record = srec_IndicativeNetworkValueMinor sources" "srec_CommissionBasisMinor record = srec_CommissionBasisMinor sources"
    by (simp_all add: fresh(7))
  show ?thesis unfolding same by (rule settlementSourcesTx_pays [OF fresh(5)])
qed simp

theorem CalculateSettlement_pays_pool_witness:
  "sum_list (map sa_NetworkPoolAllocationMinor (srec_Allocations sample_settlement)) = 45"
  using CalculateSettlement_pays_pool [OF sample_settled] by (simp add: sample_settlement_def sample_record0_def settlement_record_def sample_commission)

lemma settled_db_fields:
  "settlements settled_db = [settlementRow sample_settlement]" "ledger_entries settled_db = [revenue_entry, srec_LedgerEntry sample_settlement]"
  using CalculateSettlement_stored(3) [OF sample_settlement_ok(1) sample_settled]
    CalculateSettlement_verified [OF digest32_tag_hash revenue_db_state(1) sample_settlement_ok(3,2) sample_settled]
  by (simp_all add: revenue_db_fields)

text \<open>A second revision, as under twice the multiplier: the store accepts it with a ledger entry and hashes of its own.\<close>

definition other_digest :: string where
  "other_digest = ''sha256:6363636363636363636363636363636363636363636363636363636363636363''"

definition other_entry :: LedgerEntry where
  "other_entry = (srec_LedgerEntry sample_settlement)\<lparr>le_LedgerIndex := 3, le_BatchID := ''stl_00000000000000000000000000000002'',
     le_BatchHash := other_digest, le_PreviousEntryHash := flat_digest, le_EntryHash := other_digest\<rparr>"

definition other_settlement :: SettlementRecord where
  "other_settlement = sample_settlement\<lparr>srec_SettlementID := ''stl_00000000000000000000000000000002'', srec_Revision := 2,
     srec_SupersedesSettlementID := ''stl_00000000000000000000000000000001'', srec_BaseValuationMultiplierBasisPoints := 20000,
     srec_EffectiveValuationMultiplierBasisPoints := 25000, srec_IndicativeNetworkValueMinor := 2250, srec_SourceFingerprint := flat_digest,
     srec_SettlementHash := other_digest, srec_LedgerEntry := other_entry,
     srec_Allocations := map (\<lambda>a. a\<lparr>sa_IndicativeValueAllocationMinor := 2 * sa_IndicativeValueAllocationMinor a\<rparr>) sample_allocations\<rparr>"

lemma other_entry_fields:
  "le_LedgerIndex other_entry = 3" "le_EntryHash other_entry = other_digest" "le_BatchID other_entry = ''stl_00000000000000000000000000000002''"
  "le_DeploymentID other_entry = []" "le_QualifiedMAUCount other_entry = 0" "ledger_row_check other_entry"
  "le_ProtocolVersion other_entry = ''1''"
proof -
  show "ledger_row_check other_entry" using sample_entry(4) by (simp add: other_entry_def ledger_row_check_def)
qed (simp_all add: other_entry_def sample_entry)

lemma other_row_ok:
  "settlement_rates_check (settlementRow other_settlement)" "settlement_amounts_check (settlementRow other_settlement)"
  "srec_SettlementID other_settlement = ''stl_00000000000000000000000000000002''" "srec_Revision other_settlement = 2"
  "srec_SupersedesSettlementID other_settlement = ''stl_00000000000000000000000000000001''"
  "srec_Period other_settlement = ''2026-01''" "srec_CurrencyCode other_settlement = ''EUR''" "srec_FractionDigits other_settlement = 2"
  "length (srec_ReceiptSignature other_settlement) = 64" "srec_LedgerEntry other_settlement = other_entry"
  "srec_SourceFingerprint other_settlement = flat_digest" "srec_SettlementHash other_settlement = other_digest"
  using sample_row_ok
  by (simp_all add: other_settlement_def settlement_rates_check_def settlement_amounts_check_def settlementRow_def)

lemma other_details:
  "srec_RevenueSources other_settlement = srec_RevenueSources sample_record0" "srec_TTMMonths other_settlement = sample_ttm"
  "srec_WeightSources other_settlement = []" "srec_BeneficiaryDeployments other_settlement = []"
  "srec_Allocations other_settlement = map (\<lambda>a. a\<lparr>sa_IndicativeValueAllocationMinor := 2 * sa_IndicativeValueAllocationMinor a\<rparr>) sample_allocations"
  by (simp_all add: other_settlement_def sample_details)

lemma other_digest_new: "Digest tag_hash m \<noteq> other_digest" "tag_digest \<noteq> other_digest" "flat_digest \<noteq> other_digest"
  by (simp_all add: Digest_tag tag_digest_def flat_digest_def other_digest_def)

lemma other_entry_extends:
  "\<exists>nodes. appendMerkleEntryTx tag_hash (settled_db\<lparr>ledger_entries := [revenue_entry, srec_LedgerEntry sample_settlement, other_entry]\<rparr>) 3 other_digest =
     Inr (settled_db\<lparr>ledger_entries := [revenue_entry, srec_LedgerEntry sample_settlement, other_entry], ledger_merkle_nodes := nodes\<rparr>)"
proof -
  let ?db = "settled_db\<lparr>ledger_entries := [revenue_entry, srec_LedgerEntry sample_settlement, other_entry]\<rparr>"
  have v: "ledger_verified tag_hash settled_db"
    using CalculateSettlement_verified [OF digest32_tag_hash revenue_db_state(1) sample_settlement_ok(3,2) sample_settled] by blast
  then have "ledger_contiguous settled_db"
    by (intro VerifyLedger_contiguous [OF digest32_tag_hash]) (simp_all add: ledger_verified_def settled_db_fields)
  moreover have "IsDigest other_digest" by code_simp
  ultimately have "ledger_contiguous ?db" by (simp add: ledger_contiguous_def settled_db_fields other_entry_fields)
  from appendMerkleEntryTx_verified [OF digest32_tag_hash this, of settled_db other_entry] show ?thesis
    using v by (auto simp: settled_db_fields other_entry_fields ledger_verified_def)
qed

lemma settled_db_appended:
  obtains nodes where "settled_db = settlement_appended (revenue_db\<lparr>ledger_entries := ledger_entries revenue_db @ [srec_LedgerEntry sample_settlement],
    ledger_merkle_nodes := nodes\<rparr>) sample_settlement"
  using sample_settled
proof (cases rule: CalculateSettlement_cases)
  case (fresh sources latest sig)
  show thesis by (rule inserted_settlement [OF fresh(7,8)]) (rule that)
qed simp

lemma settled_db_tables:
  "deployments settled_db = [sample_deployment]" "\<exists>sig. revenue_batches settled_db = [revenueBatchRow sample_revenue_W revenue_entry sig]"
  "settlement_revenue_sources settled_db = map (Pair ''stl_00000000000000000000000000000001'') (srec_RevenueSources sample_record0)"
  "settlement_ttm_months settled_db = map (Pair ''stl_00000000000000000000000000000001'') sample_ttm"
  "settlement_allocations settled_db = map (Pair ''stl_00000000000000000000000000000001'')
     (map (\<lambda>(index, allocation). (int index, allocation)) (enumerate 0 sample_allocations))"
proof -
  obtain nodes where s: "settled_db = settlement_appended (revenue_db\<lparr>ledger_entries := ledger_entries revenue_db @ [srec_LedgerEntry sample_settlement],
      ledger_merkle_nodes := nodes\<rparr>) sample_settlement"
    by (rule settled_db_appended)
  show "\<exists>sig. revenue_batches settled_db = [revenueBatchRow sample_revenue_W revenue_entry sig]" using revenue_db_fields(13) by (simp add: s)
  show "deployments settled_db = [sample_deployment]"
    "settlement_revenue_sources settled_db = map (Pair ''stl_00000000000000000000000000000001'') (srec_RevenueSources sample_record0)"
    "settlement_ttm_months settled_db = map (Pair ''stl_00000000000000000000000000000001'') sample_ttm"
    "settlement_allocations settled_db = map (Pair ''stl_00000000000000000000000000000001'')
       (map (\<lambda>(index, allocation). (int index, allocation)) (enumerate 0 sample_allocations))"
    by (simp_all add: s settlement_appended_def revenue_db_fields sample_details sample_row_ok Let_def)
qed

lemma other_insert:
  "\<exists>db. insertSettlementTx tag_hash settled_db other_settlement = Inr db"
proof -
  let ?E = "[revenue_entry, srec_LedgerEntry sample_settlement, other_entry]"
  obtain nodes where m: "appendMerkleEntryTx tag_hash (settled_db\<lparr>ledger_entries := ?E\<rparr>) 3 other_digest =
      Inr (settled_db\<lparr>ledger_entries := ?E, ledger_merkle_nodes := nodes\<rparr>)" using other_entry_extends by blast
  obtain sig where b: "revenue_batches settled_db = [revenueBatchRow sample_revenue_W revenue_entry sig]" using settled_db_tables(2) by blast
  have bid: "rb_batch_id (revenueBatchRow sample_revenue_W revenue_entry sig) = ''W''" by (simp add: revenueBatchRow_def sample_revenue_W_def)
  have same: "other_entry\<lparr>le_DeploymentID := [], le_QualifiedMAUCount := 0\<rparr> = other_entry" using other_entry_fields by (cases other_entry) simp
  have 1: "insert_ledger_entry settled_db other_entry = Inr (settled_db\<lparr>ledger_entries := ?E\<rparr>)"
    by (simp add: insert_ledger_entry_def other_entry_fields settled_db_fields revenue_entry_fields sample_entry other_digest_new [symmetric])
  have upper: "strings_ToUpper ''EUR'' = ''EUR''" by code_simp
  have rest: "st_supersedes_settlement_id (settlementRow other_settlement) = Some ''stl_00000000000000000000000000000001''"
    "st_fraction_digits (settlementRow other_settlement) = 2" "st_settlement_hash (settlementRow other_settlement) = other_digest"
    "st_receipt_signature (settlementRow other_settlement) = srec_ReceiptSignature other_settlement"
    by (simp_all add: settlementRow_def other_row_ok)
  have first: "srec_SourceFingerprint sample_settlement = tag_digest" "st_settlement_hash (settlementRow sample_settlement) \<noteq> other_digest"
    by (simp_all add: sample_settlement_def hashed_settlement_def Let_def settlementRow_def other_digest_new)
  let ?db2 = "settled_db\<lparr>ledger_entries := ?E, ledger_merkle_nodes := nodes\<rparr>"
  have 2: "insert_settlement ?db2 (settlementRow other_settlement) = Inr (?db2\<lparr>settlements := [settlementRow sample_settlement, settlementRow other_settlement]\<rparr>)"
    using first sample_messages
    by (simp add: insert_settlement_def settled_db_fields other_row_ok other_entry_fields sample_entry sample_row_ok rest upper)
  show ?thesis
    by (simp add: insertSettlementTx_def same other_row_ok other_entry_fields 1 m 2 other_details sample_record0_fields sample_ttm_def
      sample_allocations_def insert_settlement_revenue_source_def insert_settlement_ttm_month_def insert_settlement_allocation_def
      settled_db_tables b bid revenue_entry_fields sample_deployment_def sample_revenue_W_def sample_row_ok Let_def)
qed

lemma settled_again_sources:
  assumes "insertSettlementTx tag_hash settled_db other_settlement = Inr db"
  shows "settlementSourcesTx tag_hash db empty_operators empty_transfers sample_settlement_input = Inr sample_sources_record"
    "settlements db = [settlementRow sample_settlement, settlementRow other_settlement]"
    "ledger_entries db = [revenue_entry, srec_LedgerEntry sample_settlement, other_entry]"
proof -
  obtain nodes where s: "settled_db = settlement_appended (revenue_db\<lparr>ledger_entries := ledger_entries revenue_db @ [srec_LedgerEntry sample_settlement],
      ledger_merkle_nodes := nodes\<rparr>) sample_settlement" by (rule settled_db_appended)
  obtain nodes' where d: "db = settlement_appended (settled_db\<lparr>ledger_entries := ledger_entries settled_db @ [other_entry],
      ledger_merkle_nodes := nodes'\<rparr>) other_settlement"
    by (rule insertSettlementTx_Inr [OF assms, of other_entry]) (simp_all add: other_row_ok other_entry_fields that)
  show "settlements db = [settlementRow sample_settlement, settlementRow other_settlement]"
    "ledger_entries db = [revenue_entry, srec_LedgerEntry sample_settlement, other_entry]" by (simp_all add: d settled_db_fields)
  have "settlementSourcesTx tag_hash db empty_operators empty_transfers sample_settlement_input =
      settlementSourcesTx tag_hash revenue_db empty_operators empty_transfers sample_settlement_input"
    by (rule settlementSourcesTx_cong) (simp_all add: d s sample_settlement_def other_entry_def)
  then show "settlementSourcesTx tag_hash db empty_operators empty_transfers sample_settlement_input = Inr sample_sources_record"
    by (simp add: sample_sources sample_fingerprint)
qed

text \<open>C40. A settlement cannot return to earlier sources: the calculation compares the sources with the latest revision only, but the
  fingerprint is unique among all revisions of a month and currency.  When the sources are again those of an earlier revision, for
  example after the valuation multiplier was changed and set back, every calculation fails.\<close>

theorem CalculateSettlement_revert_fails:
  assumes "settlementSourcesTx H db ops transfers input = Inr sources"
    and "latestSettlementTx db (sci_Period input) (sci_CurrencyCode input) = Inr (Some latest)"
    and "srec_SourceFingerprint latest \<noteq> srec_SourceFingerprint sources"
    and "s \<in> set (settlements db)" "st_period s = sci_Period input" "st_currency_code s = sci_CurrencyCode input"
    and "st_source_fingerprint s = srec_SourceFingerprint sources"
  shows "isl (CalculateSettlement H db ops transfers input signReceipt)"
proof (rule ccontr)
  assume "\<not> isl (CalculateSettlement H db ops transfers input signReceipt)"
  then obtain db' "record" duplicate where "CalculateSettlement H db ops transfers input signReceipt = Inr (db', record, duplicate)"
    by (cases "CalculateSettlement H db ops transfers input signReceipt") auto
  then show False
  proof (cases rule: CalculateSettlement_cases)
    case (known known_sources)
    then show False using assms(1-3) by simp
  next
    case (fresh fresh_sources fresh_latest sig)
    have d: "le_DeploymentID (srec_LedgerEntry record) = []" "le_QualifiedMAUCount (srec_LedgerEntry record) = 0" by (simp_all add: fresh(7))
    have same: "srec_Period record = sci_Period input" "srec_CurrencyCode record = sci_CurrencyCode input"
      "srec_SourceFingerprint record = srec_SourceFingerprint sources"
      using assms(1) fresh(5) by (simp_all add: fresh(7)) (rule settlementSourcesTx_steps [OF assms(1)], assumption)+
    have "(srec_Period record, srec_CurrencyCode record, srec_SourceFingerprint record) \<notin>
        (\<lambda>r. (st_period r, st_currency_code r, st_source_fingerprint r)) ` set (settlements db)"
      by (rule insertSettlementTx_Inr [OF fresh(8) refl d])
    then show False using assms(4-7) unfolding same by (metis (mono_tags, lifting) image_eqI)
  qed
qed

theorem CalculateSettlement_revert_fails_witness:
  "\<exists>db. insertSettlementTx tag_hash settled_db other_settlement = Inr db \<and>
     isl (CalculateSettlement tag_hash db empty_operators empty_transfers sample_settlement_input sample_sign)"
proof -
  obtain db where db: "insertSettlementTx tag_hash settled_db other_settlement = Inr db" using other_insert by blast
  note again = settled_again_sources [OF db]
  have i: "sci_Period sample_settlement_input = ''2026-01''" "sci_CurrencyCode sample_settlement_input = ''EUR''"
    by (simp_all add: sample_settlement_input_def)
  have "\<exists>l. settlementByIDQuery db ''stl_00000000000000000000000000000002'' = Inr l \<and> srec_SourceFingerprint l = flat_digest"
    by (simp add: settlementByIDQuery_def sample_row_ok other_row_ok other_entry_fields again revenue_entry_fields sample_entry)
  then obtain l where l: "latestSettlementTx db ''2026-01'' ''EUR'' = Inr (Some l)" "srec_SourceFingerprint l = flat_digest"
    by (auto simp: latestSettlementTx_def sample_row_ok other_row_ok again select_max_def)
  have f: "srec_SourceFingerprint sample_settlement = tag_digest" by (simp add: sample_settlement_def)
  have "isl (CalculateSettlement tag_hash db empty_operators empty_transfers sample_settlement_input sample_sign)"
    by (rule CalculateSettlement_revert_fails [OF again(1) _ _ _ _ _, where latest = l and s = "settlementRow sample_settlement", unfolded i])
      (use l sample_messages in \<open>simp_all add: f sample_row_ok again\<close>)
  with db show ?thesis by blast
qed

end
