(* ===== verification/Settlement_Verify.thy ===== *)
theory Settlement_Verify
  imports Settlement_Store
begin

text \<open>
  The verification of stored settlements (\<open>store/sqlite/settlement_verify.go\<close>): every settlement is read back, its metadata, hashes and
  signature are checked, its sources are read again at the positions it pins and its figures are computed again from them; the revisions
  of a month and currency have to form a chain.

  The lemmas show that a calculation, its storage and its verification agree: a new settlement passes all these checks, the settlements
  before it keep passing them, and it continues the chain of revisions.
\<close>

subsection \<open>Computing a settlement again\<close>

text \<open>\<open>time.Parse\<close> returns the zero time with its error, January of the year 1.\<close>

definition parsed_period :: "string \<Rightarrow> int" where
  "parsed_period period = (case time_Parse_month period of None \<Rightarrow> 12 | Some m \<Rightarrow> m)"

definition recomputeSettlementDerived :: "SettlementRecord \<Rightarrow> int \<Rightarrow> store_error + SettlementRecord" where
  "recomputeSettlementDerived record measuredWeight =
     bindR (monthly_basis_loop (\<lambda>_. 0) (srec_RevenueSources record)) (\<lambda>monthlyBasis.
     let ttmStart = parsed_period (srec_Period record) - 11 in
     bindR (ttm_loop monthlyBasis 0 (map (\<lambda>offset. format_month (ttmStart + int offset)) [0..<12])) (\<lambda>(ttmBasis, months).
     let basis = monthlyBasis (srec_Period record);
         (earlier, prior, recent) = settlementThreeMonthAverages months;
         priorGrowth = settlementGrowthBasisPoints earlier prior;
         recentGrowth = settlementGrowthBasisPoints prior recent;
         acceleration = clampInt64 (i64 (recentGrowth - priorGrowth))
           SettlementMinimumAccelerationBasisPoints SettlementMaximumAccelerationBasisPoints;
         adjustment = clampInt64 (i64 (recentGrowth sdiv SettlementAccelerationAdjustmentDivisor +
             acceleration sdiv SettlementAccelerationAdjustmentDivisor))
           SettlementMinimumValuationAdjustmentBasisPoints SettlementMaximumValuationAdjustmentBasisPoints;
         (effectiveMultiplier, ok) = multiplyBasisPoints (srec_BaseValuationMultiplierBasisPoints record) (i64 (10000 + adjustment))
     in if \<not> ok then Inl ErrRevenueAggregateOverflow
        else
          let (indicativeValue, ok) = multiplyBasisPoints ttmBasis effectiveMultiplier
          in if \<not> ok then Inl ErrRevenueAggregateOverflow
             else
               bindR (settlementRatios (srec_WeightSources record) measuredWeight) (\<lambda>ratios.
               bindR (allocateSettlementAmounts ratios (RevenueCommissionMinor basis) indicativeValue) (\<lambda>allocations.
               Inr (record\<lparr>srec_TTMMonths := months, srec_CommissionBasisMinor := basis,
                 srec_NetworkCommissionPoolMinor := RevenueCommissionMinor basis, srec_TTMCommissionBasisMinor := ttmBasis,
                 srec_TTMNetworkCommissionPoolMinor := RevenueCommissionMinor ttmBasis,
                 srec_EarlierThreeMonthAverageMinor := earlier, srec_PriorThreeMonthAverageMinor := prior,
                 srec_RecentThreeMonthAverageMinor := recent, srec_PriorGrowthBasisPoints := priorGrowth,
                 srec_RecentGrowthBasisPoints := recentGrowth, srec_AccelerationBasisPoints := acceleration,
                 srec_ValuationAdjustmentBasisPoints := adjustment,
                 srec_EffectiveValuationMultiplierBasisPoints := effectiveMultiplier,
                 srec_IndicativeNetworkValueMinor := indicativeValue, srec_Allocations := allocations\<rparr>)))))"

definition derived_matches :: "SettlementRecord \<Rightarrow> SettlementRecord \<Rightarrow> bool" where
  "derived_matches record expected \<longleftrightarrow>
     srec_TTMMonths record = srec_TTMMonths expected \<and>
     srec_CommissionBasisMinor record = srec_CommissionBasisMinor expected \<and>
     srec_NetworkCommissionPoolMinor record = srec_NetworkCommissionPoolMinor expected \<and>
     srec_TTMCommissionBasisMinor record = srec_TTMCommissionBasisMinor expected \<and>
     srec_TTMNetworkCommissionPoolMinor record = srec_TTMNetworkCommissionPoolMinor expected \<and>
     srec_RecentThreeMonthAverageMinor record = srec_RecentThreeMonthAverageMinor expected \<and>
     srec_PriorThreeMonthAverageMinor record = srec_PriorThreeMonthAverageMinor expected \<and>
     srec_EarlierThreeMonthAverageMinor record = srec_EarlierThreeMonthAverageMinor expected \<and>
     srec_RecentGrowthBasisPoints record = srec_RecentGrowthBasisPoints expected \<and>
     srec_PriorGrowthBasisPoints record = srec_PriorGrowthBasisPoints expected \<and>
     srec_AccelerationBasisPoints record = srec_AccelerationBasisPoints expected \<and>
     srec_ValuationAdjustmentBasisPoints record = srec_ValuationAdjustmentBasisPoints expected \<and>
     srec_EffectiveValuationMultiplierBasisPoints record = srec_EffectiveValuationMultiplierBasisPoints expected \<and>
     srec_IndicativeNetworkValueMinor record = srec_IndicativeNetworkValueMinor expected \<and>
     srec_Allocations record = srec_Allocations expected"

subsection \<open>Checking one settlement\<close>

definition validPersistedTimestamp :: "string \<Rightarrow> bool" where
  "validPersistedTimestamp timestamp \<longleftrightarrow> has_suffix_Z timestamp \<and> time_Parse_RFC3339Nano timestamp \<noteq> None"

definition validSettlementPeriod :: "string \<Rightarrow> bool" where
  "validSettlementPeriod period \<longleftrightarrow> (case time_Parse_month period of None \<Rightarrow> False | Some parsed \<Rightarrow> format_month parsed = period)"

definition settlement_metadata_ok :: "SettlementRecord \<Rightarrow> string \<Rightarrow> string \<Rightarrow> bool" where
  "settlement_metadata_ok record registryKeyID registryScope \<longleftrightarrow>
     (let entry = srec_LedgerEntry record in
      validHexID (srec_SettlementID record) ''stl_'' 32 \<and> validSettlementPeriod (srec_Period record) \<and>
      ISO4217FractionDigits (srec_CurrencyCode record) = Some (srec_FractionDigits record) \<and>
      srec_RulesetVersion record = SettlementRulesetVersion \<and>
      srec_ValuationRulesetVersion record = SettlementValuationRulesetVersion \<and>
      srec_CommissionRateBasisPoints record = RevenueCommissionBasisPoints \<and>
      srec_BaseValuationMultiplierBasisPoints record \<ge> SettlementMinimumBaseValuationMultiplierBasisPoints \<and>
      srec_BaseValuationMultiplierBasisPoints record \<le> SettlementMaximumBaseValuationMultiplierBasisPoints \<and>
      srec_RegistryKeyID record = registryKeyID \<and> validPersistedTimestamp (srec_AcceptedAt record) \<and>
      le_ProtocolVersion entry = Version \<and> le_RegistryScope entry = registryScope \<and> le_EntryType entry = SettlementEntryType \<and>
      le_DeploymentID entry = [] \<and> le_BatchID entry = srec_SettlementID record \<and> le_Kind entry = SettlementKind \<and>
      le_Period entry = srec_Period record \<and> le_RulesetVersion entry = SettlementRulesetVersion \<and>
      le_QualifiedMAUCount entry = 0 \<and> le_BatchHash entry = srec_SettlementHash record \<and>
      le_AcceptedAt entry = srec_AcceptedAt record)"

fun allocated_totals :: "int \<Rightarrow> int \<Rightarrow> SettlementAllocation list \<Rightarrow> (int \<times> int) option" where
  "allocated_totals allocatedPool allocatedValue [] = Some (allocatedPool, allocatedValue)"
| "allocated_totals allocatedPool allocatedValue (allocation # allocations) =
     (case checkedRevenueAdd allocatedPool (sa_NetworkPoolAllocationMinor allocation) of
        None \<Rightarrow> None
      | Some allocatedPool \<Rightarrow>
          (case checkedRevenueAdd allocatedValue (sa_IndicativeValueAllocationMinor allocation) of
             None \<Rightarrow> None
           | Some allocatedValue \<Rightarrow> allocated_totals allocatedPool allocatedValue allocations))"

text \<open>\<open>table\<close> is one of the operator logs with its index and hash columns.\<close>

definition verifySettlementChainHash ::
  "'e list \<Rightarrow> ('e \<Rightarrow> int) \<Rightarrow> ('e \<Rightarrow> string) \<Rightarrow> int \<Rightarrow> string \<Rightarrow> string \<Rightarrow> store_error + unit" where
  "verifySettlementChainHash table indexColumn hashColumn index hash zeroHash =
     (if index = 0 then if hash \<noteq> zeroHash then Inl ErrInconsistentState else Inr ()
      else (case find (\<lambda>row. indexColumn row = index) table of
              None \<Rightarrow> Inl ErrInconsistentState
            | Some row \<Rightarrow> if hashColumn row \<noteq> hash then Inl ErrInconsistentState else Inr ()))"

definition settlement_boundary_of :: "SettlementRecord \<Rightarrow> int \<Rightarrow> LeaderboardBoundary" where
  "settlement_boundary_of record transferEventIndex =
     \<lparr>lb_LedgerIndex = srec_ThroughLedgerIndex record, lb_AuditIndex = srec_ThroughAuditIndex record,
      lb_ReviewIndex = srec_ThroughReviewIndex record, lb_EligibilityIndex = srec_ThroughEligibilityIndex record,
      lb_TransferEventIndex = transferEventIndex, lb_LedgerHash = [], lb_AuditHash = [], lb_ReviewHash = [],
      lb_EligibilityHash = [], lb_TransferEventHash = [], lb_CreatedAt = []\<rparr>"

text \<open>The checks that need the other tables: the pinned positions and the sources read at them.\<close>

definition verify_settlement_sources ::
  "registry_db \<Rightarrow> operator_tables \<Rightarrow> transfer_tables \<Rightarrow> SettlementRecord \<Rightarrow> store_error + unit" where
  "verify_settlement_sources db ops transfers record =
     (let entry = srec_LedgerEntry record;
          source = (case select_max le_LedgerIndex (filter (\<lambda>e. le_EntryType e \<noteq> SettlementEntryType \<and> le_LedgerIndex e < le_LedgerIndex entry)
              (ledger_entries db)) of None \<Rightarrow> (0, ZeroHash) | Some e \<Rightarrow> (le_LedgerIndex e, le_EntryHash e))
      in if fst source \<noteq> srec_ThroughLedgerIndex record \<or> snd source \<noteq> srec_LedgerHeadHash record then Inl ErrInconsistentState
      else
      bindR (verifySettlementChainHash (operator_audit_events ops) oae_AuditIndex oae_AuditHash
        (srec_ThroughAuditIndex record) (srec_AuditHeadHash record) OperatorAuditZeroHash) (\<lambda>_.
      bindR (verifySettlementChainHash (operator_claim_reviews ops) ocrw_ReviewIndex ocrw_ReviewHash
        (srec_ThroughReviewIndex record) (srec_ReviewHeadHash record) OperatorClaimReviewZeroHash) (\<lambda>_.
      bindR (verifySettlementChainHash (operator_claim_eligibility_events ops) oce_EligibilityIndex oce_EligibilityHash
        (srec_ThroughEligibilityIndex record) (srec_EligibilityHeadHash record) OperatorClaimEligibilityZeroHash) (\<lambda>_.
      let periodStart = parsed_period (srec_Period record);
          expectedRevenue = settlementRevenueSourcesTx db (srec_CurrencyCode record) (format_first_day (periodStart - 11))
            (format_first_day (periodStart + 1)) (srec_ThroughLedgerIndex record);
          transferHead = ownershipTransferEventHeadAt transfers (srec_AcceptedAt record)
      in if length (srec_AcceptedAt record) < 10 then Inl SliceOutOfRange
      else
      bindR (settlementWeightSourcesTx db ops transfers (format_month (periodStart - 5)) (srec_Period record)
          (settlement_boundary_of record (fst transferHead)) (take 10 (srec_AcceptedAt record)))
        (\<lambda>(expectedWeights, expectedMembers, measuredWeight).
      if srec_RevenueSources record \<noteq> expectedRevenue \<or> srec_WeightSources record \<noteq> expectedWeights \<or>
         srec_BeneficiaryDeployments record \<noteq> expectedMembers then Inl ErrInconsistentState
      else
      bindR (recomputeSettlementDerived record measuredWeight) (\<lambda>expected.
      if \<not> derived_matches record expected then Inl ErrInconsistentState else Inr ()))))))"

text \<open>\<open>verify\<close> stands for \<open>ed25519.Verify\<close> under the registry's public key.\<close>

definition verifySettlementRecordTx ::
  "(bytes \<Rightarrow> bytes) \<Rightarrow> registry_db \<Rightarrow> operator_tables \<Rightarrow> transfer_tables \<Rightarrow> SettlementRecord \<Rightarrow> (bytes \<Rightarrow> bytes \<Rightarrow> bool)
    \<Rightarrow> string \<Rightarrow> string \<Rightarrow> store_error + unit" where
  "verifySettlementRecordTx H db ops transfers record verify registryKeyID registryScope =
     (if \<not> settlement_metadata_ok record registryKeyID registryScope then Inl ErrInconsistentState
      else if \<not> settlementRecordHasSafeMinorAmounts record then Inl ErrInconsistentState
      else if srec_AllocationHash record \<noteq> SettlementAllocationHash H (srec_Allocations record) \<or>
        srec_SourceFingerprint record \<noteq> settlementSourceFingerprint H record then Inl ErrInconsistentState
      else if allocated_totals 0 0 (srec_Allocations record) \<noteq>
        Some (srec_NetworkCommissionPoolMinor record, srec_IndicativeNetworkValueMinor record) then Inl ErrInconsistentState
      else
        let receipt = settlementReceipt record registryScope in
        if srec_SettlementHash record \<noteq> Digest H (SettlementHashMessage receipt) \<or>
           \<not> verify (SettlementReceiptMessage receipt) (srec_ReceiptSignature record) then Inl ErrInconsistentState
        else verify_settlement_sources db ops transfers record)"

subsection \<open>Checking all settlements\<close>

text \<open>The map \<open>revisions\<close> has the last revision and its identifier for every month and currency, and zero values for others.\<close>

fun verify_settlements_loop ::
  "(bytes \<Rightarrow> bytes) \<Rightarrow> registry_db \<Rightarrow> operator_tables \<Rightarrow> transfer_tables \<Rightarrow> (bytes \<Rightarrow> bytes \<Rightarrow> bool) \<Rightarrow> string \<Rightarrow> string
    \<Rightarrow> (string \<Rightarrow> int \<times> string) \<Rightarrow> string list \<Rightarrow> store_error + (string \<Rightarrow> int \<times> string)" where
  "verify_settlements_loop H db ops transfers verify registryKeyID registryScope revisions [] = Inr revisions"
| "verify_settlements_loop H db ops transfers verify registryKeyID registryScope revisions (settlementID # ids) =
     bindR (case settlementByIDQuery db settlementID of Inl _ \<Rightarrow> Inl ErrInconsistentState | Inr record \<Rightarrow> Inr record) (\<lambda>record.
     bindR (verifySettlementRecordTx H db ops transfers record verify registryKeyID registryScope) (\<lambda>_.
     let key = srec_Period record @ [CHR 0x00] @ srec_CurrencyCode record; previous = revisions key in
     if srec_Revision record \<noteq> i64 (fst previous + 1) \<or>
        srec_Revision record = 1 \<and> srec_SupersedesSettlementID record \<noteq> [] \<or>
        srec_Revision record > 1 \<and> srec_SupersedesSettlementID record \<noteq> snd previous then Inl ErrInconsistentState
     else verify_settlements_loop H db ops transfers verify registryKeyID registryScope
       (revisions(key := (srec_Revision record, srec_SettlementID record))) ids))"

definition VerifySettlements ::
  "(bytes \<Rightarrow> bytes) \<Rightarrow> registry_db \<Rightarrow> operator_tables \<Rightarrow> transfer_tables \<Rightarrow> (bytes \<Rightarrow> bytes \<Rightarrow> bool) \<Rightarrow> string \<Rightarrow> string
    \<Rightarrow> store_error + unit" where
  "VerifySettlements H db ops transfers verify registryKeyID registryScope =
     (let ids = map st_settlement_id (sort_key st_ledger_index (settlements db)) in
      bindR (verify_settlements_loop H db ops transfers verify registryKeyID registryScope (\<lambda>_. (0, [])) ids) (\<lambda>_.
      if length (filter (\<lambda>e. le_EntryType e = SettlementEntryType) (ledger_entries db)) \<noteq> length ids then Inl ErrInconsistentState
      else Inr ()))"

subsection \<open>What the checks read\<close>

lemma verifySettlementRecordTx_cong:
  assumes "filter (\<lambda>e. le_EntryType e \<noteq> SettlementEntryType) (ledger_entries db) = filter (\<lambda>e. le_EntryType e \<noteq> SettlementEntryType) (ledger_entries db')"
    and "revenue_query_rows db = revenue_query_rows db'" "revenue_batches db = revenue_batches db'"
    and "ledger_weight_rows db = ledger_weight_rows db'" "deployments db = deployments db'"
  shows "verifySettlementRecordTx H db = verifySettlementRecordTx H db'"
proof -
  have "filter (\<lambda>e. le_EntryType e \<noteq> SettlementEntryType \<and> le_LedgerIndex e < i) (ledger_entries db) =
      filter (\<lambda>e. le_EntryType e \<noteq> SettlementEntryType \<and> le_LedgerIndex e < i) (ledger_entries db')" for i
    using arg_cong [OF assms(1), of "filter (\<lambda>e. le_LedgerIndex e < i)"] by (simp add: conj_commute)
  then show ?thesis by (intro ext) (simp only: verifySettlementRecordTx_def verify_settlement_sources_def settlement_reads_cong [OF assms])
qed

lemma find_append_Some: "find P xs = Some x \<Longrightarrow> find P (xs @ ys) = Some x"
  by (induction xs) auto

lemma settlementByIDQuery_kept:
  assumes "settlementByIDQuery db settlementID = Inr r" "srec_SettlementID new \<notin> st_settlement_id ` set (settlements db)"
  shows "settlementByIDQuery (settlement_appended (db\<lparr>ledger_entries := ledger_entries db @ [e], ledger_merkle_nodes := nodes\<rparr>) new) settlementID = Inr r"
proof -
  let ?db = "settlement_appended (db\<lparr>ledger_entries := ledger_entries db @ [e], ledger_merkle_nodes := nodes\<rparr>) new"
  from assms(1) obtain row l where row: "find (\<lambda>s. st_settlement_id s = settlementID) (settlements db) = Some row"
    and l: "find (\<lambda>l. le_LedgerIndex l = st_ledger_index row) (ledger_entries db) = Some l"
    by (auto simp: settlementByIDQuery_def split: option.splits)
  have "st_settlement_id row = settlementID" "row \<in> set (settlements db)" using row by (auto simp: find_Some_iff)
  then have ne: "srec_SettlementID new \<noteq> settlementID" using assms(2) by auto
  then have "settlementAllocationsQuery ?db settlementID = settlementAllocationsQuery db settlementID"
    "settlementRevenueSourcesQuery ?db settlementID = settlementRevenueSourcesQuery db settlementID"
    "settlementTTMMonthsQuery ?db settlementID = settlementTTMMonthsQuery db settlementID"
    "settlementWeightSourcesQuery ?db settlementID = settlementWeightSourcesQuery db settlementID"
    "settlementMembersQuery ?db settlementID = settlementMembersQuery db settlementID"
    by (simp_all add: settlementAllocationsQuery_def settlementRevenueSourcesQuery_def settlementTTMMonthsQuery_def
      settlementWeightSourcesQuery_def settlementMembersQuery_def settlement_appended_def Let_def)
  with assms(1) row l show ?thesis by (simp add: settlementByIDQuery_def find_append_Some)
qed

lemma settlementByIDQuery_columns:
  assumes "settlements_ok db" "row \<in> set (settlements db)" "settlementByIDQuery db (st_settlement_id row) = Inr r"
  shows "srec_SettlementID r = st_settlement_id row" "srec_Period r = st_period row" "srec_CurrencyCode r = st_currency_code row"
    "srec_Revision r = st_revision row" "srec_LedgerEntry r \<in> set (ledger_entries db)" "le_LedgerIndex (srec_LedgerEntry r) = st_ledger_index row"
proof -
  have "find (\<lambda>s. st_settlement_id s = st_settlement_id row) (settlements db) = Some row"
    using assms(1,2) by (intro find_key) (simp_all add: settlements_ok_def)
  with assms(3) obtain l where l: "find (\<lambda>l. le_LedgerIndex l = st_ledger_index row) (ledger_entries db) = Some l" "srec_LedgerEntry r = l"
      "srec_SettlementID r = st_settlement_id row" "srec_Period r = st_period row" "srec_CurrencyCode r = st_currency_code row"
      "srec_Revision r = st_revision row"
    by (auto simp: settlementByIDQuery_def split: option.splits)
  then have "l \<in> set (ledger_entries db) \<and> le_LedgerIndex l = st_ledger_index row" by (auto simp: find_Some_iff)
  with l show "srec_SettlementID r = st_settlement_id row" "srec_Period r = st_period row" "srec_CurrencyCode r = st_currency_code row"
    "srec_Revision r = st_revision row" "srec_LedgerEntry r \<in> set (ledger_entries db)" "le_LedgerIndex (srec_LedgerEntry r) = st_ledger_index row"
    by simp_all
qed

subsection \<open>The loop over the settlements\<close>

lemma verify_settlements_loop_Cons:
  "verify_settlements_loop H db ops transfers verify keyID scope revisions (x # xs) =
   bindR (verify_settlements_loop H db ops transfers verify keyID scope revisions [x])
     (\<lambda>revisions. verify_settlements_loop H db ops transfers verify keyID scope revisions xs)"
  by (cases "settlementByIDQuery db x"; cases "verifySettlementRecordTx H db ops transfers (projr (settlementByIDQuery db x)) verify keyID scope")
    (simp_all add: Let_def)

lemma verify_settlements_loop_append:
  "verify_settlements_loop H db ops transfers verify keyID scope revisions (xs @ ys) =
   bindR (verify_settlements_loop H db ops transfers verify keyID scope revisions xs)
     (\<lambda>revisions. verify_settlements_loop H db ops transfers verify keyID scope revisions ys)"
proof (induction xs arbitrary: revisions)
  case (Cons x xs)
  have "verify_settlements_loop H db ops transfers verify keyID scope revisions ((x # xs) @ ys) =
      bindR (verify_settlements_loop H db ops transfers verify keyID scope revisions [x]) (\<lambda>revisions.
        verify_settlements_loop H db ops transfers verify keyID scope revisions (xs @ ys))"
    by (simp only: append_Cons verify_settlements_loop_Cons [of _ _ _ _ _ _ _ _ x "xs @ ys"])
  also have "\<dots> = bindR (verify_settlements_loop H db ops transfers verify keyID scope revisions (x # xs))
      (\<lambda>revisions. verify_settlements_loop H db ops transfers verify keyID scope revisions ys)"
    by (simp only: Cons.IH verify_settlements_loop_Cons [of _ _ _ _ _ _ _ _ x xs] bindR_assoc)
  finally show ?case .
qed simp

lemma verify_settlements_loop_one:
  "verify_settlements_loop H db ops transfers verify keyID scope revisions [settlementID] = Inr revisions' \<longleftrightarrow>
   (\<exists>r. settlementByIDQuery db settlementID = Inr r \<and> verifySettlementRecordTx H db ops transfers r verify keyID scope = Inr () \<and>
     (let key = srec_Period r @ [CHR 0x00] @ srec_CurrencyCode r; previous = revisions key in
      srec_Revision r = i64 (fst previous + 1) \<and> (srec_Revision r = 1 \<longrightarrow> srec_SupersedesSettlementID r = []) \<and>
      (srec_Revision r > 1 \<longrightarrow> srec_SupersedesSettlementID r = snd previous) \<and>
      revisions' = revisions(key := (srec_Revision r, srec_SettlementID r))))"
  by (cases "settlementByIDQuery db settlementID") (auto simp: Let_def result_simps split: if_splits)

lemma verify_settlements_loop_kept:
  assumes "verify_settlements_loop H db ops transfers verify keyID scope revisions ids = Inr revisions'"
    and "\<And>i r. settlementByIDQuery db i = Inr r \<Longrightarrow> settlementByIDQuery db' i = Inr r"
    and "verifySettlementRecordTx H db = verifySettlementRecordTx H db'"
  shows "verify_settlements_loop H db' ops transfers verify keyID scope revisions ids = Inr revisions'"
  using assms(1)
proof (induction ids arbitrary: revisions)
  case (Cons i ids)
  then obtain middle where "verify_settlements_loop H db ops transfers verify keyID scope revisions [i] = Inr middle"
      and rest: "verify_settlements_loop H db ops transfers verify keyID scope middle ids = Inr revisions'"
    unfolding verify_settlements_loop_Cons [of _ _ _ _ _ _ _ _ i ids] result_simps by blast
  then have "verify_settlements_loop H db' ops transfers verify keyID scope revisions [i] = Inr middle"
    using assms(2) unfolding verify_settlements_loop_one assms(3) by blast
  then show ?case using Cons.IH [OF rest] unfolding verify_settlements_loop_Cons [of _ _ _ _ _ _ _ _ i ids] by simp
qed simp

subsection \<open>Chains of revisions\<close>

abbreviation same_month :: "string \<Rightarrow> string \<Rightarrow> settlement_row \<Rightarrow> bool" where
  "same_month period currency s \<equiv> st_period s = period \<and> st_currency_code s = currency"

text \<open>The revisions of a month and currency are numbered from 1, and the map has the last of them.\<close>

definition revisions_track :: "settlement_row list \<Rightarrow> (string \<Rightarrow> int \<times> string) \<Rightarrow> bool" where
  "revisions_track rows revisions \<longleftrightarrow> (\<forall>s \<in> set rows. length (st_period s) = 7) \<and>
     (\<forall>period currency. length period = 7 \<longrightarrow>
       (let own = filter (same_month period currency) rows in
        revisions (period @ [CHR 0x00] @ currency) = (int (length own), if own = [] then [] else st_settlement_id (last own)) \<and>
        map st_revision own = map (\<lambda>i. int i + 1) [0..<length own]))"

lemma validSettlementPeriod_length: "validSettlementPeriod period \<Longrightarrow> length period = 7"
proof -
  assume "validSettlementPeriod period"
  then obtain m where m: "time_Parse_month period = Some m" by (auto simp: validSettlementPeriod_def split: option.splits)
  then obtain s1 month where p: "4 \<le> length period" "skip_char (CHR ''-'') (drop 4 period) = Some s1" "getnum s1 True = Some (month, [])"
    by (auto simp: time_Parse_month_def bind_eq_Some_conv split: if_splits)
  have "length (drop 4 period) = Suc (length s1)" using p(2) by (cases "drop 4 period") (auto split: if_splits)
  moreover have "length s1 = 2" using p(3) by (cases "(s1, True)" rule: getnum.cases) (auto split: if_splits)
  ultimately show ?thesis by simp
qed

lemma verified_record_period: "verifySettlementRecordTx H db ops transfers r verify keyID scope = Inr () \<Longrightarrow> length (srec_Period r) = 7"
  by (auto simp: verifySettlementRecordTx_def settlement_metadata_ok_def Let_def validSettlementPeriod_length split: if_splits)

lemma revisions_track_snoc:
  assumes "revisions_track rows revisions" "length rows < 2 ^ 62" "length (st_period s) = 7"
    and "st_revision s = i64 (fst (revisions (st_period s @ [CHR 0x00] @ st_currency_code s)) + 1)"
  shows "revisions_track (rows @ [s]) (revisions(st_period s @ [CHR 0x00] @ st_currency_code s := (st_revision s, st_settlement_id s)))"
proof -
  let ?own = "\<lambda>period currency. filter (same_month period currency) rows"
  have own: "revisions (period @ [CHR 0x00] @ currency) =
        (int (length (?own period currency)), if ?own period currency = [] then [] else st_settlement_id (last (?own period currency)))"
      "map st_revision (?own period currency) = map (\<lambda>i. int i + 1) [0..<length (?own period currency)]" if "length period = 7" for period currency
    using assms(1) that unfolding revisions_track_def Let_def by blast+
  let ?n = "length (?own (st_period s) (st_currency_code s))"
  have "?n < 2 ^ 62" using assms(2) by (rule order_le_less_trans [OF length_filter_le])
  then have n: "st_revision s = int ?n + 1" using assms(4) own(1) [OF assms(3)] by (simp add: i64_nonneg_id)
  show ?thesis unfolding revisions_track_def
  proof (intro conjI allI impI)
    show "\<forall>x \<in> set (rows @ [s]). length (st_period x) = 7" using assms(1,3) by (auto simp: revisions_track_def)
  next
    fix period currency :: string assume p: "length period = 7"
    show "let own = filter (same_month period currency) (rows @ [s]) in
        (revisions(st_period s @ [CHR 0x00] @ st_currency_code s := (st_revision s, st_settlement_id s))) (period @ [CHR 0x00] @ currency) =
          (int (length own), if own = [] then [] else st_settlement_id (last own)) \<and>
        map st_revision own = map (\<lambda>i. int i + 1) [0..<length own]"
      using own [OF p, of currency] n p assms(3) by (auto simp: Let_def append_eq_append_conv)
  qed
qed

lemma revisions_track_loop:
  assumes "verify_settlements_loop H db ops transfers verify keyID scope (\<lambda>_. (0, [])) (map st_settlement_id rows) = Inr revisions"
    and "settlements_ok db" "set rows \<subseteq> set (settlements db)" "length rows < 2 ^ 62"
  shows "revisions_track rows revisions"
  using assms(1,3,4)
proof (induction rows arbitrary: revisions rule: rev_induct)
  case Nil
  then show ?case by (auto simp: revisions_track_def)
next
  case (snoc s rows)
  obtain middle where m: "verify_settlements_loop H db ops transfers verify keyID scope (\<lambda>_. (0, [])) (map st_settlement_id rows) = Inr middle"
      and s: "verify_settlements_loop H db ops transfers verify keyID scope middle [st_settlement_id s] = Inr revisions"
    using snoc.prems(1) by (auto simp: verify_settlements_loop_append result_simps simp del: verify_settlements_loop.simps)
  obtain r where r: "settlementByIDQuery db (st_settlement_id s) = Inr r" "verifySettlementRecordTx H db ops transfers r verify keyID scope = Inr ()"
      "srec_Revision r = i64 (fst (middle (srec_Period r @ [CHR 0x00] @ srec_CurrencyCode r)) + 1)"
      "revisions = middle(srec_Period r @ [CHR 0x00] @ srec_CurrencyCode r := (srec_Revision r, srec_SettlementID r))"
    using s unfolding verify_settlements_loop_one Let_def by blast
  have row: "s \<in> set (settlements db)" using snoc.prems(2) by simp
  note c = settlementByIDQuery_columns [OF assms(2) row r(1)]
  have "revisions_track rows middle" using snoc.IH [OF m] snoc.prems(2,3) by simp
  then show ?case unfolding r(4) c(1-4)
    by (rule revisions_track_snoc) (use snoc.prems(3) r(3) verified_record_period [OF r(2)] in \<open>simp_all add: c(1-4)\<close>)
qed

subsection \<open>A new settlement passes the checks\<close>

lemma recomputeSettlementDerived_Inr:
  assumes "monthly_basis_loop (\<lambda>_. 0) (srec_RevenueSources r) = Inr basis"
    and "ttm_loop basis 0 (map (\<lambda>offset. format_month (parsed_period (srec_Period r) - 11 + int offset)) [0..<12]) = Inr (ttm, months)"
    and "settlement_valuation input months ttm = Inr v"
    and "sci_BaseValuationMultiplierBasisPoints input = srec_BaseValuationMultiplierBasisPoints r"
    and "settlementRatios (srec_WeightSources r) measured = Inr ratios"
    and "allocateSettlementAmounts ratios (RevenueCommissionMinor (basis (srec_Period r))) (vf_indicativeValue v) = Inr allocations"
  shows "recomputeSettlementDerived r measured = Inr (r\<lparr>srec_TTMMonths := months, srec_CommissionBasisMinor := basis (srec_Period r),
    srec_NetworkCommissionPoolMinor := RevenueCommissionMinor (basis (srec_Period r)), srec_TTMCommissionBasisMinor := ttm,
    srec_TTMNetworkCommissionPoolMinor := RevenueCommissionMinor ttm,
    srec_EarlierThreeMonthAverageMinor := vf_earlierAverage v, srec_PriorThreeMonthAverageMinor := vf_priorAverage v,
    srec_RecentThreeMonthAverageMinor := vf_recentAverage v, srec_PriorGrowthBasisPoints := vf_priorGrowth v,
    srec_RecentGrowthBasisPoints := vf_recentGrowth v, srec_AccelerationBasisPoints := vf_acceleration v,
    srec_ValuationAdjustmentBasisPoints := vf_adjustment v,
    srec_EffectiveValuationMultiplierBasisPoints := vf_effectiveMultiplier v,
    srec_IndicativeNetworkValueMinor := vf_indicativeValue v, srec_Allocations := allocations\<rparr>)"
proof -
  obtain earlier prior recent where a: "settlementThreeMonthAverages months = (earlier, prior, recent)" by (metis prod_cases3)
  let ?recent = "settlementGrowthBasisPoints prior recent" and ?prior = "settlementGrowthBasisPoints earlier prior"
  define acc where "acc = clampInt64 (i64 (?recent - ?prior)) SettlementMinimumAccelerationBasisPoints SettlementMaximumAccelerationBasisPoints"
  define adj where "adj = clampInt64 (i64 (?recent sdiv SettlementAccelerationAdjustmentDivisor + acc sdiv SettlementAccelerationAdjustmentDivisor))
    SettlementMinimumValuationAdjustmentBasisPoints SettlementMaximumValuationAdjustmentBasisPoints"
  obtain e ok where m: "multiplyBasisPoints (srec_BaseValuationMultiplierBasisPoints r) (i64 (10000 + adj)) = (e, ok)" by (meson surj_pair)
  obtain i ok' where n: "multiplyBasisPoints ttm e = (i, ok')" by (meson surj_pair)
  note eqs = a m n acc_def [symmetric] adj_def [symmetric]
  have v: "ok" "ok'" "v = \<lparr>vf_recentAverage = recent, vf_priorAverage = prior, vf_earlierAverage = earlier,
      vf_recentGrowth = ?recent, vf_priorGrowth = ?prior, vf_acceleration = acc, vf_adjustment = adj, vf_effectiveMultiplier = e, vf_indicativeValue = i\<rparr>"
    using assms(3) by (simp_all add: settlement_valuation_def assms(4) Let_def eqs split: if_splits)
  show ?thesis using v(1,2) assms(6) by (simp add: recomputeSettlementDerived_def assms(1,2,5) Let_def eqs v(3))
qed

definition log_indexed :: "('e \<Rightarrow> int) \<Rightarrow> 'e list \<Rightarrow> bool" where
  "log_indexed index rows \<longleftrightarrow> distinct (map index rows) \<and> list_all (\<lambda>row. 0 < index row) rows"

text \<open>The schema of the operator logs: their indexes are positive and unique.\<close>

definition operator_logs_ok :: "operator_tables \<Rightarrow> bool" where
  "operator_logs_ok ops \<longleftrightarrow> log_indexed oae_AuditIndex (operator_audit_events ops) \<and>
     log_indexed ocrw_ReviewIndex (operator_claim_reviews ops) \<and> log_indexed oce_EligibilityIndex (operator_claim_eligibility_events ops)"

lemma chain_hash_head:
  assumes "log_indexed index rows"
    and "(i, h) = (case select_max index rows of None \<Rightarrow> (0, zero) | Some row \<Rightarrow> (index row, hash row))"
  shows "verifySettlementChainHash rows index hash i h zero = Inr ()"
proof (cases "select_max index rows")
  case (Some row)
  then have row: "row \<in> set rows" by (rule select_max_mem)
  with assms(1) have "find (\<lambda>r. index r = index row) rows = Some row" "index row \<noteq> 0"
    using find_key [of index rows row] by (auto simp: log_indexed_def list_all_iff)
  with Some assms(2) show ?thesis by (simp add: verifySettlementChainHash_def)
qed (use assms(2) in \<open>simp add: verifySettlementChainHash_def\<close>)

lemma allocated_totals_sum:
  assumes "list_all (\<lambda>a. 0 \<le> sa_NetworkPoolAllocationMinor a \<and> 0 \<le> sa_IndicativeValueAllocationMinor a) allocations"
    and "0 \<le> p" "0 \<le> v" "p + sum_list (map sa_NetworkPoolAllocationMinor allocations) \<le> MaxInt64"
    and "v + sum_list (map sa_IndicativeValueAllocationMinor allocations) \<le> MaxInt64"
  shows "allocated_totals p v allocations =
    Some (p + sum_list (map sa_NetworkPoolAllocationMinor allocations), v + sum_list (map sa_IndicativeValueAllocationMinor allocations))"
  using assms
proof (induction allocations arbitrary: p v)
  case (Cons a allocations)
  have "0 \<le> sum_list (map sa_NetworkPoolAllocationMinor allocations)" "0 \<le> sum_list (map sa_IndicativeValueAllocationMinor allocations)"
    using Cons.prems(1) by (auto intro!: sum_list_nonneg simp: list_all_iff)
  then have "checkedRevenueAdd p (sa_NetworkPoolAllocationMinor a) = Some (p + sa_NetworkPoolAllocationMinor a)"
    "checkedRevenueAdd v (sa_IndicativeValueAllocationMinor a) = Some (v + sa_IndicativeValueAllocationMinor a)"
    using Cons.prems by (auto simp: checkedRevenueAdd_def)
  then show ?case using Cons.IH [of "p + sa_NetworkPoolAllocationMinor a" "v + sa_IndicativeValueAllocationMinor a"] Cons.prems
    by (simp add: add.assoc)
qed simp

lemma settlementWeightSourcesTx_bounds:
  assumes "lb_LedgerIndex b = lb_LedgerIndex b'" "lb_AuditIndex b = lb_AuditIndex b'" "lb_ReviewIndex b = lb_ReviewIndex b'"
    "lb_EligibilityIndex b = lb_EligibilityIndex b'" "lb_TransferEventIndex b = lb_TransferEventIndex b'"
  shows "settlementWeightSourcesTx db ops transfers from through b d = settlementWeightSourcesTx db ops transfers from through b' d"
  by (simp add: settlementWeightSourcesTx_def settlement_bounds_def assms)

text \<open>The request of a calculation as the service validates it.\<close>

definition settlement_input_ok :: "SettlementCalculationInput \<Rightarrow> bool" where
  "settlement_input_ok input \<longleftrightarrow> validHexID (sci_CandidateSettlementID input) ''stl_'' 32 \<and> validSettlementPeriod (sci_Period input) \<and>
     ISO4217FractionDigits (sci_CurrencyCode input) = Some (sci_FractionDigits input) \<and>
     SettlementMinimumBaseValuationMultiplierBasisPoints \<le> sci_BaseValuationMultiplierBasisPoints input \<and>
     sci_BaseValuationMultiplierBasisPoints input \<le> SettlementMaximumBaseValuationMultiplierBasisPoints \<and>
     validPersistedTimestamp (sci_AcceptedAt input)"

text \<open>What numbering, hashing and signing leave of the sources and what they set.\<close>

lemma signed_settlement_fields:
  assumes "r = signed_settlement (hashed_settlement H input head (numbered_settlement input latest sources)) sig"
  shows "srec_FractionDigits r = srec_FractionDigits sources" "srec_RulesetVersion r = srec_RulesetVersion sources"
    "srec_ValuationRulesetVersion r = srec_ValuationRulesetVersion sources"
    "srec_CommissionRateBasisPoints r = srec_CommissionRateBasisPoints sources"
    "srec_BaseValuationMultiplierBasisPoints r = srec_BaseValuationMultiplierBasisPoints sources"
    "srec_RecentThreeMonthAverageMinor r = srec_RecentThreeMonthAverageMinor sources"
    "srec_PriorThreeMonthAverageMinor r = srec_PriorThreeMonthAverageMinor sources"
    "srec_EarlierThreeMonthAverageMinor r = srec_EarlierThreeMonthAverageMinor sources"
    "srec_RecentGrowthBasisPoints r = srec_RecentGrowthBasisPoints sources" "srec_PriorGrowthBasisPoints r = srec_PriorGrowthBasisPoints sources"
    "srec_AccelerationBasisPoints r = srec_AccelerationBasisPoints sources"
    "srec_ValuationAdjustmentBasisPoints r = srec_ValuationAdjustmentBasisPoints sources"
    "srec_EffectiveValuationMultiplierBasisPoints r = srec_EffectiveValuationMultiplierBasisPoints sources"
    "srec_TTMCommissionBasisMinor r = srec_TTMCommissionBasisMinor sources"
    "srec_TTMNetworkCommissionPoolMinor r = srec_TTMNetworkCommissionPoolMinor sources"
    "srec_ThroughLedgerIndex r = srec_ThroughLedgerIndex sources" "srec_ThroughAuditIndex r = srec_ThroughAuditIndex sources"
    "srec_ThroughReviewIndex r = srec_ThroughReviewIndex sources" "srec_ThroughEligibilityIndex r = srec_ThroughEligibilityIndex sources"
    "srec_LedgerHeadHash r = srec_LedgerHeadHash sources" "srec_AuditHeadHash r = srec_AuditHeadHash sources"
    "srec_ReviewHeadHash r = srec_ReviewHeadHash sources" "srec_EligibilityHeadHash r = srec_EligibilityHeadHash sources"
    "srec_AcceptedAt r = sci_AcceptedAt input" "srec_RegistryKeyID r = sci_RegistryKeyID input" "srec_ReceiptSignature r = sig"
    "srec_AllocationHash r = SettlementAllocationHash H (srec_Allocations sources)"
    "srec_SupersedesSettlementID r = (case latest of None \<Rightarrow> srec_SupersedesSettlementID sources | Some l \<Rightarrow> srec_SettlementID l)"
    "le_ProtocolVersion (srec_LedgerEntry r) = Version" "le_BatchID (srec_LedgerEntry r) = sci_CandidateSettlementID input"
    "le_Kind (srec_LedgerEntry r) = SettlementKind" "le_Period (srec_LedgerEntry r) = srec_Period sources"
    "le_RulesetVersion (srec_LedgerEntry r) = SettlementRulesetVersion" "le_BatchHash (srec_LedgerEntry r) = srec_SettlementHash r"
  unfolding assms hashed_settlement_def numbered_settlement_def settlement_entry_def Let_def
  by (simp_all split: option.splits)

lemma hash_message_updates:
  "SettlementHashMessage (settlementReceipt (r\<lparr>srec_SettlementHash := h\<rparr>) scope) = SettlementHashMessage (settlementReceipt r scope)"
  "SettlementHashMessage (settlementReceipt (r\<lparr>srec_LedgerEntry := e\<rparr>) scope) = SettlementHashMessage (settlementReceipt r scope)"
  "SettlementHashMessage (settlementReceipt (r\<lparr>srec_ReceiptSignature := sig\<rparr>) scope) = SettlementHashMessage (settlementReceipt r scope)"
  by (simp_all add: SettlementHashMessage_def settlementReceipt_def Let_def)

lemma signed_settlement_hash:
  assumes "r = signed_settlement (hashed_settlement H input head (numbered_settlement input latest sources)) sig"
  shows "srec_SettlementHash r = Digest H (SettlementHashMessage (settlementReceipt r (sci_RegistryScope input)))"
  unfolding assms hashed_settlement_def by (simp add: Let_def hash_message_updates)

lemma new_settlement_metadata:
  assumes "r = signed_settlement (hashed_settlement H input head (numbered_settlement input latest sources)) sig"
    and "settlement_input_ok input" "sources = x\<lparr>srec_SourceFingerprint := f\<rparr>"
    and "x = settlement_record input boundary v basis ttm revenue months weights members allocations"
  shows "settlement_metadata_ok r (sci_RegistryKeyID input) (sci_RegistryScope input)"
proof -
  note fields = signed_settlement_fields [OF assms(1)]
  have s: "srec_Period sources = sci_Period input" "srec_CurrencyCode sources = sci_CurrencyCode input" "srec_FractionDigits sources = sci_FractionDigits input"
    "srec_RulesetVersion sources = SettlementRulesetVersion" "srec_ValuationRulesetVersion sources = SettlementValuationRulesetVersion"
    "srec_CommissionRateBasisPoints sources = RevenueCommissionBasisPoints"
    "srec_BaseValuationMultiplierBasisPoints sources = sci_BaseValuationMultiplierBasisPoints input"
    by (simp_all add: assms(3,4) settlement_record_def)
  have r: "srec_SettlementID r = sci_CandidateSettlementID input" "srec_Period r = sci_Period input" "srec_CurrencyCode r = sci_CurrencyCode input"
    "le_RegistryScope (srec_LedgerEntry r) = sci_RegistryScope input" "le_EntryType (srec_LedgerEntry r) = SettlementEntryType"
    "le_DeploymentID (srec_LedgerEntry r) = []" "le_QualifiedMAUCount (srec_LedgerEntry r) = 0" "le_AcceptedAt (srec_LedgerEntry r) = sci_AcceptedAt input"
    by (simp_all add: assms(1) s)
  show ?thesis using assms(2) by (simp add: settlement_metadata_ok_def settlement_input_ok_def fields s r Let_def)
qed

text \<open>The positions that a new settlement pins are the heads at its calculation.\<close>

lemma new_settlement_ledger_source:
  assumes "\<forall>e \<in> set (ledger_entries db). le_LedgerIndex e < i"
  shows "filter (\<lambda>e. le_EntryType e \<noteq> SettlementEntryType \<and> le_LedgerIndex e < i) (ledger_entries db) =
    filter (\<lambda>e. le_EntryType e \<noteq> SettlementEntryType) (ledger_entries db)"
  using assms by (auto intro: filter_cong)

lemma boundary_chain_hashes:
  assumes "operator_logs_ok ops" "boundary = settlementBoundaryTx db ops transfers acceptedAt"
  shows "verifySettlementChainHash (operator_audit_events ops) oae_AuditIndex oae_AuditHash (lb_AuditIndex boundary) (lb_AuditHash boundary)
      OperatorAuditZeroHash = Inr ()"
    "verifySettlementChainHash (operator_claim_reviews ops) ocrw_ReviewIndex ocrw_ReviewHash (lb_ReviewIndex boundary) (lb_ReviewHash boundary)
      OperatorClaimReviewZeroHash = Inr ()"
    "verifySettlementChainHash (operator_claim_eligibility_events ops) oce_EligibilityIndex oce_EligibilityHash (lb_EligibilityIndex boundary)
      (lb_EligibilityHash boundary) OperatorClaimEligibilityZeroHash = Inr ()"
  using assms(1) unfolding operator_logs_ok_def
  by (auto intro!: chain_hash_head simp: assms(2) settlementBoundaryTx_def Let_def audit_head_def operatorAuditHeadQuery_def
    operatorClaimReviewHeadQuery_def operatorClaimEligibilityHeadQuery_def split: option.splits)

lemma fingerprint_fields:
  assumes "srec_Period r = srec_Period s" "srec_CurrencyCode r = srec_CurrencyCode s" "srec_FractionDigits r = srec_FractionDigits s"
    "srec_RulesetVersion r = srec_RulesetVersion s" "srec_ValuationRulesetVersion r = srec_ValuationRulesetVersion s"
    "srec_CommissionRateBasisPoints r = srec_CommissionRateBasisPoints s"
    "srec_BaseValuationMultiplierBasisPoints r = srec_BaseValuationMultiplierBasisPoints s"
    "srec_ThroughLedgerIndex r = srec_ThroughLedgerIndex s" "srec_ThroughAuditIndex r = srec_ThroughAuditIndex s"
    "srec_ThroughReviewIndex r = srec_ThroughReviewIndex s" "srec_ThroughEligibilityIndex r = srec_ThroughEligibilityIndex s"
    "srec_LedgerHeadHash r = srec_LedgerHeadHash s" "srec_AuditHeadHash r = srec_AuditHeadHash s" "srec_ReviewHeadHash r = srec_ReviewHeadHash s"
    "srec_EligibilityHeadHash r = srec_EligibilityHeadHash s" "srec_RevenueSources r = srec_RevenueSources s" "srec_TTMMonths r = srec_TTMMonths s"
    "srec_WeightSources r = srec_WeightSources s" "srec_BeneficiaryDeployments r = srec_BeneficiaryDeployments s"
  shows "settlementSourceFingerprint H r = settlementSourceFingerprint H s"
  unfolding settlementSourceFingerprint_def assms ..

lemma new_settlement_sources_verified:
  assumes "settlementSourcesTx H db ops transfers input = Inr sources"
    and r: "r = signed_settlement (hashed_settlement H input head (numbered_settlement input latest sources)) sig"
    and "operator_logs_ok ops" "\<forall>e \<in> set (ledger_entries db). le_LedgerIndex e < le_LedgerIndex (srec_LedgerEntry r)"
  shows "verify_settlement_sources db ops transfers r = Inr ()"
proof -
  define boundary where "boundary = settlementBoundaryTx db ops transfers (sci_AcceptedAt input)"
  obtain m revenue basis ttm months v weights members measured ratios allocations x where
    m: "time_Parse_month (sci_Period input) = Some m" and
    revenue: "revenue = settlementRevenueSourcesTx db (sci_CurrencyCode input) (format_first_day (m - 11)) (format_first_day (m + 1)) (lb_LedgerIndex boundary)" and
    b: "monthly_basis_loop (\<lambda>_. 0) revenue = Inr basis" and
    l: "ttm_loop basis 0 (map (\<lambda>offset. format_month (m - 11 + int offset)) [0..<12]) = Inr (ttm, months)" and
    v: "settlement_valuation input months ttm = Inr v" and ten: "10 \<le> length (sci_AcceptedAt input)" and
    w: "settlementWeightSourcesTx db ops transfers (format_month (m - 5)) (sci_Period input) boundary (take 10 (sci_AcceptedAt input)) =
      Inr (weights, members, measured)" and
    q: "settlementRatios weights measured = Inr ratios" and
    a: "allocateSettlementAmounts ratios (RevenueCommissionMinor (basis (sci_Period input))) (vf_indicativeValue v) = Inr allocations" and
    x: "x = settlement_record input boundary v (basis (sci_Period input)) ttm revenue months weights members allocations" and
    s: "sources = x\<lparr>srec_SourceFingerprint := settlementSourceFingerprint H x\<rparr>"
    by (rule settlementSourcesTx_Inr [OF assms(1) boundary_def])
  have kept: "srec_Period r = srec_Period sources" "srec_CurrencyCode r = srec_CurrencyCode sources" "srec_RevenueSources r = srec_RevenueSources sources"
    "srec_WeightSources r = srec_WeightSources sources" "srec_BeneficiaryDeployments r = srec_BeneficiaryDeployments sources"
    "srec_TTMMonths r = srec_TTMMonths sources" "srec_Allocations r = srec_Allocations sources"
    "srec_CommissionBasisMinor r = srec_CommissionBasisMinor sources" "srec_NetworkCommissionPoolMinor r = srec_NetworkCommissionPoolMinor sources"
    "srec_IndicativeNetworkValueMinor r = srec_IndicativeNetworkValueMinor sources"
    by (simp_all add: r)
  note fields = kept signed_settlement_fields [OF r]
  have src: "srec_Period sources = sci_Period input" "srec_CurrencyCode sources = sci_CurrencyCode input" "srec_RevenueSources sources = revenue"
    "srec_WeightSources sources = weights" "srec_BeneficiaryDeployments sources = members" "srec_TTMMonths sources = months"
    "srec_Allocations sources = allocations" "srec_BaseValuationMultiplierBasisPoints sources = sci_BaseValuationMultiplierBasisPoints input"
    by (simp_all add: s x settlement_record_def)
  have pins: "srec_ThroughLedgerIndex sources = lb_LedgerIndex boundary" "srec_ThroughAuditIndex sources = lb_AuditIndex boundary"
    "srec_ThroughReviewIndex sources = lb_ReviewIndex boundary" "srec_ThroughEligibilityIndex sources = lb_EligibilityIndex boundary"
    "srec_LedgerHeadHash sources = lb_LedgerHash boundary" "srec_AuditHeadHash sources = lb_AuditHash boundary"
    "srec_ReviewHeadHash sources = lb_ReviewHash boundary" "srec_EligibilityHeadHash sources = lb_EligibilityHash boundary"
    by (simp_all add: s x settlement_record_def)
  have period: "parsed_period (sci_Period input) = m" by (simp add: parsed_period_def m)
  have weights: "settlementWeightSourcesTx db ops transfers (format_month (m - 5)) (sci_Period input)
      (settlement_boundary_of r (fst (ownershipTransferEventHeadAt transfers (sci_AcceptedAt input)))) (take 10 (sci_AcceptedAt input)) =
      Inr (weights, members, measured)"
    unfolding w [symmetric]
    by (rule settlementWeightSourcesTx_bounds) (simp_all add: settlement_boundary_of_def fields pins, simp add: boundary_def settlementBoundaryTx_def Let_def)
  have again: "recomputeSettlementDerived r measured = Inr (r\<lparr>srec_TTMMonths := months, srec_CommissionBasisMinor := basis (srec_Period r),
    srec_NetworkCommissionPoolMinor := RevenueCommissionMinor (basis (srec_Period r)), srec_TTMCommissionBasisMinor := ttm,
    srec_TTMNetworkCommissionPoolMinor := RevenueCommissionMinor ttm,
    srec_EarlierThreeMonthAverageMinor := vf_earlierAverage v, srec_PriorThreeMonthAverageMinor := vf_priorAverage v,
    srec_RecentThreeMonthAverageMinor := vf_recentAverage v, srec_PriorGrowthBasisPoints := vf_priorGrowth v,
    srec_RecentGrowthBasisPoints := vf_recentGrowth v, srec_AccelerationBasisPoints := vf_acceleration v,
    srec_ValuationAdjustmentBasisPoints := vf_adjustment v,
    srec_EffectiveValuationMultiplierBasisPoints := vf_effectiveMultiplier v,
    srec_IndicativeNetworkValueMinor := vf_indicativeValue v, srec_Allocations := allocations\<rparr>)" (is "_ = Inr ?expected")
    by (rule recomputeSettlementDerived_Inr [where ratios = ratios, OF _ _ v]) (simp_all add: fields src period b l q a)
  have "derived_matches r ?expected" unfolding derived_matches_def by (simp add: fields src) (simp add: s x settlement_record_def)
  with again obtain expected where e: "recomputeSettlementDerived r measured = Inr expected" "derived_matches r expected" by (rule that)
  have ledger: "(case select_max le_LedgerIndex (filter (\<lambda>e. le_EntryType e \<noteq> SettlementEntryType) (ledger_entries db)) of
      None \<Rightarrow> (0, ZeroHash) | Some e \<Rightarrow> (le_LedgerIndex e, le_EntryHash e)) = (lb_LedgerIndex boundary, lb_LedgerHash boundary)"
    by (simp add: boundary_def settlementBoundaryTx_def Let_def)
  show ?thesis
    unfolding verify_settlement_sources_def Let_def new_settlement_ledger_source [OF assms(4)] ledger
    using ten by (simp add: fields pins src boundary_chain_hashes [OF assms(3) boundary_def] period weights revenue [symmetric] e)
qed

lemma new_settlement_verified:
  assumes "settlementSourcesTx H db ops transfers input = Inr sources"
    and r: "r = signed_settlement (hashed_settlement H input head (numbered_settlement input latest sources)) sig"
    and "settlement_input_ok input" "operator_logs_ok ops" "\<forall>e \<in> set (ledger_entries db). le_LedgerIndex e < le_LedgerIndex (srec_LedgerEntry r)"
    and "verify (SettlementReceiptMessage (settlementReceipt r (sci_RegistryScope input))) sig"
  shows "verifySettlementRecordTx H db ops transfers r verify (sci_RegistryKeyID input) (sci_RegistryScope input) = Inr ()"
proof -
  define boundary where "boundary = settlementBoundaryTx db ops transfers (sci_AcceptedAt input)"
  obtain v basis ttm revenue months weights members allocations x where
    x: "x = settlement_record input boundary v basis ttm revenue months weights members allocations" and
    safe: "settlementRecordHasSafeMinorAmounts x" and s: "sources = x\<lparr>srec_SourceFingerprint := settlementSourceFingerprint H x\<rparr>"
    by (rule settlementSourcesTx_Inr [OF assms(1) boundary_def])
  have kept: "srec_Allocations r = srec_Allocations x" "srec_NetworkCommissionPoolMinor r = srec_NetworkCommissionPoolMinor x"
    "srec_IndicativeNetworkValueMinor r = srec_IndicativeNetworkValueMinor x" "srec_CommissionBasisMinor r = srec_CommissionBasisMinor x"
    "srec_SourceFingerprint r = settlementSourceFingerprint H x"
    by (simp_all add: r s)
  note fields = signed_settlement_fields [OF r]
  have safe_r: "settlementRecordHasSafeMinorAmounts r" using safe by (simp add: settlementRecordHasSafeMinorAmounts_def kept fields) (simp add: s)
  have "settlementSourceFingerprint H r = settlementSourceFingerprint H x"
    by (rule fingerprint_fields) (simp_all add: fields, simp_all add: r s)
  moreover have "allocated_totals 0 0 (srec_Allocations r) = Some (srec_NetworkCommissionPoolMinor r, srec_IndicativeNetworkValueMinor r)"
    using settlementSourcesTx_pays [OF assms(1)] safe_r allocated_totals_sum [of "srec_Allocations r" 0 0]
    by (simp add: r settlementRecordHasSafeMinorAmounts_def SettlementMinorAmountIsSafe_def SettlementMaximumSafeMinor_def MaxInt64_def)
  moreover have "srec_AllocationHash r = SettlementAllocationHash H (srec_Allocations r)" by (simp add: fields kept) (simp add: s)
  ultimately show ?thesis
    using new_settlement_metadata [OF r assms(3) s x] safe_r assms(6) signed_settlement_hash [OF r] kept(5) new_settlement_sources_verified [OF assms(1) r assms(4,5)]
    by (simp add: verifySettlementRecordTx_def Let_def fields)
qed

subsection \<open>A new settlement continues the chain of revisions\<close>

lemma latest_tracked:
  assumes "settlements_ok db" "revisions_track rows revisions" "set rows = set (settlements db)" "length period = 7"
    and "latestSettlementTx db period currency = Inr latest"
  shows "revisions (period @ [CHR 0x00] @ currency) =
    (case latest of None \<Rightarrow> (0, []) | Some l \<Rightarrow> (srec_Revision l, srec_SettlementID l))"
proof -
  define own where "own = filter (same_month period currency) rows"
  have tracked: "revisions (period @ [CHR 0x00] @ currency) = (int (length own), if own = [] then [] else st_settlement_id (last own))"
    "map st_revision own = map (\<lambda>i. int i + 1) [0..<length own]"
    using assms(2,4) unfolding revisions_track_def Let_def own_def by blast+
  have same: "set own = set (revisions_of db period currency)" by (simp add: own_def assms(3))
  show ?thesis
  proof (cases "select_max st_revision (revisions_of db period currency)")
    case None
    then have "revisions_of db period currency = []" by (auto simp: select_max_def split: if_splits)
    then have "own = []" using same by (metis set_empty)
    with None tracked(1) assms(5) show ?thesis by (simp add: latestSettlementTx_def)
  next
    case (Some row)
    then have "row \<in> set own" unfolding same by (rule select_max_mem)
    then obtain i where i: "i < length own" "own ! i = row" unfolding in_set_conv_nth by blast
    then have ne: "own \<noteq> []" by auto
    have revision: "st_revision (own ! k) = int k + 1" if "k < length own" for k
      using arg_cong [OF tracked(2), of "\<lambda>xs. xs ! k"] that by simp
    have "st_revision (last own) \<le> st_revision row"
      by (rule select_max_greatest [OF Some]) (use ne same in \<open>metis last_in_set\<close>)
    moreover have "last own = own ! (length own - 1)" "length own - 1 < length own" using ne by (simp_all add: last_conv_nth)
    ultimately have "i = length own - 1" using revision [OF i(1)] revision [of "length own - 1"] i by simp
    then have "row = last own" "st_revision row = int (length own)" using i revision [OF i(1)] \<open>last own = _\<close> by simp_all
    moreover obtain l where l: "latest = Some l" "settlementByIDQuery db (st_settlement_id row) = Inr l"
      using assms(5) Some by (auto simp: latestSettlementTx_def result_simps)
    moreover have "row \<in> set (settlements db)" using select_max_mem [OF Some] by simp
    ultimately show ?thesis using tracked(1) ne settlementByIDQuery_columns(1,4) [OF assms(1) _ l(2)] by simp
  qed
qed

lemma verified_settlement_indexes:
  assumes "verify_settlements_loop H db ops transfers verify keyID scope revisions (map st_settlement_id rows) = Inr revisions'"
    and "settlements_ok db" "set rows \<subseteq> set (settlements db)" "s \<in> set rows"
  shows "st_ledger_index s \<in> le_LedgerIndex ` set (ledger_entries db)"
  using assms(1,3,4)
proof (induction rows arbitrary: revisions)
  case (Cons x rows)
  obtain middle where "verify_settlements_loop H db ops transfers verify keyID scope revisions [st_settlement_id x] = Inr middle"
      and rest: "verify_settlements_loop H db ops transfers verify keyID scope middle (map st_settlement_id rows) = Inr revisions'"
    using Cons.prems(1) unfolding list.map verify_settlements_loop_Cons [of _ _ _ _ _ _ _ _ _ "map st_settlement_id rows"] result_simps by blast
  then obtain r where "settlementByIDQuery db (st_settlement_id x) = Inr r" unfolding verify_settlements_loop_one by blast
  moreover have "x \<in> set (settlements db)" using Cons.prems(2) by simp
  ultimately have "st_ledger_index x \<in> le_LedgerIndex ` set (ledger_entries db)" using settlementByIDQuery_columns(5,6) [OF assms(2)] by (metis image_eqI)
  then show ?case using Cons.IH [OF rest] Cons.prems(2,3) by auto
qed simp

lemma new_settlement_continues:
  assumes "settlements_ok db" "revisions_track rows revisions" "set rows = set (settlements db)" "length rows < 2 ^ 62"
    and "latestSettlementTx db (sci_Period input) (sci_CurrencyCode input) = Inr latest" "settlement_input_ok input"
    and r: "r = signed_settlement (hashed_settlement H input head (numbered_settlement input latest sources)) sig"
    and "srec_Period sources = sci_Period input" "srec_CurrencyCode sources = sci_CurrencyCode input" "srec_SupersedesSettlementID sources = []"
    and "previous = revisions (srec_Period r @ [CHR 0x00] @ srec_CurrencyCode r)"
  shows "srec_Revision r = i64 (fst previous + 1)" "srec_Revision r = 1 \<Longrightarrow> srec_SupersedesSettlementID r = []"
    "srec_SupersedesSettlementID r = snd previous"
proof -
  have p: "length (sci_Period input) = 7" using assms(6) by (simp add: settlement_input_ok_def validSettlementPeriod_length)
  have k: "srec_Period r = sci_Period input" "srec_CurrencyCode r = sci_CurrencyCode input" by (simp_all add: r assms(8,9))
  note latest = latest_tracked [OF assms(1-3) p assms(5), folded k, folded assms(11)]
  show 1: "srec_Revision r = i64 (fst previous + 1)" unfolding latest by (simp add: r split: option.splits) (simp add: i64_def)
  show s: "srec_SupersedesSettlementID r = snd previous" unfolding latest signed_settlement_fields [OF r] by (simp add: assms(10) split: option.splits)
  have "fst previous = int (length (filter (same_month (srec_Period r) (srec_CurrencyCode r)) rows)) \<and>
      (filter (same_month (srec_Period r) (srec_CurrencyCode r)) rows = [] \<longrightarrow> snd previous = [])"
    using assms(2) p unfolding revisions_track_def Let_def assms(11) k by simp
  moreover have "length (filter (same_month (srec_Period r) (srec_CurrencyCode r)) rows) < 2 ^ 62"
    using assms(4) by (rule order_le_less_trans [OF length_filter_le])
  ultimately show "srec_Revision r = 1 \<Longrightarrow> srec_SupersedesSettlementID r = []" unfolding s 1 by (simp add: i64_nonneg_id)
qed

text \<open>C19. The verification of settlements accepts what the calculation writes: when every stored settlement verifies, a calculation that
  succeeds leaves a database in which every settlement verifies again, the new one included: its metadata, its hashes and its signature,
  the positions of the ledger and of the operator logs that it pins, its sources read again at those positions, all its figures computed
  again from them, and its place in the chain of revisions of its month and currency.\<close>

theorem VerifySettlements_kept:
  assumes "digest32 H" "ledger_verified H db" "length (ledger_entries db) < 2 ^ 62" "settlement_for db input" "settlements_ok db"
    and "operator_logs_ok ops" "settlement_input_ok input"
    and "\<And>r sig. signReceipt r = Some sig \<Longrightarrow> verify (SettlementReceiptMessage (settlementReceipt r (sci_RegistryScope input))) sig"
    and "VerifySettlements H db ops transfers verify (sci_RegistryKeyID input) (sci_RegistryScope input) = Inr ()"
    and "CalculateSettlement H db ops transfers input signReceipt = Inr (db', record, duplicate)"
  shows "VerifySettlements H db' ops transfers verify (sci_RegistryKeyID input) (sci_RegistryScope input) = Inr ()"
  using assms(10)
proof (cases rule: CalculateSettlement_cases)
  case (fresh sources latest sig)
  let ?e = "srec_LedgerEntry record" and ?key = "sci_RegistryKeyID input" and ?scope = "sci_RegistryScope input"
  define rows where "rows = sort_key st_ledger_index (settlements db)"
  have f: "CalculateSettlement H db ops transfers input signReceipt = Inr (db', record, False)" using fresh(1) assms(10) by simp
  note stored = CalculateSettlement_stored [OF assms(5) f] and v = CalculateSettlement_verified [OF assms(1-4) f]
  obtain nodes where db': "db' = settlement_appended (db\<lparr>ledger_entries := ledger_entries db @ [?e], ledger_merkle_nodes := nodes\<rparr>) record"
      and new: "le_LedgerIndex ?e \<notin> le_LedgerIndex ` set (ledger_entries db)" "srec_SettlementID record \<notin> st_settlement_id ` set (settlements db)"
    by (rule inserted_settlement [OF fresh(7,8)])
  have below: "\<forall>e \<in> set (ledger_entries db). le_LedgerIndex e < le_LedgerIndex ?e"
  proof
    fix e assume e: "e \<in> set (ledger_entries db)"
    have "sorted (map le_LedgerIndex (ledger_entries db @ [?e]))" using v by (auto simp add: ledger_verified_def ledger_sorted_def simp del: map_append)
    then have "le_LedgerIndex e \<le> le_LedgerIndex ?e" using e by (simp add: sorted_append)
    moreover have "le_LedgerIndex e \<noteq> le_LedgerIndex ?e" using new(1) e by (metis image_eqI)
    ultimately show "le_LedgerIndex e < le_LedgerIndex ?e" by simp
  qed
  obtain revisions where loop: "verify_settlements_loop H db ops transfers verify ?key ?scope (\<lambda>_. (0, [])) (map st_settlement_id rows) = Inr revisions"
      and count: "length (filter (\<lambda>e. le_EntryType e = SettlementEntryType) (ledger_entries db)) = length rows"
    using assms(9) by (auto simp: VerifySettlements_def Let_def rows_def result_simps split: if_splits)
  have set_rows: "set rows = set (settlements db)" by (simp add: rows_def)
  have small: "length rows < 2 ^ 62" using assms(3) unfolding count [symmetric] by (rule order_le_less_trans [OF length_filter_le])
  have same: "verifySettlementRecordTx H db = verifySettlementRecordTx H db'" by (rule verifySettlementRecordTx_cong) (simp_all add: db' fresh(7))
  have kept: "verify_settlements_loop H db' ops transfers verify ?key ?scope (\<lambda>_. (0, [])) (map st_settlement_id rows) = Inr revisions"
    by (rule verify_settlements_loop_kept [OF loop _ same]) (simp add: db' settlementByIDQuery_kept new(2))
  have order: "sort_key st_ledger_index (settlements db') = rows @ [settlementRow record]"
    unfolding stored(3) rows_def using verified_settlement_indexes [OF loop assms(5)] below set_rows
    by (intro sort_key_snoc) (force intro: less_imp_le)
  have sources: "srec_Period sources = sci_Period input" "srec_CurrencyCode sources = sci_CurrencyCode input" "srec_SupersedesSettlementID sources = []"
    by (rule settlementSourcesTx_Inr [OF fresh(5) refl], simp add: settlement_record_def)+
  note chain = new_settlement_continues [OF assms(5) revisions_track_loop [OF loop assms(5)] set_rows small fresh(6) assms(7) fresh(7) sources refl]
  have "verifySettlementRecordTx H db' ops transfers record verify ?key ?scope = Inr ()"
    unfolding same [symmetric]
    by (rule new_settlement_verified [OF fresh(5,7) assms(7,6) below]) (use assms(8) [OF fresh(9)] fresh(7) in \<open>simp add: settlementReceipt_def SettlementReceiptMessage_def Let_def\<close>)
  then have "\<exists>revisions'. verify_settlements_loop H db' ops transfers verify ?key ?scope revisions [srec_SettlementID record] = Inr revisions'"
    unfolding verify_settlements_loop_one Let_def using stored(2) chain set_rows small by auto
  moreover have "ledger_entries db' = ledger_entries db @ [?e]" "le_EntryType ?e = SettlementEntryType" using v by (simp_all add: fresh(7))
  ultimately show ?thesis using kept count
    by (auto simp: VerifySettlements_def Let_def order verify_settlements_loop_append result_simps simp del: verify_settlements_loop.simps)
qed (use assms(9) in simp)

definition settlement_verify :: "bytes \<Rightarrow> bytes \<Rightarrow> bool" where
  "settlement_verify message signature \<longleftrightarrow> sample_sign message = Some signature"

lemma sample_input_valid: "settlement_input_ok sample_settlement_input"
  by code_simp

theorem VerifySettlements_kept_witness:
  "VerifySettlements tag_hash settled_db empty_operators empty_transfers settlement_verify ''k'' ''demo'' = Inr ()"
proof -
  have o: "operator_logs_ok empty_operators" by (simp add: operator_logs_ok_def log_indexed_def empty_operators_def)
  have i: "sci_RegistryKeyID sample_settlement_input = ''k''" "sci_RegistryScope sample_settlement_input = ''demo''" by (simp_all add: sample_settlement_input_def)
  have v: "VerifySettlements tag_hash revenue_db empty_operators empty_transfers settlement_verify ''k'' ''demo'' = Inr ()"
    by (simp add: VerifySettlements_def revenue_db_fields revenue_entry_fields RevenueEntryType_def SettlementEntryType_def)
  show ?thesis
    by (rule VerifySettlements_kept [OF digest32_tag_hash revenue_db_state(1) sample_settlement_ok(3,2,1) o sample_input_valid _ _ sample_settled, unfolded i])
      (simp_all add: v settlement_verify_def)
qed

end
