(* ===== verification/Protocol_Notices.thy ===== *)
theory Protocol_Notices
  imports Protocol_Core
begin

text \<open>
  \<open>registry/protocol/announcement.go\<close> and \<open>registry_case.go\<close>: the records
      of announcements, update manifests and
  registry cases and the messages that are hashed and signed.
\<close>

subsection \<open>Constants\<close>

definition AnnouncementPath :: string where "AnnouncementPath = ''/v1/announcements''"
definition AnnouncementKindGeneral :: string where "AnnouncementKindGeneral = ''GENERAL''"
definition AnnouncementKindUpdate :: string where "AnnouncementKindUpdate = ''UPDATE''"
definition AnnouncementKindMaintenance :: string where "AnnouncementKindMaintenance = ''MAINTENANCE''"
definition AnnouncementKindSecurity :: string where "AnnouncementKindSecurity = ''SECURITY''"
definition AnnouncementSeverityInfo :: string where "AnnouncementSeverityInfo = ''INFO''"
definition AnnouncementSeverityNotice :: string where "AnnouncementSeverityNotice = ''NOTICE''"
definition AnnouncementSeverityWarning :: string where "AnnouncementSeverityWarning = ''WARNING''"
definition AnnouncementSeverityCritical :: string where "AnnouncementSeverityCritical = ''CRITICAL''"
definition UpdateStatusAvailable :: string where "UpdateStatusAvailable = ''AVAILABLE''"
definition UpdateStatusRevoked :: string where "UpdateStatusRevoked = ''REVOKED''"
definition UpdateStatusSuperseded :: string where "UpdateStatusSuperseded = ''SUPERSEDED''"
definition UpdateManifestVersion :: string where "UpdateManifestVersion = ''1''"
definition AnnouncementZeroHash :: string where "AnnouncementZeroHash = ZeroHash"
definition RegistryCaseActionFlag :: string where "RegistryCaseActionFlag = ''flag''"
definition RegistryCaseActionClear :: string where "RegistryCaseActionClear = ''clear''"
definition RegistryCaseStatusOpen :: string where "RegistryCaseStatusOpen = ''OPEN''"
definition RegistryCaseStatusCleared :: string where "RegistryCaseStatusCleared = ''CLEARED''"
definition RegistryCaseSubjectDeployment :: string where "RegistryCaseSubjectDeployment = ''deployment''"
definition RegistryCaseSubjectClaim :: string where "RegistryCaseSubjectClaim = ''claim''"
definition RegistryCaseSubjectGroup :: string where "RegistryCaseSubjectGroup = ''group''"
definition RegistryCaseSubjectQMAU :: string where "RegistryCaseSubjectQMAU = ''qmau''"
definition RegistryCaseSubjectRevenue :: string where "RegistryCaseSubjectRevenue = ''revenue''"
definition RegistryCaseSubjectLedger :: string where "RegistryCaseSubjectLedger = ''ledger''"
definition RegistryCaseSeverityInfo :: string where "RegistryCaseSeverityInfo = ''info''"
definition RegistryCaseSeverityWarning :: string where "RegistryCaseSeverityWarning = ''warning''"
definition RegistryCaseSeverityCritical :: string where "RegistryCaseSeverityCritical = ''critical''"
definition RegistryCaseZeroHash :: string where "RegistryCaseZeroHash = ZeroHash"

lemmas notices_constants =
  AnnouncementPath_def AnnouncementKindGeneral_def AnnouncementKindUpdate_def
  AnnouncementKindMaintenance_def AnnouncementKindSecurity_def AnnouncementSeverityInfo_def
  AnnouncementSeverityNotice_def AnnouncementSeverityWarning_def AnnouncementSeverityCritical_def
  UpdateStatusAvailable_def UpdateStatusRevoked_def UpdateStatusSuperseded_def
  UpdateManifestVersion_def AnnouncementZeroHash_def RegistryCaseActionFlag_def
  RegistryCaseActionClear_def RegistryCaseStatusOpen_def RegistryCaseStatusCleared_def
  RegistryCaseSubjectDeployment_def RegistryCaseSubjectClaim_def RegistryCaseSubjectGroup_def
  RegistryCaseSubjectQMAU_def RegistryCaseSubjectRevenue_def RegistryCaseSubjectLedger_def
  RegistryCaseSeverityInfo_def RegistryCaseSeverityWarning_def RegistryCaseSeverityCritical_def
  RegistryCaseZeroHash_def

subsection \<open>Wire records\<close>

record AnnouncementLocalization =
  al_Locale :: string
  al_Title :: string
  al_Body :: string

record AnnouncementLink =
  alk_Relation :: string
  alk_URL :: string

record UpdateManifest =
  um_ManifestVersion :: string
  um_ReleaseVersion :: string
  um_Channel :: string
  um_PublishedAt :: string
  um_MinimumCompatibleVersion :: string
  um_MaximumCompatibleVersion :: string
  um_ArtifactURL :: string
  um_ArtifactSizeBytes :: int
  um_ArtifactSHA256 :: string
  um_PackageSigningKeyID :: string
  um_PackageSignature :: string
  um_ReleaseNotesURL :: string
  um_BackupRequired :: bool
  um_ExpectedDowntimeSeconds :: int
  um_Status :: string
  um_SupersedesVersion :: string
  um_SupersededByVersion :: string
  um_RevocationReason :: string

record AnnouncementDraft =
  ad_ProtocolVersion :: string
  ad_PublicationID :: string
  ad_Kind :: string
  ad_Severity :: string
  ad_PublishedAt :: string
  ad_ExpiresAt :: string
  ad_TitleKey :: string
  ad_BodyKey :: string
  ad_Localizations :: "AnnouncementLocalization list"
  ad_Links :: "AnnouncementLink list"
  ad_UpdateManifest :: "UpdateManifest option"

record AnnouncementEntry =
  ae_ProtocolVersion :: string
  ae_RegistryScope :: string
  ae_Sequence :: int
  ae_AnnouncementID :: string
  ae_PublicationID :: string
  ae_Kind :: string
  ae_Severity :: string
  ae_PublishedAt :: string
  ae_ExpiresAt :: string
  ae_TitleKey :: string
  ae_BodyKey :: string
  ae_Localizations :: "AnnouncementLocalization list"
  ae_Links :: "AnnouncementLink list"
  ae_UpdateManifest :: "UpdateManifest option"
  ae_ContentHash :: string
  ae_LinksHash :: string
  ae_UpdateManifestHash :: string
  ae_PreviousAnnouncementHash :: string
  ae_AnnouncementHash :: string
  ae_AcceptedAt :: string
  ae_RegistryKeyID :: string
  ae_Signature :: string

record AnnouncementSnapshot =
  asn_SnapshotID :: string
  asn_AsOf :: string
  asn_ThroughSequence :: int
  asn_AnnouncementHeadHash :: string
  asn_Kind :: string
  asn_Severity :: string
  asn_Channel :: string
  asn_IncludeExpired :: bool
  asn_CreatedAt :: string
  asn_SnapshotHash :: string
  asn_RegistryScope :: string
  asn_RegistryKeyID :: string
  asn_Signature :: string

record AnnouncementPage =
  ap_Snapshot :: AnnouncementSnapshot
  ap_Items :: "AnnouncementEntry list"
  ap_NextCursor :: string

record AnnouncementPublishResult =
  apr_Duplicate :: bool
  apr_Announcement :: AnnouncementEntry

record RegistryCaseEvent =
  rce_EventIndex :: int
  rce_EventID :: string
  rce_CaseID :: string
  rce_Action :: string
  rce_SubjectType :: string
  rce_SubjectID :: string
  rce_Category :: string
  rce_Severity :: string
  rce_EvidenceHash :: string
  rce_Reference :: string
  rce_ActorID :: string
  rce_IdempotencyKey :: string
  rce_PayloadHash :: string
  rce_AcceptedAt :: string
  rce_PreviousEventHash :: string
  rce_EventHash :: string
  rce_RegistryScope :: string
  rce_RegistryKeyID :: string
  rce_Signature :: string

record RegistryCase =
  rcs_CaseID :: string
  rcs_Status :: string
  rcs_SubjectType :: string
  rcs_SubjectID :: string
  rcs_Category :: string
  rcs_Severity :: string
  rcs_FlagEvidenceHash :: string
  rcs_FlagReference :: string
  rcs_FlagActorID :: string
  rcs_FlaggedAt :: string
  rcs_FlagEventIndex :: int
  rcs_FlagEventHash :: string
  rcs_ClearEvidenceHash :: string
  rcs_ClearReference :: string
  rcs_ClearActorID :: string
  rcs_ClearedAt :: string
  rcs_ClearEventIndex :: int
  rcs_ClearEventHash :: string
  rcs_LatestEventIndex :: int
  rcs_LatestEventHash :: string

record RegistryCaseMutationResult =
  rcmr_Duplicate :: bool
  rcmr_Case :: RegistryCase
  rcmr_Event :: RegistryCaseEvent

record RegistryCasePage =
  rcp_Items :: "RegistryCase list"
  rcp_NextEventIndex :: int

subsection \<open>Messages\<close>

definition AnnouncementContentMessage :: "(bytes \<Rightarrow> bytes) \<Rightarrow> string
    \<Rightarrow> string \<Rightarrow> AnnouncementLocalization list \<Rightarrow> bytes" where
  "AnnouncementContentMessage H titleKey bodyKey localizations = canonical (
    [''myscoutee-registry-announcement-content-v1'', titleKey, bodyKey,
     FormatInt (int (length localizations))] @
    concat (map (\<lambda>localization. [al_Locale localization, Digest H (al_Title localization),
        Digest H (al_Body localization)]) localizations))"

definition AnnouncementLinksMessage :: "AnnouncementLink list \<Rightarrow> bytes" where
  "AnnouncementLinksMessage links = canonical (
    [''myscoutee-registry-announcement-links-v1'', FormatInt (int (length links))] @
    concat (map (\<lambda>link. [alk_Relation link, alk_URL link]) links))"

definition UpdateManifestMessage :: "UpdateManifest \<Rightarrow> bytes" where
  "UpdateManifestMessage manifest = canonical
    [''myscoutee-registry-update-manifest-v1'', um_ManifestVersion manifest,
     um_ReleaseVersion manifest, um_Channel manifest, um_PublishedAt manifest,
     um_MinimumCompatibleVersion manifest, um_MaximumCompatibleVersion manifest,
     um_ArtifactURL manifest, FormatInt (um_ArtifactSizeBytes manifest),
     um_ArtifactSHA256 manifest, um_PackageSigningKeyID manifest, um_PackageSignature manifest,
     um_ReleaseNotesURL manifest, FormatBool (um_BackupRequired manifest),
     FormatInt (um_ExpectedDowntimeSeconds manifest), um_Status manifest,
     um_SupersedesVersion manifest, um_SupersededByVersion manifest, um_RevocationReason manifest]"

definition UpdatePackageSignatureMessage :: "UpdateManifest \<Rightarrow> bytes" where
  "UpdatePackageSignatureMessage manifest = canonical
    [''myscoutee-release-package-v1'', um_ReleaseVersion manifest, um_Channel manifest,
     FormatInt (um_ArtifactSizeBytes manifest), um_ArtifactSHA256 manifest]"

definition AnnouncementEntryMessage :: "AnnouncementEntry \<Rightarrow> bytes" where
  "AnnouncementEntryMessage entry = canonical
    [''myscoutee-registry-announcement-entry-v1'', ae_ProtocolVersion entry,
     ae_RegistryScope entry, FormatInt (ae_Sequence entry), ae_AnnouncementID entry,
     ae_PublicationID entry, ae_Kind entry, ae_Severity entry, ae_PublishedAt entry,
     ae_ExpiresAt entry, ae_ContentHash entry, ae_LinksHash entry, ae_UpdateManifestHash entry,
     ae_PreviousAnnouncementHash entry, ae_AcceptedAt entry, ae_RegistryKeyID entry]"

definition AnnouncementDraftMessage where
  "AnnouncementDraftMessage publicationID kind severity publishedAt expiresAt contentHash linksHash
      updateManifestHash = canonical
    [''myscoutee-registry-announcement-draft-v1'', publicationID, kind, severity, publishedAt,
     expiresAt, contentHash, linksHash, updateManifestHash]"

definition AnnouncementReceiptMessage :: "AnnouncementEntry \<Rightarrow> bytes" where
  "AnnouncementReceiptMessage entry = canonical
    [''myscoutee-registry-announcement-receipt-v1'', ae_AnnouncementHash entry,
     ae_RegistryScope entry, ae_RegistryKeyID entry]"

definition AnnouncementSnapshotHashMessage :: "AnnouncementSnapshot \<Rightarrow> bytes" where
  "AnnouncementSnapshotHashMessage snapshot = canonical
    [''myscoutee-registry-announcement-snapshot-hash-v1'', asn_SnapshotID snapshot,
     asn_AsOf snapshot, FormatInt (asn_ThroughSequence snapshot),
     asn_AnnouncementHeadHash snapshot, asn_Kind snapshot, asn_Severity snapshot,
     asn_Channel snapshot, FormatBool (asn_IncludeExpired snapshot), asn_CreatedAt snapshot,
     asn_RegistryScope snapshot, asn_RegistryKeyID snapshot]"

definition AnnouncementSnapshotReceiptMessage :: "AnnouncementSnapshot \<Rightarrow> bytes" where
  "AnnouncementSnapshotReceiptMessage snapshot = canonical
    [''myscoutee-registry-announcement-snapshot-receipt-v1'', asn_SnapshotHash snapshot,
     asn_RegistryScope snapshot, asn_RegistryKeyID snapshot]"

definition RegistryCasePayloadMessage where
  "RegistryCasePayloadMessage action caseID subjectType subjectID category severity evidenceHash
      reference actorID =
     (let payloadCaseID = (if action = RegistryCaseActionFlag then [] else caseID)
      in canonical
        [''myscoutee-registry-case-payload-v1'', action, payloadCaseID, subjectType, subjectID,
         category, severity, evidenceHash, reference, actorID])"

definition RegistryCaseEventHashMessage :: "RegistryCaseEvent \<Rightarrow> bytes" where
  "RegistryCaseEventHashMessage event = canonical
    [''myscoutee-registry-case-event-v1'', FormatInt (rce_EventIndex event), rce_EventID event,
     rce_CaseID event, rce_Action event, rce_SubjectType event, rce_SubjectID event,
     rce_Category event, rce_Severity event, rce_EvidenceHash event, rce_Reference event,
     rce_ActorID event, rce_IdempotencyKey event, rce_PayloadHash event, rce_AcceptedAt event,
     rce_PreviousEventHash event, rce_RegistryScope event, rce_RegistryKeyID event]"

definition RegistryCaseEventReceiptMessage :: "RegistryCaseEvent \<Rightarrow> bytes" where
  "RegistryCaseEventReceiptMessage event = canonical
    [''myscoutee-registry-case-event-receipt-v1'', rce_EventHash event, rce_RegistryKeyID event]"

subsection \<open>Package keys\<close>

definition PackageSigningKeyID :: "(bytes \<Rightarrow> bytes) \<Rightarrow> bytes \<Rightarrow> string" where
  "PackageSigningKeyID H spkiDER =
     (let fingerprint = PublicKeyFingerprint H spkiDER in ''pkey_'' @ take 32 (drop (length
         ''sha256:'') fingerprint))"


end
