(* ===== verification/Protocol_Identity.thy ===== *)
theory Protocol_Identity
  imports Protocol_Core
begin

text \<open>
  \<open>registry/protocol/global_identity.go\<close>: the records of the global identity protocol
      (VOPRF keys, evaluations, links,
  presence batches and snapshots) and the messages that are hashed and signed.
\<close>

subsection \<open>Constants\<close>

definition GlobalIdentityVOPRFKeyPath :: string where
  "GlobalIdentityVOPRFKeyPath = ''/v1/global-identities/voprf-keys/current''"
definition GlobalIdentityEvaluatePath :: string where
  "GlobalIdentityEvaluatePath = ''/v1/global-identities/evaluate''"
definition GlobalIdentityLinkPath :: string where "GlobalIdentityLinkPath = ''/v1/global-identities/links''"
definition GlobalIdentityLinkActionPath :: string where
  "GlobalIdentityLinkActionPath = ''/v1/global-identities/link-actions''"
definition GlobalIdentityPresenceBatchPath :: string where
  "GlobalIdentityPresenceBatchPath = ''/v1/global-identities/presence-batches''"
definition GlobalIdentityDedupPathPrefix :: string where
  "GlobalIdentityDedupPathPrefix = ''/v1/global-identities/dedup/''"
definition GlobalIdentityVOPRFSuite :: string where "GlobalIdentityVOPRFSuite = ''P256-SHA256''"
definition GlobalIdentityVOPRFMode :: string where "GlobalIdentityVOPRFMode = ''VOPRF''"
definition GlobalIdentityConsentVersion :: string where
  "GlobalIdentityConsentVersion = ''global-dedup-consent-v1''"
definition GlobalIdentityRulesetVersion :: string where
  "GlobalIdentityRulesetVersion = ''global-identity-dedup-v1''"
definition GlobalIdentityKeyActive :: string where "GlobalIdentityKeyActive = ''ACTIVE''"
definition GlobalIdentityKeyRetired :: string where "GlobalIdentityKeyRetired = ''RETIRED''"
definition GlobalIdentityActionLink :: string where "GlobalIdentityActionLink = ''LINK''"
definition GlobalIdentityActionUnlink :: string where "GlobalIdentityActionUnlink = ''UNLINK''"
definition GlobalIdentityActionCorrect :: string where "GlobalIdentityActionCorrect = ''CORRECT''"
definition GlobalIdentityActionPresence :: string where
  "GlobalIdentityActionPresence = ''QUALIFIED_PRESENCE''"
definition GlobalIdentityActionSnapshot :: string where "GlobalIdentityActionSnapshot = ''PERIOD_SNAPSHOT''"
definition GlobalIdentityLinkActive :: string where "GlobalIdentityLinkActive = ''ACTIVE''"
definition GlobalIdentityLinkUnlinked :: string where "GlobalIdentityLinkUnlinked = ''UNLINKED''"

lemmas identity_constants =
  GlobalIdentityVOPRFKeyPath_def GlobalIdentityEvaluatePath_def GlobalIdentityLinkPath_def
  GlobalIdentityLinkActionPath_def GlobalIdentityPresenceBatchPath_def GlobalIdentityDedupPathPrefix_def
  GlobalIdentityVOPRFSuite_def GlobalIdentityVOPRFMode_def GlobalIdentityConsentVersion_def
  GlobalIdentityRulesetVersion_def GlobalIdentityKeyActive_def GlobalIdentityKeyRetired_def
  GlobalIdentityActionLink_def GlobalIdentityActionUnlink_def GlobalIdentityActionCorrect_def
  GlobalIdentityActionPresence_def GlobalIdentityActionSnapshot_def GlobalIdentityLinkActive_def
  GlobalIdentityLinkUnlinked_def

subsection \<open>Wire records\<close>

record GlobalIdentityVOPRFKey =
  gik_ProtocolVersion :: string
  gik_RegistryScope :: string
  gik_KeyVersion :: int
  gik_Suite :: string
  gik_Mode :: string
  gik_PublicKey :: string
  gik_Status :: string
  gik_ActivatedAt :: string
  gik_RegistryKeyID :: string
  gik_RegistryPublicKey :: string
  gik_Signature :: string

record GlobalIdentityEvaluationRequest =
  gieq_ProtocolVersion :: string
  gieq_RegistryScope :: string
  gieq_DeploymentID :: string
  gieq_Timestamp :: string
  gieq_Nonce :: string
  gieq_IdempotencyKey :: string
  gieq_KeyVersion :: int
  gieq_Suite :: string
  gieq_BlindedElement :: string
  gieq_PayloadHash :: string
  gieq_Signature :: string

record GlobalIdentityEvaluationResponse =
  giep_ProtocolVersion :: string
  giep_RegistryScope :: string
  giep_DeploymentID :: string
  giep_KeyVersion :: int
  giep_Suite :: string
  giep_PublicKey :: string
  giep_EvaluatedElement :: string
  giep_Proof :: string
  giep_RequestHash :: string
  giep_ResponseHash :: string
  giep_EvaluatedAt :: string
  giep_RegistryKeyID :: string
  giep_RegistryPublicKey :: string
  giep_ReceiptSignature :: string
  giep_Duplicate :: bool

record GlobalIdentityLinkRequest =
  gilq_ProtocolVersion :: string
  gilq_RegistryScope :: string
  gilq_DeploymentID :: string
  gilq_Timestamp :: string
  gilq_Nonce :: string
  gilq_IdempotencyKey :: string
  gilq_KeyVersion :: int
  gilq_Suite :: string
  gilq_NetworkIdentityCommitment :: string
  gilq_ConsentVersion :: string
  gilq_ConsentEvidenceCommitment :: string
  gilq_VerifiedAt :: string
  gilq_EffectivePeriod :: string
  gilq_PayloadHash :: string
  gilq_Signature :: string

record GlobalIdentityLinkActionRequest =
  gila_ProtocolVersion :: string
  gila_RegistryScope :: string
  gila_DeploymentID :: string
  gila_Timestamp :: string
  gila_Nonce :: string
  gila_IdempotencyKey :: string
  gila_Action :: string
  gila_LinkID :: string
  gila_ReplacementKeyVersion :: int
  gila_ReplacementSuite :: string
  gila_ReplacementCommitment :: string
  gila_ConsentVersion :: string
  gila_ConsentEvidenceCommitment :: string
  gila_VerifiedAt :: string
  gila_EffectivePeriod :: string
  gila_ReasonCommitment :: string
  gila_PayloadHash :: string
  gila_Signature :: string

record GlobalIdentityLink =
  gil_LinkID :: string
  gil_DeploymentID :: string
  gil_Status :: string
  gil_KeyVersion :: int
  gil_Suite :: string
  gil_ActiveFromPeriod :: string
  gil_InactiveFromPeriod :: string
  gil_ConsentVersion :: string
  gil_VerifiedAt :: string
  gil_LatestEventIndex :: int
  gil_LatestEventHash :: string

record GlobalIdentityEvent =
  gie_EventIndex :: int
  gie_EventID :: string
  gie_Action :: string
  gie_DeploymentID :: string
  gie_Period :: string
  gie_AggregateCommitment :: string
  gie_ReportedCount :: int
  gie_DeduplicatedCount :: int
  gie_AcceptedAt :: string
  gie_PreviousEventHash :: string
  gie_EventHash :: string
  gie_RegistryScope :: string
  gie_RegistryKeyID :: string
  gie_Signature :: string

record GlobalIdentityMutationResponse =
  gimr_ProtocolVersion :: string
  gimr_RegistryScope :: string
  gimr_Link :: GlobalIdentityLink
  gimr_Event :: GlobalIdentityEvent
  gimr_RegistryPublicKey :: string
  gimr_Duplicate :: bool

record GlobalIdentityDedupSnapshot =
  gis_ProtocolVersion :: string
  gis_RegistryScope :: string
  gis_Period :: string
  gis_Revision :: int
  gis_ReportedQMAUCount :: int
  gis_LinkedObservationCount :: int
  gis_GloballyUniqueLinkedCount :: int
  gis_UnlinkedQMAUCount :: int
  gis_DeduplicatedNetworkQMAU :: int
  gis_DuplicateReduction :: int
  gis_CoveredDeploymentCount :: int
  gis_AggregateCommitment :: string
  gis_ThroughEventIndex :: int
  gis_ThroughEventHash :: string
  gis_GeneratedAt :: string

record GlobalIdentityPresenceBatchRequest =
  gipq_ProtocolVersion :: string
  gipq_RegistryScope :: string
  gipq_DeploymentID :: string
  gipq_Timestamp :: string
  gipq_Nonce :: string
  gipq_IdempotencyKey :: string
  gipq_SubmissionID :: string
  gipq_Period :: string
  gipq_Revision :: int
  gipq_SupersedesBatchID :: string
  gipq_ReportedQMAUCount :: int
  gipq_KeyVersion :: int
  gipq_Suite :: string
  gipq_ChunkIndex :: int
  gipq_ChunkCount :: int
  gipq_TotalCommitmentCount :: int
  gipq_CommitmentSetHash :: string
  gipq_Commitments :: "string list"
  gipq_PayloadHash :: string
  gipq_Signature :: string

record GlobalIdentityPresenceBatchResponse =
  gipp_ProtocolVersion :: string
  gipp_RegistryScope :: string
  gipp_SubmissionID :: string
  gipp_DeploymentID :: string
  gipp_Period :: string
  gipp_Revision :: int
  gipp_ChunkIndex :: int
  gipp_ChunkCount :: int
  gipp_ReceivedChunkCount :: int
  gipp_TotalCommitmentCount :: int
  gipp_CommitmentSetHash :: string
  gipp_Complete :: bool
  gipp_BatchID :: string
  gipp_LinkedCount :: int
  gipp_UnlinkedCount :: int
  gipp_Event :: "GlobalIdentityEvent option"
  gipp_Snapshot :: "GlobalIdentityDedupSnapshot option"
  gipp_RequestHash :: string
  gipp_PayloadHash :: string
  gipp_AcceptedAt :: string
  gipp_RegistryKeyID :: string
  gipp_RegistryPublicKey :: string
  gipp_ReceiptHash :: string
  gipp_ReceiptSignature :: string
  gipp_Duplicate :: bool

subsection \<open>Messages\<close>

definition GlobalIdentityVOPRFKeyMessage :: "GlobalIdentityVOPRFKey \<Rightarrow> bytes" where
  "GlobalIdentityVOPRFKeyMessage key = canonical
    [''myscoutee-registry-global-identity-voprf-key-v1'', gik_ProtocolVersion key,
     gik_RegistryScope key, FormatInt (gik_KeyVersion key), gik_Suite key, gik_Mode key,
     gik_PublicKey key, gik_Status key, gik_ActivatedAt key, gik_RegistryKeyID key]"

definition GlobalIdentityEvaluationPayload :: "int \<Rightarrow> string \<Rightarrow> string
    \<Rightarrow> bytes" where
  "GlobalIdentityEvaluationPayload keyVersion suite blindedElement = canonical
    [''myscoutee-registry-global-identity-evaluate-payload-v1'', FormatInt keyVersion, suite,
     blindedElement]"

definition GlobalIdentityEvaluationResult :: "int \<Rightarrow> string \<Rightarrow> string
    \<Rightarrow> string \<Rightarrow> string \<Rightarrow> bytes" where
  "GlobalIdentityEvaluationResult keyVersion suite publicKey evaluatedElement proof = canonical
    [''myscoutee-registry-global-identity-evaluation-result-v1'', FormatInt keyVersion, suite,
     publicKey, evaluatedElement, proof]"

definition GlobalIdentityEvaluationReceiptMessage :: "string \<Rightarrow> string \<Rightarrow>
    string \<Rightarrow> int \<Rightarrow> string \<Rightarrow> string \<Rightarrow> string
    \<Rightarrow> string \<Rightarrow> string \<Rightarrow> bytes" where
  "GlobalIdentityEvaluationReceiptMessage protocolVersion registryScope deploymentID keyVersion
      suite requestHash responseHash evaluatedAt registryKeyID = canonical
    [''myscoutee-registry-global-identity-evaluation-receipt-v1'', protocolVersion,
     registryScope, deploymentID, FormatInt keyVersion, suite, requestHash, responseHash,
     evaluatedAt, registryKeyID]"

definition NetworkIdentityCommitmentMessage :: "int \<Rightarrow> string \<Rightarrow> string
    \<Rightarrow> bytes" where
  "NetworkIdentityCommitmentMessage keyVersion suite voprfOutput = canonical
    [''myscoutee-network-identity-commitment-v1'', FormatInt keyVersion, suite, voprfOutput]"

definition GlobalIdentityLinkPayload :: "GlobalIdentityLinkRequest \<Rightarrow> bytes" where
  "GlobalIdentityLinkPayload request = canonical
    [''myscoutee-registry-global-identity-link-payload-v1'',
     FormatInt (gilq_KeyVersion request), gilq_Suite request,
     gilq_NetworkIdentityCommitment request, gilq_ConsentVersion request,
     gilq_ConsentEvidenceCommitment request, gilq_VerifiedAt request,
     gilq_EffectivePeriod request]"

definition GlobalIdentityLinkActionPayload :: "GlobalIdentityLinkActionRequest \<Rightarrow> bytes" where
  "GlobalIdentityLinkActionPayload request = canonical
    [''myscoutee-registry-global-identity-link-action-payload-v1'', gila_Action request,
     gila_LinkID request, FormatInt (gila_ReplacementKeyVersion request),
     gila_ReplacementSuite request, gila_ReplacementCommitment request,
     gila_ConsentVersion request, gila_ConsentEvidenceCommitment request,
     gila_VerifiedAt request, gila_EffectivePeriod request, gila_ReasonCommitment request]"

definition GlobalIdentityPresenceBatchPayload :: "GlobalIdentityPresenceBatchRequest \<Rightarrow>
    bytes" where
  "GlobalIdentityPresenceBatchPayload request = canonical (
    [''myscoutee-registry-global-identity-presence-chunk-v2'', gipq_SubmissionID request,
     gipq_Period request, FormatInt (gipq_Revision request), gipq_SupersedesBatchID request,
     FormatInt (gipq_ReportedQMAUCount request), FormatInt (gipq_KeyVersion request),
     gipq_Suite request, FormatInt (gipq_ChunkIndex request),
     FormatInt (gipq_ChunkCount request), FormatInt (gipq_TotalCommitmentCount request),
     gipq_CommitmentSetHash request, FormatInt (int (length (gipq_Commitments request)))] @
    gipq_Commitments request)"

definition GlobalIdentityPresenceCommitmentSetMessage :: "string list \<Rightarrow> bytes" where
  "GlobalIdentityPresenceCommitmentSetMessage commitments = canonical (
    [''myscoutee-registry-global-identity-presence-set-v1'', FormatInt (int (length commitments))] @
    commitments)"

definition GlobalIdentityLegacyPresenceBatchPayload :: "string \<Rightarrow> int \<Rightarrow>
    string \<Rightarrow> int \<Rightarrow> int \<Rightarrow> string \<Rightarrow> string list
    \<Rightarrow> bytes" where
  "GlobalIdentityLegacyPresenceBatchPayload period revision supersedesBatchID reportedQMAUCount
      keyVersion suite commitments = canonical (
    [''myscoutee-registry-global-identity-presence-batch-v1'', period, FormatInt revision,
     supersedesBatchID, FormatInt reportedQMAUCount, FormatInt keyVersion, suite,
     FormatInt (int (length commitments))] @
    commitments)"

definition GlobalIdentityPresenceChunkReceiptMessage :: "GlobalIdentityPresenceBatchResponse
    \<Rightarrow> bytes" where
  "GlobalIdentityPresenceChunkReceiptMessage response = 
     (let eventHash = (case gipp_Event response of None \<Rightarrow> [] | Some event \<Rightarrow>
         gie_EventHash event)
      in canonical
        [''myscoutee-registry-global-identity-presence-chunk-receipt-v2'',
         gipp_ProtocolVersion response, gipp_RegistryScope response, gipp_DeploymentID response,
         gipp_SubmissionID response, gipp_Period response, FormatInt (gipp_Revision response),
         FormatInt (gipp_ChunkIndex response), FormatInt (gipp_ChunkCount response),
         FormatInt (gipp_ReceivedChunkCount response),
         FormatInt (gipp_TotalCommitmentCount response), gipp_CommitmentSetHash response,
         gipp_RequestHash response, gipp_PayloadHash response, gipp_AcceptedAt response,
         FormatBool (gipp_Complete response), gipp_BatchID response, eventHash,
         gipp_RegistryKeyID response])"

definition GlobalIdentityPrivateEventCommitment :: "string \<Rightarrow> string \<Rightarrow> string
    \<Rightarrow> int \<Rightarrow> string \<Rightarrow> string \<Rightarrow> string \<Rightarrow>
    string \<Rightarrow> string \<Rightarrow> bytes" where
  "GlobalIdentityPrivateEventCommitment action deploymentID linkID keyVersion
      networkIdentityCommitment consentEvidenceCommitment reasonCommitment period payloadHash =
      canonical
    [''myscoutee-registry-global-identity-private-event-v1'', action, deploymentID, linkID,
     FormatInt keyVersion, networkIdentityCommitment, consentEvidenceCommitment,
     reasonCommitment, period, payloadHash]"

definition GlobalIdentityEventHashMessage :: "GlobalIdentityEvent \<Rightarrow> bytes" where
  "GlobalIdentityEventHashMessage event = canonical
    [''myscoutee-registry-global-identity-event-v1'', FormatInt (gie_EventIndex event),
     gie_EventID event, gie_Action event, gie_DeploymentID event, gie_Period event,
     gie_AggregateCommitment event, FormatInt (gie_ReportedCount event),
     FormatInt (gie_DeduplicatedCount event), gie_AcceptedAt event, gie_PreviousEventHash event,
     gie_RegistryScope event, gie_RegistryKeyID event]"

definition GlobalIdentityEventReceiptMessage :: "GlobalIdentityEvent \<Rightarrow> bytes" where
  "GlobalIdentityEventReceiptMessage event = canonical
    [''myscoutee-registry-global-identity-event-receipt-v1'', gie_EventHash event,
     gie_RegistryKeyID event]"

definition GlobalIdentitySnapshotCommitmentMessage :: "string \<Rightarrow> int \<Rightarrow> int
    \<Rightarrow> int \<Rightarrow> int \<Rightarrow> int \<Rightarrow> int \<Rightarrow> int
    \<Rightarrow> int \<Rightarrow> int \<Rightarrow> string \<Rightarrow> bytes" where
  "GlobalIdentitySnapshotCommitmentMessage period revision reportedQMAUCount linkedObservationCount
      globallyUniqueLinkedCount unlinkedQMAUCount deduplicatedNetworkQMAU duplicateReduction
      coveredDeploymentCount throughEventIndex privateEventHash = canonical
    [''myscoutee-registry-global-identity-snapshot-v1'', period, FormatInt revision,
     FormatInt reportedQMAUCount, FormatInt linkedObservationCount,
     FormatInt globallyUniqueLinkedCount, FormatInt unlinkedQMAUCount,
     FormatInt deduplicatedNetworkQMAU, FormatInt duplicateReduction,
     FormatInt coveredDeploymentCount, FormatInt throughEventIndex, privateEventHash]"


end
