(* ===== verification/Spec2Isabelle.thy ===== *)
theory Spec2Isabelle
  imports Registry_Service Settlement_Verify Protocol_Notices Protocol_Identity
begin

text \<open>
  A model of the MyScoutee registry (\<open>src/registry\<close>, Go) and the theorems that make its core correct.

  \<^bold>\<open>The program.\<close>  The registry is a server that lets independent deployments of an application record
  their monthly user counts and their daily revenue in one append-only, hash-chained ledger, and that
  divides a monthly commission pool among the operators of the deployments.  A request passes
  \<open>httpapi\<close> (routing and JSON), \<open>service\<close> (validation, signatures, receipts) and \<open>store/sqlite\<close> (one SQL
  transaction per operation).  Every entry is committed to by the hash of the next one, by a Merkle tree
  over the entry hashes (\<open>protocol/merkle.go\<close>, verified by clients) and by a signed checkpoint per day.
  Beside the ledger the store keeps the operator network: an audit log of signed operator actions, the
  reviews of operator claims and the decisions on their eligibility, again as hash chains, with tables of
  the current state that are derived from them.  A settlement reads the revenue of twelve months, the
  weights of the leaderboard and the heads of all logs, and appends one ledger entry.

  \<^bold>\<open>How code becomes definitions.\<close>  Go's \<open>string\<close> and \<open>[]byte\<close> are both \<open>char list\<close>; \<open>int64\<close> is an \<open>int\<close>
  with the wrap-around \<open>i64\<close> written at every sum, product and shift that can leave the range.  A struct is a
  record whose fields keep the source's names behind a short prefix.  A function that returns an error is
  a function into \<open>error + result\<close>; a chain of \<open>if err != nil\<close> is a chain of \<open>bindR\<close>.  A panic of the
  runtime (a slice out of range) is an error value too.  A SQL table is a list of rows, a transaction a
  function from the database record to an error or a new database, so that a failed transaction changes
  nothing; an \<open>INSERT\<close> checks the constraints of the schema and fails with \<open>ConstraintFailed\<close>.  A query is a
  filter, a sort or a maximum over the list, and \<open>SUM\<close> fails when it leaves 64 bits.  A loop is a
  terminating function, or a \<open>partial_function\<close> in the option monad where the Go loop may not end, with
  \<open>None\<close> for not returning; no fuel is used anywhere.  The bounds that appear in the theorems are those of
  64-bit arithmetic: a ledger or log of fewer than \<open>2 ^ 62\<close> entries.  SHA-256, Ed25519, the current time,
  random identifiers and the signers passed to the store are parameters; what the proofs need of them is
  the length of a digest (\<open>digest32\<close>), that a signature verifies (\<open>signs\<close>, \<open>crypto_ok\<close>), or
  injectivity on the messages in question.  \<open>Sha256\<close> also defines SHA-256 itself, as an instance.

  \<^bold>\<open>Theories.\<close>
  \<^item> \<open>Registry_Prelude\<close>: results, 64-bit integers, decimal and hexadecimal text, canonical line lists,
    and the collections \<open>result_simps\<close> and \<open>nolf_intros\<close> the other theories extend.
  \<^item> \<open>Sha256\<close>, \<open>Go_Time\<close>, \<open>Go_Calendar\<close>, \<open>Go_Sort\<close>: the parts of Go's standard library the code uses.
    Parsing and formatting of times are inverse, and the order of canonical texts is the order of the
    instants; \<open>sort.Slice\<close> is an insertion sort with the locale \<open>slice_order\<close> for comparators.
  \<^item> \<open>Event_Chain\<close>: the pattern of the hash-chained logs, as the locale \<open>event_log\<close>: the head hash of a chain
    determines its events.
  \<^item> \<open>Protocol_Core\<close>, \<open>Protocol_Money\<close>, \<open>Protocol_Operator\<close>, \<open>Protocol_Exit\<close>, \<open>Protocol_Notices\<close>,
    \<open>Protocol_Identity\<close> (\<open>protocol/*.go\<close>): wire records, constants, canonical messages, digests and text
    encodings; the messages are injective in the fields they commit to, and the commission arithmetic is
    exact.
  \<^item> \<open>Merkle_Proofs\<close> (\<open>protocol/merkle.go\<close>): the verifiers of inclusion and consistency proofs against
    the tree hash of RFC 9162; soundness up to a collision, termination up to \<open>2 ^ 62\<close> entries and
    non-termination above.
  \<^item> \<open>Registry_Db\<close>, \<open>Operator_Db\<close> (\<open>store/*.go\<close>, \<open>store/sqlite/migrations\<close>): the tables, as the records
    \<open>registry_db\<close>, \<open>operator_tables\<close> and \<open>transfer_tables\<close>, and the inserts with their constraints.
  \<^item> \<open>Merkle_Store\<close> (\<open>store/sqlite/merkle.go\<close>): the stored tree, its append, backfill, proofs and check.
  \<^item> \<open>Ledger_Store\<close> (\<open>registrations.go\<close>, \<open>batches.go\<close>, \<open>verify.go\<close> and the shared queries of \<open>sqlite.go\<close>):
    \<open>RegisterDeployment\<close>, \<open>AcceptInstallationBatch\<close> and \<open>VerifyLedger\<close>; accepted batches keep every check passing,
    retries change nothing, and the head hash commits to the whole ledger.
  \<^item> \<open>Revenue_Store\<close> (\<open>revenue.go\<close>, \<open>revenue_verify.go\<close>): \<open>AcceptRevenueBatch\<close>, the capacity guard and
    \<open>RevenueSummary\<close>; totals never overflow and summaries are exact.
  \<^item> \<open>Checkpoint_Store\<close> (\<open>checkpoints.go\<close>): finalizing leaves no completed day out and keeps the chain of
    checkpoints verifiable, and so does every operation that satisfies the locale \<open>ledger_appender\<close>, which
    is interpreted on the two accepting operations and, in \<open>Settlement_Store\<close>, on the settlement.
  \<^item> \<open>Operator_Store\<close> (\<open>operator.go\<close>, \<open>operator_state.go\<close>, \<open>operator_state_verify.go\<close>) and
    \<open>Operator_Claims\<close> (\<open>operator_claims.go\<close>, \<open>operator_claim_eligibility.go\<close> and their checks):
    \<open>AppendOperatorAction\<close>, \<open>DecideOperatorClaim\<close>, \<open>DecideOperatorClaimEligibility\<close>.  The state rows refine
    the replay of the log; in every state the step relation \<open>operator_step\<close> reaches, the checks pass
    and the stored eligibility is what the logs say.
  \<^item> \<open>Leaderboard_Store\<close> (\<open>leaderboard.go\<close>, the group subquery of \<open>RevenueSummary\<close>, \<open>settlementWeightSourcesTx\<close>):
    memberships and weights at a boundary, rankings and their pages, the weights of a settlement.
  \<^item> \<open>Settlement_Math\<close>, \<open>Settlement_Store\<close> (\<open>settlement.go\<close>), \<open>Settlement_Verify\<close> (\<open>settlement_verify.go\<close>):
    shares, the largest-remainder division, \<open>CalculateSettlement\<close>, reading a settlement back, and the
    check that recomputes every stored settlement.
  \<^item> \<open>Registry_Service\<close> (\<open>service/merkle.go\<close>, \<open>identity/signing_key.go\<close>): the handlers that serve signed tree
    heads and proofs; what they serve is accepted by the verifiers of \<open>Merkle_Proofs\<close>.

  \<^bold>\<open>Findings.\<close>  Three theorems state defects: the consistency verifier loops forever on a signed head of
  more than \<open>2 ^ 62\<close> entries; a claim withdrawal stamped before a decision but committed after it is accepted
  and makes the check of the decisions fail; a settlement whose sources return to an earlier state can
  no longer be calculated.

  \<^bold>\<open>Not modelled.\<close>  HTTP, command line, configuration, key files and the opening of the database are I/O.
  The services around the stores (request validation, cursors, JSON views) are modelled for the Merkle
  endpoints only.  Announcements, registry cases, exit reviews and allocations, the workflow of
  ownership transfers and the global identities keep separate tables that the modelled operations
  do not write; their messages are modelled, and of the transfers the rows that the leaderboard and the
  settlements read.  Of the whole-database checks, those of the ledger, the Merkle index, the weight
  rows, the revenue aggregates, the checkpoints, the settlements and the operator tables are modelled;
  \<open>verifyRevenueBatches\<close>, \<open>verifyOperatorActionSemantics\<close> and the sweeps of \<open>integrity.go\<close> over records and
  nonces are not, nor are paged history queries.  Concurrency is the order of the transactions: the
  store runs one write transaction at a time.
\<close>

end
